(* ===== verification/TokPrelude.thy ===== *)
theory TokPrelude
  imports Main "HOL-Library.AList" "HOL-Library.Multiset" "HOL-Library.Sublist"
begin

section \<open>Prelude: Python strings, dictionaries and the shared list lemmas\<close>

text \<open>
  What every component of the development uses: the parts of Python's \<open>str\<close> that the modelled
  code calls (\<open>strip\<close>, \<open>lower\<close>, \<open>startswith\<close>, \<open>in\<close>, \<open>find\<close>, decimal rendering), \<open>dict\<close> as
  an association list in insertion order, and generic lemmas on lists.

  A Python string is a HOL \<^typ>\<open>string\<close>: a list of characters whose codes are below 256, so the
  model covers the Latin-1 range of code points. \<open>py_space\<close> is the set of code points of that
  range for which \<open>str.isspace\<close> holds, which is what \<open>strip()\<close> removes.
\<close>

named_theorems tok_str \<open>equations on Python strings\<close>
named_theorems tok_dict \<open>equations on dictionaries and counters\<close>
named_theorems tok_blocks \<open>equations on content blocks and messages\<close>

subsection \<open>Strings\<close>

definition py_space :: "char \<Rightarrow> bool" where
  "py_space c = (let n = (of_char c :: nat) in
     (9 \<le> n \<and> n \<le> 13) \<or> (28 \<le> n \<and> n \<le> 32) \<or> n = 133 \<or> n = 160)"

definition strip_by :: "(char \<Rightarrow> bool) \<Rightarrow> string \<Rightarrow> string" where
  "strip_by P s = rev (dropWhile P (rev (dropWhile P s)))"

definition py_strip :: "string \<Rightarrow> string" where
  "py_strip s = strip_by py_space s"

definition lower_char :: "char \<Rightarrow> char" where
  "lower_char c = (let n = (of_char c :: nat) in
     if (65 \<le> n \<and> n \<le> 90) \<or> (192 \<le> n \<and> n \<le> 222 \<and> n \<noteq> 215) then char_of (n + 32) else c)"

definition py_lower :: "string \<Rightarrow> string" where
  "py_lower s = map lower_char s"

fun py_find :: "string \<Rightarrow> string \<Rightarrow> nat option" where
  "py_find pat [] = (if pat = [] then Some 0 else None)"
| "py_find pat (c # cs) =
     (if prefix pat (c # cs) then Some 0 else map_option Suc (py_find pat cs))"

definition py_contains :: "string \<Rightarrow> string \<Rightarrow> bool" where
  "py_contains pat s = (py_find pat s \<noteq> None)"

definition digit_char :: "nat \<Rightarrow> char" where
  "digit_char d = char_of (48 + d)"

fun nat_str :: "nat \<Rightarrow> string" where
  "nat_str n = (if n < 10 then [digit_char n] else nat_str (n div 10) @ [digit_char (n mod 10)])"

declare nat_str.simps [simp del]

definition int_str :: "int \<Rightarrow> string" where
  "int_str i = (if i < 0 then CHR ''-'' # nat_str (nat (- i)) else nat_str (nat i))"

definition utf8_char :: "char \<Rightarrow> string" where
  "utf8_char c = (let n = (of_char c :: nat) in
     if n < 128 then [c] else [char_of (192 + n div 64), char_of (128 + n mod 64)])"

definition utf8_encode :: "string \<Rightarrow> string" where
  "utf8_encode s = concat (map utf8_char s)"

lemma dropWhile_rev_dropWhile:
  "dropWhile P (rev (dropWhile P (rev (dropWhile P s)))) = rev (dropWhile P (rev (dropWhile P s)))"
proof -
  define t where "t = dropWhile P s"
  define u where "u = rev (dropWhile P (rev t))"
  have "t = u @ rev (takeWhile P (rev t))"
    unfolding u_def by (metis rev_append rev_rev_ident takeWhile_dropWhile_id)
  then have "u = [] \<or> hd u = hd t \<and> t \<noteq> []"
    by (metis append_is_Nil_conv hd_append2)
  moreover have "\<not> P (hd t)" if "t \<noteq> []"
    using that hd_dropWhile [of P s] by (simp add: t_def)
  ultimately have "u = [] \<or> \<not> P (hd u)" by auto
  then have "dropWhile P u = u" by (cases u) auto
  then show ?thesis by (simp add: u_def t_def)
qed

lemma strip_by_idem [simp]: "strip_by P (strip_by P s) = strip_by P s"
  by (simp add: strip_by_def dropWhile_rev_dropWhile)

lemma py_strip_idem [simp]: "py_strip (py_strip s) = py_strip s"
  by (simp add: py_strip_def)

lemma strip_by_Nil [simp]: "strip_by P [] = []"
  by (simp add: strip_by_def)

lemma py_strip_Nil [simp]: "py_strip [] = []"
  by (simp add: py_strip_def)

lemma strip_by_subset: "set (strip_by P s) \<subseteq> set s"
proof
  fix c assume "c \<in> set (strip_by P s)"
  then have "c \<in> set (dropWhile P (rev (dropWhile P s)))" by (simp add: strip_by_def)
  then have "c \<in> set (rev (dropWhile P s))" by (blast dest: set_dropWhileD)
  then have "c \<in> set (dropWhile P s)" by simp
  then show "c \<in> set s" by (blast dest: set_dropWhileD)
qed

lemma strip_by_id: "\<forall>c \<in> set s. \<not> P c \<Longrightarrow> strip_by P s = s"
proof -
  assume "\<forall>c \<in> set s. \<not> P c"
  then have "dropWhile P s = s" and "dropWhile P (rev s) = rev s"
    by (metis dropWhile_eq_self_iff hd_in_set, metis dropWhile_eq_self_iff hd_in_set set_rev)
  then show ?thesis by (simp add: strip_by_def)
qed

lemma py_strip_id: "\<forall>c \<in> set s. \<not> py_space c \<Longrightarrow> py_strip s = s"
  by (simp add: py_strip_def strip_by_id)

lemma strip_by_Nil_iff: "strip_by P s = [] \<longleftrightarrow> (\<forall>c \<in> set s. P c)"
proof -
  have "strip_by P s = [] \<longleftrightarrow> (\<forall>c \<in> set (dropWhile P s). P c)"
    by (simp add: strip_by_def)
  also have "\<dots> \<longleftrightarrow> (\<forall>c \<in> set s. P c)"
  proof
    assume all: "\<forall>c \<in> set (dropWhile P s). P c"
    then have "dropWhile P s = []"
      by (metis hd_dropWhile list.set_sel(1))
    then show "\<forall>c \<in> set s. P c" by simp
  qed (auto dest: set_dropWhileD)
  finally show ?thesis .
qed

lemma py_find_Some_prefix: "py_find pat s = Some i \<Longrightarrow> prefix pat (drop i s)"
  by (induction pat s arbitrary: i rule: py_find.induct) (auto split: if_splits)

lemma py_find_bound: "py_find pat s = Some i \<Longrightarrow> i + length pat \<le> length s"
proof -
  assume found: "py_find pat s = Some i"
  have i: "i \<le> length s"
    using found by (induction pat s arbitrary: i rule: py_find.induct) (auto split: if_splits)
  from found have "prefix pat (drop i s)" by (rule py_find_Some_prefix)
  then have "length pat \<le> length (drop i s)" by (rule prefix_length_le)
  with i show ?thesis by simp
qed

lemma py_find_None_iff: "py_find pat s = None \<longleftrightarrow> (\<forall>i \<le> length s. \<not> prefix pat (drop i s))"
proof (induction pat s rule: py_find.induct)
  case (1 pat)
  then show ?case by (auto simp: prefix_def)
next
  case (2 pat c cs)
  show ?case
  proof (cases "prefix pat (c # cs)")
    case True
    then have "prefix pat (drop 0 (c # cs))" by simp
    with True show ?thesis by (metis le0 option.distinct(1) py_find.simps(2))
  next
    case False
    have split: "(\<forall>i \<le> length (c # cs). \<not> prefix pat (drop i (c # cs))) \<longleftrightarrow>
        \<not> prefix pat (c # cs) \<and> (\<forall>i \<le> length cs. \<not> prefix pat (drop i cs))"
      (is "?l \<longleftrightarrow> ?r")
    proof
      assume l: ?l
      have "\<not> prefix pat (drop i cs)" if "i \<le> length cs" for i
        using l [rule_format, of "Suc i"] that by simp
      moreover have "\<not> prefix pat (c # cs)" using l [rule_format, of 0] by simp
      ultimately show ?r by blast
    next
      assume r: ?r
      show ?l
      proof (intro allI impI)
        fix i assume "i \<le> length (c # cs)"
        then show "\<not> prefix pat (drop i (c # cs))" using r by (cases i) auto
      qed
    qed
    with False 2 show ?thesis by simp
  qed
qed

lemma py_find_least: "py_find pat s = Some i \<Longrightarrow> j < i \<Longrightarrow> \<not> prefix pat (drop j s)"
proof (induction pat s arbitrary: i j rule: py_find.induct)
  case (1 pat)
  then show ?case by (simp split: if_splits)
next
  case (2 pat c cs)
  then show ?case by (cases j) (auto split: if_splits)
qed

subsection \<open>Decimal rendering is injective\<close>

definition decimal_value :: "string \<Rightarrow> nat" where
  "decimal_value s = foldl (\<lambda>a c. 10 * a + (of_char c - 48)) 0 s"

lemma of_char_digit: "d < 10 \<Longrightarrow> of_char (digit_char d) = 48 + d"
  by (simp add: digit_char_def)

lemma decimal_value_nat_str [simp]: "decimal_value (nat_str n) = n"
proof (induction n rule: nat_str.induct)
  case (1 n)
  show ?case
  proof (cases "n < 10")
    case True
    then show ?thesis by (subst nat_str.simps) (simp add: decimal_value_def of_char_digit)
  next
    case False
    with 1 have "decimal_value (nat_str (n div 10)) = n div 10" by simp
    with False show ?thesis
      by (subst nat_str.simps) (simp add: decimal_value_def of_char_digit)
  qed
qed

lemma nat_str_inject [simp]: "nat_str m = nat_str n \<longleftrightarrow> m = n"
  by (metis decimal_value_nat_str)

lemma nat_str_digits: "c \<in> set (nat_str n) \<Longrightarrow> \<exists>d < 10. c = digit_char d"
proof (induction n rule: nat_str.induct)
  case (1 n)
  show ?case
  proof (cases "n < 10")
    case True
    with 1 show ?thesis by (auto simp: nat_str.simps [of n])
  next
    case False
    with 1 have "c \<in> set (nat_str (n div 10)) \<or> c = digit_char (n mod 10)"
      by (auto simp: nat_str.simps [of n])
    moreover have "n mod 10 < 10" by simp
    ultimately show ?thesis using 1 False by blast
  qed
qed

lemma nat_str_nonempty [simp]: "nat_str n \<noteq> []"
  by (subst nat_str.simps) simp

subsection \<open>Dictionaries\<close>

text \<open>
  A \<open>dict\<close> with string keys is an association list in insertion order. \<open>d[k] = v\<close> is
  \<^const>\<open>AList.update\<close>, which overwrites in place or appends; \<open>d.get(k)\<close> is \<^const>\<open>map_of\<close>;
  \<open>d.update(e)\<close> stores the entries of \<open>e\<close> one after the other.
\<close>

type_synonym 'v dict = "(string \<times> 'v) list"

definition dict_set :: "'k \<Rightarrow> 'v \<Rightarrow> ('k \<times> 'v) list \<Rightarrow> ('k \<times> 'v) list" where
  "dict_set k v d = AList.update k v d"

definition dict_update :: "('k \<times> 'v) list \<Rightarrow> ('k \<times> 'v) list \<Rightarrow> ('k \<times> 'v) list" where
  "dict_update d e = foldl (\<lambda>acc (k, v). dict_set k v acc) d e"

definition dict_pop :: "'k \<Rightarrow> ('k \<times> 'v) list \<Rightarrow> ('k \<times> 'v) list" where
  "dict_pop k d = filter (\<lambda>(k', _). k' \<noteq> k) d"

lemma map_of_dict_set [tok_dict, simp]: "map_of (dict_set k v d) = (map_of d)(k \<mapsto> v)"
  by (simp add: dict_set_def update_conv')

lemma dict_set_nonempty [simp]: "dict_set k v d \<noteq> []"
  by (cases d) (auto simp: dict_set_def)

lemma distinct_dict_set: "distinct (map fst d) \<Longrightarrow> distinct (map fst (dict_set k v d))"
  by (simp add: dict_set_def distinct_update)

lemma keys_dict_set: "set (map fst (dict_set k v d)) = insert k (set (map fst d))"
proof -
  have "dom (map_of (dict_set k v d)) = insert k (dom (map_of d))" by simp
  then show ?thesis unfolding dom_map_of_conv_image_fst by simp
qed

lemma map_of_dict_pop [tok_dict, simp]: "map_of (dict_pop k d) = (map_of d)(k := None)"
  by (induction d) (auto simp: dict_pop_def)

text \<open>Collecting Python exceptions: a computation that may raise is a sum with the error on the left.\<close>

datatype py_error = TypeError | AttributeError | UnboundLocalError | RuntimeError | OSErrorRaised
  | KeyErrorRaised | ValueErrorRaised | UnicodeErrorRaised | NameErrorRaised | IndexErrorRaised | ZeroDivisionRaised

type_synonym 'a py = "py_error + 'a"

definition bind_py :: "'a py \<Rightarrow> ('a \<Rightarrow> 'b py) \<Rightarrow> 'b py" where
  "bind_py r f = (case r of Inl e \<Rightarrow> Inl e | Inr x \<Rightarrow> f x)"

lemma bind_py_simps [simp]:
  "bind_py (Inl e) f = Inl e"
  "bind_py (Inr x) f = f x"
  by (simp_all add: bind_py_def)

lemma bind_py_Inr_iff: "bind_py r f = Inr y \<longleftrightarrow> (\<exists>x. r = Inr x \<and> f x = Inr y)"
  by (cases r) auto

lemma bind_py_Inr_E:
  assumes "bind_py r f = Inr y"
  obtains x where "r = Inr x" and "f x = Inr y"
  using assms by (auto simp: bind_py_Inr_iff)

subsection \<open>Lists\<close>

lemma filter_partition_mset:
  "mset (filter P xs @ filter (\<lambda>x. \<not> P x) xs) = mset xs"
  by (induction xs) auto

lemma map_filter_concat: "concat (map (filter P) xss) = filter P (concat xss)"
  by (induction xss) auto

text \<open>Reading every element of a list, or failing.\<close>

fun all_some :: "'a option list \<Rightarrow> 'a list option" where
  "all_some [] = Some []"
| "all_some (None # xs) = None"
| "all_some (Some x # xs) = map_option (\<lambda>ys. x # ys) (all_some xs)"

lemma all_some_map [simp]: "all_some (map Some xs) = Some xs"
  by (induction xs) simp_all

end
