(* ===== verification/PyJson.thy ===== *)
theory PyJson
  imports TokPrelude "HOL-Library.List_Lexorder" "HOL-Library.Char_ord"
begin

section \<open>JSON values as the Python code sees them\<close>

text \<open>
  Request bodies reach the bridge as the result of \<open>json.loads\<close>: \<open>None\<close>, booleans, integers,
  floats, strings, lists and dictionaries with string keys. \<open>json\<close> is that universe. A float is
  carried as the text Python prints for it, because the modelled code never computes with a
  float of a body; it only compares, prints and tests it. A dictionary keeps insertion order.

  The theory defines what the code uses of the language on such values: \<open>isinstance\<close> tests,
  \<open>dict.get\<close>, item assignment, \<open>str()\<close> and \<open>repr()\<close>, truth value, \<open>==\<close>, and
  \<open>json.dumps(..., sort_keys=True, separators=(",", ":"))\<close>.
\<close>

datatype json =
    JNull
  | JBool bool
  | JInt int
  | JFloat string
  | JStr string
  | JList "json list"
  | JObj "(string \<times> json) list"

subsection \<open>Type tests and access\<close>

fun is_dict :: "json \<Rightarrow> bool" where
  "is_dict (JObj _) = True"
| "is_dict _ = False"

fun is_list :: "json \<Rightarrow> bool" where
  "is_list (JList _) = True"
| "is_list _ = False"

fun is_str :: "json \<Rightarrow> bool" where
  "is_str (JStr _) = True"
| "is_str _ = False"

fun type_name :: "json \<Rightarrow> string" where
  "type_name JNull = ''NoneType''"
| "type_name (JBool _) = ''bool''"
| "type_name (JInt _) = ''int''"
| "type_name (JFloat _) = ''float''"
| "type_name (JStr _) = ''str''"
| "type_name (JList _) = ''list''"
| "type_name (JObj _) = ''dict''"

text \<open>\<open>d.get(k)\<close>, \<open>d.get(k, default)\<close> and \<open>d[k] = v\<close>; the code calls them on dictionaries only.\<close>

fun jget :: "string \<Rightarrow> json \<Rightarrow> json option" where
  "jget k (JObj d) = map_of d k"
| "jget k _ = None"

definition jget_or :: "string \<Rightarrow> json \<Rightarrow> json \<Rightarrow> json" where
  "jget_or k dflt j = (case jget k j of None \<Rightarrow> dflt | Some v \<Rightarrow> v)"

fun jset :: "string \<Rightarrow> json \<Rightarrow> json \<Rightarrow> json" where
  "jset k v (JObj d) = JObj (dict_set k v d)"
| "jset k v j = j"

lemma jget_jset [simp]: "is_dict j \<Longrightarrow> jget k (jset k' v j) = (if k = k' then Some v else jget k j)"
  by (cases j) auto

lemma is_dict_jset [simp]: "is_dict (jset k v j) = is_dict j"
  by (cases j) auto

lemma jget_SomeD: "jget k j = Some v \<Longrightarrow> is_dict j"
  by (cases j) auto

subsection \<open>Printing\<close>

fun join :: "string \<Rightarrow> string list \<Rightarrow> string" where
  "join sep [] = []"
| "join sep [s] = s"
| "join sep (s # ss) = s @ sep @ join sep ss"

definition hex_digit :: "nat \<Rightarrow> char" where
  "hex_digit d = (if d < 10 then char_of (48 + d) else char_of (87 + d))"

definition hex2 :: "nat \<Rightarrow> string" where
  "hex2 n = [hex_digit (n div 16), hex_digit (n mod 16)]"

text \<open>\<open>repr\<close> of a string: the quote is \<open>'\<close> unless the text has a \<open>'\<close> and no \<open>"\<close>.\<close>

definition repr_char :: "char \<Rightarrow> char \<Rightarrow> string" where
  "repr_char q c = (let n = (of_char c :: nat) in
     if c = q \<or> n = 92 then [char_of (92 :: nat), c]
     else if n = 10 then [char_of (92 :: nat), CHR ''n'']
     else if n = 13 then [char_of (92 :: nat), CHR ''r'']
     else if n = 9 then [char_of (92 :: nat), CHR ''t'']
     else if n < 32 \<or> (127 \<le> n \<and> n \<le> 160) \<or> n = 173 then [char_of (92 :: nat), CHR ''x''] @ hex2 n
     else [c])"

definition str_repr :: "string \<Rightarrow> string" where
  "str_repr s = (let sq = char_of (39 :: nat); dq = char_of (34 :: nat);
                     q = (if sq \<in> set s \<and> dq \<notin> set s then dq else sq)
                 in [q] @ concat (map (repr_char q) s) @ [q])"

fun py_repr :: "json \<Rightarrow> string" where
  "py_repr JNull = ''None''"
| "py_repr (JBool b) = (if b then ''True'' else ''False'')"
| "py_repr (JInt i) = int_str i"
| "py_repr (JFloat t) = t"
| "py_repr (JStr s) = str_repr s"
| "py_repr (JList xs) = ''['' @ join '', '' (map py_repr xs) @ '']''"
| "py_repr (JObj d) = ''{'' @ join '', '' (map (\<lambda>(k, v). str_repr k @ '': '' @ py_repr v) d) @ ''}''"

text \<open>\<open>str(x)\<close>: a string is itself, everything else prints as its \<open>repr\<close>.\<close>

fun py_str :: "json \<Rightarrow> string" where
  "py_str (JStr s) = s"
| "py_str j = py_repr j"

definition str_strip :: "json \<Rightarrow> string" where
  "str_strip j = py_strip (py_str j)"

lemma str_strip_JStr [simp]: "str_strip (JStr s) = py_strip s"
  by (simp add: str_strip_def)

text \<open>A value can be a dictionary key or a member of a set only when it is hashable.\<close>

fun hashable :: "json \<Rightarrow> bool" where
  "hashable (JList _) = False"
| "hashable (JObj _) = False"
| "hashable _ = True"

text \<open>\<open>x in {"a", "b"}\<close> for a set of strings: hashing a list or a dictionary raises \<open>TypeError\<close>.\<close>

definition in_str_set :: "json \<Rightarrow> string list \<Rightarrow> bool py" where
  "in_str_set j ss = (if hashable j then Inr (j \<in> JStr ` set ss) else Inl TypeError)"

lemma in_str_set_JStr [simp]: "in_str_set (JStr s) ss = Inr (s \<in> set ss)"
  by (auto simp: in_str_set_def)

subsection \<open>Truth value and equality\<close>

fun truthy :: "json \<Rightarrow> bool" where
  "truthy JNull = False"
| "truthy (JBool b) = b"
| "truthy (JInt i) = (i \<noteq> 0)"
| "truthy (JFloat t) = (t \<noteq> ''0.0'' \<and> t \<noteq> ''-0.0'')"
| "truthy (JStr s) = (s \<noteq> [])"
| "truthy (JList xs) = (xs \<noteq> [])"
| "truthy (JObj d) = (d \<noteq> [])"

text \<open>
  \<open>a == b\<close> ignores the order of dictionary entries and identifies \<open>True\<close> with \<open>1\<close> and
  \<open>False\<close> with \<open>0\<close>. Both are removed by a canonical form, on which equality is plain
  equality. (A float equals an integer in Python when their values agree; bodies that differ
  only in that are told apart here.)
\<close>

fun jcanon :: "json \<Rightarrow> json" where
  "jcanon JNull = JNull"
| "jcanon (JBool b) = JInt (if b then 1 else 0)"
| "jcanon (JInt i) = JInt i"
| "jcanon (JFloat t) = JFloat t"
| "jcanon (JStr s) = JStr s"
| "jcanon (JList xs) = JList (map jcanon xs)"
| "jcanon (JObj d) = JObj (sort_key fst (map (\<lambda>(k, v). (k, jcanon v)) d))"

definition py_eq :: "json \<Rightarrow> json \<Rightarrow> bool" where
  "py_eq a b = (jcanon a = jcanon b)"

lemma py_eq_refl [simp]: "py_eq a a"
  by (simp add: py_eq_def)

lemma py_eq_trans: "py_eq a b \<Longrightarrow> py_eq b c \<Longrightarrow> py_eq a c"
  by (simp add: py_eq_def)

lemma py_eq_sym: "py_eq a b \<Longrightarrow> py_eq b a"
  by (simp add: py_eq_def)

lemma jcanon_JStr_iff: "jcanon j = JStr s \<longleftrightarrow> j = JStr s"
  by (cases j) auto

lemma map_of_sort_key_fst: "map_of (sort_key fst d) = map_of d"
proof
  fix k
  have first: "map_of e k = (case filter (\<lambda>y. fst y = k) e of [] \<Rightarrow> None | y # _ \<Rightarrow> Some (snd y))"
    for e :: "('a \<times> 'b) list"
    by (induction e) auto
  have "filter (\<lambda>y. fst y = k) (sort_key fst d) = filter (\<lambda>y. fst y = k) d"
    by (rule sort_key_stable)
  then show "map_of (sort_key fst d) k = map_of d k"
    by (simp add: first [of "sort_key fst d"] first [of d])
qed

lemma jget_jcanon: "jget k (jcanon j) = map_option jcanon (jget k j)"
proof (cases j)
  case (JObj d)
  have "map_of (map (\<lambda>(k, v). (k, jcanon v)) d) k = map_option jcanon (map_of d k)"
    by (induction d) auto
  with JObj show ?thesis by (simp add: map_of_sort_key_fst)
qed auto

lemma is_dict_jcanon [simp]: "is_dict (jcanon j) = is_dict j"
  by (cases j) auto

lemma py_eq_is_dict: "py_eq a b \<Longrightarrow> is_dict a = is_dict b"
  by (metis is_dict_jcanon py_eq_def)

lemma py_eq_jget:
  assumes "py_eq a b"
  shows "map_option jcanon (jget k a) = map_option jcanon (jget k b)"
  using assms by (simp add: py_eq_def jget_jcanon [symmetric])

lemma py_eq_jget_str: "py_eq a b \<Longrightarrow> jget k a = Some (JStr s) \<longleftrightarrow> jget k b = Some (JStr s)"
proof -
  have flip: "jget k c = Some (JStr s) \<longleftrightarrow> map_option jcanon (jget k c) = Some (JStr s)" for c
    by (auto simp: jcanon_JStr_iff)
  assume "py_eq a b"
  then show ?thesis unfolding flip [of a] flip [of b] by (simp add: py_eq_jget)
qed

subsection \<open>Lists of values compared with \<open>==\<close>\<close>

definition py_eq_list :: "json list \<Rightarrow> json list \<Rightarrow> bool" where
  "py_eq_list xs ys = (map jcanon xs = map jcanon ys)"

lemma py_eq_list_refl [simp]: "py_eq_list xs xs"
  by (simp add: py_eq_list_def)

lemma py_eq_list_conv: "py_eq_list xs ys \<longleftrightarrow> list_all2 py_eq xs ys"
  by (auto simp: py_eq_list_def py_eq_def list_all2_conv_all_nth list_eq_iff_nth_eq)

lemma py_eq_JList [simp]: "py_eq (JList xs) (JList ys) = py_eq_list xs ys"
  by (simp add: py_eq_def py_eq_list_def)

subsection \<open>\<open>json.dumps\<close> with sorted keys\<close>

definition dumps_char :: "char \<Rightarrow> string" where
  "dumps_char c = (let n = (of_char c :: nat); bs = char_of (92 :: nat) in
     if n = 34 \<or> n = 92 then [bs, c]
     else if n = 10 then [bs, CHR ''n'']
     else if n = 13 then [bs, CHR ''r'']
     else if n = 9 then [bs, CHR ''t'']
     else if n = 12 then [bs, CHR ''f'']
     else if n = 8 then [bs, CHR ''b'']
     else if n < 32 \<or> 127 \<le> n then [bs, CHR ''u'', CHR ''0'', CHR ''0''] @ hex2 n
     else [c])"

definition dumps_str :: "string \<Rightarrow> string" where
  "dumps_str s = [char_of (34 :: nat)] @ concat (map dumps_char s) @ [char_of (34 :: nat)]"

fun dumps_compact :: "json \<Rightarrow> string" where
  "dumps_compact JNull = ''null''"
| "dumps_compact (JBool b) = (if b then ''true'' else ''false'')"
| "dumps_compact (JInt i) = int_str i"
| "dumps_compact (JFloat t) = t"
| "dumps_compact (JStr s) = dumps_str s"
| "dumps_compact (JList xs) = ''['' @ join '','' (map dumps_compact xs) @ '']''"
| "dumps_compact (JObj d) =
     ''{'' @ join '','' (map (\<lambda>(k, t). dumps_str k @ '':'' @ t)
                       (sort_key fst (map (\<lambda>(k, v). (k, dumps_compact v)) d))) @ ''}''"

subsection \<open>Counters\<close>

text \<open>
  \<open>dict[str, int]\<close> used as a bag of counters: \<open>signals\<close>, \<open>risks\<close> and \<open>drops\<close> all over the
  runtime. \<open>cget\<close> is \<open>c.get(k, 0)\<close>, \<open>cadd\<close> is \<open>c[k] = c.get(k, 0) + n\<close>, and \<open>dict_set\<close> is plain
  assignment.
\<close>

type_synonym counts = "int dict"

definition cget :: "'k \<Rightarrow> ('k \<times> int) list \<Rightarrow> int" where
  "cget k c = (case map_of c k of None \<Rightarrow> 0 | Some n \<Rightarrow> n)"

definition cadd :: "'k \<Rightarrow> int \<Rightarrow> ('k \<times> int) list \<Rightarrow> ('k \<times> int) list" where
  "cadd k n c = dict_set k (cget k c + n) c"

definition csum :: "('k \<times> int) list \<Rightarrow> int" where
  "csum c = sum_list (map snd c)"

lemma cget_Nil [simp]: "cget k [] = 0"
  by (simp add: cget_def)

lemma cget_cadd [simp]: "cget k (cadd k' n c) = (if k = k' then cget k c + n else cget k c)"
  by (simp add: cget_def cadd_def)

lemma cget_dict_set [simp]: "cget k (dict_set k' n c) = (if k = k' then n else cget k c)"
  by (simp add: cget_def)

lemma cadd_nonempty [simp]: "cadd k n c \<noteq> []"
  by (simp add: cadd_def)

end
