(* ===== verification/ProviderBlocks.thy ===== *)
theory ProviderBlocks
  imports PyJson
begin

section \<open>Classification of content blocks\<close>

text \<open>
  Models \<open>src/tok/provider_opaque_blocks.py\<close> and \<open>src/tok/provider_block_semantics.py\<close>: which
  blocks are tool calls, tool results or text, and which are owned by the provider and must be
  forwarded as they are. The second half names the accessors the request path uses on messages:
  the stripped role and the content list.
\<close>

definition OPAQUE_PROVIDER_BLOCK_TYPES :: "string list" where
  "OPAQUE_PROVIDER_BLOCK_TYPES = [''thinking'', ''redacted_thinking'']"

definition is_opaque_provider_block :: "json \<Rightarrow> bool" where
  "is_opaque_provider_block block =
     (if \<not> is_dict block then False
      else case jget ''type'' block of
        Some (JStr t) \<Rightarrow>
          if t \<in> set OPAQUE_PROVIDER_BLOCK_TYPES then True
          else truthy (jget_or ''signature'' JNull block)
      | _ \<Rightarrow> truthy (jget_or ''signature'' JNull block))"

definition content_has_opaque_provider_blocks :: "json \<Rightarrow> bool" where
  "content_has_opaque_provider_blocks content =
     (case content of JList bs \<Rightarrow> list_ex is_opaque_provider_block bs | _ \<Rightarrow> False)"

definition TOOL_USE_BLOCK_TYPE :: string where "TOOL_USE_BLOCK_TYPE = ''tool_use''"
definition TOOL_RESULT_BLOCK_TYPE :: string where "TOOL_RESULT_BLOCK_TYPE = ''tool_result''"
definition TEXT_BLOCK_TYPE :: string where "TEXT_BLOCK_TYPE = ''text''"

definition block_type :: "json \<Rightarrow> string option" where
  "block_type block =
     (if \<not> is_dict block then None
      else case jget ''type'' block of Some (JStr t) \<Rightarrow> Some t | _ \<Rightarrow> None)"

definition is_tool_use_block :: "json \<Rightarrow> bool" where
  "is_tool_use_block block = (block_type block = Some TOOL_USE_BLOCK_TYPE)"

definition is_tool_result_block :: "json \<Rightarrow> bool" where
  "is_tool_result_block block = (block_type block = Some TOOL_RESULT_BLOCK_TYPE)"

definition is_text_block :: "json \<Rightarrow> bool" where
  "is_text_block block = (block_type block = Some TEXT_BLOCK_TYPE)"

text \<open>
  The request path mostly writes the test out as
  \<open>isinstance(block, dict) and block.get("type") == "tool_use"\<close>; \<open>has_type\<close> is that test.
\<close>

definition has_type :: "string \<Rightarrow> json \<Rightarrow> bool" where
  "has_type t block = (jget ''type'' block = Some (JStr t))"

definition dict_without_type :: "string \<Rightarrow> json \<Rightarrow> bool" where
  "dict_without_type t block = (is_dict block \<and> \<not> has_type t block)"

lemma block_type_Some [tok_blocks]: "block_type b = Some t \<longleftrightarrow> has_type t b"
  by (cases b) (auto simp: block_type_def has_type_def split: option.splits json.splits)

lemma is_tool_use_has_type [tok_blocks]: "is_tool_use_block b = has_type ''tool_use'' b"
  by (simp add: is_tool_use_block_def TOOL_USE_BLOCK_TYPE_def block_type_Some)

lemma is_tool_result_has_type [tok_blocks]: "is_tool_result_block b = has_type ''tool_result'' b"
  by (simp add: is_tool_result_block_def TOOL_RESULT_BLOCK_TYPE_def block_type_Some)

lemma is_text_has_type [tok_blocks]: "is_text_block b = has_type ''text'' b"
  by (simp add: is_text_block_def TEXT_BLOCK_TYPE_def block_type_Some)

lemma has_type_is_dict: "has_type t b \<Longrightarrow> is_dict b"
  by (auto simp: has_type_def dest: jget_SomeD)

lemma has_type_unique: "has_type t b \<Longrightarrow> has_type u b \<longleftrightarrow> t = u"
  by (auto simp: has_type_def)

lemma has_type_jset [simp]: "k \<noteq> ''type'' \<Longrightarrow> has_type t (jset k v b) = has_type t b"
  by (cases b) (auto simp: has_type_def)

lemma has_type_py_eq: "py_eq a b \<Longrightarrow> has_type t a = has_type t b"
  by (simp add: has_type_def py_eq_jget_str)

lemma dict_without_type_py_eq: "py_eq a b \<Longrightarrow> dict_without_type t a = dict_without_type t b"
  by (simp add: dict_without_type_def has_type_py_eq py_eq_is_dict)

lemma opaque_if_thinking: "has_type ''thinking'' b \<or> has_type ''redacted_thinking'' b \<Longrightarrow>
    is_opaque_provider_block b"
  using has_type_is_dict [of _ b]
  by (auto simp: is_opaque_provider_block_def has_type_def OPAQUE_PROVIDER_BLOCK_TYPES_def
      split: option.splits json.splits)

subsection \<open>Roles and contents of messages\<close>

text \<open>
  \<open>msg_role\<close> is \<open>str(message.get("role", "")).strip()\<close>; \<open>msg_content\<close> is the content when it is a
  list (\<open>isinstance(content, list)\<close>); \<open>field_strip k b\<close> is \<open>str(b.get(k, "")).strip()\<close>.
\<close>

definition field_strip :: "string \<Rightarrow> json \<Rightarrow> string" where
  "field_strip k b = str_strip (jget_or k (JStr []) b)"

definition msg_role :: "json \<Rightarrow> string" where
  "msg_role m = field_strip ''role'' m"

definition msg_content :: "json \<Rightarrow> json list option" where
  "msg_content m = (case jget ''content'' m of Some (JList bs) \<Rightarrow> Some bs | _ \<Rightarrow> None)"

definition set_content :: "json list \<Rightarrow> json \<Rightarrow> json" where
  "set_content bs m = jset ''content'' (JList bs) m"

definition simple_message :: "string \<Rightarrow> json list \<Rightarrow> json" where
  "simple_message role bs = JObj [(''role'', JStr role), (''content'', JList bs)]"

lemma msg_content_is_dict: "msg_content m = Some bs \<Longrightarrow> is_dict m"
  by (auto simp: msg_content_def split: option.splits dest: jget_SomeD)

lemma msg_content_Some_iff: "msg_content m = Some bs \<longleftrightarrow> jget ''content'' m = Some (JList bs)"
  by (auto simp: msg_content_def split: option.splits json.splits)

lemma msg_content_set_content [simp]: "is_dict m \<Longrightarrow> msg_content (set_content bs m) = Some bs"
  by (simp add: msg_content_def set_content_def)

lemma msg_role_set_content [simp]: "msg_role (set_content bs m) = msg_role m"
  by (cases m) (auto simp: msg_role_def field_strip_def jget_or_def set_content_def)

lemma is_dict_set_content [simp]: "is_dict (set_content bs m) = is_dict m"
  by (simp add: set_content_def)

lemma msg_role_simple [simp]: "msg_role (simple_message r bs) = py_strip r"
  by (simp add: msg_role_def field_strip_def jget_or_def simple_message_def)

lemma msg_content_simple [simp]: "msg_content (simple_message r bs) = Some bs"
  by (simp add: msg_content_def simple_message_def)

lemma is_dict_simple [simp]: "is_dict (simple_message r bs)"
  by (simp add: simple_message_def)

lemma simple_message_inject [simp]:
  "simple_message r bs = simple_message r' bs' \<longleftrightarrow> r = r' \<and> bs = bs'"
  by (simp add: simple_message_def)

lemma set_content_simple [simp]: "set_content cs (simple_message r bs) = simple_message r cs"
  by (simp add: set_content_def simple_message_def dict_set_def)

end
