(* ===== verification/SignalRegistry.thy ===== *)
theory SignalRegistry
  imports PyJson
begin

section \<open>Failure codes, their signals, and counting signals\<close>

text \<open>
  Models \<open>src/tok/runtime/_signal_registry.py\<close> (which strict failures exist, which are recoverable
  or non-blocking, which signal each one raises), the predicates over failure lists at the end of
  \<open>src/tok/runtime/pipeline/request_validation.py\<close>, and \<open>_merge_signal_counts\<close> of
  \<open>src/tok/gateway/_signal_constants.py\<close>.

  The locale \<open>counter_store\<close> states what every user of a signal dictionary relies on: a fresh
  dictionary counts zero and a bump changes one counter. Its lemmas are interpreted on the
  dictionaries of the model as \<open>sig\<close>.
\<close>

definition STRICT_FAILURE_SIGNAL_MAP :: "string dict" where
  "STRICT_FAILURE_SIGNAL_MAP =
    [(''invalid_tool_use_block'', ''tok_bridge_strict_invalid_tool_use_block''),
     (''invalid_tool_result_block'', ''tok_bridge_strict_invalid_tool_result_block''),
     (''assistant_tool_use_missing_next_tool_result'', ''tok_bridge_strict_missing_next_tool_result''),
     (''assistant_tool_use_incomplete_next_tool_result_coverage'',
        ''tok_bridge_strict_incomplete_next_tool_result_coverage''),
     (''tool_result_unknown_tool_use_id'', ''tok_bridge_strict_tool_result_unknown_tool_use_id''),
     (''tool_result_not_immediately_after_assistant_tool_use'',
        ''tok_bridge_strict_tool_result_ordering_failure''),
     (''user_tool_result_after_text'', ''tok_bridge_strict_user_tool_result_after_text''),
     (''bridge_wire_model_invalid'', ''tok_bridge_strict_bridge_wire_model_invalid''),
     (''provider_sensitive_large_tool_use_text_interleaving'',
        ''tok_bridge_strict_provider_sensitive_large_tool_use_text_interleaving''),
     (''first_message_not_user'', ''tok_bridge_strict_first_message_not_user''),
     (''missing_max_tokens'', ''tok_bridge_strict_missing_max_tokens''),
     (''invalid_max_tokens'', ''tok_bridge_strict_invalid_max_tokens'')]"

definition INVALID_TOOL_HISTORY_FAILURES :: "string list" where
  "INVALID_TOOL_HISTORY_FAILURES =
    [''invalid_tool_use_block'', ''invalid_tool_result_block'',
     ''assistant_tool_use_missing_next_tool_result'',
     ''assistant_tool_use_incomplete_next_tool_result_coverage'',
     ''tool_result_unknown_tool_use_id'',
     ''tool_result_not_immediately_after_assistant_tool_use'',
     ''user_tool_result_after_text'', ''bridge_wire_model_invalid'']"

definition RECOVERABLE_IMMEDIATE_PAIRING_FAILURES :: "string list" where
  "RECOVERABLE_IMMEDIATE_PAIRING_FAILURES =
    [''assistant_tool_use_missing_next_tool_result'',
     ''assistant_tool_use_incomplete_next_tool_result_coverage'',
     ''tool_result_not_immediately_after_assistant_tool_use'',
     ''user_tool_result_after_text'', ''tool_results_fragmented_across_user_messages'',
     ''empty_message_content'', ''empty_content_blocks'',
     ''missing_max_tokens'', ''invalid_max_tokens'']"

definition NON_BLOCKING_OUTGOING_FAILURES :: "string list" where
  "NON_BLOCKING_OUTGOING_FAILURES =
    [''missing_max_tokens'', ''invalid_max_tokens'', ''first_message_not_user'']"

definition PROVIDER_SENSITIVE_FAILURES :: "string list" where
  "PROVIDER_SENSITIVE_FAILURES =
    [''provider_sensitive_large_tool_use_text_interleaving'',
     ''provider_sensitive_large_tool_use_batch_unterminated'',
     ''provider_sensitive_assistant_tool_use_text_interleaving'']"

lemmas registry_defs = STRICT_FAILURE_SIGNAL_MAP_def INVALID_TOOL_HISTORY_FAILURES_def
  RECOVERABLE_IMMEDIATE_PAIRING_FAILURES_def NON_BLOCKING_OUTGOING_FAILURES_def
  PROVIDER_SENSITIVE_FAILURES_def

subsection \<open>Predicates over failure lists\<close>

definition all_failures_are_non_blocking :: "string list \<Rightarrow> bool" where
  "all_failures_are_non_blocking failures =
     list_all (\<lambda>f. f \<in> set NON_BLOCKING_OUTGOING_FAILURES) failures"

definition has_provider_sensitive_failures :: "string list \<Rightarrow> bool" where
  "has_provider_sensitive_failures failures =
     list_ex (\<lambda>f. f \<in> set PROVIDER_SENSITIVE_FAILURES) failures"

definition has_invalid_tool_history_failures :: "string list \<Rightarrow> bool" where
  "has_invalid_tool_history_failures failures =
     list_ex (\<lambda>f. f \<in> set INVALID_TOOL_HISTORY_FAILURES) failures"

definition has_recoverable_immediate_pairing_failures :: "string list \<Rightarrow> bool" where
  "has_recoverable_immediate_pairing_failures failures =
     list_ex (\<lambda>f. f \<in> set RECOVERABLE_IMMEDIATE_PAIRING_FAILURES) failures"

definition has_blocking_outgoing_failures :: "string list \<Rightarrow> bool" where
  "has_blocking_outgoing_failures failures =
     list_ex (\<lambda>f. f \<notin> set NON_BLOCKING_OUTGOING_FAILURES) failures"

lemma blocking_iff_not_all_non_blocking:
  "has_blocking_outgoing_failures fs = (\<not> all_failures_are_non_blocking fs)"
  by (induction fs) (auto simp: has_blocking_outgoing_failures_def all_failures_are_non_blocking_def)

definition strict_signal_step :: "string \<Rightarrow> counts \<Rightarrow> counts" where
  "strict_signal_step failure signals =
     (case map_of STRICT_FAILURE_SIGNAL_MAP failure of
        None \<Rightarrow> signals
      | Some signal \<Rightarrow> dict_set signal 1 signals)"

definition bridge_strict_failure_signals :: "string list \<Rightarrow> counts" where
  "bridge_strict_failure_signals failures =
     (let signals = (if failures \<noteq> [] then dict_set ''tok_bridge_strict_failure'' 1 [] else []);
          signals = fold strict_signal_step failures signals
      in if list_ex (\<lambda>f. f \<in> set failures)
              [''tool_result_unknown_tool_use_id'',
               ''tool_result_not_immediately_after_assistant_tool_use'',
               ''user_tool_result_after_text'']
         then dict_set ''tok_bridge_strict_pairing_or_ordering_failure'' 1 signals
         else signals)"

subsection \<open>Merging counters\<close>

fun signal_value :: "json \<Rightarrow> int option" where
  "signal_value (JBool b) = Some (if b then 1 else 0)"
| "signal_value (JInt i) = Some i"
| "signal_value _ = None"

fun merge_signal_counts :: "counts \<Rightarrow> json dict \<Rightarrow> counts" where
  "merge_signal_counts target [] = target"
| "merge_signal_counts target ((key, value) # extra) =
     (case signal_value value of
        None \<Rightarrow> merge_signal_counts target extra
      | Some n \<Rightarrow> merge_signal_counts (cadd key n target) extra)"

locale counter_store =
  fixes empty :: "'s" and count :: "string \<Rightarrow> 's \<Rightarrow> int" and bump :: "string \<Rightarrow> int \<Rightarrow> 's \<Rightarrow> 's"
  assumes count_empty: "count k empty = 0"
    and count_bump: "count k (bump k' n c) = (if k = k' then count k c + n else count k c)"
begin

lemma bump_commute: "count k (bump a m (bump b n c)) = count k (bump b n (bump a m c))"
  by (simp add: count_bump)

lemma count_fold_bump:
  "count k (fold (\<lambda>(k', n). bump k' n) es c) =
     count k c + sum_list (map snd (filter (\<lambda>e. fst e = k) es))"
  by (induction es arbitrary: c) (auto simp: count_bump)

lemma count_fold_bump_mono:
  "(\<And>e. e \<in> set es \<Longrightarrow> 0 \<le> snd e) \<Longrightarrow> count k c \<le> count k (fold (\<lambda>(k', n). bump k' n) es c)"
  by (auto simp: count_fold_bump intro!: sum_list_nonneg)

end

interpretation sig: counter_store "[]" cget cadd
  by unfold_locales (auto simp: cget_def cadd_def)

definition signal_entries :: "json dict \<Rightarrow> (string \<times> int) list" where
  "signal_entries extra = List.map_filter (\<lambda>(k, v). map_option (Pair k) (signal_value v)) extra"

lemma merge_signal_counts_fold:
  "merge_signal_counts target extra = fold (\<lambda>(k, n). cadd k n) (signal_entries extra) target"
  by (induction target extra rule: merge_signal_counts.induct)
    (auto simp: signal_entries_def map_filter_def split: option.splits)

subsection \<open>Property\<close>

text \<open>
  Merging a signal dictionary adds, to every counter, exactly the sum of the integer and boolean
  entries of that name; entries of other types are skipped and no other counter changes.
\<close>

lemma merged_counts:
  "cget k (merge_signal_counts target extra) =
     cget k target + sum_list (map snd (filter (\<lambda>e. fst e = k) (signal_entries extra)))"
  unfolding merge_signal_counts_fold by (rule sig.count_fold_bump)

end
