(* ===== verification/ToolIds.thy ===== *)
theory ToolIds
  imports ProviderBlocks SignalRegistry
begin

section \<open>Provider-safe tool identifiers\<close>

text \<open>
  Models the identifier helpers of \<open>src/tok/runtime/pipeline/_bridge_wire_models.py\<close>: the test for
  a provider-safe id, the seed that sanitises an unsafe one, the loop that finds a free candidate
  and \<open>_normalize_or_synthesize_tool_id\<close>, which allocates one id. The set \<open>occupied_ids\<close> is a list
  used as a set, returned updated. The loop is a \<open>function\<close> whose measure counts the occupied
  candidates that are still ahead of the sfx.

  The locale \<open>id_allocator\<close> is the contract the two rewriting loops rely on: an allocated id is
  legal, was free, and is occupied afterwards. Its lemmas say that any sequence of allocations
  gives pairwise distinct legal ids; \<open>alloc\<close> interprets it on the model.
\<close>

subsection \<open>The character class and the test\<close>

definition id_char :: "char \<Rightarrow> bool" where
  "id_char c = (let n = (of_char c :: nat) in
     (65 \<le> n \<and> n \<le> 90) \<or> (97 \<le> n \<and> n \<le> 122) \<or> (48 \<le> n \<and> n \<le> 57) \<or> n = 95 \<or> n = 45)"

text \<open>\<open>re.fullmatch\<close> of \<open>[A-Za-z0-9_-]+\<close>: at least one character, all of the class.\<close>

definition full_match_id :: "string \<Rightarrow> bool" where
  "full_match_id s = (s \<noteq> [] \<and> list_all id_char s)"

definition is_provider_safe_tool_id :: "string \<Rightarrow> bool" where
  "is_provider_safe_tool_id value = full_match_id (py_strip value)"

text \<open>\<open>re.sub(r"[^A-Za-z0-9_-]+", "_", s)\<close>: each maximal run of other characters becomes one \<open>_\<close>.\<close>

fun sub_unsafe_runs :: "bool \<Rightarrow> string \<Rightarrow> string" where
  "sub_unsafe_runs in_run [] = []"
| "sub_unsafe_runs in_run (c # cs) =
     (if id_char c then c # sub_unsafe_runs False cs
      else if in_run then sub_unsafe_runs True cs
      else CHR ''_'' # sub_unsafe_runs True cs)"

definition provider_safe_tool_id_seed :: "string \<Rightarrow> string" where
  "provider_safe_tool_id_seed value =
     (let seed = strip_by (\<lambda>c. c = CHR ''_'') (sub_unsafe_runs False (py_strip value))
      in if seed = [] then ''tool'' else seed)"

lemma id_char_not_space: "id_char c \<Longrightarrow> \<not> py_space c"
  by (auto simp: id_char_def py_space_def Let_def)

lemma safe_strip_id [simp]: "full_match_id s \<Longrightarrow> py_strip s = s"
  by (auto simp: full_match_id_def list_all_iff intro!: py_strip_id dest: id_char_not_space)

lemma full_match_safe [intro]: "full_match_id s \<Longrightarrow> is_provider_safe_tool_id s"
  by (simp add: is_provider_safe_tool_id_def)

lemma sub_unsafe_runs_chars: "list_all id_char (sub_unsafe_runs b s)"
  by (induction b s rule: sub_unsafe_runs.induct) (auto simp: id_char_def)

lemma seed_full_match: "full_match_id (provider_safe_tool_id_seed value)"
proof -
  have "list_all id_char (strip_by P (sub_unsafe_runs False v))" for P v
    using sub_unsafe_runs_chars [of False v] strip_by_subset [of P "sub_unsafe_runs False v"]
    by (auto simp: list_all_iff)
  moreover have "full_match_id ''tool''" by (simp add: full_match_id_def id_char_def)
  ultimately show ?thesis by (simp add: provider_safe_tool_id_seed_def full_match_id_def Let_def)
qed

lemma full_match_append: "full_match_id a \<Longrightarrow> list_all id_char b \<Longrightarrow> full_match_id (a @ b)"
  by (simp add: full_match_id_def)

lemma nat_str_id_chars: "list_all id_char (nat_str n)"
  by (auto simp: list_all_iff id_char_def digit_char_def Let_def dest!: nat_str_digits)

subsection \<open>The search for a free candidate\<close>

definition numbered :: "string \<Rightarrow> nat \<Rightarrow> string" where
  "numbered seed sfx = seed @ ''_'' @ nat_str sfx"

lemma numbered_inject [simp]: "numbered seed m = numbered seed n \<longleftrightarrow> m = n"
  by (simp add: numbered_def)

definition taken_ahead :: "string \<Rightarrow> string list \<Rightarrow> nat \<Rightarrow> nat set" where
  "taken_ahead seed occupied sfx = {k. sfx \<le> k \<and> numbered seed k \<in> set occupied}"

lemma finite_taken_ahead [simp]: "finite (taken_ahead seed occupied sfx)"
proof -
  have "inj_on (numbered seed) (taken_ahead seed occupied sfx)"
    by (simp add: inj_on_def)
  moreover have "numbered seed ` taken_ahead seed occupied sfx \<subseteq> set occupied"
    by (auto simp: taken_ahead_def)
  ultimately show ?thesis by (meson finite_imageD finite_set finite_subset)
qed

lemma taken_ahead_Suc:
  assumes "numbered seed sfx \<in> set occupied"
  shows "card (taken_ahead seed occupied (Suc sfx)) < card (taken_ahead seed occupied sfx)"
proof (rule psubset_card_mono)
  have "sfx \<in> taken_ahead seed occupied sfx"
    using assms by (simp add: taken_ahead_def)
  moreover have "sfx \<notin> taken_ahead seed occupied (Suc sfx)"
    by (simp add: taken_ahead_def)
  moreover have "taken_ahead seed occupied (Suc sfx) \<subseteq> taken_ahead seed occupied sfx"
    by (auto simp: taken_ahead_def)
  ultimately show "taken_ahead seed occupied (Suc sfx) \<subset> taken_ahead seed occupied sfx"
    by blast
qed simp

text \<open>
  The loop \<open>while candidate in occupied_ids: candidate = f"{seed}_{sfx}"; sfx += 1\<close> starts at
  the bare seed; \<open>next_free\<close> is the loop from the first numbered candidate on.
\<close>

function next_free :: "string \<Rightarrow> string list \<Rightarrow> nat \<Rightarrow> string" where
  "next_free seed occupied sfx =
     (if numbered seed sfx \<in> set occupied then next_free seed occupied (Suc sfx)
      else numbered seed sfx)"
  by pat_completeness auto
termination
  by (relation "measure (\<lambda>(seed, occupied, sfx). card (taken_ahead seed occupied sfx))")
    (auto simp: taken_ahead_Suc)

declare next_free.simps [simp del]

definition dedupe_provider_safe_tool_id :: "string \<Rightarrow> string list \<Rightarrow> string \<times> string list" where
  "dedupe_provider_safe_tool_id seed occupied =
     (let candidate = (if seed \<in> set occupied then next_free seed occupied 1 else seed)
      in (candidate, candidate # occupied))"

lemma next_free_form: "\<exists>k. next_free seed occupied sfx = numbered seed k"
  by (induction seed occupied sfx rule: next_free.induct) (metis next_free.simps)

lemma next_free_fresh: "next_free seed occupied sfx \<notin> set occupied"
  by (induction seed occupied sfx rule: next_free.induct) (metis next_free.simps)

lemma dedupe_spec:
  assumes "full_match_id seed" and "dedupe_provider_safe_tool_id seed occupied = (new_id, occupied')"
  shows "full_match_id new_id \<and> new_id \<notin> set occupied \<and> occupied' = new_id # occupied"
proof -
  obtain k where k: "next_free seed occupied 1 = numbered seed k"
    using next_free_form by blast
  have "full_match_id (numbered seed k)"
    using assms(1) nat_str_id_chars by (simp add: numbered_def full_match_id_def id_char_def)
  moreover have "numbered seed k \<notin> set occupied" using next_free_fresh k by metis
  ultimately show ?thesis
    using assms k by (auto simp: dedupe_provider_safe_tool_id_def Let_def split: if_splits)
qed

subsection \<open>Allocating one identifier\<close>

definition tool_id_seed_hint :: "string \<Rightarrow> nat \<Rightarrow> nat \<Rightarrow> nat \<Rightarrow> string" where
  "tool_id_seed_hint pre msg_index block_index occurrence =
     pre @ ''_m'' @ nat_str (msg_index + 1) @ ''_b'' @ nat_str (block_index + 1) @ ''_'' @ nat_str occurrence"

text \<open>The second component of the code's result, a string, is one of four dispositions.\<close>

datatype disposition = Unchanged | Deduped | Synthesized | Sanitized

text \<open>\<open>raw_id\<close> is the value found in the block; \<open>str(raw_id or "")\<close> turns a falsy one into \<open>""\<close>.\<close>

definition normalize_or_synthesize_tool_id ::
    "json \<Rightarrow> string list \<Rightarrow> string \<Rightarrow> string \<times> disposition \<times> string list" where
  "normalize_or_synthesize_tool_id raw_id occupied seed_hint =
     (let stripped = (if truthy raw_id then str_strip raw_id else []) in
      if stripped \<noteq> [] \<and> is_provider_safe_tool_id stripped then
        if stripped \<notin> set occupied then (stripped, Unchanged, stripped # occupied)
        else let (deduped, occupied') = dedupe_provider_safe_tool_id
                   (provider_safe_tool_id_seed (stripped @ ''_'' @ seed_hint)) occupied
             in (deduped, Deduped, occupied')
      else if stripped = [] then
        let (synthesized, occupied') =
              dedupe_provider_safe_tool_id (provider_safe_tool_id_seed seed_hint) occupied
        in (synthesized, Synthesized, occupied')
      else
        let (sanitized, occupied') =
              dedupe_provider_safe_tool_id (provider_safe_tool_id_seed stripped) occupied
        in (sanitized, Sanitized, occupied'))"

lemma normalize_or_synthesize_spec:
  assumes "normalize_or_synthesize_tool_id raw_id occupied hint = (new_id, d, occupied')"
  shows "full_match_id new_id \<and> new_id \<notin> set occupied \<and> occupied' = new_id # occupied"
proof -
  define stripped where "stripped = (if truthy raw_id then str_strip raw_id else [])"
  have idem: "py_strip stripped = stripped"
    by (simp add: stripped_def str_strip_def)
  show ?thesis
  proof (cases "stripped \<noteq> [] \<and> is_provider_safe_tool_id stripped \<and> stripped \<notin> set occupied")
    case True
    then have "full_match_id stripped" using idem by (simp add: is_provider_safe_tool_id_def)
    with True assms show ?thesis
      by (auto simp: normalize_or_synthesize_tool_id_def Let_def stripped_def [symmetric])
  next
    case False
    then obtain seed where "dedupe_provider_safe_tool_id (provider_safe_tool_id_seed seed) occupied
        = (new_id, occupied')"
      using assms
      by (auto simp: normalize_or_synthesize_tool_id_def Let_def stripped_def [symmetric]
          split: if_splits prod.splits)
    then show ?thesis by (rule dedupe_spec [OF seed_full_match])
  qed
qed

lemma normalize_safe_unchanged:
  assumes "full_match_id s" and "s \<notin> set occupied"
  shows "normalize_or_synthesize_tool_id (JStr s) occupied hint = (s, Unchanged, s # occupied)"
  using assms by (auto simp: normalize_or_synthesize_tool_id_def full_match_id_def
      is_provider_safe_tool_id_def)

subsection \<open>The allocator contract\<close>

locale id_allocator =
  fixes allocate :: "'r \<Rightarrow> 'i list \<Rightarrow> 'i \<times> 'i list" and legal :: "'i \<Rightarrow> bool"
  assumes alloc_legal: "allocate r occupied = (i, occupied') \<Longrightarrow> legal i"
    and alloc_fresh: "allocate r occupied = (i, occupied') \<Longrightarrow> i \<notin> set occupied"
    and alloc_occupies: "allocate r occupied = (i, occupied') \<Longrightarrow> set occupied' = insert i (set occupied)"
begin

fun allocate_all :: "'r list \<Rightarrow> 'i list \<Rightarrow> 'i list \<times> 'i list" where
  "allocate_all [] occupied = ([], occupied)"
| "allocate_all (r # rs) occupied =
     (let (i, occupied1) = allocate r occupied; (ids, occupied2) = allocate_all rs occupied1
      in (i # ids, occupied2))"

lemma allocate_all_spec:
  "allocate_all rs occupied = (ids, occupied') \<Longrightarrow>
     distinct ids \<and> list_all legal ids \<and> set ids \<inter> set occupied = {} \<and>
     set occupied' = set ids \<union> set occupied \<and> length ids = length rs"
proof (induction rs arbitrary: occupied ids occupied')
  case Nil
  then show ?case by simp
next
  case (Cons r rs)
  obtain i occ1 where one: "allocate r occupied = (i, occ1)" by fastforce
  obtain js occ2 where rest: "allocate_all rs occ1 = (js, occ2)" by fastforce
  from Cons.prems one rest have ids: "ids = i # js" "occupied' = occ2" by auto
  have occ1: "set occ1 = insert i (set occupied)" using one by (rule alloc_occupies)
  from Cons.IH [OF rest] have js: "distinct js" "list_all legal js" "set js \<inter> set occ1 = {}"
    "set occ2 = set js \<union> set occ1" "length js = length rs" by auto
  with ids occ1 alloc_fresh [OF one] alloc_legal [OF one] show ?case by auto
qed

end

definition allocate_block_id :: "json \<times> string \<Rightarrow> string list \<Rightarrow> string \<times> string list" where
  "allocate_block_id r occupied =
     (let (new_id, _, occupied') = normalize_or_synthesize_tool_id (fst r) occupied (snd r)
      in (new_id, occupied'))"

lemma allocate_block_id_eq:
  "normalize_or_synthesize_tool_id a occupied h = (n, d, occupied') \<Longrightarrow>
     allocate_block_id (a, h) occupied = (n, occupied')"
  by (simp add: allocate_block_id_def)

interpretation alloc: id_allocator allocate_block_id full_match_id
  by unfold_locales
    (auto simp: allocate_block_id_def Let_def split: prod.splits dest!: normalize_or_synthesize_spec)

subsection \<open>Normalising the ids of one block list\<close>

definition count_disposition :: "string \<Rightarrow> string \<Rightarrow> string \<Rightarrow> disposition \<Rightarrow> counts \<Rightarrow> counts" where
  "count_disposition sanitized synthesized deduped d signals =
     (case d of
        Sanitized \<Rightarrow> cadd sanitized 1 signals
      | Synthesized \<Rightarrow> cadd synthesized 1 signals
      | Deduped \<Rightarrow> cadd deduped 1 signals
      | Unchanged \<Rightarrow> signals)"

fun normalize_tool_use_blocks_from ::
    "string \<Rightarrow> nat \<Rightarrow> json list \<Rightarrow> string list \<Rightarrow> counts \<Rightarrow> json list \<times> counts" where
  "normalize_tool_use_blocks_from seed_prefix block_index [] occupied signals = ([], signals)"
| "normalize_tool_use_blocks_from seed_prefix block_index (block # blocks) occupied signals =
     (if \<not> has_type ''tool_use'' block then
        let (rest, signals') =
              normalize_tool_use_blocks_from seed_prefix (block_index + 1) blocks occupied signals
        in (block # rest, signals')
      else
        let (normalized_id, d, occupied') = normalize_or_synthesize_tool_id
              (jget_or ''id'' (JStr []) block) occupied (seed_prefix @ ''_'' @ nat_str (block_index + 1));
            signals1 = count_disposition ''tool_use_id_sanitized'' ''tool_use_blank_id_synthesized''
              ''tool_use_id_deduped'' d signals;
            (rest, signals') =
              normalize_tool_use_blocks_from seed_prefix (block_index + 1) blocks occupied' signals1
        in (jset ''id'' (JStr normalized_id) block # rest, signals'))"

definition normalize_tool_use_blocks :: "string \<Rightarrow> json list \<Rightarrow> json list \<times> counts" where
  "normalize_tool_use_blocks seed_prefix blocks =
     normalize_tool_use_blocks_from seed_prefix 0 blocks [] []"

text \<open>The requests the loop makes, and the ids it leaves in the blocks.\<close>

fun tool_use_requests :: "string \<Rightarrow> nat \<Rightarrow> json list \<Rightarrow> (json \<times> string) list" where
  "tool_use_requests seed_prefix i [] = []"
| "tool_use_requests seed_prefix i (b # bs) =
     (if has_type ''tool_use'' b
      then (jget_or ''id'' (JStr []) b, seed_prefix @ ''_'' @ nat_str (i + 1)) # tool_use_requests seed_prefix (i + 1) bs
      else tool_use_requests seed_prefix (i + 1) bs)"

definition tool_use_ids :: "json list \<Rightarrow> json list" where
  "tool_use_ids bs = map (jget_or ''id'' (JStr [])) (filter (has_type ''tool_use'') bs)"

lemma tool_use_ids_simps [simp]:
  "tool_use_ids [] = []"
  "tool_use_ids (b # bs) = (if has_type ''tool_use'' b then jget_or ''id'' (JStr []) b # tool_use_ids bs
     else tool_use_ids bs)"
  "tool_use_ids (bs @ cs) = tool_use_ids bs @ tool_use_ids cs"
  by (simp_all add: tool_use_ids_def)

lemma jget_or_jset [simp]:
  "is_dict b \<Longrightarrow> jget_or k d (jset k' v b) = (if k = k' then v else jget_or k d b)"
  by (simp add: jget_or_def)

lemma normalize_from_ids:
  "tool_use_ids (fst (normalize_tool_use_blocks_from p i bs occupied signals)) =
     map JStr (fst (alloc.allocate_all (tool_use_requests p i bs) occupied))"
proof (induction p i bs occupied signals rule: normalize_tool_use_blocks_from.induct)
  case (1 p i occupied signals)
  then show ?case by simp
next
  case (2 p i b bs occupied signals)
  show ?case
  proof (cases "has_type ''tool_use'' b")
    case True
    obtain n d occ' where one: "normalize_or_synthesize_tool_id (jget_or ''id'' (JStr []) b) occupied
        (p @ ''_'' @ nat_str (i + 1)) = (n, d, occ')" by (metis prod_cases3)
    show ?thesis
      using True "2.IH"(2) [OF _ one [symmetric]] one has_type_is_dict [OF True]
        allocate_block_id_eq [OF one]
      by (auto simp: Let_def split: prod.splits)
  next
    case False
    with "2.IH"(1) show ?thesis by (auto simp: Let_def split: prod.splits)
  qed
qed

lemma normalize_from_others:
  "filter (\<lambda>b. \<not> has_type ''tool_use'' b) (fst (normalize_tool_use_blocks_from p i bs occupied signals)) =
     filter (\<lambda>b. \<not> has_type ''tool_use'' b) bs"
  by (induction p i bs occupied signals rule: normalize_tool_use_blocks_from.induct)
    (auto simp: Let_def split: prod.splits)

subsection \<open>Property\<close>

text \<open>
  Normalising a block list gives its tool calls pairwise distinct identifiers that match the provider's
  pattern (letters, digits, underscore and hyphen, nonempty), whatever identifiers came in, and leaves
  every other block as it was.
\<close>

lemma normalized_ids_distinct_safe:
  "\<exists>ids. tool_use_ids (fst (normalize_tool_use_blocks p bs)) = map JStr ids \<and>
     distinct ids \<and> list_all full_match_id ids \<and>
     filter (\<lambda>b. \<not> has_type ''tool_use'' b) (fst (normalize_tool_use_blocks p bs)) =
       filter (\<lambda>b. \<not> has_type ''tool_use'' b) bs"
proof -
  let ?ids = "fst (alloc.allocate_all (tool_use_requests p 0 bs) [])"
  have "distinct ?ids \<and> list_all full_match_id ?ids"
    using alloc.allocate_all_spec [OF surjective_pairing] by blast
  moreover have "tool_use_ids (fst (normalize_tool_use_blocks p bs)) = map JStr ?ids"
    by (simp add: normalize_tool_use_blocks_def normalize_from_ids)
  ultimately show ?thesis by (auto simp: normalize_tool_use_blocks_def normalize_from_others)
qed

end
