(* ===== verification/MessageNormalize.thy ===== *)
theory MessageNormalize
  imports ToolIds
begin

section \<open>Canonical form of one message\<close>

text \<open>
  Models the per-message half of canonicalisation in
  \<open>src/tok/runtime/pipeline/request_validation.py\<close>: content to blocks, one message to a canonical
  user or assistant message, the test whether the content changed, and
  \<open>_process_bridged_message\<close>. Testing an unhashable \<open>type\<close> value for membership in the allowlist
  raises \<open>TypeError\<close>, so these functions return \<^typ>\<open>'a py\<close>.

  The invariant \<open>canonical_message\<close> is what every message produced here satisfies: a dictionary
  with role \<open>user\<close> or \<open>assistant\<close> and a nonempty list of blocks, each of an allowed type, text
  blocks stripped and nonblank, and no thinking block in a user message.
\<close>

definition ALLOWED_BLOCK_TYPES :: "string list" where
  "ALLOWED_BLOCK_TYPES =
    [''text'', ''tool_use'', ''tool_result'', ''thinking'', ''redacted_thinking'']"

type_synonym drops = "(json \<times> int) list"

subsection \<open>Content to blocks\<close>

definition text_block :: "string \<Rightarrow> json" where
  "text_block t = JObj [(''type'', JStr ''text''), (''text'', JStr t)]"

definition normalize_block :: "json \<Rightarrow> json list \<Rightarrow> drops \<Rightarrow> (json list \<times> drops) py" where
  "normalize_block b blocks drops =
     (if \<not> is_dict b then Inr (blocks, drops)
      else let b_type = jget_or ''type'' (JStr []) b in
        if b_type = JStr ''text'' then
          let text = field_strip ''text'' b
          in Inr (if text \<noteq> [] then blocks @ [text_block text] else blocks, drops)
        else bind_py (in_str_set b_type ALLOWED_BLOCK_TYPES) (\<lambda>allowed.
          if allowed then Inr (blocks @ [b], drops)
          else Inr (blocks, cadd b_type 1 drops)))"

fun normalize_blocks :: "json list \<Rightarrow> json list \<Rightarrow> drops \<Rightarrow> (json list \<times> drops) py" where
  "normalize_blocks [] blocks drops = Inr (blocks, drops)"
| "normalize_blocks (b # bs) blocks drops =
     bind_py (normalize_block b blocks drops) (\<lambda>(blocks', drops'). normalize_blocks bs blocks' drops')"

definition normalize_message_content_to_blocks :: "json \<Rightarrow> (json list \<times> drops) py" where
  "normalize_message_content_to_blocks content =
     (case content of
        JStr s \<Rightarrow> (let text = py_strip s in Inr (if text \<noteq> [] then [text_block text] else [], []))
      | JList bs \<Rightarrow> normalize_blocks bs [] []
      | _ \<Rightarrow> Inr ([], []))"

subsection \<open>One canonical message\<close>

definition canonical_tool_result :: "json \<Rightarrow> json" where
  "canonical_tool_result message =
     (let block = JObj [(''type'', JStr ''tool_result''),
                        (''tool_use_id'', jget_or ''tool_use_id'' (JStr []) message),
                        (''content'', jget_or ''content'' (JStr []) message)];
          block = (case jget ''is_error'' message of
                     None \<Rightarrow> block | Some e \<Rightarrow> jset ''is_error'' (JBool (truthy e)) block);
          block = (case jget ''cache_control'' message of
                     None \<Rightarrow> block | Some c \<Rightarrow> jset ''cache_control'' c block)
      in block)"

fun preserve_blocks :: "json list \<Rightarrow> json list \<Rightarrow> drops \<Rightarrow> json list \<times> drops" where
  "preserve_blocks [] preserved drops = (preserved, drops)"
| "preserve_blocks (b # bs) preserved drops =
     (if \<not> is_dict b then preserve_blocks bs preserved drops
      else let t = field_strip ''type'' b in
        if t \<in> set ALLOWED_BLOCK_TYPES then preserve_blocks bs (preserved @ [b]) drops
        else if t \<noteq> [] then preserve_blocks bs preserved (cadd (JStr t) 1 drops)
        else preserve_blocks bs preserved drops)"

fun drop_user_thinking :: "json list \<Rightarrow> json list \<Rightarrow> drops \<Rightarrow> json list \<times> drops" where
  "drop_user_thinking [] kept drops = (kept, drops)"
| "drop_user_thinking (b # bs) kept drops =
     (if has_type ''thinking'' b \<or> has_type ''redacted_thinking'' b
      then drop_user_thinking bs kept (cadd (jget_or ''type'' JNull b) 1 drops)
      else drop_user_thinking bs (kept @ [b]) drops)"

text \<open>\<open>raw_content if isinstance(raw_content, str | list) else ""\<close>\<close>

definition str_or_list_content :: "json \<Rightarrow> json" where
  "str_or_list_content message =
     (case jget ''content'' message of
        Some (JStr s) \<Rightarrow> JStr s | Some (JList bs) \<Rightarrow> JList bs | _ \<Rightarrow> JStr [])"

definition canonicalize_bridge_message :: "bool \<Rightarrow> json \<Rightarrow> (json \<times> drops) py" where
  "canonicalize_bridge_message preserve_content message =
     (let role = msg_role message in
      if role = ''tool_result'' then
        Inr (simple_message ''user'' [canonical_tool_result message], [])
      else if preserve_content then
        (case jget ''content'' message of
           Some (JList bs) \<Rightarrow> (let (preserved, drops) = preserve_blocks bs [] []
                              in Inr (simple_message role preserved, drops))
         | Some (JStr s) \<Rightarrow> (let text = py_strip s in
                            if text \<noteq> [] then Inr (simple_message role [text_block text], [])
                            else Inr (simple_message role [], []))
         | _ \<Rightarrow> Inr (simple_message role [], []))
      else
        (let canonical_role = (if role = ''assistant'' then ''assistant'' else ''user'') in
         bind_py (normalize_message_content_to_blocks (str_or_list_content message)) (\<lambda>(blocks, drops).
           if canonical_role = ''user'' then
             let (filtered, drops') = drop_user_thinking blocks [] drops
             in Inr (simple_message canonical_role filtered, drops')
           else Inr (simple_message canonical_role blocks, drops))))"

definition check_changed_content :: "json \<Rightarrow> json \<Rightarrow> string \<Rightarrow> bool py" where
  "check_changed_content canonical original role =
     (if role = ''tool_result'' then Inr False
      else
        let canonical_blocks = (case msg_content canonical of Some bs \<Rightarrow> bs | None \<Rightarrow> []) in
        case original of
          JStr s \<Rightarrow> bind_py (normalize_message_content_to_blocks original)
                     (\<lambda>(normalized, _). Inr (normalized \<noteq> [] \<or> s \<noteq> []))
        | JList bs \<Rightarrow>
            if length (filter is_dict bs) \<noteq> length canonical_blocks then Inr True
            else bind_py (normalize_message_content_to_blocks original)
                   (\<lambda>(normalized, _). Inr (\<not> py_eq_list canonical_blocks normalized))
        | _ \<Rightarrow> bind_py (normalize_message_content_to_blocks original)
                   (\<lambda>(normalized, _). Inr (\<not> py_eq_list canonical_blocks normalized)))"

text \<open>
  Result: the canonical message (\<open>None\<close> when it is dropped), whether it changed, and the updated
  \<open>signals\<close> and \<open>total_drops\<close>.
\<close>

definition process_bridged_message ::
    "bool \<Rightarrow> json \<Rightarrow> counts \<Rightarrow> drops \<Rightarrow> (json option \<times> bool \<times> counts \<times> drops) py" where
  "process_bridged_message preserve_content raw signals total_drops =
     (if \<not> is_dict raw then Inr (None, False, signals, total_drops)
      else
        let role = msg_role raw;
            is_result = (role = ''tool_result'');
            signals' = (if is_result then cadd ''tok_bridge_top_level_tool_result_rewritten'' 1 signals
                        else signals)
        in bind_py (canonicalize_bridge_message preserve_content raw) (\<lambda>(msg, msg_drops).
          let total_drops' = fold (\<lambda>(t, n). cadd t n) msg_drops total_drops;
              changed = (is_result \<or> msg_drops \<noteq> [])
          in if msg_content msg = Some [] then Inr (None, True, signals', total_drops')
             else if \<not> changed \<and> \<not> preserve_content then
               bind_py (check_changed_content msg (str_or_list_content raw) role)
                 (\<lambda>c. Inr (Some msg, c, signals', total_drops'))
             else Inr (Some msg, changed, signals', total_drops')))"

subsection \<open>The invariant of canonical messages\<close>

definition canonical_block :: "json \<Rightarrow> bool" where
  "canonical_block b \<longleftrightarrow>
     (\<exists>t. t \<noteq> [] \<and> py_strip t = t \<and> b = text_block t) \<or>
     list_ex (\<lambda>ty. has_type ty b) [''tool_use'', ''tool_result'', ''thinking'', ''redacted_thinking'']"

definition is_thinking :: "json \<Rightarrow> bool" where
  "is_thinking b = (has_type ''thinking'' b \<or> has_type ''redacted_thinking'' b)"

definition canonical_message :: "json \<Rightarrow> bool" where
  "canonical_message m \<longleftrightarrow>
     (\<exists>role bs. m = simple_message role bs \<and> role \<in> {''user'', ''assistant''} \<and> bs \<noteq> [] \<and>
        list_all canonical_block bs \<and> (role = ''user'' \<longrightarrow> list_all (\<lambda>b. \<not> is_thinking b) bs))"

lemma has_type_text_block [simp]: "has_type t (text_block s) = (t = ''text'')"
  by (auto simp: has_type_def text_block_def)

lemma jget_or_text_block [simp]: "jget_or ''type'' d (text_block s) = JStr ''text''"
  by (simp add: jget_or_def text_block_def)

lemma is_dict_text_block [simp]: "is_dict (text_block s)"
  by (simp add: text_block_def)

lemma field_strip_text_block [simp]: "field_strip ''text'' (text_block s) = py_strip s"
  by (simp add: field_strip_def text_block_def jget_or_def)

lemma canonical_block_is_dict: "canonical_block b \<Longrightarrow> is_dict b"
  by (auto simp: canonical_block_def dest: has_type_is_dict)

lemma has_type_jget_or: "is_dict b \<Longrightarrow> has_type t b \<longleftrightarrow> jget_or ''type'' (JStr []) b = JStr t \<or> False"
  if "t \<noteq> []"
  using that by (auto simp: has_type_def jget_or_def split: option.splits)

lemma normalize_block_allowed:
  assumes "normalize_block b blocks drops = Inr (blocks', drops')"
  shows "\<exists>new. blocks' = blocks @ new \<and> list_all canonical_block new"
proof (cases "is_dict b \<and> jget_or ''type'' (JStr []) b \<noteq> JStr ''text''")
  case True
  then obtain allowed where mem: "in_str_set (jget_or ''type'' (JStr []) b) ALLOWED_BLOCK_TYPES = Inr allowed"
    and res: "(if allowed then Inr (blocks @ [b], drops)
        else Inr (blocks, cadd (jget_or ''type'' (JStr []) b) 1 drops)) = (Inr (blocks', drops') :: (json list \<times> drops) py)"
    using assms by (auto simp: normalize_block_def Let_def elim!: bind_py_Inr_E)
  show ?thesis
  proof (cases allowed)
    case True
    with mem \<open>is_dict b \<and> _\<close> have "canonical_block b"
      by (auto simp: in_str_set_def ALLOWED_BLOCK_TYPES_def canonical_block_def has_type_jget_or
          split: if_splits)
    with res True show ?thesis by auto
  next
    case False
    with res show ?thesis by auto
  qed
next
  case False
  have "canonical_block (text_block (field_strip ''text'' b))" if "field_strip ''text'' b \<noteq> []"
    using that unfolding canonical_block_def
    by (auto simp: field_strip_def str_strip_def intro!: exI [of _ "py_strip (py_str (jget_or ''text'' (JStr []) b))"])
  with assms False show ?thesis
    by (auto simp: normalize_block_def Let_def split: if_splits)
qed

lemma normalize_blocks_allowed:
  "normalize_blocks bs blocks drops = Inr (blocks', drops') \<Longrightarrow>
     \<exists>new. blocks' = blocks @ new \<and> list_all canonical_block new"
proof (induction bs blocks drops rule: normalize_blocks.induct)
  case (1 blocks drops)
  then show ?case by simp
next
  case (2 b bs blocks drops)
  then obtain bl1 dr1 where one: "normalize_block b blocks drops = Inr (bl1, dr1)"
    and rest: "normalize_blocks bs bl1 dr1 = Inr (blocks', drops')"
    by (auto elim!: bind_py_Inr_E)
  obtain new1 where "bl1 = blocks @ new1" "list_all canonical_block new1"
    using normalize_block_allowed [OF one] by blast
  moreover obtain new2 where "blocks' = bl1 @ new2" "list_all canonical_block new2"
    using "2.IH" rest by blast
  ultimately show ?case by auto
qed

lemma normalize_content_allowed:
  assumes "normalize_message_content_to_blocks content = Inr (blocks, drops)"
  shows "list_all canonical_block blocks"
proof (cases content)
  case (JStr s)
  have "canonical_block (text_block (py_strip s))" if "py_strip s \<noteq> []"
    using that canonical_block_def py_strip_idem by blast
  with JStr assms show ?thesis
    by (auto simp: normalize_message_content_to_blocks_def Let_def split: if_splits)
next
  case (JList bs)
  with assms show ?thesis
    by (auto simp: normalize_message_content_to_blocks_def dest: normalize_blocks_allowed)
qed (use assms in \<open>auto simp: normalize_message_content_to_blocks_def\<close>)

lemma drop_user_thinking_spec:
  "drop_user_thinking bs kept drops = (kept', drops') \<Longrightarrow>
     kept' = kept @ filter (\<lambda>b. \<not> is_thinking b) bs"
  by (induction bs kept drops rule: drop_user_thinking.induct) (auto simp: is_thinking_def split: if_splits)

lemma drop_user_thinking_id:
  "list_all (\<lambda>b. \<not> is_thinking b) bs \<Longrightarrow> drop_user_thinking bs kept drops = (kept @ bs, drops)"
  by (induction bs kept drops rule: drop_user_thinking.induct) (auto simp: is_thinking_def)

lemma has_type_canonical_tool_result [simp]: "has_type ''tool_result'' (canonical_tool_result m)"
  by (simp add: canonical_tool_result_def Let_def has_type_def split: option.splits)

lemma canonical_tool_result_canonical: "canonical_block (canonical_tool_result m)"
  by (simp add: canonical_block_def)

lemma not_thinking_tool_result [simp]: "\<not> is_thinking (canonical_tool_result m)"
  using has_type_unique [OF has_type_canonical_tool_result [of m]] by (simp add: is_thinking_def)

lemma canonicalize_unprotected_shape:
  assumes "canonicalize_bridge_message False raw = Inr (msg, drops)"
  shows "\<exists>role bs. msg = simple_message role bs \<and> role \<in> {''user'', ''assistant''} \<and>
           list_all canonical_block bs \<and> (role = ''user'' \<longrightarrow> list_all (\<lambda>b. \<not> is_thinking b) bs)"
proof (cases "msg_role raw = ''tool_result''")
  case True
  with assms show ?thesis
    by (auto simp: canonicalize_bridge_message_def canonical_tool_result_canonical)
next
  case False
  then obtain blocks d where norm:
      "normalize_message_content_to_blocks (str_or_list_content raw) = Inr (blocks, d)"
    using assms by (auto simp: canonicalize_bridge_message_def Let_def elim!: bind_py_Inr_E)
  have ok: "list_all canonical_block blocks" using norm by (rule normalize_content_allowed)
  obtain kept d' where drop: "drop_user_thinking blocks [] d = (kept, d')" by fastforce
  then have kept: "kept = filter (\<lambda>b. \<not> is_thinking b) blocks"
    by (auto dest: drop_user_thinking_spec)
  show ?thesis
    using assms False norm drop ok
    by (auto simp: canonicalize_bridge_message_def Let_def kept list_all_iff split: if_splits)
qed

lemma normalize_blocks_id:
  "list_all canonical_block bs \<Longrightarrow> normalize_blocks bs blocks drops = Inr (blocks @ bs, drops)"
proof (induction bs arbitrary: blocks)
  case Nil
  then show ?case by simp
next
  case (Cons b bs)
  then have b: "canonical_block b" by simp
  have "normalize_block b blocks drops = Inr (blocks @ [b], drops)"
  proof (cases "\<exists>t. t \<noteq> [] \<and> py_strip t = t \<and> b = text_block t")
    case True
    then show ?thesis
      by (auto simp: normalize_block_def Let_def)
  next
    case False
    with b obtain ty where ty: "ty \<in> {''tool_use'', ''tool_result'', ''thinking'', ''redacted_thinking''}"
        "has_type ty b" by (auto simp: canonical_block_def)
    then have "jget_or ''type'' (JStr []) b = JStr ty" "is_dict b"
      by (auto simp: has_type_def jget_or_def dest: jget_SomeD)
    with ty show ?thesis by (auto simp: normalize_block_def Let_def ALLOWED_BLOCK_TYPES_def)
  qed
  with Cons show ?case by simp
qed

lemma py_strip_role [simp]: "py_strip ''user'' = ''user''" "py_strip ''assistant'' = ''assistant''"
  by (auto intro!: py_strip_id simp: py_space_def)

lemma canonicalize_canonical:
  assumes "canonical_message m"
  shows "canonicalize_bridge_message False m = Inr (m, [])"
proof -
  from assms obtain role bs where m: "m = simple_message role bs" "role \<in> {''user'', ''assistant''}"
    "bs \<noteq> []" "list_all canonical_block bs" "role = ''user'' \<longrightarrow> list_all (\<lambda>b. \<not> is_thinking b) bs"
    by (auto simp: canonical_message_def)
  have "str_or_list_content m = JList bs"
    by (simp add: m str_or_list_content_def simple_message_def)
  then show ?thesis
    using m by (auto simp: canonicalize_bridge_message_def normalize_message_content_to_blocks_def
        normalize_blocks_id drop_user_thinking_id Let_def)
qed

lemma process_unprotected_canonical:
  assumes "process_bridged_message False raw signals drops = Inr (Some m, changed, signals', drops')"
  shows "canonical_message m"
proof -
  from assms obtain msg_drops where can: "canonicalize_bridge_message False raw = Inr (m, msg_drops)"
    and nonempty: "msg_content m \<noteq> Some []"
    by (auto simp: process_bridged_message_def Let_def split: if_splits elim!: bind_py_Inr_E)
  from canonicalize_unprotected_shape [OF can] nonempty show ?thesis
    by (auto simp: canonical_message_def)
qed

lemma process_canonical_id:
  assumes "canonical_message m"
  shows "process_bridged_message False m signals drops = Inr (Some m, False, signals, drops)"
proof -
  from assms obtain role bs where m: "m = simple_message role bs" "role \<in> {''user'', ''assistant''}"
    "bs \<noteq> []" "list_all canonical_block bs"
    by (auto simp: canonical_message_def)
  have content: "str_or_list_content m = JList bs"
    by (simp add: m str_or_list_content_def simple_message_def)
  have "filter is_dict bs = bs"
    using m(4) by (auto simp: list_all_iff filter_id_conv dest: canonical_block_is_dict)
  then have "check_changed_content m (JList bs) role = Inr False"
    using m by (auto simp: check_changed_content_def normalize_message_content_to_blocks_def
        normalize_blocks_id Let_def)
  then show ?thesis
    using m canonicalize_canonical [OF assms] content
    by (auto simp: process_bridged_message_def Let_def)
qed

subsection \<open>What is kept\<close>

definition passes_allowlist :: "json \<Rightarrow> bool" where
  "passes_allowlist b = list_ex (\<lambda>ty. has_type ty b)
     [''tool_use'', ''tool_result'', ''thinking'', ''redacted_thinking'']"

lemma normalize_block_kept:
  assumes "normalize_block b blocks drops = Inr (blocks', drops')"
  shows "filter passes_allowlist blocks' = filter passes_allowlist (blocks @ [b])"
proof -
  have no_text: "\<not> passes_allowlist (text_block t)" for t by (simp add: passes_allowlist_def)
  show ?thesis
  proof (cases "is_dict b \<and> jget_or ''type'' (JStr []) b \<noteq> JStr ''text''")
    case True
    then have "passes_allowlist b \<longleftrightarrow> jget_or ''type'' (JStr []) b \<in> JStr ` set ALLOWED_BLOCK_TYPES"
      by (auto simp: passes_allowlist_def ALLOWED_BLOCK_TYPES_def has_type_jget_or)
    with True assms show ?thesis
      by (auto simp: normalize_block_def Let_def in_str_set_def split: if_splits elim!: bind_py_Inr_E)
  next
    case False
    then have "\<not> passes_allowlist b"
      using has_type_is_dict [of _ b] by (auto simp: passes_allowlist_def has_type_def jget_or_def)
    with False assms no_text show ?thesis
      by (auto simp: normalize_block_def Let_def split: if_splits)
  qed
qed

lemma normalize_blocks_kept:
  "normalize_blocks bs blocks drops = Inr (blocks', drops') \<Longrightarrow>
     filter passes_allowlist blocks' = filter passes_allowlist (blocks @ bs)"
proof (induction bs blocks drops rule: normalize_blocks.induct)
  case (1 blocks drops)
  then show ?case by simp
next
  case (2 b bs blocks drops)
  then obtain bl1 dr1 where one: "normalize_block b blocks drops = Inr (bl1, dr1)"
    and rest: "normalize_blocks bs bl1 dr1 = Inr (blocks', drops')"
    by (auto elim!: bind_py_Inr_E)
  have "filter passes_allowlist bl1 = filter passes_allowlist (blocks @ [b])"
    using one by (rule normalize_block_kept)
  with "2.IH" rest show ?case by auto
qed

subsection \<open>Properties\<close>

text \<open>
  Processing is idempotent: a message that the per-message step of canonicalisation returns is canonical
  (role user or assistant, a nonempty list of allowed blocks, stripped nonblank texts, no thinking in user
  messages), and processing it again returns it, reports no change and touches no counter.
\<close>

lemma processing_idempotent:
  assumes "process_bridged_message False raw signals drops = Inr (Some m, changed, signals', drops')"
  shows "canonical_message m \<and> process_bridged_message False m s d = Inr (Some m, False, s, d)"
  using process_canonical_id [OF process_unprotected_canonical [OF assms]] process_unprotected_canonical [OF assms]
  by blast

definition sample_raw_message :: json where
  "sample_raw_message = JObj [(''role'', JStr ''assistant''), (''content'', JList
     [JObj [(''type'', JStr ''image'')], JObj [(''type'', JStr ''text''), (''text'', JStr '' ok '')], JNull])]"

definition sample_canonical_message :: json where
  "sample_canonical_message = simple_message ''assistant'' [text_block ''ok'']"

lemma processing_idempotent_witness:
  "canonical_message sample_canonical_message \<and>
   process_bridged_message False sample_canonical_message [] [] = Inr (Some sample_canonical_message, False, [], [])"
proof -
  have "process_bridged_message False sample_raw_message [] [] =
      Inr (Some sample_canonical_message, True, [], [(JStr ''image'', 1)])"
    by code_simp
  from processing_idempotent [OF this] show ?thesis .
qed

text \<open>
  The change test compares the canonical blocks with the normalised original, so stripping is invisible to it:
  a user message with one nonblank text is replaced by its stripped form and still reported as unchanged.
\<close>

lemma stripping_not_reported:
  assumes "py_strip t \<noteq> []"
  shows "process_bridged_message False (simple_message ''user'' [text_block t]) signals drops =
    Inr (Some (simple_message ''user'' [text_block (py_strip t)]), False, signals, drops)"
proof -
  have content: "str_or_list_content (simple_message ''user'' [text_block t]) = JList [text_block t]"
    by (simp add: str_or_list_content_def simple_message_def)
  have norm: "normalize_message_content_to_blocks (JList [text_block t]) = Inr ([text_block (py_strip t)], [])"
    using assms by (simp add: normalize_message_content_to_blocks_def normalize_block_def Let_def)
  have "drop_user_thinking [text_block (py_strip t)] [] [] = ([text_block (py_strip t)], [])"
    by (simp add: drop_user_thinking_id is_thinking_def)
  then have can: "canonicalize_bridge_message False (simple_message ''user'' [text_block t]) =
      Inr (simple_message ''user'' [text_block (py_strip t)], [])"
    by (simp add: canonicalize_bridge_message_def content norm)
  have "check_changed_content (simple_message ''user'' [text_block (py_strip t)]) (JList [text_block t]) ''user''
      = Inr False"
    by (simp add: check_changed_content_def norm)
  then show ?thesis by (simp add: process_bridged_message_def can content)
qed

lemma stripping_not_reported_witness:
  "process_bridged_message False (simple_message ''user'' [text_block '' c'']) [] [] =
     Inr (Some (simple_message ''user'' [text_block ''c'']), False, [], [])"
proof -
  have s: "py_strip '' c'' = ''c''" by code_simp
  then have "py_strip '' c'' \<noteq> []" by simp
  from stripping_not_reported [OF this, of "[]" "[]"] show ?thesis by (simp only: s)
qed

end
