(* ===== verification/MessagePasses.thy ===== *)
theory MessagePasses
  imports MessageNormalize
begin

section \<open>The structural passes over the message list\<close>

text \<open>
  Models the three structural rewrites of
  \<open>src/tok/runtime/pipeline/request_validation.py\<close> that run after the per-message step:
  assistant block order (tool calls last), splitting of user messages that mix tool results with
  other content, and merging of adjacent tool-result-only user messages.

  Object identity: the code marks the protected message by \<open>id(message)\<close>. Bodies come from
  \<open>json.loads\<close>, so no two positions of the list share an object, and the model names a message by
  its position.

  The locale \<open>message_pass\<close> is the contract the passes share: a pass keeps the shape of messages
  and neither loses nor duplicates a block. \<open>pass_pair\<close> composes two passes, which is again a pass.
\<close>

subsection \<open>Assistant block order\<close>

definition order_blocks :: "json list \<Rightarrow> json list" where
  "order_blocks content =
     filter (dict_without_type ''tool_use'') content @ filter (has_type ''tool_use'') content"

definition order_message :: "json \<Rightarrow> json \<times> bool" where
  "order_message message =
     (if \<not> is_dict message \<or> msg_role message \<noteq> ''assistant'' then (message, False)
      else case msg_content message of
          None \<Rightarrow> (message, False)
        | Some content \<Rightarrow>
            if content_has_opaque_provider_blocks (JList content) then (message, False)
            else let reordered = order_blocks content in
              if \<not> py_eq_list reordered content then (set_content reordered message, True)
              else (message, False))"

fun order_from :: "nat \<Rightarrow> nat option \<Rightarrow> json list \<Rightarrow> json list \<times> bool" where
  "order_from i skip [] = ([], False)"
| "order_from i skip (m # ms) =
     (let (m', c) = (if skip = Some i then (m, False) else order_message m);
          (ms', cs) = order_from (Suc i) skip ms
      in (m' # ms', c \<or> cs))"

definition normalize_assistant_block_order :: "nat option \<Rightarrow> json list \<Rightarrow> json list \<times> bool" where
  "normalize_assistant_block_order skip messages = order_from 0 skip messages"

subsection \<open>Splitting mixed user messages\<close>

definition split_message :: "json \<Rightarrow> json list" where
  "split_message message =
     (if \<not> is_dict message \<or> msg_role message \<noteq> ''user'' then [message]
      else case msg_content message of
          None \<Rightarrow> [message]
        | Some content \<Rightarrow>
            let results = filter (has_type ''tool_result'') content;
                others = filter (dict_without_type ''tool_result'') content
            in if results = [] \<or> others = [] then [message]
               else [set_content results message, set_content others message])"

definition split_mixed_user_tool_result_messages ::
    "json list \<Rightarrow> json list \<times> bool \<times> counts" where
  "split_mixed_user_tool_result_messages messages =
     (let split_count = length (filter (\<lambda>m. length (split_message m) = 2) messages)
      in (concat (map split_message messages), split_count \<noteq> 0,
          if split_count \<noteq> 0
          then [(''tok_bridge_user_tool_result_text_split'', int split_count)] else []))"

subsection \<open>Merging adjacent tool-result messages\<close>

definition user_message_tool_result_shape :: "json \<Rightarrow> bool \<times> bool" where
  "user_message_tool_result_shape message =
     (case msg_content message of
        None \<Rightarrow> (False, False)
      | Some content \<Rightarrow> (list_ex (has_type ''tool_result'') content,
                        list_ex (dict_without_type ''tool_result'') content))"

definition user_messages_are_merge_compatible :: "json \<Rightarrow> json \<Rightarrow> bool" where
  "user_messages_are_merge_compatible prev current =
     (let (prev_result, prev_other) = user_message_tool_result_shape prev;
          (curr_result, curr_other) = user_message_tool_result_shape current
      in if prev_result \<and> \<not> prev_other then curr_result \<and> \<not> curr_other else False)"

text \<open>\<open>msg["role"] == "user"\<close>: the value itself, not stripped.\<close>

definition raw_role_is :: "string \<Rightarrow> json \<Rightarrow> bool" where
  "raw_role_is r m = (jget ''role'' m = Some (JStr r))"

definition merges_with :: "json \<Rightarrow> json \<Rightarrow> bool" where
  "merges_with prev msg =
     (raw_role_is ''user'' msg \<and> raw_role_is ''user'' prev \<and> user_messages_are_merge_compatible prev msg)"

definition extend_content :: "json \<Rightarrow> json \<Rightarrow> json" where
  "extend_content prev msg =
     (case (msg_content prev, msg_content msg) of
        (Some bs, Some cs) \<Rightarrow> set_content (bs @ cs) prev
      | _ \<Rightarrow> prev)"

text \<open>\<open>merge_into prev msgs\<close>: the loop with \<open>merged[-1] = prev\<close>, which later messages may extend.\<close>

fun merge_into :: "json \<Rightarrow> json list \<Rightarrow> json list \<times> int" where
  "merge_into prev [] = ([prev], 0)"
| "merge_into prev (m # ms) =
     (if merges_with prev m
      then let (rest, n) = merge_into (extend_content prev m) ms in (rest, n + 1)
      else let (rest, n) = merge_into m ms in (prev # rest, n))"

definition merge_adjacent_anthropic_messages :: "json list \<Rightarrow> json list \<times> counts" where
  "merge_adjacent_anthropic_messages messages =
     (case messages of
        [] \<Rightarrow> ([], [])
      | m # ms \<Rightarrow> (let (merged, n) = merge_into m ms
                  in (merged, if n \<noteq> 0 then [(''tok_bridge_adjacent_user_merged'', n)] else [])))"

subsection \<open>The contract of a pass\<close>

definition blocks_of :: "json \<Rightarrow> json list" where
  "blocks_of m = (case msg_content m of Some bs \<Rightarrow> bs | None \<Rightarrow> [])"

definition all_blocks :: "json list \<Rightarrow> json list" where
  "all_blocks ms = concat (map blocks_of ms)"

definition shaped :: "json \<Rightarrow> bool" where
  "shaped m \<longleftrightarrow> (\<exists>role bs. m = simple_message role bs \<and> role \<in> {''user'', ''assistant''} \<and> list_all is_dict bs)"

lemma all_blocks_simps [simp]:
  "all_blocks [] = []"
  "all_blocks (m # ms) = blocks_of m @ all_blocks ms"
  "all_blocks (ms @ ns) = all_blocks ms @ all_blocks ns"
  by (simp_all add: all_blocks_def)

lemma blocks_of_simple [simp]: "blocks_of (simple_message r bs) = bs"
  by (simp add: blocks_of_def)

lemma shapedE:
  assumes "shaped m"
  obtains role bs where "m = simple_message role bs" "role = ''user'' \<or> role = ''assistant''"
    "list_all is_dict bs" "msg_role m = role" "raw_role_is role m"
  using assms by (auto simp: shaped_def raw_role_is_def simple_message_def
      msg_role_def field_strip_def jget_or_def)

lemma shaped_simple [simp]:
  "shaped (simple_message r bs) \<longleftrightarrow> (r = ''user'' \<or> r = ''assistant'') \<and> list_all is_dict bs"
  by (auto simp: shaped_def)

lemma raw_role_simple [simp]: "raw_role_is r (simple_message r' bs) = (r = r')"
  by (auto simp: raw_role_is_def simple_message_def)

lemma canonical_message_shaped:
  assumes "canonical_message m"
  shows "shaped m"
proof -
  from assms obtain role bs where "m = simple_message role bs" "role \<in> {''user'', ''assistant''}"
    "list_all canonical_block bs" by (auto simp: canonical_message_def)
  moreover from this have "list_all is_dict bs"
    by (metis canonical_block_is_dict list_all_iff)
  ultimately show ?thesis by auto
qed

lemma shaped_cases:
  assumes "shaped m"
  obtains (user) bs where "m = simple_message ''user'' bs" "list_all is_dict bs"
    | (assistant) bs where "m = simple_message ''assistant'' bs" "list_all is_dict bs"
  using assms by (auto simp: shaped_def)

locale message_pass =
  fixes run :: "json list \<Rightarrow> json list" and ok :: "json list \<Rightarrow> bool"
  assumes run_ok: "ok ms \<Longrightarrow> ok (run ms)"
    and run_blocks: "ok ms \<Longrightarrow> mset (all_blocks (run ms)) = mset (all_blocks ms)"
begin

lemma block_kept: "ok ms \<Longrightarrow> b \<in> set (all_blocks ms) \<longleftrightarrow> b \<in> set (all_blocks (run ms))"
  by (metis run_blocks set_mset_mset)

lemma block_count: "ok ms \<Longrightarrow> length (all_blocks (run ms)) = length (all_blocks ms)"
  by (metis run_blocks size_mset)

lemma count_kept: "ok ms \<Longrightarrow> length (filter P (all_blocks (run ms))) = length (filter P (all_blocks ms))"
  by (metis run_blocks mset_filter size_mset)

end

locale pass_pair = p: message_pass first_run ok + q: message_pass second_run ok
  for first_run second_run :: "json list \<Rightarrow> json list" and ok :: "json list \<Rightarrow> bool"
begin

sublocale both: message_pass "\<lambda>ms. second_run (first_run ms)" ok
  by unfold_locales (simp_all add: p.run_ok q.run_ok p.run_blocks q.run_blocks)

end

subsection \<open>The order pass\<close>

lemma filter_dict_split:
  "list_all is_dict bs \<Longrightarrow> filter (dict_without_type t) bs = filter (\<lambda>b. \<not> has_type t b) bs"
  by (auto simp: list_all_iff dict_without_type_def intro!: filter_cong)

lemma mset_order_blocks: "list_all is_dict bs \<Longrightarrow> mset (order_blocks bs) = mset bs"
  by (simp add: order_blocks_def filter_dict_split union_commute)

lemma order_message_shaped:
  assumes "shaped m" and "order_message m = (m', c)"
  shows "shaped m' \<and> mset (blocks_of m') = mset (blocks_of m) \<and> msg_role m' = msg_role m"
  using assms(1)
proof (cases rule: shaped_cases)
  case (user bs)
  with assms show ?thesis by (auto simp: order_message_def)
next
  case (assistant bs)
  have "list_all is_dict (order_blocks bs)"
    using assistant(2) by (auto simp: order_blocks_def list_all_iff)
  with assms assistant mset_order_blocks show ?thesis
    by (auto simp: order_message_def Let_def split: if_splits)
qed

lemma order_from_spec:
  "list_all shaped ms \<Longrightarrow> order_from i skip ms = (ms', c) \<Longrightarrow>
     list_all shaped ms' \<and> mset (all_blocks ms') = mset (all_blocks ms) \<and>
     map msg_role ms' = map msg_role ms"
proof (induction ms arbitrary: i ms' c)
  case Nil
  then show ?case by simp
next
  case (Cons m ms)
  obtain m1 c1 where one: "(if skip = Some i then (m, False) else order_message m) = (m1, c1)"
    by fastforce
  obtain ms1 cs1 where rest: "order_from (Suc i) skip ms = (ms1, cs1)" by fastforce
  have tl: "list_all shaped ms1 \<and> mset (all_blocks ms1) = mset (all_blocks ms) \<and> map msg_role ms1 = map msg_role ms"
    using Cons.IH [OF _ rest] Cons.prems(1) by simp
  have "shaped m1 \<and> mset (blocks_of m1) = mset (blocks_of m) \<and> msg_role m1 = msg_role m"
    using one Cons.prems(1) order_message_shaped [of m m1 c1] by (auto split: if_splits)
  moreover have "ms' = m1 # ms1"
    using Cons.prems(2) one rest by simp
  ultimately show ?case using tl by simp
qed

lemma order_pass_spec:
  assumes "list_all shaped ms" and "normalize_assistant_block_order skip ms = (ms', c)"
  shows "list_all shaped ms' \<and> mset (all_blocks ms') = mset (all_blocks ms) \<and> map msg_role ms' = map msg_role ms"
  using assms by (simp add: normalize_assistant_block_order_def order_from_spec)

interpretation order_pass: message_pass "\<lambda>ms. fst (normalize_assistant_block_order skip ms)" "list_all shaped"
proof unfold_locales
  fix ms :: "json list"
  assume ms: "list_all shaped ms"
  show "list_all shaped (fst (normalize_assistant_block_order skip ms))"
    and "mset (all_blocks (fst (normalize_assistant_block_order skip ms))) = mset (all_blocks ms)"
    using order_pass_spec [OF ms surjective_pairing] by blast+
qed

text \<open>The shape the order pass establishes: no block of another type after a tool call.\<close>

definition tool_use_last :: "json list \<Rightarrow> bool" where
  "tool_use_last bs = list_all (has_type ''tool_use'') (dropWhile (\<lambda>b. \<not> has_type ''tool_use'' b) bs)"

lemma dropWhile_filter_append:
  "(\<forall>x \<in> set xs. P x) \<Longrightarrow> (\<forall>y \<in> set ys. \<not> P y) \<Longrightarrow> dropWhile P (xs @ ys) = ys"
  by (cases ys) (simp_all add: dropWhile_append2)

lemma tool_use_last_order: "tool_use_last (order_blocks bs)"
proof -
  have "dropWhile (\<lambda>b. \<not> has_type ''tool_use'' b) (order_blocks bs) = filter (has_type ''tool_use'') bs"
    unfolding order_blocks_def by (rule dropWhile_filter_append) (auto simp: dict_without_type_def)
  then show ?thesis by (simp add: tool_use_last_def list_all_iff)
qed

lemma tool_use_last_py_eq: "py_eq_list xs ys \<Longrightarrow> tool_use_last xs = tool_use_last ys"
proof (induction xs arbitrary: ys)
  case Nil
  then show ?case by (simp add: py_eq_list_def)
next
  case (Cons x xs)
  then obtain y zs where ys: "ys = y # zs" "py_eq x y" "py_eq_list xs zs"
    by (cases ys) (auto simp: py_eq_list_def py_eq_def)
  have "list_all (has_type t) as = list_all (has_type t) bs" if "py_eq_list as bs" for as bs t
    using that unfolding py_eq_list_conv
    by (induction rule: list_all2_induct) (auto simp: has_type_py_eq)
  with Cons.IH [OF ys(3)] ys show ?case
    by (auto simp: tool_use_last_def has_type_py_eq [of x y])
qed

lemma order_message_tool_use_last:
  assumes "order_message m = (m', c)" and "msg_role m = ''assistant''" and "msg_content m = Some bs"
    and "\<not> content_has_opaque_provider_blocks (JList bs)"
  shows "tool_use_last (blocks_of m')"
proof -
  have "is_dict m" using assms(3) by (rule msg_content_is_dict)
  with assms tool_use_last_order tool_use_last_py_eq [of "order_blocks bs" bs] show ?thesis
    by (auto simp: order_message_def Let_def blocks_of_def split: if_splits)
qed

lemma order_message_opaque:
  "msg_content m = Some bs \<Longrightarrow> content_has_opaque_provider_blocks (JList bs) \<Longrightarrow> order_message m = (m, False)"
  by (simp add: order_message_def)

subsection \<open>The split pass\<close>

definition mixed_user :: "json \<Rightarrow> bool" where
  "mixed_user m = (msg_role m = ''user'' \<and> fst (user_message_tool_result_shape m) \<and>
     snd (user_message_tool_result_shape m))"

lemma shape_simple [simp]:
  "user_message_tool_result_shape (simple_message r bs) =
     (list_ex (has_type ''tool_result'') bs, list_ex (dict_without_type ''tool_result'') bs)"
  by (simp add: user_message_tool_result_shape_def)

lemma split_message_shaped:
  assumes "shaped m"
  shows "list_all shaped (split_message m) \<and> mset (all_blocks (split_message m)) = mset (blocks_of m) \<and>
    (\<forall>m' \<in> set (split_message m). \<not> mixed_user m' \<and> msg_role m' = msg_role m)"
  using assms
proof (cases rule: shaped_cases)
  case (user bs)
  have others: "filter (dict_without_type ''tool_result'') bs = filter (\<lambda>b. \<not> has_type ''tool_result'' b) bs"
    using user(2) by (rule filter_dict_split)
  show ?thesis
  proof (cases "filter (has_type ''tool_result'') bs = [] \<or> filter (dict_without_type ''tool_result'') bs = []")
    case True
    then have "split_message m = [m]" by (simp add: user split_message_def)
    with True user show ?thesis
      by (auto simp: mixed_user_def list_ex_iff filter_empty_conv)
  next
    case False
    then have "split_message m = [simple_message ''user'' (filter (has_type ''tool_result'') bs),
        simple_message ''user'' (filter (dict_without_type ''tool_result'') bs)]"
      by (simp add: user split_message_def Let_def)
    with user others show ?thesis
      by (auto simp: mixed_user_def list_ex_iff list_all_iff dict_without_type_def)
  qed
next
  case (assistant bs)
  then show ?thesis by (auto simp: split_message_def mixed_user_def)
qed

lemma split_pass_spec:
  assumes "list_all shaped ms" and "split_mixed_user_tool_result_messages ms = (ms', c, s)"
  shows "list_all shaped ms' \<and> mset (all_blocks ms') = mset (all_blocks ms) \<and>
    list_all (\<lambda>m. \<not> mixed_user m) ms'"
proof -
  have "list_all shaped (concat (map split_message ms)) \<and>
      mset (all_blocks (concat (map split_message ms))) = mset (all_blocks ms) \<and>
      list_all (\<lambda>m. \<not> mixed_user m) (concat (map split_message ms))"
    using assms(1)
    by (induction ms) (auto simp: list_all_iff dest: split_message_shaped)
  with assms(2) show ?thesis
    by (auto simp: split_mixed_user_tool_result_messages_def Let_def)
qed

interpretation split_pass: message_pass "\<lambda>ms. fst (split_mixed_user_tool_result_messages ms)" "list_all shaped"
proof unfold_locales
  fix ms :: "json list"
  assume ms: "list_all shaped ms"
  obtain ms' c s where "split_mixed_user_tool_result_messages ms = (ms', c, s)" by (metis prod_cases3)
  then show "list_all shaped (fst (split_mixed_user_tool_result_messages ms))"
    and "mset (all_blocks (fst (split_mixed_user_tool_result_messages ms))) = mset (all_blocks ms)"
    using split_pass_spec [OF ms] by auto
qed

subsection \<open>The merge pass\<close>

lemma extend_content_simple [simp]:
  "extend_content (simple_message r bs) (simple_message r' cs) = simple_message r (bs @ cs)"
  by (simp add: extend_content_def)

lemma merges_with_simple [simp]:
  "merges_with (simple_message r bs) (simple_message r' cs) \<longleftrightarrow>
     r' = ''user'' \<and> r = ''user'' \<and>
     list_ex (has_type ''tool_result'') bs \<and> \<not> list_ex (dict_without_type ''tool_result'') bs \<and>
     list_ex (has_type ''tool_result'') cs \<and> \<not> list_ex (dict_without_type ''tool_result'') cs"
  by (auto simp: merges_with_def user_messages_are_merge_compatible_def)

lemma merge_into_spec:
  "shaped prev \<Longrightarrow> list_all shaped ms \<Longrightarrow> merge_into prev ms = (ms', n) \<Longrightarrow>
     list_all shaped ms' \<and> all_blocks ms' = blocks_of prev @ all_blocks ms"
proof (induction prev ms arbitrary: ms' n rule: merge_into.induct)
  case (1 prev)
  then show ?case by auto
next
  case (2 prev m ms)
  obtain r bs where prev: "prev = simple_message r bs" "r = ''user'' \<or> r = ''assistant''" "list_all is_dict bs"
    using "2.prems"(1) by (auto simp: shaped_def)
  obtain r' cs where m: "m = simple_message r' cs" "r' = ''user'' \<or> r' = ''assistant''" "list_all is_dict cs"
    using "2.prems"(2) by (auto simp: shaped_def)
  show ?case
  proof (cases "merges_with prev m")
    case True
    then show ?thesis
      using "2.IH"(1) [OF True] "2.prems" prev m
      by (fastforce split: prod.splits)
  next
    case False
    then show ?thesis
      using "2.IH"(2) [OF False] "2.prems" prev m
      by (fastforce split: prod.splits)
  qed
qed

lemma merge_pass_spec:
  assumes "list_all shaped ms" and "merge_adjacent_anthropic_messages ms = (ms', s)"
  shows "list_all shaped ms' \<and> all_blocks ms' = all_blocks ms"
  using assms by (auto simp: merge_adjacent_anthropic_messages_def split: list.splits prod.splits
      dest: merge_into_spec)

interpretation merge_pass: message_pass "\<lambda>ms. fst (merge_adjacent_anthropic_messages ms)" "list_all shaped"
  by unfold_locales (simp_all add: merge_pass_spec [OF _ surjective_pairing])

end
