(* ===== verification/ToolIdRewrite.thy ===== *)
theory ToolIdRewrite
  imports MessagePasses
begin

section \<open>Rewriting tool ids and restoring the pairing of results\<close>

text \<open>
  Models \<open>_rewrite_provider_safe_tool_ids\<close> and its two helpers in
  \<open>src/tok/runtime/pipeline/request_validation.py\<close>. Walking over the messages, the code allocates a
  provider-safe id for every tool call of an assistant message, remembers the pair of old and new
  id, and rewrites the tool results of the next user message: matched results are renamed and
  sorted into the order of the calls, then come unmatched results, then everything else.

  The mutable dictionaries of the code (\<open>occupied_ids\<close>, \<open>pending_pairs\<close>, \<open>signals\<close>) are passed and
  returned. Content lists that the caller protects by \<open>id(content)\<close> are named by the position of
  their message (\<open>prot\<close>).
\<close>

record pending_pair =
  raw_id :: string
  new_id :: string
  consumed :: bool

definition mk_pair :: "string \<Rightarrow> string \<Rightarrow> pending_pair" where
  "mk_pair r n = \<lparr>raw_id = r, new_id = n, consumed = False\<rparr>"

subsection \<open>Assistant messages\<close>

record assistant_state =
  a_occupied :: "string list"
  a_pending :: "pending_pair list"
  a_signals :: counts
  a_changed :: bool
  a_invalid :: int

definition assistant_block :: "nat \<Rightarrow> nat \<Rightarrow> nat \<Rightarrow> json \<Rightarrow> assistant_state \<Rightarrow> json \<times> assistant_state" where
  "assistant_block msg_index block_index occurrence block st =
     (let raw = field_strip ''id'' block;
          (normalized_id, d, occupied') = normalize_or_synthesize_tool_id (JStr raw) (a_occupied st)
             (tool_id_seed_hint ''toolu'' msg_index block_index occurrence);
          differs = (jget ''id'' block \<noteq> Some (JStr normalized_id));
          block' = (if differs then jset ''id'' (JStr normalized_id) block else block)
      in (block',
          st\<lparr>a_occupied := occupied',
             a_pending := a_pending st @ [mk_pair raw normalized_id],
             a_signals := count_disposition ''tok_bridge_tool_id_sanitized''
                ''tok_bridge_blank_tool_id_synthesized'' ''tok_bridge_tool_id_deduped'' d (a_signals st),
             a_changed := a_changed st \<or> differs,
             a_invalid := a_invalid st + (if raw \<noteq> [] \<and> \<not> is_provider_safe_tool_id raw then 1 else 0)\<rparr>))"

fun rewrite_assistant_tool_message ::
    "nat \<Rightarrow> nat \<Rightarrow> nat \<Rightarrow> json list \<Rightarrow> assistant_state \<Rightarrow> json list \<times> assistant_state" where
  "rewrite_assistant_tool_message mi bi occurrence [] st = ([], st)"
| "rewrite_assistant_tool_message mi bi occurrence (b # bs) st =
     (if \<not> has_type ''tool_use'' b then
        let (bs', st') = rewrite_assistant_tool_message mi (Suc bi) occurrence bs st
        in (b # bs', st')
      else
        let (b', st1) = assistant_block mi bi occurrence b st;
            (bs', st') = rewrite_assistant_tool_message mi (Suc bi) (Suc occurrence) bs st1
        in (b' # bs', st'))"

text \<open>A protected message is not modified; its ids are occupied and can be matched.\<close>

fun track_protected :: "json list \<Rightarrow> string list \<times> pending_pair list \<Rightarrow> string list \<times> pending_pair list" where
  "track_protected [] st = st"
| "track_protected (b # bs) (occupied, pending) =
     (let raw = field_strip ''id'' b in
      if has_type ''tool_use'' b \<and> raw \<noteq> []
      then track_protected bs (raw # occupied, pending @ [mk_pair raw raw])
      else track_protected bs (occupied, pending))"

subsection \<open>User messages\<close>

record user_state =
  u_pending :: "pending_pair list"
  u_signals :: counts
  u_changed :: bool
  u_matched :: "(nat \<times> json) list"
  u_unmatched :: "json list"
  u_others :: "json list"
  u_content :: "json list"

definition open_matches :: "string \<Rightarrow> pending_pair list \<Rightarrow> nat list" where
  "open_matches raw pending =
     filter (\<lambda>i. \<not> consumed (pending ! i) \<and> raw_id (pending ! i) = raw) [0..<length pending]"

definition first_open :: "pending_pair list \<Rightarrow> nat option" where
  "first_open pending = List.find (\<lambda>i. \<not> consumed (pending ! i)) [0..<length pending]"

definition find_match :: "string \<Rightarrow> pending_pair list \<Rightarrow> counts \<Rightarrow> nat option \<times> counts" where
  "find_match raw pending signals =
     (if raw \<noteq> [] then
        (case open_matches raw pending of
           [i] \<Rightarrow> (Some i, signals)
         | [] \<Rightarrow> (None, signals)
         | _ \<Rightarrow> (None, cadd ''tok_bridge_tool_result_pairing_ambiguous'' 1 signals))
      else (case first_open pending of
           None \<Rightarrow> (None, signals)
         | Some i \<Rightarrow> (Some i, cadd ''tok_bridge_tool_result_pairing_repaired'' 1 signals)))"

text \<open>\<open>u_content\<close> is the message's own list, whose blocks are updated in place.\<close>

definition user_block :: "json \<Rightarrow> user_state \<Rightarrow> user_state" where
  "user_block block st =
     (if \<not> has_type ''tool_result'' block then
        st\<lparr>u_others := (if is_dict block then u_others st @ [block] else u_others st),
           u_content := u_content st @ [block]\<rparr>
      else
        let raw = field_strip ''tool_use_id'' block;
            (match_index, signals) = find_match raw (u_pending st) (u_signals st)
        in case match_index of
             None \<Rightarrow> st\<lparr>u_signals := cadd ''tok_bridge_tool_result_pairing_unrepaired'' 1 signals,
                        u_unmatched := u_unmatched st @ [block],
                        u_content := u_content st @ [block]\<rparr>
           | Some i \<Rightarrow>
               let normalized_id = new_id (u_pending st ! i);
                   differs = (jget ''tool_use_id'' block \<noteq> Some (JStr normalized_id));
                   block' = (if differs then jset ''tool_use_id'' (JStr normalized_id) block else block)
               in st\<lparr>u_pending := (u_pending st)[i := (u_pending st ! i)\<lparr>consumed := True\<rparr>],
                     u_signals := (if differs then cadd ''tok_bridge_tool_result_id_rewritten'' 1 signals
                                   else signals),
                     u_changed := u_changed st \<or> differs,
                     u_matched := u_matched st @ [(i, block')],
                     u_content := u_content st @ [block']\<rparr>)"

definition rewrite_user_tool_message ::
    "json list \<Rightarrow> pending_pair list \<Rightarrow> counts \<Rightarrow> json list \<times> bool \<times> counts" where
  "rewrite_user_tool_message content pending signals =
     (let st = fold user_block content
            \<lparr>u_pending = pending, u_signals = signals, u_changed = False, u_matched = [],
             u_unmatched = [], u_others = [], u_content = []\<rparr>;
          sorted_results = map snd (sort_key fst (u_matched st));
          reordered = sorted_results @ u_unmatched st @ u_others st;
          moved = (\<not> py_eq_list reordered (u_content st));
          indices = map fst (u_matched st);
          signals1 = (if moved then cadd ''tok_bridge_tool_result_order_repaired'' 1 (u_signals st)
                      else u_signals st);
          signals2 = (if indices \<noteq> [] \<and> indices \<noteq> sort indices
                      then cadd ''tok_bridge_tool_result_pairing_repaired'' 1 signals1 else signals1)
      in (if moved then reordered else u_content st, u_changed st \<or> moved, signals2))"

subsection \<open>The walk over the messages\<close>

record rewrite_state =
  r_occupied :: "string list"
  r_pending :: "pending_pair list"
  r_signals :: counts
  r_changed :: bool
  r_invalid :: int

definition rewrite_init :: rewrite_state where
  "rewrite_init = \<lparr>r_occupied = [], r_pending = [], r_signals = [], r_changed = False, r_invalid = 0\<rparr>"

definition rewrite_message :: "(nat \<Rightarrow> bool) \<Rightarrow> nat \<Rightarrow> json \<Rightarrow> rewrite_state \<Rightarrow> json \<times> rewrite_state" where
  "rewrite_message prot i message st =
     (case msg_content message of
        None \<Rightarrow> (message, st\<lparr>r_pending := []\<rparr>)
      | Some content \<Rightarrow>
          if msg_role message = ''assistant'' then
            if prot i then
              let (occupied, pending) = track_protected content (r_occupied st, r_pending st)
              in (message, st\<lparr>r_occupied := occupied, r_pending := pending\<rparr>)
            else
              let (content', a) = rewrite_assistant_tool_message i 0 1 content
                    \<lparr>a_occupied = r_occupied st, a_pending = r_pending st, a_signals = r_signals st,
                     a_changed = r_changed st, a_invalid = r_invalid st\<rparr>
              in (set_content content' message,
                  \<lparr>r_occupied = a_occupied a, r_pending = a_pending a, r_signals = a_signals a,
                   r_changed = a_changed a, r_invalid = a_invalid a\<rparr>)
          else if msg_role message = ''user'' then
            if r_pending st = [] then (message, st)
            else
              let (content', c, signals) = rewrite_user_tool_message content (r_pending st) (r_signals st)
              in (set_content content' message,
                  st\<lparr>r_pending := [], r_signals := signals, r_changed := r_changed st \<or> c\<rparr>)
          else (message, st\<lparr>r_pending := []\<rparr>))"

fun rewrite_from :: "(nat \<Rightarrow> bool) \<Rightarrow> nat \<Rightarrow> json list \<Rightarrow> rewrite_state \<Rightarrow> json list \<times> rewrite_state" where
  "rewrite_from prot i [] st = ([], st)"
| "rewrite_from prot i (m # ms) st =
     (let (m', st1) = rewrite_message prot i m st; (ms', st2) = rewrite_from prot (Suc i) ms st1
      in (m' # ms', st2))"

definition rewrite_final_signals :: "rewrite_state \<Rightarrow> counts" where
  "rewrite_final_signals st =
     (let s = (if r_invalid st \<noteq> 0 then dict_set ''tok_bridge_invalid_tool_id_seen'' (r_invalid st) (r_signals st)
               else r_signals st)
      in if cget ''tok_bridge_tool_result_pairing_unrepaired'' s \<noteq> 0
         then dict_set ''tok_bridge_tool_result_rewrite_incomplete'' 1 s
         else if cget ''tok_bridge_tool_result_id_rewritten'' s \<noteq> 0
         then dict_set ''tok_bridge_tool_result_rewrite_complete'' 1 s
         else s)"

text \<open>\<open>message.get\<close> on an element that is not a dictionary raises \<open>AttributeError\<close>.\<close>

definition rewrite_provider_safe_tool_ids ::
    "(nat \<Rightarrow> bool) \<Rightarrow> json list \<Rightarrow> (json list \<times> bool \<times> counts) py" where
  "rewrite_provider_safe_tool_ids prot messages =
     (if \<not> list_all is_dict messages then Inl AttributeError
      else let (ms, st) = rewrite_from prot 0 messages rewrite_init
           in Inr (ms, r_changed st, rewrite_final_signals st))"

subsection \<open>Allocated ids\<close>

fun assistant_requests :: "nat \<Rightarrow> nat \<Rightarrow> nat \<Rightarrow> json list \<Rightarrow> (json \<times> string) list" where
  "assistant_requests mi bi occurrence [] = []"
| "assistant_requests mi bi occurrence (b # bs) =
     (if has_type ''tool_use'' b
      then (JStr (field_strip ''id'' b), tool_id_seed_hint ''toolu'' mi bi occurrence)
             # assistant_requests mi (Suc bi) (Suc occurrence) bs
      else assistant_requests mi (Suc bi) occurrence bs)"

lemma assistant_block_alloc:
  assumes "assistant_block mi bi occ b st = (b', st')" and "has_type ''tool_use'' b"
  shows "\<exists>n. allocate_block_id (JStr (field_strip ''id'' b), tool_id_seed_hint ''toolu'' mi bi occ) (a_occupied st)
      = (n, a_occupied st') \<and> jget_or ''id'' (JStr []) b' = JStr n \<and> has_type ''tool_use'' b' \<and>
      a_pending st' = a_pending st @ [mk_pair (field_strip ''id'' b) n] \<and>
      (\<forall>k. k \<noteq> ''id'' \<longrightarrow> jget k b' = jget k b)"
proof -
  obtain n d occ' where n: "normalize_or_synthesize_tool_id (JStr (field_strip ''id'' b)) (a_occupied st)
      (tool_id_seed_hint ''toolu'' mi bi occ) = (n, d, occ')" by (metis prod_cases3)
  have "is_dict b" using assms(2) by (rule has_type_is_dict)
  with assms n allocate_block_id_eq [OF n] show ?thesis
    by (auto simp: assistant_block_def Let_def jget_or_def split: if_splits)
qed

lemma rewrite_assistant_spec:
  "rewrite_assistant_tool_message mi bi occ bs st = (bs', st') \<Longrightarrow>
     \<exists>ids. alloc.allocate_all (assistant_requests mi bi occ bs) (a_occupied st) = (ids, a_occupied st') \<and>
       tool_use_ids bs' = map JStr ids \<and>
       a_pending st' = a_pending st @
          map2 mk_pair (map (field_strip ''id'') (filter (has_type ''tool_use'') bs)) ids \<and>
       filter (\<lambda>b. \<not> has_type ''tool_use'' b) bs' = filter (\<lambda>b. \<not> has_type ''tool_use'' b) bs \<and>
       map (has_type ''tool_use'') bs' = map (has_type ''tool_use'') bs"
proof (induction bs arbitrary: bi occ st bs' st')
  case Nil
  then show ?case by simp
next
  case (Cons b bs)
  show ?case
  proof (cases "has_type ''tool_use'' b")
    case False
    then obtain cs where cs: "rewrite_assistant_tool_message mi (Suc bi) occ bs st = (cs, st')" "bs' = b # cs"
      using Cons.prems by (auto split: prod.splits)
    from Cons.IH [OF cs(1)] False cs(2) show ?thesis by simp
  next
    case True
    obtain b1 st1 where one: "assistant_block mi bi occ b st = (b1, st1)" by fastforce
    obtain cs where cs: "rewrite_assistant_tool_message mi (Suc bi) (Suc occ) bs st1 = (cs, st')" "bs' = b1 # cs"
      using Cons.prems True one by (auto split: prod.splits)
    from assistant_block_alloc [OF one True] obtain n where n:
      "allocate_block_id (JStr (field_strip ''id'' b), tool_id_seed_hint ''toolu'' mi bi occ) (a_occupied st)
        = (n, a_occupied st1)" "jget_or ''id'' (JStr []) b1 = JStr n" "has_type ''tool_use'' b1"
      "a_pending st1 = a_pending st @ [mk_pair (field_strip ''id'' b) n]" by blast
    from Cons.IH [OF cs(1)] obtain ids where ids:
      "alloc.allocate_all (assistant_requests mi (Suc bi) (Suc occ) bs) (a_occupied st1) = (ids, a_occupied st')"
      "tool_use_ids cs = map JStr ids"
      "a_pending st' = a_pending st1 @ map2 mk_pair (map (field_strip ''id'') (filter (has_type ''tool_use'') bs)) ids"
      "filter (\<lambda>b. \<not> has_type ''tool_use'' b) cs = filter (\<lambda>b. \<not> has_type ''tool_use'' b) bs"
      "map (has_type ''tool_use'') cs = map (has_type ''tool_use'') bs" by blast
    show ?thesis
      by (rule exI [of _ "n # ids"]) (use True n ids cs(2) in simp)
  qed
qed

text \<open>The ids of the tool calls of all assistant messages, in order.\<close>

definition assistant_ids :: "json list \<Rightarrow> json list" where
  "assistant_ids ms =
     concat (map (\<lambda>m. if msg_role m = ''assistant'' then tool_use_ids (blocks_of m) else []) ms)"

lemma assistant_ids_simps [simp]:
  "assistant_ids [] = []"
  "assistant_ids (m # ms) =
     (if msg_role m = ''assistant'' then tool_use_ids (blocks_of m) else []) @ assistant_ids ms"
  by (simp_all add: assistant_ids_def)

lemma blocks_of_set_content [simp]: "is_dict m \<Longrightarrow> blocks_of (set_content bs m) = bs"
  by (simp add: blocks_of_def)

definition fresh_ids :: "string list \<Rightarrow> string list \<Rightarrow> string list \<Rightarrow> bool" where
  "fresh_ids ids occupied occupied' \<longleftrightarrow>
     distinct ids \<and> list_all full_match_id ids \<and> set ids \<inter> set occupied = {} \<and>
     set occupied' = set ids \<union> set occupied"

lemma fresh_ids_append:
  "fresh_ids xs o0 o1 \<Longrightarrow> fresh_ids ys o1 o2 \<Longrightarrow> fresh_ids (xs @ ys) o0 o2"
  by (auto simp: fresh_ids_def)

lemma rewrite_message_fresh:
  assumes "rewrite_message (\<lambda>_. False) i m st = (m', st')"
  shows "\<exists>ids. (if msg_role m' = ''assistant'' then tool_use_ids (blocks_of m') else []) = map JStr ids \<and>
    fresh_ids ids (r_occupied st) (r_occupied st')"
proof (cases "msg_role m = ''assistant'' \<and> msg_content m \<noteq> None")
  case True
  then obtain content where c: "msg_content m = Some content" "is_dict m"
    by (auto dest: msg_content_is_dict)
  let ?a = "\<lparr>a_occupied = r_occupied st, a_pending = r_pending st, a_signals = r_signals st,
     a_changed = r_changed st, a_invalid = r_invalid st\<rparr>"
  obtain content' a' where w: "rewrite_assistant_tool_message i 0 1 content ?a = (content', a')" by fastforce
  then obtain ids where "alloc.allocate_all (assistant_requests i 0 1 content) (r_occupied st)
      = (ids, a_occupied a')" and ids: "tool_use_ids content' = map JStr ids"
    using rewrite_assistant_spec [OF w] by auto
  then have "fresh_ids ids (r_occupied st) (a_occupied a')"
    using alloc.allocate_all_spec by (simp add: fresh_ids_def)
  moreover have "m' = set_content content' m" "r_occupied st' = a_occupied a'"
    using assms True c w by (auto simp: rewrite_message_def)
  ultimately show ?thesis
    using True c ids by auto
next
  case False
  have "r_occupied st' = r_occupied st"
    using assms False by (auto simp: rewrite_message_def split: option.splits if_splits prod.splits)
  moreover have "msg_role m' = msg_role m"
    using assms False by (auto simp: rewrite_message_def split: option.splits if_splits prod.splits)
  moreover have "m' = m" if "msg_content m = None"
    using assms that by (auto simp: rewrite_message_def)
  ultimately show ?thesis
    using False by (auto simp: fresh_ids_def blocks_of_def)
qed

lemma rewrite_from_fresh:
  "rewrite_from (\<lambda>_. False) i ms st = (ms', st') \<Longrightarrow>
     \<exists>ids. assistant_ids ms' = map JStr ids \<and> fresh_ids ids (r_occupied st) (r_occupied st')"
proof (induction ms arbitrary: i st ms' st')
  case Nil
  then show ?case by (simp add: fresh_ids_def)
next
  case (Cons m ms)
  obtain m1 st1 where one: "rewrite_message (\<lambda>_. False) i m st = (m1, st1)" by fastforce
  obtain ms1 where rest: "rewrite_from (\<lambda>_. False) (Suc i) ms st1 = (ms1, st')" and ms': "ms' = m1 # ms1"
    using Cons.prems one by (auto split: prod.splits)
  from rewrite_message_fresh [OF one] obtain xs where
    xs: "(if msg_role m1 = ''assistant'' then tool_use_ids (blocks_of m1) else []) = map JStr xs"
    "fresh_ids xs (r_occupied st) (r_occupied st1)" by blast
  from Cons.IH [OF rest] obtain ys where
    ys: "assistant_ids ms1 = map JStr ys" "fresh_ids ys (r_occupied st1) (r_occupied st')" by blast
  have "assistant_ids ms' = map JStr (xs @ ys)" using xs(1) ys(1) ms' by simp
  then show ?case using fresh_ids_append [OF xs(2) ys(2)] by blast
qed

subsection \<open>Matching results with calls\<close>

lemma filter_upt_single: "i < n \<Longrightarrow> (\<And>j. j < n \<Longrightarrow> P j \<longleftrightarrow> j = i) \<Longrightarrow> filter P [0..<n] = [i]"
proof -
  assume i: "i < n" and P: "\<And>j. j < n \<Longrightarrow> P j \<longleftrightarrow> j = i"
  have "filter P [0..<n] = filter (\<lambda>j. j = i) [0..<n]" using P by (intro filter_cong) auto
  moreover have "[0..<n] = [0..<i] @ i # [Suc i..<n]" using i
    by (metis le0 less_imp_le_nat upt_add_eq_append upt_conv_Cons le_add_diff_inverse)
  moreover have "filter (\<lambda>j. j = i) ([0..<i] @ i # [Suc i..<n]) = [i]"
    by (auto simp: filter_empty_conv)
  ultimately show ?thesis by simp
qed

definition scan_inv :: "string list \<Rightarrow> string list \<Rightarrow> string list \<Rightarrow> user_state \<Rightarrow> bool" where
  "scan_inv raws news don st \<longleftrightarrow>
     u_pending st = map (\<lambda>i. \<lparr>raw_id = raws ! i, new_id = news ! i, consumed = (raws ! i \<in> set don)\<rparr>)
                      [0..<length raws] \<and>
     u_unmatched st = [] \<and>
     list_all (\<lambda>(i, b). i < length raws \<and> jget ''tool_use_id'' b = Some (JStr (news ! i)) \<and>
       has_type ''tool_result'' b) (u_matched st) \<and>
     map (\<lambda>(i, b). raws ! i) (u_matched st) = don \<and>
     list_all (dict_without_type ''tool_result'') (u_others st)"

lemma scan_inv_other:
  "scan_inv raws news don st \<Longrightarrow> \<not> has_type ''tool_result'' b \<Longrightarrow> scan_inv raws news don (user_block b st)"
  by (auto simp: scan_inv_def user_block_def dict_without_type_def)

lemma scan_inv_match:
  assumes inv: "scan_inv raws news don st"
    and raw: "field_strip ''tool_use_id'' b \<in> set raws - set don" "field_strip ''tool_use_id'' b \<noteq> []"
    and dist: "distinct raws" and i: "i < length raws" "raws ! i = field_strip ''tool_use_id'' b"
  shows "find_match (field_strip ''tool_use_id'' b) (u_pending st) (u_signals st) = (Some i, u_signals st)"
proof -
  have pend: "u_pending st = map (\<lambda>i. \<lparr>raw_id = raws ! i, new_id = news ! i, consumed = (raws ! i \<in> set don)\<rparr>)
      [0..<length raws]" using inv by (simp add: scan_inv_def)
  have "open_matches (field_strip ''tool_use_id'' b) (u_pending st) = [i]"
    unfolding open_matches_def
    using i raw(1) dist by (simp add: pend) (rule filter_upt_single, auto simp: i(2) [symmetric] nth_eq_iff_index_eq)
  then show ?thesis using raw(2) by (simp add: find_match_def)
qed

lemma scan_inv_result:
  assumes inv: "scan_inv raws news don st" and b: "has_type ''tool_result'' b"
    and raw: "field_strip ''tool_use_id'' b \<in> set raws - set don" "field_strip ''tool_use_id'' b \<noteq> []"
    and dist: "distinct raws"
  shows "scan_inv raws news (don @ [field_strip ''tool_use_id'' b]) (user_block b st)"
proof -
  define raw where "raw = field_strip ''tool_use_id'' b"
  obtain i where i: "i < length raws" "raws ! i = raw"
    using raw(1) by (auto simp: raw_def in_set_conv_nth)
  have pend: "u_pending st = map (\<lambda>i. \<lparr>raw_id = raws ! i, new_id = news ! i, consumed = (raws ! i \<in> set don)\<rparr>)
      [0..<length raws]" using inv by (simp add: scan_inv_def)
  have fm: "find_match raw (u_pending st) (u_signals st) = (Some i, u_signals st)"
    unfolding raw_def by (rule scan_inv_match [OF inv raw dist]) (use i in \<open>simp_all add: raw_def\<close>)
  have "is_dict b" using b by (rule has_type_is_dict)
  have upd: "(u_pending st)[i := (u_pending st ! i)\<lparr>consumed := True\<rparr>] =
      map (\<lambda>j. \<lparr>raw_id = raws ! j, new_id = news ! j, consumed = (raws ! j \<in> set (don @ [raw]))\<rparr>) [0..<length raws]"
    using i dist by (intro nth_equalityI) (auto simp: pend nth_list_update nth_eq_iff_index_eq)
  have new: "new_id (u_pending st ! i) = news ! i" using i by (simp add: pend)
  show ?thesis
    using inv b i \<open>is_dict b\<close> fm upd new
    by (auto simp: scan_inv_def user_block_def Let_def raw_def [symmetric])
qed

lemma pending_head:
  assumes "mset (don @ map (field_strip ''tool_use_id'') (filter (has_type ''tool_result'') (b # bs))) = mset raws"
    and "has_type ''tool_result'' b" and "distinct raws" and "[] \<notin> set raws"
  shows "field_strip ''tool_use_id'' b \<in> set raws - set don" and "field_strip ''tool_use_id'' b \<noteq> []"
proof -
  let ?all = "don @ field_strip ''tool_use_id'' b # map (field_strip ''tool_use_id'') (filter (has_type ''tool_result'') bs)"
  have ms: "mset ?all = mset raws" using assms(1,2) by simp
  have "distinct ?all" using ms assms(3) by (metis mset_eq_imp_distinct_iff)
  moreover have "set ?all = set raws" using ms by (metis set_mset_mset)
  ultimately show "field_strip ''tool_use_id'' b \<in> set raws - set don" and "field_strip ''tool_use_id'' b \<noteq> []"
    using assms(4) by auto
qed

lemma scan_inv_fold:
  assumes "scan_inv raws news don st" and "distinct raws" and "[] \<notin> set raws"
    and "mset (don @ map (field_strip ''tool_use_id'') (filter (has_type ''tool_result'') bs)) = mset raws"
  shows "scan_inv raws news (don @ map (field_strip ''tool_use_id'') (filter (has_type ''tool_result'') bs))
     (fold user_block bs st)"
  using assms
proof (induction bs arbitrary: don st)
  case Nil
  then show ?case by simp
next
  case (Cons b bs)
  show ?case
  proof (cases "has_type ''tool_result'' b")
    case False
    with Cons.prems Cons.IH [OF scan_inv_other [OF Cons.prems(1) False]] show ?thesis by simp
  next
    case True
    note raw = pending_head [OF Cons.prems(4) True Cons.prems(2,3)]
    from scan_inv_result [OF Cons.prems(1) True raw Cons.prems(2)] Cons.IH [of "don @ [field_strip ''tool_use_id'' b]"]
      Cons.prems(2-4) True
    show ?thesis by simp
  qed
qed

lemma map_fst_sort_key: "map fst (sort_key fst xs) = sort (map fst (xs :: (nat \<times> 'a) list))"
proof (rule properties_for_sort [symmetric])
  show "mset (map fst (sort_key fst xs)) = mset (map fst xs)" by (metis mset_map mset_sort)
qed simp

lemma scan_inv_sorted:
  assumes inv: "scan_inv raws news don st" and dist: "distinct raws" and all: "mset don = mset raws"
  shows "map fst (sort_key fst (u_matched st)) = [0..<length raws]"
proof -
  let ?ix = "map fst (u_matched st)"
  have "map (\<lambda>i. raws ! i) ?ix = don" using inv by (auto simp: scan_inv_def comp_def case_prod_beta)
  then have nth: "mset (map (\<lambda>i. raws ! i) ?ix) = mset (map (\<lambda>i. raws ! i) [0..<length raws])"
    using all by (simp add: map_nth)
  have bound: "\<forall>i \<in> set ?ix. i < length raws" using inv by (auto simp: scan_inv_def list_all_iff)
  have inj: "inj_on (\<lambda>i. raws ! i) (set ?ix \<union> set [0..<length raws])"
    using dist bound by (intro inj_on_nth) auto
  have "distinct (map (\<lambda>i. raws ! i) ?ix)"
    using nth dist by (metis map_nth mset_eq_imp_distinct_iff)
  then have "distinct ?ix" by (simp add: distinct_map del: map_map)
  moreover have "set ?ix = set [0..<length raws]"
    using nth inj by (metis (no_types, lifting) inj_on_Un_image_eq_iff set_map set_mset_mset sup_ge1 sup_ge2)
  ultimately have "sort ?ix = [0..<length raws]"
    by (metis distinct_upt set_eq_iff_mset_eq_distinct sort_upt properties_for_sort sorted_upt)
  then show ?thesis by (simp add: map_fst_sort_key)
qed

lemma list_all_sort_key: "list_all P (sort_key f xs) = list_all P xs"
  by (simp add: list_all_iff)

lemma dict_set_same: "map_of d k = Some v \<Longrightarrow> dict_set k v d = d"
  by (induction d) (auto simp: dict_set_def split: if_splits)

lemma jset_same: "jget k j = Some v \<Longrightarrow> jset k v j = j"
  by (cases j) (simp_all add: dict_set_same)

text \<open>
  What the rewritten message should hold, said without the walk: a pending call is answered by the result block that names it, and
  the answer is that block with nothing but its identifier replaced.
\<close>

definition answer_to :: "json list \<Rightarrow> string \<Rightarrow> json option" where
  "answer_to content raw =
     List.find (\<lambda>b. has_type ''tool_result'' b \<and> field_strip ''tool_use_id'' b = raw) content"

definition renamed_answer :: "json list \<Rightarrow> string \<times> string \<Rightarrow> json" where
  "renamed_answer content call =
     (case answer_to content (fst call) of None \<Rightarrow> JNull | Some b \<Rightarrow> jset ''tool_use_id'' (JStr (snd call)) b)"

definition answered_content :: "(string \<times> string) list \<Rightarrow> json list \<Rightarrow> json list" where
  "answered_content calls content =
     map (renamed_answer content) calls @ filter (dict_without_type ''tool_result'') content"

definition scan_blocks :: "string list \<Rightarrow> string list \<Rightarrow> json list \<Rightarrow> user_state \<Rightarrow> bool" where
  "scan_blocks raws news seen st \<longleftrightarrow>
     (\<forall>(i, b) \<in> set (u_matched st). \<exists>b0 \<in> set seen. has_type ''tool_result'' b0 \<and>
        field_strip ''tool_use_id'' b0 = raws ! i \<and> b = jset ''tool_use_id'' (JStr (news ! i)) b0) \<and>
     u_others st = filter (dict_without_type ''tool_result'') seen"

lemma scan_blocks_other:
  "scan_blocks raws news seen st \<Longrightarrow> \<not> has_type ''tool_result'' b \<Longrightarrow> scan_blocks raws news (seen @ [b]) (user_block b st)"
  by (fastforce simp: scan_blocks_def user_block_def dict_without_type_def)

lemma scan_blocks_result:
  assumes inv: "scan_inv raws news don st" and blocks: "scan_blocks raws news seen st" and b: "has_type ''tool_result'' b"
    and raw: "field_strip ''tool_use_id'' b \<in> set raws - set don" "field_strip ''tool_use_id'' b \<noteq> []"
    and dist: "distinct raws"
  shows "scan_blocks raws news (seen @ [b]) (user_block b st)"
proof -
  obtain i where i: "i < length raws" "raws ! i = field_strip ''tool_use_id'' b"
    using raw(1) by (auto simp: in_set_conv_nth)
  have fm: "find_match (field_strip ''tool_use_id'' b) (u_pending st) (u_signals st) = (Some i, u_signals st)"
    by (rule scan_inv_match [OF inv raw dist i])
  have new: "new_id (u_pending st ! i) = news ! i" using i inv by (simp add: scan_inv_def)
  have "u_matched (user_block b st) = u_matched st @ [(i, jset ''tool_use_id'' (JStr (news ! i)) b)]"
    using b fm by (auto simp: user_block_def Let_def new jset_same)
  moreover have "u_others (user_block b st) = u_others st"
    using b fm by (simp add: user_block_def Let_def)
  moreover have "\<not> dict_without_type ''tool_result'' b" using b by (simp add: dict_without_type_def)
  ultimately show ?thesis using blocks b i(2) by (fastforce simp: scan_blocks_def)
qed

lemma scan_blocks_fold:
  assumes "scan_inv raws news don st" and "scan_blocks raws news seen st" and "distinct raws" and "[] \<notin> set raws"
    and "mset (don @ map (field_strip ''tool_use_id'') (filter (has_type ''tool_result'') bs)) = mset raws"
  shows "scan_blocks raws news (seen @ bs) (fold user_block bs st)"
  using assms
proof (induction bs arbitrary: don st seen)
  case Nil
  then show ?case by simp
next
  case (Cons b bs)
  show ?case
  proof (cases "has_type ''tool_result'' b")
    case False
    with Cons.prems Cons.IH [OF scan_inv_other [OF Cons.prems(1) False] scan_blocks_other [OF Cons.prems(2) False]]
    show ?thesis by simp
  next
    case True
    let ?raw = "field_strip ''tool_use_id'' b"
    have raw: "?raw \<in> set raws - set don" "?raw \<noteq> []" using pending_head [OF Cons.prems(5) True Cons.prems(3,4)] .
    have "mset ((don @ [?raw]) @ map (field_strip ''tool_use_id'') (filter (has_type ''tool_result'') bs)) = mset raws"
      using Cons.prems(5) True by simp
    from Cons.IH [OF scan_inv_result [OF Cons.prems(1) True raw Cons.prems(3)]
        scan_blocks_result [OF Cons.prems(1,2) True raw Cons.prems(3)] Cons.prems(3,4) this]
    show ?thesis by simp
  qed
qed

lemma answer_to_unique:
  assumes "distinct (map (field_strip ''tool_use_id'') (filter (has_type ''tool_result'') content))"
    and "b \<in> set content" "has_type ''tool_result'' b"
  shows "answer_to content (field_strip ''tool_use_id'' b) = Some b"
  using assms by (induction content) (auto simp: answer_to_def rev_image_eqI split: if_splits)

subsection \<open>Property\<close>

text \<open>
  C30: When the results of a user message answer the pending calls one for one, in any order and among other blocks (the calls have
  distinct identifiers, none of them blank), the rewritten message is, as a Python value: for every call, in the order of the calls,
  the very result that named it, with its identifier replaced by the new one of the call and nothing else changed; and then every
  other block of the message, unchanged and in its order (elements that are not objects are dropped when the message is reordered).
\<close>

theorem results_follow_calls:
  assumes dist: "distinct raws" "[] \<notin> set raws" "length news = length raws"
    and perm: "mset (map (field_strip ''tool_use_id'') (filter (has_type ''tool_result'') content)) = mset raws"
    and run: "rewrite_user_tool_message content (map2 mk_pair raws news) signals = (content', c, signals')"
  shows "py_eq_list content' (answered_content (zip raws news) content)"
proof -
  define st0 where "st0 = \<lparr>u_pending = map2 mk_pair raws news, u_signals = signals, u_changed = False,
      u_matched = [], u_unmatched = [], u_others = [], u_content = []\<rparr>"
  define st where "st = fold user_block content st0"
  have "map2 mk_pair raws news = map (\<lambda>i. \<lparr>raw_id = raws ! i, new_id = news ! i, consumed = False\<rparr>) [0..<length raws]"
    using dist(3) by (intro nth_equalityI) (simp_all add: mk_pair_def)
  then have init: "scan_inv raws news [] st0" by (simp add: scan_inv_def st0_def)
  from scan_inv_fold [OF this dist(1,2)] perm
  have inv: "scan_inv raws news (map (field_strip ''tool_use_id'') (filter (has_type ''tool_result'') content)) st"
    by (simp add: st_def)
  have "scan_blocks raws news [] st0" by (simp add: scan_blocks_def st0_def)
  from scan_blocks_fold [OF init this dist(1,2)] perm have blocks: "scan_blocks raws news content st"
    by (simp add: st_def)
  have "distinct (map (field_strip ''tool_use_id'') (filter (has_type ''tool_result'') content))"
    using perm dist(1) by (metis mset_eq_imp_distinct_iff)
  note unique = answer_to_unique [OF this]
  let ?sorted = "sort_key fst (u_matched st)"
  have ix: "map fst ?sorted = [0..<length raws]" using scan_inv_sorted [OF inv dist(1) perm] .
  have "snd x = renamed_answer content (raws ! fst x, news ! fst x)" if "x \<in> set ?sorted" for x
    using that blocks unique by (fastforce simp: scan_blocks_def renamed_answer_def)
  then have "map snd ?sorted = map (\<lambda>x. renamed_answer content (raws ! fst x, news ! fst x)) ?sorted"
    by (intro map_cong) simp_all
  also have "\<dots> = map (\<lambda>i. renamed_answer content (raws ! i, news ! i)) (map fst ?sorted)"
    by (simp add: comp_def)
  also have "\<dots> = map (renamed_answer content) (zip raws news)"
    unfolding ix using dist(3) by (intro nth_equalityI) simp_all
  finally have expected: "map snd ?sorted @ u_unmatched st @ u_others st = answered_content (zip raws news) content"
    using inv blocks by (simp add: answered_content_def scan_inv_def scan_blocks_def)
  have "content' = fst (rewrite_user_tool_message content (map2 mk_pair raws news) signals)"
    by (simp add: run)
  also have "\<dots> = (if \<not> py_eq_list (answered_content (zip raws news) content) (u_content st)
      then answered_content (zip raws news) content else u_content st)"
    unfolding rewrite_user_tool_message_def Let_def st0_def [symmetric] st_def [symmetric] expected by (rule fst_conv)
  finally show ?thesis by (simp add: py_eq_list_def)
qed

definition sample_results :: "json list" where
  "sample_results =
    [JObj [(''type'', JStr ''text''), (''text'', JStr ''t'')],
     JObj [(''type'', JStr ''tool_result''), (''tool_use_id'', JStr ''b 2''), (''content'', JStr ''y'')],
     JObj [(''type'', JStr ''tool_result''), (''tool_use_id'', JStr ''a''), (''content'', JStr ''x'')]]"

theorem results_follow_calls_witness:
  "py_eq_list (fst (rewrite_user_tool_message sample_results (map2 mk_pair [''a'', ''b 2''] [''a'', ''b_2'']) []))
     [JObj [(''type'', JStr ''tool_result''), (''tool_use_id'', JStr ''a''), (''content'', JStr ''x'')],
      JObj [(''type'', JStr ''tool_result''), (''tool_use_id'', JStr ''b_2''), (''content'', JStr ''y'')],
      JObj [(''type'', JStr ''text''), (''text'', JStr ''t'')]]"
proof -
  have fields: "map (field_strip ''tool_use_id'') (filter (has_type ''tool_result'') sample_results) = [''b 2'', ''a'']"
    by code_simp
  have perm: "mset (map (field_strip ''tool_use_id'') (filter (has_type ''tool_result'') sample_results)) =
      mset [''a'', ''b 2'']"
    unfolding fields by simp
  obtain c ch s where run: "rewrite_user_tool_message sample_results (map2 mk_pair [''a'', ''b 2''] [''a'', ''b_2'']) []
      = (c, ch, s)" by (metis prod_cases3)
  have expected: "answered_content (zip [''a'', ''b 2''] [''a'', ''b_2'']) sample_results =
     [JObj [(''type'', JStr ''tool_result''), (''tool_use_id'', JStr ''a''), (''content'', JStr ''x'')],
      JObj [(''type'', JStr ''tool_result''), (''tool_use_id'', JStr ''b_2''), (''content'', JStr ''y'')],
      JObj [(''type'', JStr ''text''), (''text'', JStr ''t'')]]" by code_simp
  have "distinct [''a'', ''b 2'']" "[] \<notin> set [''a'', ''b 2'']" "length [''a'', ''b_2''] = length [''a'', ''b 2'']"
    by simp_all
  from results_follow_calls [OF this perm run] show ?thesis unfolding run expected by simp
qed

end
