(* ===== verification/Canonicalize.thy ===== *)
theory Canonicalize
  imports ToolIdRewrite SignalRegistry
begin

section \<open>Canonicalisation of the whole request body\<close>

text \<open>
  Models the driver of canonicalisation in
  \<open>src/tok/runtime/pipeline/request_validation.py\<close>: the choice of the protected message, its
  fingerprint, the per-message loop, the four-pass pipeline, the mutation check, and
  \<open>canonicalize_anthropic_bridge_messages\<close> and \<open>canonicalize_anthropic_bridge_body\<close>.

  Parameters: \<open>sha\<close> is the hexadecimal digest of a text (\<open>hashlib.sha256\<close>) and \<open>wire\<close> the result of
  \<open>_CanonicalBridgeBody.model_validate\<close> (pydantic) as the list of its errors, each a location and
  a message; the empty list means that the body validates.

  Object identity: the code remembers \<open>id(content)\<close> of the protected message of the input. Each
  message of the canonical path gets a freshly built content list and the id rewrite works on a deep copy,
  while the input list is alive, so no content list of the path has that identity. The pipeline therefore
  calls the rewrite with an empty set of protected lists, and the mutation check falls through to its
  second search, the first message with provider-owned blocks.
\<close>

subsection \<open>The protected message\<close>

definition is_opaque_assistant :: "json \<Rightarrow> bool" where
  "is_opaque_assistant m =
     (is_dict m \<and> msg_role m = ''assistant'' \<and>
      (case msg_content m of None \<Rightarrow> False | Some bs \<Rightarrow> content_has_opaque_provider_blocks (JList bs)))"

definition find_protected_message :: "json list \<Rightarrow> nat option" where
  "find_protected_message messages =
     List.find (\<lambda>i. is_opaque_assistant (messages ! i)) (rev [0..<length messages])"

definition content_hash :: "(string \<Rightarrow> string) \<Rightarrow> json list \<Rightarrow> string" where
  "content_hash sha content = take 16 (sha (dumps_compact (JList content)))"

definition block_type_sequence :: "json list \<Rightarrow> json list" where
  "block_type_sequence content =
     map (\<lambda>b. if is_dict b then jget_or ''type'' (JStr ''?'') b else JStr ''?'') content"

fun has_thinking_with_signature :: "json list \<Rightarrow> bool py" where
  "has_thinking_with_signature [] = Inr False"
| "has_thinking_with_signature (b # bs) =
     (if \<not> is_dict b then has_thinking_with_signature bs
      else bind_py (in_str_set (jget_or ''type'' JNull b) [''thinking'', ''redacted_thinking'']) (\<lambda>t.
        if t \<and> truthy (jget_or ''signature'' JNull b) then Inr True
        else has_thinking_with_signature bs))"

record protected_info =
  before_hash :: string
  before_types :: "json list"
  before_signature :: bool
  protected_index :: nat

definition get_protected_message_info ::
    "(string \<Rightarrow> string) \<Rightarrow> json list \<Rightarrow> nat option \<Rightarrow> protected_info option py" where
  "get_protected_message_info sha messages protected =
     (case protected of
        None \<Rightarrow> Inr None
      | Some i \<Rightarrow>
          (let content = blocks_of (messages ! i) in
           bind_py (has_thinking_with_signature content) (\<lambda>signed.
             Inr (Some \<lparr>before_hash = content_hash sha content, before_types = block_type_sequence content,
                        before_signature = signed, protected_index = i\<rparr>))))"

text \<open>
  The debug messages join the block types with a comma. A type that is not a string makes
  \<open>",".join\<close> raise \<open>TypeError\<close>, also when nothing is logged.
\<close>

definition join_types :: "json list \<Rightarrow> unit py" where
  "join_types types = (if list_all is_str types then Inr () else Inl TypeError)"

definition first_opaque_content :: "json list \<Rightarrow> json list option" where
  "first_opaque_content messages =
     map_option blocks_of (List.find (\<lambda>m. is_dict m \<and>
       (case msg_content m of None \<Rightarrow> False | Some bs \<Rightarrow> content_has_opaque_provider_blocks (JList bs))) messages)"

type_synonym mutation_pairs = "(string \<times> string) list"

definition check_thinking_block_mutation ::
    "(string \<Rightarrow> string) \<Rightarrow> json list \<Rightarrow> protected_info \<Rightarrow> counts \<Rightarrow> mutation_pairs \<Rightarrow>
      (counts \<times> mutation_pairs) py" where
  "check_thinking_block_mutation sha merged info signals seen =
     (case first_opaque_content merged of
        None \<Rightarrow> Inr (signals, seen)
      | Some content \<Rightarrow>
          (let after_hash = content_hash sha content;
               pair = (before_hash info, after_hash)
           in if before_hash info \<noteq> after_hash then
                (if pair \<in> set seen then Inr (signals, seen)
                 else bind_py (join_types (before_types info)) (\<lambda>_.
                      bind_py (join_types (block_type_sequence content)) (\<lambda>_.
                        let s1 = dict_set ''thinking_block_mutated'' 1 signals;
                            s2 = dict_set ''thinking_block_mutated_msg_index'' (int (protected_index info)) s1;
                            s3 = dict_set ''thinking_block_mutated_has_signature''
                                   (if before_signature info then 1 else 0) s2
                        in Inr (s3, pair # seen))))
              else bind_py (join_types (before_types info)) (\<lambda>_. Inr (signals, seen))))"

subsection \<open>The per-message loop and the pipeline\<close>

record path_state =
  path :: "json list"
  path_changed :: bool
  path_protected :: "nat option"
  path_signals :: counts
  path_drops :: drops

definition path_init :: path_state where
  "path_init = \<lparr>path = [], path_changed = False, path_protected = None, path_signals = [], path_drops = []\<rparr>"

definition path_step :: "bool \<Rightarrow> json \<Rightarrow> path_state \<Rightarrow> path_state py" where
  "path_step is_protected raw st =
     bind_py (process_bridged_message is_protected raw (path_signals st) (path_drops st))
       (\<lambda>(msg, c, signals, drops).
         let st = st\<lparr>path_changed := path_changed st \<or> c, path_signals := signals, path_drops := drops\<rparr>
         in Inr (case msg of
                   None \<Rightarrow> st
                 | Some m \<Rightarrow> st\<lparr>path := path st @ [m],
                      path_protected := (if is_protected then Some (length (path st)) else path_protected st)\<rparr>))"

fun process_messages_from :: "nat option \<Rightarrow> nat \<Rightarrow> json list \<Rightarrow> path_state \<Rightarrow> path_state py" where
  "process_messages_from protected i [] st = Inr st"
| "process_messages_from protected i (m # ms) st =
     bind_py (path_step (protected = Some i) m st) (process_messages_from protected (Suc i) ms)"

definition process_messages_into_canonical_path :: "nat option \<Rightarrow> json list \<Rightarrow> path_state py" where
  "process_messages_into_canonical_path protected messages =
     process_messages_from protected 0 messages path_init"

definition structural_passes :: "nat option \<Rightarrow> json list \<Rightarrow> json list \<times> bool \<times> counts" where
  "structural_passes skip ms =
     (let (ordered, order_changed) = normalize_assistant_block_order skip ms;
          signals = (if order_changed then [(''tok_bridge_assistant_block_order_normalized'', 1)] else []);
          (split, split_changed, split_signals) = split_mixed_user_tool_result_messages ordered;
          signals = dict_update signals split_signals;
          (merged, merge_signals) = merge_adjacent_anthropic_messages split
      in (merged, order_changed \<or> split_changed, dict_update signals merge_signals))"

definition apply_canonicalization_pipeline ::
    "nat option \<Rightarrow> json list \<Rightarrow> (json list \<times> bool \<times> counts) py" where
  "apply_canonicalization_pipeline skip ms =
     (let (merged, changed, signals) = structural_passes skip ms
      in bind_py (rewrite_provider_safe_tool_ids (\<lambda>_. False) merged) (\<lambda>(rewritten, id_changed, id_signals).
           Inr (rewritten, changed \<or> id_changed, dict_update signals id_signals)))"

subsection \<open>Messages and body\<close>

definition canonicalize_anthropic_bridge_messages ::
    "(string \<Rightarrow> string) \<Rightarrow> json list \<Rightarrow> mutation_pairs \<Rightarrow>
      (json list \<times> bool \<times> counts \<times> mutation_pairs) py" where
  "canonicalize_anthropic_bridge_messages sha messages seen =
     (let protected = find_protected_message messages in
      bind_py (get_protected_message_info sha messages protected) (\<lambda>info.
      bind_py (process_messages_into_canonical_path protected messages) (\<lambda>st.
      bind_py (apply_canonicalization_pipeline (path_protected st) (path st)) (\<lambda>(merged, pc, ps).
        let changed = (path_changed st \<or> pc);
            signals = dict_update (path_signals st) ps;
            changed = (changed \<or> length merged \<noteq> length messages);
            signals = (if path_drops st \<noteq> []
                       then dict_set ''tok_bridge_unsupported_block_dropped'' (csum (path_drops st)) signals
                       else signals)
        in bind_py (case info of None \<Rightarrow> Inr (signals, seen)
                    | Some i \<Rightarrow> check_thinking_block_mutation sha merged i signals seen)
             (\<lambda>(signals, seen').
               Inr (merged, changed,
                    if changed then dict_set ''tok_bridge_canonicalized'' 1 signals else signals, seen'))))))"

text \<open>\<open>_validate_canonical_bridge_body_model\<close>: the pydantic errors of a body, as failure codes.\<close>

type_synonym wire_error = "string list \<times> string"

definition validate_canonical_bridge_body_model :: "(json \<Rightarrow> wire_error list) \<Rightarrow> json \<Rightarrow> string list" where
  "validate_canonical_bridge_body_model wire body =
     (let errors = wire body in
      if errors = [] then []
      else if list_all (\<lambda>(loc, _). loc = [''messages'']) errors then []
      else if list_ex (\<lambda>(loc, msg). loc = [''system''] \<and> py_contains ''invalid_system_block'' msg) errors
      then [''invalid_system_block'']
      else [''bridge_wire_model_invalid''])"

definition canonicalize_anthropic_bridge_body ::
    "(string \<Rightarrow> string) \<Rightarrow> (json \<Rightarrow> wire_error list) \<Rightarrow> json \<Rightarrow> mutation_pairs \<Rightarrow>
      (json \<times> bool \<times> counts \<times> mutation_pairs) py" where
  "canonicalize_anthropic_bridge_body sha wire body seen =
     (case jget ''messages'' body of
        Some (JList messages) \<Rightarrow>
          bind_py (canonicalize_anthropic_bridge_messages sha messages seen)
            (\<lambda>(canonical, changed, signals, seen').
              if \<not> changed then Inr (body, False, [], seen')
              else
                let new_body = jset ''messages'' (JList canonical) body;
                    failures = validate_canonical_bridge_body_model wire new_body
                in if failures \<noteq> [] then
                     (if all_failures_are_non_blocking failures
                      then Inr (new_body, True,
                             dict_set ''tok_bridge_canonical_validation_nonblocking'' 1 signals, seen')
                      else Inr (body, False,
                             dict_set ''tok_bridge_canonical_validation_failed'' 1 signals, seen'))
                   else Inr (new_body, True, signals, seen'))
      | _ \<Rightarrow> Inr (body, False, [], seen))"

subsection \<open>The structural passes together\<close>

interpretation order_split: pass_pair "\<lambda>ms. fst (normalize_assistant_block_order skip ms)"
  "\<lambda>ms. fst (split_mixed_user_tool_result_messages ms)" "list_all shaped"
  by unfold_locales

interpretation order_split_merge: pass_pair
  "\<lambda>ms. fst (split_mixed_user_tool_result_messages (fst (normalize_assistant_block_order skip ms)))"
  "\<lambda>ms. fst (merge_adjacent_anthropic_messages ms)" "list_all shaped"
  by unfold_locales

lemma structural_passes_fst:
  "fst (structural_passes skip ms) =
     fst (merge_adjacent_anthropic_messages
       (fst (split_mixed_user_tool_result_messages (fst (normalize_assistant_block_order skip ms)))))"
  by (simp add: structural_passes_def Let_def case_prod_beta)

lemma structural_shaped: "list_all shaped ms \<Longrightarrow> list_all shaped (fst (structural_passes skip ms))"
  unfolding structural_passes_fst by (rule order_split_merge.both.run_ok)

lemma structural_blocks:
  "list_all shaped ms \<Longrightarrow> mset (all_blocks (fst (structural_passes skip ms))) = mset (all_blocks ms)"
  unfolding structural_passes_fst by (rule order_split_merge.both.run_blocks)

subsection \<open>Thinking blocks of assistant messages\<close>

definition assistant_thinking :: "json list \<Rightarrow> json list" where
  "assistant_thinking ms =
     concat (map (\<lambda>m. if msg_role m = ''assistant'' then filter is_thinking (blocks_of m) else []) ms)"

lemma assistant_thinking_simps [simp]:
  "assistant_thinking [] = []"
  "assistant_thinking (m # ms) =
     (if msg_role m = ''assistant'' then filter is_thinking (blocks_of m) else []) @ assistant_thinking ms"
  "assistant_thinking (ms @ ns) = assistant_thinking ms @ assistant_thinking ns"
  by (simp_all add: assistant_thinking_def)

lemma is_thinking_opaque: "is_thinking b \<Longrightarrow> is_opaque_provider_block b"
  using opaque_if_thinking by (simp add: is_thinking_def)

lemma not_opaque_no_thinking:
  "\<not> content_has_opaque_provider_blocks (JList bs) \<Longrightarrow> filter is_thinking bs = []"
  by (auto simp: content_has_opaque_provider_blocks_def list_ex_iff filter_empty_conv dest: is_thinking_opaque)

lemma filter_thinking_order: "list_all is_dict bs \<Longrightarrow> filter is_thinking bs = [] \<Longrightarrow> filter is_thinking (order_blocks bs) = []"
  by (auto simp: order_blocks_def filter_empty_conv)

lemma order_message_thinking:
  assumes "shaped m" and "order_message m = (m', c)"
  shows "msg_role m' = msg_role m \<and> filter is_thinking (blocks_of m') = filter is_thinking (blocks_of m)"
  using assms(1)
proof (cases rule: shaped_cases)
  case (user bs)
  with assms show ?thesis by (auto simp: order_message_def)
next
  case (assistant bs)
  with assms show ?thesis
    using not_opaque_no_thinking [of bs] filter_thinking_order [of bs]
    by (auto simp: order_message_def Let_def split: if_splits)
qed

lemma order_from_thinking:
  "list_all shaped ms \<Longrightarrow> order_from i skip ms = (ms', c) \<Longrightarrow> assistant_thinking ms' = assistant_thinking ms"
proof (induction ms arbitrary: i ms' c)
  case Nil
  then show ?case by simp
next
  case (Cons m ms)
  obtain m1 c1 where one: "(if skip = Some i then (m, False) else order_message m) = (m1, c1)" by fastforce
  obtain ms1 cs1 where rest: "order_from (Suc i) skip ms = (ms1, cs1)" by fastforce
  have "msg_role m1 = msg_role m \<and> filter is_thinking (blocks_of m1) = filter is_thinking (blocks_of m)"
    using one Cons.prems(1) order_message_thinking [of m m1 c1] by (auto split: if_splits)
  moreover have "ms' = m1 # ms1" using Cons.prems(2) one rest by simp
  ultimately show ?case using Cons.IH [OF _ rest] Cons.prems(1) by simp
qed

lemma split_message_thinking:
  assumes "shaped m"
  shows "assistant_thinking (split_message m) = assistant_thinking [m]"
  using assms by (cases rule: shaped_cases) (auto simp: split_message_def Let_def)

lemma split_thinking:
  "list_all shaped ms \<Longrightarrow> assistant_thinking (concat (map split_message ms)) = assistant_thinking ms"
  by (induction ms) (simp_all add: split_message_thinking)

lemma merge_into_thinking:
  "shaped prev \<Longrightarrow> list_all shaped ms \<Longrightarrow> merge_into prev ms = (ms', n) \<Longrightarrow>
     assistant_thinking ms' = assistant_thinking (prev # ms)"
proof (induction prev ms arbitrary: ms' n rule: merge_into.induct)
  case (1 prev)
  then show ?case by auto
next
  case (2 prev m ms)
  obtain r bs where prev: "prev = simple_message r bs" "r = ''user'' \<or> r = ''assistant''" "list_all is_dict bs"
    using "2.prems"(1) by (auto simp: shaped_def)
  obtain r' cs where m: "m = simple_message r' cs" "r' = ''user'' \<or> r' = ''assistant''" "list_all is_dict cs"
    using "2.prems"(2) by (auto simp: shaped_def)
  show ?case
  proof (cases "merges_with prev m")
    case True
    then show ?thesis
      using "2.IH"(1) [OF True] "2.prems" prev m by (fastforce split: prod.splits)
  next
    case False
    then obtain rest k where rest: "merge_into m ms = (rest, k)" "ms' = prev # rest"
      using "2.prems"(3) by (auto split: prod.splits)
    with "2.IH"(2) [OF False _ _ rest(1)] "2.prems" show ?thesis by simp
  qed
qed

lemma structural_thinking:
  assumes "list_all shaped ms"
  shows "assistant_thinking (fst (structural_passes skip ms)) = assistant_thinking ms"
proof -
  define m1 where "m1 = fst (normalize_assistant_block_order skip ms)"
  define m2 where "m2 = fst (split_mixed_user_tool_result_messages m1)"
  have 1: "assistant_thinking m1 = assistant_thinking ms"
    unfolding m1_def normalize_assistant_block_order_def
    using order_from_thinking [OF assms surjective_pairing] .
  have s1: "list_all shaped m1" unfolding m1_def by (rule order_pass.run_ok [OF assms])
  have m2: "m2 = concat (map split_message m1)"
    by (simp add: m2_def split_mixed_user_tool_result_messages_def Let_def)
  have s2: "list_all shaped m2" unfolding m2_def by (rule split_pass.run_ok [OF s1])
  have "assistant_thinking (fst (merge_adjacent_anthropic_messages m2)) = assistant_thinking m2"
  proof (cases m2)
    case Nil
    then show ?thesis by (simp add: merge_adjacent_anthropic_messages_def)
  next
    case (Cons m ns)
    obtain r n where r: "merge_into m ns = (r, n)" by fastforce
    with merge_into_thinking [OF _ _ r] s2 Cons show ?thesis
      by (simp add: merge_adjacent_anthropic_messages_def)
  qed
  with 1 m2 split_thinking [OF s1] show ?thesis
    by (simp add: structural_passes_fst m1_def m2_def)
qed

lemma thinking_not_tool_use: "is_thinking b \<Longrightarrow> \<not> has_type ''tool_use'' b"
  by (auto simp: is_thinking_def has_type_def)

lemma rewrite_message_thinking:
  assumes "rewrite_message (\<lambda>_. False) i m st = (m', st')"
  shows "assistant_thinking [m'] = assistant_thinking [m]"
proof (cases "msg_content m")
  case None
  with assms show ?thesis by (auto simp: rewrite_message_def)
next
  case (Some content)
  then have dict: "is_dict m" by (rule msg_content_is_dict)
  show ?thesis
  proof (cases "msg_role m = ''assistant''")
    case True
    define a0 where "a0 = \<lparr>a_occupied = r_occupied st, a_pending = r_pending st, a_signals = r_signals st,
        a_changed = r_changed st, a_invalid = r_invalid st\<rparr>"
    obtain content' a where run: "rewrite_assistant_tool_message i 0 1 content a0 = (content', a)" by fastforce
    have m': "m' = set_content content' m"
      using assms True Some run by (auto simp: rewrite_message_def a0_def)
    have rest: "filter (\<lambda>b. \<not> has_type ''tool_use'' b) content' = filter (\<lambda>b. \<not> has_type ''tool_use'' b) content"
      using rewrite_assistant_spec [OF run] by blast
    have both: "filter is_thinking xs = filter is_thinking (filter (\<lambda>b. \<not> has_type ''tool_use'' b) xs)" for xs
      using thinking_not_tool_use by (induction xs) auto
    have "filter is_thinking content' = filter is_thinking content"
      unfolding both [of content'] both [of content] rest ..
    with True Some dict m' show ?thesis by (simp add: blocks_of_def)
  next
    case False
    with assms Some have "msg_role m' = msg_role m"
      by (auto simp: rewrite_message_def split: if_splits prod.splits)
    with False show ?thesis by simp
  qed
qed

lemma rewrite_from_thinking:
  "rewrite_from (\<lambda>_. False) i ms st = (ms', st') \<Longrightarrow> assistant_thinking ms' = assistant_thinking ms"
proof (induction ms arbitrary: i st ms')
  case Nil
  then show ?case by simp
next
  case (Cons m ms)
  obtain m1 st1 where one: "rewrite_message (\<lambda>_. False) i m st = (m1, st1)" by fastforce
  obtain ms1 st2 where rest: "rewrite_from (\<lambda>_. False) (Suc i) ms st1 = (ms1, st2)" by fastforce
  have "ms' = m1 # ms1" "st' = st2" using Cons.prems one rest by simp_all
  with Cons.IH [of "Suc i" st1 ms1] rest rewrite_message_thinking [OF one] show ?case by simp
qed

subsection \<open>The per-message step\<close>

lemma py_strip_msg_role [simp]: "py_strip (msg_role m) = msg_role m"
  by (simp add: msg_role_def field_strip_def str_strip_def)

lemma py_strip_thinking [simp]:
  "py_strip ''thinking'' = ''thinking''" "py_strip ''redacted_thinking'' = ''redacted_thinking''"
  by (auto intro!: py_strip_id simp: py_space_def)

lemma thinking_field_type:
  assumes "is_thinking b"
  shows "is_dict b \<and> field_strip ''type'' b \<in> set ALLOWED_BLOCK_TYPES"
  using assms has_type_is_dict [of _ b]
  by (auto simp: is_thinking_def has_type_def field_strip_def jget_or_def ALLOWED_BLOCK_TYPES_def)

lemma preserve_blocks_spec:
  "preserve_blocks bs preserved drops = (preserved', drops') \<Longrightarrow>
     filter is_thinking preserved' = filter is_thinking (preserved @ bs) \<and>
     (list_all is_dict preserved \<longrightarrow> list_all is_dict preserved')"
proof (induction bs arbitrary: preserved drops)
  case Nil
  then show ?case by simp
next
  case (Cons b bs)
  show ?case
  proof (cases "is_dict b \<and> field_strip ''type'' b \<in> set ALLOWED_BLOCK_TYPES")
    case True
    with Cons.prems have "preserve_blocks bs (preserved @ [b]) drops = (preserved', drops')" by simp
    from Cons.IH [OF this] True show ?thesis by simp
  next
    case False
    then have "\<not> is_thinking b" using thinking_field_type by blast
    moreover obtain d where "preserve_blocks bs preserved d = (preserved', drops')"
      using Cons.prems False by (auto simp: Let_def split: if_splits)
    ultimately show ?thesis using Cons.IH by simp
  qed
qed

lemma filter_thinking_passes: "filter is_thinking xs = filter is_thinking (filter passes_allowlist xs)"
proof (induction xs)
  case (Cons b bs)
  have "is_thinking b \<Longrightarrow> passes_allowlist b" by (auto simp: is_thinking_def passes_allowlist_def)
  with Cons show ?case by auto
qed simp

lemma normalize_content_thinking:
  assumes "normalize_message_content_to_blocks (str_or_list_content m) = Inr (blocks, drops)"
  shows "filter is_thinking blocks = filter is_thinking (blocks_of m)"
proof (cases "jget ''content'' m")
  case (Some v)
  have no_text: "\<not> is_thinking (text_block t)" for t by (simp add: is_thinking_def)
  show ?thesis
  proof (cases v)
    case (JList bs)
    then have "normalize_blocks bs [] [] = Inr (blocks, drops)" and bl: "blocks_of m = bs"
      using assms Some
      by (simp_all add: str_or_list_content_def normalize_message_content_to_blocks_def blocks_of_def msg_content_def)
    then have "filter passes_allowlist blocks = filter passes_allowlist bs"
      using normalize_blocks_kept [of bs "[]" "[]"] by simp
    then show ?thesis
      unfolding bl filter_thinking_passes [of blocks] filter_thinking_passes [of bs] by simp
  qed (use assms Some no_text in \<open>auto simp: str_or_list_content_def normalize_message_content_to_blocks_def
        blocks_of_def msg_content_def Let_def split: if_splits\<close>)
qed (use assms in \<open>auto simp: str_or_list_content_def normalize_message_content_to_blocks_def
        blocks_of_def msg_content_def Let_def split: if_splits\<close>)

lemma canonicalize_preserved:
  assumes "canonicalize_bridge_message True raw = Inr (msg, drops)" and "msg_role raw \<noteq> ''tool_result''"
  shows "\<exists>bs. msg = simple_message (msg_role raw) bs \<and> list_all is_dict bs \<and>
    filter is_thinking bs = filter is_thinking (blocks_of raw)"
proof (cases "\<exists>bs. jget ''content'' raw = Some (JList bs)")
  case True
  then obtain bs where bs: "jget ''content'' raw = Some (JList bs)" by blast
  obtain kept d where kept: "preserve_blocks bs [] [] = (kept, d)" by fastforce
  with preserve_blocks_spec [OF kept] bs assms show ?thesis
    by (auto simp: canonicalize_bridge_message_def Let_def blocks_of_def msg_content_def)
next
  case False
  then have no: "msg_content raw = None" by (auto simp: msg_content_def split: option.splits json.splits)
  have no_text: "\<not> is_thinking (text_block t)" for t by (simp add: is_thinking_def)
  show ?thesis
    using assms False no no_text
    by (auto simp: canonicalize_bridge_message_def Let_def blocks_of_def split: option.splits json.splits if_splits)
qed

lemma canonicalize_thinking:
  assumes "canonicalize_bridge_message p raw = Inr (msg, drops)"
  shows "assistant_thinking [msg] = assistant_thinking [raw]"
proof (cases "msg_role raw = ''tool_result''")
  case True
  with assms show ?thesis by (auto simp: canonicalize_bridge_message_def)
next
  case False
  show ?thesis
  proof (cases p)
    case True
    with canonicalize_preserved [of raw msg drops] assms False show ?thesis by auto
  next
    case p: False
    obtain blocks d where norm: "normalize_message_content_to_blocks (str_or_list_content raw) = Inr (blocks, d)"
      using assms p False by (auto simp: canonicalize_bridge_message_def Let_def elim!: bind_py_Inr_E)
    show ?thesis
      using assms p False norm normalize_content_thinking [OF norm]
      by (auto simp: canonicalize_bridge_message_def Let_def split: if_splits prod.splits)
  qed
qed

lemma process_thinking:
  assumes "process_bridged_message p raw s d = Inr (mo, c, s', d')"
  shows "assistant_thinking (case mo of None \<Rightarrow> [] | Some m \<Rightarrow> [m]) = assistant_thinking [raw]"
proof (cases "is_dict raw")
  case False
  then have "msg_content raw = None" by (cases raw) (simp_all add: msg_content_def)
  with False assms show ?thesis by (auto simp: process_bridged_message_def blocks_of_def)
next
  case True
  then obtain msg md where can: "canonicalize_bridge_message p raw = Inr (msg, md)"
    and mo: "mo = None \<and> msg_content msg = Some [] \<or> mo = Some msg"
    using assms by (auto simp: process_bridged_message_def Let_def split: if_splits elim!: bind_py_Inr_E)
  from mo show ?thesis
  proof
    assume "mo = None \<and> msg_content msg = Some []"
    then have "assistant_thinking [msg] = []" by (simp add: blocks_of_def)
    with \<open>mo = None \<and> _\<close> canonicalize_thinking [OF can] show ?thesis by simp
  next
    assume "mo = Some msg"
    with canonicalize_thinking [OF can] show ?thesis by simp
  qed
qed

lemma process_shaped:
  assumes "process_bridged_message p raw s d = Inr (Some m, c, s', d')"
    and "p \<Longrightarrow> msg_role raw = ''assistant''"
  shows "shaped m"
proof (cases p)
  case False
  with assms have "process_bridged_message False raw s d = Inr (Some m, c, s', d')" by simp
  then show ?thesis by (rule canonical_message_shaped [OF process_unprotected_canonical])
next
  case True
  then have can: "\<exists>md. canonicalize_bridge_message True raw = Inr (m, md)"
    using assms(1) by (auto simp: process_bridged_message_def Let_def split: if_splits elim!: bind_py_Inr_E)
  then obtain md where "canonicalize_bridge_message True raw = Inr (m, md)" by blast
  from canonicalize_preserved [OF this] assms(2) [OF True] show ?thesis by auto
qed

subsection \<open>The driver\<close>

lemma path_step_spec:
  assumes "path_step p raw st = Inr st'" and "p \<Longrightarrow> msg_role raw = ''assistant''"
  shows "assistant_thinking (path st') = assistant_thinking (path st @ [raw]) \<and>
    (list_all shaped (path st) \<longrightarrow> list_all shaped (path st')) \<and>
    (\<not> p \<longrightarrow> list_all canonical_message (path st) \<longrightarrow> list_all canonical_message (path st'))"
proof -
  obtain mo c s d where run: "process_bridged_message p raw (path_signals st) (path_drops st) = Inr (mo, c, s, d)"
    and st': "path st' = path st @ (case mo of None \<Rightarrow> [] | Some m \<Rightarrow> [m])"
    using assms(1) by (auto simp: path_step_def Let_def elim!: bind_py_Inr_E split: option.splits)
  have "list_all shaped (case mo of None \<Rightarrow> [] | Some m \<Rightarrow> [m])"
    using run process_shaped [of p raw _ _ _ c s d] assms(2) by (cases mo) auto
  moreover have "\<not> p \<longrightarrow> list_all canonical_message (case mo of None \<Rightarrow> [] | Some m \<Rightarrow> [m])"
    using run process_unprotected_canonical [of raw _ _ _ c s d] by (cases mo) auto
  moreover have "assistant_thinking (case mo of None \<Rightarrow> [] | Some m \<Rightarrow> [m]) = assistant_thinking [raw]"
    by (rule process_thinking [OF run])
  ultimately show ?thesis by (simp add: st')
qed

lemma process_messages_from_spec:
  assumes "process_messages_from prot i ms st = Inr st'"
    and "\<And>k. prot = Some (i + k) \<Longrightarrow> k < length ms \<Longrightarrow> msg_role (ms ! k) = ''assistant''"
  shows "assistant_thinking (path st') = assistant_thinking (path st @ ms) \<and>
    (list_all shaped (path st) \<longrightarrow> list_all shaped (path st')) \<and>
    (prot = None \<longrightarrow> list_all canonical_message (path st) \<longrightarrow> list_all canonical_message (path st'))"
  using assms
proof (induction ms arbitrary: i st)
  case Nil
  then show ?case by simp
next
  case (Cons m ms)
  obtain st1 where one: "path_step (prot = Some i) m st = Inr st1"
    and rest: "process_messages_from prot (Suc i) ms st1 = Inr st'"
    using Cons.prems(1) by (auto elim!: bind_py_Inr_E)
  have "prot = Some i \<Longrightarrow> msg_role m = ''assistant''" using Cons.prems(2) [of 0] by simp
  note spec = path_step_spec [OF one this]
  have "\<And>k. prot = Some (Suc i + k) \<Longrightarrow> k < length ms \<Longrightarrow> msg_role (ms ! k) = ''assistant''"
    using Cons.prems(2) [of "Suc k" for k] by simp
  from Cons.IH [OF rest this] spec show ?case by auto
qed

lemma find_protected_assistant:
  assumes "find_protected_message ms = Some i"
  shows "i < length ms \<and> is_opaque_assistant (ms ! i)"
  using assms by (auto simp: find_protected_message_def find_Some_iff rev_nth)

lemma canonical_path_spec:
  assumes "process_messages_into_canonical_path (find_protected_message ms) ms = Inr st"
  shows "assistant_thinking (path st) = assistant_thinking ms \<and> list_all shaped (path st) \<and>
    (find_protected_message ms = None \<longrightarrow> list_all canonical_message (path st))"
proof -
  have "\<And>k. find_protected_message ms = Some (0 + k) \<Longrightarrow> k < length ms \<Longrightarrow> msg_role (ms ! k) = ''assistant''"
    using find_protected_assistant by (auto simp: is_opaque_assistant_def)
  from process_messages_from_spec [OF assms [unfolded process_messages_into_canonical_path_def] this]
  show ?thesis by (simp add: path_init_def)
qed

lemma canonicalize_messages_cases:
  assumes "canonicalize_anthropic_bridge_messages sha ms seen = Inr (out, changed, signals, seen')"
  obtains st r where "process_messages_into_canonical_path (find_protected_message ms) ms = Inr st"
    and "rewrite_from (\<lambda>_. False) 0 (fst (structural_passes (path_protected st) (path st))) rewrite_init = (out, r)"
proof -
  from assms obtain st pc ps where st: "process_messages_into_canonical_path (find_protected_message ms) ms = Inr st"
    and pipe: "apply_canonicalization_pipeline (path_protected st) (path st) = Inr (out, pc, ps)"
    unfolding canonicalize_anthropic_bridge_messages_def Let_def
    by (auto elim!: bind_py_Inr_E)
  from pipe obtain r where
    "rewrite_from (\<lambda>_. False) 0 (fst (structural_passes (path_protected st) (path st))) rewrite_init = (out, r)"
    by (auto simp: apply_canonicalization_pipeline_def rewrite_provider_safe_tool_ids_def Let_def
        split: prod.splits if_splits elim!: bind_py_Inr_E)
  with st that show thesis by blast
qed

text \<open>
  C3: Canonicalisation keeps the reasoning of the assistant: the sequence of thinking and
  redacted-thinking blocks of assistant messages is the same before and after, block by block, for
  every input on which the code does not raise, whatever is dropped, split, merged or renamed around
  them.
\<close>

theorem thinking_preserved:
  assumes "canonicalize_anthropic_bridge_messages sha ms seen = Inr (out, changed, signals, seen')"
  shows "assistant_thinking out = assistant_thinking ms"
proof -
  from canonicalize_messages_cases [OF assms] obtain st r where
    st: "process_messages_into_canonical_path (find_protected_message ms) ms = Inr st"
    and run: "rewrite_from (\<lambda>_. False) 0 (fst (structural_passes (path_protected st) (path st))) rewrite_init = (out, r)" .
  note path = canonical_path_spec [OF st]
  with rewrite_from_thinking [OF run] structural_thinking show ?thesis by simp
qed

text \<open>
  C28: After canonicalisation the tool calls of all assistant messages together carry pairwise distinct,
  provider-safe identifiers.
\<close>

theorem canonical_ids:
  assumes "canonicalize_anthropic_bridge_messages sha ms seen = Inr (out, changed, signals, seen')"
  shows "\<exists>ids. assistant_ids out = map JStr ids \<and> distinct ids \<and> list_all is_provider_safe_tool_id ids"
proof -
  from canonicalize_messages_cases [OF assms] obtain st r where
    "process_messages_into_canonical_path (find_protected_message ms) ms = Inr st"
    and run: "rewrite_from (\<lambda>_. False) 0 (fst (structural_passes (path_protected st) (path st))) rewrite_init = (out, r)" .
  from rewrite_from_fresh [OF run] obtain ids where "assistant_ids out = map JStr ids"
    "fresh_ids ids (r_occupied rewrite_init) (r_occupied r)" by blast
  then show ?thesis by (auto simp: fresh_ids_def list_all_iff)
qed

subsection \<open>What the structural passes establish\<close>

definition opaque_content :: "json \<Rightarrow> bool" where
  "opaque_content m = content_has_opaque_provider_blocks (JList (blocks_of m))"

definition wire_ready :: "json \<Rightarrow> bool" where
  "wire_ready m \<longleftrightarrow> shaped m \<and> blocks_of m \<noteq> [] \<and> \<not> mixed_user m \<and>
     (msg_role m = ''assistant'' \<longrightarrow> \<not> opaque_content m \<longrightarrow> tool_use_last (blocks_of m))"

definition ordered_message :: "json \<Rightarrow> bool" where
  "ordered_message m \<longleftrightarrow> shaped m \<and> blocks_of m \<noteq> [] \<and>
     (msg_role m = ''assistant'' \<longrightarrow> \<not> opaque_content m \<longrightarrow> tool_use_last (blocks_of m))"

lemma opaque_content_mset:
  "mset (blocks_of m) = mset (blocks_of m') \<Longrightarrow> opaque_content m = opaque_content m'"
  by (drule mset_eq_setD) (simp add: opaque_content_def content_has_opaque_provider_blocks_def list_ex_iff)

lemma order_message_ordered:
  assumes "shaped m" and "blocks_of m \<noteq> []" and "order_message m = (m', c)"
  shows "ordered_message m'"
proof -
  have keep: "shaped m'" "mset (blocks_of m') = mset (blocks_of m)" "msg_role m' = msg_role m"
    using order_message_shaped [OF assms(1,3)] by auto
  have "blocks_of m' \<noteq> []" using keep(2) assms(2) by auto
  moreover have "tool_use_last (blocks_of m')" if "msg_role m' = ''assistant''" "\<not> opaque_content m'"
  proof -
    obtain bs where bs: "msg_content m = Some bs" using assms(2) by (auto simp: blocks_of_def split: option.splits)
    have "\<not> opaque_content m" using opaque_content_mset [OF keep(2)] that(2) by simp
    with bs have "\<not> content_has_opaque_provider_blocks (JList bs)" by (simp add: opaque_content_def blocks_of_def)
    from order_message_tool_use_last [OF assms(3) _ bs this] that(1) keep(3) show ?thesis by simp
  qed
  ultimately show ?thesis using keep(1) by (simp add: ordered_message_def)
qed

text \<open>The message the order pass leaves alone: the protected one, when it is an assistant message.\<close>

definition left_in_order :: "nat option \<Rightarrow> json list \<Rightarrow> json set" where
  "left_in_order skip ms =
     (case skip of None \<Rightarrow> {} | Some k \<Rightarrow> if k < length ms \<and> msg_role (ms ! k) = ''assistant'' then {ms ! k} else {})"

lemma order_from_ordered:
  "list_all (\<lambda>m. shaped m \<and> blocks_of m \<noteq> []) ms \<Longrightarrow> order_from i skip ms = (ms', c) \<Longrightarrow>
     list_all (\<lambda>m. ordered_message m \<or>
       (\<exists>k < length ms. skip = Some (i + k) \<and> m = ms ! k \<and> msg_role m = ''assistant'')) ms'"
proof (induction ms arbitrary: i ms' c)
  case Nil
  then show ?case by simp
next
  case (Cons m ms)
  obtain m1 c1 where one: "(if skip = Some i then (m, False) else order_message m) = (m1, c1)" by fastforce
  obtain ms1 cs1 where rest: "order_from (Suc i) skip ms = (ms1, cs1)" by fastforce
  have m: "shaped m" "blocks_of m \<noteq> []" using Cons.prems(1) by simp_all
  have hd: "ordered_message m1 \<or> (skip = Some i \<and> m1 = m \<and> msg_role m = ''assistant'')"
  proof (cases "skip = Some i")
    case True
    with one m show ?thesis by (auto simp: ordered_message_def)
  next
    case False
    with one order_message_ordered [OF m] show ?thesis by simp
  qed
  have tl: "list_all (\<lambda>m. ordered_message m \<or>
      (\<exists>k < length ms. skip = Some (Suc i + k) \<and> m = ms ! k \<and> msg_role m = ''assistant'')) ms1"
    using Cons.IH [OF _ rest] Cons.prems(1) by simp
  have "\<exists>k < length (m # ms). skip = Some (i + k) \<and> x = (m # ms) ! k \<and> msg_role x = ''assistant''"
    if "k < length ms" "skip = Some (Suc i + k)" "x = ms ! k" "msg_role x = ''assistant''" for k x
    using that by (intro exI [of _ "Suc k"]) simp
  then have "list_all (\<lambda>x. ordered_message x \<or>
      (\<exists>k < length (m # ms). skip = Some (i + k) \<and> x = (m # ms) ! k \<and> msg_role x = ''assistant'')) ms1"
    using tl unfolding list_all_iff by blast
  moreover have "ordered_message m1 \<or>
      (\<exists>k < length (m # ms). skip = Some (i + k) \<and> m1 = (m # ms) ! k \<and> msg_role m1 = ''assistant'')"
    using hd by fastforce
  moreover have "ms' = m1 # ms1" using Cons.prems(2) one rest by simp
  ultimately show ?case by simp
qed

lemma order_pass_ordered:
  assumes "list_all (\<lambda>m. shaped m \<and> blocks_of m \<noteq> []) ms"
  shows "list_all (\<lambda>m. ordered_message m \<or> m \<in> left_in_order skip ms) (fst (normalize_assistant_block_order skip ms))"
proof -
  have "m \<in> left_in_order skip ms" if "k < length ms" "skip = Some (0 + k)" "m = ms ! k" "msg_role m = ''assistant''" for m k
    using that by (simp add: left_in_order_def)
  with order_from_ordered [OF assms surjective_pairing, where i = 0 and skip = skip] show ?thesis
    unfolding normalize_assistant_block_order_def list_all_iff by blast
qed

lemma left_in_order_shaped:
  "list_all shaped ms \<Longrightarrow> m \<in> left_in_order skip ms \<Longrightarrow> shaped m \<and> msg_role m = ''assistant''"
  by (auto simp: left_in_order_def list_all_iff split: option.splits if_splits)

lemma split_message_wire_ready:
  assumes "ordered_message m"
  shows "list_all wire_ready (split_message m)"
proof -
  have "shaped m" using assms by (simp add: ordered_message_def)
  then show ?thesis
  proof (cases rule: shaped_cases)
    case (user bs)
    with assms split_message_shaped [OF \<open>shaped m\<close>] show ?thesis
      by (auto simp: split_message_def Let_def wire_ready_def ordered_message_def list_all_iff)
  next
    case (assistant bs)
    with assms show ?thesis
      by (auto simp: split_message_def wire_ready_def ordered_message_def mixed_user_def)
  qed
qed

lemma merge_into_wire_ready:
  assumes "\<And>m. m \<in> K \<Longrightarrow> shaped m \<and> msg_role m = ''assistant''"
  shows "wire_ready prev \<or> prev \<in> K \<Longrightarrow> list_all (\<lambda>m. wire_ready m \<or> m \<in> K) ms \<Longrightarrow> merge_into prev ms = (ms', n) \<Longrightarrow>
    list_all (\<lambda>m. wire_ready m \<or> m \<in> K) ms'"
proof (induction prev ms arbitrary: ms' n rule: merge_into.induct)
  case (1 prev)
  then show ?case by auto
next
  case (2 prev m ms)
  have "shaped prev" "shaped m" using "2.prems"(1,2) assms by (auto simp: wire_ready_def)
  then obtain r bs r' cs where prev: "prev = simple_message r bs" "r = ''user'' \<or> r = ''assistant''" "list_all is_dict bs"
    and m: "m = simple_message r' cs" "r' = ''user'' \<or> r' = ''assistant''" "list_all is_dict cs"
    by (auto simp: shaped_def)
  show ?case
  proof (cases "merges_with prev m")
    case True
    then have user: "r = ''user''" "r' = ''user''" using prev m by simp_all
    then have "prev \<notin> K" "m \<notin> K" using assms prev(1) m(1) by fastforce+
    then have "wire_ready prev" "wire_ready m" using "2.prems"(1,2) by auto
    then have "wire_ready (extend_content prev m)"
      using True prev m by (auto simp: wire_ready_def mixed_user_def)
    moreover obtain k where "merge_into (extend_content prev m) ms = (ms', k)"
      using "2.prems"(3) True by (auto split: prod.splits)
    ultimately show ?thesis using "2.IH"(1) [OF True] "2.prems"(2) by simp
  next
    case False
    then obtain rest k where rest: "merge_into m ms = (rest, k)" "ms' = prev # rest"
      using "2.prems"(3) by (auto split: prod.splits)
    with "2.IH"(2) [OF False _ _ rest(1)] "2.prems" show ?thesis by simp
  qed
qed

lemma structural_wire_ready:
  assumes "list_all (\<lambda>m. shaped m \<and> blocks_of m \<noteq> []) ms"
  shows "list_all (\<lambda>m. wire_ready m \<or> m \<in> left_in_order skip ms) (fst (structural_passes skip ms))"
proof -
  let ?K = "left_in_order skip ms"
  define m1 where "m1 = fst (normalize_assistant_block_order skip ms)"
  define m2 where "m2 = fst (split_mixed_user_tool_result_messages m1)"
  have K: "shaped m \<and> msg_role m = ''assistant''" if "m \<in> ?K" for m
    using left_in_order_shaped [OF _ that] assms by (simp add: list_all_iff)
  have "split_message m = [m]" if "m \<in> ?K" for m using K [OF that] by (simp add: split_message_def)
  then have "list_all (\<lambda>m. wire_ready m \<or> m \<in> ?K) (split_message m)" if "ordered_message m \<or> m \<in> ?K" for m
    using that split_message_wire_ready by (auto simp: list_all_iff)
  moreover have "list_all (\<lambda>m. ordered_message m \<or> m \<in> ?K) m1"
    unfolding m1_def by (rule order_pass_ordered [OF assms])
  moreover have "m2 = concat (map split_message m1)"
    by (simp add: m2_def split_mixed_user_tool_result_messages_def Let_def)
  ultimately have 2: "list_all (\<lambda>m. wire_ready m \<or> m \<in> ?K) m2"
    by (fastforce simp: list_all_iff)
  have "list_all (\<lambda>m. wire_ready m \<or> m \<in> ?K) (fst (merge_adjacent_anthropic_messages m2))"
  proof (cases m2)
    case Nil
    then show ?thesis by (simp add: merge_adjacent_anthropic_messages_def)
  next
    case (Cons m ns)
    obtain r n where r: "merge_into m ns = (r, n)" by fastforce
    with merge_into_wire_ready [OF K _ _ r] 2 Cons show ?thesis
      by (simp add: merge_adjacent_anthropic_messages_def)
  qed
  then show ?thesis by (simp add: structural_passes_fst m1_def m2_def)
qed

lemma wire_codes_blocking:
  assumes "validate_canonical_bridge_body_model wire body \<noteq> []"
  shows "\<not> all_failures_are_non_blocking (validate_canonical_bridge_body_model wire body)"
  using assms by (auto simp: validate_canonical_bridge_body_model_def Let_def
      all_failures_are_non_blocking_def NON_BLOCKING_OUTGOING_FAILURES_def)

text \<open>
  A canonicalised body is handed on only when the wire model accepts it; in every other case,
  errors included, the caller gets its own body back unchanged.
\<close>

lemma canonical_body_accepted:
  assumes "canonicalize_anthropic_bridge_body sha wire body seen = Inr (body', changed, signals, seen')"
  shows "(changed \<longrightarrow> validate_canonical_bridge_body_model wire body' = []) \<and> (\<not> changed \<longrightarrow> body' = body)"
  using assms wire_codes_blocking [of wire]
  by (auto simp: canonicalize_anthropic_bridge_body_def Let_def split: option.splits json.splits if_splits
      elim!: bind_py_Inr_E)

text \<open>
  C29: On messages of canonical shape with content, the structural passes neither lose nor duplicate a
  block, and they establish the wire shape: no user message mixes tool results with other blocks,
  every message keeps content, and every assistant message without provider-owned blocks has its tool
  calls at the end. The one message of the result that need not have this
  shape is the protected one: when the passes are told to skip a message and it is an assistant message, the order
  of its blocks is left as it was.
\<close>

theorem structural_passes_shape:
  assumes "list_all (\<lambda>m. shaped m \<and> blocks_of m \<noteq> []) ms"
  shows "list_all (\<lambda>m. wire_ready m \<or>
      (case skip of None \<Rightarrow> False | Some k \<Rightarrow> k < length ms \<and> m = ms ! k \<and> msg_role m = ''assistant''))
      (fst (structural_passes skip ms)) \<and>
    mset (all_blocks (fst (structural_passes skip ms))) = mset (all_blocks ms)"
proof -
  have "list_all shaped ms" using assms by (simp add: list_all_iff)
  moreover have "m \<in> left_in_order skip ms \<longleftrightarrow>
      (case skip of None \<Rightarrow> False | Some k \<Rightarrow> k < length ms \<and> m = ms ! k \<and> msg_role m = ''assistant'')" for m
    by (auto simp: left_in_order_def split: option.split)
  ultimately show ?thesis using structural_wire_ready [OF assms, of skip] structural_blocks by simp
qed

subsection \<open>Witnesses and the protected message\<close>

text \<open>A conversation with a signed thinking block and a tool call whose identifier has a blank.\<close>

definition sample_thinking :: json where
  "sample_thinking =
     JObj [(''type'', JStr ''thinking''), (''thinking'', JStr ''hm''), (''signature'', JStr ''s1'')]"

definition sample_call :: "string \<Rightarrow> json" where
  "sample_call i =
     JObj [(''type'', JStr ''tool_use''), (''id'', JStr i), (''name'', JStr ''read''), (''input'', JObj [])]"

definition sample_result :: "string \<Rightarrow> json" where
  "sample_result i =
     JObj [(''type'', JStr ''tool_result''), (''tool_use_id'', JStr i), (''content'', JStr ''x'')]"

definition sample_conversation :: "json list" where
  "sample_conversation =
    [simple_message ''user'' [text_block ''read it''],
     simple_message ''assistant'' [sample_thinking, sample_call ''call 1''],
     simple_message ''user'' [sample_result ''call 1'']]"

definition sample_canonical :: "json list" where
  "sample_canonical =
    [simple_message ''user'' [text_block ''read it''],
     simple_message ''assistant'' [sample_thinking, sample_call ''call_1''],
     simple_message ''user'' [sample_result ''call_1'']]"

text \<open>A small digest that tells the contents of the samples apart: the digits, blanks and underscores.\<close>

definition sample_digest :: "string \<Rightarrow> string" where
  "sample_digest s = filter (\<lambda>c. c \<in> set ''_ 12'') s"

definition sample_signals :: counts where
  "sample_signals =
    [(''tok_bridge_tool_id_sanitized'', 1), (''tok_bridge_tool_result_id_rewritten'', 1),
     (''tok_bridge_invalid_tool_id_seen'', 1), (''tok_bridge_tool_result_rewrite_complete'', 1),
     (''thinking_block_mutated'', 1), (''thinking_block_mutated_msg_index'', 1),
     (''thinking_block_mutated_has_signature'', 1), (''tok_bridge_canonicalized'', 1)]"

lemma sample_canonicalized:
  "canonicalize_anthropic_bridge_messages sample_digest sample_conversation [] =
     Inr (sample_canonical, True, sample_signals, [(''1 1_'', ''1_1_'')])"
  by code_simp

theorem thinking_preserved_witness: "assistant_thinking sample_canonical = assistant_thinking sample_conversation"
  by (rule thinking_preserved [OF sample_canonicalized])

theorem canonical_ids_witness:
  "\<exists>ids. assistant_ids sample_canonical = map JStr ids \<and> distinct ids \<and> list_all is_provider_safe_tool_id ids"
  by (rule canonical_ids [OF sample_canonicalized])

theorem structural_passes_shape_witness:
  "list_all wire_ready (fst (structural_passes None sample_canonical)) \<and>
    mset (all_blocks (fst (structural_passes None sample_canonical))) = mset (all_blocks sample_canonical)"
proof -
  have "list_all (\<lambda>m. shaped m \<and> blocks_of m \<noteq> []) sample_canonical"
    by (simp add: sample_canonical_def sample_thinking_def sample_call_def sample_result_def)
  from structural_passes_shape [OF this, of None] show ?thesis by simp
qed

definition sample_body :: "json list \<Rightarrow> json" where
  "sample_body ms = JObj [(''model'', JStr ''m''), (''max_tokens'', JInt 10), (''messages'', JList ms)]"

lemma sample_body_canonicalized:
  "canonicalize_anthropic_bridge_body sample_digest (\<lambda>_. []) (sample_body sample_conversation) [] =
     Inr (sample_body sample_canonical, True, sample_signals, [(''1 1_'', ''1_1_'')])"
  by (simp add: canonicalize_anthropic_bridge_body_def sample_body_def sample_canonicalized
      validate_canonical_bridge_body_model_def dict_set_def)

lemma canonical_body_accepted_witness:
  "validate_canonical_bridge_body_model (\<lambda>_. []) (sample_body sample_canonical) = []"
  using canonical_body_accepted [OF sample_body_canonicalized] by blast

text \<open>
  The latest assistant message with thinking is not protected from the id rewrite: in the sample it is the
  protected message, and canonicalisation renames its tool call. The mutation check then reports it as mutated.
\<close>

lemma protected_message_rewritten:
  "find_protected_message sample_conversation = Some 1 \<and>
   canonicalize_anthropic_bridge_messages sample_digest sample_conversation [] =
     Inr (sample_canonical, True, sample_signals, [(''1 1_'', ''1_1_'')]) \<and>
   sample_canonical ! 1 \<noteq> sample_conversation ! 1 \<and> cget ''thinking_block_mutated'' sample_signals = 1"
proof (intro conjI)
  show "find_protected_message sample_conversation = Some 1" by code_simp
  show "sample_canonical ! 1 \<noteq> sample_conversation ! 1"
    by (simp add: sample_canonical_def sample_conversation_def sample_call_def)
  show "cget ''thinking_block_mutated'' sample_signals = 1" by (simp add: sample_signals_def cget_def)
qed (rule sample_canonicalized)

definition two_thinking :: "json list" where
  "two_thinking =
    [simple_message ''user'' [text_block ''a''],
     simple_message ''assistant'' [JObj [(''type'', JStr ''thinking''), (''signature'', JStr ''s1'')]],
     simple_message ''user'' [text_block ''b''],
     simple_message ''assistant'' [JObj [(''type'', JStr ''thinking''), (''signature'', JStr ''s2'')]],
     simple_message ''user'' [text_block ''c'']]"

text \<open>
  With two thinking messages the check compares the latest one with the first one: a canonical conversation
  that comes back exactly as it was sent is reported as a mutation of its thinking blocks.
\<close>

lemma mutation_reported_without_change:
  "list_all canonical_message two_thinking \<and>
   canonicalize_anthropic_bridge_messages sample_digest two_thinking [] =
     Inr (two_thinking, False, [(''thinking_block_mutated'', 1), (''thinking_block_mutated_msg_index'', 3),
        (''thinking_block_mutated_has_signature'', 1)], [(''2'', ''1'')])"
proof (intro conjI)
  have tb: "canonical_block (text_block t)" if "t \<noteq> []" "py_strip t = t" for t
    using that canonical_block_def by blast
  have s: "py_strip ''a'' = ''a''" "py_strip ''b'' = ''b''" "py_strip ''c'' = ''c''" by code_simp+
  have th: "canonical_block (JObj [(''type'', JStr ''thinking''), (''signature'', JStr g)])" for g
    by (simp add: canonical_block_def has_type_def)
  show "list_all canonical_message two_thinking"
    by (simp add: two_thinking_def canonical_message_def tb th s is_thinking_def)
qed code_simp

end
