(* ===== verification/ShapeRisks.thy ===== *)
theory ShapeRisks
  imports Canonicalize
begin

section \<open>Pairing risks of tool calls and tool results\<close>

text \<open>
  Models \<open>_collect_bridge_tool_result_shape_risks\<close> and its helpers in
  \<open>src/tok/runtime/pipeline/request_validation.py\<close>: one walk over the messages that counts, per
  kind, the violations of the provider's rule that the results of a tool call stand at the front
  of the next user message.

  The second half states the rule itself, \<open>well_paired\<close>, without counters or flags, and
  proves that the walk reports nothing exactly when the rule holds.
\<close>

subsection \<open>The helpers\<close>

text \<open>Ids are collected from calls with a nonblank id; \<open>seen_tool_use_ids\<close> is a set, here a list.\<close>

definition process_assistant_tool_ids :: "json list \<Rightarrow> string list \<Rightarrow> string list \<times> string list" where
  "process_assistant_tool_ids content seen =
     (let ids = filter (\<lambda>i. i \<noteq> []) (map (field_strip ''id'') (filter (has_type ''tool_use'') content))
      in (ids, seen @ ids))"

record user_scan =
  saw_text :: bool
  order_violation :: bool
  result_count :: nat
  matched :: nat
  saw_result :: bool
  mixed_violation :: bool
  scan_risks :: counts

definition not_immediately :: string where
  "not_immediately = ''tool_result_not_immediately_after_assistant_tool_use''"

definition missing_next :: string where
  "missing_next = ''assistant_tool_use_missing_next_tool_result''"

definition mixed_step :: "user_scan \<Rightarrow> user_scan" where
  "mixed_step st =
     (if saw_result st \<and> \<not> mixed_violation st
      then st\<lparr>scan_risks := cadd not_immediately 1 (scan_risks st), mixed_violation := True\<rparr>
      else st)"

definition scan_result :: "string list \<Rightarrow> string list \<Rightarrow> string \<Rightarrow> user_scan \<Rightarrow> user_scan" where
  "scan_result seen pending tool_use_id st =
     (let st = st\<lparr>saw_result := True, result_count := Suc (result_count st)\<rparr>;
          st = (if saw_text st \<and> \<not> order_violation st
                then st\<lparr>scan_risks := cadd ''user_tool_result_after_text'' 1 (scan_risks st),
                        order_violation := True\<rparr>
                else st)
      in if tool_use_id = [] then st
         else
           let st = (if tool_use_id \<notin> set seen
                     then st\<lparr>scan_risks := cadd ''tool_result_unknown_tool_use_id'' 1 (scan_risks st)\<rparr>
                     else st)
           in if length pending \<le> matched st
              then st\<lparr>scan_risks := cadd not_immediately 1 (scan_risks st)\<rparr>
              else if tool_use_id = pending ! matched st
              then st\<lparr>matched := Suc (matched st)\<rparr>
              else st\<lparr>scan_risks := cadd not_immediately 1 (scan_risks st)\<rparr>)"

definition scan_block :: "string list \<Rightarrow> string list \<Rightarrow> json \<Rightarrow> user_scan \<Rightarrow> user_scan" where
  "scan_block seen pending block st =
     (if \<not> is_dict block then st
      else let block_type = field_strip ''type'' block in
        if block_type = ''text'' then
          if field_strip ''text'' block \<noteq> [] then mixed_step (st\<lparr>saw_text := True\<rparr>) else st
        else if block_type \<noteq> ''tool_result'' then mixed_step st
        else scan_result seen pending (field_strip ''tool_use_id'' block) st)"

definition scan_init :: "counts \<Rightarrow> user_scan" where
  "scan_init risks = \<lparr>saw_text = False, order_violation = False, result_count = 0, matched = 0,
     saw_result = False, mixed_violation = False, scan_risks = risks\<rparr>"

definition process_user_tool_results ::
    "json list \<Rightarrow> string list \<Rightarrow> string list \<Rightarrow> counts \<Rightarrow> nat \<times> nat \<times> counts" where
  "process_user_tool_results content seen pending risks =
     (let st = fold (scan_block seen pending) content (scan_init risks)
      in (result_count st, matched st, scan_risks st))"

definition flush_pending_tool_uses :: "string list \<Rightarrow> counts \<Rightarrow> counts" where
  "flush_pending_tool_uses pending risks =
     (if pending \<noteq> [] then cadd missing_next (int (length pending)) risks else risks)"

definition has_tool_result_blocks :: "json list \<Rightarrow> bool" where
  "has_tool_result_blocks content = list_ex (has_type ''tool_result'') content"

definition check_fragmentation_risk ::
    "json list \<Rightarrow> string list \<Rightarrow> bool \<Rightarrow> bool \<Rightarrow> counts \<Rightarrow> counts" where
  "check_fragmentation_risk content pending awaiting responded risks =
     (if \<not> (awaiting \<and> pending \<noteq> [] \<and> responded) then risks
      else if has_tool_result_blocks content
      then cadd ''tool_results_fragmented_across_user_messages'' (int (length pending)) risks
      else risks)"

definition evaluate_pending_coverage :: "string list \<Rightarrow> nat \<Rightarrow> nat \<Rightarrow> counts \<Rightarrow> counts" where
  "evaluate_pending_coverage pending results matched_count risks =
     (if pending = [] then risks
      else if results = 0 \<or> matched_count = 0 then cadd missing_next (int (length pending)) risks
      else if matched_count \<noteq> length pending
      then cadd ''assistant_tool_use_incomplete_next_tool_result_coverage''
             (int (length pending) - int matched_count) risks
      else risks)"

fun detect_thinking_between_tool_use :: "bool \<Rightarrow> json list \<Rightarrow> counts \<Rightarrow> counts py" where
  "detect_thinking_between_tool_use in_run [] risks = Inr risks"
| "detect_thinking_between_tool_use in_run (b # bs) risks =
     (if \<not> is_dict b then detect_thinking_between_tool_use in_run bs risks
      else if has_type ''tool_use'' b then detect_thinking_between_tool_use True bs risks
      else bind_py (in_str_set (jget_or ''type'' JNull b) [''thinking'', ''redacted_thinking'']) (\<lambda>t.
        detect_thinking_between_tool_use in_run bs
          (if t \<and> in_run then cadd ''thinking_between_tool_use'' 1 risks else risks)))"

subsection \<open>The walk\<close>

record collector =
  seen_ids :: "string list"
  pending_ids :: "string list"
  awaiting :: bool
  responded :: bool
  c_risks :: counts

definition collector_init :: collector where
  "collector_init = \<lparr>seen_ids = [], pending_ids = [], awaiting = False, responded = False, c_risks = []\<rparr>"

definition collector_reset :: "collector \<Rightarrow> collector" where
  "collector_reset st = st\<lparr>c_risks := flush_pending_tool_uses (pending_ids st) (c_risks st),
     pending_ids := [], awaiting := False\<rparr>"

definition collector_user :: "json list \<Rightarrow> collector \<Rightarrow> collector" where
  "collector_user content st =
     (let r = check_fragmentation_risk content (pending_ids st) (awaiting st) (responded st) (c_risks st);
          resp = (responded st \<or> has_tool_result_blocks content);
          (results, matched_count, r) = process_user_tool_results content (seen_ids st) (pending_ids st) r;
          r = evaluate_pending_coverage (pending_ids st) results matched_count r
      in st\<lparr>pending_ids := [], awaiting := False, responded := resp, c_risks := r\<rparr>)"

definition collector_step :: "json \<Rightarrow> collector \<Rightarrow> collector py" where
  "collector_step message st =
     (if \<not> is_dict message then Inr (collector_reset st)
      else if msg_role message = ''assistant'' then
        let r = flush_pending_tool_uses (pending_ids st) (c_risks st) in
        bind_py (case msg_content message of None \<Rightarrow> Inr r
                 | Some content \<Rightarrow> detect_thinking_between_tool_use False content r) (\<lambda>r.
          let (ids, seen) = process_assistant_tool_ids (blocks_of message) (seen_ids st)
          in Inr \<lparr>seen_ids = seen, pending_ids = ids, awaiting = (ids \<noteq> []), responded = False, c_risks = r\<rparr>)
      else if msg_role message \<noteq> ''user'' then Inr (collector_reset st)
      else case msg_content message of
          None \<Rightarrow> Inr (collector_reset st)
        | Some content \<Rightarrow> Inr (collector_user content st))"

fun collector_from :: "json list \<Rightarrow> collector \<Rightarrow> collector py" where
  "collector_from [] st = Inr st"
| "collector_from (m # ms) st = bind_py (collector_step m st) (collector_from ms)"

definition collect_bridge_tool_result_shape_risks :: "json list \<Rightarrow> counts py" where
  "collect_bridge_tool_result_shape_risks messages =
     bind_py (collector_from messages collector_init) (\<lambda>st.
       Inr (flush_pending_tool_uses (pending_ids st) (c_risks st)))"

subsection \<open>The rule\<close>

text \<open>
  What a block of a user message means for pairing. Blank texts and elements that are no
  dictionaries have no meaning.
\<close>

datatype user_part = Text | Result string | Other

definition part_of :: "json \<Rightarrow> user_part option" where
  "part_of block =
     (if \<not> is_dict block then None
      else if field_strip ''type'' block = ''text''
      then (if field_strip ''text'' block \<noteq> [] then Some Text else None)
      else if field_strip ''type'' block = ''tool_result'' then Some (Result (field_strip ''tool_use_id'' block))
      else Some Other)"

definition user_parts :: "json list \<Rightarrow> user_part list" where
  "user_parts content = List.map_filter part_of content"

fun is_result :: "user_part \<Rightarrow> bool" where
  "is_result (Result _) = True"
| "is_result _ = False"

fun result_id :: "user_part \<Rightarrow> string" where
  "result_id (Result i) = i"
| "result_id _ = []"

definition answered_ids :: "user_part list \<Rightarrow> string list" where
  "answered_ids parts = filter (\<lambda>i. i \<noteq> []) (map result_id parts)"

text \<open>
  A user message answers the pending calls when its results stand together at the end, no text
  stands before them, and their ids are the pending ids in order.
\<close>

definition answers :: "string list \<Rightarrow> user_part list \<Rightarrow> bool" where
  "answers pending parts =
     (let before = takeWhile (\<lambda>p. \<not> is_result p) parts; results = dropWhile (\<lambda>p. \<not> is_result p) parts
      in list_all is_result results \<and> (results \<noteq> [] \<longrightarrow> Text \<notin> set before) \<and>
         answered_ids results = pending)"

definition call_ids :: "json \<Rightarrow> string list" where
  "call_ids m = fst (process_assistant_tool_ids (blocks_of m) [])"

fun well_paired :: "string list \<Rightarrow> json list \<Rightarrow> bool" where
  "well_paired pending [] = (pending = [])"
| "well_paired pending (m # ms) =
     (if msg_role m = ''assistant'' \<and> is_dict m then pending = [] \<and> well_paired (call_ids m) ms
      else if msg_role m = ''user'' \<and> msg_content m \<noteq> None
      then answers pending (user_parts (blocks_of m)) \<and> well_paired [] ms
      else pending = [] \<and> well_paired [] ms)"

subsection \<open>One user message against the rule\<close>

definition clean :: "counts \<Rightarrow> bool" where
  "clean r = list_all (\<lambda>(k, _). k = ''thinking_between_tool_use'') r"

lemma clean_keys: "clean r \<longleftrightarrow> set (map fst r) \<subseteq> {''thinking_between_tool_use''}"
  by (auto simp: clean_def list_all_iff)

lemma clean_Nil [simp]: "clean []"
  by (simp add: clean_def)

lemma clean_cadd [simp]: "clean (cadd k n r) \<longleftrightarrow> k = ''thinking_between_tool_use'' \<and> clean r"
  unfolding clean_keys cadd_def keys_dict_set by auto

text \<open>The scan as a decision: no violation from here on, with \<open>p\<close> the calls still to be answered.\<close>

fun scan_ok :: "bool \<Rightarrow> bool \<Rightarrow> string list \<Rightarrow> user_part list \<Rightarrow> bool" where
  "scan_ok t s p [] = True"
| "scan_ok t s p (Text # ks) = (\<not> s \<and> scan_ok True s p ks)"
| "scan_ok t s p (Other # ks) = (\<not> s \<and> scan_ok t s p ks)"
| "scan_ok t s p (Result i # ks) =
     (\<not> t \<and> (if i = [] then scan_ok t True p ks else p \<noteq> [] \<and> hd p = i \<and> scan_ok t True (tl p) ks))"

definition scan_part :: "string list \<Rightarrow> string list \<Rightarrow> user_part \<Rightarrow> user_scan \<Rightarrow> user_scan" where
  "scan_part seen pending k st =
     (case k of Text \<Rightarrow> mixed_step (st\<lparr>saw_text := True\<rparr>)
      | Other \<Rightarrow> mixed_step st
      | Result i \<Rightarrow> scan_result seen pending i st)"

lemma scan_block_part:
  "scan_block seen pending b st = (case part_of b of None \<Rightarrow> st | Some k \<Rightarrow> scan_part seen pending k st)"
  by (auto simp: scan_block_def part_of_def scan_part_def Let_def)

lemma scan_blocks_parts:
  "fold (scan_block seen pending) content st = fold (scan_part seen pending) (user_parts content) st"
  by (induction content arbitrary: st) (auto simp: user_parts_def scan_block_part map_filter_simps split: option.splits)

definition scan_sound :: "user_scan \<Rightarrow> bool" where
  "scan_sound st \<longleftrightarrow> (clean (scan_risks st) \<longrightarrow> \<not> order_violation st \<and> \<not> mixed_violation st)"

lemma dirty_stays: "\<not> clean (scan_risks st) \<Longrightarrow> \<not> clean (scan_risks (scan_part seen pending k st))"
  by (cases k) (auto simp: scan_part_def mixed_step_def scan_result_def Let_def not_immediately_def)

lemma dirty_stays_fold:
  "\<not> clean (scan_risks st) \<Longrightarrow> \<not> clean (scan_risks (fold (scan_part seen pending) ks st))"
  by (induction ks arbitrary: st) (simp_all add: dirty_stays)

lemma scan_parts_ok:
  assumes "scan_sound st" and "set pending \<subseteq> set seen" and "matched st \<le> length pending"
    and "clean (scan_risks st)"
  shows "(clean (scan_risks (fold (scan_part seen pending) ks st)) \<longleftrightarrow>
            scan_ok (saw_text st) (saw_result st) (drop (matched st) pending) ks) \<and>
         (clean (scan_risks (fold (scan_part seen pending) ks st)) \<longrightarrow>
            matched (fold (scan_part seen pending) ks st) = matched st + length (answered_ids ks) \<and>
            result_count (fold (scan_part seen pending) ks st) = result_count st + length (filter is_result ks))"
  using assms
proof (induction ks arbitrary: st)
  case Nil
  then show ?case by (simp add: answered_ids_def)
next
  case (Cons k ks)
  have flags: "\<not> order_violation st" "\<not> mixed_violation st"
    using Cons.prems(1,4) by (auto simp: scan_sound_def)
  let ?st = "scan_part seen pending k st"
  show ?case
  proof (cases "clean (scan_risks ?st)")
    case False
    have "\<not> scan_ok (saw_text st) (saw_result st) (drop (matched st) pending) (k # ks)"
    proof (cases k)
      case (Result i)
      have "matched st < length pending \<Longrightarrow> pending ! matched st \<in> set seen"
        using Cons.prems(2) by (meson nth_mem subsetD)
      with Result False flags Cons.prems show ?thesis
        by (auto simp: scan_part_def scan_result_def Let_def hd_drop_conv_nth split: if_splits)
    qed (use False flags Cons.prems in \<open>auto simp: scan_part_def mixed_step_def split: if_splits\<close>)
    with dirty_stays_fold [OF False] show ?thesis by simp
  next
    case True
    have "scan_sound ?st" "matched ?st \<le> length pending"
      using True flags Cons.prems
      by (cases k; auto simp: scan_sound_def scan_part_def mixed_step_def scan_result_def Let_def
          not_immediately_def split: if_splits)+
    note step = Cons.IH [OF this(1) Cons.prems(2) this(2) True]
    show ?thesis
    proof (cases k)
      case (Result i)
      with step True flags Cons.prems show ?thesis
        by (auto simp: scan_part_def scan_result_def Let_def not_immediately_def hd_drop_conv_nth drop_Suc
            tl_drop answered_ids_def split: if_splits)
    qed (use step True flags Cons.prems in \<open>auto simp: scan_part_def mixed_step_def not_immediately_def
        answered_ids_def split: if_splits\<close>)
  qed
qed

lemma answered_Nil [simp]: "answered_ids [] = []"
  by (simp add: answered_ids_def)

lemma answered_Cons [simp]:
  "answered_ids (k # ks) = (if result_id k \<noteq> [] then result_id k # answered_ids ks else answered_ids ks)"
  by (simp add: answered_ids_def)

lemma scan_ok_after_result:
  "scan_ok t True p ks \<longleftrightarrow>
     list_all is_result ks \<and> (ks \<noteq> [] \<longrightarrow> \<not> t) \<and> prefix (answered_ids ks) p"
proof (induction ks arbitrary: p)
  case Nil
  then show ?case by simp
next
  case (Cons k ks)
  show ?case
  proof (cases k)
    case (Result i)
    with Cons show ?thesis by (cases p) auto
  qed auto
qed

lemma scan_ok_answers:
  "scan_ok t False p ks \<longleftrightarrow>
     (let before = takeWhile (\<lambda>x. \<not> is_result x) ks; results = dropWhile (\<lambda>x. \<not> is_result x) ks
      in list_all is_result results \<and> (results \<noteq> [] \<longrightarrow> \<not> t \<and> Text \<notin> set before) \<and>
         prefix (answered_ids results) p)"
proof (induction ks arbitrary: t)
  case Nil
  then show ?case by simp
next
  case (Cons k ks)
  show ?case
  proof (cases k)
    case (Result i)
    then show ?thesis by (cases p) (auto simp: scan_ok_after_result)
  next
    case Text
    then show ?thesis using Cons [of True] by (auto simp: Let_def)
  next
    case Other
    then show ?thesis using Cons [of t] by (auto simp: Let_def)
  qed
qed

lemma answered_dropWhile: "answered_ids (dropWhile (\<lambda>x. \<not> is_result x) ks) = answered_ids ks"
proof (induction ks)
  case (Cons k ks)
  then show ?case by (cases k) auto
qed simp

lemma answers_scan_ok:
  "answers p ks \<longleftrightarrow> scan_ok False False p ks \<and> length (answered_ids ks) = length p"
proof -
  have "prefix (answered_ids ks) p \<and> length (answered_ids ks) = length p \<longleftrightarrow> answered_ids ks = p"
    by (auto simp: prefix_def)
  then show ?thesis
    by (auto simp: answers_def scan_ok_answers Let_def answered_dropWhile)
qed

lemma answered_results: "length (answered_ids ks) \<le> length (filter is_result ks)"
proof (induction ks)
  case (Cons k ks)
  then show ?case by (cases k) auto
qed simp

lemma user_message_clean:
  assumes "set pending \<subseteq> set seen"
    and "process_user_tool_results content seen pending r = (total_results, m, r')"
  shows "clean (evaluate_pending_coverage pending total_results m r') \<longleftrightarrow>
     clean r \<and> answers pending (user_parts content)"
proof -
  define st where "st = fold (scan_part seen pending) (user_parts content) (scan_init r)"
  have out: "total_results = result_count st" "m = matched st" "r' = scan_risks st"
    using assms(2) by (simp_all add: process_user_tool_results_def scan_blocks_parts st_def Let_def)
  show ?thesis
  proof (cases "clean r")
    case False
    then have "\<not> clean r'" using dirty_stays_fold [of "scan_init r"] by (simp add: out st_def scan_init_def)
    with False show ?thesis by (simp add: evaluate_pending_coverage_def missing_next_def)
  next
    case True
    have "scan_sound (scan_init r)" by (simp add: scan_sound_def scan_init_def)
    from scan_parts_ok [OF this assms(1)] True
    have ok: "clean r' \<longleftrightarrow> scan_ok False False pending (user_parts content)"
      and counts: "clean r' \<Longrightarrow> m = length (answered_ids (user_parts content)) \<and>
         total_results = length (filter is_result (user_parts content))"
      by (simp_all add: out st_def scan_init_def)
    show ?thesis
    proof (cases "clean r'")
      case True
      have "prefix (answered_ids (user_parts content)) pending"
        using ok True by (simp add: scan_ok_answers Let_def answered_dropWhile)
      then have "length (answered_ids (user_parts content)) \<le> length pending" by (rule prefix_length_le)
      with True \<open>clean r\<close> counts [OF True] ok answered_results [of "user_parts content"] show ?thesis
        by (auto simp: evaluate_pending_coverage_def answers_scan_ok missing_next_def)
    next
      case False
      then show ?thesis
        using ok by (simp add: evaluate_pending_coverage_def answers_scan_ok missing_next_def)
    qed
  qed
qed

subsection \<open>The whole walk against the rule\<close>

definition collector_inv :: "collector \<Rightarrow> bool" where
  "collector_inv st \<longleftrightarrow> set (pending_ids st) \<subseteq> set (seen_ids st) \<and> (pending_ids st \<noteq> [] \<longrightarrow> \<not> responded st)"

lemma detect_clean:
  "detect_thinking_between_tool_use b bs r = Inr r' \<Longrightarrow> clean r' = clean r"
proof (induction bs arbitrary: b r)
  case (Cons x bs)
  show ?case
  proof (cases "is_dict x \<and> \<not> has_type ''tool_use'' x")
    case True
    with Cons.prems obtain t where
      "detect_thinking_between_tool_use b bs (if t \<and> b then cadd ''thinking_between_tool_use'' 1 r else r) = Inr r'"
      by (auto elim!: bind_py_Inr_E)
    from Cons.IH [OF this] show ?thesis by auto
  next
    case False
    with Cons.prems Cons.IH show ?thesis by (auto split: if_splits)
  qed
qed simp

lemma flush_clean: "clean (flush_pending_tool_uses pending r) \<longleftrightarrow> clean r \<and> pending = []"
  by (auto simp: flush_pending_tool_uses_def missing_next_def)

lemma collector_user_clean:
  assumes "collector_inv st"
  shows "clean (c_risks (collector_user content st)) \<longleftrightarrow>
    clean (c_risks st) \<and> answers (pending_ids st) (user_parts content)"
proof -
  have sub: "set (pending_ids st) \<subseteq> set (seen_ids st)" using assms by (simp add: collector_inv_def)
  have frag: "check_fragmentation_risk content (pending_ids st) (awaiting st) (responded st) (c_risks st) = c_risks st"
    using assms by (auto simp: check_fragmentation_risk_def collector_inv_def)
  obtain n m r where run: "process_user_tool_results content (seen_ids st) (pending_ids st) (c_risks st) = (n, m, r)"
    by (metis prod_cases3)
  from user_message_clean [OF sub run] show ?thesis by (simp add: collector_user_def Let_def frag run)
qed

lemma collector_user_inv:
  "collector_inv (collector_user content st) \<and> pending_ids (collector_user content st) = []"
  by (simp add: collector_user_def collector_inv_def Let_def split: prod.splits)

lemma collector_reset_inv: "collector_inv (collector_reset st) \<and> pending_ids (collector_reset st) = []"
  by (simp add: collector_reset_def collector_inv_def)

definition step_rule :: "string list \<Rightarrow> json \<Rightarrow> bool" where
  "step_rule pending m =
     (if msg_role m = ''user'' \<and> msg_content m \<noteq> None
      then answers pending (user_parts (blocks_of m)) else pending = [])"

definition step_pending :: "json \<Rightarrow> string list" where
  "step_pending m = (if msg_role m = ''assistant'' \<and> is_dict m then call_ids m else [])"

lemma well_paired_Cons: "well_paired pending (m # ms) \<longleftrightarrow> step_rule pending m \<and> well_paired (step_pending m) ms"
  by (auto simp: step_rule_def step_pending_def)

lemma not_dict_no_content: "\<not> is_dict m \<Longrightarrow> msg_content m = None"
  by (cases m) (simp_all add: msg_content_def)

lemma collector_step_spec:
  assumes "collector_inv st" and "collector_step m st = Inr st'"
  shows "(clean (c_risks st') \<longleftrightarrow> clean (c_risks st) \<and> step_rule (pending_ids st) m) \<and>
     collector_inv st' \<and> pending_ids st' = step_pending m"
proof -
  consider (assistant) "is_dict m" "msg_role m = ''assistant''"
    | (user) content where "is_dict m" "msg_role m = ''user''" "msg_content m = Some content"
    | (other) "st' = collector_reset st" "\<not> (msg_role m = ''user'' \<and> msg_content m \<noteq> None)"
        "\<not> (msg_role m = ''assistant'' \<and> is_dict m)"
    using assms(2) not_dict_no_content [of m]
    by (cases "is_dict m") (auto simp: collector_step_def Let_def split: if_splits option.splits)
  then show ?thesis
  proof cases
    case assistant
    then obtain r where r: "(case msg_content m of None \<Rightarrow> Inr (flush_pending_tool_uses (pending_ids st) (c_risks st))
          | Some content \<Rightarrow> detect_thinking_between_tool_use False content
              (flush_pending_tool_uses (pending_ids st) (c_risks st))) = Inr r"
      and st': "c_risks st' = r" "pending_ids st' = call_ids m" "\<not> responded st'"
        "seen_ids st' = seen_ids st @ call_ids m"
      using assms(2) by (auto simp: collector_step_def Let_def process_assistant_tool_ids_def call_ids_def
          elim!: bind_py_Inr_E)
    have "clean r \<longleftrightarrow> clean (flush_pending_tool_uses (pending_ids st) (c_risks st))"
      using r by (auto split: option.splits dest: detect_clean)
    with st' assistant show ?thesis
      by (auto simp: flush_clean step_rule_def step_pending_def collector_inv_def)
  next
    case user
    then have "st' = collector_user content st" using assms(2) by (simp add: collector_step_def)
    with user collector_user_clean [OF assms(1)] collector_user_inv show ?thesis
      by (simp add: step_rule_def step_pending_def blocks_of_def)
  next
    case other
    with collector_reset_inv [of st] show ?thesis
      by (auto simp: collector_reset_def flush_clean step_rule_def step_pending_def)
  qed
qed

lemma collector_from_spec:
  "collector_inv st \<Longrightarrow> collector_from ms st = Inr st' \<Longrightarrow>
     (clean (flush_pending_tool_uses (pending_ids st') (c_risks st')) \<longleftrightarrow>
        clean (c_risks st) \<and> well_paired (pending_ids st) ms)"
proof (induction ms arbitrary: st)
  case Nil
  then show ?case by (simp add: flush_clean)
next
  case (Cons m ms)
  obtain st1 where one: "collector_step m st = Inr st1" and rest: "collector_from ms st1 = Inr st'"
    using Cons.prems(2) by (auto elim!: bind_py_Inr_E)
  from collector_step_spec [OF Cons.prems(1) one] Cons.IH [OF _ rest] show ?case
    by (auto simp: well_paired_Cons simp del: well_paired.simps)
qed

lemma collect_clean_iff:
  assumes "collect_bridge_tool_result_shape_risks ms = Inr r"
  shows "clean r \<longleftrightarrow> well_paired [] ms"
proof -
  obtain st where run: "collector_from ms collector_init = Inr st"
    and r: "r = flush_pending_tool_uses (pending_ids st) (c_risks st)"
    using assms by (auto simp: collect_bridge_tool_result_shape_risks_def elim!: bind_py_Inr_E)
  have "collector_inv collector_init" by (simp add: collector_inv_def collector_init_def)
  from collector_from_spec [OF this run] show ?thesis by (simp add: r collector_init_def)
qed

subsection \<open>Which counters can be nonzero\<close>

text \<open>Every counter of the result has one of six names and is positive.\<close>

definition REPORTED_RISKS :: "string list" where
  "REPORTED_RISKS = [''user_tool_result_after_text'', missing_next,
     ''assistant_tool_use_incomplete_next_tool_result_coverage'', ''tool_result_unknown_tool_use_id'',
     not_immediately, ''thinking_between_tool_use'']"

definition good_risks :: "counts \<Rightarrow> bool" where
  "good_risks r \<longleftrightarrow> (\<forall>k n. map_of r k = Some n \<longrightarrow> 0 < n \<and> k \<in> set REPORTED_RISKS)"

lemma good_risks_Nil [simp]: "good_risks []"
  by (simp add: good_risks_def)

lemma good_risks_cadd [intro, simp]:
  assumes "good_risks r" and "0 < n" and "k \<in> set REPORTED_RISKS"
  shows "good_risks (cadd k n r)"
proof -
  have "0 \<le> cget k r"
    using assms(1) by (auto simp: good_risks_def cget_def less_imp_le split: option.splits)
  with assms show ?thesis by (auto simp: good_risks_def cadd_def)
qed

lemma reported [simp]:
  "''user_tool_result_after_text'' \<in> set REPORTED_RISKS" "missing_next \<in> set REPORTED_RISKS"
  "''assistant_tool_use_incomplete_next_tool_result_coverage'' \<in> set REPORTED_RISKS"
  "''tool_result_unknown_tool_use_id'' \<in> set REPORTED_RISKS" "not_immediately \<in> set REPORTED_RISKS"
  "''thinking_between_tool_use'' \<in> set REPORTED_RISKS"
  by (simp_all add: REPORTED_RISKS_def)

lemma scan_part_good: "good_risks (scan_risks st) \<Longrightarrow> good_risks (scan_risks (scan_part seen pending k st))"
  by (cases k) (auto simp: scan_part_def mixed_step_def scan_result_def Let_def)

lemma scan_part_matched:
  "matched st \<le> length pending \<Longrightarrow> matched (scan_part seen pending k st) \<le> length pending"
  by (cases k) (auto simp: scan_part_def mixed_step_def scan_result_def Let_def)

lemma scan_parts_good:
  "good_risks (scan_risks st) \<Longrightarrow> matched st \<le> length pending \<Longrightarrow>
     good_risks (scan_risks (fold (scan_part seen pending) ks st)) \<and>
     matched (fold (scan_part seen pending) ks st) \<le> length pending"
  by (induction ks arbitrary: st) (simp_all add: scan_part_good scan_part_matched)

lemma detect_good:
  "detect_thinking_between_tool_use b bs r = Inr r' \<Longrightarrow> good_risks r \<Longrightarrow> good_risks r'"
proof (induction bs arbitrary: b r)
  case (Cons x bs)
  show ?case
  proof (cases "is_dict x \<and> \<not> has_type ''tool_use'' x")
    case True
    with Cons.prems obtain t where
      "detect_thinking_between_tool_use b bs (if t \<and> b then cadd ''thinking_between_tool_use'' 1 r else r) = Inr r'"
      by (auto elim!: bind_py_Inr_E)
    from Cons.IH [OF this] Cons.prems(2) show ?thesis by simp
  next
    case False
    with Cons.prems Cons.IH show ?thesis by (auto split: if_splits)
  qed
qed simp

lemma flush_good: "good_risks r \<Longrightarrow> good_risks (flush_pending_tool_uses pending r)"
  by (auto simp: flush_pending_tool_uses_def)

lemma collector_user_good:
  assumes "collector_inv st" and "good_risks (c_risks st)"
  shows "good_risks (c_risks (collector_user content st))"
proof -
  have frag: "check_fragmentation_risk content (pending_ids st) (awaiting st) (responded st) (c_risks st) = c_risks st"
    using assms(1) by (auto simp: check_fragmentation_risk_def collector_inv_def)
  define sc where "sc = fold (scan_part (seen_ids st) (pending_ids st)) (user_parts content) (scan_init (c_risks st))"
  have "good_risks (scan_risks sc) \<and> matched sc \<le> length (pending_ids st)"
    unfolding sc_def by (rule scan_parts_good) (use assms(2) in \<open>simp_all add: scan_init_def\<close>)
  then have "good_risks (evaluate_pending_coverage (pending_ids st) (result_count sc) (matched sc) (scan_risks sc))"
    by (auto simp: evaluate_pending_coverage_def)
  then show ?thesis
    by (simp add: collector_user_def Let_def frag process_user_tool_results_def scan_blocks_parts sc_def)
qed

lemma collector_step_good:
  assumes "collector_inv st" and "collector_step m st = Inr st'" and "good_risks (c_risks st)"
  shows "good_risks (c_risks st')"
proof -
  have fl: "good_risks (flush_pending_tool_uses (pending_ids st) (c_risks st))" using assms(3) by (rule flush_good)
  show ?thesis
    using assms(2) fl collector_user_good [OF assms(1,3)] detect_good [OF _ fl]
    by (auto simp: collector_step_def Let_def collector_reset_def process_assistant_tool_ids_def
        split: if_splits option.splits elim!: bind_py_Inr_E)
qed

lemma collector_from_good:
  "collector_inv st \<Longrightarrow> good_risks (c_risks st) \<Longrightarrow> collector_from ms st = Inr st' \<Longrightarrow>
     good_risks (flush_pending_tool_uses (pending_ids st') (c_risks st'))"
proof (induction ms arbitrary: st)
  case Nil
  then show ?case by (simp add: flush_good)
next
  case (Cons m ms)
  obtain st1 where one: "collector_step m st = Inr st1" and rest: "collector_from ms st1 = Inr st'"
    using Cons.prems(3) by (auto elim!: bind_py_Inr_E)
  from collector_step_spec [OF Cons.prems(1) one] collector_step_good [OF Cons.prems(1) one Cons.prems(2)]
    Cons.IH [OF _ _ rest] show ?case by blast
qed

lemma collect_good:
  assumes "collect_bridge_tool_result_shape_risks ms = Inr r"
  shows "good_risks r"
proof -
  obtain st where run: "collector_from ms collector_init = Inr st"
    and r: "r = flush_pending_tool_uses (pending_ids st) (c_risks st)"
    using assms by (auto simp: collect_bridge_tool_result_shape_risks_def elim!: bind_py_Inr_E)
  have "collector_inv collector_init" "good_risks (c_risks collector_init)"
    by (simp_all add: collector_inv_def collector_init_def)
  from collector_from_good [OF this run] show ?thesis by (simp add: r)
qed

lemma good_clean_iff:
  assumes "good_risks r"
  shows "clean r \<longleftrightarrow> (\<forall>k. k \<noteq> ''thinking_between_tool_use'' \<longrightarrow> cget k r = 0)"
proof -
  have "cget k r = 0 \<longleftrightarrow> k \<notin> set (map fst r)" for k
  proof (cases "map_of r k")
    case None
    then show ?thesis using map_of_eq_None_iff [of r k] by (auto simp: cget_def)
  next
    case (Some n)
    with assms have "0 < n" by (simp add: good_risks_def)
    moreover have "k \<in> set (map fst r)" using Some map_of_eq_None_iff [of r k] by auto
    ultimately show ?thesis using Some by (simp add: cget_def)
  qed
  then show ?thesis by (auto simp: clean_keys)
qed

subsection \<open>When the walk raises\<close>

definition block_type_hashable :: "json \<Rightarrow> bool" where
  "block_type_hashable b = (\<not> is_dict b \<or> has_type ''tool_use'' b \<or> hashable (jget_or ''type'' JNull b))"

definition message_types_hashable :: "json \<Rightarrow> bool" where
  "message_types_hashable m =
     (\<not> is_dict m \<or> msg_role m \<noteq> ''assistant'' \<or> list_all block_type_hashable (blocks_of m))"

lemma detect_Inr_iff:
  "(\<exists>r'. detect_thinking_between_tool_use b bs r = Inr r') \<longleftrightarrow> list_all block_type_hashable bs"
proof (induction bs arbitrary: b r)
  case (Cons x bs)
  then show ?case by (auto simp: block_type_hashable_def in_str_set_def)
qed simp

lemma collector_step_Inr_iff: "(\<exists>st'. collector_step m st = Inr st') \<longleftrightarrow> message_types_hashable m"
proof (cases "is_dict m \<and> msg_role m = ''assistant''")
  case True
  then show ?thesis
    using detect_Inr_iff [of False "blocks_of m" "flush_pending_tool_uses (pending_ids st) (c_risks st)"]
    by (auto simp: collector_step_def message_types_hashable_def blocks_of_def bind_py_def Let_def
        split: option.splits sum.splits prod.splits)
next
  case False
  then show ?thesis
    by (auto simp: collector_step_def message_types_hashable_def split: option.splits)
qed

lemma collector_from_Inr_iff: "(\<exists>st'. collector_from ms st = Inr st') \<longleftrightarrow> list_all message_types_hashable ms"
proof (induction ms arbitrary: st)
  case (Cons m ms)
  show ?case
  proof (cases "collector_step m st")
    case (Inl e)
    then have "\<not> message_types_hashable m" using collector_step_Inr_iff [of m st] by auto
    with Inl show ?thesis by simp
  next
    case (Inr st1)
    then have "message_types_hashable m" using collector_step_Inr_iff [of m st] by auto
    with Inr Cons show ?thesis by simp
  qed
qed simp

subsection \<open>Properties\<close>

text \<open>
  C5: The collector of pairing risks is exact: whenever it returns, all its counters other than the one for
  interleaved thinking are zero if and only if the conversation obeys the pairing rule
  \<open>well_paired\<close>, which speaks of messages only and not of the collector's state.
\<close>

theorem risk_free_iff_well_paired:
  assumes "collect_bridge_tool_result_shape_risks ms = Inr r"
  shows "(\<forall>k. k \<noteq> ''thinking_between_tool_use'' \<longrightarrow> cget k r = 0) = well_paired [] ms"
  using good_clean_iff [OF collect_good [OF assms]] collect_clean_iff [OF assms] by simp

definition fragmented_conversation :: "json list" where
  "fragmented_conversation =
    [simple_message ''user'' [text_block ''go''],
     simple_message ''assistant'' [sample_call ''a'', sample_call ''b''],
     simple_message ''user'' [sample_result ''a''],
     simple_message ''user'' [sample_result ''b'']]"

definition fragmented_risks :: counts where
  "fragmented_risks =
    [(''assistant_tool_use_incomplete_next_tool_result_coverage'', 1),
     (''tool_result_not_immediately_after_assistant_tool_use'', 1)]"

lemma fragmented_collected:
  "collect_bridge_tool_result_shape_risks fragmented_conversation = Inr fragmented_risks"
  by code_simp

lemma canonical_collected: "collect_bridge_tool_result_shape_risks sample_canonical = Inr []"
  by code_simp

theorem risk_free_iff_well_paired_witness:
  "(\<forall>k. k \<noteq> ''thinking_between_tool_use'' \<longrightarrow> cget k ([] :: counts) = 0) = well_paired [] sample_canonical \<and>
   well_paired [] sample_canonical"
  using risk_free_iff_well_paired [OF canonical_collected] by simp

text \<open>
  The counter for results fragmented across several user messages never appears: the first user message
  ends the pending state, so the check cannot fire. The sample is such a conversation.
\<close>

lemma fragmentation_never_reported:
  assumes "collect_bridge_tool_result_shape_risks ms = Inr r"
  shows "map_of r ''tool_results_fragmented_across_user_messages'' = None"
proof (cases "map_of r ''tool_results_fragmented_across_user_messages''")
  case (Some n)
  with collect_good [OF assms] show ?thesis
    by (auto simp: good_risks_def REPORTED_RISKS_def missing_next_def not_immediately_def)
qed

lemma fragmentation_never_reported_witness:
  "collect_bridge_tool_result_shape_risks fragmented_conversation = Inr fragmented_risks \<and>
   map_of fragmented_risks ''tool_results_fragmented_across_user_messages'' = None"
  using fragmentation_never_reported [OF fragmented_collected] fragmented_collected by blast

text \<open>
  The collector returns exactly when no assistant message has a block, other than a tool call, whose
  \<open>type\<close> is a list or a dictionary; on such a block it raises.
\<close>

lemma collector_returns_iff:
  "(\<exists>r. collect_bridge_tool_result_shape_risks ms = Inr r) = list_all message_types_hashable ms"
  unfolding collector_from_Inr_iff [of ms collector_init, symmetric] collect_bridge_tool_result_shape_risks_def
  by (auto simp: bind_py_Inr_iff)

end
