(* ===== verification/BridgeDiagnostics.thy ===== *)
theory BridgeDiagnostics
  imports ShapeRisks
begin

section \<open>Bridge diagnostics\<close>

text \<open>
  Models \<open>src/tok/runtime/pipeline/bridge_message_validation.py\<close>: the counters of assistant
  messages that mix large tool batches with text, the structural summary of a conversation, and
  the snapshot of calls and results per assistant message.
\<close>

definition DEFAULT_ALLOWED_BLOCK_TYPES :: "string list" where
  "DEFAULT_ALLOWED_BLOCK_TYPES = [''text'', ''tool_use'', ''tool_result'', ''thinking'', ''redacted_thinking'']"

definition LARGE_TOOL_BATCH_THRESHOLD :: nat where
  "LARGE_TOOL_BATCH_THRESHOLD = 16"

subsection \<open>Provider-sensitive batches\<close>

definition tool_positions :: "json list \<Rightarrow> nat list" where
  "tool_positions content = filter (\<lambda>i. is_tool_use_block (content ! i)) [0..<length content]"

definition text_after_tool_use :: "json list \<Rightarrow> bool" where
  "text_after_tool_use content =
     (tool_positions content \<noteq> [] \<and>
      list_ex (\<lambda>i. is_text_block (content ! i) \<and> hd (tool_positions content) < i) [0..<length content])"

definition next_tool_result_count :: "json list \<Rightarrow> nat" where
  "next_tool_result_count rest =
     (case rest of [] \<Rightarrow> 0 | n # _ \<Rightarrow> length (filter is_tool_result_block (blocks_of n)))"

definition provider_step :: "nat \<Rightarrow> json \<Rightarrow> json list \<Rightarrow> counts \<Rightarrow> counts" where
  "provider_step threshold message rest risks =
     (if \<not> is_dict message \<or> msg_role message \<noteq> ''assistant'' then risks
      else case msg_content message of
        None \<Rightarrow> risks
      | Some content \<Rightarrow>
          if tool_positions content = [] then risks
          else
            let large = (threshold \<le> length (tool_positions content));
                interleaved = text_after_tool_use content;
                r = (if large then cadd ''assistant_large_tool_use_batch'' 1 risks else risks);
                r = (if interleaved then cadd ''assistant_tool_use_text_interleaving'' 1 r else r)
            in if large \<and> interleaved then
                 let r = cadd ''assistant_large_tool_use_text_interleaving'' 1 r
                 in if next_tool_result_count rest \<noteq> 0
                    then cadd ''provider_sensitive_large_tool_use_text_interleaving'' 1 r
                    else cadd ''provider_sensitive_large_tool_use_batch_unterminated'' 1 r
               else r)"

fun provider_from :: "nat \<Rightarrow> json list \<Rightarrow> counts \<Rightarrow> counts" where
  "provider_from threshold [] risks = risks"
| "provider_from threshold (m # ms) risks = provider_from threshold ms (provider_step threshold m ms risks)"

definition collect_provider_sensitivity_risks :: "nat \<Rightarrow> json list \<Rightarrow> counts" where
  "collect_provider_sensitivity_risks threshold messages = provider_from threshold messages []"

subsection \<open>Structural summary\<close>

record structure_summary =
  s_count :: nat
  s_sequence :: "string list"
  s_user_msgs :: nat
  s_assistant_msgs :: nat
  s_tool_use_blocks :: nat
  s_tool_result_blocks :: nat
  s_unsupported_blocks :: "(json \<times> int) list"
  s_field_shape_risks :: counts
  s_provider_sensitivity_risks :: counts

fun summarize_message_blocks ::
    "string list \<Rightarrow> json list \<Rightarrow> structure_summary \<Rightarrow> (string list \<times> structure_summary) py" where
  "summarize_message_blocks allowed [] summary = Inr ([], summary)"
| "summarize_message_blocks allowed (b # bs) summary =
     (if \<not> is_dict b then
        bind_py (summarize_message_blocks allowed bs summary) (\<lambda>(ss, s). Inr (''non_dict'' # ss, s))
      else
        let t = jget_or ''type'' (JStr ''unknown'') b in
        bind_py
          (if t = JStr ''tool_use'' then Inr (summary\<lparr>s_tool_use_blocks := Suc (s_tool_use_blocks summary)\<rparr>)
           else if t = JStr ''tool_result''
           then Inr (summary\<lparr>s_tool_result_blocks := Suc (s_tool_result_blocks summary)\<rparr>)
           else bind_py (in_str_set t allowed) (\<lambda>ok.
             Inr (if ok then summary
                  else summary\<lparr>s_unsupported_blocks := cadd t 1 (s_unsupported_blocks summary)\<rparr>)))
          (\<lambda>summary. bind_py (summarize_message_blocks allowed bs summary) (\<lambda>(ss, s). Inr (py_str t # ss, s))))"

definition summarize_message :: "string list \<Rightarrow> json \<Rightarrow> structure_summary \<Rightarrow> (string \<times> structure_summary) py" where
  "summarize_message allowed message summary =
     (if \<not> is_dict message then Inr (''<'' @ type_name message @ ''>'', summary)
      else
        let role = py_str (jget_or ''role'' (JStr ''none'') message);
            summary = (if role = ''user'' then summary\<lparr>s_user_msgs := Suc (s_user_msgs summary)\<rparr>
                       else if role = ''assistant''
                       then summary\<lparr>s_assistant_msgs := Suc (s_assistant_msgs summary)\<rparr>
                       else summary);
            label = (\<lambda>ss. role @ ''['' @ join '','' ss @ '']'')
        in case jget ''content'' message of
             Some (JStr _) \<Rightarrow> Inr (label [''str''], summary)
           | Some (JList bs) \<Rightarrow>
               bind_py (summarize_message_blocks allowed bs summary) (\<lambda>(ss, s). Inr (label ss, s))
           | _ \<Rightarrow> Inr (label [], summary))"

fun summarize_messages ::
    "string list \<Rightarrow> json list \<Rightarrow> structure_summary \<Rightarrow> (string list \<times> structure_summary) py" where
  "summarize_messages allowed [] summary = Inr ([], summary)"
| "summarize_messages allowed (m # ms) summary =
     bind_py (summarize_message allowed m summary) (\<lambda>(l, s).
     bind_py (summarize_messages allowed ms s) (\<lambda>(ls, s'). Inr (l # ls, s')))"

text \<open>
  The wrapper in \<open>request_validation.py\<close> passes its own allowlist and the shape-risk collector; a
  value that is no list gives \<open>invalid_messages_type:...\<close> (the left summand).
\<close>

definition summarize_message_structure :: "json \<Rightarrow> (string + structure_summary) py" where
  "summarize_message_structure messages =
     (case messages of
        JList ms \<Rightarrow>
          bind_py (summarize_messages ALLOWED_BLOCK_TYPES ms
             \<lparr>s_count = length ms, s_sequence = [], s_user_msgs = 0, s_assistant_msgs = 0,
              s_tool_use_blocks = 0, s_tool_result_blocks = 0, s_unsupported_blocks = [],
              s_field_shape_risks = [], s_provider_sensitivity_risks = []\<rparr>) (\<lambda>(role_seq, s).
          bind_py (collect_bridge_tool_result_shape_risks ms) (\<lambda>shape.
            Inr (Inr (s\<lparr>s_sequence := role_seq, s_field_shape_risks := shape,
              s_provider_sensitivity_risks :=
                collect_provider_sensitivity_risks LARGE_TOOL_BATCH_THRESHOLD ms\<rparr>))))
      | _ \<Rightarrow> Inr (Inl (''invalid_messages_type:'' @ type_name messages)))"

subsection \<open>Pairing snapshots\<close>

record pairing_snapshot =
  assistant_index :: nat
  next_role :: string
  snapshot_call_ids :: "string list"
  snapshot_result_ids :: "string list"

fun summarize_bridge_pairing_from :: "nat \<Rightarrow> json list \<Rightarrow> pairing_snapshot list" where
  "summarize_bridge_pairing_from i [] = []"
| "summarize_bridge_pairing_from i (m # ms) =
     (let ids = map (field_strip ''id'') (filter is_tool_use_block (blocks_of m));
          rest = summarize_bridge_pairing_from (Suc i) ms
      in if is_dict m \<and> msg_role m = ''assistant'' \<and> ids \<noteq> [] then
           \<lparr>assistant_index = i,
            next_role = (case ms of [] \<Rightarrow> ''<none>'' | n # _ \<Rightarrow> if is_dict n then msg_role n else ''<none>''),
            snapshot_call_ids = ids,
            snapshot_result_ids = (case ms of [] \<Rightarrow> []
              | n # _ \<Rightarrow> map (field_strip ''tool_use_id'') (filter is_tool_result_block (blocks_of n)))\<rparr> # rest
         else rest)"

definition summarize_bridge_pairing :: "json list \<Rightarrow> pairing_snapshot list" where
  "summarize_bridge_pairing messages = summarize_bridge_pairing_from 0 messages"

subsection \<open>Facts\<close>

lemma tool_positions_Nil_iff: "tool_positions bs = [] \<longleftrightarrow> (\<forall>b \<in> set bs. \<not> has_type ''tool_use'' b)"
  by (auto simp: tool_positions_def filter_empty_conv is_tool_use_has_type all_set_conv_all_nth)

lemma tool_positions_Cons:
  "tool_positions (b # bs) = (if has_type ''tool_use'' b then [0] else []) @ map Suc (tool_positions bs)"
proof -
  have "[0..<length (b # bs)] = 0 # map Suc [0..<length bs]"
    by (simp add: map_Suc_upt upt_conv_Cons del: upt_Suc)
  then show ?thesis
    by (simp add: tool_positions_def is_tool_use_has_type filter_map comp_def)
qed

lemma text_after_Cons:
  "text_after_tool_use (b # bs) \<longleftrightarrow>
     (if has_type ''tool_use'' b then list_ex (has_type ''text'') bs else text_after_tool_use bs)"
proof -
  have upt: "[0..<length (b # bs)] = 0 # map Suc [0..<length bs]"
    by (simp add: map_Suc_upt upt_conv_Cons del: upt_Suc)
  have nth: "list_ex (has_type ''text'') bs = (\<exists>i < length bs. has_type ''text'' (bs ! i))"
    unfolding list_ex_iff by (metis in_set_conv_nth)
  have ex: "list_ex P (0 # map Suc [0..<n]) \<longleftrightarrow> P 0 \<or> (\<exists>i < n. P (Suc i))" for P n
    unfolding list_ex_iff list.set set_map set_upt by (auto simp del: image_Suc_atLeastLessThan)
  have ex0: "list_ex P [0..<n] \<longleftrightarrow> (\<exists>i < n. P i)" for P n
    by (auto simp: list_ex_iff)
  show ?thesis
  proof (cases "has_type ''tool_use'' b")
    case True
    then show ?thesis
      unfolding text_after_tool_use_def upt tool_positions_Cons ex nth by (simp add: is_text_has_type)
  next
    case False
    show ?thesis
      using False unfolding text_after_tool_use_def upt tool_positions_Cons ex ex0
      by (cases "tool_positions bs") (auto simp: is_text_has_type)
  qed
qed

lemma text_after_dropWhile:
  "text_after_tool_use bs \<longleftrightarrow> list_ex (has_type ''text'') (dropWhile (\<lambda>b. \<not> has_type ''tool_use'' b) bs)"
proof (induction bs)
  case Nil
  then show ?case by (simp add: text_after_tool_use_def tool_positions_def)
next
  case (Cons b bs)
  have "\<not> has_type ''text'' b" if "has_type ''tool_use'' b"
    using has_type_unique [OF that] by simp
  with Cons show ?case by (simp add: text_after_Cons)
qed

lemma tool_use_last_no_text_after: "tool_use_last bs \<Longrightarrow> \<not> text_after_tool_use bs"
proof -
  assume last: "tool_use_last bs"
  show ?thesis
  proof
    assume "text_after_tool_use bs"
    then obtain b where b: "b \<in> set (dropWhile (\<lambda>b. \<not> has_type ''tool_use'' b) bs)" "has_type ''text'' b"
      unfolding text_after_dropWhile list_ex_iff by blast
    then have "has_type ''tool_use'' b" using last unfolding tool_use_last_def list_all_iff by blast
    with b(2) show False by (simp add: has_type_def)
  qed
qed

definition interleaved_message :: "json \<Rightarrow> bool" where
  "interleaved_message m = (is_dict m \<and> msg_role m = ''assistant'' \<and> text_after_tool_use (blocks_of m))"

lemma provider_step_interleaving:
  "cget ''assistant_tool_use_text_interleaving'' (provider_step n m rest r) =
     cget ''assistant_tool_use_text_interleaving'' r + (if interleaved_message m then 1 else 0)"
  by (auto simp: provider_step_def interleaved_message_def blocks_of_def text_after_tool_use_def Let_def
      tool_positions_def split: option.splits)

lemma provider_from_interleaving:
  "cget ''assistant_tool_use_text_interleaving'' (provider_from n ms r) =
     cget ''assistant_tool_use_text_interleaving'' r + int (length (filter interleaved_message ms))"
  by (induction ms arbitrary: r) (simp_all add: provider_step_interleaving)

definition sensitive_message :: "nat \<Rightarrow> json \<Rightarrow> bool" where
  "sensitive_message threshold m =
     (interleaved_message m \<and> threshold \<le> length (filter (has_type ''tool_use'') (blocks_of m)))"

lemma length_tool_positions: "length (tool_positions bs) = length (filter (has_type ''tool_use'') bs)"
  by (induction bs) (simp_all add: tool_positions_Cons tool_positions_def [of "[]"])

lemma provider_step_sensitive:
  "cget ''provider_sensitive_large_tool_use_text_interleaving'' (provider_step n m rest r) +
   cget ''provider_sensitive_large_tool_use_batch_unterminated'' (provider_step n m rest r) =
   cget ''provider_sensitive_large_tool_use_text_interleaving'' r +
   cget ''provider_sensitive_large_tool_use_batch_unterminated'' r + (if sensitive_message n m then 1 else 0)"
  by (auto simp: provider_step_def sensitive_message_def interleaved_message_def blocks_of_def Let_def
      length_tool_positions text_after_tool_use_def split: option.splits)

lemma provider_from_sensitive:
  "cget ''provider_sensitive_large_tool_use_text_interleaving'' (provider_from n ms r) +
   cget ''provider_sensitive_large_tool_use_batch_unterminated'' (provider_from n ms r) =
   cget ''provider_sensitive_large_tool_use_text_interleaving'' r +
   cget ''provider_sensitive_large_tool_use_batch_unterminated'' r +
     int (length (filter (sensitive_message n) ms))"
  by (induction ms arbitrary: r) (simp_all add: provider_step_sensitive)

lemma provider_step_nonneg:
  "(\<forall>k. 0 \<le> cget k r) \<Longrightarrow> 0 \<le> cget k (provider_step n m rest r)"
  by (auto simp: provider_step_def Let_def split: option.splits)

lemma provider_from_nonneg: "(\<forall>k. 0 \<le> cget k r) \<Longrightarrow> 0 \<le> cget k (provider_from n ms r)"
  by (induction ms arbitrary: r) (simp_all add: provider_step_nonneg)

subsection \<open>Property\<close>

text \<open>
  The provider-risk counters count messages: the interleaving counter is the number of assistant
  messages with a text block after their first tool call, and the two provider-sensitive counters together
  are the number of those that also have at least \<open>threshold\<close> tool calls.
\<close>

lemma provider_risks_count:
  "cget ''assistant_tool_use_text_interleaving'' (collect_provider_sensitivity_risks threshold ms) =
     int (length (filter interleaved_message ms)) \<and>
   cget ''provider_sensitive_large_tool_use_text_interleaving'' (collect_provider_sensitivity_risks threshold ms) +
   cget ''provider_sensitive_large_tool_use_batch_unterminated'' (collect_provider_sensitivity_risks threshold ms) =
     int (length (filter (sensitive_message threshold) ms))"
  unfolding collect_provider_sensitivity_risks_def
  using provider_from_interleaving [of threshold ms "[]"] provider_from_sensitive [of threshold ms "[]"] by simp

end
