(* ===== verification/BridgeValidation.thy ===== *)
theory BridgeValidation
  imports BridgeDiagnostics
begin

section \<open>Strict validation of bridge bodies\<close>

text \<open>
  Models the validators of \<open>src/tok/runtime/pipeline/request_validation.py\<close>:
  \<open>validate_anthropic_bridge_body\<close> with its per-message and per-block checks,
  \<open>validate_anthropic_outgoing_bridge_body\<close>, and the basic \<open>validate_anthropic_request_body\<close>.

  The code returns \<open>list(set(failures))\<close>, whose order is not fixed; the model returns the failures
  without duplicates, and every statement is about membership or emptiness. The wire model
  (pydantic) is the parameter \<open>wire\<close>, as in theory Canonicalize.
\<close>

subsection \<open>Blocks and messages\<close>

definition valid_tool_use_fields :: "json \<Rightarrow> bool" where
  "valid_tool_use_fields block =
     (\<not> (field_strip ''id'' block = [] \<or> field_strip ''name'' block = [] \<or>
         \<not> is_dict (jget_or ''input'' (JObj []) block) \<or>
         \<not> is_provider_safe_tool_id (py_str (jget_or ''id'' (JStr []) block))))"

definition valid_tool_result_fields :: "json \<Rightarrow> bool" where
  "valid_tool_result_fields block =
     (\<not> (field_strip ''tool_use_id'' block = [] \<or>
         \<not> is_provider_safe_tool_id (py_str (jget_or ''tool_use_id'' (JStr []) block)) \<or>
         \<not> (is_str (jget_or ''content'' (JStr []) block) \<or> is_list (jget_or ''content'' (JStr []) block))))"

definition validate_tool_use_block :: "json \<Rightarrow> string \<Rightarrow> string list" where
  "validate_tool_use_block block role =
     (if role = ''user'' then [''user_contains_tool_use''] else []) @
     (if \<not> valid_tool_use_fields block then [''invalid_tool_use_block''] else [])"

definition validate_tool_result_block :: "json \<Rightarrow> string \<Rightarrow> string list" where
  "validate_tool_result_block block role =
     (if role = ''assistant'' then [''assistant_contains_tool_result''] else []) @
     (if \<not> valid_tool_result_fields block then [''invalid_tool_result_block''] else [])"

definition block_failure_name :: "nat \<Rightarrow> nat \<Rightarrow> string \<Rightarrow> string" where
  "block_failure_name i j what = ''message_'' @ nat_str i @ ''_block_'' @ nat_str j @ what"

definition blank_text :: "json \<Rightarrow> bool" where
  "blank_text block = (case jget ''text'' block of Some (JStr t) \<Rightarrow> py_strip t = [] | _ \<Rightarrow> True)"

definition validate_block :: "json \<Rightarrow> string \<Rightarrow> nat \<Rightarrow> nat \<Rightarrow> string list" where
  "validate_block block role msg_index block_index =
     (if \<not> is_dict block then [block_failure_name msg_index block_index ''_not_dict'']
      else let block_type = field_strip ''type'' block in
        if block_type = [] then [block_failure_name msg_index block_index ''_missing_type'']
        else if block_type = ''text'' then (if blank_text block then [''empty_message_content''] else [])
        else if block_type = ''tool_use'' then validate_tool_use_block block role
        else if block_type = ''tool_result'' then validate_tool_result_block block role
        else if block_type \<in> {''thinking'', ''redacted_thinking''} then
          (if role \<noteq> ''assistant'' then [''unsupported_block_type''] else [])
        else [''unsupported_block_type''])"

fun validate_blocks :: "json list \<Rightarrow> string \<Rightarrow> nat \<Rightarrow> nat \<Rightarrow> string list" where
  "validate_blocks [] role i j = []"
| "validate_blocks (b # bs) role i j = validate_block b role i j @ validate_blocks bs role i (Suc j)"

definition validate_message :: "json \<Rightarrow> nat \<Rightarrow> string list" where
  "validate_message message msg_index =
     (if \<not> is_dict message then [''message_'' @ nat_str msg_index @ ''_not_dict'']
      else let role = msg_role message in
        if role \<notin> {''user'', ''assistant''} then [''invalid_top_level_role'']
        else case jget ''content'' message of
            Some (JStr s) \<Rightarrow> (if py_strip s = [] then [''empty_message_content''] else [])
          | Some (JList bs) \<Rightarrow>
              (if bs = [] then [''empty_content_blocks''] else validate_blocks bs role msg_index 0)
          | _ \<Rightarrow> [''empty_message_content''])"

fun validate_messages :: "json list \<Rightarrow> nat \<Rightarrow> string list" where
  "validate_messages [] i = []"
| "validate_messages (m # ms) i = validate_message m i @ validate_messages ms (Suc i)"

subsection \<open>The body\<close>

text \<open>\<open>if shape_risks.get(code): failures.append(code)\<close> for the six codes, in the order of the code.\<close>

definition CHECKED_RISKS :: "string list" where
  "CHECKED_RISKS =
     [''user_tool_result_after_text'', ''assistant_tool_use_missing_next_tool_result'',
      ''assistant_tool_use_incomplete_next_tool_result_coverage'', ''tool_result_unknown_tool_use_id'',
      ''tool_result_not_immediately_after_assistant_tool_use'',
      ''tool_results_fragmented_across_user_messages'']"

definition risk_failures :: "counts \<Rightarrow> string list" where
  "risk_failures r = filter (\<lambda>code. cget code r \<noteq> 0) CHECKED_RISKS"

definition system_failures :: "json \<Rightarrow> string list" where
  "system_failures body =
     (case jget ''system'' body of
        None \<Rightarrow> [] | Some JNull \<Rightarrow> []
      | Some s \<Rightarrow> if \<not> (is_str s \<or> is_list s) then [''invalid_system_type''] else [])"

definition first_role :: "json list \<Rightarrow> string" where
  "first_role messages = (case messages of [] \<Rightarrow> [] | m # _ \<Rightarrow> if is_dict m then msg_role m else [])"

definition validate_anthropic_bridge_body :: "(json \<Rightarrow> wire_error list) \<Rightarrow> json \<Rightarrow> string list py" where
  "validate_anthropic_bridge_body wire body =
     (if \<not> is_dict body then Inr [''body_not_dict'']
      else
        let f0 = (if field_strip ''model'' body = [] then [''missing_model'', ''bridge_wire_model_invalid''] else [])
        in case jget ''messages'' body of
             Some (JList []) \<Rightarrow> Inr [''empty_messages'']
           | Some (JList messages) \<Rightarrow>
               bind_py (collect_bridge_tool_result_shape_risks messages) (\<lambda>shape_risks.
                 let failures = f0 @
                       (if first_role messages \<noteq> ''user'' then [''first_message_not_user''] else []) @
                       validate_messages messages 0 @ risk_failures shape_risks @ system_failures body;
                     failures = (if failures = [] then validate_canonical_bridge_body_model wire body
                                 else failures)
                 in Inr (remdups failures))
           | _ \<Rightarrow> Inr (remdups (f0 @ [''messages_not_list'', ''bridge_wire_model_invalid''])))"

definition max_tokens_failures :: "json \<Rightarrow> string list" where
  "max_tokens_failures body =
     (case jget ''max_tokens'' body of
        None \<Rightarrow> [''missing_max_tokens''] | Some JNull \<Rightarrow> [''missing_max_tokens'']
      | Some (JInt n) \<Rightarrow> if n < 1 then [''invalid_max_tokens''] else []
      | Some _ \<Rightarrow> [''invalid_max_tokens''])"

definition provider_failures :: "counts \<Rightarrow> string list" where
  "provider_failures r =
     (if cget ''provider_sensitive_large_tool_use_text_interleaving'' r \<noteq> 0
      then [''provider_sensitive_large_tool_use_text_interleaving''] else []) @
     (if cget ''provider_sensitive_large_tool_use_batch_unterminated'' r \<noteq> 0
      then [''provider_sensitive_large_tool_use_batch_unterminated''] else []) @
     (if cget ''assistant_tool_use_text_interleaving'' r \<noteq> 0
      then [''provider_sensitive_assistant_tool_use_text_interleaving''] else [])"

definition validate_anthropic_outgoing_bridge_body ::
    "(json \<Rightarrow> wire_error list) \<Rightarrow> json \<Rightarrow> string list py" where
  "validate_anthropic_outgoing_bridge_body wire body =
     bind_py (validate_anthropic_bridge_body wire body) (\<lambda>failures.
       if failures \<noteq> [] then Inr failures
       else case jget ''messages'' body of
           Some (JList messages) \<Rightarrow>
             Inr (provider_failures (collect_provider_sensitivity_risks LARGE_TOOL_BATCH_THRESHOLD messages) @
                  max_tokens_failures body)
         | _ \<Rightarrow> Inr [''messages_not_list''])"

subsection \<open>The basic validator\<close>

definition is_valid_content_block :: "json \<Rightarrow> bool" where
  "is_valid_content_block block =
     (if \<not> is_dict block then False
      else let block_type = field_strip ''type'' block in
        if block_type = [] then False
        else if block_type = ''text'' then is_str (jget_or ''text'' (JStr []) block)
        else if block_type = ''tool_use'' then
          is_str (jget_or ''name'' (JStr []) block) \<and> is_dict (jget_or ''input'' (JObj []) block)
        else if block_type = ''tool_result'' then is_str (jget_or ''tool_use_id'' (JStr []) block)
        else True)"

definition validate_message_basic :: "json \<Rightarrow> string option" where
  "validate_message_basic msg =
     (if \<not> is_dict msg then Some ''message_not_dict''
      else if msg_role msg \<notin> {''user'', ''assistant'', ''tool_result'', ''system''}
      then Some ''invalid_message_role''
      else case jget_or ''content'' (JStr []) msg of
          JList bs \<Rightarrow> if list_all is_valid_content_block bs then None else Some ''invalid_content_block''
        | JStr _ \<Rightarrow> None
        | _ \<Rightarrow> Some ''invalid_message_content'')"

fun first_basic_failure :: "json list \<Rightarrow> string list" where
  "first_basic_failure [] = []"
| "first_basic_failure (m # ms) =
     (case validate_message_basic m of Some f \<Rightarrow> [f] | None \<Rightarrow> first_basic_failure ms)"

definition validate_anthropic_request_body :: "json \<Rightarrow> string list" where
  "validate_anthropic_request_body body =
     (if \<not> is_dict body then [''body_not_dict'']
      else
        (if field_strip ''model'' body = [] then [''missing_model''] else []) @
        (case jget ''messages'' body of
           Some (JList messages) \<Rightarrow>
             (if messages = [] then [''empty_messages''] else []) @ first_basic_failure messages
         | _ \<Rightarrow> [''messages_not_list'']) @
        system_failures body @
        (case jget ''system'' body of
           Some (JList bs) \<Rightarrow> if list_all is_valid_content_block bs then [] else [''invalid_system_block'']
         | _ \<Rightarrow> []))"

subsection \<open>What an accepted body looks like\<close>

definition block_ok :: "string \<Rightarrow> json \<Rightarrow> bool" where
  "block_ok role b \<longleftrightarrow> is_dict b \<and>
     (let t = field_strip ''type'' b in
        t = ''text'' \<and> \<not> blank_text b \<or>
        t = ''tool_use'' \<and> role = ''assistant'' \<and> valid_tool_use_fields b \<or>
        t = ''tool_result'' \<and> role = ''user'' \<and> valid_tool_result_fields b \<or>
        t \<in> {''thinking'', ''redacted_thinking''} \<and> role = ''assistant'')"

definition message_ok :: "json \<Rightarrow> bool" where
  "message_ok m \<longleftrightarrow> msg_role m \<in> {''user'', ''assistant''} \<and>
     (case jget ''content'' m of
        Some (JStr s) \<Rightarrow> py_strip s \<noteq> []
      | Some (JList bs) \<Rightarrow> bs \<noteq> [] \<and> list_all (block_ok (msg_role m)) bs
      | _ \<Rightarrow> False)"

definition system_ok :: "json \<Rightarrow> bool" where
  "system_ok body = (case jget ''system'' body of None \<Rightarrow> True | Some s \<Rightarrow> s = JNull \<or> is_str s \<or> is_list s)"

definition conversation_ok :: "json list \<Rightarrow> bool" where
  "conversation_ok ms \<longleftrightarrow> ms \<noteq> [] \<and> msg_role (hd ms) = ''user'' \<and> list_all message_ok ms \<and> well_paired [] ms"

definition bridge_body_ok :: "(json \<Rightarrow> wire_error list) \<Rightarrow> json \<Rightarrow> bool" where
  "bridge_body_ok wire body \<longleftrightarrow>
     field_strip ''model'' body \<noteq> [] \<and> system_ok body \<and>
     (\<exists>ms. jget ''messages'' body = Some (JList ms) \<and> conversation_ok ms) \<and>
     validate_canonical_bridge_body_model wire body = []"

lemma validate_block_Nil_iff:
  "role = ''user'' \<or> role = ''assistant'' \<Longrightarrow> validate_block b role i j = [] \<longleftrightarrow> block_ok role b"
  by (auto simp: validate_block_def block_ok_def Let_def validate_tool_use_block_def
      validate_tool_result_block_def)

lemma validate_blocks_Nil_iff:
  "role = ''user'' \<or> role = ''assistant'' \<Longrightarrow> validate_blocks bs role i j = [] \<longleftrightarrow> list_all (block_ok role) bs"
  by (induction bs arbitrary: j) (simp_all add: validate_block_Nil_iff)

lemma validate_message_Nil_iff: "validate_message m i = [] \<longleftrightarrow> message_ok m"
proof (cases "is_dict m \<and> msg_role m \<in> {''user'', ''assistant''}")
  case True
  then show ?thesis
    using validate_blocks_Nil_iff [of "msg_role m"]
    by (auto simp: validate_message_def message_ok_def Let_def split: option.splits json.splits)
next
  case False
  then have "\<not> message_ok m" by (cases m) (auto simp: message_ok_def)
  with False show ?thesis by (auto simp: validate_message_def Let_def)
qed

lemma validate_messages_Nil_iff: "validate_messages ms i = [] \<longleftrightarrow> list_all message_ok ms"
  by (induction ms arbitrary: i) (simp_all add: validate_message_Nil_iff)

lemma risk_failures_Nil_iff:
  assumes "collect_bridge_tool_result_shape_risks ms = Inr r"
  shows "risk_failures r = [] \<longleftrightarrow> well_paired [] ms"
proof -
  have good: "good_risks r" by (rule collect_good [OF assms])
  have zero: "cget k r = 0" if "k \<notin> set REPORTED_RISKS" for k
  proof -
    have "map_of r k = None" using good that by (cases "map_of r k") (auto simp: good_risks_def)
    then show ?thesis by (simp add: cget_def)
  qed
  have "risk_failures r = [] \<longleftrightarrow> (\<forall>k \<in> set CHECKED_RISKS. cget k r = 0)"
    by (auto simp: risk_failures_def filter_empty_conv)
  also have "\<dots> \<longleftrightarrow> (\<forall>k. k \<noteq> ''thinking_between_tool_use'' \<longrightarrow> cget k r = 0)"
  proof
    assume all: "\<forall>k \<in> set CHECKED_RISKS. cget k r = 0"
    show "\<forall>k. k \<noteq> ''thinking_between_tool_use'' \<longrightarrow> cget k r = 0"
    proof (intro allI impI)
      fix k :: string
      assume k: "k \<noteq> ''thinking_between_tool_use''"
      show "cget k r = 0"
      proof (cases "k \<in> set REPORTED_RISKS")
        case True
        with k have "k \<in> set CHECKED_RISKS"
          by (auto simp: REPORTED_RISKS_def CHECKED_RISKS_def missing_next_def not_immediately_def)
        with all show ?thesis by blast
      qed (rule zero)
    qed
  next
    assume all: "\<forall>k. k \<noteq> ''thinking_between_tool_use'' \<longrightarrow> cget k r = 0"
    have "''thinking_between_tool_use'' \<notin> set CHECKED_RISKS" by (simp add: CHECKED_RISKS_def)
    with all show "\<forall>k \<in> set CHECKED_RISKS. cget k r = 0" by metis
  qed
  also have "\<dots> \<longleftrightarrow> clean r" by (simp add: good_clean_iff [OF good])
  finally show ?thesis by (simp add: collect_clean_iff [OF assms])
qed

lemma system_failures_Nil_iff: "system_failures body = [] \<longleftrightarrow> system_ok body"
  by (auto simp: system_failures_def system_ok_def split: option.splits json.splits)

lemma accepted_iff:
  assumes "validate_anthropic_bridge_body wire body = Inr failures"
  shows "failures = [] \<longleftrightarrow> bridge_body_ok wire body"
proof (cases "\<exists>m ms. is_dict body \<and> jget ''messages'' body = Some (JList (m # ms))")
  case True
  then obtain m ms where ms: "is_dict body" "jget ''messages'' body = Some (JList (m # ms))" by blast
  then obtain r where r: "collect_bridge_tool_result_shape_risks (m # ms) = Inr r"
    using assms by (auto simp: validate_anthropic_bridge_body_def Let_def elim!: bind_py_Inr_E)
  define all where "all = (if field_strip ''model'' body = [] then [''missing_model'', ''bridge_wire_model_invalid''] else []) @
     (if first_role (m # ms) \<noteq> ''user'' then [''first_message_not_user''] else []) @
     validate_messages (m # ms) 0 @ risk_failures r @ system_failures body"
  have "validate_anthropic_bridge_body wire body =
      Inr (remdups (if all = [] then validate_canonical_bridge_body_model wire body else all))"
    by (simp add: validate_anthropic_bridge_body_def Let_def all_def ms r)
  then have f: "failures = remdups (if all = [] then validate_canonical_bridge_body_model wire body else all)"
    using assms by simp
  have role: "first_role (m # ms) = ''user'' \<longleftrightarrow> msg_role m = ''user''" if "message_ok m"
    using that by (cases m) (auto simp: first_role_def message_ok_def)
  have "all = [] \<longleftrightarrow> field_strip ''model'' body \<noteq> [] \<and> system_ok body \<and> conversation_ok (m # ms)"
    using role
    by (auto simp: all_def validate_messages_Nil_iff risk_failures_Nil_iff [OF r] system_failures_Nil_iff
        conversation_ok_def simp del: well_paired.simps validate_messages.simps)
  then show ?thesis using ms(2) by (auto simp: f bridge_body_ok_def)
next
  case False
  then have "failures \<noteq> []"
    using assms by (auto simp: validate_anthropic_bridge_body_def Let_def split: option.splits json.splits list.splits if_splits)
  moreover have "\<not> bridge_body_ok wire body"
    using False by (auto simp: bridge_body_ok_def conversation_ok_def neq_Nil_conv dest: jget_SomeD)
  ultimately show ?thesis by blast
qed

lemma provider_failures_Nil: "provider_failures r = [] \<Longrightarrow> cget ''assistant_tool_use_text_interleaving'' r = 0"
  by (auto simp: provider_failures_def split: if_splits)

lemma max_tokens_Nil: "max_tokens_failures body = [] \<Longrightarrow> \<exists>n \<ge> 1. jget ''max_tokens'' body = Some (JInt n)"
  by (auto simp: max_tokens_failures_def split: option.splits json.splits if_splits)

subsection \<open>Properties\<close>

text \<open>
  C2: The strict validator accepts exactly the good bodies: whenever it returns, its failure list is empty if
  and only if the body has a nonblank model, a well-typed system prompt and a nonempty conversation
  that starts with a user message, consists of well-formed messages and obeys the pairing rule, and the
  wire model accepts it.
\<close>

theorem bridge_body_accepted_iff:
  assumes "validate_anthropic_bridge_body wire body = Inr failures"
  shows "(failures = []) = bridge_body_ok wire body"
  using accepted_iff [OF assms] .

lemma sample_body_validated: "validate_anthropic_bridge_body (\<lambda>_. []) (sample_body sample_canonical) = Inr []"
  by code_simp

theorem bridge_body_accepted_iff_witness:
  "(([] :: string list) = []) = bridge_body_ok (\<lambda>_. []) (sample_body sample_canonical)"
  by (rule bridge_body_accepted_iff [OF sample_body_validated])

text \<open>
  An accepted outgoing body is an accepted bridge body that also asks for at least one token and in which
  no assistant message has text after its first tool call.
\<close>

lemma outgoing_body_accepted:
  assumes "validate_anthropic_outgoing_bridge_body wire body = Inr []"
  shows "bridge_body_ok wire body \<and> (\<exists>n \<ge> 1. jget ''max_tokens'' body = Some (JInt n)) \<and>
    (\<exists>ms. jget ''messages'' body = Some (JList ms) \<and> filter interleaved_message ms = [])"
proof -
  obtain f where f: "validate_anthropic_bridge_body wire body = Inr f"
    using assms by (auto simp: validate_anthropic_outgoing_bridge_body_def elim!: bind_py_Inr_E)
  then have "f = []"
    using assms by (auto simp: validate_anthropic_outgoing_bridge_body_def split: if_splits)
  with f have ok: "bridge_body_ok wire body" using accepted_iff [OF f] by simp
  then obtain ms where ms: "jget ''messages'' body = Some (JList ms)" by (auto simp: bridge_body_ok_def)
  have nil: "provider_failures (collect_provider_sensitivity_risks LARGE_TOOL_BATCH_THRESHOLD ms) = []"
    "max_tokens_failures body = []"
    using assms f \<open>f = []\<close> ms by (auto simp: validate_anthropic_outgoing_bridge_body_def)
  have "int (length (filter interleaved_message ms)) = 0"
    using provider_failures_Nil [OF nil(1)] provider_from_interleaving [of LARGE_TOOL_BATCH_THRESHOLD ms "[]"]
    by (simp add: collect_provider_sensitivity_risks_def)
  with ok ms max_tokens_Nil [OF nil(2)] show ?thesis by simp
qed

lemma sample_outgoing: "validate_anthropic_outgoing_bridge_body (\<lambda>_. []) (sample_body sample_canonical) = Inr []"
  by code_simp

lemma outgoing_body_accepted_witness:
  "bridge_body_ok (\<lambda>_. []) (sample_body sample_canonical) \<and>
   (\<exists>n \<ge> 1. jget ''max_tokens'' (sample_body sample_canonical) = Some (JInt n)) \<and>
   (\<exists>ms. jget ''messages'' (sample_body sample_canonical) = Some (JList ms) \<and> filter interleaved_message ms = [])"
  by (rule outgoing_body_accepted [OF sample_outgoing])

end
