(* ===== verification/Quarantine.thy ===== *)
theory Quarantine
  imports BridgeValidation
begin

section \<open>Quarantine of broken tool exchanges\<close>

text \<open>
  Models \<open>quarantine_invalid_tool_history_messages\<close> and \<open>_assistant_user_tool_exchange_is_broken\<close>
  of \<open>src/tok/runtime/pipeline/request_validation.py\<close>. The loop over \<open>index\<close> is a recursion over the
  list that consumes one message, or the pair of an assistant message and its answer.
\<close>

definition message_content_without_block_type :: "json list \<Rightarrow> string \<Rightarrow> json list" where
  "message_content_without_block_type content t = filter (dict_without_type t) content"

definition assistant_user_tool_exchange_is_broken :: "json list \<Rightarrow> json list \<Rightarrow> bool" where
  "assistant_user_tool_exchange_is_broken assistant_content user_content =
     (let calls = filter (has_type ''tool_use'') assistant_content;
          answers = filter (has_type ''tool_result'') user_content
      in if calls = [] \<and> answers = [] then False
         else if list_ex (\<lambda>b. field_strip ''id'' b = [] \<or>
                   \<not> is_provider_safe_tool_id (py_str (jget_or ''id'' (JStr []) b)) \<or>
                   field_strip ''name'' b = [] \<or> \<not> is_dict (jget_or ''input'' (JObj []) b)) calls then True
         else if list_ex (\<lambda>b. field_strip ''tool_use_id'' b = [] \<or>
                   \<not> is_provider_safe_tool_id (py_str (jget_or ''tool_use_id'' (JStr []) b)) \<or>
                   \<not> (is_str (jget_or ''content'' (JStr []) b) \<or>
                      is_list (jget_or ''content'' (JStr []) b))) answers then True
         else
           let pending = map (field_strip ''id'') calls;
               (n, m, r) = process_user_tool_results user_content pending pending []
           in evaluate_pending_coverage pending n m r \<noteq> [])"

definition quarantine_signals :: "nat \<Rightarrow> nat option \<Rightarrow> counts \<Rightarrow> counts" where
  "quarantine_signals calls results signals =
     (let s = cadd ''tok_bridge_invalid_tool_history_quarantined'' 1 signals;
          s = cadd ''tok_bridge_quarantined_tool_use_blocks'' (int calls) s
      in case results of
           None \<Rightarrow> s
         | Some n \<Rightarrow> cadd ''tok_bridge_quarantined_tool_result_blocks'' (int n) s)"

definition count_type :: "string \<Rightarrow> json list \<Rightarrow> nat" where
  "count_type t content = length (filter (has_type t) content)"

definition calls_tools :: "json \<Rightarrow> bool" where
  "calls_tools m = (is_dict m \<and> msg_role m = ''assistant'' \<and> list_ex (has_type ''tool_use'') (blocks_of m))"

definition breaks_with :: "json \<Rightarrow> json \<Rightarrow> bool" where
  "breaks_with m n =
     (is_dict n \<and> msg_role n = ''user'' \<and> msg_content n \<noteq> None \<and>
      assistant_user_tool_exchange_is_broken (blocks_of m) (blocks_of n))"

text \<open>\<open>quarantine_alone\<close> is the tail of the loop body: the call is judged as if nothing answered it.\<close>

definition quarantine_alone :: "json \<Rightarrow> bool \<times> counts \<Rightarrow> json \<times> bool \<times> counts" where
  "quarantine_alone m st =
     (if assistant_user_tool_exchange_is_broken (blocks_of m) [] then
        (set_content (message_content_without_block_type (blocks_of m) ''tool_use'') m, True,
         quarantine_signals (count_type ''tool_use'' (blocks_of m)) None (snd st))
      else (m, st))"

fun quarantine_from :: "json list \<Rightarrow> bool \<times> counts \<Rightarrow> json list \<times> bool \<times> counts" where
  "quarantine_from [] st = ([], st)"
| "quarantine_from [m] st =
     (if \<not> calls_tools m then ([m], st) else let (m', st') = quarantine_alone m st in ([m'], st'))"
| "quarantine_from (m # n # ms) st =
     (if \<not> calls_tools m then let (rest, st') = quarantine_from (n # ms) st in (m # rest, st')
      else if breaks_with m n then
        let m' = set_content (message_content_without_block_type (blocks_of m) ''tool_use'') m;
            n' = set_content (message_content_without_block_type (blocks_of n) ''tool_result'') n;
            signals = quarantine_signals (count_type ''tool_use'' (blocks_of m))
                        (Some (count_type ''tool_result'' (blocks_of n))) (snd st);
            (rest, st') = quarantine_from ms (True, signals)
        in (m' # n' # rest, st')
      else
        let (m', st1) = quarantine_alone m st; (rest, st') = quarantine_from (n # ms) st1
        in (m' # rest, st'))"

definition quarantine_invalid_tool_history_messages :: "json list \<Rightarrow> json list \<times> bool \<times> counts" where
  "quarantine_invalid_tool_history_messages messages =
     (let (ms, changed, signals) = quarantine_from messages (False, [])
      in if \<not> changed then (ms, False, [])
         else
           let dicts = filter is_dict ms;
               filtered = filter (\<lambda>m. msg_content m \<noteq> Some []) dicts;
               dropped = length dicts - length filtered;
               signals = (if dropped \<noteq> 0
                          then dict_set ''tok_bridge_quarantined_empty_messages_dropped'' (int dropped) signals
                          else signals);
               signals = (if filtered = []
                          then dict_set ''tok_bridge_invalid_tool_history_quarantine_exhausted'' 1 signals
                          else signals)
           in (filtered, True, signals))"

subsection \<open>A call judged alone is always broken\<close>

lemma evaluate_missing: "pending \<noteq> [] \<Longrightarrow> evaluate_pending_coverage pending 0 m r \<noteq> []"
  by (simp add: evaluate_pending_coverage_def)

lemma unanswered_broken:
  assumes "list_ex (has_type ''tool_use'') content"
  shows "assistant_user_tool_exchange_is_broken content []"
proof -
  have "filter (has_type ''tool_use'') content \<noteq> []"
    using assms by (auto simp: list_ex_iff filter_empty_conv)
  then show ?thesis
    by (simp add: assistant_user_tool_exchange_is_broken_def Let_def process_user_tool_results_def
        scan_init_def evaluate_missing)
qed

lemma quarantine_alone_broken:
  assumes "calls_tools m"
  shows "quarantine_alone m st =
    (set_content (filter (dict_without_type ''tool_use'') (blocks_of m)) m, True,
     quarantine_signals (count_type ''tool_use'' (blocks_of m)) None (snd st))"
  using assms unanswered_broken
  by (simp add: quarantine_alone_def calls_tools_def message_content_without_block_type_def)

subsection \<open>What is kept and what is gone\<close>

definition plain_block :: "json \<Rightarrow> bool" where
  "plain_block b = (is_dict b \<and> \<not> has_type ''tool_use'' b \<and> \<not> has_type ''tool_result'' b)"

definition plain_blocks :: "json list \<Rightarrow> json list" where
  "plain_blocks ms = filter plain_block (all_blocks ms)"

lemma plain_blocks_simps [simp]:
  "plain_blocks [] = []"
  "plain_blocks (m # ms) = filter plain_block (blocks_of m) @ plain_blocks ms"
  by (simp_all add: plain_blocks_def)

lemma plain_without [simp]:
  "t = ''tool_use'' \<or> t = ''tool_result'' \<Longrightarrow>
     filter (\<lambda>b. dict_without_type t b \<and> plain_block b) bs = filter plain_block bs"
  by (auto simp: plain_block_def dict_without_type_def intro!: filter_cong)

lemma calls_tools_dict: "calls_tools m \<Longrightarrow> is_dict m"
  by (simp add: calls_tools_def)

lemma breaks_with_dict: "breaks_with m n \<Longrightarrow> is_dict n"
  by (simp add: breaks_with_def)

lemma quarantine_from_plain:
  "quarantine_from ms st = (ms', st') \<Longrightarrow> plain_blocks ms' = plain_blocks ms"
proof (induction ms st arbitrary: ms' st' rule: quarantine_from.induct)
  case (1 st)
  then show ?case by simp
next
  case (2 m st)
  then show ?case
    by (cases "calls_tools m") (auto simp: quarantine_alone_broken calls_tools_dict)
next
  case (3 m n ms st)
  show ?case
  proof (cases "calls_tools m")
    case False
    then obtain rest where "quarantine_from (n # ms) st = (rest, st')" "ms' = m # rest"
      using "3.prems" by (auto split: prod.splits)
    with "3.IH"(1) [OF _ this(1)] False show ?thesis by simp
  next
    case calls: True
    show ?thesis
    proof (cases "breaks_with m n")
      case True
      then obtain rest st1 where rest: "quarantine_from ms (True, st1) = (rest, st')"
        and ms': "ms' = set_content (message_content_without_block_type (blocks_of m) ''tool_use'') m #
           set_content (message_content_without_block_type (blocks_of n) ''tool_result'') n # rest"
        and st1: "st1 = quarantine_signals (count_type ''tool_use'' (blocks_of m))
                        (Some (count_type ''tool_result'' (blocks_of n))) (snd st)"
        using "3.prems" calls by (auto simp: Let_def split: prod.splits)
      have "plain_blocks rest = plain_blocks ms"
        using "3.IH"(2) calls True rest st1 by auto
      with ms' calls True show ?thesis
        by (simp add: message_content_without_block_type_def calls_tools_dict breaks_with_dict)
    next
      case False
      obtain rest where rest: "quarantine_from (n # ms) (True,
           quarantine_signals (count_type ''tool_use'' (blocks_of m)) None (snd st)) = (rest, st')"
        and ms': "ms' = set_content (filter (dict_without_type ''tool_use'') (blocks_of m)) m # rest"
        using "3.prems" calls False by (auto simp: quarantine_alone_broken split: prod.splits)
      have "plain_blocks rest = plain_blocks (n # ms)"
        using "3.IH"(3) calls False rest by (auto simp: quarantine_alone_broken)
      with ms' calls show ?thesis by (simp add: calls_tools_dict)
    qed
  qed
qed

lemma calls_tools_stripped: "\<not> calls_tools (set_content (filter (dict_without_type ''tool_use'') bs) m)"
  by (cases "is_dict m") (auto simp: calls_tools_def list_ex_iff dict_without_type_def)

lemma not_calls_tools_user: "msg_role n = ''user'' \<Longrightarrow> \<not> calls_tools n"
  by (simp add: calls_tools_def)

lemma quarantine_from_no_calls:
  "quarantine_from ms st = (ms', st') \<Longrightarrow> list_all (\<lambda>m. \<not> calls_tools m) ms'"
proof (induction ms st arbitrary: ms' st' rule: quarantine_from.induct)
  case (1 st)
  then show ?case by simp
next
  case (2 m st)
  then show ?case
    by (cases "calls_tools m") (auto simp: quarantine_alone_broken calls_tools_stripped)
next
  case (3 m n ms st)
  show ?case
  proof (cases "calls_tools m")
    case False
    then obtain rest where "quarantine_from (n # ms) st = (rest, st')" "ms' = m # rest"
      using "3.prems" by (auto split: prod.splits)
    with "3.IH"(1) [OF _ this(1)] False show ?thesis by simp
  next
    case calls: True
    show ?thesis
    proof (cases "breaks_with m n")
      case True
      then obtain rest st1 where rest: "quarantine_from ms (True, st1) = (rest, st')"
        and ms': "ms' = set_content (message_content_without_block_type (blocks_of m) ''tool_use'') m #
           set_content (message_content_without_block_type (blocks_of n) ''tool_result'') n # rest"
        and st1: "st1 = quarantine_signals (count_type ''tool_use'' (blocks_of m))
                        (Some (count_type ''tool_result'' (blocks_of n))) (snd st)"
        using "3.prems" calls by (auto simp: Let_def split: prod.splits)
      have "list_all (\<lambda>m. \<not> calls_tools m) rest"
        using "3.IH"(2) calls True rest st1 by auto
      moreover have "msg_role n = ''user''" using True by (simp add: breaks_with_def)
      ultimately show ?thesis
        using ms' by (simp add: message_content_without_block_type_def calls_tools_stripped not_calls_tools_user)
    next
      case False
      obtain rest where rest: "quarantine_from (n # ms) (True,
           quarantine_signals (count_type ''tool_use'' (blocks_of m)) None (snd st)) = (rest, st')"
        and ms': "ms' = set_content (filter (dict_without_type ''tool_use'') (blocks_of m)) m # rest"
        using "3.prems" calls False by (auto simp: quarantine_alone_broken split: prod.splits)
      have "list_all (\<lambda>m. \<not> calls_tools m) rest"
        using "3.IH"(3) calls False rest by (auto simp: quarantine_alone_broken)
      with ms' show ?thesis by (simp add: calls_tools_stripped)
    qed
  qed
qed

lemma plain_blocks_filter: "plain_blocks (filter (\<lambda>m. is_dict m \<and> msg_content m \<noteq> Some []) ms) = plain_blocks ms"
proof (induction ms)
  case (Cons m ms)
  have "blocks_of m = []" if "\<not> is_dict m" using that not_dict_no_content by (simp add: blocks_of_def)
  with Cons show ?case by (auto simp: blocks_of_def)
qed simp

subsection \<open>Properties\<close>

text \<open>
  Quarantine keeps every block that is neither a tool call nor a tool result, in order, and leaves no
  assistant message with a tool call.
\<close>

lemma quarantine_keeps_plain:
  assumes "quarantine_invalid_tool_history_messages ms = (ms', changed, signals)"
  shows "plain_blocks ms' = plain_blocks ms \<and> list_all (\<lambda>m. \<not> calls_tools m) ms'"
proof -
  obtain qs c s where q: "quarantine_from ms (False, []) = (qs, c, s)" by (metis prod_cases3)
  from quarantine_from_plain [OF q] quarantine_from_no_calls [OF q] assms q show ?thesis
    by (cases c) (auto simp: quarantine_invalid_tool_history_messages_def Let_def plain_blocks_filter list_all_iff)
qed

lemma quarantine_result:
  "quarantine_invalid_tool_history_messages sample_canonical =
     ([simple_message ''user'' [text_block ''read it''],
       simple_message ''assistant'' [sample_thinking],
       simple_message ''user'' [sample_result ''call_1'']],
      True,
      [(''tok_bridge_invalid_tool_history_quarantined'', 1), (''tok_bridge_quarantined_tool_use_blocks'', 1)])"
  by code_simp

lemma quarantine_keeps_plain_witness:
  "plain_blocks [simple_message ''user'' [text_block ''read it''], simple_message ''assistant'' [sample_thinking],
       simple_message ''user'' [sample_result ''call_1'']] = plain_blocks sample_canonical \<and>
   list_all (\<lambda>m. \<not> calls_tools m) [simple_message ''user'' [text_block ''read it''],
       simple_message ''assistant'' [sample_thinking], simple_message ''user'' [sample_result ''call_1'']]"
  by (rule quarantine_keeps_plain [OF quarantine_result])

lemma quarantine_from_changed_mono: "quarantine_from ms st = (ms', st') \<Longrightarrow> fst st \<Longrightarrow> fst st'"
proof (induction ms st arbitrary: ms' st' rule: quarantine_from.induct)
  case (3 m n ms st)
  consider "\<not> calls_tools m" | "calls_tools m" "breaks_with m n" | "calls_tools m" "\<not> breaks_with m n" by blast
  then show ?case
  proof cases
    case 1
    with 3 show ?thesis by (auto split: prod.splits)
  next
    case 2
    then obtain rest st1 where "quarantine_from ms (True, st1) = (rest, st')"
      and "st1 = quarantine_signals (count_type ''tool_use'' (blocks_of m))
                        (Some (count_type ''tool_result'' (blocks_of n))) (snd st)"
      using "3.prems" by (auto simp: Let_def split: prod.splits)
    with "3.IH"(2) 2 show ?thesis by auto
  next
    case alone: 3
    then obtain rest where "quarantine_from (n # ms) (True,
           quarantine_signals (count_type ''tool_use'' (blocks_of m)) None (snd st)) = (rest, st')"
      using "3.prems" by (auto simp: quarantine_alone_broken split: prod.splits)
    with "3.IH"(3) alone show ?thesis by (auto simp: quarantine_alone_broken)
  qed
qed (auto simp: quarantine_alone_broken split: if_splits prod.splits)

lemma quarantine_from_unchanged:
  "quarantine_from ms st = (ms', st') \<Longrightarrow> \<not> fst st' \<Longrightarrow> ms' = ms"
proof (induction ms st arbitrary: ms' st' rule: quarantine_from.induct)
  case (3 m n ms st)
  have "\<not> calls_tools m"
  proof
    assume calls: "calls_tools m"
    have "\<exists>xs acc rest. quarantine_from xs (True, acc) = (rest, st')"
      using "3.prems"(1) calls by (auto simp: Let_def quarantine_alone_broken split: if_splits prod.splits)
    then show False using quarantine_from_changed_mono "3.prems"(2) by fastforce
  qed
  with 3 show ?case by (auto split: prod.splits)
qed (auto simp: quarantine_alone_broken split: if_splits prod.splits)

lemma quarantine_changes_calls:
  assumes "list_ex calls_tools ms"
  shows "fst (snd (quarantine_invalid_tool_history_messages ms))"
proof -
  obtain ms' c s where q: "quarantine_from ms (False, []) = (ms', c, s)" by (metis prod_cases3)
  have "c"
  proof (rule ccontr)
    assume "\<not> c"
    then have "ms' = ms" using quarantine_from_unchanged [OF q] by simp
    with quarantine_from_no_calls [OF q] assms show False by (auto simp: list_all_iff list_ex_iff)
  qed
  with q show ?thesis by (simp add: quarantine_invalid_tool_history_messages_def Let_def)
qed

text \<open>
  Quarantine does not spare healthy exchanges: a conversation that the validator accepts, with one tool call
  answered by the next message, loses the call and keeps the now orphaned result, so that it is no longer
  well paired.
\<close>

lemma valid_history_quarantined:
  "conversation_ok sample_canonical \<and>
   fst (snd (quarantine_invalid_tool_history_messages sample_canonical)) \<and>
   \<not> well_paired [] (fst (quarantine_invalid_tool_history_messages sample_canonical))"
proof -
  have "conversation_ok sample_canonical" by code_simp
  moreover have "\<not> well_paired [] [simple_message ''user'' [text_block ''read it''],
      simple_message ''assistant'' [sample_thinking], simple_message ''user'' [sample_result ''call_1'']]"
    by code_simp
  moreover have "fst (snd (quarantine_invalid_tool_history_messages sample_canonical))"
    by (rule quarantine_changes_calls) code_simp
  ultimately show ?thesis by (simp add: quarantine_result)
qed

end
