(* ===== verification/PreflightRewrite.thy ===== *)
theory PreflightRewrite
  imports Quarantine
begin

section \<open>Recovery steps of the bridge preflight\<close>

text \<open>
  Models the recovery helpers of \<open>src/tok/gateway/_bridge_preflight.py\<close> (segments of interleaved
  tool calls and text, the rewrite that untangles them, the quarantine attempt, the repair summary,
  the counters of split messages) and the snapshot and restore of protected thinking content in
  \<open>src/tok/runtime/_request_preparation.py\<close>.
\<close>

subsection \<open>Segments\<close>

record segment =
  prefix_text :: "json list"
  tool_uses :: "json list"
  suffix_text :: "json list"

definition empty_segment :: segment where
  "empty_segment = \<lparr>prefix_text = [], tool_uses = [], suffix_text = []\<rparr>"

definition flush_segment :: "segment list \<Rightarrow> segment \<Rightarrow> segment list" where
  "flush_segment segments cur = (if tool_uses cur = [] then segments else segments @ [cur])"

fun segments_from :: "json list \<Rightarrow> segment list \<Rightarrow> segment \<Rightarrow> segment list py" where
  "segments_from [] segments cur = Inr (flush_segment segments cur)"
| "segments_from (b # bs) segments cur =
     (if \<not> is_dict b then segments_from bs segments cur
      else if has_type ''tool_use'' b then
        if tool_uses cur \<noteq> [] \<and> suffix_text cur \<noteq> []
        then segments_from bs (flush_segment segments cur) (empty_segment\<lparr>tool_uses := [b]\<rparr>)
        else segments_from bs segments (cur\<lparr>tool_uses := tool_uses cur @ [b]\<rparr>)
      else bind_py (in_str_set (jget_or ''type'' JNull b) [''text'', ''thinking'', ''redacted_thinking'']) (\<lambda>t.
        if \<not> t then segments_from bs segments cur
        else if tool_uses cur \<noteq> []
        then segments_from bs segments (cur\<lparr>suffix_text := suffix_text cur @ [b]\<rparr>)
        else segments_from bs segments (cur\<lparr>prefix_text := prefix_text cur @ [b]\<rparr>)))"

definition assistant_tool_use_text_segments :: "json list \<Rightarrow> segment list py" where
  "assistant_tool_use_text_segments content = segments_from content [] empty_segment"

definition segment_content :: "segment \<Rightarrow> json list" where
  "segment_content s = prefix_text s @ suffix_text s @ tool_uses s"

subsection \<open>The interleaving rewrite\<close>

datatype plan = Keep | KeepMismatch | Reorder "json list" | Split "segment list" "json list"

definition plan_message :: "json \<Rightarrow> json option \<Rightarrow> plan py" where
  "plan_message message next_message =
     (if \<not> is_dict message \<or> msg_role message \<noteq> ''assistant'' then Inr Keep
      else case msg_content message of
        None \<Rightarrow> Inr Keep
      | Some content \<Rightarrow>
          bind_py (assistant_tool_use_text_segments content) (\<lambda>segments.
            if length segments = 1 \<and> suffix_text (hd segments) \<noteq> []
            then Inr (Reorder (segment_content (hd segments)))
            else if length segments \<le> 1 then Inr Keep
            else case next_message of
              None \<Rightarrow> Inr Keep
            | Some n \<Rightarrow>
                if \<not> (is_dict n \<and> msg_role n = ''user'' \<and> msg_content n \<noteq> None) then Inr Keep
                else
                  let results = filter is_tool_result_block (blocks_of n);
                      calls = concat (map tool_uses segments)
                  in if length results \<noteq> length calls then Inr Keep
                     else if length results \<noteq> length (blocks_of n) then Inr Keep
                     else if map (field_strip ''id'') calls \<noteq> map (field_strip ''tool_use_id'') results
                     then Inr KeepMismatch
                     else Inr (Split segments results)))"

fun split_exchange :: "json \<Rightarrow> json \<Rightarrow> segment list \<Rightarrow> json list \<Rightarrow> json list" where
  "split_exchange m n [] results = []"
| "split_exchange m n (s # ss) results =
     (let k = length (tool_uses s) in
      set_content (segment_content s) m #
      (if k \<noteq> 0 then [set_content (take k results) n] else []) @
      split_exchange m n ss (drop k results))"

type_synonym rewrite_acc = "bool \<times> counts"

definition plan_signals :: "plan \<Rightarrow> rewrite_acc \<Rightarrow> rewrite_acc" where
  "plan_signals p acc =
     (case p of
        Keep \<Rightarrow> acc
      | KeepMismatch \<Rightarrow> (fst acc, cadd ''tok_bridge_large_file_read_burst_rewrite_skipped_id_mismatch'' 1 (snd acc))
      | Reorder _ \<Rightarrow> (True, cadd ''tok_bridge_tool_use_suffix_text_reordered'' 1 (snd acc))
      | Split _ _ \<Rightarrow> (True, cadd ''tok_bridge_large_file_read_burst_rewritten'' 1 (snd acc)))"

fun plan_alone :: "plan \<Rightarrow> json \<Rightarrow> json" where
  "plan_alone (Reorder content) m = set_content content m"
| "plan_alone _ m = m"

fun rewrite_messages :: "json list \<Rightarrow> rewrite_acc \<Rightarrow> (json list \<times> rewrite_acc) py" where
  "rewrite_messages [] acc = Inr ([], acc)"
| "rewrite_messages [m] acc =
     bind_py (plan_message m None) (\<lambda>p. Inr ([plan_alone p m], plan_signals p acc))"
| "rewrite_messages (m # n # ms) acc =
     bind_py (plan_message m (Some n)) (\<lambda>p.
       case p of
         Split segments results \<Rightarrow>
           bind_py (rewrite_messages ms (plan_signals p acc)) (\<lambda>(rest, acc').
             Inr (split_exchange m n segments results @ rest, acc'))
       | _ \<Rightarrow>
           bind_py (rewrite_messages (n # ms) (plan_signals p acc)) (\<lambda>(rest, acc').
             Inr (plan_alone p m # rest, acc')))"

definition rewrite_provider_sensitive_large_tool_use_text_interleaving ::
    "json \<Rightarrow> (json \<times> bool \<times> counts) py" where
  "rewrite_provider_sensitive_large_tool_use_text_interleaving body =
     (case jget ''messages'' body of
        Some (JList messages) \<Rightarrow>
          bind_py (rewrite_messages messages (False, [])) (\<lambda>(rewritten, changed, signals).
            Inr (jset ''messages'' (JList rewritten) body, changed, signals))
      | _ \<Rightarrow> Inr (body, False, []))"

subsection \<open>Quarantine attempt, summaries and counters\<close>

definition attempt_quarantine_invalid_tool_history ::
    "(json \<Rightarrow> wire_error list) \<Rightarrow> json \<Rightarrow> (json \<times> bool \<times> counts \<times> string list) py" where
  "attempt_quarantine_invalid_tool_history wire body =
     (case jget ''messages'' body of
        Some (JList messages) \<Rightarrow>
          (let (quarantined, changed, signals) = quarantine_invalid_tool_history_messages messages in
           if \<not> changed then
             bind_py (validate_anthropic_bridge_body wire body) (\<lambda>f. Inr (body, False, signals, f))
           else
             let quarantined_body = jset ''messages'' (JList quarantined) body
             in bind_py (validate_anthropic_bridge_body wire quarantined_body) (\<lambda>f.
                  Inr (quarantined_body, f = [], signals, f)))
      | _ \<Rightarrow> bind_py (validate_anthropic_bridge_body wire body) (\<lambda>f. Inr (body, False, [], f)))"

definition any_signal :: "string list \<Rightarrow> counts \<Rightarrow> bool" where
  "any_signal keys signals = list_ex (\<lambda>k. cget k signals \<noteq> 0) keys"

definition tool_history_repair_summary :: "counts \<Rightarrow> bool \<times> bool \<times> bool" where
  "tool_history_repair_summary signals =
     (let repaired_ids = any_signal [''tok_bridge_tool_id_sanitized'', ''tok_bridge_blank_tool_id_synthesized'',
                           ''tok_bridge_tool_id_deduped''] signals;
          serious = any_signal [''tok_bridge_tool_result_pairing_repaired'', ''tok_bridge_tool_result_id_rewritten'',
                      ''tok_bridge_tool_result_rewrite_complete'', ''tok_bridge_user_tool_result_text_split''] signals;
          order_count = cget ''tok_bridge_tool_result_order_repaired'' signals;
          pairing_count = cget ''tok_bridge_tool_result_pairing_repaired'' signals;
          serious_signals = any_signal [''tok_bridge_tool_result_id_rewritten'',
              ''tok_bridge_tool_result_rewrite_complete'', ''tok_bridge_tool_result_rewrite_incomplete'',
              ''tok_bridge_tool_result_pairing_unrepaired'', ''tok_bridge_tool_result_pairing_ambiguous'',
              ''tok_bridge_user_tool_result_text_split''] signals;
          order_only = (0 < order_count \<and> \<not> serious_signals \<and> pairing_count \<le> order_count)
      in (repaired_ids, if order_only then order_count < pairing_count else serious, order_only))"

definition has_result :: "json list \<Rightarrow> bool" where
  "has_result content = list_ex is_tool_result_block content"

definition has_non_result :: "json list \<Rightarrow> bool" where
  "has_non_result content = list_ex (dict_without_type ''tool_result'') content"

definition user_list_message :: "json \<Rightarrow> bool" where
  "user_list_message m = (is_dict m \<and> msg_role m = ''user'' \<and> msg_content m \<noteq> None)"

definition count_user_messages_with_mixed_tool_result_content :: "json list \<Rightarrow> nat" where
  "count_user_messages_with_mixed_tool_result_content messages =
     length (filter (\<lambda>m. user_list_message m \<and> has_result (blocks_of m) \<and> has_non_result (blocks_of m)) messages)"

fun count_user_tool_result_split_boundaries :: "json list \<Rightarrow> nat" where
  "count_user_tool_result_split_boundaries (m # n # ms) =
     (if user_list_message m \<and> user_list_message n \<and> has_result (blocks_of m) \<and>
         \<not> has_non_result (blocks_of m) \<and> \<not> has_result (blocks_of n) then 1 else 0) +
     count_user_tool_result_split_boundaries (n # ms)"
| "count_user_tool_result_split_boundaries _ = 0"

definition preflight_event_name :: "string \<Rightarrow> string \<Rightarrow> string" where
  "preflight_event_name base_event url_path =
     (if url_path = ''v1/messages/count_tokens'' then base_event @ ''_count_tokens'' else base_event)"

subsection \<open>Snapshot and restore of protected content\<close>

text \<open>
  The snapshot travels as JSON text. Printing and parsing a JSON value gives the value back, so the model
  keeps the structure. \<open>digest\<close> is the SHA-256 of the sorted JSON text of a content list.
\<close>

record thinking_snapshot =
  full_content :: "json list"
  snapshot_hash :: string
  block_types :: "json list"

definition raw_assistant_list :: "json \<Rightarrow> bool" where
  "raw_assistant_list m = (is_dict m \<and> raw_role_is ''assistant'' m \<and> msg_content m \<noteq> None)"

definition take_snapshot :: "(json list \<Rightarrow> string) \<Rightarrow> json list \<Rightarrow> thinking_snapshot" where
  "take_snapshot digest content = \<lparr>full_content = content, snapshot_hash = digest content,
     block_types = map (jget_or ''type'' JNull) (filter is_dict content)\<rparr>"

definition snapshot_latest_assistant_thinking ::
    "(json list \<Rightarrow> string) \<Rightarrow> json list \<Rightarrow> thinking_snapshot option" where
  "snapshot_latest_assistant_thinking digest messages =
     (case List.find raw_assistant_list (rev messages) of
        None \<Rightarrow> None
      | Some m \<Rightarrow> if filter is_opaque_provider_block (blocks_of m) = [] then None
                 else Some (take_snapshot digest (blocks_of m)))"

text \<open>The restore walks backwards; \<open>restore_back\<close> gets the reversed list and returns it reversed.\<close>

fun restore_back :: "json list \<Rightarrow> json list \<Rightarrow> (json list \<times> bool) py" where
  "restore_back content [] = Inr ([], False)"
| "restore_back content (m # ms) =
     (if \<not> is_dict m then Inl AttributeError
      else if raw_assistant_list m \<and> content_has_opaque_provider_blocks (JList (blocks_of m))
      then Inr (set_content content m # ms, True)
      else bind_py (restore_back content ms) (\<lambda>(ms', found). Inr (m # ms', found)))"

definition restore_latest_assistant_thinking ::
    "(json list \<Rightarrow> string) \<Rightarrow> json list \<Rightarrow> thinking_snapshot option \<Rightarrow> (json list \<times> bool) py" where
  "restore_latest_assistant_thinking digest messages snapshot =
     (case snapshot of
        None \<Rightarrow> Inr (messages, False)
      | Some s \<Rightarrow>
          if full_content s = [] \<or> snapshot_hash s = [] \<or> block_types s = [] then Inr (messages, False)
          else bind_py (restore_back (full_content s) (rev messages)) (\<lambda>(back, found).
            Inr (rev back, found \<and> digest (full_content s) = snapshot_hash s)))"

subsection \<open>The rewrite keeps calls paired\<close>

definition no_call :: "json list \<Rightarrow> bool" where
  "no_call bs = list_all (\<lambda>b. \<not> has_type ''tool_use'' b) bs"

definition segment_ok :: "segment \<Rightarrow> bool" where
  "segment_ok s \<longleftrightarrow> no_call (prefix_text s) \<and> no_call (suffix_text s) \<and> list_all (has_type ''tool_use'') (tool_uses s)"

lemma segments_from_spec:
  "segments_from bs segments cur = Inr out \<Longrightarrow> segment_ok cur \<Longrightarrow> list_all segment_ok segments \<Longrightarrow>
     list_all segment_ok out \<and>
     concat (map tool_uses out) =
       concat (map tool_uses segments) @ tool_uses cur @ filter (has_type ''tool_use'') bs"
proof (induction bs arbitrary: segments cur)
  case Nil
  then show ?case by (auto simp: flush_segment_def)
next
  case (Cons b bs)
  show ?case
  proof (cases "has_type ''tool_use'' b")
    case call: True
    then have d: "is_dict b" by (rule has_type_is_dict)
    show ?thesis
    proof (cases "tool_uses cur \<noteq> [] \<and> suffix_text cur \<noteq> []")
      case True
      then have run: "segments_from bs (segments @ [cur]) (empty_segment\<lparr>tool_uses := [b]\<rparr>) = Inr out"
        using Cons.prems(1) call d by (simp add: flush_segment_def)
      have "segment_ok (empty_segment\<lparr>tool_uses := [b]\<rparr>)"
        using call by (simp add: segment_ok_def empty_segment_def no_call_def)
      with Cons.IH [OF run] Cons.prems(2,3) call show ?thesis by simp
    next
      case False
      then have run: "segments_from bs segments (cur\<lparr>tool_uses := tool_uses cur @ [b]\<rparr>) = Inr out"
        using Cons.prems(1) call d by auto
      have "segment_ok (cur\<lparr>tool_uses := tool_uses cur @ [b]\<rparr>)"
        using Cons.prems(2) call by (simp add: segment_ok_def)
      with Cons.IH [OF run] Cons.prems(3) call show ?thesis by simp
    qed
  next
    case no: False
    then have ok: "segment_ok (cur\<lparr>suffix_text := suffix_text cur @ [b]\<rparr>)"
      "segment_ok (cur\<lparr>prefix_text := prefix_text cur @ [b]\<rparr>)"
      using Cons.prems(2) by (simp_all add: segment_ok_def no_call_def)
    have "segments_from bs segments cur = Inr out \<or>
        segments_from bs segments (cur\<lparr>suffix_text := suffix_text cur @ [b]\<rparr>) = Inr out \<or>
        segments_from bs segments (cur\<lparr>prefix_text := prefix_text cur @ [b]\<rparr>) = Inr out"
      using Cons.prems(1) no by (auto split: if_splits elim!: bind_py_Inr_E)
    then show ?thesis
      using Cons.IH [of segments cur] Cons.IH [of segments "cur\<lparr>suffix_text := suffix_text cur @ [b]\<rparr>"]
        Cons.IH [of segments "cur\<lparr>prefix_text := prefix_text cur @ [b]\<rparr>"] Cons.prems(2,3) ok no
      by auto
  qed
qed

lemma segments_spec:
  assumes "assistant_tool_use_text_segments content = Inr segments"
  shows "list_all segment_ok segments \<and> concat (map tool_uses segments) = filter (has_type ''tool_use'') content"
  using segments_from_spec [OF assms [unfolded assistant_tool_use_text_segments_def]]
  by (simp add: segment_ok_def empty_segment_def no_call_def)

lemma filter_segment_content:
  "segment_ok s \<Longrightarrow> filter (has_type ''tool_use'') (segment_content s) = tool_uses s"
  by (simp add: segment_ok_def segment_content_def no_call_def list_all_iff)

lemma call_ids_eq:
  "call_ids m = filter (\<lambda>i. i \<noteq> []) (map (field_strip ''id'') (filter (has_type ''tool_use'') (blocks_of m)))"
  by (simp add: call_ids_def process_assistant_tool_ids_def Let_def)

lemma result_part: "is_tool_result_block b \<Longrightarrow> part_of b = Some (Result (field_strip ''tool_use_id'' b))"
proof -
  assume "is_tool_result_block b"
  then have t: "has_type ''tool_result'' b" by (simp add: is_tool_result_has_type)
  moreover have "py_strip ''tool_result'' = ''tool_result''" by (auto intro!: py_strip_id simp: py_space_def)
  ultimately have "field_strip ''type'' b = ''tool_result''"
    by (simp add: field_strip_def has_type_def jget_or_def)
  with has_type_is_dict [OF t] show ?thesis by (simp add: part_of_def)
qed

lemma results_parts:
  "list_all is_tool_result_block bs \<Longrightarrow> user_parts bs = map (\<lambda>b. Result (field_strip ''tool_use_id'' b)) bs"
  by (induction bs) (simp_all add: user_parts_def map_filter_simps result_part)

lemma answers_results: "answers (filter (\<lambda>i. i \<noteq> []) ids) (map Result ids)"
proof -
  have "takeWhile (\<lambda>x. \<not> is_result x) (map Result ids) = []" by (cases ids) simp_all
  moreover have "dropWhile (\<lambda>x. \<not> is_result x) (map Result ids) = map Result ids" by (cases ids) simp_all
  ultimately show ?thesis by (simp add: answers_def Let_def answered_ids_def comp_def list_all_iff)
qed

lemma well_paired_exchange:
  assumes "msg_role m = ''assistant''" "is_dict m" "msg_role n = ''user''" "msg_content n = Some results"
    and "list_all is_tool_result_block results"
    and "map (field_strip ''id'') (filter (has_type ''tool_use'') (blocks_of m)) =
      map (field_strip ''tool_use_id'') results"
  shows "well_paired [] (m # n # ms) \<longleftrightarrow> well_paired [] ms"
proof -
  have "user_parts results = map Result (map (field_strip ''tool_use_id'') results)"
    using results_parts [OF assms(5)] by (simp add: comp_def)
  then have "answers (call_ids m) (user_parts results)"
    using answers_results [of "map (field_strip ''tool_use_id'') results"] assms(6) by (simp add: call_ids_eq)
  with assms show ?thesis by (simp add: blocks_of_def)
qed

lemma split_exchange_paired:
  assumes "msg_role m = ''assistant''" "is_dict m" "msg_role n = ''user''" "is_dict n"
  shows "list_all segment_ok segs \<Longrightarrow> list_all is_tool_result_block results \<Longrightarrow>
     map (field_strip ''id'') (concat (map tool_uses segs)) = map (field_strip ''tool_use_id'') results \<Longrightarrow>
     list_all (\<lambda>s. tool_uses s \<noteq> []) segs \<Longrightarrow>
     well_paired [] (split_exchange m n segs results @ ms) \<longleftrightarrow> well_paired [] ms"
proof (induction segs arbitrary: results)
  case Nil
  then show ?case by simp
next
  case (Cons s segs)
  let ?k = "length (tool_uses s)"
  let ?m = "set_content (segment_content s) m" and ?n = "set_content (take ?k results) n"
  have k: "?k \<noteq> 0" using Cons.prems(4) by simp
  have ids: "map (field_strip ''id'') (tool_uses s) @ map (field_strip ''id'') (concat (map tool_uses segs)) =
      map (field_strip ''tool_use_id'') results" using Cons.prems(3) by simp
  have here: "map (field_strip ''id'') (tool_uses s) = map (field_strip ''tool_use_id'') (take ?k results)"
    using arg_cong [OF ids, of "take ?k"] by (simp add: take_map)
  have there: "map (field_strip ''id'') (concat (map tool_uses segs)) = map (field_strip ''tool_use_id'') (drop ?k results)"
    using arg_cong [OF ids, of "drop ?k"] by (simp add: drop_map)
  have all: "list_all is_tool_result_block (take ?k results)" "list_all is_tool_result_block (drop ?k results)"
    using Cons.prems(2) by (auto simp: list_all_iff dest: in_set_takeD in_set_dropD)
  have "well_paired [] (?m # ?n # split_exchange m n segs (drop ?k results) @ ms) \<longleftrightarrow>
      well_paired [] (split_exchange m n segs (drop ?k results) @ ms)"
    by (rule well_paired_exchange) (use assms all(1) here Cons.prems(1) filter_segment_content in \<open>simp_all add: filter_segment_content\<close>)
  also have "\<dots> \<longleftrightarrow> well_paired [] ms"
    by (rule Cons.IH) (use Cons.prems all(2) there in simp_all)
  finally show ?case using k by (simp add: Let_def del: well_paired.simps)
qed

lemma segments_from_nonempty:
  "segments_from bs segments cur = Inr out \<Longrightarrow> list_all (\<lambda>s. tool_uses s \<noteq> []) segments \<Longrightarrow>
     list_all (\<lambda>s. tool_uses s \<noteq> []) out"
proof (induction bs arbitrary: segments cur)
  case Nil
  then show ?case by (auto simp: flush_segment_def)
next
  case (Cons b bs)
  have "list_all (\<lambda>s. tool_uses s \<noteq> []) (flush_segment segments cur)"
    using Cons.prems(2) by (simp add: flush_segment_def)
  with Cons show ?case by (auto split: if_splits elim!: bind_py_Inr_E)
qed

lemma plan_cases:
  assumes "plan_message m next_message = Inr p"
  shows "case p of
      Reorder content \<Rightarrow> is_dict m \<and> msg_role m = ''assistant'' \<and>
        filter (has_type ''tool_use'') content = filter (has_type ''tool_use'') (blocks_of m)
    | Split segs results \<Rightarrow> (\<exists>n. next_message = Some n \<and> is_dict m \<and> msg_role m = ''assistant'' \<and>
        is_dict n \<and> msg_role n = ''user'' \<and> msg_content n = Some results \<and>
        list_all is_tool_result_block results \<and> list_all segment_ok segs \<and>
        list_all (\<lambda>s. tool_uses s \<noteq> []) segs \<and> segs \<noteq> [] \<and>
        concat (map tool_uses segs) = filter (has_type ''tool_use'') (blocks_of m) \<and>
        map (field_strip ''id'') (concat (map tool_uses segs)) = map (field_strip ''tool_use_id'') results)
    | _ \<Rightarrow> True"
proof (cases "is_dict m \<and> msg_role m = ''assistant'' \<and> msg_content m \<noteq> None")
  case False
  with assms have "p = Keep" by (auto simp: plan_message_def split: option.splits if_splits)
  then show ?thesis by simp
next
  case True
  then obtain content segs where content: "msg_content m = Some content"
    and segs: "assistant_tool_use_text_segments content = Inr segs"
    using assms by (auto simp: plan_message_def elim!: bind_py_Inr_E)
  note spec = segments_spec [OF segs]
  have nonempty: "list_all (\<lambda>s. tool_uses s \<noteq> []) segs"
    using segments_from_nonempty [OF segs [unfolded assistant_tool_use_text_segments_def]] by simp
  have blocks: "blocks_of m = content" using content by (simp add: blocks_of_def)
  show ?thesis
  proof (cases "length segs = 1 \<and> suffix_text (hd segs) \<noteq> []")
    case one: True
    then obtain s where "segs = [s]" by (auto simp: length_Suc_conv)
    with one True content segs assms spec filter_segment_content [of s] blocks show ?thesis
      by (auto simp: plan_message_def)
  next
    case False
    show ?thesis
    proof (cases "\<exists>segs' results. p = Split segs' results")
      case split: True
      then obtain segs' results n where p: "p = Split segs' results" and n: "next_message = Some n"
        using assms True content segs False by (auto simp: plan_message_def split: if_splits option.splits)
      have n_user: "is_dict n" "msg_role n = ''user''" "msg_content n \<noteq> None"
        and eqs: "segs' = segs" "results = filter is_tool_result_block (blocks_of n)"
          "length results = length (blocks_of n)"
          "map (field_strip ''id'') (concat (map tool_uses segs)) = map (field_strip ''tool_use_id'') results"
          "segs \<noteq> []"
        using assms True content segs False p n
        by (auto simp: plan_message_def Let_def split: if_splits)
      have "filter is_tool_result_block (blocks_of n) = blocks_of n"
        using eqs(2,3) by (metis filter_id_conv length_filter_less less_irrefl)
      then have "list_all is_tool_result_block results" "msg_content n = Some results"
        using n_user(3) eqs(2) by (auto simp: list_all_iff filter_id_conv blocks_of_def)
      with p n n_user eqs spec nonempty True blocks show ?thesis by simp
    next
      case False
      with assms True content segs \<open>\<not> (length segs = 1 \<and> _)\<close> show ?thesis
        by (cases p) (auto simp: plan_message_def Let_def split: if_splits option.splits)
    qed
  qed
qed

lemma plan_alone_step:
  assumes "plan_message m next_message = Inr p" and "\<And>s r. p \<noteq> Split s r"
  shows "step_rule pending (plan_alone p m) = step_rule pending m \<and> step_pending (plan_alone p m) = step_pending m"
proof (cases p)
  case (Reorder content)
  with plan_cases [OF assms(1)] show ?thesis
    by (simp add: step_rule_def step_pending_def call_ids_eq)
qed (use assms(2) in auto)

lemma rewrite_messages_paired:
  "rewrite_messages ms acc = Inr (ms', acc') \<Longrightarrow> well_paired pending ms' \<longleftrightarrow> well_paired pending ms"
proof (induction ms acc arbitrary: pending ms' acc' rule: rewrite_messages.induct)
  case (1 acc)
  then show ?case by simp
next
  case (2 m acc)
  then obtain p where p: "plan_message m None = Inr p" "ms' = [plan_alone p m]"
    by (auto elim!: bind_py_Inr_E)
  have "p \<noteq> Split s r" for s r using plan_cases [OF p(1)] by auto
  with plan_alone_step [OF p(1)] p(2) show ?case by (simp add: well_paired_Cons del: well_paired.simps)
next
  case (3 m n ms acc)
  then obtain p where p: "plan_message m (Some n) = Inr p" by (auto elim!: bind_py_Inr_E)
  show ?case
  proof (cases "\<exists>s r. p = Split s r")
    case True
    then obtain segs results where split: "p = Split segs results" by blast
    obtain rest where rest: "rewrite_messages ms (plan_signals p acc) = Inr (rest, acc')"
      and ms': "ms' = split_exchange m n segs results @ rest"
      using "3.prems" p split by (auto elim!: bind_py_Inr_E)
    have fact: "is_dict m" "msg_role m = ''assistant''" "is_dict n" "msg_role n = ''user''"
        "msg_content n = Some results" "list_all is_tool_result_block results" "list_all segment_ok segs"
        "list_all (\<lambda>s. tool_uses s \<noteq> []) segs" "segs \<noteq> []"
        "concat (map tool_uses segs) = filter (has_type ''tool_use'') (blocks_of m)"
        "map (field_strip ''id'') (concat (map tool_uses segs)) = map (field_strip ''tool_use_id'') results"
      using plan_cases [OF p] split by auto
    have IH: "well_paired [] rest \<longleftrightarrow> well_paired [] ms"
      using "3.IH"(4) [OF split rest] .
    have first: "well_paired [] (m # n # ms) \<longleftrightarrow> well_paired [] ms"
      by (rule well_paired_exchange) (use fact in simp_all)
    have second: "well_paired [] ms' \<longleftrightarrow> well_paired [] rest"
      unfolding ms' by (rule split_exchange_paired) (use fact in simp_all)
    have pend: "well_paired pending (m # n # ms) \<longleftrightarrow> pending = [] \<and> well_paired [] (m # n # ms)"
      using fact by (auto simp: well_paired_Cons step_rule_def simp del: well_paired.simps)
    obtain s ss where segs: "segs = s # ss" using fact(9) by (cases segs) auto
    have "well_paired pending ms' \<longleftrightarrow> pending = [] \<and> well_paired [] ms'"
      using fact by (auto simp: segs ms' Let_def well_paired_Cons step_rule_def simp del: well_paired.simps)
    with pend first second IH show ?thesis by blast
  next
    case False
    then obtain rest where rest: "rewrite_messages (n # ms) (plan_signals p acc) = Inr (rest, acc')"
      and ms': "ms' = plan_alone p m # rest"
      using "3.prems" p by (cases p) (auto elim!: bind_py_Inr_E)
    have "well_paired q rest \<longleftrightarrow> well_paired q (n # ms)" for q
      using "3.IH"(1) [OF _ rest] "3.IH"(2) [OF _ rest] "3.IH"(3) [OF _ rest] False by (cases p) auto
    with plan_alone_step [OF p] False show ?thesis
      by (simp add: ms' well_paired_Cons [of _ m] well_paired_Cons [of _ "plan_alone p m"] del: well_paired.simps)
  qed
qed

subsection \<open>Restoring a snapshot\<close>

definition protected_assistant :: "json \<Rightarrow> bool" where
  "protected_assistant m = (raw_assistant_list m \<and> content_has_opaque_provider_blocks (JList (blocks_of m)))"

lemma restore_back_split:
  "list_all is_dict (pre @ m # post) \<Longrightarrow> protected_assistant m \<Longrightarrow> list_all (\<lambda>x. \<not> protected_assistant x) pre \<Longrightarrow>
     restore_back content (pre @ m # post) = Inr (pre @ set_content content m # post, True)"
  by (induction pre) (auto simp: protected_assistant_def)

lemma snapshot_Some:
  assumes "snapshot_latest_assistant_thinking digest orig = Some s"
  shows "full_content s \<noteq> [] \<and> block_types s \<noteq> [] \<and> snapshot_hash s = digest (full_content s) \<and>
    (\<exists>m \<in> set orig. protected_assistant m \<and> full_content s = blocks_of m)"
proof -
  obtain m where m: "List.find raw_assistant_list (rev orig) = Some m"
      "filter is_opaque_provider_block (blocks_of m) \<noteq> []" "s = take_snapshot digest (blocks_of m)"
    using assms by (auto simp: snapshot_latest_assistant_thinking_def split: option.splits if_splits)
  obtain b where b: "b \<in> set (blocks_of m)" "is_opaque_provider_block b"
    using m(2) by (auto simp: filter_empty_conv)
  then have "is_dict b" by (auto simp: is_opaque_provider_block_def split: if_splits)
  with b(1) have "filter is_dict (blocks_of m) \<noteq> []" by (auto simp: filter_empty_conv)
  moreover have "m \<in> set orig" "raw_assistant_list m"
    using m(1) by (auto simp: find_Some_iff rev_nth)
  moreover have "content_has_opaque_provider_blocks (JList (blocks_of m))"
    using b by (auto simp: content_has_opaque_provider_blocks_def list_ex_iff)
  ultimately show ?thesis using m(3) b(1) by (auto simp: take_snapshot_def protected_assistant_def)
qed

subsection \<open>Properties\<close>

text \<open>
  C31: The rewrite that untangles tool calls from text keeps the pairing of calls and results: the
  rewritten conversation obeys the pairing rule if and only if the given one does, whichever plan the
  code chooses for each message.
\<close>

theorem interleaving_rewrite_pairing:
  assumes "rewrite_messages ms acc = Inr (ms', acc')"
  shows "well_paired [] ms' = well_paired [] ms"
  using rewrite_messages_paired [OF assms] .

definition interleaved_conversation :: "json list" where
  "interleaved_conversation =
    [simple_message ''user'' [text_block ''go''],
     simple_message ''assistant'' [sample_call ''a'', text_block ''then'', sample_call ''b''],
     simple_message ''user'' [sample_result ''a'', sample_result ''b'']]"

definition untangled_conversation :: "json list" where
  "untangled_conversation =
    [simple_message ''user'' [text_block ''go''],
     simple_message ''assistant'' [text_block ''then'', sample_call ''a''],
     simple_message ''user'' [sample_result ''a''],
     simple_message ''assistant'' [sample_call ''b''],
     simple_message ''user'' [sample_result ''b'']]"

lemma untangled:
  "rewrite_messages interleaved_conversation (False, []) =
     Inr (untangled_conversation, True, [(''tok_bridge_large_file_read_burst_rewritten'', 1)])"
  by code_simp

theorem interleaving_rewrite_pairing_witness:
  "well_paired [] untangled_conversation = well_paired [] interleaved_conversation \<and>
   well_paired [] untangled_conversation"
proof -
  have "well_paired [] untangled_conversation" by code_simp
  with interleaving_rewrite_pairing [OF untangled] show ?thesis by blast
qed

text \<open>
  Restoring a snapshot is exact: if the conversation has a protected assistant message, the content of the
  latest one becomes the content the snapshot was taken of, no other message changes, and the restore
  reports success.
\<close>

lemma restore_exact:
  assumes "snapshot_latest_assistant_thinking digest orig = Some s" and "digest (full_content s) \<noteq> []"
    and "list_all is_dict (pre @ m # post)" and "protected_assistant m"
    and "list_all (\<lambda>x. \<not> protected_assistant x) post"
  shows "restore_latest_assistant_thinking digest (pre @ m # post) (Some s) =
      Inr (pre @ set_content (full_content s) m # post, True) \<and>
    (\<exists>o' \<in> set orig. protected_assistant o' \<and> full_content s = blocks_of o')"
proof -
  note snap = snapshot_Some [OF assms(1)]
  have "restore_back (full_content s) (rev post @ m # rev pre) =
      Inr (rev post @ set_content (full_content s) m # rev pre, True)"
    by (rule restore_back_split) (use assms(3-5) in \<open>auto simp: list_all_iff\<close>)
  with snap assms(2) show ?thesis by (simp add: restore_latest_assistant_thinking_def)
qed

definition sample_content_digest :: "json list \<Rightarrow> string" where
  "sample_content_digest content = dumps_compact (JList content)"

lemma sample_snapshot:
  "snapshot_latest_assistant_thinking sample_content_digest sample_conversation =
     Some (take_snapshot sample_content_digest [sample_thinking, sample_call ''call 1''])"
  by code_simp

lemma restore_exact_witness:
  "restore_latest_assistant_thinking sample_content_digest sample_canonical
       (Some (take_snapshot sample_content_digest [sample_thinking, sample_call ''call 1''])) =
     Inr ([simple_message ''user'' [text_block ''read it''],
        simple_message ''assistant'' [sample_thinking, sample_call ''call 1''],
        simple_message ''user'' [sample_result ''call_1'']], True)"
proof -
  let ?s = "take_snapshot sample_content_digest [sample_thinking, sample_call ''call 1'']"
  let ?pre = "[simple_message ''user'' [text_block ''read it'']]"
  let ?m = "simple_message ''assistant'' [sample_thinking, sample_call ''call_1'']"
  let ?post = "[simple_message ''user'' [sample_result ''call_1'']]"
  have "sample_content_digest (full_content ?s) \<noteq> []" by (simp add: sample_content_digest_def)
  moreover have "list_all is_dict (?pre @ ?m # ?post)" by simp
  moreover have "protected_assistant ?m" by code_simp
  moreover have "list_all (\<lambda>x. \<not> protected_assistant x) ?post" by code_simp
  ultimately show ?thesis
    using restore_exact [OF sample_snapshot, of ?pre ?m ?post] by (simp add: sample_canonical_def take_snapshot_def)
qed

text \<open>
  The snapshot is taken of the latest assistant message only: in a conversation whose earlier assistant
  message has thinking and whose latest has none there is no snapshot, although a protected message exists.
\<close>

lemma snapshot_misses_earlier_thinking:
  "find_protected_message (sample_canonical @ [simple_message ''assistant'' [text_block ''done'']]) = Some 1 \<and>
   snapshot_latest_assistant_thinking digest
     (sample_canonical @ [simple_message ''assistant'' [text_block ''done'']]) = None"
proof
  show "find_protected_message (sample_canonical @ [simple_message ''assistant'' [text_block ''done'']]) = Some 1"
    by code_simp
  have "raw_assistant_list (simple_message ''assistant'' [text_block ''done''])" by code_simp
  moreover have "filter is_opaque_provider_block [text_block ''done''] = []" by code_simp
  ultimately show "snapshot_latest_assistant_thinking digest
     (sample_canonical @ [simple_message ''assistant'' [text_block ''done'']]) = None"
    by (simp add: snapshot_latest_assistant_thinking_def)
qed

end
