(* ===== verification/HistorySlicing.thy ===== *)
theory HistorySlicing
  imports MessagePasses
begin

section \<open>Safe slices of the history\<close>

text \<open>
  Models \<open>src/tok/runtime/_history_slicing.py\<close>: the minimal causal context kept after stream
  recovery, and the search for a suffix of the conversation that starts with a user message and
  does not cut a tool call from its result. Sets of ids are lists read as sets. Functions whose
  Python code calls \<open>.get\<close> on an element without an \<open>isinstance\<close> test, or tests an unhashable value
  for membership in a set, return \<^typ>\<open>'a py\<close>.
\<close>

subsection \<open>Reading one message\<close>

definition message_has_tool_result :: "json \<Rightarrow> bool" where
  "message_has_tool_result message =
     (if raw_role_is ''tool_result'' message then field_strip ''tool_use_id'' message \<noteq> []
      else list_ex is_tool_result_block (blocks_of message))"

definition message_has_user_prompt :: "json \<Rightarrow> bool" where
  "message_has_user_prompt message =
     (case jget ''content'' message of
        Some (JStr s) \<Rightarrow> py_strip s \<noteq> []
      | Some (JList bs) \<Rightarrow> list_ex (\<lambda>b. is_text_block b \<and> field_strip ''text'' b \<noteq> []) bs
      | _ \<Rightarrow> False)"

definition nonblank_fields :: "string \<Rightarrow> json list \<Rightarrow> string list" where
  "nonblank_fields k bs = filter (\<lambda>i. i \<noteq> []) (map (field_strip k) bs)"

definition assistant_tool_use_ids :: "json \<Rightarrow> string list" where
  "assistant_tool_use_ids message =
     (if msg_role message \<noteq> ''assistant'' then []
      else nonblank_fields ''id'' (filter is_tool_use_block (blocks_of message)))"

definition message_tool_result_ids :: "json \<Rightarrow> string list" where
  "message_tool_result_ids message =
     (if msg_role message = ''tool_result'' then nonblank_fields ''tool_use_id'' [message]
      else nonblank_fields ''tool_use_id'' (filter is_tool_result_block (blocks_of message)))"

definition message_tool_result_text :: "json \<Rightarrow> string" where
  "message_tool_result_text message =
     (if raw_role_is ''tool_result'' message then py_str (jget_or ''content'' (JStr []) message)
      else join [char_of (10 :: nat)]
             (map (\<lambda>b. py_str (jget_or ''content'' (JStr []) b)) (filter is_tool_result_block (blocks_of message))))"

text \<open>\<open>block.get("name", "").lower()\<close> raises \<open>AttributeError\<close> when the name is not a string.\<close>

fun uses_skill :: "json list \<Rightarrow> bool py" where
  "uses_skill [] = Inr False"
| "uses_skill (b # bs) =
     (if \<not> is_tool_use_block b then uses_skill bs
      else case jget_or ''name'' (JStr []) b of
          JStr n \<Rightarrow> if py_lower n = ''skill'' then Inr True else uses_skill bs
        | _ \<Rightarrow> Inl AttributeError)"

definition assistant_used_skill_tool :: "json \<Rightarrow> bool py" where
  "assistant_used_skill_tool message =
     (if \<not> raw_role_is ''assistant'' message then Inr False else uses_skill (blocks_of message))"

subsection \<open>Stream recovery\<close>

fun find_py :: "('a \<Rightarrow> bool py) \<Rightarrow> 'a list \<Rightarrow> 'a option py" where
  "find_py P [] = Inr None"
| "find_py P (x # xs) = bind_py (P x) (\<lambda>b. if b then Inr (Some x) else find_py P xs)"

definition guarded :: "(json \<Rightarrow> bool py) \<Rightarrow> json \<Rightarrow> bool py" where
  "guarded P m = (if \<not> is_dict m then Inl AttributeError else P m)"

definition is_prompt :: "json \<Rightarrow> bool py" where
  "is_prompt m = Inr (raw_role_is ''user'' m \<and> message_has_user_prompt m)"

definition raw_call_ids :: "json \<Rightarrow> string list" where
  "raw_call_ids m = nonblank_fields ''id'' (filter is_tool_use_block (blocks_of m))"

definition is_caller :: "json \<Rightarrow> bool py" where
  "is_caller m = Inr (raw_role_is ''assistant'' m \<and> raw_call_ids m \<noteq> [])"

definition is_answer_to :: "string list \<Rightarrow> json \<Rightarrow> bool py" where
  "is_answer_to ids m =
     bind_py (in_str_set (jget_or ''role'' JNull m) [''user'', ''tool_result'']) (\<lambda>r.
       if \<not> r \<or> \<not> message_has_tool_result m then Inr False
       else
         let results = (if raw_role_is ''tool_result'' m then nonblank_fields ''tool_use_id'' [m]
                        else nonblank_fields ''tool_use_id'' (filter is_tool_result_block (blocks_of m)))
         in Inr (list_ex (\<lambda>i. i \<in> set results) ids))"

definition option_list :: "'a option \<Rightarrow> 'a list" where
  "option_list x = (case x of None \<Rightarrow> [] | Some y \<Rightarrow> [y])"

definition stream_recovery_winnowing_floor_messages :: "json list \<Rightarrow> json list py" where
  "stream_recovery_winnowing_floor_messages messages =
     bind_py (find_py (\<lambda>i. guarded is_prompt (messages ! i)) (rev [0..<length messages])) (\<lambda>prompt.
     bind_py (find_py (\<lambda>i. guarded is_caller (messages ! i)) (rev [0..<length messages])) (\<lambda>caller.
     bind_py (case caller of
                None \<Rightarrow> Inr None
              | Some a \<Rightarrow> find_py (\<lambda>i. guarded (is_answer_to (raw_call_ids (messages ! a))) (messages ! i))
                            [Suc a..<length messages]) (\<lambda>answer.
       Inr (map (\<lambda>i. messages ! i)
             (sort (remdups (option_list caller @ option_list answer @ option_list prompt)))))))"

subsection \<open>Tool material\<close>

fun blocks_contain_tool_material :: "json list \<Rightarrow> bool py" where
  "blocks_contain_tool_material [] = Inr False"
| "blocks_contain_tool_material (b # bs) =
     (if \<not> is_dict b then blocks_contain_tool_material bs
      else bind_py (in_str_set (jget_or ''type'' JNull b) [''tool_use'', ''tool_result'']) (\<lambda>t.
        if t then Inr True else blocks_contain_tool_material bs))"

fun messages_contain_tool_material :: "json list \<Rightarrow> bool py" where
  "messages_contain_tool_material [] = Inr False"
| "messages_contain_tool_material (m # ms) =
     (if \<not> is_dict m then Inl AttributeError
      else if raw_role_is ''tool_result'' m then Inr True
      else bind_py (blocks_contain_tool_material (blocks_of m)) (\<lambda>t.
        if t then Inr True else messages_contain_tool_material ms))"

subsection \<open>Safe suffixes\<close>

definition tool_result_only_suffix_has_safe_pairing :: "json list \<Rightarrow> bool" where
  "tool_result_only_suffix_has_safe_pairing messages =
     (let dicts = filter is_dict messages;
          uses = concat (map assistant_tool_use_ids (filter (\<lambda>m. msg_role m = ''assistant'') dicts));
          results = concat (map message_tool_result_ids (filter (\<lambda>m. msg_role m = ''user'') dicts))
      in uses \<noteq> [] \<and> results \<noteq> [] \<and> set uses \<subseteq> set results)"

definition answered_by :: "string list \<Rightarrow> json \<Rightarrow> bool" where
  "answered_by ids n =
     (is_dict n \<and> msg_role n = ''user'' \<and> message_has_tool_result n \<and>
      list_all is_tool_result_block (blocks_of n) \<and> set ids \<subseteq> set (message_tool_result_ids n))"

fun calls_answered_next :: "json list \<Rightarrow> bool" where
  "calls_answered_next [] = True"
| "calls_answered_next (m # ms) =
     (if \<not> is_dict m then False
      else if assistant_tool_use_ids m = [] then calls_answered_next ms
      else case ms of [] \<Rightarrow> False
        | n # _ \<Rightarrow> answered_by (assistant_tool_use_ids m) n \<and> calls_answered_next ms)"

definition bridge_recent_suffix_has_safe_pairing :: "json list \<Rightarrow> bool" where
  "bridge_recent_suffix_has_safe_pairing messages =
     (case messages of
        [] \<Rightarrow> False
      | first # _ \<Rightarrow>
          if \<not> is_dict first \<or> msg_role first \<noteq> ''user'' then False
          else if message_has_tool_result first then tool_result_only_suffix_has_safe_pairing messages
          else calls_answered_next messages \<and>
            set (concat (map message_tool_result_ids messages)) \<subseteq>
              set (concat (map assistant_tool_use_ids messages)))"

text \<open>The walk back from \<open>start_index\<close>: \<open>before\<close> holds the earlier messages, the nearest first.\<close>

fun unanswered_skill_back :: "bool \<Rightarrow> json list \<Rightarrow> bool py" where
  "unanswered_skill_back saw [] = Inr False"
| "unanswered_skill_back saw (m # before) =
     (if \<not> is_dict m then unanswered_skill_back saw before
      else
        let result_text = py_lower (message_tool_result_text m)
        in if result_text \<noteq> [] \<and> py_contains ''successfully loaded skill'' result_text
           then unanswered_skill_back True before
           else bind_py (assistant_used_skill_tool m) (\<lambda>s.
             if s then Inr saw
             else if raw_role_is ''assistant'' m then Inr False
             else unanswered_skill_back saw before))"

definition starts_after_unanswered_skill_result :: "json list \<Rightarrow> nat \<Rightarrow> bool py" where
  "starts_after_unanswered_skill_result messages start_index =
     unanswered_skill_back False (rev (take start_index messages))"

fun safe_suffix_from :: "json list \<Rightarrow> nat \<Rightarrow> json list \<Rightarrow> json list option \<Rightarrow> json list option py" where
  "safe_suffix_from messages start [] fallback = Inr fallback"
| "safe_suffix_from messages start (m # ms) fallback =
     (if \<not> is_dict m \<or> msg_role m \<noteq> ''user'' then safe_suffix_from messages (Suc start) ms fallback
      else if message_has_tool_result m then
        safe_suffix_from messages (Suc start) ms
          (if fallback = None \<and> bridge_recent_suffix_has_safe_pairing (m # ms) then Some (m # ms) else fallback)
      else bind_py (starts_after_unanswered_skill_result messages start) (\<lambda>skip.
        if skip then safe_suffix_from messages (Suc start) ms fallback
        else if bridge_recent_suffix_has_safe_pairing (m # ms) then Inr (Some (m # ms))
        else safe_suffix_from messages (Suc start) ms fallback))"

definition bridge_preflight_safe_recent_suffix :: "json list \<Rightarrow> json list option py" where
  "bridge_preflight_safe_recent_suffix messages = safe_suffix_from messages 0 messages None"

subsection \<open>What a safe suffix guarantees\<close>

text \<open>
  \<open>self_contained\<close> is the strong guarantee: every call is answered by the very next message and no result
  refers to a call outside the slice. \<open>calls_covered\<close> is the weak one of slices that start with tool
  results: every call of the slice has a result in the slice.
\<close>

definition self_contained :: "json list \<Rightarrow> bool" where
  "self_contained ms \<longleftrightarrow>
     (\<forall>i < length ms. assistant_tool_use_ids (ms ! i) \<noteq> [] \<longrightarrow>
        Suc i < length ms \<and> msg_role (ms ! Suc i) = ''user'' \<and>
        set (assistant_tool_use_ids (ms ! i)) \<subseteq> set (message_tool_result_ids (ms ! Suc i))) \<and>
     (\<forall>m \<in> set ms. \<forall>i \<in> set (message_tool_result_ids m). \<exists>a \<in> set ms. i \<in> set (assistant_tool_use_ids a))"

definition calls_covered :: "json list \<Rightarrow> bool" where
  "calls_covered ms \<longleftrightarrow>
     (\<forall>a \<in> set ms. is_dict a \<longrightarrow> (\<forall>i \<in> set (assistant_tool_use_ids a).
        \<exists>m \<in> set ms. msg_role m = ''user'' \<and> i \<in> set (message_tool_result_ids m)))"

lemma calls_answered_nth:
  "calls_answered_next ms \<Longrightarrow> i < length ms \<Longrightarrow> assistant_tool_use_ids (ms ! i) \<noteq> [] \<Longrightarrow>
     Suc i < length ms \<and> answered_by (assistant_tool_use_ids (ms ! i)) (ms ! Suc i)"
proof (induction ms arbitrary: i)
  case (Cons m ms)
  show ?case
  proof (cases i)
    case 0
    with Cons.prems show ?thesis by (cases ms) (auto split: if_splits)
  next
    case (Suc k)
    have "calls_answered_next ms"
      using Cons.prems(1) by (cases ms) (auto split: if_splits)
    with Cons.IH [of k] Cons.prems Suc show ?thesis by simp
  qed
qed simp

lemma recent_suffix_safe:
  assumes "bridge_recent_suffix_has_safe_pairing ms"
  shows "ms \<noteq> [] \<and> is_dict (hd ms) \<and> msg_role (hd ms) = ''user'' \<and> 
    (if message_has_tool_result (hd ms) then calls_covered ms else self_contained ms)"
proof -
  obtain first rest where ms: "ms = first # rest" and user: "is_dict first" "msg_role first = ''user''"
    using assms by (auto simp: bridge_recent_suffix_has_safe_pairing_def split: list.splits if_splits)
  show ?thesis
  proof (cases "message_has_tool_result first")
    case True
    then have "tool_result_only_suffix_has_safe_pairing ms"
      using assms user by (simp add: ms bridge_recent_suffix_has_safe_pairing_def)
    then have sub: "set (concat (map assistant_tool_use_ids (filter (\<lambda>m. msg_role m = ''assistant'') (filter is_dict ms))))
        \<subseteq> set (concat (map message_tool_result_ids (filter (\<lambda>m. msg_role m = ''user'') (filter is_dict ms))))"
      by (simp add: tool_result_only_suffix_has_safe_pairing_def Let_def)
    have "calls_covered ms"
      unfolding calls_covered_def
    proof (intro ballI impI)
      fix a i assume a: "a \<in> set ms" "is_dict a" "i \<in> set (assistant_tool_use_ids a)"
      then have "msg_role a = ''assistant''" by (auto simp: assistant_tool_use_ids_def split: if_splits)
      with a have "i \<in> set (concat (map assistant_tool_use_ids (filter (\<lambda>m. msg_role m = ''assistant'') (filter is_dict ms))))"
        by auto
      with sub have "i \<in> set (concat (map message_tool_result_ids (filter (\<lambda>m. msg_role m = ''user'') (filter is_dict ms))))"
        by blast
      then show "\<exists>m \<in> set ms. msg_role m = ''user'' \<and> i \<in> set (message_tool_result_ids m)" by auto
    qed
    with True user show ?thesis by (simp add: ms)
  next
    case False
    then have c: "calls_answered_next ms"
      and r: "set (concat (map message_tool_result_ids ms)) \<subseteq> set (concat (map assistant_tool_use_ids ms))"
      using assms user by (simp_all add: ms bridge_recent_suffix_has_safe_pairing_def)
    have "self_contained ms"
      unfolding self_contained_def
    proof (intro conjI allI impI ballI)
      fix i assume "i < length ms" "assistant_tool_use_ids (ms ! i) \<noteq> []"
      from calls_answered_nth [OF c this]
      show "Suc i < length ms" "msg_role (ms ! Suc i) = ''user''"
        "set (assistant_tool_use_ids (ms ! i)) \<subseteq> set (message_tool_result_ids (ms ! Suc i))"
        by (simp_all add: answered_by_def)
    next
      fix m i assume "m \<in> set ms" "i \<in> set (message_tool_result_ids m)"
      with r show "\<exists>a \<in> set ms. i \<in> set (assistant_tool_use_ids a)" by fastforce
    qed
    with False user show ?thesis by (simp add: ms)
  qed
qed

definition safe_slice :: "json list \<Rightarrow> bool" where
  "safe_slice s \<longleftrightarrow> s \<noteq> [] \<and> is_dict (hd s) \<and> msg_role (hd s) = ''user'' \<and>
     (if message_has_tool_result (hd s) then calls_covered s else self_contained s)"

lemma safe_suffix_from_sound:
  "safe_suffix_from messages start ms fallback = Inr (Some s) \<Longrightarrow>
     (\<forall>f. fallback = Some f \<longrightarrow> safe_slice f) \<Longrightarrow>
     safe_slice s \<and> (suffix s ms \<or> fallback = Some s)"
proof (induction ms arbitrary: start fallback)
  case Nil
  then show ?case by simp
next
  case (Cons m ms)
  have safe: "bridge_recent_suffix_has_safe_pairing (m # ms) \<Longrightarrow> safe_slice (m # ms)"
    using recent_suffix_safe [of "m # ms"] by (simp add: safe_slice_def)
  have sfx: "suffix s ms \<Longrightarrow> suffix s (m # ms)" by (simp add: suffix_Cons)
  have cases: "safe_suffix_from messages (Suc start) ms fallback = Inr (Some s) \<or>
      bridge_recent_suffix_has_safe_pairing (m # ms) \<and> fallback = None \<and>
        safe_suffix_from messages (Suc start) ms (Some (m # ms)) = Inr (Some s) \<or>
      bridge_recent_suffix_has_safe_pairing (m # ms) \<and> s = m # ms"
  proof (cases "is_dict m \<and> msg_role m = ''user'' \<and> \<not> message_has_tool_result m")
    case True
    then obtain skip where "starts_after_unanswered_skill_result messages start = Inr skip"
      using Cons.prems(1) by (auto elim!: bind_py_Inr_E)
    with True Cons.prems(1) show ?thesis by (simp split: if_splits)
  next
    case False
    with Cons.prems(1) show ?thesis
      by (cases "fallback = None \<and> bridge_recent_suffix_has_safe_pairing (m # ms)") (simp_all split: if_splits)
  qed
  then consider (skip) "safe_suffix_from messages (Suc start) ms fallback = Inr (Some s)"
    | (fall) "bridge_recent_suffix_has_safe_pairing (m # ms)" "fallback = None"
        "safe_suffix_from messages (Suc start) ms (Some (m # ms)) = Inr (Some s)"
    | (found) "bridge_recent_suffix_has_safe_pairing (m # ms)" "s = m # ms"
    by blast
  then show ?case
  proof cases
    case skip
    with Cons.IH [OF skip Cons.prems(2)] sfx show ?thesis by blast
  next
    case fall
    then have "\<forall>f. Some (m # ms) = Some f \<longrightarrow> safe_slice f" using safe by simp
    from Cons.IH [OF fall(3) this] sfx show ?thesis by auto
  next
    case found
    with safe show ?thesis by simp
  qed
qed

subsection \<open>Properties\<close>

text \<open>
  C32: A suffix offered as a safe cut is a suffix of the conversation that starts with a user message. When
  that message carries no tool result the suffix is self-contained: every call is answered by the very next
  message and no result refers to a call that was cut off; otherwise every call in it has its result in it.
\<close>

theorem safe_recent_suffix:
  assumes "bridge_preflight_safe_recent_suffix messages = Inr (Some s)"
  shows "suffix s messages \<and> safe_slice s"
  using safe_suffix_from_sound [OF assms [unfolded bridge_preflight_safe_recent_suffix_def]] by simp

definition sample_history :: "json list" where
  "sample_history =
    [simple_message ''user'' [text_block ''go''],
     simple_message ''assistant'' [JObj [(''type'', JStr ''tool_use''), (''id'', JStr ''a''), (''name'', JStr ''read'')]],
     simple_message ''assistant'' [text_block ''hm''],
     simple_message ''user'' [text_block ''next''],
     simple_message ''assistant'' [JObj [(''type'', JStr ''tool_use''), (''id'', JStr ''b''), (''name'', JStr ''read'')]],
     simple_message ''user'' [JObj [(''type'', JStr ''tool_result''), (''tool_use_id'', JStr ''b'')]]]"

lemma sample_suffix: "bridge_preflight_safe_recent_suffix sample_history = Inr (Some (drop 3 sample_history))"
  by code_simp

theorem safe_recent_suffix_witness: "suffix (drop 3 sample_history) sample_history \<and> safe_slice (drop 3 sample_history)"
  by (rule safe_recent_suffix [OF sample_suffix])

lemma find_py_Some:
  "find_py P xs = Inr (Some x) \<Longrightarrow> x \<in> set xs \<and> P x = Inr True"
  by (induction xs) (auto elim!: bind_py_Inr_E split: if_splits)

text \<open>
  The context kept after a stream recovery consists of at most three messages of the conversation, in
  their original order.
\<close>

lemma stream_recovery_subsequence:
  assumes "stream_recovery_winnowing_floor_messages messages = Inr kept"
  shows "length kept \<le> 3 \<and> subseq kept messages"
proof -
  obtain xs :: "nat list" where kept: "kept = map (\<lambda>i. messages ! i) (sort (remdups xs))"
    and xs: "set xs \<subseteq> {0..<length messages}" "length xs \<le> 3"
  proof -
    from assms obtain p c a where
      "kept = map (\<lambda>i. messages ! i) (sort (remdups (option_list c @ option_list a @ option_list p)))"
      and p: "find_py (\<lambda>i. guarded is_prompt (messages ! i)) (rev [0..<length messages]) = Inr p"
      and c: "find_py (\<lambda>i. guarded is_caller (messages ! i)) (rev [0..<length messages]) = Inr c"
      and a: "(case c of None \<Rightarrow> Inr None
              | Some a \<Rightarrow> find_py (\<lambda>i. guarded (is_answer_to (raw_call_ids (messages ! a))) (messages ! i))
                            [Suc a..<length messages]) = Inr a"
      unfolding stream_recovery_winnowing_floor_messages_def by (auto elim!: bind_py_Inr_E)
    moreover have "set (option_list p) \<subseteq> {0..<length messages}"
      using p by (cases p) (auto simp: option_list_def dest: find_py_Some)
    moreover have "set (option_list c) \<subseteq> {0..<length messages}"
      using c by (cases c) (auto simp: option_list_def dest: find_py_Some)
    moreover have "set (option_list a) \<subseteq> {0..<length messages}"
      using a by (cases a; cases c) (auto simp: option_list_def dest: find_py_Some)
    moreover have "length (option_list c @ option_list a @ option_list p) \<le> 3"
      by (auto simp: option_list_def split: option.splits)
    ultimately show thesis using that [of "option_list c @ option_list a @ option_list p"] by auto
  qed
  define ys where "ys = sort (remdups xs)"
  have ys: "sorted ys" "distinct ys" "set ys \<subseteq> {0..<length messages}" "length ys \<le> 3"
    using xs le_trans [OF length_remdups_leq [of xs] xs(2)] by (auto simp: ys_def)
  have "ys = filter (\<lambda>i. i \<in> set ys) [0..<length messages]"
    by (rule sorted_distinct_set_unique) (use ys in \<open>auto simp: sorted_wrt_filter\<close>)
  then have "subseq ys [0..<length messages]" by (metis subseq_filter_left)
  then have "subseq (map (\<lambda>i. messages ! i) ys) (map (\<lambda>i. messages ! i) [0..<length messages])"
    by (rule subseq_map)
  with ys(4) show ?thesis by (simp add: kept ys_def map_nth)
qed

lemma sample_recovery:
  "stream_recovery_winnowing_floor_messages sample_history = Inr (drop 3 sample_history)"
  by code_simp

lemma stream_recovery_subsequence_witness:
  "length (drop 3 sample_history) \<le> 3 \<and> subseq (drop 3 sample_history) sample_history"
  by (rule stream_recovery_subsequence [OF sample_recovery])

end
