(* ===== verification/EvidenceSafety.thy ===== *)
theory EvidenceSafety
  imports PyJson
begin

section \<open>The evidence exactness ledger\<close>

text \<open>
  Models \<open>src/tok/runtime/evidence_safety.py\<close>: the normal form of evidence keys, the ledger of
  what was observed exactly, and the gate that demands an exact observation before evidence may be
  compressed. The value of \<open>TOK_EXACTNESS_GATE\<close> is an argument (\<open>None\<close> when it is not set). The
  resolver cache is seen through the digest its \<open>put\<close> returns for a path and a content.
\<close>

subsection \<open>Keys and mode\<close>

definition exactness_gate_mode :: "string option \<Rightarrow> string" where
  "exactness_gate_mode env =
     (let mode = py_lower (py_strip (case env of Some v \<Rightarrow> v | None \<Rightarrow> ''enforce''))
      in if mode \<in> {''warn'', ''enforce''} then mode else ''enforce'')"

definition EVIDENCE_KEY_PREFIXES :: "string list" where
  "EVIDENCE_KEY_PREFIXES = [''file:'', ''search:'', ''listing:'', ''tool:'']"

fun strip_first_prefix :: "string list \<Rightarrow> string \<Rightarrow> string" where
  "strip_first_prefix [] s = s"
| "strip_first_prefix (p # ps) s =
     (if prefix p s then py_strip (drop (length p) s) else strip_first_prefix ps s)"

definition normalize_evidence_key :: "string \<Rightarrow> string" where
  "normalize_evidence_key key =
     (let normalized = strip_first_prefix EVIDENCE_KEY_PREFIXES (py_strip key);
          normalized = (if prefix ''./'' normalized then drop 2 normalized else normalized)
      in map (\<lambda>c. if c = char_of (92 :: nat) then CHR ''/'' else c) normalized)"

subsection \<open>The ledger\<close>

datatype evidence_form = Exact | Summary | Skeleton | Reference

fun form_name :: "evidence_form \<Rightarrow> string" where
  "form_name Exact = ''exact''"
| "form_name Summary = ''summary''"
| "form_name Skeleton = ''skeleton''"
| "form_name Reference = ''reference''"

record ledger_entry =
  entry_key :: string
  latest_digest :: string
  first_exact_turn :: int
  latest_turn :: int
  latest_form :: evidence_form
  reacquisition_required :: bool
  reacquisition_satisfied_turn :: int

definition new_entry :: "string \<Rightarrow> ledger_entry" where
  "new_entry key = \<lparr>entry_key = key, latest_digest = [], first_exact_turn = 0, latest_turn = 0,
     latest_form = Exact, reacquisition_required = False, reacquisition_satisfied_turn = 0\<rparr>"

definition has_exact :: "ledger_entry \<Rightarrow> bool" where
  "has_exact e = (0 < first_exact_turn e)"

definition latest_is_exact :: "ledger_entry \<Rightarrow> bool" where
  "latest_is_exact e = (latest_form e = Exact)"

record evidence_state =
  neighborhoods :: "string list dict"
  anchor_novelty_keys :: "string list dict"
  alias_map :: "string dict"
  first_exact_seen :: "string list"
  ledger :: "ledger_entry dict"
  pending_exact_keys :: "string list"

definition new_evidence_state :: evidence_state where
  "new_evidence_state = \<lparr>neighborhoods = [], anchor_novelty_keys = [], alias_map = [],
     first_exact_seen = [], ledger = [], pending_exact_keys = []\<rparr>"

definition reset_evidence :: "evidence_state \<Rightarrow> evidence_state" where
  "reset_evidence st = st\<lparr>neighborhoods := [], anchor_novelty_keys := [], alias_map := [],
     first_exact_seen := [], ledger := [], pending_exact_keys := []\<rparr>"

definition entry_or_new :: "string \<Rightarrow> evidence_state \<Rightarrow> ledger_entry" where
  "entry_or_new key st = (case map_of (ledger st) key of Some e \<Rightarrow> e | None \<Rightarrow> new_entry key)"

text \<open>\<open>a or b\<close> on strings.\<close>

definition str_or :: "string \<Rightarrow> string \<Rightarrow> string" where
  "str_or a b = (if a \<noteq> [] then a else b)"

definition record_exact ::
    "string \<Rightarrow> string \<Rightarrow> int \<Rightarrow> string option \<Rightarrow> (string \<Rightarrow> string \<Rightarrow> string) option \<Rightarrow> bool \<Rightarrow>
      evidence_state \<Rightarrow> counts \<times> evidence_state" where
  "record_exact raw_key digest turn content resolver register st =
     (let key = normalize_evidence_key raw_key in
      if key = [] then ([], st)
      else
        let resolver_digest = (case (resolver, content) of
               (Some put, Some c) \<Rightarrow> if register then put key c else []
             | _ \<Rightarrow> []);
            entry = entry_or_new key st;
            signals = [(''evidence_exact_observed'', 1)];
            first = (first_exact_turn entry \<le> 0);
            signals = (if first then dict_set ''evidence_first_exact_observed'' 1 signals else signals);
            entry = (if first then entry\<lparr>first_exact_turn := turn\<rparr> else entry);
            required = reacquisition_required entry;
            signals = (if required then dict_set ''evidence_exact_reacquisition_satisfied'' 1 signals else signals);
            entry = (if required
                     then entry\<lparr>reacquisition_required := False, reacquisition_satisfied_turn := turn\<rparr>
                     else entry);
            entry = entry\<lparr>latest_turn := turn,
                          latest_digest := str_or digest (str_or resolver_digest (latest_digest entry)),
                          latest_form := Exact\<rparr>;
            signals = (if resolver_digest \<noteq> [] then dict_set ''evidence_resolver_cache_stored'' 1 signals
                       else signals)
        in (signals, st\<lparr>ledger := dict_set key entry (ledger st),
                       first_exact_seen := List.insert key (first_exact_seen st)\<rparr>))"

definition record_non_exact ::
    "string \<Rightarrow> string \<Rightarrow> evidence_form \<Rightarrow> int \<Rightarrow> evidence_state \<Rightarrow> counts \<times> evidence_state" where
  "record_non_exact raw_key digest form turn st =
     (let key = normalize_evidence_key raw_key in
      if key = [] then ([], st)
      else
        let entry = entry_or_new key st;
            entry = entry\<lparr>latest_turn := turn, latest_digest := str_or digest (latest_digest entry),
                          latest_form := form\<rparr>
        in ([(''evidence_non_exact_reference_emitted'', 1),
             (''evidence_non_exact_'' @ form_name form @ ''_emitted'', 1)],
            st\<lparr>ledger := dict_set key entry (ledger st)\<rparr>))"

definition require_exact_reacquisition ::
    "string option \<Rightarrow> string \<Rightarrow> evidence_state \<Rightarrow> counts \<times> evidence_state" where
  "require_exact_reacquisition env raw_key st =
     (let key = normalize_evidence_key raw_key in
      if key = [] then ([], st)
      else case map_of (ledger st) key of
          None \<Rightarrow> ([], st)
        | Some entry \<Rightarrow>
            if latest_is_exact entry then ([], st)
            else if exactness_gate_mode env = ''warn'' then ([], st)
            else ([(''evidence_exact_reacquisition_required'', 1),
                   (''evidence_compression_blocked_for_safety'', 1)],
                  st\<lparr>ledger := dict_set key (entry\<lparr>reacquisition_required := True\<rparr>) (ledger st)\<rparr>))"

definition requires_reacquisition :: "string option \<Rightarrow> string \<Rightarrow> evidence_state \<Rightarrow> bool" where
  "requires_reacquisition env raw_key st =
     (let key = normalize_evidence_key raw_key in
      if key = [] then False
      else case map_of (ledger st) key of
          None \<Rightarrow> if exactness_gate_mode env = ''warn'' then False else True
        | Some entry \<Rightarrow>
            if latest_is_exact entry then False
            else if exactness_gate_mode env = ''warn'' then False
            else True)"

definition evidence_safety_summary :: "ledger_entry dict \<Rightarrow> nat dict" where
  "evidence_safety_summary led =
     (let entries = map snd led in
      [(''entries'', length entries),
       (''exact_entries'', length (filter has_exact entries)),
       (''non_exact_latest'', length (filter (\<lambda>e. \<not> latest_is_exact e) entries)),
       (''reacquisition_required'', length (filter reacquisition_required entries)),
       (''reacquisition_satisfied'', length (filter (\<lambda>e. 0 < reacquisition_satisfied_turn e) entries))])"

subsection \<open>Runs of the ledger\<close>

datatype evidence_op =
    RecordExact string string int "string option" "(string \<Rightarrow> string \<Rightarrow> string) option" bool
  | RecordNonExact string string evidence_form int
  | RequireExact "string option" string
  | Reset

fun apply_op :: "evidence_op \<Rightarrow> evidence_state \<Rightarrow> evidence_state" where
  "apply_op (RecordExact key digest turn content resolver register) st =
     snd (record_exact key digest turn content resolver register st)"
| "apply_op (RecordNonExact key digest form turn) st = snd (record_non_exact key digest form turn st)"
| "apply_op (RequireExact env key) st = snd (require_exact_reacquisition env key st)"
| "apply_op Reset st = reset_evidence st"

definition run_ops :: "evidence_op list \<Rightarrow> evidence_state" where
  "run_ops ops = fold apply_op ops new_evidence_state"

text \<open>The specification: the form of the last observation of a key since the last reset.\<close>

fun last_form :: "string \<Rightarrow> evidence_op list \<Rightarrow> evidence_form option" where
  "last_form key [] = None"
| "last_form key (RecordExact k _ _ _ _ _ # earlier) =
     (if normalize_evidence_key k = key then Some Exact else last_form key earlier)"
| "last_form key (RecordNonExact k _ form _ # earlier) =
     (if normalize_evidence_key k = key then Some form else last_form key earlier)"
| "last_form key (RequireExact _ _ # earlier) = last_form key earlier"
| "last_form key (Reset # earlier) = None"

lemma apply_op_form:
  assumes "key \<noteq> []"
  shows "map_option latest_form (map_of (ledger (apply_op op st)) key) =
    (case op of
       RecordExact k _ _ _ _ _ \<Rightarrow> if normalize_evidence_key k = key then Some Exact
         else map_option latest_form (map_of (ledger st) key)
     | RecordNonExact k _ form _ \<Rightarrow> if normalize_evidence_key k = key then Some form
         else map_option latest_form (map_of (ledger st) key)
     | RequireExact _ _ \<Rightarrow> map_option latest_form (map_of (ledger st) key)
     | Reset \<Rightarrow> None)"
  using assms
  by (cases op) (auto simp: record_exact_def record_non_exact_def require_exact_reacquisition_def
      reset_evidence_def Let_def split: option.splits)

lemma run_ops_form:
  assumes "key \<noteq> []"
  shows "map_option latest_form (map_of (ledger (run_ops ops)) key) = last_form key (rev ops)"
proof (induction ops rule: rev_induct)
  case Nil
  then show ?case by (simp add: run_ops_def new_evidence_state_def)
next
  case (snoc op ops)
  have "run_ops (ops @ [op]) = apply_op op (run_ops ops)" by (simp add: run_ops_def)
  with snoc show ?case by (cases op) (simp_all add: apply_op_form [OF assms] del: apply_op.simps)
qed

lemma gate_mode_cases: "exactness_gate_mode env = ''warn'' \<or> exactness_gate_mode env = ''enforce''"
  by (auto simp: exactness_gate_mode_def Let_def)

lemma requires_reacquisition_form:
  "requires_reacquisition env raw st \<longleftrightarrow>
     exactness_gate_mode env = ''enforce'' \<and> normalize_evidence_key raw \<noteq> [] \<and>
     map_option latest_form (map_of (ledger st) (normalize_evidence_key raw)) \<noteq> Some Exact"
  using gate_mode_cases [of env]
  by (auto simp: requires_reacquisition_def latest_is_exact_def Let_def split: option.splits)

subsection \<open>The invariant of the ledger\<close>

definition entry_ok :: "string \<Rightarrow> ledger_entry \<Rightarrow> bool" where
  "entry_ok key e \<longleftrightarrow> key \<noteq> [] \<and> entry_key e = key \<and> (reacquisition_required e \<longrightarrow> latest_form e \<noteq> Exact)"

definition ledger_inv :: "evidence_state \<Rightarrow> bool" where
  "ledger_inv st \<longleftrightarrow> distinct (map fst (ledger st)) \<and> (\<forall>k e. map_of (ledger st) k = Some e \<longrightarrow> entry_ok k e)"

lemma ledger_inv_set:
  "ledger_inv st \<Longrightarrow> entry_ok k e \<Longrightarrow> ledger_inv (st\<lparr>ledger := dict_set k e (ledger st)\<rparr>)"
  by (auto simp: ledger_inv_def distinct_dict_set)

lemma ledger_inv_seen [simp]: "ledger_inv (st\<lparr>first_exact_seen := s\<rparr>) = ledger_inv st"
  by (simp add: ledger_inv_def)

lemma entry_or_new_key: "ledger_inv st \<Longrightarrow> entry_key (entry_or_new k st) = k"
  by (auto simp: entry_or_new_def ledger_inv_def entry_ok_def new_entry_def split: option.splits)

lemma record_exact_inv:
  assumes "ledger_inv st"
  shows "ledger_inv (snd (record_exact raw digest turn content resolver register st))"
proof (cases "normalize_evidence_key raw = []")
  case True
  with assms show ?thesis by (simp add: record_exact_def)
next
  case False
  let ?k = "normalize_evidence_key raw"
  obtain e seen where st': "snd (record_exact raw digest turn content resolver register st) =
      st\<lparr>ledger := dict_set ?k e (ledger st), first_exact_seen := seen\<rparr>"
    and e: "entry_key e = entry_key (entry_or_new ?k st)" "\<not> reacquisition_required e"
    using False by (auto simp: record_exact_def Let_def)
  have "entry_ok ?k e" using e False entry_or_new_key [OF assms, of ?k] by (simp add: entry_ok_def)
  from ledger_inv_set [OF assms this] show ?thesis unfolding st' by (simp add: ledger_inv_def)
qed

lemma record_non_exact_inv:
  assumes "ledger_inv st" and "form \<noteq> Exact"
  shows "ledger_inv (snd (record_non_exact raw digest form turn st))"
proof (cases "normalize_evidence_key raw = []")
  case True
  with assms show ?thesis by (simp add: record_non_exact_def)
next
  case False
  let ?k = "normalize_evidence_key raw"
  define e where "e = (entry_or_new ?k st)\<lparr>latest_turn := turn,
     latest_digest := str_or digest (latest_digest (entry_or_new ?k st)), latest_form := form\<rparr>"
  have "snd (record_non_exact raw digest form turn st) = st\<lparr>ledger := dict_set ?k e (ledger st)\<rparr>"
    using False by (simp add: record_non_exact_def Let_def e_def)
  moreover have "entry_ok ?k e"
    using False assms entry_or_new_key [OF assms(1), of ?k] by (simp add: entry_ok_def e_def)
  ultimately show ?thesis using ledger_inv_set [OF assms(1)] by simp
qed

lemma require_exact_inv:
  assumes "ledger_inv st"
  shows "ledger_inv (snd (require_exact_reacquisition env raw st))"
proof -
  have "ledger_inv (st\<lparr>ledger := dict_set k (e\<lparr>reacquisition_required := True\<rparr>) (ledger st)\<rparr>)"
    if "map_of (ledger st) k = Some e" "\<not> latest_is_exact e" for k e
  proof (rule ledger_inv_set [OF assms])
    show "entry_ok k (e\<lparr>reacquisition_required := True\<rparr>)"
      using assms that by (auto simp: ledger_inv_def entry_ok_def latest_is_exact_def)
  qed
  with assms show ?thesis
    by (auto simp: require_exact_reacquisition_def Let_def split: option.splits)
qed

lemma reset_inv: "ledger_inv (reset_evidence st)"
  by (simp add: reset_evidence_def ledger_inv_def)

fun op_ok :: "evidence_op \<Rightarrow> bool" where
  "op_ok (RecordNonExact _ _ form _) = (form \<noteq> Exact)"
| "op_ok _ = True"

lemma run_ops_inv: "list_all op_ok ops \<Longrightarrow> ledger_inv (run_ops ops)"
proof (induction ops rule: rev_induct)
  case Nil
  then show ?case by (simp add: run_ops_def new_evidence_state_def ledger_inv_def)
next
  case (snoc op ops)
  have "run_ops (ops @ [op]) = apply_op op (run_ops ops)" by (simp add: run_ops_def)
  moreover have "ledger_inv (run_ops ops)" using snoc by simp
  ultimately show ?case
    using snoc.prems
    by (cases op) (simp_all add: record_exact_inv record_non_exact_inv require_exact_inv reset_inv)
qed

lemma summary_bound:
  assumes "ledger_inv st"
  shows "length (filter reacquisition_required (map snd (ledger st))) \<le>
    length (filter (\<lambda>e. \<not> latest_is_exact e) (map snd (ledger st)))"
proof -
  have imp: "reacquisition_required e \<longrightarrow> \<not> latest_is_exact e" if "e \<in> set (map snd (ledger st))" for e
  proof -
    from that obtain p where p: "p \<in> set (ledger st)" "e = snd p" by auto
    obtain k where "p = (k, e)" using p(2) by (metis prod.collapse)
    with p(1) have "(k, e) \<in> set (ledger st)" by simp
    then have "map_of (ledger st) k = Some e"
      using assms by (simp add: ledger_inv_def)
    with assms show ?thesis by (auto simp: ledger_inv_def entry_ok_def latest_is_exact_def)
  qed
  have "length (filter P xs) \<le> length (filter Q xs)" if "\<And>x. x \<in> set xs \<Longrightarrow> P x \<longrightarrow> Q x"
    for P Q and xs :: "ledger_entry list"
    using that by (induction xs) auto
  from this [OF imp] show ?thesis .
qed

subsection \<open>Properties\<close>

text \<open>
  C34: The ledger implements its specification: after any sequence of operations, evidence must be observed again
  exactly when the gate is enforcing, the key is not blank and the last observation of the key since
  the last reset was not an exact one.
\<close>

theorem gate_refines_last_form:
  "requires_reacquisition env key (run_ops ops) =
     (exactness_gate_mode env = ''enforce'' \<and> normalize_evidence_key key \<noteq> [] \<and>
      last_form (normalize_evidence_key key) (rev ops) \<noteq> Some Exact)"
proof (cases "normalize_evidence_key key = []")
  case True
  then show ?thesis by (simp add: requires_reacquisition_form)
next
  case False
  then show ?thesis by (simp add: requires_reacquisition_form run_ops_form)
qed

text \<open>
  In every ledger built by operations that name a non-exact form for non-exact evidence, keys are distinct,
  an entry that demands a new observation is not exact, and so the audit never counts more demands than
  entries whose latest form is not exact.
\<close>

lemma audit_demands_bounded:
  assumes "list_all op_ok ops"
  shows "ledger_inv (run_ops ops) \<and>
    the (map_of (evidence_safety_summary (ledger (run_ops ops))) ''reacquisition_required'') \<le>
    the (map_of (evidence_safety_summary (ledger (run_ops ops))) ''non_exact_latest'')"
proof -
  have inv: "ledger_inv (run_ops ops)" by (rule run_ops_inv [OF assms])
  with summary_bound [OF inv] show ?thesis by (simp add: evidence_safety_summary_def Let_def)
qed

definition sample_ops :: "evidence_op list" where
  "sample_ops = [RecordNonExact ''file:a.py'' ''d'' Summary 1, RequireExact None ''./a.py''
     , RecordExact ''b.py'' ''e'' 2 None None True]"

lemma audit_demands_bounded_witness:
  "ledger_inv (run_ops sample_ops) \<and>
    the (map_of (evidence_safety_summary (ledger (run_ops sample_ops))) ''reacquisition_required'') \<le>
    the (map_of (evidence_safety_summary (ledger (run_ops sample_ops))) ''non_exact_latest'')"
  by (rule audit_demands_bounded) (simp add: sample_ops_def)

end
