(* ===== verification/Smoothness.thy ===== *)
theory Smoothness
  imports Complex_Main PyJson
begin

section \<open>Smoothness scoring, mode policy and the tracker\<close>

text \<open>
  Models \<open>src/tok/runtime/smoothness\<close>: the data of \<open>models.py\<close>, the scores of \<open>scoring.py\<close>, the mode
  policy of \<open>policy.py\<close> and the \<open>SmoothnessTracker\<close> of \<open>tracker.py\<close> as a state machine.

  The average of a task is a rational number here; the code rounds it to one decimal for display and nothing
  else reads it. \<open>int(average)\<close> is the quotient of the sum by the number of turns. Fresh UUIDs are arguments
  of \<open>start_turn\<close>. The lock makes each operation atomic, so an operation is one step.
\<close>

subsection \<open>Data\<close>

datatype tok_mode = FULL_TOK | GUARDED_TOK | SMOOTH_MODE | LOSSLESS_TASK_MODE

datatype event_type =
    STREAM_READ_ERROR
  | EMPTY_STREAM_SUCCESS
  | STREAM_RECOVERY_STARTED
  | STREAM_RECOVERY_SUCCEEDED
  | STREAM_RECOVERY_LOOP_BREAKER
  | UPSTREAM_400_AFTER_PREPARED_PAYLOAD
  | THINKING_BLOCK_MUTATION
  | THINKING_BLOCK_MUTATION_RESTORED
  | MESSAGES_CHANGED_OPEN_TOOL_LOOP
  | HISTORY_WINNOWING_ACTIVE_LOOP
  | SEMANTIC_DEDUP_ACTIVE_FILE
  | PROMPT_OPTIMIZATION_ACTIVE_TASK
  | REPEATED_ACTIVE_FILE_READ
  | REPEATED_SEARCH_SAME_TARGET
  | USER_INTERRUPT_REDIRECTION
  | DIRECT_ACTION_AFTER_FIRST_READ

fun event_value :: "event_type \<Rightarrow> string" where
  "event_value STREAM_READ_ERROR = ''stream_read_error''"
| "event_value EMPTY_STREAM_SUCCESS = ''empty_stream_success''"
| "event_value STREAM_RECOVERY_STARTED = ''stream_recovery_started''"
| "event_value STREAM_RECOVERY_SUCCEEDED = ''stream_recovery_succeeded''"
| "event_value STREAM_RECOVERY_LOOP_BREAKER = ''stream_recovery_loop_breaker''"
| "event_value UPSTREAM_400_AFTER_PREPARED_PAYLOAD = ''upstream_400_after_prepared_payload''"
| "event_value THINKING_BLOCK_MUTATION = ''thinking_block_mutation''"
| "event_value THINKING_BLOCK_MUTATION_RESTORED = ''thinking_block_mutation_restored''"
| "event_value MESSAGES_CHANGED_OPEN_TOOL_LOOP = ''messages_changed_open_tool_loop''"
| "event_value HISTORY_WINNOWING_ACTIVE_LOOP = ''history_winnowing_active_loop''"
| "event_value SEMANTIC_DEDUP_ACTIVE_FILE = ''semantic_dedup_active_file''"
| "event_value PROMPT_OPTIMIZATION_ACTIVE_TASK = ''prompt_optimization_active_task''"
| "event_value REPEATED_ACTIVE_FILE_READ = ''repeated_active_file_read''"
| "event_value REPEATED_SEARCH_SAME_TARGET = ''repeated_search_same_target''"
| "event_value USER_INTERRUPT_REDIRECTION = ''user_interrupt_redirection''"
| "event_value DIRECT_ACTION_AFTER_FIRST_READ = ''direct_action_after_first_read''"

record smoothness_event =
  event_type :: event_type
  event_turn :: string
  event_task :: string
  penalty :: int
  metadata :: "json dict"

record turn_report =
  turn_id :: string
  turn_task :: string
  turn_score :: int
  turn_labour :: int
  turn_mode :: tok_mode
  turn_events :: "smoothness_event list"

record task_report =
  task_id :: string
  average_turn_score :: rat
  worst_turn_score :: int
  task_score :: int
  task_labour :: int
  event_counts :: counts
  task_turns :: nat

text \<open>The modes are ordered by how much they restrict compression.\<close>

fun severity :: "tok_mode \<Rightarrow> nat" where
  "severity FULL_TOK = 0"
| "severity GUARDED_TOK = 1"
| "severity SMOOTH_MODE = 2"
| "severity LOSSLESS_TASK_MODE = 3"

lemma severity_inject [simp]: "severity a = severity b \<longleftrightarrow> a = b"
  by (cases a; cases b) simp_all

instantiation tok_mode :: linorder
begin

definition less_eq_tok_mode :: "tok_mode \<Rightarrow> tok_mode \<Rightarrow> bool" where
  "less_eq_tok_mode a b = (severity a \<le> severity b)"

definition less_tok_mode :: "tok_mode \<Rightarrow> tok_mode \<Rightarrow> bool" where
  "less_tok_mode a b = (severity a < severity b)"

instance
  by standard (auto simp: less_eq_tok_mode_def less_tok_mode_def simp flip: severity_inject)

end

subsection \<open>Scores\<close>

fun penalty_of :: "event_type \<Rightarrow> int option" where
  "penalty_of STREAM_READ_ERROR = Some 12"
| "penalty_of EMPTY_STREAM_SUCCESS = Some 8"
| "penalty_of STREAM_RECOVERY_STARTED = Some 10"
| "penalty_of STREAM_RECOVERY_LOOP_BREAKER = Some 8"
| "penalty_of UPSTREAM_400_AFTER_PREPARED_PAYLOAD = Some 25"
| "penalty_of THINKING_BLOCK_MUTATION = Some 35"
| "penalty_of MESSAGES_CHANGED_OPEN_TOOL_LOOP = Some 12"
| "penalty_of HISTORY_WINNOWING_ACTIVE_LOOP = Some 12"
| "penalty_of SEMANTIC_DEDUP_ACTIVE_FILE = Some 10"
| "penalty_of PROMPT_OPTIMIZATION_ACTIVE_TASK = Some 6"
| "penalty_of REPEATED_ACTIVE_FILE_READ = Some 6"
| "penalty_of REPEATED_SEARCH_SAME_TARGET = Some 4"
| "penalty_of USER_INTERRUPT_REDIRECTION = Some 12"
| "penalty_of _ = None"

fun bonus_of :: "event_type \<Rightarrow> int option" where
  "bonus_of DIRECT_ACTION_AFTER_FIRST_READ = Some 5"
| "bonus_of _ = None"

definition TURN_START_SCORE :: int where "TURN_START_SCORE = 100"

definition apply_event :: "event_type \<Rightarrow> int \<Rightarrow> int" where
  "apply_event e score =
     (case penalty_of e of
        Some p \<Rightarrow> score - p
      | None \<Rightarrow> (case bonus_of e of Some b \<Rightarrow> score + b | None \<Rightarrow> score))"

fun labour_of :: "event_type \<Rightarrow> int" where
  "labour_of STREAM_RECOVERY_STARTED = 1"
| "labour_of REPEATED_ACTIVE_FILE_READ = 1"
| "labour_of THINKING_BLOCK_MUTATION = 2"
| "labour_of USER_INTERRUPT_REDIRECTION = 1"
| "labour_of _ = 0"

definition compute_labour_index :: "smoothness_event list \<Rightarrow> int" where
  "compute_labour_index events = fold (\<lambda>e labour. labour + labour_of (event_type e)) events 0"

definition raw_score :: "smoothness_event list \<Rightarrow> int" where
  "raw_score events = fold (\<lambda>e score. apply_event (event_type e) score) events TURN_START_SCORE"

definition score_turn :: "string \<Rightarrow> string \<Rightarrow> smoothness_event list \<Rightarrow> turn_report" where
  "score_turn turn task events =
     \<lparr>turn_id = turn, turn_task = task, turn_score = max 0 (min 100 (raw_score events)),
      turn_labour = compute_labour_index events, turn_mode = FULL_TOK, turn_events = events\<rparr>"

definition count_events :: "turn_report list \<Rightarrow> counts" where
  "count_events reports =
     fold (\<lambda>r c. fold (\<lambda>e c. cadd (event_value (event_type e)) 1 c) (turn_events r) c) reports []"

definition score_task :: "string \<Rightarrow> turn_report list \<Rightarrow> task_report" where
  "score_task task reports =
     (if reports = [] then
        \<lparr>task_id = task, average_turn_score = 100, worst_turn_score = 100, task_score = 100,
         task_labour = 0, event_counts = [], task_turns = 0\<rparr>
      else
        let scores = map turn_score reports
        in \<lparr>task_id = task, average_turn_score = of_int (sum_list scores) / of_nat (length scores),
            worst_turn_score = Min (set scores), task_score = sum_list scores div int (length scores),
            task_labour = sum_list (map turn_labour reports), event_counts = count_events reports,
            task_turns = length reports\<rparr>)"

subsection \<open>Policy\<close>

definition choose_mode_by_score :: "int \<Rightarrow> tok_mode" where
  "choose_mode_by_score score =
     (if 70 \<le> score then FULL_TOK
      else if 55 \<le> score then GUARDED_TOK
      else if 40 \<le> score then SMOOTH_MODE
      else LOSSLESS_TASK_MODE)"

definition has_event :: "event_type \<Rightarrow> turn_report \<Rightarrow> bool" where
  "has_event t report = list_ex (\<lambda>e. event_type e = t) (turn_events report)"

definition check_mode_overrides :: "turn_report \<Rightarrow> task_report option \<Rightarrow> tok_mode option" where
  "check_mode_overrides report task =
     (if has_event THINKING_BLOCK_MUTATION report then Some SMOOTH_MODE
      else if 2 \<le> length (filter (\<lambda>e. event_type e = STREAM_RECOVERY_STARTED) (turn_events report))
      then Some SMOOTH_MODE
      else if (case task of None \<Rightarrow> False
               | Some t \<Rightarrow> 2 \<le> cget ''stream_recovery_started'' (event_counts t))
      then Some SMOOTH_MODE
      else if has_event UPSTREAM_400_AFTER_PREPARED_PAYLOAD report then Some SMOOTH_MODE
      else None)"

definition choose_tok_mode :: "turn_report \<Rightarrow> task_report option \<Rightarrow> tok_mode" where
  "choose_tok_mode report task =
     (case check_mode_overrides report task of
        Some m \<Rightarrow> m
      | None \<Rightarrow> choose_mode_by_score (turn_score report))"

subsection \<open>The tracker\<close>

record tracker =
  current_turn_id :: "string option"
  current_task_id :: "string option"
  current_events :: "smoothness_event list"
  turn_reports :: "turn_report list"
  task_reports :: "task_report dict"

definition new_tracker :: tracker where
  "new_tracker = \<lparr>current_turn_id = None, current_task_id = None, current_events = [],
     turn_reports = [], task_reports = []\<rparr>"

definition start_turn :: "string \<times> string \<Rightarrow> string option \<Rightarrow> string option \<Rightarrow> tracker \<Rightarrow> tracker" where
  "start_turn uuids turn task st =
     st\<lparr>current_turn_id := Some (case turn of Some t \<Rightarrow> t | None \<Rightarrow> ''turn_'' @ take 8 (fst uuids)),
        current_task_id := Some (case task of Some t \<Rightarrow> t | None \<Rightarrow> ''task_'' @ take 8 (snd uuids)),
        current_events := []\<rparr>"

definition record_event :: "event_type \<Rightarrow> json dict \<Rightarrow> tracker \<Rightarrow> tracker py" where
  "record_event t meta st =
     (case (current_turn_id st, current_task_id st) of
        (Some turn, Some task) \<Rightarrow>
          Inr (st\<lparr>current_events := current_events st @
            [\<lparr>event_type = t, event_turn = turn, event_task = task,
              penalty = (case penalty_of t of Some p \<Rightarrow> p | None \<Rightarrow> 0), metadata = meta\<rparr>]\<rparr>)
      | _ \<Rightarrow> Inl RuntimeError)"

definition finish_turn :: "tracker \<Rightarrow> (turn_report \<times> tracker) py" where
  "finish_turn st =
     (case (current_turn_id st, current_task_id st) of
        (Some turn, Some task) \<Rightarrow>
          (let report = score_turn turn task (current_events st);
               mode = choose_tok_mode report (map_of (task_reports st) task);
               report = report\<lparr>turn_mode := mode\<rparr>;
               reports = turn_reports st @ [report];
               mine = filter (\<lambda>r. turn_task r = task) reports
           in Inr (report, st\<lparr>turn_reports := reports,
                    task_reports := dict_set task (score_task task mine) (task_reports st),
                    current_turn_id := None, current_events := []\<rparr>))
      | _ \<Rightarrow> Inl RuntimeError)"

definition current_task_report :: "tracker \<Rightarrow> task_report option" where
  "current_task_report st =
     (case current_task_id st of
        None \<Rightarrow> None
      | Some task \<Rightarrow>
          (let mine = filter (\<lambda>r. turn_task r = task) (turn_reports st)
           in if mine = [] then None else Some (score_task task mine)))"

definition get_task_report :: "string \<Rightarrow> tracker \<Rightarrow> task_report option" where
  "get_task_report task st = map_of (task_reports st) task"

definition reset_tracker :: "tracker \<Rightarrow> tracker" where
  "reset_tracker st = st\<lparr>current_turn_id := None, current_task_id := None, current_events := [],
     turn_reports := [], task_reports := []\<rparr>"

subsection \<open>The tracker as a state machine\<close>

inductive tracker_step :: "tracker \<Rightarrow> tracker \<Rightarrow> bool" where
  start: "tracker_step st (start_turn uuids turn task st)"
| event: "record_event t meta st = Inr st' \<Longrightarrow> tracker_step st st'"
| finish: "finish_turn st = Inr (report, st') \<Longrightarrow> tracker_step st st'"
| reset: "tracker_step st (reset_tracker st)"

inductive reachable :: "tracker \<Rightarrow> bool" where
  init: "reachable new_tracker"
| step: "reachable st \<Longrightarrow> tracker_step st st' \<Longrightarrow> reachable st'"

inductive_cases tracker_stepE: "tracker_step st st'"

inductive_simps reachable_simps: "reachable st"

subsection \<open>Facts about scores and modes\<close>

lemma score_turn_bounds: "0 \<le> turn_score (score_turn turn task events) \<and> turn_score (score_turn turn task events) \<le> 100"
  by (auto simp: score_turn_def)

lemma penalty_positive: "penalty_of e = Some p \<Longrightarrow> 0 < p"
  by (cases e) auto

lemma apply_event_commute: "apply_event a (apply_event b s) = apply_event b (apply_event a s)"
  by (cases a; cases b) (simp_all add: apply_event_def)

lemma apply_event_add: "apply_event e (s + d) = apply_event e s + d"
  by (cases e) (simp_all add: apply_event_def)

definition event_delta :: "smoothness_event \<Rightarrow> int" where
  "event_delta e = apply_event (event_type e) 0"

lemma raw_score_sum: "raw_score es = 100 + sum_list (map event_delta es)"
proof -
  have "fold (\<lambda>e score. apply_event (event_type e) score) es s = s + sum_list (map event_delta es)" for s
  proof (induction es arbitrary: s)
    case (Cons e es)
    have "apply_event (event_type e) s = s + event_delta e"
      using apply_event_add [of "event_type e" 0 s] by (simp add: event_delta_def)
    with Cons show ?case by simp
  qed simp
  then show ?thesis by (simp add: raw_score_def TURN_START_SCORE_def)
qed

lemma raw_score_perm: "mset es = mset fs \<Longrightarrow> raw_score es = raw_score fs"
proof -
  assume "mset es = mset fs"
  then have "sum_list (map event_delta es) = sum_list (map event_delta fs)"
    by (metis mset_map sum_mset_sum_list)
  then show ?thesis by (simp add: raw_score_sum)
qed

lemma mode_by_score_antimono: "s \<le> s' \<Longrightarrow> choose_mode_by_score s' \<le> choose_mode_by_score s"
  by (auto simp: choose_mode_by_score_def less_eq_tok_mode_def)

lemma sum_list_between:
  "(\<forall>x \<in> set xs. lo \<le> x \<and> x \<le> hi) \<Longrightarrow> lo * int (length xs) \<le> sum_list xs \<and> sum_list xs \<le> hi * int (length xs)"
  by (induction xs) (auto simp: algebra_simps)

lemma score_task_bounds:
  assumes "reports \<noteq> []"
  shows "worst_turn_score (score_task t reports) \<le> task_score (score_task t reports)"
    and "task_score (score_task t reports) \<le> Max (set (map turn_score reports))"
proof -
  define scores where "scores = map turn_score reports"
  have ne: "scores \<noteq> []" using assms by (simp add: scores_def)
  have "\<forall>x \<in> set scores. Min (set scores) \<le> x \<and> x \<le> Max (set scores)" by simp
  from sum_list_between [OF this]
  have lo: "Min (set scores) * int (length scores) \<le> sum_list scores"
    and hi: "sum_list scores \<le> Max (set scores) * int (length scores)" by blast+
  have pos: "0 < int (length scores)" using ne by simp
  have "Min (set scores) \<le> sum_list scores div int (length scores)"
    using zdiv_mono1 [OF lo pos] pos by simp
  then show "worst_turn_score (score_task t reports) \<le> task_score (score_task t reports)"
    using assms by (simp add: score_task_def Let_def scores_def)
  have "sum_list scores div int (length scores) \<le> Max (set scores)"
    using zdiv_mono1 [OF hi pos] pos by simp
  then show "task_score (score_task t reports) \<le> Max (set (map turn_score reports))"
    using assms by (simp add: score_task_def Let_def scores_def)
qed

lemma event_value_inject [simp]: "event_value a = event_value b \<longleftrightarrow> a = b"
  by (cases a; cases b) simp_all

definition event_occurrences :: "event_type \<Rightarrow> turn_report list \<Rightarrow> nat" where
  "event_occurrences t reports = length (filter (\<lambda>e. event_type e = t) (concat (map turn_events reports)))"

lemma count_events_occurrences: "cget (event_value t) (count_events reports) = int (event_occurrences t reports)"
proof -
  have inner: "cget (event_value t) (fold (\<lambda>e c. cadd (event_value (event_type e)) 1 c) es c) =
      cget (event_value t) c + int (length (filter (\<lambda>e. event_type e = t) es))" for es c
    by (induction es arbitrary: c) auto
  have "cget (event_value t) (fold (\<lambda>r c. fold (\<lambda>e c. cadd (event_value (event_type e)) 1 c) (turn_events r) c) rs c) =
      cget (event_value t) c + int (event_occurrences t rs)" for rs c
    by (induction rs arbitrary: c) (auto simp: inner event_occurrences_def)
  then show ?thesis by (simp add: count_events_def)
qed

subsection \<open>The invariant of the tracker\<close>

definition task_turns_of :: "string \<Rightarrow> turn_report list \<Rightarrow> turn_report list" where
  "task_turns_of task reports = filter (\<lambda>r. turn_task r = task) reports"

definition report_of :: "string \<Rightarrow> turn_report list \<Rightarrow> task_report option" where
  "report_of task reports =
     (if task_turns_of task reports = [] then None else Some (score_task task (task_turns_of task reports)))"

definition tracker_inv :: "tracker \<Rightarrow> bool" where
  "tracker_inv st \<longleftrightarrow>
     (\<forall>task. map_of (task_reports st) task = report_of task (turn_reports st)) \<and>
     (\<forall>i < length (turn_reports st).
        0 \<le> turn_score (turn_reports st ! i) \<and> turn_score (turn_reports st ! i) \<le> 100 \<and>
        turn_mode (turn_reports st ! i) =
          choose_tok_mode (turn_reports st ! i)
            (report_of (turn_task (turn_reports st ! i)) (take i (turn_reports st)))) \<and>
     (current_turn_id st \<noteq> None \<longrightarrow> current_task_id st \<noteq> None)"

lemma choose_tok_mode_mode [simp]: "choose_tok_mode (r\<lparr>turn_mode := m\<rparr>) task = choose_tok_mode r task"
  by (simp add: choose_tok_mode_def check_mode_overrides_def has_event_def)

lemma finish_turn_inv:
  assumes "tracker_inv st" and "finish_turn st = Inr (report, st')"
  shows "tracker_inv st'"
proof -
  obtain turn task where cur: "current_turn_id st = Some turn" "current_task_id st = Some task"
    using assms(2) by (auto simp: finish_turn_def split: option.splits)
  define rep where "rep = (score_turn turn task (current_events st))
      \<lparr>turn_mode := choose_tok_mode (score_turn turn task (current_events st)) (map_of (task_reports st) task)\<rparr>"
  have st': "turn_reports st' = turn_reports st @ [rep]"
    "task_reports st' = dict_set task (score_task task (task_turns_of task (turn_reports st @ [rep]))) (task_reports st)"
    "current_turn_id st' = None"
    using assms(2) cur by (auto simp: finish_turn_def rep_def Let_def task_turns_of_def)
  have task: "turn_task rep = task" by (simp add: rep_def score_turn_def)
  have score: "0 \<le> turn_score rep \<and> turn_score rep \<le> 100" by (simp add: rep_def score_turn_def)
  have mode: "turn_mode rep = choose_tok_mode rep (report_of task (turn_reports st))"
    using assms(1) by (simp add: rep_def tracker_inv_def)
  have "map_of (task_reports st') t = report_of t (turn_reports st')" for t
    using assms(1) task
    by (cases "t = task") (auto simp: st' report_of_def task_turns_of_def tracker_inv_def)
  moreover have "0 \<le> turn_score (turn_reports st' ! i) \<and> turn_score (turn_reports st' ! i) \<le> 100 \<and>
      turn_mode (turn_reports st' ! i) = choose_tok_mode (turn_reports st' ! i)
        (report_of (turn_task (turn_reports st' ! i)) (take i (turn_reports st')))"
    if "i < length (turn_reports st')" for i
  proof (cases "i < length (turn_reports st)")
    case True
    with assms(1) show ?thesis by (simp add: st' nth_append tracker_inv_def)
  next
    case False
    with that have "i = length (turn_reports st)" by (simp add: st')
    with score mode task show ?thesis by (simp add: st')
  qed
  ultimately show ?thesis using st'(3) by (simp add: tracker_inv_def)
qed

lemma tracker_step_inv:
  assumes "tracker_inv st" and "tracker_step st st'"
  shows "tracker_inv st'"
  using assms(2)
proof (rule tracker_stepE)
  fix uuids turn task
  assume "st' = start_turn uuids turn task st"
  with assms(1) show ?thesis by (simp add: tracker_inv_def start_turn_def)
next
  fix t meta
  assume "record_event t meta st = Inr st'"
  then have "\<exists>e. st' = st\<lparr>current_events := e\<rparr>"
    by (auto simp: record_event_def split: option.splits)
  with assms(1) show ?thesis by (auto simp: tracker_inv_def)
next
  fix report
  assume "finish_turn st = Inr (report, st')"
  with assms(1) show ?thesis by (rule finish_turn_inv)
next
  assume "st' = reset_tracker st"
  then show ?thesis by (simp add: tracker_inv_def reset_tracker_def report_of_def task_turns_of_def)
qed

lemma reachable_inv: "reachable st \<Longrightarrow> tracker_inv st"
proof (induction rule: reachable.induct)
  case init
  show ?case by (simp add: tracker_inv_def new_tracker_def report_of_def task_turns_of_def)
next
  case (step st st')
  then show ?case using tracker_step_inv by blast
qed

lemma current_report_of:
  "current_task_report st =
     (case current_task_id st of None \<Rightarrow> None | Some task \<Rightarrow> report_of task (turn_reports st))"
  by (simp add: current_task_report_def report_of_def task_turns_of_def Let_def split: option.splits)

subsection \<open>Properties\<close>

text \<open>
  C37: In every reachable state of the tracker, the stored report of a task is the score of exactly the finished
  turns of that task, the report computed for the current task is the stored one, every turn score lies
  between 0 and 100, and the mode of each turn is the policy's choice on its report and on the report of the
  task as it was before that turn.
\<close>

theorem tracker_reports_consistent:
  assumes "reachable st"
  shows "(\<forall>task. get_task_report task st = report_of task (turn_reports st)) \<and>
    current_task_report st = Option.bind (current_task_id st) (\<lambda>task. get_task_report task st) \<and>
    list_all (\<lambda>r. 0 \<le> turn_score r \<and> turn_score r \<le> 100) (turn_reports st) \<and>
    map turn_mode (turn_reports st) =
      map (\<lambda>i. choose_tok_mode (turn_reports st ! i)
            (report_of (turn_task (turn_reports st ! i)) (take i (turn_reports st))))
          [0..<length (turn_reports st)]"
proof -
  have inv: "tracker_inv st" by (rule reachable_inv [OF assms])
  have "map turn_mode (turn_reports st) =
      map (\<lambda>i. choose_tok_mode (turn_reports st ! i)
            (report_of (turn_task (turn_reports st ! i)) (take i (turn_reports st))))
          [0..<length (turn_reports st)]"
    using inv by (intro nth_equalityI) (simp_all add: tracker_inv_def)
  moreover have "list_all (\<lambda>r. 0 \<le> turn_score r \<and> turn_score r \<le> 100) (turn_reports st)"
    using inv by (auto simp: tracker_inv_def list_all_iff in_set_conv_nth)
  ultimately show ?thesis
    using inv by (auto simp: tracker_inv_def get_task_report_def current_report_of split: option.splits)
qed

definition sample_tracker :: tracker where
  "sample_tracker =
     (case finish_turn (start_turn ([], []) (Some ''t1'') (Some ''k'') new_tracker) of
        Inr (_, st) \<Rightarrow> st | Inl _ \<Rightarrow> new_tracker)"

lemma sample_tracker_reachable: "reachable sample_tracker"
proof -
  have "reachable (start_turn ([], []) (Some ''t1'') (Some ''k'') new_tracker)"
    using reachable.step [OF reachable.init tracker_step.start] .
  moreover obtain r where "finish_turn (start_turn ([], []) (Some ''t1'') (Some ''k'') new_tracker) = Inr (r, sample_tracker)"
    by (simp add: sample_tracker_def finish_turn_def start_turn_def Let_def)
  ultimately show ?thesis using reachable.step tracker_step.finish by blast
qed

theorem tracker_reports_consistent_witness:
  "get_task_report ''k'' sample_tracker = report_of ''k'' (turn_reports sample_tracker) \<and>
   length (turn_reports sample_tracker) = 1"
proof
  show "get_task_report ''k'' sample_tracker = report_of ''k'' (turn_reports sample_tracker)"
    using tracker_reports_consistent [OF sample_tracker_reachable] by blast
  show "length (turn_reports sample_tracker) = 1"
    by (simp add: sample_tracker_def finish_turn_def start_turn_def Let_def new_tracker_def)
qed

text \<open>
  The score of a turn does not depend on the order in which its events were recorded.
\<close>

lemma score_order_independent:
  assumes "mset es = mset fs"
  shows "turn_score (score_turn t k es) = turn_score (score_turn t k fs) \<and>
    choose_mode_by_score (turn_score (score_turn t k es)) = choose_mode_by_score (turn_score (score_turn t k fs))"
  using raw_score_perm [OF assms] by (simp add: score_turn_def)

definition sample_event :: "event_type \<Rightarrow> smoothness_event" where
  "sample_event e = \<lparr>event_type = e, event_turn = ''t'', event_task = ''k'', penalty = 0, metadata = []\<rparr>"

lemma score_order_independent_witness:
  "turn_score (score_turn ''t'' ''k'' [sample_event STREAM_READ_ERROR, sample_event EMPTY_STREAM_SUCCESS]) =
   turn_score (score_turn ''t'' ''k'' [sample_event EMPTY_STREAM_SUCCESS, sample_event STREAM_READ_ERROR]) \<and>
   turn_score (score_turn ''t'' ''k'' [sample_event STREAM_READ_ERROR, sample_event EMPTY_STREAM_SUCCESS]) = 80"
proof
  have "mset [sample_event STREAM_READ_ERROR, sample_event EMPTY_STREAM_SUCCESS] =
      mset [sample_event EMPTY_STREAM_SUCCESS, sample_event STREAM_READ_ERROR]" by simp
  from score_order_independent [OF this, of "''t''" "''k''"]
  show "turn_score (score_turn ''t'' ''k'' [sample_event STREAM_READ_ERROR, sample_event EMPTY_STREAM_SUCCESS]) =
    turn_score (score_turn ''t'' ''k'' [sample_event EMPTY_STREAM_SUCCESS, sample_event STREAM_READ_ERROR])" by blast
qed (simp add: score_turn_def raw_score_def sample_event_def TURN_START_SCORE_def apply_event_def)

text \<open>
  For a task with at least one turn the task score lies between its worst and its best turn, and the event
  counts are the numbers of occurrences over all turns of the task.
\<close>

lemma task_score_between:
  assumes "reports \<noteq> []"
  shows "worst_turn_score (score_task k reports) \<le> task_score (score_task k reports) \<and>
    task_score (score_task k reports) \<le> Max (set (map turn_score reports)) \<and>
    cget (event_value e) (event_counts (score_task k reports)) = int (event_occurrences e reports)"
  using score_task_bounds [OF assms] assms by (simp add: score_task_def Let_def count_events_occurrences)

lemma task_score_between_witness:
  "worst_turn_score (score_task ''k'' [score_turn ''t'' ''k'' [sample_event STREAM_READ_ERROR]]) \<le>
     task_score (score_task ''k'' [score_turn ''t'' ''k'' [sample_event STREAM_READ_ERROR]]) \<and>
   cget ''stream_read_error'' (event_counts (score_task ''k'' [score_turn ''t'' ''k'' [sample_event STREAM_READ_ERROR]])) = 1"
proof -
  have ne: "[score_turn ''t'' ''k'' [sample_event STREAM_READ_ERROR]] \<noteq> []" by simp
  have "event_occurrences STREAM_READ_ERROR [score_turn ''t'' ''k'' [sample_event STREAM_READ_ERROR]] = 1"
    by (simp add: event_occurrences_def score_turn_def sample_event_def)
  with task_score_between [OF ne, of "''k''" STREAM_READ_ERROR] show ?thesis by simp
qed

definition degraded_turn :: turn_report where
  "degraded_turn = score_turn ''t'' ''k'' [sample_event THINKING_BLOCK_MUTATION,
     sample_event UPSTREAM_400_AFTER_PREPARED_PAYLOAD, sample_event USER_INTERRUPT_REDIRECTION]"

text \<open>
  An override is not a lower bound: the degraded turn, with a thinking mutation, a rejected payload and an
  interruption, scores 28, for which the thresholds choose the lossless mode, but the override returns the
  weaker smooth mode.
\<close>

lemma override_weakens_mode:
  "turn_score degraded_turn = 28 \<and> choose_mode_by_score (turn_score degraded_turn) = LOSSLESS_TASK_MODE \<and>
   choose_tok_mode degraded_turn None < choose_mode_by_score (turn_score degraded_turn)"
  by (simp add: degraded_turn_def score_turn_def raw_score_def sample_event_def TURN_START_SCORE_def apply_event_def
      choose_mode_by_score_def choose_tok_mode_def check_mode_overrides_def has_event_def less_tok_mode_def)

end
