(* ===== verification/SmartPolicy.thy ===== *)
theory SmartPolicy
  imports Complex_Main PyJson
begin

section \<open>The smart-zone policy\<close>

text \<open>
  Models \<open>src/tok/runtime/policy/smart_policy.py\<close>: the model families, the policy tables, the
  pressure score, the detection of the task type and the state transition \<open>advance_state\<close>.

  Confidences are rational numbers. The code divides two small integers and compares the
  quotients with each other and with \<open>0.7\<close>; IEEE division is correctly rounded, so equal quotients give
  equal floats and, for any number of tools that occurs, different quotients keep their order.
\<close>

subsection \<open>Data\<close>

record model_family =
  provider :: string
  family :: string

definition family_key :: "model_family \<Rightarrow> string" where
  "family_key f = provider f @ '':'' @ family f"

definition CANONICAL_WIRE_FIELD_ORDER :: "string list" where
  "CANONICAL_WIRE_FIELD_ORDER =
     [''turns'', ''goal'', ''files'', ''cmds'', ''tests'', ''errs'', ''constraints'', ''next'', ''blockers'',
      ''questions'', ''facts'']"

record memory_profile =
  field_limits :: "int dict"
  question_limit :: int
  fact_limit :: int
  field_order :: "string list"

datatype history_value = Limit int | Names "string list"

record smart_zone_policy =
  policy_family :: model_family
  default_mode :: string
  balanced_threshold :: int
  recovery_threshold :: int
  relax_threshold :: int
  memory_profiles :: "memory_profile dict"
  history_profiles :: "history_value dict dict"
  tool_levels :: "string dict"

record adaptive_state =
  state_mode :: string
  recent_pressure :: int
  clean_streak :: int
  task_type :: string
  task_confidence :: rat

definition UNIVERSAL_MODE :: string where "UNIVERSAL_MODE = ''tok-universal''"

subsection \<open>Model families\<close>

definition starts_with_any :: "string list \<Rightarrow> string \<Rightarrow> bool" where
  "starts_with_any ps s = list_ex (\<lambda>p. prefix p s) ps"

text \<open>\<open>s.split(sep, 1)\<close> for a separator that occurs.\<close>

definition split_once :: "char \<Rightarrow> string \<Rightarrow> string \<times> string" where
  "split_once sep s = (takeWhile (\<lambda>c. c \<noteq> sep) s, tl (dropWhile (\<lambda>c. c \<noteq> sep) s))"

definition identify_model_family :: "string \<Rightarrow> model_family" where
  "identify_model_family model =
     (let lowered = py_lower (py_strip model) in
      if starts_with_any [''google/''] lowered \<or> py_contains ''gemini'' lowered
      then \<lparr>provider = ''google'', family = ''gemini''\<rparr>
      else if starts_with_any [''openai/'', ''gpt-''] lowered \<or> py_contains ''/gpt-'' lowered
      then \<lparr>provider = ''openai'', family = ''gpt''\<rparr>
      else if starts_with_any [''anthropic/'', ''claude-''] lowered \<or> py_contains ''/claude-'' lowered
      then \<lparr>provider = ''anthropic'', family = ''claude''\<rparr>
      else if py_contains ''deepseek'' lowered then \<lparr>provider = ''deepseek'', family = ''deepseek''\<rparr>
      else if CHR ''/'' \<in> set lowered then
        let (prov, rest) = split_once (CHR ''/'') lowered;
            fam = fst (split_once (CHR ''-'') rest)
        in \<lparr>provider = (if prov \<noteq> [] then prov else ''unknown''),
            family = (if fam \<noteq> [] then fam else ''unknown'')\<rparr>
      else \<lparr>provider = ''unknown'', family = ''unknown''\<rparr>)"

subsection \<open>The policy tables\<close>

definition universal_memory_profile :: memory_profile where
  "universal_memory_profile = \<lparr>
     field_limits = [(''files'', 3), (''cmds'', 4), (''tests'', 2), (''errs'', 2), (''constraints'', 2)],
     question_limit = 2, fact_limit = 4, field_order = CANONICAL_WIRE_FIELD_ORDER\<rparr>"

definition research_memory_profile :: memory_profile where
  "research_memory_profile = \<lparr>
     field_limits = [(''files'', 4), (''cmds'', 5), (''tests'', 2), (''errs'', 2), (''constraints'', 2)],
     question_limit = 3, fact_limit = 6, field_order = CANONICAL_WIRE_FIELD_ORDER\<rparr>"

definition universal_history_profile :: "history_value dict" where
  "universal_history_profile =
     [(''files'', Limit 3), (''cmds'', Limit 4), (''tests'', Limit 2), (''errs'', Limit 2),
      (''constraints'', Limit 2), (''questions'', Limit 2), (''facts'', Limit 4), (''_max_chars'', Limit 640),
      (''_drop_priority'', Names [''facts'', ''questions'', ''cmds'', ''tests'', ''files'', ''constraints'',
         ''goal'', ''next''])]"

definition make_policy :: "model_family \<Rightarrow> string \<Rightarrow> int \<Rightarrow> int \<Rightarrow> smart_zone_policy" where
  "make_policy fam mode balanced recovery = \<lparr>
     policy_family = fam, default_mode = mode, balanced_threshold = balanced,
     recovery_threshold = recovery, relax_threshold = 0,
     memory_profiles = [(UNIVERSAL_MODE, universal_memory_profile), (''research-safe'', research_memory_profile),
       (''aggressive'', universal_memory_profile), (''balanced'', universal_memory_profile),
       (''recovery'', universal_memory_profile)],
     history_profiles = [(UNIVERSAL_MODE, universal_history_profile),
       (''research-safe'', universal_history_profile), (''aggressive'', universal_history_profile),
       (''balanced'', universal_history_profile), (''recovery'', universal_history_profile)],
     tool_levels = [(UNIVERSAL_MODE, ''balanced''), (''research-safe'', ''conservative''),
       (''aggressive'', ''balanced''), (''balanced'', ''balanced''), (''recovery'', ''balanced'')]\<rparr>"

definition policy_for_model :: "string \<Rightarrow> smart_zone_policy" where
  "policy_for_model model =
     make_policy \<lparr>provider = ''universal'', family = ''universal''\<rparr> UNIVERSAL_MODE 2 5"

definition initial_state :: "smart_zone_policy \<Rightarrow> adaptive_state" where
  "initial_state policy = \<lparr>state_mode = default_mode policy, recent_pressure = 0, clean_streak = 0,
     task_type = ''mixed'', task_confidence = 0\<rparr>"

subsection \<open>Pressure and task type\<close>

definition PRESSURE_WEIGHTS :: "int dict" where
  "PRESSURE_WEIGHTS =
     [(''repeat_file_read'', 2), (''repeat_search'', 2), (''python_c_workaround'', 1),
      (''stderr_workaround'', 1), (''non_tok_response'', 2), (''fail_open_compat_response'', 2),
      (''malformed_tok_response'', 2), (''tool_contract_failure'', 2), (''cold_start_wire_fallback'', 1),
      (''blocker_rediscovery'', 2)]"

definition pressure_score :: "counts \<Rightarrow> int" where
  "pressure_score signals = sum_list (map (\<lambda>(key, weight). cget key signals * weight) PRESSURE_WEIGHTS)"

definition CODING_TOOLS :: "string list" where
  "CODING_TOOLS = [''write_file'', ''edit_file'', ''replace'', ''create_file'', ''run_shell'', ''execute'',
     ''pytest'', ''test'', ''apply_patch'']"

definition RESEARCH_TOOLS :: "string list" where
  "RESEARCH_TOOLS = [''grep_search'', ''search'', ''view_file'', ''read_file'', ''list_dir'',
     ''find_by_name'', ''code_search'']"

definition tool_key :: "string \<Rightarrow> string" where
  "tool_key t = filter (\<lambda>c. c \<noteq> CHR ''_'' \<and> c \<noteq> CHR ''-'') (py_lower t)"

text \<open>The size of the intersection of two sets of normalised names.\<close>

definition matches :: "string list \<Rightarrow> string list \<Rightarrow> nat" where
  "matches names known = length (filter (\<lambda>k. k \<in> set (map tool_key known)) (remdups (map tool_key names)))"

definition detect_task_type :: "string list \<Rightarrow> counts \<Rightarrow> string \<times> rat" where
  "detect_task_type tool_names content_patterns =
     (if tool_names = [] then (''mixed'', 0)
      else
        let coding = matches tool_names CODING_TOOLS;
            research = matches tool_names RESEARCH_TOOLS;
            coding = (if 0 < cget ''error_messages'' content_patterns then coding + 2 else coding);
            research = (if 0 < cget ''questions_asked'' content_patterns then research + 1 else research);
            total = length tool_names
        in if of_nat research * (3 / 2) < (of_nat coding :: rat)
           then (''coding'', min 1 (of_nat coding / of_nat (max total 1)))
           else if of_nat coding * (3 / 2) < (of_nat research :: rat)
           then (''research'', min 1 (of_nat research / of_nat (max total 1)))
           else (''mixed'', 1 / 2))"

definition select_optimal_mode :: "string \<Rightarrow> string \<Rightarrow> rat \<Rightarrow> string" where
  "select_optimal_mode model task confidence =
     (if task = ''research'' \<and> 7 / 10 \<le> confidence then ''research-safe'' else UNIVERSAL_MODE)"

text \<open>\<open>tool_names = None\<close> is the empty list: both skip the detection.\<close>

definition advance_state ::
    "smart_zone_policy \<Rightarrow> adaptive_state \<Rightarrow> counts \<Rightarrow> string list \<Rightarrow> counts \<Rightarrow> adaptive_state" where
  "advance_state policy state signals tool_names content_patterns =
     (let pressure = pressure_score signals;
          streak = (if pressure \<le> relax_threshold policy then clean_streak state + 1 else 0);
          (ttype, conf) =
            (if tool_names \<noteq> [] then
               let (detected, detected_conf) = detect_task_type tool_names content_patterns
               in if task_confidence state < detected_conf then (detected, detected_conf)
                  else (task_type state, task_confidence state)
             else (task_type state, task_confidence state))
      in \<lparr>state_mode = select_optimal_mode (family_key (policy_family policy)) ttype conf,
          recent_pressure = pressure, clean_streak = streak, task_type = ttype, task_confidence = conf\<rparr>)"

subsection \<open>Facts\<close>

lemma select_mode_cases: "select_optimal_mode m t c = UNIVERSAL_MODE \<or> select_optimal_mode m t c = ''research-safe''"
  by (simp add: select_optimal_mode_def)

lemma detect_confidence_bounds:
  "0 \<le> snd (detect_task_type names patterns) \<and> snd (detect_task_type names patterns) \<le> 1"
  by (auto simp: detect_task_type_def Let_def)

definition adaptive_ok :: "adaptive_state \<Rightarrow> bool" where
  "adaptive_ok st \<longleftrightarrow> 0 \<le> task_confidence st \<and> task_confidence st \<le> 1 \<and> 0 \<le> clean_streak st \<and>
     task_type st \<in> {''coding'', ''research'', ''mixed''} \<and>
     state_mode st = (if task_type st = ''research'' \<and> 7 / 10 \<le> task_confidence st
                      then ''research-safe'' else UNIVERSAL_MODE)"

lemma detect_type: "fst (detect_task_type names patterns) \<in> {''coding'', ''research'', ''mixed''}"
  by (auto simp: detect_task_type_def Let_def)

lemma advance_confidence: "task_confidence st \<le> task_confidence (advance_state p st s names c)"
  by (auto simp: advance_state_def Let_def split: prod.splits)

lemma advance_ok:
  assumes "adaptive_ok st"
  shows "adaptive_ok (advance_state p st s names c)"
proof -
  obtain d dc where d: "detect_task_type names c = (d, dc)" by fastforce
  have "d \<in> {''coding'', ''research'', ''mixed''}" "0 \<le> dc" "dc \<le> 1"
    using detect_type [of names c] detect_confidence_bounds [of names c] by (simp_all add: d)
  define chosen where "chosen = (if names \<noteq> [] \<and> task_confidence st < dc then (d, dc)
      else (task_type st, task_confidence st))"
  obtain tt cf where chosen': "chosen = (tt, cf)" by fastforce
  have ok: "tt \<in> {''coding'', ''research'', ''mixed''}" "0 \<le> cf" "cf \<le> 1"
    using chosen' assms \<open>d \<in> _\<close> \<open>0 \<le> dc\<close> \<open>dc \<le> 1\<close>
    unfolding chosen_def adaptive_ok_def by (metis prod.inject)+
  have "advance_state p st s names c =
      \<lparr>state_mode = select_optimal_mode (family_key (policy_family p)) tt cf,
       recent_pressure = pressure_score s,
       clean_streak = (if pressure_score s \<le> relax_threshold p then clean_streak st + 1 else 0),
       task_type = tt, task_confidence = cf\<rparr>"
    using chosen' by (cases "names = []"; cases "task_confidence st < dc") (simp_all add: advance_state_def Let_def d chosen_def)
  with ok assms show ?thesis
    by (simp add: adaptive_ok_def select_optimal_mode_def)
qed

definition advance_all ::
    "smart_zone_policy \<Rightarrow> (counts \<times> string list \<times> counts) list \<Rightarrow> adaptive_state \<Rightarrow> adaptive_state" where
  "advance_all p turns st = fold (\<lambda>(s, names, c) st. advance_state p st s names c) turns st"

lemma advance_all_ok: "adaptive_ok st \<Longrightarrow> adaptive_ok (advance_all p turns st)"
  by (induction turns arbitrary: st) (auto simp: advance_all_def advance_ok)

lemma advance_all_confidence: "task_confidence st \<le> task_confidence (advance_all p turns st)"
proof (induction turns arbitrary: st)
  case (Cons t turns)
  obtain s names c where t: "t = (s, names, c)" by (metis prod_cases3)
  have "task_confidence st \<le> task_confidence (advance_state p st s names c)" by (rule advance_confidence)
  also have "\<dots> \<le> task_confidence (advance_all p turns (advance_state p st s names c))" by (rule Cons)
  finally show ?case by (simp add: advance_all_def t)
qed (simp add: advance_all_def)

lemma policy_covers_modes:
  "m \<in> {UNIVERSAL_MODE, ''research-safe''} \<Longrightarrow>
     map_of (memory_profiles (policy_for_model model)) m \<noteq> None \<and>
     map_of (history_profiles (policy_for_model model)) m \<noteq> None \<and>
     map_of (tool_levels (policy_for_model model)) m \<noteq> None"
  by (auto simp: policy_for_model_def make_policy_def UNIVERSAL_MODE_def)

subsection \<open>Property\<close>

text \<open>
  Over any sequence of turns from the initial state, the confidence stays between 0 and 1 and
  never decreases, the mode is the research profile exactly when research was detected with confidence at least 0.7, and
  the mode has a memory profile, a history profile and a tool level in the policy's tables.
\<close>

lemma adaptive_state_consistent:
  "adaptive_ok (advance_all p turns (initial_state (policy_for_model model))) \<and>
   task_confidence (advance_all p turns (initial_state (policy_for_model model))) \<le>
     task_confidence (advance_all p (turns @ later) (initial_state (policy_for_model model))) \<and>
   state_mode (advance_all p turns (initial_state (policy_for_model model))) \<in>
     set (map fst (memory_profiles (policy_for_model model))) \<inter>
     set (map fst (history_profiles (policy_for_model model))) \<inter>
     set (map fst (tool_levels (policy_for_model model)))"
proof -
  let ?st = "advance_all p turns (initial_state (policy_for_model model))"
  have "adaptive_ok (initial_state (policy_for_model model))"
    by (simp add: adaptive_ok_def initial_state_def policy_for_model_def make_policy_def UNIVERSAL_MODE_def)
  then have ok: "adaptive_ok ?st" by (rule advance_all_ok)
  have "advance_all p (turns @ later) (initial_state (policy_for_model model)) = advance_all p later ?st"
    by (simp add: advance_all_def)
  moreover have "state_mode ?st \<in> {UNIVERSAL_MODE, ''research-safe''}"
    using ok by (auto simp: adaptive_ok_def)
  ultimately show ?thesis
    using ok advance_all_confidence [of ?st p later]
    by (auto simp: policy_for_model_def make_policy_def)
qed

end
