(* ===== verification/ExactPatch.thy ===== *)
theory ExactPatch
  imports PyJson
begin

section \<open>Hash-checked exact patches\<close>

text \<open>
  Models \<open>src/tok/deterministic\<close>: the classification of actions and the precondition checks of
  \<open>action_decision.py\<close>, \<open>apply_exact_patch\<close> of \<open>exact_patch.py\<close> on a file system, and the receipt of
  \<open>models.py\<close> with its dictionary form.

  Bytes are characters (code below 256), so a file is a \<^typ>\<open>string\<close> and decoding it as Latin-1 is the
  identity; \<^const>\<open>utf8_encode\<close> is \<open>str.encode\<close>. The environment \<open>env\<close> gives what comes from outside: the
  SHA-256 digest, path resolution (which depends on symbolic links), the fate of the reads and of the
  write calls, the name \<open>mkstemp\<close> returns. A path is the list of its components.
\<close>

subsection \<open>Decisions\<close>

record decision =
  should_execute :: bool
  should_compress_only :: bool
  should_reject :: bool
  reason :: string
  required_preconditions :: "string list"
  missing_preconditions :: "string list"

definition accept :: "string list \<Rightarrow> decision" where
  "accept required = \<lparr>should_execute = True, should_compress_only = False, should_reject = False,
     reason = ''all_preconditions_satisfied'', required_preconditions = required, missing_preconditions = []\<rparr>"

definition refuse :: "string \<Rightarrow> string list \<Rightarrow> string list \<Rightarrow> decision" where
  "refuse why required missing = \<lparr>should_execute = False, should_compress_only = False, should_reject = True,
     reason = why, required_preconditions = required, missing_preconditions = missing\<rparr>"

definition VAGUE_KINDS :: "string list" where
  "VAGUE_KINDS = [''semantic'', ''vague'', ''natural_language'']"

definition VAGUE_KEYWORDS :: "string list" where
  "VAGUE_KEYWORDS =
     [''fix this'', ''fix the'', ''improve this'', ''improve the'', ''refactor this'', ''refactor the'',
      ''clean up'', ''clean this'', ''make it'', ''make this'', ''update this'', ''update the'',
      ''change this'', ''change the'']"

definition is_vague_semantic :: "json \<Rightarrow> bool" where
  "is_vague_semantic action =
     (let kind = py_lower (py_str (jget_or ''kind'' (JStr []) action)) in
      if kind \<in> set VAGUE_KINDS then True
      else let instruction = py_lower (py_str (jget_or ''instruction'' (JStr []) action))
           in list_ex (\<lambda>kw. py_contains kw instruction) VAGUE_KEYWORDS)"

definition ACTION_PRECONDITIONS :: "string list" where
  "ACTION_PRECONDITIONS = [''path'', ''search'', ''replace'', ''expected_before_hash'']"

definition missing_fields :: "json \<Rightarrow> string list" where
  "missing_fields action =
     filter (\<lambda>k. \<not> truthy (jget_or k JNull action)) [''path'', ''search'', ''expected_before_hash''] @
     (if jget_or ''replace'' JNull action = JNull then [''replace''] else [])"

definition classify_action :: "json \<Rightarrow> decision" where
  "classify_action action =
     (if is_vague_semantic action
      then refuse ''action_is_vague_semantic'' ACTION_PRECONDITIONS ACTION_PRECONDITIONS
      else if (case jget ''paths'' action of Some (JList ps) \<Rightarrow> 1 < length ps | _ \<Rightarrow> False)
      then refuse ''multi_file_not_supported'' [''single_path''] [''single_path'']
      else if missing_fields action \<noteq> []
      then refuse ''missing_required_preconditions'' ACTION_PRECONDITIONS (missing_fields action)
      else accept ACTION_PRECONDITIONS)"

subsection \<open>Preconditions of a patch\<close>

record preconditions =
  patch_path :: string
  expected_before_hash :: string
  search :: string
  replace :: string
  patch_root :: string

type_synonym path = "string list"
type_synonym files = "path \<Rightarrow> string option"

datatype os_error = ValueError string | OSError string

datatype write_outcome =
    MkstempFails string
  | WriteFails nat string bool
  | ReplaceFails string bool
  | Replaced nat

record environment =
  sha256 :: "string \<Rightarrow> string"
  resolve :: "string \<Rightarrow> os_error + path"
  root :: path
  read_fault :: "path \<Rightarrow> string option"
  no_such_file :: "path \<Rightarrow> string"
  temp_path :: path
  write_outcome :: write_outcome

text \<open>
  \<open>WriteFails n msg unlinked\<close>: \<open>os.write\<close>, \<open>os.fsync\<close> or \<open>os.close\<close> raised after \<open>n\<close> bytes were stored;
  \<open>unlinked\<close> tells whether the clean-up removed the temporary file. \<open>Replaced n\<close>: all calls returned, and
  \<open>os.write\<close> stored \<open>n\<close> bytes, a number the code does not look at.
\<close>

function count_occurrences :: "string \<Rightarrow> string \<Rightarrow> nat" where
  "count_occurrences pat content =
     (if pat = [] then 0
      else case py_find pat content of
          None \<Rightarrow> 0
        | Some i \<Rightarrow> Suc (count_occurrences pat (drop (i + length pat) content)))"
  by pat_completeness auto

termination
proof (relation "measure (\<lambda>(pat, content). length content)")
  fix pat content :: string and i
  assume "pat \<noteq> []" and "py_find pat content = Some i"
  then have "i + length pat \<le> length content" "0 < length pat" by (auto dest: py_find_bound)
  then have "length content - (i + length pat) < length content" by arith
  then show "((pat, drop (i + length pat) content), pat, content) \<in> measure (\<lambda>(pat, content). length content)"
    by simp
qed simp

declare count_occurrences.simps [simp del]

definition safe_path :: "environment \<Rightarrow> string \<Rightarrow> bool" where
  "safe_path env p = (case resolve env p of Inl _ \<Rightarrow> False | Inr q \<Rightarrow> prefix (root env) q)"

definition check_preconditions :: "environment \<Rightarrow> preconditions \<Rightarrow> string \<Rightarrow> decision" where
  "check_preconditions env pre file_content =
     (if \<not> safe_path env (patch_path pre)
      then refuse ''path_traversal_detected'' [''safe_path''] [''safe_path'']
      else if sha256 env file_content \<noteq> expected_before_hash pre
      then refuse ''hash_mismatch'' [''before_hash_match''] [''before_hash_match'']
      else
        let n = count_occurrences (utf8_encode (search pre)) file_content in
        if n = 0 then refuse ''search_not_found'' [''single_occurrence''] [''single_occurrence'']
        else if 1 < n
        then refuse ''ambiguous_search_multiple_occurrences'' [''single_occurrence''] [''single_occurrence'']
        else accept [''safe_path'', ''before_hash_match'', ''single_occurrence''])"

subsection \<open>Receipts\<close>

record receipt =
  action_id :: string
  action_kind :: string
  provider_surface :: "string option"
  receipt_path :: "string option"
  paths :: "string list"
  before_hash :: "string option"
  after_hash :: "string option"
  changed_ranges :: "(nat \<times> nat) list"
  exactness_level :: string
  lossy :: bool
  commands_run :: "string list"
  verification_results :: "json dict"
  rollback_ref :: "string option"
  exact_diff_ref :: "string option"
  status :: string
  rejection_reason :: "string option"
  created_at :: string

definition opt_json :: "string option \<Rightarrow> json" where
  "opt_json x = (case x of None \<Rightarrow> JNull | Some s \<Rightarrow> JStr s)"

definition to_dict :: "receipt \<Rightarrow> json" where
  "to_dict r = JObj
    [(''action_id'', JStr (action_id r)),
     (''action_kind'', JStr (action_kind r)),
     (''provider_surface'', opt_json (provider_surface r)),
     (''path'', opt_json (receipt_path r)),
     (''paths'', JList (map JStr (paths r))),
     (''before_hash'', opt_json (before_hash r)),
     (''after_hash'', opt_json (after_hash r)),
     (''changed_ranges'', JList (map (\<lambda>(a, b). JList [JInt (int a), JInt (int b)]) (changed_ranges r))),
     (''exactness_level'', JStr (exactness_level r)),
     (''lossy'', JBool (lossy r)),
     (''commands_run'', JList (map JStr (commands_run r))),
     (''verification_results'', JObj (verification_results r)),
     (''rollback_ref'', opt_json (rollback_ref r)),
     (''exact_diff_ref'', opt_json (exact_diff_ref r)),
     (''status'', JStr (status r)),
     (''rejection_reason'', opt_json (rejection_reason r)),
     (''created_at'', JStr (created_at r))]"

text \<open>
  \<open>from_dict\<close> on values of the shape the fields declare, with absent and null lists read as empty, as
  \<open>or []\<close> does. A value of another type makes the code coerce it or raise; here the result is \<open>None\<close>.
\<close>

definition opt_field :: "string \<Rightarrow> json \<Rightarrow> string option option" where
  "opt_field k d = (case jget_or k JNull d of JNull \<Rightarrow> Some None | JStr s \<Rightarrow> Some (Some s) | _ \<Rightarrow> None)"

fun as_str :: "json \<Rightarrow> string option" where
  "as_str (JStr s) = Some s"
| "as_str _ = None"

fun as_range :: "json \<Rightarrow> (nat \<times> nat) option" where
  "as_range (JList [JInt a, JInt b]) = (if 0 \<le> a \<and> 0 \<le> b then Some (nat a, nat b) else None)"
| "as_range _ = None"

definition list_field :: "(json \<Rightarrow> 'a option) \<Rightarrow> string \<Rightarrow> json \<Rightarrow> 'a list option" where
  "list_field f k d = (case jget_or k JNull d of JNull \<Rightarrow> Some [] | JList xs \<Rightarrow> all_some (map f xs) | _ \<Rightarrow> None)"

definition dict_field :: "string \<Rightarrow> json \<Rightarrow> json dict option" where
  "dict_field k d = (case jget_or k JNull d of JNull \<Rightarrow> Some [] | JObj e \<Rightarrow> Some e | _ \<Rightarrow> None)"

definition str_field :: "string \<Rightarrow> json \<Rightarrow> string" where
  "str_field k d = py_str (jget_or k (JStr []) d)"

definition from_dict :: "json \<Rightarrow> receipt option" where
  "from_dict d =
     (case (opt_field ''provider_surface'' d, opt_field ''path'' d, list_field as_str ''paths'' d,
            opt_field ''before_hash'' d, opt_field ''after_hash'' d, list_field as_range ''changed_ranges'' d) of
        (Some surface, Some p, Some ps, Some before, Some after, Some ranges) \<Rightarrow>
          (case (list_field as_str ''commands_run'' d, dict_field ''verification_results'' d,
                 opt_field ''rollback_ref'' d, opt_field ''exact_diff_ref'' d, opt_field ''rejection_reason'' d) of
             (Some commands, Some results, Some rollback, Some diff, Some rejection) \<Rightarrow>
               Some \<lparr>action_id = str_field ''action_id'' d, action_kind = str_field ''action_kind'' d,
                 provider_surface = surface, receipt_path = p, paths = ps, before_hash = before,
                 after_hash = after, changed_ranges = ranges,
                 exactness_level = str_field ''exactness_level'' d,
                 lossy = truthy (jget_or ''lossy'' (JBool False) d), commands_run = commands,
                 verification_results = results, rollback_ref = rollback, exact_diff_ref = diff,
                 status = str_field ''status'' d, rejection_reason = rejection,
                 created_at = str_field ''created_at'' d\<rparr>
           | _ \<Rightarrow> None)
      | _ \<Rightarrow> None)"

definition compute_digest :: "(string \<Rightarrow> string) \<Rightarrow> receipt \<Rightarrow> string" where
  "compute_digest sha r = sha (dumps_compact (to_dict r))"

subsection \<open>Applying a patch\<close>

definition rejected :: "string \<Rightarrow> string \<Rightarrow> string \<Rightarrow> string \<Rightarrow> string option \<Rightarrow> receipt" where
  "rejected aid p why created before =
     \<lparr>action_id = aid, action_kind = ''exact_patch'', provider_surface = None, receipt_path = Some p,
      paths = [p], before_hash = before, after_hash = None, changed_ranges = [],
      exactness_level = ''exact_patch'', lossy = False, commands_run = [], verification_results = [],
      rollback_ref = None, exact_diff_ref = None, status = ''rejected'', rejection_reason = Some why,
      created_at = created\<rparr>"

definition applied :: "string \<Rightarrow> string \<Rightarrow> string \<Rightarrow> string \<Rightarrow> string \<Rightarrow> nat \<times> nat \<Rightarrow> string \<Rightarrow> receipt" where
  "applied aid p created before after changed content =
     \<lparr>action_id = aid, action_kind = ''exact_patch'', provider_surface = None, receipt_path = Some p,
      paths = [p], before_hash = Some before, after_hash = Some after, changed_ranges = [changed],
      exactness_level = ''exact_patch'', lossy = False, commands_run = [], verification_results = [],
      rollback_ref = Some content, exact_diff_ref = None, status = ''applied'', rejection_reason = None,
      created_at = created\<rparr>"

definition quote_char :: char where
  "quote_char = char_of (39 :: nat)"

definition safe_resolve :: "environment \<Rightarrow> string \<Rightarrow> os_error + path" where
  "safe_resolve env p =
     (case resolve env p of
        Inl e \<Rightarrow> Inl e
      | Inr q \<Rightarrow> if prefix (root env) q then Inr q
                else Inl (ValueError (''path '' @ [quote_char] @ p @ [quote_char] @
                       '' resolves outside workspace_root'')))"

text \<open>\<open>resolved.read_bytes()\<close>: the content, or the message of the \<open>OSError\<close>.\<close>

definition read_bytes :: "environment \<Rightarrow> path \<Rightarrow> files \<Rightarrow> string + string" where
  "read_bytes env p fs =
     (case read_fault env p of
        Some msg \<Rightarrow> Inl msg
      | None \<Rightarrow> (case fs p of None \<Rightarrow> Inl (no_such_file env p) | Some content \<Rightarrow> Inr content))"

text \<open>The write to a temporary file followed by the rename.\<close>

definition patched :: "string \<Rightarrow> nat \<Rightarrow> nat \<Rightarrow> string \<Rightarrow> string" where
  "patched content a b new = take a content @ new @ drop b content"

definition atomic_write ::
    "environment \<Rightarrow> path \<Rightarrow> string \<Rightarrow> files \<Rightarrow> (string option \<times> files) py" where
  "atomic_write env target new_content fs =
     (case write_outcome env of
        MkstempFails msg \<Rightarrow> Inl UnboundLocalError
      | WriteFails n msg unlinked \<Rightarrow>
          Inr (Some msg, if unlinked then fs else fs(temp_path env \<mapsto> take n new_content))
      | ReplaceFails msg unlinked \<Rightarrow>
          Inr (Some msg, if unlinked then fs else fs(temp_path env \<mapsto> new_content))
      | Replaced n \<Rightarrow> Inr (None, fs(target \<mapsto> take n new_content)))"

text \<open>
  An \<open>OSError\<close> of \<open>resolve\<close> is not caught around \<open>_safe_resolve\<close> and leaves the function; so does the
  \<open>UnboundLocalError\<close> of the clean-up when \<open>mkstemp\<close> itself failed. Both are the left summand.
\<close>

definition apply_exact_patch ::
    "environment \<Rightarrow> string \<Rightarrow> string \<Rightarrow> preconditions \<Rightarrow> files \<Rightarrow> (receipt \<times> files) py" where
  "apply_exact_patch env aid created pre fs =
     (case safe_resolve env (patch_path pre) of
        Inl (OSError msg) \<Rightarrow> Inl OSErrorRaised
      | Inl (ValueError msg) \<Rightarrow> Inr (rejected aid (patch_path pre) (''traversal: '' @ msg) created None, fs)
      | Inr resolved \<Rightarrow>
          (case read_bytes env resolved fs of
             Inl msg \<Rightarrow> Inr (rejected aid (patch_path pre) (''read_error: '' @ msg) created None, fs)
           | Inr file_content \<Rightarrow>
               (let decision = check_preconditions env pre file_content;
                    before = sha256 env file_content
                in if should_reject decision
                   then Inr (rejected aid (patch_path pre) (reason decision) created (Some before), fs)
                   else
                     let search_bytes = utf8_encode (search pre);
                         replace_bytes = utf8_encode (replace pre);
                         start_byte = (case py_find search_bytes file_content of Some i \<Rightarrow> i | None \<Rightarrow> 0);
                         end_byte = start_byte + length search_bytes;
                         new_content = patched file_content start_byte end_byte replace_bytes
                     in bind_py (atomic_write env resolved new_content fs) (\<lambda>(failure, fs').
                          case failure of
                            Some msg \<Rightarrow> Inr (rejected aid (patch_path pre) (''write_error: '' @ msg) created
                                              (Some before), fs')
                          | None \<Rightarrow> Inr (applied aid (patch_path pre) created before
                                          (sha256 env new_content) (start_byte, end_byte) file_content, fs')))))"

subsection \<open>Counting occurrences\<close>

definition occurrences :: "string \<Rightarrow> string \<Rightarrow> nat set" where
  "occurrences pat content = {i. i \<le> length content \<and> prefix pat (drop i content)}"

definition non_overlapping :: "string \<Rightarrow> string \<Rightarrow> bool" where
  "non_overlapping pat content \<longleftrightarrow>
     (\<forall>i \<in> occurrences pat content. \<forall>j \<in> occurrences pat content. i < j \<longrightarrow> i + length pat \<le> j)"

lemma occurrences_find:
  assumes "py_find pat content = Some i"
  shows "i \<in> occurrences pat content" and "j \<in> occurrences pat content \<Longrightarrow> i \<le> j"
proof -
  have "i \<le> length content" using py_find_bound [OF assms] by simp
  with py_find_Some_prefix [OF assms] show "i \<in> occurrences pat content" by (simp add: occurrences_def)
  show "i \<le> j" if "j \<in> occurrences pat content"
    using that py_find_least [OF assms, of j] by (auto simp: occurrences_def not_less [symmetric])
qed

lemma occurrences_empty_iff: "occurrences pat content = {} \<longleftrightarrow> py_find pat content = None"
  by (auto simp: occurrences_def py_find_None_iff)

lemma occurrences_drop:
  "n \<le> length content \<Longrightarrow> occurrences pat (drop n content) = {k. n + k \<in> occurrences pat content}"
  by (auto simp: occurrences_def add.commute)

lemma finite_occurrences [simp]: "finite (occurrences pat content)"
proof -
  have "occurrences pat content \<subseteq> {..length content}" by (auto simp: occurrences_def)
  then show ?thesis by (rule finite_subset) simp
qed

lemma occurrences_split:
  assumes "py_find pat content = Some i" and "pat \<noteq> []"
  shows "insert i ((\<lambda>k. i + length pat + k) ` occurrences pat (drop (i + length pat) content))
      \<subseteq> occurrences pat content"
    and "non_overlapping pat content \<Longrightarrow> occurrences pat content =
      insert i ((\<lambda>k. i + length pat + k) ` occurrences pat (drop (i + length pat) content))"
proof -
  let ?n = "i + length pat"
  have n: "?n \<le> length content" using py_find_bound [OF assms(1)] .
  note drop = occurrences_drop [OF n, of pat]
  show sub: "insert i ((\<lambda>k. ?n + k) ` occurrences pat (drop ?n content)) \<subseteq> occurrences pat content"
    using occurrences_find(1) [OF assms(1)] by (auto simp: drop)
  assume no: "non_overlapping pat content"
  have "occurrences pat content \<subseteq> insert i ((\<lambda>k. ?n + k) ` occurrences pat (drop ?n content))"
  proof
    fix j assume j: "j \<in> occurrences pat content"
    show "j \<in> insert i ((\<lambda>k. ?n + k) ` occurrences pat (drop ?n content))"
    proof (cases "j = i")
      case False
      with occurrences_find(2) [OF assms(1) j] have "i < j" by simp
      with no j occurrences_find(1) [OF assms(1)] have "?n \<le> j" by (auto simp: non_overlapping_def)
      then obtain k where k: "j = ?n + k" using le_Suc_ex by blast
      with j have "k \<in> occurrences pat (drop ?n content)" by (simp add: drop)
      with k show ?thesis by blast
    qed simp
  qed
  with sub show "occurrences pat content =
      insert i ((\<lambda>k. ?n + k) ` occurrences pat (drop ?n content))" by blast
qed

lemma card_occurrences_step:
  assumes "pat \<noteq> []"
  shows "card (insert i ((\<lambda>k. i + length pat + k) ` occurrences pat content)) = Suc (card (occurrences pat content))"
proof -
  have "i \<notin> (\<lambda>k. i + length pat + k) ` occurrences pat content" using assms by auto
  moreover have "card ((\<lambda>k. i + length pat + k) ` occurrences pat content) = card (occurrences pat content)"
    by (rule card_image) (simp add: inj_on_def)
  ultimately show ?thesis by simp
qed

lemma count_le_card: "pat \<noteq> [] \<Longrightarrow> count_occurrences pat content \<le> card (occurrences pat content)"
proof (induction pat content rule: count_occurrences.induct)
  case (1 pat content)
  show ?case
  proof (cases "py_find pat content")
    case None
    then show ?thesis by (simp add: count_occurrences.simps [of pat content])
  next
    case (Some i)
    let ?rest = "drop (i + length pat) content"
    have "Suc (count_occurrences pat ?rest) \<le> Suc (card (occurrences pat ?rest))"
      using "1.IH" [OF "1.prems" Some "1.prems"] by simp
    also have "\<dots> = card (insert i ((\<lambda>k. i + length pat + k) ` occurrences pat ?rest))"
      by (simp only: card_occurrences_step [OF "1.prems"])
    also have "\<dots> \<le> card (occurrences pat content)"
      by (rule card_mono [OF finite_occurrences occurrences_split(1) [OF Some "1.prems"]])
    finally show ?thesis using Some "1.prems" by (simp add: count_occurrences.simps [of pat content])
  qed
qed

lemma non_overlapping_drop:
  "n \<le> length content \<Longrightarrow> non_overlapping pat content \<Longrightarrow> non_overlapping pat (drop n content)"
  by (force simp: non_overlapping_def occurrences_drop)

lemma count_eq_card:
  "pat \<noteq> [] \<Longrightarrow> non_overlapping pat content \<Longrightarrow> count_occurrences pat content = card (occurrences pat content)"
proof (induction pat content rule: count_occurrences.induct)
  case (1 pat content)
  show ?case
  proof (cases "py_find pat content")
    case None
    then show ?thesis
      using occurrences_empty_iff [of pat content] by (simp add: count_occurrences.simps [of pat content])
  next
    case (Some i)
    let ?rest = "drop (i + length pat) content"
    have "non_overlapping pat ?rest"
      by (rule non_overlapping_drop [OF py_find_bound [OF Some] "1.prems"(2)])
    then have "count_occurrences pat ?rest = card (occurrences pat ?rest)"
      using "1.IH" [OF "1.prems"(1) Some "1.prems"(1)] by simp
    then show ?thesis
      using Some "1.prems" occurrences_split(2) [OF Some "1.prems"] card_occurrences_step [OF "1.prems"(1)]
      by (simp add: count_occurrences.simps [of pat content])
  qed
qed

lemma count_zero_iff: "pat \<noteq> [] \<Longrightarrow> count_occurrences pat content = 0 \<longleftrightarrow> occurrences pat content = {}"
  by (simp add: occurrences_empty_iff count_occurrences.simps [of pat content] split: option.splits)

subsection \<open>What a receipt says\<close>

lemma find_decompose:
  assumes "py_find pat content = Some i"
  shows "content = take i content @ pat @ drop (i + length pat) content"
proof -
  obtain post where post: "drop i content = pat @ post"
    using py_find_Some_prefix [OF assms] by (auto simp: prefix_def)
  then have "drop (i + length pat) content = post"
    by (metis add.commute append_eq_conv_conj drop_drop)
  with post show ?thesis by (metis append_take_drop_id)
qed

lemma check_accepts:
  assumes "\<not> should_reject (check_preconditions env pre content)"
  shows "safe_path env (patch_path pre) \<and> sha256 env content = expected_before_hash pre \<and>
    count_occurrences (utf8_encode (search pre)) content = 1"
  using assms by (auto simp: check_preconditions_def refuse_def Let_def split: if_splits)

lemma count_one_find:
  assumes "count_occurrences pat content = 1"
  obtains i where "py_find pat content = Some i" and "pat \<noteq> []"
proof -
  have "pat \<noteq> []" using assms by (auto simp: count_occurrences.simps [of pat content])
  moreover obtain i where "py_find pat content = Some i"
    using assms by (cases "py_find pat content") (auto simp: count_occurrences.simps [of pat content] split: if_splits)
  ultimately show thesis using that by blast
qed

lemma count_one_only:
  assumes "count_occurrences pat content = 1" and "py_find pat content = Some i"
  shows "occurrences pat content \<subseteq> {i..<i + length pat}"
proof
  let ?n = "i + length pat"
  have pat: "pat \<noteq> []" using count_one_find [OF assms(1)] by blast
  then have "count_occurrences pat (drop ?n content) = 0"
    using assms by (simp add: count_occurrences.simps [of pat content])
  then have none: "occurrences pat (drop ?n content) = {}" by (simp add: count_zero_iff [OF pat])
  fix j assume j: "j \<in> occurrences pat content"
  have "j < ?n"
  proof (rule ccontr)
    assume "\<not> j < ?n"
    then obtain k where "j = ?n + k" using le_Suc_ex not_less by blast
    with j none occurrences_drop [OF py_find_bound [OF assms(2)], of pat] show False by auto
  qed
  with occurrences_find(2) [OF assms(2) j] show "j \<in> {i..<?n}" by simp
qed

lemma as_range_pair: "as_range (case p of (a, b) \<Rightarrow> JList [JInt (int a), JInt (int b)]) = Some p"
  by (cases p) simp

lemma opt_json_cases: "(case opt_json x of JNull \<Rightarrow> Some None | JStr s \<Rightarrow> Some (Some s) | _ \<Rightarrow> None) = Some x"
  by (simp add: opt_json_def split: option.splits)

text \<open>
  Reading back the dictionary form of a receipt gives the receipt.
\<close>

lemma receipt_roundtrip: "from_dict (to_dict r) = Some r"
proof -
  let ?d = "to_dict r"
  have opt: "opt_field ''provider_surface'' ?d = Some (provider_surface r)"
    "opt_field ''path'' ?d = Some (receipt_path r)"
    "opt_field ''before_hash'' ?d = Some (before_hash r)"
    "opt_field ''after_hash'' ?d = Some (after_hash r)"
    "opt_field ''rollback_ref'' ?d = Some (rollback_ref r)"
    "opt_field ''exact_diff_ref'' ?d = Some (exact_diff_ref r)"
    "opt_field ''rejection_reason'' ?d = Some (rejection_reason r)"
    by (simp_all add: opt_field_def jget_or_def to_dict_def opt_json_cases)
  have lists: "list_field as_str ''paths'' ?d = Some (paths r)"
    "list_field as_range ''changed_ranges'' ?d = Some (changed_ranges r)"
    "list_field as_str ''commands_run'' ?d = Some (commands_run r)"
    "dict_field ''verification_results'' ?d = Some (verification_results r)"
    by (simp_all add: list_field_def dict_field_def jget_or_def to_dict_def comp_def as_range_pair)
  have strs: "str_field ''action_id'' ?d = action_id r" "str_field ''action_kind'' ?d = action_kind r"
    "str_field ''exactness_level'' ?d = exactness_level r" "str_field ''status'' ?d = status r"
    "str_field ''created_at'' ?d = created_at r" "truthy (jget_or ''lossy'' (JBool False) ?d) = lossy r"
    by (simp_all add: str_field_def jget_or_def to_dict_def)
  show ?thesis by (simp add: from_dict_def opt lists strs)
qed

lemma apply_cases:
  assumes "apply_exact_patch env aid created pre fs = Inr (r, fs')"
  obtains (untouched) why before where "r = rejected aid (patch_path pre) why created before" "fs' = fs"
  | (written) p content i where "resolve env (patch_path pre) = Inr p" "fs p = Some content"
      "\<not> should_reject (check_preconditions env pre content)"
      "py_find (utf8_encode (search pre)) content = Some i" "prefix (root env) p"
      "bind_py (atomic_write env p (patched content i (i + length (utf8_encode (search pre))) (utf8_encode (replace pre))) fs)
         (\<lambda>(failure, fs'). case failure of
            Some msg \<Rightarrow> Inr (rejected aid (patch_path pre) (''write_error: '' @ msg) created (Some (sha256 env content)), fs')
          | None \<Rightarrow> Inr (applied aid (patch_path pre) created (sha256 env content)
              (sha256 env (patched content i (i + length (utf8_encode (search pre))) (utf8_encode (replace pre))))
              (i, i + length (utf8_encode (search pre))) content, fs')) = Inr (r, fs')"
proof (cases "safe_resolve env (patch_path pre)")
  case (Inl e)
  with assms untouched show thesis by (cases e) (auto simp: apply_exact_patch_def)
next
  case (Inr p)
  then have p: "resolve env (patch_path pre) = Inr p" "prefix (root env) p"
    by (auto simp: safe_resolve_def split: sum.splits if_splits)
  show thesis
  proof (cases "read_bytes env p fs")
    case (Inl msg)
    with assms Inr untouched show thesis by (auto simp: apply_exact_patch_def)
  next
    case read: (Inr content)
    then have content: "fs p = Some content"
      by (auto simp: read_bytes_def split: option.splits)
    show thesis
    proof (cases "should_reject (check_preconditions env pre content)")
      case True
      with assms Inr read untouched show thesis by (auto simp: apply_exact_patch_def Let_def)
    next
      case False
      from check_accepts [OF this] obtain i where
        i: "py_find (utf8_encode (search pre)) content = Some i" by (blast elim: count_one_find)
      show thesis
      proof (rule written [OF p(1) content False i p(2)])
        show "bind_py (atomic_write env p (patched content i (i + length (utf8_encode (search pre))) (utf8_encode (replace pre))) fs)
         (\<lambda>(failure, fs'). case failure of
            Some msg \<Rightarrow> Inr (rejected aid (patch_path pre) (''write_error: '' @ msg) created (Some (sha256 env content)), fs')
          | None \<Rightarrow> Inr (applied aid (patch_path pre) created (sha256 env content)
              (sha256 env (patched content i (i + length (utf8_encode (search pre))) (utf8_encode (replace pre))))
              (i, i + length (utf8_encode (search pre))) content, fs')) = Inr (r, fs')"
          using assms by (simp add: apply_exact_patch_def Let_def Inr read False i cong: option.case_cong)
      qed
    qed
  qed
qed

lemma atomic_write_cases:
  assumes "atomic_write env target new fs = Inr (failure, fs')"
  shows "(failure = None \<and> (\<exists>n. write_outcome env = Replaced n \<and> fs' = fs(target \<mapsto> take n new))) \<or>
    (failure \<noteq> None \<and> (fs' = fs \<or> (\<exists>part. fs' = fs(temp_path env \<mapsto> part))))"
  using assms by (auto simp: atomic_write_def split: write_outcome.splits if_splits)

subsection \<open>Properties\<close>

text \<open>
  C33: An applied receipt tells the truth: the target resolves inside the workspace root, its content had the expected
  digest and contained the search text (which is not empty), whose first occurrence was replaced and is the recorded range; every
  other place where the search text occurs overlaps that occurrence, so that no occurrence is left untouched; the
  roll-back reference is the old content, the after-hash is the digest of the new content, and no other file changed. (The
  file holds as many bytes of the new content as the write call stored.)
\<close>

theorem applied_patch:
  assumes "apply_exact_patch env aid created pre fs = Inr (r, fs')" and "status r = ''applied''"
  shows "\<exists>p before after n.
     resolve env (patch_path pre) = Inr p \<and> prefix (root env) p \<and>
     fs p = Some (before @ utf8_encode (search pre) @ after) \<and> search pre \<noteq> [] \<and>
     occurrences (utf8_encode (search pre)) (before @ utf8_encode (search pre) @ after)
       \<subseteq> {length before..<length before + length (utf8_encode (search pre))} \<and>
     sha256 env (before @ utf8_encode (search pre) @ after) = expected_before_hash pre \<and>
     write_outcome env = Replaced n \<and>
     fs' = fs(p \<mapsto> take n (before @ utf8_encode (replace pre) @ after)) \<and>
     changed_ranges r = [(length before, length before + length (utf8_encode (search pre)))] \<and>
     rollback_ref r = Some (before @ utf8_encode (search pre) @ after) \<and>
     after_hash r = Some (sha256 env (before @ utf8_encode (replace pre) @ after))"
  using assms(1)
proof (cases rule: apply_cases)
  case (untouched why before)
  with assms(2) show ?thesis by (simp add: rejected_def)
next
  case (written p content i)
  let ?s = "utf8_encode (search pre)"
  define before where "before = take i content"
  define after where "after = drop (i + length ?s) content"
  have content: "content = before @ ?s @ after"
    using find_decompose [OF written(4)] by (simp add: before_def after_def)
  have len: "length before = i" using py_find_bound [OF written(4)] by (simp add: before_def)
  have new: "patched content i (i + length ?s) (utf8_encode (replace pre)) = before @ utf8_encode (replace pre) @ after"
    by (simp add: patched_def before_def after_def)
  obtain failure fs1 where w: "atomic_write env p (before @ utf8_encode (replace pre) @ after) fs = Inr (failure, fs1)"
    using written(6) by (auto simp: new elim!: bind_py_Inr_E)
  have none: "failure = None"
    using written(6) w assms(2) by (auto simp: new rejected_def split: option.splits)
  have out: "r = applied aid (patch_path pre) created (sha256 env content)
      (sha256 env (before @ utf8_encode (replace pre) @ after)) (i, i + length ?s) content" "fs' = fs1"
    using written(6) w none by (auto simp: new)
  from atomic_write_cases [OF w] none obtain n where
    n: "write_outcome env = Replaced n" "fs1 = fs(p \<mapsto> take n (before @ utf8_encode (replace pre) @ after))"
    by auto
  have check: "sha256 env content = expected_before_hash pre" "count_occurrences ?s content = 1"
    using check_accepts [OF written(3)] by blast+
  have ne: "search pre \<noteq> []" using count_one_find [OF check(2)] by (metis concat.simps(1) list.map(1) utf8_encode_def)
  have only: "occurrences ?s content \<subseteq> {length before..<length before + length ?s}"
    unfolding len by (rule count_one_only [OF check(2) written(4)])
  have receipt: "changed_ranges r = [(length before, length before + length ?s)]" "rollback_ref r = Some content"
    "after_hash r = Some (sha256 env (before @ utf8_encode (replace pre) @ after))"
    using out(1) len by (simp_all add: applied_def)
  have files: "fs' = fs(p \<mapsto> take n (before @ utf8_encode (replace pre) @ after))" using out(2) n(2) by simp
  from written(1,5,2) ne only check(1) n(1) files receipt show ?thesis unfolding content by blast
qed

text \<open>
  A rejected patch changes no file: with a temporary name that was not in use, as \<open>mkstemp\<close> promises, every file
  that existed before has the same content afterwards, whichever step failed.
\<close>

lemma rejected_patch:
  assumes "apply_exact_patch env aid created pre fs = Inr (r, fs')" and "status r = ''rejected''"
    and "fs (temp_path env) = None"
  shows "fs \<subseteq>\<^sub>m fs'"
  using assms(1)
proof (cases rule: apply_cases)
  case (untouched why before)
  then show ?thesis by simp
next
  case (written p content i)
  obtain failure fs1 where
    w: "atomic_write env p (patched content i (i + length (utf8_encode (search pre))) (utf8_encode (replace pre))) fs
      = Inr (failure, fs1)"
    using written(6) by (auto elim!: bind_py_Inr_E)
  have "failure \<noteq> None" "fs' = fs1"
    using written(6) w assms(2) by (auto simp: applied_def split: option.splits)
  with atomic_write_cases [OF w] assms(3) show ?thesis
    by (auto simp: map_le_def)
qed

text \<open>
  The occurrence count never exceeds the number of positions at which the search text occurs, and
  equals it when no two occurrences overlap.
\<close>

lemma count_occurrences_exact:
  assumes "pat \<noteq> []"
  shows "count_occurrences pat content \<le> card (occurrences pat content) \<and>
    (non_overlapping pat content \<longrightarrow> count_occurrences pat content = card (occurrences pat content)) \<and>
    (count_occurrences pat content = 0) = (occurrences pat content = {})"
  using count_le_card [OF assms] count_eq_card [OF assms] count_zero_iff [OF assms] by blast

lemma count_occurrences_exact_witness:
  "count_occurrences ''ab'' ''abxab'' = 2 \<and> 2 \<le> card (occurrences ''ab'' ''abxab'')"
proof -
  have "count_occurrences ''ab'' ''abxab'' = 2" by code_simp
  moreover have "''ab'' \<noteq> []" by simp
  ultimately show ?thesis using count_occurrences_exact [of "''ab''" "''abxab''"] by simp
qed

text \<open>A workspace at \<open>w\<close> with one file, and an environment in which every call succeeds.\<close>

definition sample_env :: "write_outcome \<Rightarrow> environment" where
  "sample_env outcome = \<lparr>sha256 = (\<lambda>s. s), resolve = (\<lambda>p. Inr [''w'', p]), root = [''w''],
     read_fault = (\<lambda>_. None), no_such_file = (\<lambda>_. ''missing''), temp_path = [''w'', ''tmp''],
     write_outcome = outcome\<rparr>"

definition sample_pre :: "string \<Rightarrow> string \<Rightarrow> preconditions" where
  "sample_pre content pat = \<lparr>patch_path = ''f'', expected_before_hash = content, search = pat,
     replace = ''zz'', patch_root = ''w''\<rparr>"

definition sample_files :: "string \<Rightarrow> files" where
  "sample_files content = [[''w'', ''f''] \<mapsto> content]"

lemma sample_check: "check_preconditions (sample_env out) (sample_pre ''xaby'' ''ab'') ''xaby'' =
    accept [''safe_path'', ''before_hash_match'', ''single_occurrence'']"
proof -
  have "count_occurrences (utf8_encode ''ab'') ''xaby'' = 1" by code_simp
  then show ?thesis by (simp add: check_preconditions_def safe_path_def sample_env_def sample_pre_def)
qed

lemma sample_find: "py_find (utf8_encode ''ab'') ''xaby'' = Some 1" "utf8_encode ''ab'' = ''ab''"
    "utf8_encode ''zz'' = ''zz''"
  by code_simp+

lemma sample_applied:
  "apply_exact_patch (sample_env (Replaced 4)) ''i'' ''t'' (sample_pre ''xaby'' ''ab'') (sample_files ''xaby'') =
     Inr (applied ''i'' ''f'' ''t'' ''xaby'' ''xzzy'' (1, 3) ''xaby'', (sample_files ''xaby'')([''w'', ''f''] \<mapsto> ''xzzy''))"
proof -
  have "safe_resolve (sample_env (Replaced 4)) ''f'' = Inr [''w'', ''f'']"
    by (simp add: safe_resolve_def sample_env_def)
  moreover have "read_bytes (sample_env (Replaced 4)) [''w'', ''f''] (sample_files ''xaby'') = Inr ''xaby''"
    by (simp add: read_bytes_def sample_env_def sample_files_def)
  moreover have "patch_path (sample_pre ''xaby'' ''ab'') = ''f''" "search (sample_pre ''xaby'' ''ab'') = ''ab''"
    "replace (sample_pre ''xaby'' ''ab'') = ''zz''"
    by (simp_all add: sample_pre_def)
  moreover have "patched ''xaby'' (Suc 0) (Suc (Suc (Suc 0))) ''zz'' = ''xzzy''" by (simp add: patched_def)
  moreover have "sha256 (sample_env (Replaced 4)) = (\<lambda>s. s)" "write_outcome (sample_env (Replaced 4)) = Replaced 4"
    by (simp_all add: sample_env_def)
  ultimately show ?thesis
    by (simp add: apply_exact_patch_def sample_check accept_def Let_def sample_find(1) numeral_3_eq_3
        sample_find(2,3) atomic_write_def sample_find(1) [unfolded sample_find(2)])
qed

theorem applied_patch_witness:
  "\<exists>before after. sample_files ''xaby'' [''w'', ''f''] = Some (before @ utf8_encode ''ab'' @ after) \<and>
     changed_ranges (applied ''i'' ''f'' ''t'' ''xaby'' ''xzzy'' (1, 3) ''xaby'') =
       [(length before, length before + length (utf8_encode ''ab''))]"
proof -
  have "status (applied ''i'' ''f'' ''t'' ''xaby'' ''xzzy'' (1, 3) ''xaby'') = ''applied''" by (simp add: applied_def)
  from applied_patch [OF sample_applied this] obtain p before after where
    p: "resolve (sample_env (Replaced 4)) (patch_path (sample_pre ''xaby'' ''ab'')) = Inr p"
    and fl: "sample_files ''xaby'' p = Some (before @ utf8_encode (search (sample_pre ''xaby'' ''ab'')) @ after)"
    and changed: "changed_ranges (applied ''i'' ''f'' ''t'' ''xaby'' ''xzzy'' (1, 3) ''xaby'') =
      [(length before, length before + length (utf8_encode (search (sample_pre ''xaby'' ''ab''))))]"
    by blast
  have "p = [''w'', ''f'']" using p by (simp add: sample_env_def sample_pre_def)
  with fl changed show ?thesis by (intro exI [of _ before] exI [of _ after]) (simp add: sample_pre_def)
qed

lemma sample_write_fails:
  "apply_exact_patch (sample_env (ReplaceFails ''busy'' False)) ''i'' ''t'' (sample_pre ''xaby'' ''ab'') (sample_files ''xaby'') =
     Inr (rejected ''i'' ''f'' ''write_error: busy'' ''t'' (Some ''xaby''),
          (sample_files ''xaby'')([''w'', ''tmp''] \<mapsto> ''xzzy''))"
proof -
  let ?env = "sample_env (ReplaceFails ''busy'' False)"
  have "safe_resolve ?env ''f'' = Inr [''w'', ''f'']"
    by (simp add: safe_resolve_def sample_env_def)
  moreover have "read_bytes ?env [''w'', ''f''] (sample_files ''xaby'') = Inr ''xaby''"
    by (simp add: read_bytes_def sample_env_def sample_files_def)
  moreover have "patch_path (sample_pre ''xaby'' ''ab'') = ''f''" "search (sample_pre ''xaby'' ''ab'') = ''ab''"
    "replace (sample_pre ''xaby'' ''ab'') = ''zz''"
    by (simp_all add: sample_pre_def)
  moreover have "patched ''xaby'' (Suc 0) (Suc (Suc (Suc 0))) ''zz'' = ''xzzy''" by (simp add: patched_def)
  moreover have "sha256 ?env = (\<lambda>s. s)" "write_outcome ?env = ReplaceFails ''busy'' False"
    "temp_path ?env = [''w'', ''tmp'']"
    by (simp_all add: sample_env_def)
  ultimately show ?thesis
    by (simp add: apply_exact_patch_def sample_check accept_def Let_def sample_find(1)
        sample_find(2,3) atomic_write_def sample_find(1) [unfolded sample_find(2)])
qed

lemma rejected_patch_witness:
  "sample_files ''xaby'' \<subseteq>\<^sub>m (sample_files ''xaby'')([''w'', ''tmp''] \<mapsto> ''xzzy'')"
proof -
  have "status (rejected ''i'' ''f'' ''write_error: busy'' ''t'' (Some ''xaby'')) = ''rejected''"
    by (simp add: rejected_def)
  moreover have "sample_files ''xaby'' (temp_path (sample_env (ReplaceFails ''busy'' False))) = None"
    by (simp add: sample_files_def sample_env_def)
  ultimately show ?thesis by (rule rejected_patch [OF sample_write_fails])
qed

text \<open>
  The check does not establish that the search text occurs exactly once: in a file with the content \<open>aaa\<close> the
  search text \<open>aa\<close> occurs at two positions, and the check accepts it.
\<close>

lemma overlapping_search_accepted:
  "should_execute (check_preconditions (sample_env (Replaced 3)) (sample_pre ''aaa'' ''aa'') ''aaa'') \<and>
   {0, 1} \<subseteq> occurrences ''aa'' ''aaa''"
proof
  have "count_occurrences (utf8_encode ''aa'') ''aaa'' = 1" by code_simp
  then show "should_execute (check_preconditions (sample_env (Replaced 3)) (sample_pre ''aaa'' ''aa'') ''aaa'')"
    by (simp add: check_preconditions_def safe_path_def sample_env_def sample_pre_def accept_def)
qed (simp add: occurrences_def)

end
