(* ===== verification/PyText.thy ===== *)
theory PyText
  imports PyJson
begin

section \<open>Lines, digits and words of a text\<close>

text \<open>
  The text functions of Python that the trace audit, the delta tool and the macro code share:
  \<open>str.splitlines\<close> with and without line ends, the universal newlines of \<open>Path.read_text\<close>, the character
  classes \<open>\d\<close>, \<open>\w\<close> and \<open>[0-9a-f]\<close> of regular expressions on the Latin-1 range, and
  \<open>json.dumps(..., ensure_ascii=False)\<close>.
\<close>

subsection \<open>Lines\<close>

definition line_break :: "char \<Rightarrow> bool" where
  "line_break c = (let n = (of_char c :: nat) in (10 \<le> n \<and> n \<le> 13) \<or> (28 \<le> n \<and> n \<le> 30) \<or> n = 133)"

definition newline :: char where "newline = char_of (10 :: nat)"
definition carriage_return :: char where "carriage_return = char_of (13 :: nat)"

text \<open>\<open>splitlines_from acc s\<close>: the lines of \<open>acc @ s\<close>, where \<open>acc\<close> has no line break.\<close>

fun splitlines_from :: "string \<Rightarrow> string \<Rightarrow> string list" where
  "splitlines_from acc [] = (if acc = [] then [] else [acc])"
| "splitlines_from acc [c] = [acc @ [c]]"
| "splitlines_from acc (c # d # cs) =
     (if c = carriage_return \<and> d = newline then (acc @ [c, d]) # splitlines_from [] cs
      else if line_break c then (acc @ [c]) # splitlines_from [] (d # cs)
      else splitlines_from (acc @ [c]) (d # cs))"

definition splitlines_keep :: "string \<Rightarrow> string list" where
  "splitlines_keep s = splitlines_from [] s"

definition chomp :: "string \<Rightarrow> string" where
  "chomp l = rev (dropWhile line_break (rev l))"

definition splitlines :: "string \<Rightarrow> string list" where
  "splitlines s = map chomp (splitlines_keep s)"

fun universal_newlines :: "string \<Rightarrow> string" where
  "universal_newlines [] = []"
| "universal_newlines [c] = [if c = carriage_return then newline else c]"
| "universal_newlines (c # d # cs) =
     (if c = carriage_return \<and> d = newline then newline # universal_newlines cs
      else (if c = carriage_return then newline else c) # universal_newlines (d # cs))"

text \<open>Slices \<open>xs[:n]\<close> and \<open>xs[-n:]\<close> for a count that may be negative or zero.\<close>

definition slice_to :: "int \<Rightarrow> 'a list \<Rightarrow> 'a list" where
  "slice_to n xs = (if 0 \<le> n then take (nat n) xs else take (length xs - nat (- n)) xs)"

definition last_items :: "nat \<Rightarrow> 'a list \<Rightarrow> 'a list" where
  "last_items n xs = drop (length xs - n) xs"

text \<open>\<open>s.rstrip()\<close>.\<close>

definition rstrip :: "string \<Rightarrow> string" where
  "rstrip s = rev (dropWhile py_space (rev s))"

text \<open>A clean line: a text without line breaks, ended by a newline.\<close>

definition clean_line :: "string \<Rightarrow> bool" where
  "clean_line l = (l \<noteq> [] \<and> last l = newline \<and> list_all (\<lambda>c. \<not> line_break c) (butlast l))"

lemma line_break_newline [simp]: "line_break newline" "newline \<noteq> carriage_return" "carriage_return \<noteq> newline"
  by (simp_all add: line_break_def newline_def carriage_return_def)

lemma line_break_cr [simp]: "line_break carriage_return"
  by (simp add: line_break_def carriage_return_def)

lemma splitlines_from_clean:
  "list_all (\<lambda>c. \<not> line_break c) l \<Longrightarrow>
     splitlines_from acc (l @ newline # rest) = (acc @ l @ [newline]) # splitlines_from [] rest"
proof (induction l arbitrary: acc)
  case Nil
  then show ?case by (cases rest) auto
next
  case (Cons c l)
  obtain d cs where t: "l @ newline # rest = d # cs" by (cases "l @ newline # rest") auto
  have "splitlines_from acc (c # d # cs) = splitlines_from (acc @ [c]) (d # cs)"
    using Cons.prems by auto
  also have "\<dots> = ((acc @ [c]) @ l @ [newline]) # splitlines_from [] rest"
    using Cons.IH [of "acc @ [c]"] Cons.prems by (simp add: t [symmetric])
  finally show ?case by (simp add: t)
qed

lemma splitlines_keep_concat: "list_all clean_line ls \<Longrightarrow> splitlines_keep (concat ls) = ls"
proof (induction ls)
  case Nil
  then show ?case by (simp add: splitlines_keep_def)
next
  case (Cons l ls)
  have l: "l = butlast l @ newline # []" and no: "list_all (\<lambda>c. \<not> line_break c) (butlast l)"
    using Cons.prems append_butlast_last_id [of l] by (auto simp: clean_line_def)
  have "splitlines_keep (concat (l # ls)) = splitlines_from [] (butlast l @ newline # concat ls)"
    using l by (metis append.assoc append_Cons append_Nil concat.simps(2) splitlines_keep_def)
  also have "\<dots> = (butlast l @ [newline]) # splitlines_from [] (concat ls)"
    using splitlines_from_clean [OF no, of "[]" "concat ls"] by simp
  finally show ?case using Cons l by (simp add: splitlines_keep_def)
qed

lemma universal_newlines_id: "carriage_return \<notin> set s \<Longrightarrow> universal_newlines s = s"
  by (induction s rule: universal_newlines.induct) auto

lemma concat_splitlines_from: "concat (splitlines_from acc s) = acc @ s"
  by (induction acc s rule: splitlines_from.induct) auto

lemma concat_splitlines_keep [simp]: "concat (splitlines_keep s) = s"
  by (simp add: splitlines_keep_def concat_splitlines_from)

subsection \<open>Character classes\<close>

definition is_digit :: "char \<Rightarrow> bool" where
  "is_digit c = (let n = (of_char c :: nat) in 48 \<le> n \<and> n \<le> 57)"

definition is_hex :: "char \<Rightarrow> bool" where
  "is_hex c = (let n = (of_char c :: nat) in (48 \<le> n \<and> n \<le> 57) \<or> (97 \<le> n \<and> n \<le> 102))"

definition word_char :: "char \<Rightarrow> bool" where
  "word_char c = (let n = (of_char c :: nat) in
     (48 \<le> n \<and> n \<le> 57) \<or> (65 \<le> n \<and> n \<le> 90) \<or> n = 95 \<or> (97 \<le> n \<and> n \<le> 122) \<or>
     n \<in> {170, 178, 179, 181, 185, 186, 188, 189, 190} \<or>
     (192 \<le> n \<and> n \<noteq> 215 \<and> n \<noteq> 247))"

definition span :: "(char \<Rightarrow> bool) \<Rightarrow> string \<Rightarrow> string \<times> string" where
  "span P s = (takeWhile P s, dropWhile P s)"

definition hash_text :: "string \<Rightarrow> bool" where
  "hash_text s = (take 7 s = ''sha256:'' \<and> length s = 71 \<and> list_all is_hex (drop 7 s))"

lemma is_digit_digit_char [simp]: "d < 10 \<Longrightarrow> is_digit (digit_char d)"
  by (simp add: is_digit_def of_char_digit Let_def)

lemma nat_str_all_digits: "list_all is_digit (nat_str n)"
  by (auto simp: list_all_iff dest!: nat_str_digits)

lemma span_digits: "\<not> is_digit c \<Longrightarrow> span is_digit (nat_str n @ c # rest) = (nat_str n, c # rest)"
proof -
  assume "\<not> is_digit c"
  moreover have "\<And>x. x \<in> set (nat_str n) \<Longrightarrow> is_digit x"
    using nat_str_all_digits [of n] by (simp add: list_all_iff)
  ultimately show ?thesis by (simp add: span_def takeWhile_tail dropWhile_append2 takeWhile_append2)
qed

lemma span_append: "span P s = (a, b) \<Longrightarrow> s = a @ b"
  by (auto simp: span_def)

subsection \<open>\<open>json.dumps\<close> without ASCII escapes\<close>

definition dumps_text_char :: "char \<Rightarrow> string" where
  "dumps_text_char c = (if 127 \<le> (of_char c :: nat) then [c] else dumps_char c)"

definition dumps_text_str :: "string \<Rightarrow> string" where
  "dumps_text_str s = [char_of (34 :: nat)] @ concat (map dumps_text_char s) @ [char_of (34 :: nat)]"

fun dumps_text :: "json \<Rightarrow> string" where
  "dumps_text JNull = ''null''"
| "dumps_text (JBool b) = (if b then ''true'' else ''false'')"
| "dumps_text (JInt i) = int_str i"
| "dumps_text (JFloat t) = t"
| "dumps_text (JStr s) = dumps_text_str s"
| "dumps_text (JList xs) = ''['' @ join '','' (map dumps_text xs) @ '']''"
| "dumps_text (JObj d) =
     ''{'' @ join '','' (map (\<lambda>(k, t). dumps_text_str k @ '':'' @ t)
                       (sort_key fst (map (\<lambda>(k, v). (k, dumps_text v)) d))) @ ''}''"

end
