(* ===== verification/Resolver.thy ===== *)
theory Resolver
  imports PyText
begin

section \<open>The content-addressed resolver\<close>

text \<open>
  Models \<open>src/tok/resolver/store.py\<close> (the content store and its URIs), \<open>src/tok/resolver/manifest.py\<close>
  (the manifest and its dictionary form) and \<open>src/tok/utils/resolver_cache.py\<close> (the path cache on top of
  the store). The cache sees the store through the operations \<open>put\<close> and \<open>get\<close>; the locale
  \<open>content_store\<close> states what it relies on, and the store interprets it.

  The environment gives the SHA-256 digest and which writes fail.
\<close>

subsection \<open>Digests and URIs\<close>

definition object_path :: "string \<Rightarrow> string list" where
  "object_path digest = (let hex = drop 7 digest in [''objects'', take 2 hex, drop 2 hex])"

definition resolver_scheme :: string where "resolver_scheme = ''tok-resolver://''"

definition parse_resolver_uri :: "string \<Rightarrow> string py" where
  "parse_resolver_uri uri =
     (if \<not> prefix resolver_scheme uri then Inl ValueErrorRaised
      else let digest = drop (length resolver_scheme) uri in
           if \<not> hash_text digest then Inl ValueErrorRaised else Inr digest)"

definition format_resolver_uri :: "string \<Rightarrow> string py" where
  "format_resolver_uri digest =
     (if \<not> hash_text digest then Inl ValueErrorRaised else Inr (resolver_scheme @ digest))"

subsection \<open>The store\<close>

text \<open>
  An entry of the object tree is a regular file or a symbolic link: \<open>Symlink inside content\<close> tells whether
  the target stays inside the root, and the content when the target is a file. The directories of the
  tree, which only the store creates, are real directories.
\<close>

datatype node = Regular string | Symlink bool "string option"

type_synonym objects = "string list \<Rightarrow> node option"

record store_env =
  store_sha :: "string \<Rightarrow> string"
  write_fails :: "string \<Rightarrow> bool"

definition escapes_root :: "node option \<Rightarrow> bool" where
  "escapes_root n = (case n of Some (Symlink inside _) \<Rightarrow> \<not> inside | _ \<Rightarrow> False)"

definition checked_path :: "objects \<Rightarrow> string \<Rightarrow> string list py" where
  "checked_path st digest =
     (if \<not> hash_text digest then Inl ValueErrorRaised
      else if escapes_root (st (object_path digest)) then Inl ValueErrorRaised
      else Inr (object_path digest))"

definition node_is_file :: "node option \<Rightarrow> bool" where
  "node_is_file n = (case n of Some (Regular _) \<Rightarrow> True | Some (Symlink _ (Some _)) \<Rightarrow> True | _ \<Rightarrow> False)"

definition store_has :: "string \<Rightarrow> objects \<Rightarrow> bool py" where
  "store_has digest st =
     (if \<not> hash_text digest then Inr False
      else bind_py (checked_path st digest) (\<lambda>p. Inr (node_is_file (st p))))"

definition store_get :: "store_env \<Rightarrow> string \<Rightarrow> objects \<Rightarrow> string option py" where
  "store_get env digest st =
     bind_py (checked_path st digest) (\<lambda>p.
       case st p of
         Some (Regular data) \<Rightarrow>
           if store_sha env data \<noteq> drop 7 digest then Inl ValueErrorRaised else Inr (Some data)
       | n \<Rightarrow> if node_is_file n then Inl ValueErrorRaised else Inr None)"

definition store_put :: "store_env \<Rightarrow> string \<Rightarrow> objects \<Rightarrow> (string \<times> objects) py" where
  "store_put env data st =
     (let digest = ''sha256:'' @ store_sha env data in
      bind_py (checked_path st digest) (\<lambda>p.
        if write_fails env data then Inl OSErrorRaised
        else Inr (digest, st(p \<mapsto> Regular data))))"

subsection \<open>The interface the cache relies on\<close>

locale content_store =
  fixes put :: "string \<Rightarrow> 's \<Rightarrow> (string \<times> 's) py"
    and get :: "string \<Rightarrow> 's \<Rightarrow> string option py"
    and digest :: "string \<Rightarrow> string"
  assumes put_digest: "put d s = Inr (k, s') \<Longrightarrow> k = digest d"
    and get_put: "put d s = Inr (k, s') \<Longrightarrow> get k s' = Inr (Some d)"
    and get_sound: "get k s = Inr (Some d) \<Longrightarrow> k = digest d"
    and put_frame: "put d s = Inr (k, s') \<Longrightarrow> k' \<noteq> k \<Longrightarrow> get k' s' = get k' s"
begin

text \<open>\<open>puts\<close>: the store after a series of writes, those that failed leaving it unchanged.\<close>

fun puts :: "string list \<Rightarrow> 's \<Rightarrow> 's" where
  "puts [] s = s"
| "puts (d # ds) s = puts ds (case put d s of Inl _ \<Rightarrow> s | Inr (_, s') \<Rightarrow> s')"

lemma get_after_puts:
  assumes "get k s = Inr (Some d)"
  shows "\<exists>d'. get k (puts ds s) = Inr (Some d') \<and> digest d' = digest d"
  using assms
proof (induction ds arbitrary: s d)
  case Nil
  then show ?case by simp
next
  case (Cons e ds)
  show ?case
  proof (cases "put e s")
    case (Inl err)
    with Cons show ?thesis by simp
  next
    case (Inr p)
    then obtain k' s' where p: "put e s = Inr (k', s')" by (cases p) auto
    show ?thesis
    proof (cases "k = k'")
      case True
      then have "get k s' = Inr (Some e)" using get_put [OF p] by simp
      moreover have "digest e = digest d"
        using put_digest [OF p] get_sound [OF Cons.prems] True by simp
      ultimately show ?thesis using Cons.IH p by fastforce
    next
      case False
      then have "get k s' = Inr (Some d)" using put_frame [OF p] Cons.prems by simp
      from Cons.IH [OF this] p show ?thesis by simp
    qed
  qed
qed

end

lemma object_path_inject: "hash_text a \<Longrightarrow> hash_text b \<Longrightarrow> object_path a = object_path b \<longleftrightarrow> a = b"
proof
  assume ok: "hash_text a" "hash_text b" and eq: "object_path a = object_path b"
  then have "take 2 (drop 7 a) @ drop 2 (drop 7 a) = take 2 (drop 7 b) @ drop 2 (drop 7 b)"
    by (simp add: object_path_def Let_def)
  then have "drop 7 a = drop 7 b" by (simp only: append_take_drop_id)
  moreover have "take 7 a = take 7 b" using ok by (simp add: hash_text_def)
  ultimately show "a = b" by (metis append_take_drop_id)
qed simp

lemma checked_path_Inr: "checked_path st k = Inr p \<longleftrightarrow> hash_text k \<and> \<not> escapes_root (st (object_path k)) \<and> p = object_path k"
  by (auto simp: checked_path_def)

lemma store_put_Inr:
  "store_put env d st = Inr (k, st') \<longleftrightarrow>
     k = ''sha256:'' @ store_sha env d \<and> hash_text k \<and> \<not> escapes_root (st (object_path k)) \<and>
     \<not> write_fails env d \<and> st' = st(object_path k \<mapsto> Regular d)"
  by (auto simp: store_put_def Let_def checked_path_Inr bind_py_Inr_iff)

lemma store_get_Some:
  "store_get env k st = Inr (Some d) \<longleftrightarrow>
     hash_text k \<and> st (object_path k) = Some (Regular d) \<and> store_sha env d = drop 7 k"
  by (auto simp: store_get_def bind_py_Inr_iff checked_path_Inr escapes_root_def node_is_file_def
      split: option.splits node.splits if_splits)

lemma hash_text_split: "hash_text k \<Longrightarrow> k = ''sha256:'' @ drop 7 k"
  by (metis append_take_drop_id hash_text_def)

interpretation store: content_store "store_put env" "store_get env" "\<lambda>d. ''sha256:'' @ store_sha env d"
proof unfold_locales
  fix d s k s' assume put: "store_put env d s = Inr (k, s')"
  then show "k = ''sha256:'' @ store_sha env d" by (simp add: store_put_Inr)
  from put show "store_get env k s' = Inr (Some d)" by (auto simp: store_put_Inr store_get_Some)
  fix k' assume "k' \<noteq> k"
  with put show "store_get env k' s' = store_get env k' s"
    by (cases "hash_text k'")
      (auto simp: store_put_Inr store_get_def checked_path_def object_path_inject)
next
  fix k s d assume "store_get env k s = Inr (Some d)"
  then show "k = ''sha256:'' @ store_sha env d" by (metis store_get_Some hash_text_split)
qed


fun put_all :: "store_env \<Rightarrow> string list \<Rightarrow> objects \<Rightarrow> objects" where
  "put_all env [] st = st"
| "put_all env (d # ds) st = put_all env ds (case store_put env d st of Inl _ \<Rightarrow> st | Inr (_, st') \<Rightarrow> st')"

lemma put_all_puts: "put_all env ds st = store.puts env ds st"
  by (induction ds arbitrary: st) (simp_all split: sum.splits)

subsection \<open>The path cache\<close>

text \<open>
  A time stamp is the text of a float, so \<open>float_text\<close> gives the text of \<open>float(i)\<close>. The manifest file is
  \<open>None\<close> when it is absent or is not JSON; what \<open>_write_manifest\<close> stores is what \<open>json.loads\<close> returns of it.
\<close>

record cache_entry =
  cached_path :: string
  cached_digest :: string
  cached_mtime :: "string option"

definition normalize_path :: "string \<Rightarrow> string" where
  "normalize_path p = (let n = map (\<lambda>c. if c = char_of (92 :: nat) then CHR ''/'' else c) (py_strip p)
     in if prefix ''./'' n then drop 2 n else n)"

definition cache_entry_to_dict :: "cache_entry \<Rightarrow> json" where
  "cache_entry_to_dict e = JObj ([(''path'', JStr (cached_path e)), (''digest'', JStr (cached_digest e))] @
     (case cached_mtime e of None \<Rightarrow> [] | Some t \<Rightarrow> [(''mtime'', JFloat t)]))"

definition cache_entry_from_dict :: "(int \<Rightarrow> string) \<Rightarrow> json \<Rightarrow> cache_entry option" where
  "cache_entry_from_dict float_text d =
     (case (jget ''path'' d, jget ''digest'' d) of
        (Some (JStr p), Some (JStr k)) \<Rightarrow>
          Some \<lparr>cached_path = p, cached_digest = k,
                cached_mtime = (case jget ''mtime'' d of
                    Some (JFloat t) \<Rightarrow> Some t
                  | Some (JInt i) \<Rightarrow> Some (float_text i)
                  | Some (JBool b) \<Rightarrow> Some (float_text (if b then 1 else 0))
                  | _ \<Rightarrow> None)\<rparr>
      | _ \<Rightarrow> None)"

fun load_entries :: "(int \<Rightarrow> string) \<Rightarrow> (string \<times> json) list \<Rightarrow> cache_entry dict \<Rightarrow> cache_entry dict" where
  "load_entries float_text [] acc = acc"
| "load_entries float_text ((key, value) # rest) acc =
     load_entries float_text rest
       (if \<not> is_dict value then acc
        else case cache_entry_from_dict float_text value of
            None \<Rightarrow> acc
          | Some e \<Rightarrow> dict_set (normalize_path key) e acc)"

definition load_cache_manifest :: "(int \<Rightarrow> string) \<Rightarrow> json option \<Rightarrow> cache_entry dict" where
  "load_cache_manifest float_text m = (case m of Some (JObj d) \<Rightarrow> load_entries float_text d [] | _ \<Rightarrow> [])"

definition write_cache_manifest :: "cache_entry dict \<Rightarrow> json option" where
  "write_cache_manifest m = Some (JObj (map (\<lambda>(k, e). (k, cache_entry_to_dict e)) (sort_key fst m)))"

definition cache_put ::
    "(string \<Rightarrow> 's \<Rightarrow> (string \<times> 's) py) \<Rightarrow> (int \<Rightarrow> string) \<Rightarrow> string \<Rightarrow> string \<Rightarrow> string option \<Rightarrow>
      's \<times> json option \<Rightarrow> (string \<times> 's \<times> json option) py" where
  "cache_put put float_text p content mtime c =
     bind_py (put content (fst c)) (\<lambda>(digest, st).
       let manifest = dict_set (normalize_path p)
             \<lparr>cached_path = normalize_path p, cached_digest = digest, cached_mtime = mtime\<rparr>
             (load_cache_manifest float_text (snd c))
       in Inr (digest, st, write_cache_manifest manifest))"

definition fresh_entry :: "string option \<Rightarrow> cache_entry \<Rightarrow> bool" where
  "fresh_entry mtime e = (\<not> (mtime \<noteq> None \<and> cached_mtime e \<noteq> None \<and> mtime \<noteq> cached_mtime e))"

definition cache_digest :: "(int \<Rightarrow> string) \<Rightarrow> string \<Rightarrow> string option \<Rightarrow> json option \<Rightarrow> string option" where
  "cache_digest float_text p mtime m =
     (case map_of (load_cache_manifest float_text m) (normalize_path p) of
        None \<Rightarrow> None
      | Some e \<Rightarrow> if fresh_entry mtime e then Some (cached_digest e) else None)"

definition cache_get ::
    "(string \<Rightarrow> 's \<Rightarrow> string option py) \<Rightarrow> (int \<Rightarrow> string) \<Rightarrow> string \<Rightarrow> string option \<Rightarrow>
      's \<times> json option \<Rightarrow> string option py" where
  "cache_get get float_text p mtime c =
     (case map_of (load_cache_manifest float_text (snd c)) (normalize_path p) of
        None \<Rightarrow> Inr None
      | Some e \<Rightarrow> if fresh_entry mtime e then get (cached_digest e) (fst c) else Inr None)"

definition cache_invalidate :: "(int \<Rightarrow> string) \<Rightarrow> string \<Rightarrow> 's \<times> json option \<Rightarrow> 's \<times> json option" where
  "cache_invalidate float_text p c =
     (fst c, write_cache_manifest (dict_pop (normalize_path p) (load_cache_manifest float_text (snd c))))"

lemma cache_entry_roundtrip [simp]: "cache_entry_from_dict float_text (cache_entry_to_dict e) = Some e"
  by (cases e) (simp add: cache_entry_from_dict_def cache_entry_to_dict_def split: option.split)

lemma is_dict_cache_entry [simp]: "is_dict (cache_entry_to_dict e)"
  by (simp add: cache_entry_to_dict_def)

text \<open>Keys that the normal form leaves alone are loaded as they were written.\<close>

definition stable_keys :: "cache_entry dict \<Rightarrow> bool" where
  "stable_keys m = (distinct (map fst m) \<and> (\<forall>k \<in> set (map fst m). normalize_path k = k))"

lemma load_entries_written:
  assumes "\<forall>k \<in> set (map fst m). normalize_path k = k" and "distinct (map fst m)"
    and "set (map fst m) \<inter> set (map fst acc) = {}"
  shows "map_of (load_entries float_text (map (\<lambda>(k, e). (k, cache_entry_to_dict e)) m) acc) =
    map_of acc ++ map_of m"
  using assms
proof (induction m arbitrary: acc)
  case Nil
  then show ?case by simp
next
  case (Cons p m)
  obtain k e where p: "p = (k, e)" by (cases p) auto
  have "set (map fst m) \<inter> set (map fst (dict_set k e acc)) = {}"
    using Cons.prems p by (simp add: keys_dict_set [simplified])
  then have "map_of (load_entries float_text (map (\<lambda>(k, e). (k, cache_entry_to_dict e)) m) (dict_set k e acc)) =
      map_of (dict_set k e acc) ++ map_of m"
    using Cons.prems by (intro Cons.IH) auto
  moreover have "map_of m k = None"
    using Cons.prems p by (simp add: map_of_eq_None_iff)
  ultimately show ?case
    using Cons.prems p by (auto simp: map_add_def fun_eq_iff split: option.splits)
qed

lemma load_written:
  assumes "stable_keys m"
  shows "map_of (load_cache_manifest float_text (write_cache_manifest m)) = map_of m"
proof -
  have keys: "set (map fst (sort_key fst m)) = set (map fst m)" by simp
  have dist: "distinct (map fst (sort_key fst m))"
    using assms by (metis stable_keys_def distinct_map distinct_sort inj_on_def set_sort)
  have "map_of (load_cache_manifest float_text (write_cache_manifest m)) =
      map_of (load_entries float_text (map (\<lambda>(k, e). (k, cache_entry_to_dict e)) (sort_key fst m)) [])"
    by (simp add: load_cache_manifest_def write_cache_manifest_def)
  also have "\<dots> = map_of (sort_key fst m)"
    using load_entries_written [of "sort_key fst m" "[]"] assms dist by (simp add: stable_keys_def)
  finally show ?thesis by (simp add: map_of_sort_key_fst)
qed

lemma distinct_load: "distinct (map fst acc) \<Longrightarrow> distinct (map fst (load_entries float_text d acc))"
  by (induction float_text d acc rule: load_entries.induct) (auto simp: distinct_dict_set split: option.splits)

lemma stable_keys_dict_set:
  "stable_keys m \<Longrightarrow> normalize_path k = k \<Longrightarrow> stable_keys (dict_set k e m)"
  using keys_dict_set [of k e m] by (auto simp: stable_keys_def distinct_dict_set)

lemma stable_keys_dict_pop: "stable_keys m \<Longrightarrow> stable_keys (dict_pop k m)"
  by (induction m) (auto simp: stable_keys_def dict_pop_def)


definition cache_ok :: "(int \<Rightarrow> string) \<Rightarrow> json option \<Rightarrow> bool" where
  "cache_ok float_text m = stable_keys (load_cache_manifest float_text m)"

definition path_ok :: "string \<Rightarrow> bool" where
  "path_ok p = (normalize_path (normalize_path p) = normalize_path p)"

lemma load_distinct: "distinct (map fst (load_cache_manifest float_text m))"
  by (auto simp: load_cache_manifest_def intro!: distinct_load split: option.split json.split)

lemma written_ok:
  assumes "stable_keys m"
  shows "cache_ok float_text (write_cache_manifest m)"
proof -
  have "set (map fst (load_cache_manifest float_text (write_cache_manifest m))) = set (map fst m)"
    using arg_cong [OF load_written [OF assms], of dom] by (simp add: dom_map_of_conv_image_fst)
  with assms load_distinct show ?thesis by (auto simp: cache_ok_def stable_keys_def)
qed

lemma cache_invalidate_spec:
  assumes "cache_ok float_text (snd c)"
  shows "cache_ok float_text (snd (cache_invalidate float_text p c))"
    and "cache_digest float_text q m (snd (cache_invalidate float_text p c)) =
      (if normalize_path q = normalize_path p then None else cache_digest float_text q m (snd c))"
proof -
  let ?m = "dict_pop (normalize_path p) (load_cache_manifest float_text (snd c))"
  have st: "stable_keys ?m" using assms by (simp add: cache_ok_def stable_keys_dict_pop)
  from written_ok [OF st] show "cache_ok float_text (snd (cache_invalidate float_text p c))"
    by (simp add: cache_invalidate_def)
  from load_written [OF st, of float_text]
  show "cache_digest float_text q m (snd (cache_invalidate float_text p c)) =
      (if normalize_path q = normalize_path p then None else cache_digest float_text q m (snd c))"
    by (simp add: cache_invalidate_def cache_digest_def cong: option.case_cong)
qed

lemma cache_put_spec:
  assumes ok: "cache_ok float_text (snd c)" and p: "path_ok p"
    and put: "cache_put put float_text p content mtime c = Inr (k, c')"
  obtains st where "put content (fst c) = Inr (k, st)" and "fst c' = st"
    and "cache_ok float_text (snd c')"
    and "map_of (load_cache_manifest float_text (snd c')) =
      (map_of (load_cache_manifest float_text (snd c)))(normalize_path p \<mapsto>
         \<lparr>cached_path = normalize_path p, cached_digest = k, cached_mtime = mtime\<rparr>)"
proof -
  from put obtain st where st: "put content (fst c) = Inr (k, st)"
    and c': "c' = (st, write_cache_manifest (dict_set (normalize_path p)
             \<lparr>cached_path = normalize_path p, cached_digest = k, cached_mtime = mtime\<rparr>
             (load_cache_manifest float_text (snd c))))"
    by (auto simp: cache_put_def bind_py_Inr_iff Let_def)
  let ?m = "dict_set (normalize_path p)
             \<lparr>cached_path = normalize_path p, cached_digest = k, cached_mtime = mtime\<rparr>
             (load_cache_manifest float_text (snd c))"
  have stable: "stable_keys ?m"
    using ok p by (intro stable_keys_dict_set) (simp_all add: cache_ok_def path_ok_def)
  show ?thesis
    by (rule that [OF st]) (simp_all add: c' written_ok [OF stable] load_written [OF stable])
qed

context content_store
begin

lemma cache_get_put:
  assumes "cache_ok float_text (snd c)" and "path_ok p"
    and "cache_put put float_text p content mtime c = Inr (k, c')"
    and "m = None \<or> mtime = None \<or> m = mtime"
  shows "cache_get get float_text p m c' = Inr (Some content)"
proof -
  from cache_put_spec [OF assms(1-3)] obtain st where st: "put content (fst c) = Inr (k, st)" "fst c' = st"
    and e: "map_of (load_cache_manifest float_text (snd c')) (normalize_path p) =
      Some \<lparr>cached_path = normalize_path p, cached_digest = k, cached_mtime = mtime\<rparr>"
    by (metis fun_upd_same)
  show ?thesis
    using get_put [OF st(1)] assms(4) st(2) by (simp add: cache_get_def e fresh_entry_def)
qed

lemma cache_get_other:
  assumes "cache_ok float_text (snd c)" and "path_ok p"
    and "cache_put put float_text p content mtime c = Inr (k, c')"
    and "normalize_path q \<noteq> normalize_path p"
    and "cache_get get float_text q m c = Inr (Some d)"
  shows "\<exists>d'. cache_get get float_text q m c' = Inr (Some d') \<and> digest d' = digest d"
proof -
  from cache_put_spec [OF assms(1-3)] obtain st where st: "put content (fst c) = Inr (k, st)" "fst c' = st"
    and e: "map_of (load_cache_manifest float_text (snd c')) (normalize_path q) =
      map_of (load_cache_manifest float_text (snd c)) (normalize_path q)"
    using assms(4) by (metis fun_upd_other)
  from assms(5) obtain e where e': "map_of (load_cache_manifest float_text (snd c)) (normalize_path q) = Some e"
    and f: "fresh_entry m e" and g: "get (cached_digest e) (fst c) = Inr (Some d)"
    by (auto simp: cache_get_def split: option.splits if_splits)
  have "\<exists>d'. get (cached_digest e) st = Inr (Some d') \<and> digest d' = digest d"
    using get_after_puts [OF g, of "[content]"] st by simp
  with st f show ?thesis by (simp add: cache_get_def e e')
qed

end

subsection \<open>The manifest\<close>

record resolver_manifest =
  manifest_version :: string
  resolver_id :: string
  supported_hash_algorithms :: "string list"
  max_conformance_level :: string
  routing_scope :: string
  allow_remote_resolution :: bool
  allow_referral_following :: bool
  metadata_export_policy :: string
  max_total_bytes :: int
  object_ttl_seconds :: int
  eviction_policy :: string
  configured_peers :: "string list"
  configured_gateways :: "string list"

definition default_manifest :: "string \<Rightarrow> resolver_manifest" where
  "default_manifest uuid4 = \<lparr>manifest_version = ''tok-resolver/v0.1'', resolver_id = uuid4,
     supported_hash_algorithms = [''sha256''], max_conformance_level = ''L3a'', routing_scope = ''local_only'',
     allow_remote_resolution = False, allow_referral_following = False, metadata_export_policy = ''local_only'',
     max_total_bytes = 512 * 1024 * 1024, object_ttl_seconds = 30 * 24 * 60 * 60, eviction_policy = ''lru'',
     configured_peers = [], configured_gateways = []\<rparr>"

definition manifest_to_dict :: "resolver_manifest \<Rightarrow> json" where
  "manifest_to_dict m = JObj
    [(''manifest_version'', JStr (manifest_version m)),
     (''resolver_id'', JStr (resolver_id m)),
     (''supported_hash_algorithms'', JList (map JStr (supported_hash_algorithms m))),
     (''max_conformance_level'', JStr (max_conformance_level m)),
     (''routing_scope'', JStr (routing_scope m)),
     (''privacy'', JObj
       [(''allow_remote_resolution'', JBool (allow_remote_resolution m)),
        (''allow_referral_following'', JBool (allow_referral_following m)),
        (''metadata_export_policy'', JStr (metadata_export_policy m))]),
     (''storage_policy'', JObj
       [(''max_total_bytes'', JInt (max_total_bytes m)),
        (''object_ttl_seconds'', JInt (object_ttl_seconds m)),
        (''eviction_policy'', JStr (eviction_policy m))]),
     (''configured_peers'', JList (map JStr (configured_peers m))),
     (''configured_gateways'', JList (map JStr (configured_gateways m)))]"

text \<open>
  \<open>tuple(x or [])\<close>, and what \<open>uuid.UUID(s)\<close> accepts: \<open>urn:\<close> and \<open>uuid:\<close> are removed, then the braces at
  the ends and every hyphen; the rest has 32 characters and \<open>int(_, 16)\<close> reads it, which allows blanks
  around the digits, a sign, \<open>0x\<close> and single underscores.
\<close>

definition tuple_or_empty :: "json \<Rightarrow> json list py" where
  "tuple_or_empty j =
     (if \<not> truthy j then Inr []
      else case j of
          JList xs \<Rightarrow> Inr xs
        | JStr s \<Rightarrow> Inr (map (\<lambda>c. JStr [c]) s)
        | JObj d \<Rightarrow> Inr (map (\<lambda>(k, _). JStr k) d)
        | _ \<Rightarrow> Inl TypeError)"

function remove_all :: "string \<Rightarrow> string \<Rightarrow> string" where
  "remove_all pat s =
     (if pat = [] then s
      else case py_find pat s of
          None \<Rightarrow> s
        | Some i \<Rightarrow> take i s @ remove_all pat (drop (i + length pat) s))"
  by pat_completeness auto

termination
proof (relation "measure (\<lambda>(pat, s). length s)")
  fix pat s :: string and i
  assume "pat \<noteq> []" and "py_find pat s = Some i"
  then have "i + length pat \<le> length s" "0 < length pat" by (auto dest: py_find_bound)
  then have "length s - (i + length pat) < length s" by arith
  then show "((pat, drop (i + length pat) s), pat, s) \<in> measure (\<lambda>(pat, s). length s)" by simp
qed simp

declare remove_all.simps [simp del]

definition hex_any :: "char \<Rightarrow> bool" where
  "hex_any c = (is_hex c \<or> (let n = (of_char c :: nat) in 65 \<le> n \<and> n \<le> 70))"

fun underscored_hex :: "string \<Rightarrow> bool" where
  "underscored_hex [] = False"
| "underscored_hex [c] = hex_any c"
| "underscored_hex (c # d # cs) =
     (hex_any c \<and> (if d = CHR ''_'' then underscored_hex cs else underscored_hex (d # cs)))"

definition int16_ok :: "string \<Rightarrow> bool" where
  "int16_ok s =
     (let t = py_strip s;
          t = (if prefix ''+'' t \<or> prefix ''-'' t then drop 1 t else t)
      in if prefix ''0x'' t \<or> prefix ''0X'' t
         then let u = drop 2 t in underscored_hex (if prefix ''_'' u then drop 1 u else u)
         else underscored_hex t)"

definition uuid_text_ok :: "string \<Rightarrow> bool" where
  "uuid_text_ok s =
     (let t = remove_all ''uuid:'' (remove_all ''urn:'' s);
          t = filter (\<lambda>c. c \<noteq> CHR ''-'') (strip_by (\<lambda>c. c = CHR ''{'' \<or> c = CHR ''}'') t)
      in length t = 32 \<and> int16_ok t)"

definition positive_int :: "json \<Rightarrow> int option" where
  "positive_int j = (case j of JInt i \<Rightarrow> if 0 < i then Some i else None | _ \<Rightarrow> None)"

definition manifest_from_dict :: "json \<Rightarrow> resolver_manifest py" where
  "manifest_from_dict data =
     (if \<not> is_dict data then Inl AttributeError
      else if jget_or ''manifest_version'' JNull data \<noteq> JStr ''tok-resolver/v0.1'' then Inl ValueErrorRaised
      else if jget_or ''max_conformance_level'' JNull data \<noteq> JStr ''L3a'' then Inl ValueErrorRaised
      else if jget_or ''routing_scope'' JNull data \<noteq> JStr ''local_only'' then Inl ValueErrorRaised
      else
        let privacy = jget_or ''privacy'' JNull data;
            privacy = (if truthy privacy then privacy else JObj []) in
        if \<not> is_dict privacy then Inl AttributeError
        else if jget_or ''allow_remote_resolution'' JNull privacy \<noteq> JBool False then Inl ValueErrorRaised
        else if jget_or ''allow_referral_following'' JNull privacy \<noteq> JBool False then Inl ValueErrorRaised
        else if jget_or ''metadata_export_policy'' JNull privacy \<noteq> JStr ''local_only'' then Inl ValueErrorRaised
        else
          bind_py (tuple_or_empty (jget_or ''configured_peers'' JNull data)) (\<lambda>peers.
          bind_py (tuple_or_empty (jget_or ''configured_gateways'' JNull data)) (\<lambda>gateways.
          if peers \<noteq> [] then Inl ValueErrorRaised
          else if gateways \<noteq> [] then Inl ValueErrorRaised
          else bind_py (tuple_or_empty (jget_or ''supported_hash_algorithms'' JNull data)) (\<lambda>supported.
          if supported \<noteq> [JStr ''sha256''] then Inl ValueErrorRaised
          else case jget_or ''resolver_id'' JNull data of
              JStr rid \<Rightarrow>
                if py_strip rid = [] then Inl ValueErrorRaised
                else if \<not> uuid_text_ok rid then Inl ValueErrorRaised
                else
                  let storage = jget_or ''storage_policy'' JNull data in
                  if \<not> is_dict storage then Inl ValueErrorRaised
                  else (case (positive_int (jget_or ''max_total_bytes'' JNull storage),
                              positive_int (jget_or ''object_ttl_seconds'' JNull storage)) of
                      (Some bytes, Some ttl) \<Rightarrow>
                        if jget_or ''eviction_policy'' JNull storage \<noteq> JStr ''lru'' then Inl ValueErrorRaised
                        else Inr ((default_manifest (py_strip rid))\<lparr>max_total_bytes := bytes, object_ttl_seconds := ttl\<rparr>)
                    | _ \<Rightarrow> Inl ValueErrorRaised)
            | _ \<Rightarrow> Inl ValueErrorRaised))))"


text \<open>What the 0.2.0 conformance level pins down: nothing leaves the machine.\<close>

definition local_manifest :: "resolver_manifest \<Rightarrow> bool" where
  "local_manifest m =
     (manifest_version m = ''tok-resolver/v0.1'' \<and> max_conformance_level m = ''L3a'' \<and>
      routing_scope m = ''local_only'' \<and> \<not> allow_remote_resolution m \<and> \<not> allow_referral_following m \<and>
      metadata_export_policy m = ''local_only'' \<and> configured_peers m = [] \<and> configured_gateways m = [] \<and>
      supported_hash_algorithms m = [''sha256''] \<and> eviction_policy m = ''lru'' \<and>
      0 < max_total_bytes m \<and> 0 < object_ttl_seconds m \<and>
      resolver_id m \<noteq> [] \<and> py_strip (resolver_id m) = resolver_id m)"

lemma positive_int_Some: "positive_int j = Some i \<longleftrightarrow> j = JInt i \<and> 0 < i"
  by (auto simp: positive_int_def split: json.splits)

lemma manifest_from_dict_local:
  assumes "manifest_from_dict d = Inr m"
  shows "local_manifest m"
proof -
  obtain rid bytes ttl where "m = (default_manifest (py_strip rid))\<lparr>max_total_bytes := bytes, object_ttl_seconds := ttl\<rparr>"
    and "py_strip rid \<noteq> []" and "0 < bytes" and "0 < ttl"
    using assms
    by (auto simp: manifest_from_dict_def Let_def bind_py_Inr_iff positive_int_Some
        split: if_splits json.splits option.splits)
  then show ?thesis by (simp add: local_manifest_def default_manifest_def)
qed

lemma manifest_roundtrip:
  assumes "local_manifest m" and "uuid_text_ok (resolver_id m)"
  shows "manifest_from_dict (manifest_to_dict m) = Inr m"
  using assms
  by (cases m) (auto simp: local_manifest_def manifest_from_dict_def manifest_to_dict_def default_manifest_def
      jget_or_def tuple_or_empty_def positive_int_def)

subsection \<open>Properties\<close>

text \<open>
  Content stored in the resolver stays retrievable: after a successful \<open>put\<close>, whatever is stored later
  (failed writes included), \<open>get\<close> of the returned digest succeeds and returns bytes with that digest.
\<close>

lemma stored_content_retrievable:
  assumes "store_put env d st = Inr (k, st')"
  shows "\<exists>d'. store_get env k (put_all env ds st') = Inr (Some d') \<and> store_sha env d' = store_sha env d"
  using store.get_after_puts [OF store.get_put [OF assms], of ds] by (simp add: put_all_puts)

definition sample_hex :: string where "sample_hex = replicate 64 CHR ''a''"

definition sample_store :: store_env where
  "sample_store = \<lparr>store_sha = (\<lambda>d. if d = ''x'' then sample_hex else replicate 64 CHR ''b''), write_fails = (\<lambda>d. d = ''z'')\<rparr>"

lemma stored_content_retrievable_witness:
  "\<exists>d'. store_get sample_store (''sha256:'' @ sample_hex)
       (put_all sample_store [''y'', ''z'', ''y''] (Map.empty(object_path (''sha256:'' @ sample_hex) \<mapsto> Regular ''x''))) =
         Inr (Some d') \<and> store_sha sample_store d' = store_sha sample_store ''x''"
  by (rule stored_content_retrievable [where st = Map.empty and d = "''x''"])
    (simp add: store_put_Inr sample_store_def escapes_root_def hash_text_def sample_hex_def is_hex_def list_all_iff)

text \<open>
  The path cache returns what was stored last: on a manifest whose keys are in normal form, a \<open>put\<close> for a path
  with a stable normal form makes \<open>get\<close> of this path return the content (for the same time stamp or without
  one), keeps the manifest in normal form, and leaves the digests of all other paths as they were.
\<close>

lemma cache_put_get:
  assumes "cache_ok float_text (snd c)" and "path_ok p"
    and "cache_put (store_put env) float_text p content mtime c = Inr (k, c')"
  shows "cache_get (store_get env) float_text p mtime c' = Inr (Some content) \<and>
    cache_get (store_get env) float_text p None c' = Inr (Some content) \<and>
    cache_ok float_text (snd c') \<and>
    (normalize_path q = normalize_path p \<or>
     cache_digest float_text q m (snd c') = cache_digest float_text q m (snd c))"
proof -
  from cache_put_spec [OF assms] have ok: "cache_ok float_text (snd c')"
    and frame: "normalize_path q \<noteq> normalize_path p \<Longrightarrow>
      map_of (load_cache_manifest float_text (snd c')) (normalize_path q) =
      map_of (load_cache_manifest float_text (snd c)) (normalize_path q)"
    by (metis, metis fun_upd_other)
  have "cache_digest float_text q m (snd c') = cache_digest float_text q m (snd c)"
    if "normalize_path q \<noteq> normalize_path p"
    using frame [OF that] by (simp add: cache_digest_def)
  with ok store.cache_get_put [OF assms] show ?thesis by blast
qed

definition sample_cache :: "(string \<times> objects \<times> json option) py" where
  "sample_cache = cache_put (store_put sample_store) int_str ''./a.py'' ''x'' (Some ''1.5'') (Map.empty, None)"

lemma cache_put_get_witness:
  "let c' = snd (projr sample_cache) in
    cache_get (store_get sample_store) int_str ''./a.py'' (Some ''1.5'') c' = Inr (Some ''x'') \<and>
    cache_get (store_get sample_store) int_str ''./a.py'' None c' = Inr (Some ''x'') \<and>
    cache_ok int_str (snd c') \<and>
    (normalize_path ''b.py'' = normalize_path ''./a.py'' \<or>
     cache_digest int_str ''b.py'' None (snd c') = cache_digest int_str ''b.py'' None None)"
proof -
  have ok: "cache_ok int_str (snd (Map.empty :: objects, None))" by (simp add: cache_ok_def stable_keys_def load_cache_manifest_def)
  have p: "path_ok ''./a.py''" by code_simp
  have "store_put sample_store ''x'' Map.empty =
      Inr (''sha256:'' @ sample_hex, Map.empty(object_path (''sha256:'' @ sample_hex) \<mapsto> Regular ''x''))"
    by (simp add: store_put_Inr sample_store_def escapes_root_def hash_text_def sample_hex_def is_hex_def list_all_iff)
  then obtain k c' where c': "sample_cache = Inr (k, c')"
    by (simp add: sample_cache_def cache_put_def Let_def)
  from cache_put_get [OF ok p this [unfolded sample_cache_def], of "''b.py''" None] show ?thesis
    by (simp add: c')
qed

text \<open>
  Every manifest the resolver accepts is local-only: no remote resolution, no referrals, no peers and no gateways,
  one digest algorithm, positive limits. Written back with a well-formed identifier, it is read as the same manifest.
\<close>

lemma manifest_local_roundtrip:
  assumes "manifest_from_dict d = Inr m" and "uuid_text_ok (resolver_id m)"
  shows "local_manifest m \<and> manifest_from_dict (manifest_to_dict m) = Inr m"
  using manifest_from_dict_local [OF assms(1)] manifest_roundtrip assms(2) by blast

definition sample_uuid :: string where "sample_uuid = ''12345678-1234-4123-8123-123456789abc''"

lemma manifest_local_roundtrip_witness:
  "local_manifest (default_manifest sample_uuid) \<and>
   manifest_from_dict (manifest_to_dict (default_manifest sample_uuid)) = Inr (default_manifest sample_uuid)"
proof (rule manifest_local_roundtrip)
  show "uuid_text_ok (resolver_id (default_manifest sample_uuid))" by code_simp
  show "manifest_from_dict (manifest_to_dict (default_manifest sample_uuid)) = Inr (default_manifest sample_uuid)"
    by code_simp
qed

text \<open>
  Two consequences of the way the code normalises: a path whose normal form is not stable is stored under a
  key that a later load renames, and an identifier with a blank instead of its last digit is accepted but its
  stripped form is not.
\<close>

lemma unstable_path_lost:
  "store_put env content st = Inr (k, st') \<Longrightarrow>
   cache_put (store_put env) float_text ''././a'' content None (st, None) = Inr (k, c') \<Longrightarrow>
   cache_get (store_get env) float_text ''././a'' None c' = Inr None"
proof -
  have n: "normalize_path ''././a'' = ''./a''" "normalize_path ''./a'' = ''a''" by code_simp+
  assume "store_put env content st = Inr (k, st')"
    and "cache_put (store_put env) float_text ''././a'' content None (st, None) = Inr (k, c')"
  then have "c' = (st', write_cache_manifest
       [(''./a'', \<lparr>cached_path = ''./a'', cached_digest = k, cached_mtime = None\<rparr>)])"
    by (simp add: cache_put_def n Let_def load_cache_manifest_def dict_set_def)
  then show ?thesis
    by (simp add: cache_get_def n load_cache_manifest_def write_cache_manifest_def)
qed

lemma blank_identifier_not_reloaded:
  "let d = manifest_to_dict (default_manifest ''12345678-1234-4123-8123-123456789ab '') in
     manifest_from_dict (manifest_to_dict (projr (manifest_from_dict d))) = Inl ValueErrorRaised \<and>
     resolver_id (projr (manifest_from_dict d)) = ''12345678-1234-4123-8123-123456789ab''"
  by code_simp

end
