(* ===== verification/UnifiedDiff.thy ===== *)
theory UnifiedDiff
  imports PyText
begin

section \<open>Replay of unified diffs\<close>

text \<open>
  Models \<open>_apply_unified_diff\<close> and \<open>_parse_hunk_old_start\<close> of \<open>src/tok/spec/trace.py\<close>: the auditor
  replays the stored delta on the stored base and compares the result with the stored final content.
  The two nested loops are two functions over the remaining diff lines; \<open>ValueError\<close> is the left side of
  the result. The specification is an edit script, rendered as a unified diff.
\<close>

subsection \<open>The code\<close>

definition drop_prefix :: "string \<Rightarrow> string \<Rightarrow> string option" where
  "drop_prefix p s = (if prefix p s then Some (drop (length p) s) else None)"

text \<open>\<open>(?:,\d+)?\<close>: a comma without digits after it does not belong to the group.\<close>

definition skip_count :: "string \<Rightarrow> string" where
  "skip_count s = (case s of
       c # cs \<Rightarrow> if c = CHR '','' \<and> fst (span is_digit cs) \<noteq> [] then snd (span is_digit cs) else s
     | [] \<Rightarrow> s)"

definition parse_hunk_old_start :: "string \<Rightarrow> string + nat" where
  "parse_hunk_old_start header =
     (case drop_prefix ''@@ -'' header of
        None \<Rightarrow> Inl ''invalid_hunk_header''
      | Some s1 \<Rightarrow>
          let (digits, s2) = span is_digit s1 in
          if digits = [] then Inl ''invalid_hunk_header''
          else case drop_prefix '' +'' (skip_count s2) of
              None \<Rightarrow> Inl ''invalid_hunk_header''
            | Some s3 \<Rightarrow>
                let (digits', s4) = span is_digit s3 in
                if digits' = [] \<or> \<not> prefix '' @@'' (skip_count s4) then Inl ''invalid_hunk_header''
                else if decimal_value digits < 1 then Inl ''invalid_hunk_header''
                else Inr (decimal_value digits))"

definition no_newline_mark :: char where "no_newline_mark = char_of (92 :: nat)"

text \<open>One line of a hunk: the new index into the base and the lines put out.\<close>

definition hunk_step :: "string list \<Rightarrow> nat \<Rightarrow> string \<Rightarrow> string + (nat \<times> string list)" where
  "hunk_step base i l =
     (let keep = (\<lambda>expected. if length base \<le> i \<or> base ! i \<noteq> expected then Inl ''context_mismatch''
                           else Inr (i + 1, [base ! i])) in
      if l = [newline] \<or> l = [carriage_return, newline] then keep l
      else if prefix '' '' l then keep (drop 1 l)
      else if prefix ''-'' l then
        (if length base \<le> i \<or> base ! i \<noteq> drop 1 l then Inl ''removal_mismatch'' else Inr (i + 1, []))
      else if prefix ''+'' l then Inr (i, [drop 1 l])
      else if prefix [no_newline_mark] l then Inr (i, [])
      else Inl ''invalid_hunk_line'')"

function (sequential) replay_diff :: "string list \<Rightarrow> nat \<Rightarrow> string list \<Rightarrow> string list \<Rightarrow> string + string list"
  and replay_hunk :: "string list \<Rightarrow> nat \<Rightarrow> string list \<Rightarrow> string list \<Rightarrow> string + string list" where
  "replay_diff base i out [] = Inr (out @ drop i base)"
| "replay_diff base i out (l # ls) =
     (if prefix ''--- '' l \<or> prefix ''+++ '' l then replay_diff base i out ls
      else if \<not> prefix ''@@ '' l then replay_diff base i out ls
      else case parse_hunk_old_start l of
          Inl e \<Rightarrow> Inl e
        | Inr old_start \<Rightarrow>
            let start = old_start - 1 in
            replay_hunk base start (out @ take (start - i) (drop i base)) ls)"
| "replay_hunk base i out [] = Inr (out @ drop i base)"
| "replay_hunk base i out (l # ls) =
     (if prefix ''@@ '' l then replay_diff base i out (l # ls)
      else case hunk_step base i l of
          Inl e \<Rightarrow> Inl e
        | Inr (j, put) \<Rightarrow> replay_hunk base j (out @ put) ls)"
  by pat_completeness auto

termination
  by (relation "measure (\<lambda>x. case x of Inl (_, _, _, ls) \<Rightarrow> 2 * length ls | Inr (_, _, _, ls) \<Rightarrow> 2 * length ls + 1)")
    auto

definition apply_unified_diff :: "string list \<Rightarrow> string list \<Rightarrow> string + string list" where
  "apply_unified_diff base diff = replay_diff base 0 [] diff"

subsection \<open>Edit scripts and their rendering\<close>

text \<open>
  A hunk skips \<open>gap\<close> lines of the old file and edits the lines after them. Rendering follows the unified
  format: the range of the old file is its first line and its number of lines, and an empty range is
  given by the line before it.
\<close>

datatype edit = Keep string | Remove string | Insert string

record hunk =
  gap :: "string list"
  edits :: "edit list"

fun old_of :: "edit \<Rightarrow> string list" where
  "old_of (Keep l) = [l]"
| "old_of (Remove l) = [l]"
| "old_of (Insert l) = []"

fun new_of :: "edit \<Rightarrow> string list" where
  "new_of (Keep l) = [l]"
| "new_of (Remove l) = []"
| "new_of (Insert l) = [l]"

fun edit_line :: "edit \<Rightarrow> string" where
  "edit_line (Keep l) = CHR '' '' # l"
| "edit_line (Remove l) = CHR ''-'' # l"
| "edit_line (Insert l) = CHR ''+'' # l"

definition olds :: "edit list \<Rightarrow> string list" where "olds es = concat (map old_of es)"
definition news :: "edit list \<Rightarrow> string list" where "news es = concat (map new_of es)"

definition old_file :: "hunk list \<Rightarrow> string list \<Rightarrow> string list" where
  "old_file hs tail = concat (map (\<lambda>h. gap h @ olds (edits h)) hs) @ tail"

definition new_file :: "hunk list \<Rightarrow> string list \<Rightarrow> string list" where
  "new_file hs tail = concat (map (\<lambda>h. gap h @ news (edits h)) hs) @ tail"

definition unified_range :: "nat \<Rightarrow> nat \<Rightarrow> string" where
  "unified_range start len = (let first = (if len = 0 then start else start + 1) in
     if len = 1 then nat_str first else nat_str first @ '','' @ nat_str len)"

definition hunk_header :: "nat \<Rightarrow> nat \<Rightarrow> edit list \<Rightarrow> string" where
  "hunk_header i j es = ''@@ -'' @ unified_range i (length (olds es)) @ '' +'' @
     unified_range j (length (news es)) @ '' @@'' @ [newline]"

fun render_hunks :: "nat \<Rightarrow> nat \<Rightarrow> hunk list \<Rightarrow> string list" where
  "render_hunks i j [] = []"
| "render_hunks i j (h # hs) =
     (let i' = i + length (gap h); j' = j + length (gap h) in
      hunk_header i' j' (edits h) # map edit_line (edits h) @
      render_hunks (i' + length (olds (edits h))) (j' + length (news (edits h))) hs)"

definition render_diff :: "string \<Rightarrow> string \<Rightarrow> hunk list \<Rightarrow> string list" where
  "render_diff old_name new_name hs =
     (if hs = [] then []
      else [''--- '' @ old_name @ [newline], ''+++ '' @ new_name @ [newline]] @ render_hunks 0 0 hs)"

subsection \<open>The header of a rendered hunk is read back\<close>

lemma skip_count_range:
  assumes "\<not> is_digit c" and "c \<noteq> CHR '',''"
  shows "skip_count (snd (span is_digit (unified_range start len @ c # rest))) = c # rest"
    and "fst (span is_digit (unified_range start len @ c # rest)) =
      nat_str (if len = 0 then start else start + 1)"
proof -
  have comma: "\<not> is_digit CHR '',''" by (simp add: is_digit_def)
  have "skip_count (CHR '','' # nat_str len @ c # rest) = c # rest"
    using span_digits [OF assms(1), of len rest] by (simp add: skip_count_def)
  moreover have "skip_count (c # rest) = c # rest" using assms by (simp add: skip_count_def)
  ultimately show "skip_count (snd (span is_digit (unified_range start len @ c # rest))) = c # rest"
    and "fst (span is_digit (unified_range start len @ c # rest)) =
      nat_str (if len = 0 then start else start + 1)"
    using span_digits [OF assms(1)] span_digits [OF comma] by (simp_all add: unified_range_def Let_def)
qed

lemma parse_hunk_header:
  "parse_hunk_old_start (hunk_header i j es) =
     (let first = (if olds es = [] then i else i + 1) in
      if first = 0 then Inl ''invalid_hunk_header'' else Inr first)"
proof -
  have blank: "\<not> is_digit CHR '' ''" by (simp add: is_digit_def)
  obtain r where r: "hunk_header i j es = ''@@ -'' @ unified_range i (length (olds es)) @ CHR '' '' # r"
    and r': "r = CHR ''+'' # unified_range j (length (news es)) @ CHR '' '' # ''@@'' @ [newline]"
    by (simp add: hunk_header_def)
  have one: "drop_prefix ''@@ -'' (hunk_header i j es) = Some (unified_range i (length (olds es)) @ CHR '' '' # r)"
    by (simp add: r drop_prefix_def)
  have two: "drop_prefix '' +'' (CHR '' '' # r) = Some (unified_range j (length (news es)) @ CHR '' '' # ''@@'' @ [newline])"
    by (simp add: r' drop_prefix_def)
  note fst_old = skip_count_range [OF blank, where start = i and len = "length (olds es)" and rest = r]
  note fst_new = skip_count_range [OF blank, where start = j and len = "length (news es)" and rest = "''@@'' @ [newline]"]
  show ?thesis
    unfolding parse_hunk_old_start_def one
    using fst_old fst_new by (simp add: two case_prod_unfold Let_def)
qed


subsection \<open>Replay of a rendered script\<close>

lemma mark_chars [simp]:
  "CHR '' '' \<noteq> newline" "CHR ''-'' \<noteq> newline" "CHR ''+'' \<noteq> newline"
  "CHR '' '' \<noteq> carriage_return" "CHR ''-'' \<noteq> carriage_return" "CHR ''+'' \<noteq> carriage_return"
  by code_simp+

lemma hunk_step_edit:
  "base ! i = l \<Longrightarrow> i < length base \<Longrightarrow> hunk_step base i (edit_line (Keep l)) = Inr (i + 1, [l])"
  "base ! i = l \<Longrightarrow> i < length base \<Longrightarrow> hunk_step base i (edit_line (Remove l)) = Inr (i + 1, [])"
  "hunk_step base i (edit_line (Insert l)) = Inr (i, [l])"
  by (auto simp: hunk_step_def Let_def)

lemma edit_line_no_header [simp]: "\<not> prefix ''@@ '' (edit_line e)"
  by (cases e) auto

lemma drop_ConsD: "drop i base = l # rest \<Longrightarrow> i < length base \<and> base ! i = l \<and> drop (Suc i) base = rest"
  by (metis Cons_nth_drop_Suc drop_all list.distinct(1) list.inject not_le_imp_less)

lemma replay_edits:
  "drop i base = olds es @ rest \<Longrightarrow>
     replay_hunk base i out (map edit_line es @ ls) =
     replay_hunk base (i + length (olds es)) (out @ news es) ls"
proof (induction es arbitrary: i out)
  case Nil
  then show ?case by (simp add: olds_def news_def)
next
  case (Cons e es)
  have step: "replay_hunk base i out (map edit_line (e # es) @ ls) =
      replay_hunk base j (out @ put) (map edit_line es @ ls)"
    if "hunk_step base i (edit_line e) = Inr (j, put)" for j put
    using that by simp
  show ?case
  proof (cases e)
    case (Keep l)
    with Cons.prems have d: "drop i base = l # olds es @ rest" by (simp add: olds_def)
    from drop_ConsD [OF d] have "hunk_step base i (edit_line e) = Inr (i + 1, [l])"
      unfolding Keep by (intro hunk_step_edit(1)) auto
    from step [OF this] Cons.IH [of "i + 1" "out @ [l]"] drop_ConsD [OF d] Keep
    show ?thesis by (simp add: olds_def news_def)
  next
    case (Remove l)
    with Cons.prems have d: "drop i base = l # olds es @ rest" by (simp add: olds_def)
    from drop_ConsD [OF d] have "hunk_step base i (edit_line e) = Inr (i + 1, [])"
      unfolding Remove by (intro hunk_step_edit(2)) auto
    from step [OF this] Cons.IH [of "i + 1" out] drop_ConsD [OF d] Remove
    show ?thesis by (simp add: olds_def news_def)
  next
    case (Insert l)
    with Cons.prems have d: "drop i base = olds es @ rest" by (simp add: olds_def)
    have "hunk_step base i (edit_line e) = Inr (i, [l])"
      unfolding Insert by (rule hunk_step_edit(3))
    from step [OF this] Cons.IH [of i "out @ [l]"] d Insert
    show ?thesis by (simp add: olds_def news_def)
  qed
qed

lemma hunk_header_prefix [simp]:
  "prefix ''@@ '' (hunk_header i j es)" "\<not> prefix ''--- '' (hunk_header i j es)"
  "\<not> prefix ''+++ '' (hunk_header i j es)"
  by (simp_all add: hunk_header_def)

lemma replay_hunk_render: "replay_hunk base i out (render_hunks m n hs) = replay_diff base i out (render_hunks m n hs)"
  by (cases hs) (simp_all add: Let_def)

lemma replay_header:
  assumes "parse_hunk_old_start (hunk_header m n es) = Inr k"
  shows "replay_diff base i out (hunk_header m n es # ls) =
    replay_hunk base (k - 1) (out @ take (k - 1 - i) (drop i base)) ls"
  using assms by simp

lemma replay_render:
  assumes "\<forall>h \<in> set hs. olds (edits h) \<noteq> []" and "drop i base = old_file hs tail"
  shows "replay_diff base i out (render_hunks i j hs) = Inr (out @ new_file hs tail)"
  using assms
proof (induction hs arbitrary: i j out)
  case Nil
  then show ?case by (simp add: old_file_def new_file_def)
next
  case (Cons h hs)
  let ?i = "i + length (gap h)" and ?j = "j + length (gap h)"
  have d: "drop i base = gap h @ olds (edits h) @ old_file hs tail"
    using Cons.prems by (simp add: old_file_def)
  then have di: "drop ?i base = olds (edits h) @ old_file hs tail"
    by (metis add.commute append_eq_conv_conj drop_drop)
  then have dr: "drop (?i + length (olds (edits h))) base = old_file hs tail"
    by (metis add.commute append_eq_conv_conj drop_drop)
  have head: "parse_hunk_old_start (hunk_header ?i ?j (edits h)) = Inr (?i + 1)"
    using Cons.prems by (simp add: parse_hunk_header)
  have "replay_diff base i out (render_hunks i j (h # hs)) =
      replay_hunk base ?i (out @ gap h) (map edit_line (edits h) @
        render_hunks (?i + length (olds (edits h))) (?j + length (news (edits h))) hs)"
    using replay_header [OF head] d by (simp add: Let_def)
  also have "\<dots> = replay_diff base (?i + length (olds (edits h))) (out @ gap h @ news (edits h))
        (render_hunks (?i + length (olds (edits h))) (?j + length (news (edits h))) hs)"
    using replay_edits [OF di] by (simp add: replay_hunk_render)
  also have "\<dots> = Inr ((out @ gap h @ news (edits h)) @ new_file hs tail)"
    using Cons.prems by (intro Cons.IH dr) simp
  finally show ?case by (simp add: new_file_def)
qed

lemma replay_title: "replay_diff base i out ((''--- '' @ a) # (''+++ '' @ b) # ls) = replay_diff base i out ls"
  by simp

lemma apply_rendered:
  assumes "\<forall>h \<in> set hs. olds (edits h) \<noteq> []"
  shows "apply_unified_diff (old_file hs tail) (render_diff old_name new_name hs) = Inr (new_file hs tail)"
proof (cases "hs = []")
  case True
  then show ?thesis by (simp add: apply_unified_diff_def render_diff_def old_file_def new_file_def)
next
  case False
  with replay_render [OF assms, of 0 "old_file hs tail" tail "[]" 0] show ?thesis
    unfolding apply_unified_diff_def render_diff_def by (simp only: if_False append_Cons append_Nil replay_title) simp
qed

subsection \<open>Properties\<close>

text \<open>
  C12: The auditor's replay reads back what a unified diff says: for every edit script in which each hunk
  has a line of the old file, the rendered diff applied to the old lines gives exactly the new lines.
\<close>

theorem replay_roundtrip:
  assumes "\<forall>h \<in> set hs. olds (edits h) \<noteq> []"
  shows "apply_unified_diff (old_file hs tail) (render_diff old_name new_name hs) = Inr (new_file hs tail)"
  using apply_rendered [OF assms] .

definition sample_script :: "hunk list" where
  "sample_script = [\<lparr>gap = [''a''], edits = [Keep ''b'', Remove ''c'', Insert ''d'']\<rparr>,
     \<lparr>gap = [''e'', ''f''], edits = [Insert ''g'', Remove ''h'']\<rparr>]"

theorem replay_roundtrip_witness:
  "apply_unified_diff (old_file sample_script [''z'']) (render_diff ''x'' ''y'' sample_script) =
     Inr (new_file sample_script [''z'']) \<and>
   new_file sample_script [''z''] = [''a'', ''b'', ''d'', ''e'', ''f'', ''g'', ''z'']"
  using replay_roundtrip [of sample_script "[''z'']" "''x''" "''y''"]
  by (simp add: sample_script_def olds_def new_file_def news_def)

text \<open>
  A hunk that only inserts, which a diff without context lines contains, is replayed at the wrong place: its
  header names the line before the insertion, and the replay puts the new lines before that line; at the
  start of the file the header is refused.
\<close>

lemma pure_insertion_misplaced:
  "apply_unified_diff (g @ tail) (render_diff old_name new_name [\<lparr>gap = g, edits = map Insert ls\<rparr>]) =
     (if g = [] then Inl ''invalid_hunk_header'' else Inr (butlast g @ ls @ last g # tail))"
proof -
  let ?es = "map Insert ls"
  have olds: "olds ?es = []" and news: "news ?es = ls"
    by (induction ls) (auto simp: olds_def news_def)
  let ?h = "hunk_header (length g) (length g) ?es"
  have render: "apply_unified_diff (g @ tail) (render_diff old_name new_name [\<lparr>gap = g, edits = ?es\<rparr>]) =
      replay_diff (g @ tail) 0 [] (?h # map edit_line ?es)"
    unfolding apply_unified_diff_def render_diff_def
    by (simp only: list.distinct if_False append_Cons append_Nil replay_title) (simp add: Let_def)
  show ?thesis
  proof (cases "g = []")
    case True
    with parse_hunk_header [of 0 0 ?es] olds show ?thesis unfolding render by simp
  next
    case False
    then have "parse_hunk_old_start ?h = Inr (length g)"
      using parse_hunk_header [of "length g" "length g" ?es] olds by simp
    from replay_header [OF this]
    have "replay_diff (g @ tail) 0 [] (?h # map edit_line ?es) =
        replay_hunk (g @ tail) (length g - 1) (take (length g - 1) (g @ tail)) (map edit_line ?es @ [])"
      by simp
    also have "\<dots> = Inr (take (length g - 1) g @ ls @ drop (length g - 1) (g @ tail))"
      using replay_edits [of "length g - 1" "g @ tail" ?es "drop (length g - 1) (g @ tail)"
          "take (length g - 1) (g @ tail)" "[]"] olds news False
      by (simp add: Suc_leI)
    also have "drop (length g - 1) (g @ tail) = last g # tail"
      using False by (cases g rule: rev_cases) auto
    finally show ?thesis using False by (simp add: render butlast_conv_take)
  qed
qed

text \<open>
  The marker for a missing newline is skipped, but the line before it is compared with its newline, so a diff
  that carries the marker is refused where it touches the last line.
\<close>

lemma missing_newline_refused:
  "apply_unified_diff [''a'']
     [''@@ -1 +1 @@'' @ [newline], ''-a'' @ [newline], no_newline_mark # '' No newline at end of file'' @ [newline],
      ''+b'' @ [newline]] = Inl ''removal_mismatch''"
  by code_simp

end
