(* ===== verification/TraceAudit.thy ===== *)
theory TraceAudit
  imports UnifiedDiff Resolver
begin

section \<open>The trace auditor\<close>

text \<open>
  Models \<open>src/tok/spec/trace.py\<close>: validation of a trace block, its digest, the artifact checks, the consistency
  of a sequence of blocks, and the two file audits; and from \<open>src/tok/spec/live_trace.py\<close> the step counter
  and the normalisation of the expectation. A validator returns the error codes it appends; a list or a
  dictionary in a field that is looked up in a set raises \<open>TypeError\<close>. JSON parsing, the digest and the
  file system are arguments.
\<close>

subsection \<open>Tables\<close>

definition TRACE_VERSION :: string where "TRACE_VERSION = ''tok-trace/v0.1-draft''"
definition ALLOWED_DIRECTIONS :: "string list" where "ALLOWED_DIRECTIONS = [''request'', ''response'']"
definition ALLOWED_CLASSES :: "string list" where
  "ALLOWED_CLASSES = [''file'', ''search'', ''tool'', ''message'', ''system'', ''response'']"
definition ALLOWED_ACTIONS :: "string list" where
  "ALLOWED_ACTIONS = [''pass_through'', ''store'', ''reference'', ''delta'', ''fallback'', ''skeleton_reference'',
     ''summary_reference'']"
definition ALLOWED_RESULTS :: "string list" where
  "ALLOWED_RESULTS = [''ok'', ''degraded'', ''error'', ''rejected'']"
definition ALLOWED_RESOLVER_STATES :: "string list" where
  "ALLOWED_RESOLVER_STATES = [''available_local'', ''resolvable_remote'', ''missing_identifiable'',
     ''unresolvable_fallback_required'']"
definition ALLOWED_EXPECTATIONS :: "string list" where
  "ALLOWED_EXPECTATIONS = [''accept_exact'', ''accept_reference'', ''accept_pass_through'', ''accept_delta'',
     ''accept_fallback'', ''reject_malformed'', ''accept_non_exact_reference'']"
definition ALLOWED_DELTA_ALGORITHMS :: "string list" where
  "ALLOWED_DELTA_ALGORITHMS = [''line'', ''unified_diff'', ''json_patch'']"
definition CORE_SECTION_NAMES :: "string list" where
  "CORE_SECTION_NAMES = [''envelope'', ''observation'', ''content'', ''audit'']"
definition NON_EXACT_REFERENCE_ACTIONS :: "string list" where
  "NON_EXACT_REFERENCE_ACTIONS = [''skeleton_reference'', ''summary_reference'']"
definition FALLBACK_RESULTS :: "string list" where "FALLBACK_RESULTS = [''degraded'', ''error'', ''rejected'']"
definition FALLBACK_RESOLVER_STATES :: "string list" where
  "FALLBACK_RESOLVER_STATES = [''missing_identifiable'', ''unresolvable_fallback_required'']"

subsection \<open>Field tests\<close>

text \<open>\<open>HASH_RE.match\<close> with \<open>$\<close>, which also matches before a newline at the end.\<close>

definition is_hash :: "json \<Rightarrow> bool" where
  "is_hash v = (case v of
       JStr s \<Rightarrow> hash_text s \<or> (s \<noteq> [] \<and> last s = newline \<and> hash_text (butlast s))
     | _ \<Rightarrow> False)"

definition is_nonnegative_int :: "json \<Rightarrow> bool" where
  "is_nonnegative_int v = (case v of JInt i \<Rightarrow> 0 \<le> i | _ \<Rightarrow> False)"

definition nonempty_str :: "json \<Rightarrow> bool" where
  "nonempty_str v = (case v of JStr s \<Rightarrow> s \<noteq> [] | _ \<Rightarrow> False)"

definition fld :: "string \<Rightarrow> json \<Rightarrow> json" where
  "fld k d = jget_or k JNull d"

definition err :: "bool \<Rightarrow> string \<Rightarrow> string list" where
  "err bad code = (if bad then [code] else [])"

definition checked :: "bool \<Rightarrow> string \<Rightarrow> string list py" where
  "checked bad code = Inr (err bad code)"

text \<open>\<open>if x not in S: errors.append(code)\<close>, and a sequence of checks.\<close>

definition member_check :: "json \<Rightarrow> string list \<Rightarrow> string \<Rightarrow> string list py" where
  "member_check v S code = bind_py (in_str_set v S) (\<lambda>b. checked (\<not> b) code)"

fun checks :: "string list py list \<Rightarrow> string list py" where
  "checks [] = Inr []"
| "checks (c # cs) = bind_py c (\<lambda>es. bind_py (checks cs) (\<lambda>fs. Inr (es @ fs)))"

subsection \<open>Validation of a block\<close>

definition validate_envelope :: "json \<Rightarrow> string list py" where
  "validate_envelope envelope = checks
    [checked (fld ''trace_version'' envelope \<noteq> JStr TRACE_VERSION) ''invalid_trace_version'',
     checked (\<not> nonempty_str (fld ''block_id'' envelope)) ''invalid_block_id'',
     checked (\<not> nonempty_str (fld ''session_id'' envelope)) ''invalid_session_id'',
     checked (\<not> is_nonnegative_int (fld ''turn'' envelope)) ''invalid_turn'',
     checked (\<not> is_nonnegative_int (fld ''step'' envelope)) ''invalid_step'',
     member_check (fld ''direction'' envelope) ALLOWED_DIRECTIONS ''invalid_direction'',
     checked (fld ''payload_digest'' envelope \<noteq> JStr ''draft-uncomputed'' \<and> \<not> is_hash (fld ''payload_digest'' envelope))
       ''invalid_payload_digest'']"

definition validate_observation :: "json \<Rightarrow> string list py" where
  "validate_observation observation = checks
    [member_check (fld ''class'' observation) ALLOWED_CLASSES ''invalid_class'',
     checked (\<not> nonempty_str (fld ''key'' observation)) ''invalid_key'',
     member_check (fld ''action'' observation) ALLOWED_ACTIONS ''invalid_action'',
     member_check (fld ''result'' observation) ALLOWED_RESULTS ''invalid_result'']"

definition require_content_identity :: "json \<Rightarrow> string list" where
  "require_content_identity content =
     err (\<not> is_hash (fld ''hash'' content)) ''missing_or_invalid_content_hash'' @
     err (\<not> is_nonnegative_int (fld ''size_bytes'' content)) ''missing_or_invalid_content_size''"

definition present_and :: "string \<Rightarrow> json \<Rightarrow> (json \<Rightarrow> bool) \<Rightarrow> bool" where
  "present_and k d P = (case jget k d of Some v \<Rightarrow> P v | None \<Rightarrow> False)"

definition is_bool :: "json \<Rightarrow> bool" where
  "is_bool v = (case v of JBool _ \<Rightarrow> True | _ \<Rightarrow> False)"

definition validate_delta_fields :: "json \<Rightarrow> string list py" where
  "validate_delta_fields content = checks
    [Inr (require_content_identity content),
     checked (\<not> is_hash (fld ''base_hash'' content)) ''missing_or_invalid_base_hash'',
     checked (\<not> is_hash (fld ''delta_hash'' content)) ''missing_or_invalid_delta_hash'',
     checked (\<not> nonempty_str (fld ''delta_uri'' content)) ''missing_or_invalid_delta_uri'',
     member_check (fld ''delta_algorithm'' content) ALLOWED_DELTA_ALGORITHMS ''missing_or_invalid_delta_algorithm'']"

definition validate_content :: "json \<Rightarrow> json \<Rightarrow> string list py" where
  "validate_content observation content =
     (let action = fld ''action'' observation; exact = fld ''exact'' content in checks
       [checked (\<not> is_bool exact) ''invalid_exact'',
        checked (present_and ''hash'' content (\<lambda>v. \<not> is_hash v)) ''invalid_hash'',
        checked (present_and ''size_bytes'' content (\<lambda>v. \<not> is_nonnegative_int v)) ''invalid_size_bytes'',
        checked (present_and ''resolver_uri'' content (\<lambda>v. \<not> is_str v)) ''invalid_resolver_uri'',
        Inr (if truthy exact then require_content_identity content else []),
        (if action = JStr ''delta'' then validate_delta_fields content else Inr []),
        bind_py (in_str_set action NON_EXACT_REFERENCE_ACTIONS) (\<lambda>b.
          checked (b \<and> exact \<noteq> JBool False) ''non_exact_reference_marked_exact'')])"

definition is_fallback_claim :: "json \<Rightarrow> json \<Rightarrow> json \<Rightarrow> bool py" where
  "is_fallback_claim action result resolver_state =
     (if action = JStr ''fallback'' then Inr True
      else bind_py (in_str_set result FALLBACK_RESULTS) (\<lambda>b.
        Inr (b \<or> resolver_state = JStr ''unresolvable_fallback_required'')))"

definition validate_expectation_invariants ::
    "json \<Rightarrow> json \<Rightarrow> json \<Rightarrow> json \<Rightarrow> string \<Rightarrow> string list py" where
  "validate_expectation_invariants action result content resolver_state expectation =
     (let exact = fld ''exact'' content; local = (resolver_state = JStr ''available_local'') in
      if expectation = ''reject_malformed'' then
        checked (result \<noteq> JStr ''rejected'') ''reject_fixture_must_have_rejected_result''
      else if expectation = ''accept_exact'' then checks
        [checked (exact \<noteq> JBool True) ''accept_exact_requires_exact_content'',
         checked (exact = JBool False) ''non_exact_content_claims_exact_expectation'',
         checked (\<not> local) ''accept_exact_requires_available_local_content'',
         Inr (require_content_identity content)]
      else if expectation = ''accept_reference'' then checks
        [checked (action \<noteq> JStr ''reference'') ''accept_reference_requires_reference_action'',
         checked (exact \<noteq> JBool True) ''accept_reference_requires_exact_content'',
         Inr (require_content_identity content)]
      else if expectation = ''accept_non_exact_reference'' then checks
        [member_check action NON_EXACT_REFERENCE_ACTIONS ''accept_non_exact_reference_requires_non_exact_reference_action'',
         checked (exact \<noteq> JBool False) ''accept_non_exact_reference_requires_non_exact_content'']
      else if expectation = ''accept_pass_through'' then checks
        [checked (action \<noteq> JStr ''pass_through'' \<or> result \<noteq> JStr ''ok'' \<or>
                  resolver_state = JStr ''unresolvable_fallback_required'')
           ''accept_pass_through_requires_ok_pass_through'',
         checked (exact \<noteq> JBool False) ''accept_pass_through_requires_non_exact_content'']
      else if expectation = ''accept_delta'' then checks
        [checked (action \<noteq> JStr ''delta'') ''accept_delta_requires_delta_action'',
         checked (exact \<noteq> JBool True) ''accept_delta_requires_exact_content'',
         checked (\<not> local) ''accept_delta_requires_available_local_content'']
      else if expectation = ''accept_fallback'' then
        bind_py (is_fallback_claim action result resolver_state) (\<lambda>b.
          checked (\<not> b) ''accept_fallback_requires_fallback_or_degradation'')
      else Inr [])"

definition needs_reason :: "json \<Rightarrow> json \<Rightarrow> json \<Rightarrow> bool py" where
  "needs_reason action result resolver_state =
     (if action = JStr ''fallback'' then Inr True
      else bind_py (in_str_set result FALLBACK_RESULTS) (\<lambda>b.
        if b then Inr True else in_str_set resolver_state FALLBACK_RESOLVER_STATES))"

definition validate_available_local_artifact :: "json \<Rightarrow> json \<Rightarrow> string list" where
  "validate_available_local_artifact content resolver_state =
     (if resolver_state \<noteq> JStr ''available_local'' then []
      else err (\<not> truthy (fld ''resolver_uri'' content)) ''available_local_missing_resolver'' @
           require_content_identity content)"

definition validate_audit :: "json \<Rightarrow> json \<Rightarrow> json \<Rightarrow> string list py" where
  "validate_audit observation content audit =
     (let action = fld ''action'' observation; result = fld ''result'' observation;
          resolver_state = fld ''resolver_state'' audit; expectation = fld ''expectation'' audit in checks
       [member_check resolver_state ALLOWED_RESOLVER_STATES ''invalid_resolver_state'',
        member_check expectation ALLOWED_EXPECTATIONS ''invalid_expectation'',
        (case expectation of
           JStr e \<Rightarrow> if e \<in> set ALLOWED_EXPECTATIONS
             then validate_expectation_invariants action result content resolver_state e else Inr []
         | _ \<Rightarrow> Inr []),
        checked (result = JStr ''ok'' \<and> resolver_state = JStr ''unresolvable_fallback_required'')
          ''ok_result_cannot_require_unresolvable_fallback'',
        bind_py (needs_reason action result resolver_state) (\<lambda>b.
          checked (b \<and> \<not> truthy (fld ''reason'' audit)) ''missing_reason''),
        Inr (validate_available_local_artifact content resolver_state)])"

definition validate_extension :: "string \<times> json \<Rightarrow> string list" where
  "validate_extension ext = (case ext of (namespace, value) \<Rightarrow>
     if namespace = [] then [''invalid_extension_namespace'']
     else err (namespace \<in> set CORE_SECTION_NAMES) ''extension_namespace_overrides_core'' @
          err (\<not> is_dict value) ''invalid_extension_payload'')"

definition validate_extensions :: "json \<Rightarrow> string list" where
  "validate_extensions extensions = (case extensions of
       JNull \<Rightarrow> []
     | JObj d \<Rightarrow> concat (map validate_extension d)
     | _ \<Rightarrow> [''invalid_extensions''])"

definition section_errors :: "json \<Rightarrow> string list" where
  "section_errors block = map (\<lambda>s. ''missing_or_invalid_section:'' @ s)
     (filter (\<lambda>s. \<not> is_dict (fld s block)) [''envelope'', ''observation'', ''content'', ''audit''])"

definition validate_trace_block :: "json \<Rightarrow> string list py" where
  "validate_trace_block block =
     (if section_errors block \<noteq> [] then Inr (section_errors block)
      else checks
       [validate_envelope (fld ''envelope'' block),
        validate_observation (fld ''observation'' block),
        validate_content (fld ''observation'' block) (fld ''content'' block),
        validate_audit (fld ''observation'' block) (fld ''content'' block) (fld ''audit'' block),
        Inr (validate_extensions (fld ''extensions'' block))])"


subsection \<open>What the validator accepts\<close>

definition one_of :: "string list \<Rightarrow> json \<Rightarrow> bool" where
  "one_of S v = (case v of JStr s \<Rightarrow> s \<in> set S | _ \<Rightarrow> False)"

definition identified :: "json \<Rightarrow> bool" where
  "identified content = (is_hash (fld ''hash'' content) \<and> is_nonnegative_int (fld ''size_bytes'' content))"

definition envelope_ok :: "json \<Rightarrow> bool" where
  "envelope_ok e = (fld ''trace_version'' e = JStr TRACE_VERSION \<and> nonempty_str (fld ''block_id'' e) \<and>
     nonempty_str (fld ''session_id'' e) \<and> is_nonnegative_int (fld ''turn'' e) \<and> is_nonnegative_int (fld ''step'' e) \<and>
     one_of ALLOWED_DIRECTIONS (fld ''direction'' e) \<and>
     (fld ''payload_digest'' e = JStr ''draft-uncomputed'' \<or> is_hash (fld ''payload_digest'' e)))"

definition observation_ok :: "json \<Rightarrow> bool" where
  "observation_ok ob = (one_of ALLOWED_CLASSES (fld ''class'' ob) \<and> nonempty_str (fld ''key'' ob) \<and>
     one_of ALLOWED_ACTIONS (fld ''action'' ob) \<and> one_of ALLOWED_RESULTS (fld ''result'' ob))"

definition content_ok :: "json \<Rightarrow> json \<Rightarrow> bool" where
  "content_ok action c =
     (is_bool (fld ''exact'' c) \<and>
      \<not> present_and ''hash'' c (\<lambda>v. \<not> is_hash v) \<and>
      \<not> present_and ''size_bytes'' c (\<lambda>v. \<not> is_nonnegative_int v) \<and>
      \<not> present_and ''resolver_uri'' c (\<lambda>v. \<not> is_str v) \<and>
      (fld ''exact'' c = JBool True \<or> action = JStr ''delta'' \<longrightarrow> identified c) \<and>
      (action = JStr ''delta'' \<longrightarrow> is_hash (fld ''base_hash'' c) \<and> is_hash (fld ''delta_hash'' c) \<and>
         nonempty_str (fld ''delta_uri'' c) \<and> one_of ALLOWED_DELTA_ALGORITHMS (fld ''delta_algorithm'' c)) \<and>
      (one_of NON_EXACT_REFERENCE_ACTIONS action \<longrightarrow> fld ''exact'' c = JBool False))"

definition fallback_claim :: "json \<Rightarrow> json \<Rightarrow> json \<Rightarrow> bool" where
  "fallback_claim action result state = (action = JStr ''fallback'' \<or> one_of FALLBACK_RESULTS result \<or>
     state = JStr ''unresolvable_fallback_required'')"

text \<open>The row of an expectation.\<close>

definition expectation_ok :: "json \<Rightarrow> json \<Rightarrow> json \<Rightarrow> json \<Rightarrow> string \<Rightarrow> bool" where
  "expectation_ok action result c state e =
     ((e = ''reject_malformed'' \<longrightarrow> result = JStr ''rejected'') \<and>
      (e = ''accept_exact'' \<longrightarrow> fld ''exact'' c = JBool True \<and> state = JStr ''available_local'' \<and> identified c) \<and>
      (e = ''accept_reference'' \<longrightarrow> action = JStr ''reference'' \<and> fld ''exact'' c = JBool True \<and> identified c) \<and>
      (e = ''accept_non_exact_reference'' \<longrightarrow>
         one_of NON_EXACT_REFERENCE_ACTIONS action \<and> fld ''exact'' c = JBool False) \<and>
      (e = ''accept_pass_through'' \<longrightarrow> action = JStr ''pass_through'' \<and> result = JStr ''ok'' \<and>
         state \<noteq> JStr ''unresolvable_fallback_required'' \<and> fld ''exact'' c = JBool False) \<and>
      (e = ''accept_delta'' \<longrightarrow> action = JStr ''delta'' \<and> fld ''exact'' c = JBool True \<and> state = JStr ''available_local'') \<and>
      (e = ''accept_fallback'' \<longrightarrow> fallback_claim action result state))"

definition audit_ok :: "json \<Rightarrow> json \<Rightarrow> json \<Rightarrow> json \<Rightarrow> bool" where
  "audit_ok action result c a =
     (let state = fld ''resolver_state'' a in
      one_of ALLOWED_RESOLVER_STATES state \<and>
      (case fld ''expectation'' a of JStr e \<Rightarrow> e \<in> set ALLOWED_EXPECTATIONS \<and> expectation_ok action result c state e
       | _ \<Rightarrow> False) \<and>
      \<not> (result = JStr ''ok'' \<and> state = JStr ''unresolvable_fallback_required'') \<and>
      (fallback_claim action result state \<or> state = JStr ''missing_identifiable'' \<longrightarrow> truthy (fld ''reason'' a)) \<and>
      (state = JStr ''available_local'' \<longrightarrow> truthy (fld ''resolver_uri'' c) \<and> identified c))"

definition extensions_ok :: "json \<Rightarrow> bool" where
  "extensions_ok x = (case x of
       JNull \<Rightarrow> True
     | JObj d \<Rightarrow> list_all (\<lambda>(ns, v). ns \<noteq> [] \<and> ns \<notin> set CORE_SECTION_NAMES \<and> is_dict v) d
     | _ \<Rightarrow> False)"

definition sections_ok :: "json \<Rightarrow> bool" where
  "sections_ok b = (is_dict (fld ''envelope'' b) \<and> is_dict (fld ''observation'' b) \<and> is_dict (fld ''content'' b) \<and>
     is_dict (fld ''audit'' b))"

definition trace_block_ok :: "json \<Rightarrow> bool" where
  "trace_block_ok b =
     (let ob = fld ''observation'' b; c = fld ''content'' b in
      sections_ok b \<and> envelope_ok (fld ''envelope'' b) \<and> observation_ok ob \<and> content_ok (fld ''action'' ob) c \<and>
      audit_ok (fld ''action'' ob) (fld ''result'' ob) c (fld ''audit'' b) \<and> extensions_ok (fld ''extensions'' b))"

lemma checks_Nil_iff: "checks cs = Inr [] \<longleftrightarrow> list_all (\<lambda>c. c = Inr []) cs"
  by (induction cs) (auto simp: bind_py_Inr_iff)

lemma isl_bind: "isl (bind_py r f) \<longleftrightarrow> isl r \<or> isl (f (projr r))"
  by (cases r) auto

lemma isl_checks: "isl (checks cs) \<longleftrightarrow> list_ex isl cs"
  by (induction cs) (auto simp: isl_bind)

declare checks.simps [simp del]

lemma err_Nil [simp]: "err bad code = [] \<longleftrightarrow> \<not> bad"
  by (simp add: err_def)

lemma checked_Nil [simp]: "checked bad code = Inr [] \<longleftrightarrow> \<not> bad"
  by (simp add: checked_def)

lemma in_str_set_Inr: "in_str_set v S = Inr b \<longleftrightarrow> hashable v \<and> b = one_of S v"
  by (cases v) (auto simp: in_str_set_def one_of_def)

lemma one_of_hashable: "one_of S v \<Longrightarrow> hashable v"
  by (cases v) (auto simp: one_of_def)

lemma one_of_str: "one_of S v \<longleftrightarrow> (\<exists>s \<in> set S. v = JStr s)"
  by (cases v) (auto simp: one_of_def)

lemma member_check_Nil [simp]: "member_check v S code = Inr [] \<longleftrightarrow> one_of S v"
  by (auto simp: member_check_def bind_py_Inr_iff in_str_set_Inr dest: one_of_hashable)

lemma identity_Nil [simp]: "require_content_identity c = [] \<longleftrightarrow> identified c"
  by (auto simp: require_content_identity_def identified_def)

lemma envelope_iff: "validate_envelope e = Inr [] \<longleftrightarrow> envelope_ok e"
  by (auto simp: validate_envelope_def envelope_ok_def checks_Nil_iff)

lemma observation_iff: "validate_observation ob = Inr [] \<longleftrightarrow> observation_ok ob"
  by (auto simp: validate_observation_def observation_ok_def checks_Nil_iff)

lemma delta_fields_iff: "validate_delta_fields c = Inr [] \<longleftrightarrow>
    identified c \<and> is_hash (fld ''base_hash'' c) \<and> is_hash (fld ''delta_hash'' c) \<and>
    nonempty_str (fld ''delta_uri'' c) \<and> one_of ALLOWED_DELTA_ALGORITHMS (fld ''delta_algorithm'' c)"
  by (auto simp: validate_delta_fields_def checks_Nil_iff)

lemma content_iff:
  assumes "hashable (fld ''action'' ob)"
  shows "validate_content ob c = Inr [] \<longleftrightarrow> content_ok (fld ''action'' ob) c"
proof -
  have e: "is_bool x \<Longrightarrow> truthy x \<longleftrightarrow> x = JBool True" for x
    by (cases x) (auto simp: is_bool_def)
  have n: "bind_py (in_str_set (fld ''action'' ob) NON_EXACT_REFERENCE_ACTIONS) (\<lambda>b.
          checked (b \<and> fld ''exact'' c \<noteq> JBool False) ''non_exact_reference_marked_exact'') = Inr [] \<longleftrightarrow>
      (one_of NON_EXACT_REFERENCE_ACTIONS (fld ''action'' ob) \<longrightarrow> fld ''exact'' c = JBool False)"
    using assms by (auto simp: bind_py_Inr_iff in_str_set_Inr)
  show ?thesis
    by (auto simp: validate_content_def content_ok_def Let_def checks_Nil_iff n e delta_fields_iff split: if_splits)
qed

lemma fallback_claim_iff:
  assumes "hashable result"
  shows "is_fallback_claim action result state = Inr (fallback_claim action result state)"
  using assms by (auto simp: is_fallback_claim_def fallback_claim_def in_str_set_Inr bind_py_Inr_iff)

lemma needs_reason_iff:
  assumes "hashable result" and "hashable state"
  shows "needs_reason action result state =
    Inr (fallback_claim action result state \<or> state = JStr ''missing_identifiable'')"
proof -
  have "in_str_set result FALLBACK_RESULTS = Inr (one_of FALLBACK_RESULTS result)"
    and "in_str_set state FALLBACK_RESOLVER_STATES = Inr (one_of FALLBACK_RESOLVER_STATES state)"
    using assms by (simp_all add: in_str_set_Inr)
  then show ?thesis
    by (auto simp: needs_reason_def fallback_claim_def one_of_str FALLBACK_RESOLVER_STATES_def)
qed

lemma expectation_iff:
  assumes "hashable result" and "e \<in> set ALLOWED_EXPECTATIONS"
  shows "validate_expectation_invariants action result c state e = Inr [] \<longleftrightarrow> expectation_ok action result c state e"
proof -
  have "e \<in> {''accept_exact'', ''accept_reference'', ''accept_pass_through'', ''accept_delta'', ''accept_fallback'',
     ''reject_malformed'', ''accept_non_exact_reference''}"
    using assms(2) by (simp add: ALLOWED_EXPECTATIONS_def)
  then show ?thesis
    by (elim insertE) (auto simp: validate_expectation_invariants_def expectation_ok_def Let_def checks_Nil_iff
        fallback_claim_iff [OF assms(1)])
qed

lemma audit_iff:
  assumes "hashable (fld ''result'' ob)"
  shows "validate_audit ob c a = Inr [] \<longleftrightarrow> audit_ok (fld ''action'' ob) (fld ''result'' ob) c a"
proof (cases "one_of ALLOWED_RESOLVER_STATES (fld ''resolver_state'' a) \<and> one_of ALLOWED_EXPECTATIONS (fld ''expectation'' a)")
  case False
  then show ?thesis
    by (auto simp: validate_audit_def audit_ok_def Let_def checks_Nil_iff one_of_def split: json.splits)
next
  case True
  then obtain e where e: "fld ''expectation'' a = JStr e" "e \<in> set ALLOWED_EXPECTATIONS"
    by (auto simp: one_of_str)
  have h: "hashable (fld ''resolver_state'' a)" using True one_of_hashable by blast
  show ?thesis
    using True e by (auto simp: validate_audit_def audit_ok_def Let_def checks_Nil_iff
        needs_reason_iff [OF assms h] expectation_iff [OF assms e(2)] validate_available_local_artifact_def)
qed

lemma extensions_iff: "validate_extensions x = [] \<longleftrightarrow> extensions_ok x"
  by (auto simp: validate_extensions_def extensions_ok_def validate_extension_def list_all_iff
      split: json.split if_splits)

lemma section_errors_Nil: "section_errors b = [] \<longleftrightarrow> sections_ok b"
  by (auto simp: section_errors_def sections_ok_def filter_empty_conv)

lemma trace_block_iff: "validate_trace_block b = Inr [] \<longleftrightarrow> trace_block_ok b"
proof (cases "sections_ok b \<and> observation_ok (fld ''observation'' b)")
  case False
  then show ?thesis
    by (auto simp: validate_trace_block_def trace_block_ok_def Let_def section_errors_Nil checks_Nil_iff observation_iff)
next
  case True
  then have "hashable (fld ''action'' (fld ''observation'' b))" "hashable (fld ''result'' (fld ''observation'' b))"
    by (auto simp: observation_ok_def dest: one_of_hashable)
  with True show ?thesis
    by (auto simp: validate_trace_block_def trace_block_ok_def Let_def section_errors_Nil checks_Nil_iff observation_iff
        envelope_iff content_iff audit_iff extensions_iff)
qed

lemma fld_JObj: "fld k (JObj d) = (case map_of d k of Some v \<Rightarrow> v | None \<Rightarrow> JNull)"
  by (simp add: fld_def jget_or_def)

lemma one_of_JStr [simp]: "one_of S (JStr s) \<longleftrightarrow> s \<in> set S"
  by (simp add: one_of_def)

subsection \<open>The schema document\<close>

text \<open>
  The block as \<open>docs/spec/tok_trace_schema_v0_1.tok.md\<close> describes it, section by section and independent of the validator. A field
  with a question mark in the document is \<open>optional\<close>.
\<close>

definition optional :: "string \<Rightarrow> (json \<Rightarrow> bool) \<Rightarrow> json \<Rightarrow> bool" where
  "optional k P d = (case jget k d of None \<Rightarrow> True | Some v \<Rightarrow> P v)"

definition exact_hash :: "json \<Rightarrow> bool" where
  "exact_hash v = (case v of JStr s \<Rightarrow> take 7 s = ''sha256:'' \<and> length s = 71 \<and> list_all is_hex (drop 7 s) | _ \<Rightarrow> False)"

definition is_integer :: "json \<Rightarrow> bool" where
  "is_integer v = (case v of JInt _ \<Rightarrow> True | _ \<Rightarrow> False)"

definition documented_envelope :: "json \<Rightarrow> bool" where
  "documented_envelope e =
     (fld ''trace_version'' e = JStr ''tok-trace/v0.1-draft'' \<and> is_str (fld ''block_id'' e) \<and> is_str (fld ''session_id'' e) \<and>
      is_integer (fld ''turn'' e) \<and> is_integer (fld ''step'' e) \<and> one_of [''request'', ''response''] (fld ''direction'' e) \<and>
      (exact_hash (fld ''payload_digest'' e) \<or> fld ''payload_digest'' e = JStr ''draft-uncomputed''))"

definition documented_observation :: "json \<Rightarrow> bool" where
  "documented_observation ob =
     (one_of [''file'', ''search'', ''tool'', ''message'', ''system'', ''response''] (fld ''class'' ob) \<and> is_str (fld ''key'' ob) \<and>
      one_of [''pass_through'', ''store'', ''reference'', ''delta'', ''fallback'', ''skeleton_reference'', ''summary_reference'']
        (fld ''action'' ob) \<and>
      one_of [''ok'', ''degraded'', ''error'', ''rejected''] (fld ''result'' ob))"

definition documented_content :: "json \<Rightarrow> json \<Rightarrow> bool" where
  "documented_content action c =
     (is_bool (fld ''exact'' c) \<and> optional ''hash'' exact_hash c \<and> optional ''size_bytes'' is_integer c \<and>
      optional ''resolver_uri'' is_str c \<and> optional ''base_hash'' exact_hash c \<and> optional ''base_uri'' is_str c \<and>
      optional ''delta_hash'' exact_hash c \<and> optional ''delta_uri'' is_str c \<and>
      optional ''delta_algorithm'' (one_of [''line'', ''unified_diff'', ''json_patch'', ''binary'']) c \<and>
      (fld ''exact'' c = JBool True \<longrightarrow> jget ''hash'' c \<noteq> None \<and> jget ''size_bytes'' c \<noteq> None) \<and>
      (action = JStr ''delta'' \<longrightarrow> jget ''base_hash'' c \<noteq> None \<and> jget ''base_uri'' c \<noteq> None \<and> jget ''delta_hash'' c \<noteq> None \<and>
         jget ''delta_uri'' c \<noteq> None \<and> jget ''delta_algorithm'' c \<noteq> None) \<and>
      (action = JStr ''summary_reference'' \<or> action = JStr ''skeleton_reference'' \<longrightarrow> fld ''exact'' c = JBool False))"

text \<open>The rows of the matrix, and the states that need a reason.\<close>

definition documented_row :: "json \<Rightarrow> json \<Rightarrow> json \<Rightarrow> json \<Rightarrow> json \<Rightarrow> bool" where
  "documented_row e action result c state =
     ((e = JStr ''accept_exact'' \<longrightarrow> fld ''exact'' c = JBool True \<and> state = JStr ''available_local'' \<and>
         jget ''resolver_uri'' c \<noteq> None \<and> jget ''hash'' c \<noteq> None \<and> jget ''size_bytes'' c \<noteq> None) \<and>
      (e = JStr ''accept_reference'' \<longrightarrow> action = JStr ''reference'' \<and> fld ''exact'' c = JBool True \<and>
         jget ''hash'' c \<noteq> None \<and> jget ''size_bytes'' c \<noteq> None) \<and>
      (e = JStr ''accept_non_exact_reference'' \<longrightarrow>
         (action = JStr ''summary_reference'' \<or> action = JStr ''skeleton_reference'') \<and> fld ''exact'' c = JBool False) \<and>
      (e = JStr ''accept_pass_through'' \<longrightarrow> action = JStr ''pass_through'' \<and> result = JStr ''ok'' \<and> fld ''exact'' c = JBool False) \<and>
      (e = JStr ''accept_delta'' \<longrightarrow> action = JStr ''delta'' \<and> fld ''exact'' c = JBool True \<and> state = JStr ''available_local'' \<and>
         fld ''delta_algorithm'' c = JStr ''unified_diff'') \<and>
      (e = JStr ''accept_fallback'' \<longrightarrow> action = JStr ''fallback'' \<or> one_of [''degraded'', ''error'', ''rejected''] result \<or>
         state = JStr ''unresolvable_fallback_required'') \<and>
      (e = JStr ''reject_malformed'' \<longrightarrow> result = JStr ''rejected''))"

definition reason_needed :: "json \<Rightarrow> json \<Rightarrow> json \<Rightarrow> bool" where
  "reason_needed action result state =
     (action = JStr ''fallback'' \<or> one_of [''degraded'', ''error'', ''rejected''] result \<or>
      one_of [''missing_identifiable'', ''unresolvable_fallback_required''] state)"

definition documented_audit :: "json \<Rightarrow> json \<Rightarrow> json \<Rightarrow> json \<Rightarrow> bool" where
  "documented_audit action result c a =
     (let state = fld ''resolver_state'' a in
      one_of [''available_local'', ''resolvable_remote'', ''missing_identifiable'', ''unresolvable_fallback_required''] state \<and>
      one_of [''accept_exact'', ''accept_reference'', ''accept_pass_through'', ''accept_delta'', ''accept_fallback'',
        ''reject_malformed'', ''accept_non_exact_reference''] (fld ''expectation'' a) \<and>
      optional ''reason'' is_str a \<and> documented_row (fld ''expectation'' a) action result c state \<and>
      (reason_needed action result state \<longrightarrow> jget ''reason'' a \<noteq> None) \<and>
      \<not> (result = JStr ''ok'' \<and> state = JStr ''unresolvable_fallback_required'') \<and>
      (state = JStr ''available_local'' \<longrightarrow>
         jget ''resolver_uri'' c \<noteq> None \<and> jget ''hash'' c \<noteq> None \<and> jget ''size_bytes'' c \<noteq> None))"

definition documented_extensions :: "json \<Rightarrow> bool" where
  "documented_extensions b = optional ''extensions'' (\<lambda>x. case x of
     JObj d \<Rightarrow> list_all (\<lambda>(ns, v). ns \<notin> {''envelope'', ''observation'', ''content'', ''audit''} \<and> is_dict v) d | _ \<Rightarrow> False) b"

definition documented_block :: "json \<Rightarrow> bool" where
  "documented_block b =
     (let ob = fld ''observation'' b; c = fld ''content'' b in
      is_dict (fld ''envelope'' b) \<and> is_dict ob \<and> is_dict c \<and> is_dict (fld ''audit'' b) \<and>
      documented_envelope (fld ''envelope'' b) \<and> documented_observation ob \<and> documented_content (fld ''action'' ob) c \<and>
      documented_audit (fld ''action'' ob) (fld ''result'' ob) c (fld ''audit'' b) \<and> documented_extensions b)"

text \<open>What the document demands and the validator does not check.\<close>

definition ends_clean :: "json \<Rightarrow> bool" where
  "ends_clean v = (case v of JStr s \<Rightarrow> s = [] \<or> last s \<noteq> newline | _ \<Rightarrow> True)"

definition unchecked_demands :: "json \<Rightarrow> bool" where
  "unchecked_demands b =
     (let e = fld ''envelope'' b; c = fld ''content'' b; a = fld ''audit'' b in
      ends_clean (fld ''payload_digest'' e) \<and> ends_clean (fld ''hash'' c) \<and>
      (fld ''action'' (fld ''observation'' b) = JStr ''delta'' \<longrightarrow> jget ''base_uri'' c \<noteq> None) \<and>
      (fld ''expectation'' a = JStr ''accept_delta'' \<longrightarrow> fld ''delta_algorithm'' c = JStr ''unified_diff'') \<and>
      optional ''base_hash'' exact_hash c \<and> optional ''base_uri'' is_str c \<and> optional ''delta_hash'' exact_hash c \<and>
      optional ''delta_uri'' is_str c \<and>
      optional ''delta_algorithm'' (one_of [''line'', ''unified_diff'', ''json_patch'', ''binary'']) c \<and>
      optional ''reason'' is_str a \<and> jget ''extensions'' b \<noteq> Some JNull)"

text \<open>What the validator demands beyond the document.\<close>

definition natural :: "json \<Rightarrow> bool" where
  "natural v = (case v of JInt i \<Rightarrow> 0 \<le> i | _ \<Rightarrow> True)"

definition extra_demands :: "json \<Rightarrow> bool" where
  "extra_demands b =
     (let e = fld ''envelope'' b; ob = fld ''observation'' b; c = fld ''content'' b; a = fld ''audit'' b in
      fld ''block_id'' e \<noteq> JStr [] \<and> fld ''session_id'' e \<noteq> JStr [] \<and> natural (fld ''turn'' e) \<and> natural (fld ''step'' e) \<and>
      fld ''key'' ob \<noteq> JStr [] \<and> natural (fld ''size_bytes'' c) \<and>
      (fld ''action'' ob = JStr ''delta'' \<longrightarrow> jget ''hash'' c \<noteq> None \<and> jget ''size_bytes'' c \<noteq> None \<and>
         fld ''delta_uri'' c \<noteq> JStr [] \<and> fld ''delta_algorithm'' c \<noteq> JStr ''binary'') \<and>
      (reason_needed (fld ''action'' ob) (fld ''result'' ob) (fld ''resolver_state'' a) \<longrightarrow> fld ''reason'' a \<noteq> JStr []) \<and>
      (fld ''resolver_state'' a = JStr ''available_local'' \<longrightarrow> fld ''resolver_uri'' c \<noteq> JStr []) \<and>
      (case fld ''extensions'' b of JObj d \<Rightarrow> list_all (\<lambda>(ns, _). ns \<noteq> []) d | _ \<Rightarrow> True))"

lemma exact_hash_iff: "exact_hash v \<longleftrightarrow> is_hash v \<and> ends_clean v"
proof -
  have "last s \<noteq> newline" if "hash_text s" for s
  proof -
    have "drop 7 s \<noteq> []" using that by (auto simp: hash_text_def)
    then have "last s = last (drop 7 s)" by simp
    moreover have "is_hex (last (drop 7 s))" using that last_in_set [OF \<open>drop 7 s \<noteq> []\<close>] by (auto simp: hash_text_def list_all_iff)
    moreover have "\<not> is_hex newline" by code_simp
    ultimately show ?thesis by metis
  qed
  then show ?thesis by (cases v) (auto simp: exact_hash_def is_hash_def ends_clean_def hash_text_def [symmetric])
qed

lemma optional_fld: "\<not> P JNull \<Longrightarrow> optional k P d \<and> jget k d \<noteq> None \<longleftrightarrow> P (fld k d)"
  by (auto simp: optional_def fld_def jget_or_def split: option.split)

lemma present_optional: "\<not> present_and k d (\<lambda>v. \<not> P v) \<longleftrightarrow> optional k P d"
  by (auto simp: optional_def present_and_def split: option.split)

lemma not_null [simp]: "\<not> exact_hash JNull" "\<not> is_integer JNull" "\<not> is_hash JNull" "\<not> is_nonnegative_int JNull" "\<not> one_of S JNull"
  by (simp_all add: exact_hash_def is_integer_def is_hash_def is_nonnegative_int_def one_of_def)

lemma nonempty_str_iff: "nonempty_str v \<longleftrightarrow> is_str v \<and> v \<noteq> JStr []"
  by (cases v) (simp_all add: nonempty_str_def)

lemma nonnegative_iff: "is_nonnegative_int v \<longleftrightarrow> is_integer v \<and> natural v"
  by (cases v) (simp_all add: is_nonnegative_int_def is_integer_def natural_def)

lemma envelope_documented:
  "envelope_ok e \<and> ends_clean (fld ''payload_digest'' e) \<longleftrightarrow> documented_envelope e \<and> fld ''block_id'' e \<noteq> JStr [] \<and>
     fld ''session_id'' e \<noteq> JStr [] \<and> natural (fld ''turn'' e) \<and> natural (fld ''step'' e)"
proof -
  have "ends_clean (JStr ''draft-uncomputed'')" by code_simp
  then show ?thesis
    by (auto simp: envelope_ok_def documented_envelope_def nonempty_str_iff nonnegative_iff exact_hash_iff TRACE_VERSION_def
        ALLOWED_DIRECTIONS_def)
qed

lemma observation_documented: "observation_ok ob \<longleftrightarrow> documented_observation ob \<and> fld ''key'' ob \<noteq> JStr []"
  by (auto simp: observation_ok_def documented_observation_def nonempty_str_iff ALLOWED_CLASSES_def ALLOWED_ACTIONS_def
      ALLOWED_RESULTS_def)

lemma identified_iff:
  "identified c \<longleftrightarrow> is_hash (fld ''hash'' c) \<and> is_integer (fld ''size_bytes'' c) \<and> natural (fld ''size_bytes'' c)"
  by (auto simp: identified_def nonnegative_iff)

text \<open>A field that is checked when it is there: present and checked is checked as read.\<close>

lemma given_fields:
  assumes "optional ''hash'' is_hash c" and "optional ''size_bytes'' is_nonnegative_int c"
  shows "identified c \<longleftrightarrow> jget ''hash'' c \<noteq> None \<and> jget ''size_bytes'' c \<noteq> None"
  using assms optional_fld [of is_hash "''hash''" c] optional_fld [of is_nonnegative_int "''size_bytes''" c]
  by (auto simp: identified_def)

lemma optional_hash: "optional k exact_hash d \<longleftrightarrow> optional k is_hash d \<and> ends_clean (fld k d)"
  by (auto simp: optional_def exact_hash_iff fld_def jget_or_def ends_clean_def split: option.split)

lemma optional_natural: "optional k is_nonnegative_int d \<longleftrightarrow> optional k is_integer d \<and> natural (fld k d)"
  by (auto simp: optional_def nonnegative_iff fld_def jget_or_def natural_def split: option.split)

lemma content_documented:
  "content_ok action c \<and> ends_clean (fld ''hash'' c) \<and> (action = JStr ''delta'' \<longrightarrow> jget ''base_uri'' c \<noteq> None) \<and>
     optional ''base_hash'' exact_hash c \<and> optional ''base_uri'' is_str c \<and> optional ''delta_hash'' exact_hash c \<and>
     optional ''delta_uri'' is_str c \<and>
     optional ''delta_algorithm'' (one_of [''line'', ''unified_diff'', ''json_patch'', ''binary'']) c \<longleftrightarrow>
   documented_content action c \<and> natural (fld ''size_bytes'' c) \<and>
     (action = JStr ''delta'' \<longrightarrow> jget ''hash'' c \<noteq> None \<and> jget ''size_bytes'' c \<noteq> None \<and>
        fld ''delta_uri'' c \<noteq> JStr [] \<and> fld ''delta_algorithm'' c \<noteq> JStr ''binary'')"
    (is "?l \<longleftrightarrow> ?r")
proof (cases "optional ''hash'' is_hash c \<and> optional ''size_bytes'' is_nonnegative_int c \<and> optional ''base_hash'' exact_hash c \<and>
    optional ''delta_hash'' exact_hash c \<and> optional ''delta_uri'' is_str c \<and>
    optional ''delta_algorithm'' (one_of [''line'', ''unified_diff'', ''json_patch'', ''binary'']) c")
  case False
  then show ?thesis
    unfolding content_ok_def documented_content_def present_optional optional_hash [of "''hash''"] optional_natural by argo
next
  case True
  then have ident: "identified c \<longleftrightarrow> jget ''hash'' c \<noteq> None \<and> jget ''size_bytes'' c \<noteq> None" by (simp add: given_fields)
  have hash: "is_hash (fld k c) \<longleftrightarrow> jget k c \<noteq> None" if "optional k exact_hash c" for k
    using that optional_fld [of is_hash k c] by (auto simp: optional_hash)
  have uri: "nonempty_str (fld ''delta_uri'' c) \<longleftrightarrow> jget ''delta_uri'' c \<noteq> None \<and> fld ''delta_uri'' c \<noteq> JStr []"
    using True optional_fld [of is_str "''delta_uri''" c] by (auto simp: nonempty_str_iff)
  have alg: "one_of ALLOWED_DELTA_ALGORITHMS (fld ''delta_algorithm'' c) \<longleftrightarrow>
      jget ''delta_algorithm'' c \<noteq> None \<and> fld ''delta_algorithm'' c \<noteq> JStr ''binary''"
  proof -
    have "one_of [''line'', ''unified_diff'', ''json_patch'', ''binary''] v \<and> v \<noteq> JStr ''binary'' \<longleftrightarrow>
        one_of ALLOWED_DELTA_ALGORITHMS v" for v
      by (auto simp: one_of_str ALLOWED_DELTA_ALGORITHMS_def)
    then show ?thesis
      using True optional_fld [of "one_of [''line'', ''unified_diff'', ''json_patch'', ''binary'']" "''delta_algorithm''" c] by auto
  qed
  have acts: "one_of NON_EXACT_REFERENCE_ACTIONS action \<longleftrightarrow> action = JStr ''summary_reference'' \<or> action = JStr ''skeleton_reference''"
    by (auto simp: one_of_str NON_EXACT_REFERENCE_ACTIONS_def)
  from True hash [of "''base_hash''"] hash [of "''delta_hash''"] show ?thesis
    unfolding content_ok_def documented_content_def present_optional optional_hash [of "''hash''"] optional_natural
      ident uri alg acts by argo
qed

lemma extensions_documented:
  "extensions_ok (fld ''extensions'' b) \<and> jget ''extensions'' b \<noteq> Some JNull \<longleftrightarrow>
   documented_extensions b \<and> (case fld ''extensions'' b of JObj d \<Rightarrow> list_all (\<lambda>(ns, _). ns \<noteq> []) d | _ \<Rightarrow> True)"
proof (cases "jget ''extensions'' b")
  case None
  then show ?thesis by (simp add: extensions_ok_def documented_extensions_def optional_def fld_def jget_or_def)
next
  case (Some x)
  have core: "ns \<notin> {''envelope'', ''observation'', ''content'', ''audit''} \<longleftrightarrow> ns \<notin> set CORE_SECTION_NAMES" for ns
    by (simp add: CORE_SECTION_NAMES_def)
  have split: "list_all (\<lambda>(ns, v). ns \<noteq> [] \<and> ns \<notin> C \<and> is_dict v) d \<longleftrightarrow>
      list_all (\<lambda>(ns, v). ns \<notin> C \<and> is_dict v) d \<and> list_all (\<lambda>(ns, _). ns \<noteq> []) d" for C and d :: "json dict"
    by (induction d) auto
  have f: "fld ''extensions'' b = x" using Some by (simp add: fld_def jget_or_def)
  show ?thesis
    unfolding extensions_ok_def documented_extensions_def optional_def f Some core
    by (cases x) (simp_all add: split)
qed

lemma row_documented:
  assumes "e \<in> set ALLOWED_EXPECTATIONS"
    and ident: "identified c \<longleftrightarrow> jget ''hash'' c \<noteq> None \<and> jget ''size_bytes'' c \<noteq> None"
    and "state = JStr ''available_local'' \<Longrightarrow> jget ''resolver_uri'' c \<noteq> None"
    and "\<not> (result = JStr ''ok'' \<and> state = JStr ''unresolvable_fallback_required'')"
  shows "expectation_ok action result c state e \<and> (e = ''accept_delta'' \<longrightarrow> fld ''delta_algorithm'' c = JStr ''unified_diff'') \<longleftrightarrow>
     documented_row (JStr e) action result c state"
proof -
  have acts: "one_of NON_EXACT_REFERENCE_ACTIONS action \<longleftrightarrow> action = JStr ''summary_reference'' \<or> action = JStr ''skeleton_reference''"
    by (auto simp: one_of_str NON_EXACT_REFERENCE_ACTIONS_def)
  have results: "FALLBACK_RESULTS = [''degraded'', ''error'', ''rejected'']" by (simp add: FALLBACK_RESULTS_def)
  have "e \<in> {''accept_exact'', ''accept_reference'', ''accept_pass_through'', ''accept_delta'', ''accept_fallback'',
     ''reject_malformed'', ''accept_non_exact_reference''}"
    using assms(1) by (simp add: ALLOWED_EXPECTATIONS_def)
  then show ?thesis
    using assms(3,4)
    unfolding expectation_ok_def documented_row_def ident acts fallback_claim_def results
    by (elim insertE emptyE) (simp_all only: json.inject list.inject char.inject simp_thms one_of_JStr, argo+)
qed

lemma audit_documented:
  assumes content: "optional ''hash'' is_hash c" "optional ''size_bytes'' is_nonnegative_int c" "optional ''resolver_uri'' is_str c"
    and reason: "optional ''reason'' is_str a"
  shows "audit_ok action result c a \<and>
     (fld ''expectation'' a = JStr ''accept_delta'' \<longrightarrow> fld ''delta_algorithm'' c = JStr ''unified_diff'') \<longleftrightarrow>
   documented_audit action result c a \<and>
     (reason_needed action result (fld ''resolver_state'' a) \<longrightarrow> fld ''reason'' a \<noteq> JStr []) \<and>
     (fld ''resolver_state'' a = JStr ''available_local'' \<longrightarrow> fld ''resolver_uri'' c \<noteq> JStr [])"
    (is "?l \<longleftrightarrow> ?r")
proof -
  let ?state = "fld ''resolver_state'' a" and ?e = "fld ''expectation'' a"
  note ident = given_fields [OF content(1,2)]
  have str: "truthy (fld k d) \<longleftrightarrow> jget k d \<noteq> None \<and> fld k d \<noteq> JStr []" if "optional k is_str d" for k d
    using that by (auto simp: optional_def fld_def jget_or_def split: option.splits elim: is_str.elims)
  have uri: "truthy (fld ''resolver_uri'' c) \<longleftrightarrow> jget ''resolver_uri'' c \<noteq> None \<and> fld ''resolver_uri'' c \<noteq> JStr []"
    by (rule str [OF content(3)])
  have why: "truthy (fld ''reason'' a) \<longleftrightarrow> jget ''reason'' a \<noteq> None \<and> fld ''reason'' a \<noteq> JStr []"
    by (rule str [OF reason])
  have needs: "fallback_claim action result ?state \<or> ?state = JStr ''missing_identifiable'' \<longleftrightarrow> reason_needed action result ?state"
    by (auto simp: fallback_claim_def reason_needed_def one_of_str FALLBACK_RESULTS_def)
  have states: "ALLOWED_RESOLVER_STATES =
      [''available_local'', ''resolvable_remote'', ''missing_identifiable'', ''unresolvable_fallback_required'']"
    by (simp add: ALLOWED_RESOLVER_STATES_def)
  have exps: "ALLOWED_EXPECTATIONS = [''accept_exact'', ''accept_reference'', ''accept_pass_through'', ''accept_delta'',
      ''accept_fallback'', ''reject_malformed'', ''accept_non_exact_reference'']" by (simp add: ALLOWED_EXPECTATIONS_def)
  show ?thesis
  proof (cases "one_of ALLOWED_EXPECTATIONS ?e \<and> \<not> (result = JStr ''ok'' \<and> ?state = JStr ''unresolvable_fallback_required'') \<and>
      (?state = JStr ''available_local'' \<longrightarrow> jget ''resolver_uri'' c \<noteq> None)")
    case False
    have "one_of ALLOWED_EXPECTATIONS ?e \<longleftrightarrow> (\<exists>e. ?e = JStr e \<and> e \<in> set ALLOWED_EXPECTATIONS)" by (auto simp: one_of_str)
    then have exp: "(case ?e of JStr e \<Rightarrow> e \<in> set ALLOWED_EXPECTATIONS \<and> expectation_ok action result c ?state e | _ \<Rightarrow> False)
        \<Longrightarrow> one_of ALLOWED_EXPECTATIONS ?e" by (cases ?e) simp_all
    with False show ?thesis
      unfolding audit_ok_def documented_audit_def Let_def uri exps [symmetric] by argo
  next
    case True
    then obtain e where e: "?e = JStr e" "e \<in> set ALLOWED_EXPECTATIONS" by (auto simp: one_of_str)
    note row = row_documented [OF e(2) ident, of ?state result action]
    from True row e reason show ?thesis
      unfolding audit_ok_def documented_audit_def Let_def states [symmetric] exps [symmetric] needs uri why ident
      by auto
  qed
qed

lemma documented_iff:
  "trace_block_ok b \<and> unchecked_demands b \<longleftrightarrow> documented_block b \<and> extra_demands b"
proof -
  let ?ob = "fld ''observation'' b" and ?c = "fld ''content'' b" and ?a = "fld ''audit'' b"
  let ?act = "fld ''action'' ?ob" and ?res = "fld ''result'' ?ob"
  let ?given = "optional ''hash'' is_hash ?c \<and> optional ''size_bytes'' is_nonnegative_int ?c \<and> optional ''resolver_uri'' is_str ?c \<and>
    optional ''reason'' is_str ?a"
  have "content_ok ?act ?c \<Longrightarrow> optional ''hash'' is_hash ?c \<and> optional ''size_bytes'' is_nonnegative_int ?c \<and>
      optional ''resolver_uri'' is_str ?c"
    unfolding content_ok_def present_optional by argo
  moreover have "documented_content ?act ?c \<and> natural (fld ''size_bytes'' ?c) \<Longrightarrow>
      optional ''hash'' is_hash ?c \<and> optional ''size_bytes'' is_nonnegative_int ?c \<and> optional ''resolver_uri'' is_str ?c"
    unfolding documented_content_def optional_hash [of "''hash''"] optional_natural by argo
  moreover have "documented_audit ?act ?res ?c ?a \<Longrightarrow> optional ''reason'' is_str ?a"
    unfolding documented_audit_def Let_def by argo
  ultimately have given: "trace_block_ok b \<and> unchecked_demands b \<Longrightarrow> ?given" "documented_block b \<and> extra_demands b \<Longrightarrow> ?given"
    unfolding trace_block_ok_def unchecked_demands_def documented_block_def extra_demands_def Let_def by argo+
  show ?thesis
  proof (cases ?given)
    case False
    with given show ?thesis by argo
  next
    case True
    then have audit: "audit_ok (fld ''action'' ?ob) (fld ''result'' ?ob) ?c ?a \<and>
       (fld ''expectation'' ?a = JStr ''accept_delta'' \<longrightarrow> fld ''delta_algorithm'' ?c = JStr ''unified_diff'') \<longleftrightarrow>
     documented_audit (fld ''action'' ?ob) (fld ''result'' ?ob) ?c ?a \<and>
       (reason_needed (fld ''action'' ?ob) (fld ''result'' ?ob) (fld ''resolver_state'' ?a) \<longrightarrow> fld ''reason'' ?a \<noteq> JStr []) \<and>
       (fld ''resolver_state'' ?a = JStr ''available_local'' \<longrightarrow> fld ''resolver_uri'' ?c \<noteq> JStr [])"
      by (intro audit_documented) simp_all
    show ?thesis
      using audit True envelope_documented [of "fld ''envelope'' b"] observation_documented [of ?ob]
        content_documented [of "fld ''action'' ?ob" ?c] extensions_documented [of b]
      unfolding trace_block_ok_def sections_ok_def unchecked_demands_def documented_block_def extra_demands_def Let_def by argo
  qed
qed

subsection \<open>When the validator raises\<close>

definition looked_up_fields :: "json \<Rightarrow> json list" where
  "looked_up_fields b =
     (let e = fld ''envelope'' b; ob = fld ''observation'' b; c = fld ''content'' b; a = fld ''audit'' b in
      [fld ''direction'' e, fld ''class'' ob, fld ''action'' ob, fld ''result'' ob] @
      (if fld ''action'' ob = JStr ''delta'' then [fld ''delta_algorithm'' c] else []) @
      [fld ''resolver_state'' a, fld ''expectation'' a])"

lemma isl_checked [simp]: "\<not> isl (checked bad code)"
  by (simp add: checked_def)

lemma isl_in_str_set [simp]: "isl (in_str_set v S) \<longleftrightarrow> \<not> hashable v"
  by (simp add: in_str_set_def)

lemma isl_member_check [simp]: "isl (member_check v S code) \<longleftrightarrow> \<not> hashable v"
  by (simp add: member_check_def isl_bind)

lemma isl_needs_reason: "hashable result \<Longrightarrow> hashable state \<Longrightarrow> \<not> isl (needs_reason action result state)"
  by (simp add: needs_reason_iff)

lemma isl_expectation:
  assumes "hashable action" and "hashable result"
  shows "\<not> isl (validate_expectation_invariants action result c state e)"
  using assms by (auto simp: validate_expectation_invariants_def Let_def isl_checks isl_bind fallback_claim_iff)

lemma isl_trace_block: "isl (validate_trace_block b) \<longleftrightarrow> sections_ok b \<and> \<not> list_all hashable (looked_up_fields b)"
proof (cases "sections_ok b")
  case False
  then show ?thesis by (simp add: validate_trace_block_def section_errors_Nil)
next
  case True
  let ?ob = "fld ''observation'' b" and ?c = "fld ''content'' b" and ?a = "fld ''audit'' b"
  have delta: "isl (validate_delta_fields ?c) \<longleftrightarrow> \<not> hashable (fld ''delta_algorithm'' ?c)"
    by (simp add: validate_delta_fields_def isl_checks)
  have content: "isl (validate_content ?ob ?c) \<longleftrightarrow> \<not> hashable (fld ''action'' ?ob) \<or>
      (fld ''action'' ?ob = JStr ''delta'' \<and> \<not> hashable (fld ''delta_algorithm'' ?c))"
    by (auto simp: validate_content_def Let_def isl_checks isl_bind delta)
  have audit: "isl (validate_audit ?ob ?c ?a) \<longleftrightarrow>
      \<not> hashable (fld ''resolver_state'' ?a) \<or> \<not> hashable (fld ''expectation'' ?a)"
    if "hashable (fld ''action'' ?ob)" and "hashable (fld ''result'' ?ob)"
  proof (cases "hashable (fld ''resolver_state'' ?a)")
    case True
    with isl_expectation [OF that] isl_needs_reason [OF that(2) True] show ?thesis
      by (auto simp: validate_audit_def Let_def isl_checks isl_bind split: json.split)
  qed (simp add: validate_audit_def Let_def isl_checks isl_bind)
  have main: "isl (validate_trace_block b) \<longleftrightarrow> \<not> hashable (fld ''direction'' (fld ''envelope'' b)) \<or>
      \<not> hashable (fld ''class'' ?ob) \<or> \<not> hashable (fld ''action'' ?ob) \<or> \<not> hashable (fld ''result'' ?ob) \<or>
      isl (validate_content ?ob ?c) \<or> isl (validate_audit ?ob ?c ?a)"
    using True by (auto simp: validate_trace_block_def section_errors_Nil isl_checks validate_envelope_def
        validate_observation_def)
  show ?thesis
    using True content audit unfolding main looked_up_fields_def Let_def by auto
qed


subsection \<open>Digest, warnings and artifacts\<close>

text \<open>
  An artifact is a file of the fixture directory or an object of the resolver. \<open>au_files\<close> tells for a resolved
  path whether it is a file (\<open>None\<close>: no file) and whether it can be read (\<open>Some None\<close>: \<open>OSError\<close>); \<open>au_join\<close>
  resolves a relative path in a directory; \<open>au_decode\<close> is UTF-8 decoding (\<open>None\<close>: \<open>UnicodeDecodeError\<close>).
\<close>

datatype artifact = FixtureFile "string list" | ResolverObject "string list"

record audit_env =
  au_sha :: "string \<Rightarrow> string"
  au_dir :: "string list option"
  au_join :: "string list \<Rightarrow> string \<Rightarrow> string list"
  au_files :: "string list \<Rightarrow> string option option"
  au_objects :: objects
  au_decode :: "string \<Rightarrow> string option"

record audit_result =
  ar_id :: string
  ar_status :: string
  ar_errors :: "string list"

definition failed :: "string \<Rightarrow> string list \<Rightarrow> audit_result" where
  "failed i es = \<lparr>ar_id = i, ar_status = ''fail'', ar_errors = es\<rparr>"

definition canonical_payload_digest :: "(string \<Rightarrow> string) \<Rightarrow> json \<Rightarrow> string py" where
  "canonical_payload_digest sha block =
     (case (jget ''observation'' block, jget ''content'' block, jget ''audit'' block) of
        (Some ob, Some c, Some a) \<Rightarrow>
          Inr (''sha256:'' @ sha (utf8_encode (dumps_text
            (JObj [(''observation'', ob), (''content'', c), (''audit'', a)]))))
      | _ \<Rightarrow> Inl KeyErrorRaised)"

definition audit_payload_digest :: "(string \<Rightarrow> string) \<Rightarrow> json \<Rightarrow> (string list \<times> string list) py" where
  "audit_payload_digest sha block =
     (let d = fld ''payload_digest'' (fld ''envelope'' block) in
      if d = JStr ''draft-uncomputed'' then Inr ([], [''draft_payload_digest_uncomputed''])
      else bind_py (canonical_payload_digest sha block) (\<lambda>k.
        if d \<noteq> JStr k then Inr ([''payload_digest_mismatch''], []) else Inr ([], [])))"

definition resolver_warnings :: "json \<Rightarrow> json list" where
  "resolver_warnings block =
     (let state = fld ''resolver_state'' (fld ''audit'' block); expectation = fld ''expectation'' (fld ''audit'' block) in
      if one_of FALLBACK_RESOLVER_STATES state then [state]
      else if state = JStr ''resolvable_remote'' \<and>
              one_of [''accept_reference'', ''accept_non_exact_reference'', ''accept_pass_through''] expectation
      then [state] else [])"

definition resolve_artifact_uri :: "audit_env \<Rightarrow> json \<Rightarrow> artifact option py" where
  "resolve_artifact_uri env uri = (case uri of
     JStr u \<Rightarrow>
       if prefix resolver_scheme u then
         (case parse_resolver_uri u of
            Inl _ \<Rightarrow> Inr None
          | Inr digest \<Rightarrow> bind_py (checked_path (au_objects env) digest) (\<lambda>p.
              Inr (if node_is_file (au_objects env p) then Some (ResolverObject p) else None)))
       else (case au_dir env of
           None \<Rightarrow> Inr None
         | Some dir \<Rightarrow>
             let rel = (if prefix ''tok-fixture://'' u then drop 14 u else u);
                 p = au_join env dir rel
             in Inr (if prefix dir p \<and> au_files env p \<noteq> None then Some (FixtureFile p) else None))
   | _ \<Rightarrow> Inr None)"

definition artifact_bytes :: "audit_env \<Rightarrow> artifact \<Rightarrow> string option" where
  "artifact_bytes env a = (case a of
     FixtureFile p \<Rightarrow> (case au_files env p of Some r \<Rightarrow> r | None \<Rightarrow> None)
   | ResolverObject p \<Rightarrow> (case au_objects env p of
       Some (Regular d) \<Rightarrow> Some d | Some (Symlink _ (Some d)) \<Rightarrow> Some d | _ \<Rightarrow> None))"

text \<open>\<open>read_text()\<close>: \<open>OSError\<close> is the left side, a decoding error is raised.\<close>

definition artifact_lines :: "audit_env \<Rightarrow> artifact \<Rightarrow> string list option py" where
  "artifact_lines env a = (case artifact_bytes env a of
     None \<Rightarrow> Inr None
   | Some b \<Rightarrow> (case au_decode env b of
       None \<Rightarrow> Inl UnicodeErrorRaised
     | Some t \<Rightarrow> Inr (Some (splitlines_keep (universal_newlines t)))))"

definition verify_artifact_identity :: "audit_env \<Rightarrow> artifact \<Rightarrow> json \<Rightarrow> json \<Rightarrow> string \<Rightarrow> string list" where
  "verify_artifact_identity env a expected_hash expected_size label =
     (case artifact_bytes env a of
        None \<Rightarrow> [label @ ''_artifact_unreadable'']
      | Some d \<Rightarrow>
          err (expected_hash \<noteq> JNull \<and> expected_hash \<noteq> JStr (''sha256:'' @ au_sha env d)) (label @ ''_hash_mismatch'') @
          err (expected_size \<noteq> JNull \<and> \<not> py_eq expected_size (JInt (int (length d)))) (label @ ''_size_mismatch''))"

definition replay_delta :: "audit_env \<Rightarrow> artifact \<Rightarrow> artifact \<Rightarrow> artifact \<Rightarrow> string list py" where
  "replay_delta env base delta final =
     bind_py (artifact_lines env base) (\<lambda>base_lines. case base_lines of
       None \<Rightarrow> Inr [''delta_artifact_unreadable'']
     | Some bl \<Rightarrow> bind_py (artifact_lines env delta) (\<lambda>delta_lines. case delta_lines of
         None \<Rightarrow> Inr [''delta_artifact_unreadable'']
       | Some dl \<Rightarrow> Inr (case apply_unified_diff bl dl of
           Inl e \<Rightarrow> [''delta_replay_failed:'' @ e]
         | Inr replayed \<Rightarrow> (case artifact_bytes env final of
             None \<Rightarrow> [''final_artifact_unreadable'']
           | Some bytes \<Rightarrow> err (utf8_encode (concat replayed) \<noteq> bytes) ''delta_replay_final_mismatch''))))"

definition audit_delta :: "audit_env \<Rightarrow> json \<Rightarrow> string list py" where
  "audit_delta env content =
     (if fld ''delta_algorithm'' content \<noteq> JStr ''unified_diff'' then Inr [''unsupported_delta_algorithm_for_audit'']
      else
        bind_py (resolve_artifact_uri env (fld ''base_uri'' content)) (\<lambda>base.
        bind_py (resolve_artifact_uri env (fld ''delta_uri'' content)) (\<lambda>delta.
        bind_py (resolve_artifact_uri env (fld ''resolver_uri'' content)) (\<lambda>final.
        case (base, delta, final) of
          (Some b, Some d, Some f) \<Rightarrow>
            checks [Inr (verify_artifact_identity env b (fld ''base_hash'' content) JNull ''base''),
                    Inr (verify_artifact_identity env d (fld ''delta_hash'' content) JNull ''delta''),
                    replay_delta env b d f]
        | _ \<Rightarrow> Inr (err (base = None) ''missing_or_unresolved_base_uri'' @
                    err (delta = None) ''missing_or_unresolved_delta_uri'' @
                    err (final = None) ''missing_or_unresolved_final_uri'')))))"

definition audit_artifacts :: "audit_env \<Rightarrow> json \<Rightarrow> string list py" where
  "audit_artifacts env block =
     (let content = fld ''content'' block in
      if fld ''resolver_state'' (fld ''audit'' block) \<noteq> JStr ''available_local'' then Inr []
      else bind_py (resolve_artifact_uri env (fld ''resolver_uri'' content)) (\<lambda>resolved. case resolved of
          None \<Rightarrow> Inr [''available_local_unresolved_content_uri'']
        | Some a \<Rightarrow> checks
            [Inr (verify_artifact_identity env a (fld ''hash'' content) (fld ''size_bytes'' content) ''content''),
             (if fld ''action'' (fld ''observation'' block) = JStr ''delta'' then audit_delta env content else Inr [])]))"

text \<open>Warnings are strings; the resolver state is one after validation.\<close>

definition add_new :: "string list \<Rightarrow> json list \<Rightarrow> string list" where
  "add_new ws vs = fold (\<lambda>v ws. if py_str v \<in> set ws then ws else ws @ [py_str v]) vs ws"

definition audit_block :: "audit_env \<Rightarrow> string \<Rightarrow> json \<Rightarrow> audit_result py" where
  "audit_block env fixture_id block =
     bind_py (validate_trace_block block) (\<lambda>errors.
     if errors \<noteq> [] then Inr (failed fixture_id errors)
     else bind_py (audit_payload_digest (au_sha env) block) (\<lambda>(digest_errors, warnings).
     if digest_errors \<noteq> [] then Inr (failed fixture_id digest_errors)
     else bind_py (audit_artifacts env block) (\<lambda>artifact_errors.
     if artifact_errors \<noteq> [] then Inr (failed fixture_id artifact_errors)
     else
       let warnings = add_new warnings (resolver_warnings block) in
       if warnings \<noteq> [] then Inr \<lparr>ar_id = fixture_id, ar_status = ''warn'', ar_errors = warnings\<rparr>
       else Inr \<lparr>ar_id = fixture_id, ar_status = ''pass'', ar_errors = []\<rparr>)))"

subsection \<open>Consistency of a sequence\<close>

definition int_of :: "json \<Rightarrow> int option" where
  "int_of v = (case v of JInt i \<Rightarrow> Some i | JBool b \<Rightarrow> Some (if b then 1 else 0) | _ \<Rightarrow> None)"

definition block_id_of :: "json \<Rightarrow> string option" where
  "block_id_of e = (case fld ''block_id'' e of JStr i \<Rightarrow> if i \<noteq> [] then Some i else None | _ \<Rightarrow> None)"

definition position_of :: "json \<Rightarrow> (string \<times> int \<times> int) option" where
  "position_of e = (case (fld ''session_id'' e, int_of (fld ''turn'' e), int_of (fld ''step'' e)) of
     (JStr s, Some t, Some k) \<Rightarrow> Some (s, t, k) | _ \<Rightarrow> None)"

definition before :: "int \<times> int \<Rightarrow> int \<times> int \<Rightarrow> bool" where
  "before p q = (fst p < fst q \<or> fst p = fst q \<and> snd p < snd q)"

fun sequence_from ::
    "nat \<Rightarrow> string list \<Rightarrow> (string \<times> int \<times> int) list \<Rightarrow> json list \<Rightarrow> audit_result list" where
  "sequence_from i seen latest [] = []"
| "sequence_from i seen latest (b # bs) =
     (let e = fld ''envelope'' b in
      if \<not> is_dict e then sequence_from (i + 1) seen latest bs
      else
        let dup = (case block_id_of e of Some k \<Rightarrow> if k \<in> set seen then [failed k [''duplicate_block_id'']] else []
                   | None \<Rightarrow> []);
            seen = (case block_id_of e of Some k \<Rightarrow> List.insert k seen | None \<Rightarrow> seen) in
        case position_of e of
          None \<Rightarrow> dup @ sequence_from (i + 1) seen latest bs
        | Some (s, p) \<Rightarrow>
            dup @ (case map_of latest s of
                Some q \<Rightarrow> if before p q
                  then [failed (if truthy (fld ''block_id'' e) then py_str (fld ''block_id'' e) else ''line:'' @ nat_str i)
                          [''out_of_order_trace_block'']]
                  else []
              | None \<Rightarrow> []) @ sequence_from (i + 1) seen (dict_set s p latest) bs)"

definition audit_sequence_consistency :: "json list \<Rightarrow> audit_result list" where
  "audit_sequence_consistency blocks = sequence_from 1 [] [] blocks"

subsection \<open>Files of blocks\<close>

text \<open>What reading and parsing the file gave.\<close>

datatype load_outcome = NotUtf8 | Unreadable | NotJson | Loaded json

fun audit_fixtures :: "audit_env \<Rightarrow> nat \<Rightarrow> json list \<Rightarrow> (audit_result list \<times> json list) py" where
  "audit_fixtures env i [] = Inr ([], [])"
| "audit_fixtures env i (f # fs) =
     (let fallback_id = ''fixture['' @ nat_str i @ '']'';
          add = (\<lambda>r bs. bind_py (audit_fixtures env (i + 1) fs) (\<lambda>(rs, blocks). Inr (r # rs, bs @ blocks))) in
      if \<not> is_dict f then add (failed fallback_id [''fixture_not_object'']) []
      else
        let fid = (if truthy (fld ''id'' f) then py_str (fld ''id'' f) else fallback_id); block = fld ''block'' f in
        if \<not> is_dict block then add (failed fid [''missing_or_invalid_block'']) []
        else bind_py (audit_block env fid block) (\<lambda>r. add r [block]))"

definition audit_fixture_file :: "audit_env \<Rightarrow> string \<Rightarrow> load_outcome \<Rightarrow> audit_result list py" where
  "audit_fixture_file env name loaded = (case loaded of
     NotUtf8 \<Rightarrow> Inr [failed name [''trace_file_not_utf8'']]
   | Unreadable \<Rightarrow> Inr [failed name [''trace_file_unreadable'']]
   | NotJson \<Rightarrow> Inr [failed name [''invalid_fixture_json'']]
   | Loaded j \<Rightarrow>
       if is_dict j \<and> fld ''schema'' j = JStr ''tok-trace-adversarial-packs/v0.1-draft''
       then Inr [failed name [''adversarial_pack_manifest_not_a_trace_fixture'']]
       else (case j of
           JList fs \<Rightarrow> bind_py (audit_fixtures env 0 fs) (\<lambda>(rs, blocks). Inr (rs @ audit_sequence_consistency blocks))
         | _ \<Rightarrow> Inr [failed name [''fixture_file_not_list'']]))"

definition blank_line :: "string \<Rightarrow> bool" where
  "blank_line l = (py_strip l = [])"

definition line_id :: "json \<Rightarrow> json \<Rightarrow> string \<Rightarrow> string py" where
  "line_id record block fallback_id =
     (if truthy (fld ''id'' record) then Inr (py_str (fld ''id'' record))
      else let e = jget_or ''envelope'' (JObj []) block in
           if \<not> is_dict e then Inl AttributeError
           else Inr (if truthy (fld ''block_id'' e) then py_str (fld ''block_id'' e) else fallback_id))"

fun audit_lines ::
    "audit_env \<Rightarrow> (string \<Rightarrow> json option) \<Rightarrow> nat \<Rightarrow> string list \<Rightarrow> (audit_result list \<times> json list) py" where
  "audit_lines env loads i [] = Inr ([], [])"
| "audit_lines env loads i (l # ls) =
     (let fallback_id = ''line:'' @ nat_str i;
          add = (\<lambda>r bs. bind_py (audit_lines env loads (i + 1) ls) (\<lambda>(rs, blocks). Inr (r # rs, bs @ blocks))) in
      if blank_line l then audit_lines env loads (i + 1) ls
      else case loads l of
          None \<Rightarrow> add (failed fallback_id [''invalid_jsonl_line'']) []
        | Some record \<Rightarrow>
            if \<not> is_dict record then add (failed fallback_id [''jsonl_line_not_object'']) []
            else
              let block = jget_or ''block'' record record in
              if \<not> is_dict block then add (failed fallback_id [''missing_or_invalid_block'']) []
              else bind_py (line_id record block fallback_id) (\<lambda>bid.
                   bind_py (audit_block env bid block) (\<lambda>r. add r [block])))"

definition audit_trace_file ::
    "audit_env \<Rightarrow> (string \<Rightarrow> json option) \<Rightarrow> string \<Rightarrow> bool \<Rightarrow> load_outcome \<Rightarrow> string \<Rightarrow> audit_result list py" where
  "audit_trace_file env loads name jsonl_suffix outcome content =
     (case outcome of
        NotUtf8 \<Rightarrow> Inr [failed name [''trace_file_not_utf8'']]
      | Unreadable \<Rightarrow> Inr [failed name [''trace_file_unreadable'']]
      | _ \<Rightarrow>
        let stripped = dropWhile py_space content in
        if \<not> jsonl_suffix \<and> (prefix ''['' stripped \<or> prefix ''{'' stripped)
        then audit_fixture_file env name (case loads content of None \<Rightarrow> NotJson | Some j \<Rightarrow> Loaded j)
        else bind_py (audit_lines env loads 1 (splitlines content)) (\<lambda>(rs, blocks).
          if rs = [] then Inr [failed name [''trace_file_empty'']]
          else Inr (rs @ audit_sequence_consistency blocks)))"

subsection \<open>Sequences\<close>

definition envelopes :: "json list \<Rightarrow> json list" where
  "envelopes bs = filter is_dict (map (fld ''envelope'') bs)"

definition block_ids :: "json list \<Rightarrow> string list" where
  "block_ids bs = List.map_filter block_id_of (envelopes bs)"

definition positions :: "string \<Rightarrow> json list \<Rightarrow> (int \<times> int) list" where
  "positions s bs = map snd (filter (\<lambda>x. fst x = s) (List.map_filter position_of (envelopes bs)))"

definition monotone :: "(int \<times> int) list \<Rightarrow> bool" where
  "monotone ps = sorted_wrt (\<lambda>p q. \<not> before q p) ps"

lemma before_trans: "\<not> before q p \<Longrightarrow> \<not> before r q \<Longrightarrow> \<not> before r p"
  by (cases p; cases q; cases r) (auto simp: before_def)

lemma monotone_Cons2: "monotone (p # q # ps) \<longleftrightarrow> \<not> before q p \<and> monotone (q # ps)"
  unfolding monotone_def using before_trans [of q p] by auto

lemma block_ids_Cons: "block_ids (b # bs) =
    (if is_dict (fld ''envelope'' b)
     then (case block_id_of (fld ''envelope'' b) of None \<Rightarrow> block_ids bs | Some k \<Rightarrow> k # block_ids bs) else block_ids bs)"
  by (simp add: block_ids_def envelopes_def map_filter_simps split: option.split)

lemma positions_Cons: "positions s (b # bs) =
    (if is_dict (fld ''envelope'' b)
     then (case position_of (fld ''envelope'' b) of None \<Rightarrow> positions s bs
       | Some (u, p) \<Rightarrow> if u = s then p # positions s bs else positions s bs) else positions s bs)"
  by (simp add: positions_def envelopes_def map_filter_simps split: option.split)

definition latest_list :: "'a option \<Rightarrow> 'a list" where
  "latest_list x = (case x of None \<Rightarrow> [] | Some p \<Rightarrow> [p])"

lemma sequence_from_Nil:
  "sequence_from i seen latest bs = [] \<longleftrightarrow>
     distinct (block_ids bs) \<and> set (block_ids bs) \<inter> set seen = {} \<and>
     (\<forall>s. monotone (latest_list (map_of latest s) @ positions s bs))"
proof (induction bs arbitrary: i seen latest)
  case Nil
  then show ?case
    by (auto simp: block_ids_def envelopes_def positions_def monotone_def latest_list_def map_filter_simps
        split: option.split)
next
  case (Cons b bs)
  let ?e = "fld ''envelope'' b"
  show ?case
  proof (cases "is_dict ?e")
    case False
    then show ?thesis
      using Cons.IH by (simp add: block_ids_Cons positions_Cons)
  next
    case dict: True
    define dup where "dup = (case block_id_of ?e of Some k \<Rightarrow> if k \<in> set seen then [failed k [''duplicate_block_id'']] else []
                   | None \<Rightarrow> [])"
    define seen' where "seen' = (case block_id_of ?e of Some k \<Rightarrow> List.insert k seen | None \<Rightarrow> seen)"
    have ids: "dup = [] \<and> distinct (block_ids bs) \<and> set (block_ids bs) \<inter> set seen' = {} \<longleftrightarrow>
        distinct (block_ids (b # bs)) \<and> set (block_ids (b # bs)) \<inter> set seen = {}"
      using dict by (auto simp: dup_def seen'_def block_ids_Cons split: option.split)
    show ?thesis
    proof (cases "position_of ?e")
      case None
      have "sequence_from i seen latest (b # bs) = dup @ sequence_from (i + 1) seen' latest bs"
        using dict None by (simp add: Let_def dup_def seen'_def)
      then have eq: "sequence_from i seen latest (b # bs) = [] \<longleftrightarrow> dup = [] \<and> sequence_from (i + 1) seen' latest bs = []"
        by (simp only: append_is_Nil_conv)
      have "positions s (b # bs) = positions s bs" for s using dict None by (simp add: positions_Cons)
      with ids show ?thesis unfolding eq Cons.IH by auto
    next
      case (Some sp)
      then obtain u p where sp: "position_of ?e = Some (u, p)" by (cases sp) auto
      define late where "late = (case map_of latest u of
                Some q \<Rightarrow> if before p q
                  then [failed (if truthy (fld ''block_id'' ?e) then py_str (fld ''block_id'' ?e) else ''line:'' @ nat_str i)
                          [''out_of_order_trace_block'']]
                  else []
              | None \<Rightarrow> [])"
      have eq: "sequence_from i seen latest (b # bs) = dup @ late @ sequence_from (i + 1) seen' (dict_set u p latest) bs"
        using dict sp by (simp add: Let_def dup_def seen'_def late_def)
      have IH: "sequence_from (i + 1) seen' (dict_set u p latest) bs = [] \<longleftrightarrow>
          distinct (block_ids bs) \<and> set (block_ids bs) \<inter> set seen' = {} \<and>
          (\<forall>s. monotone (latest_list (map_of (dict_set u p latest) s) @ positions s bs))"
        by (rule Cons.IH)
      have mono: "late = [] \<and> (\<forall>s. monotone (latest_list (map_of (dict_set u p latest) s) @ positions s bs)) \<longleftrightarrow>
          (\<forall>s. monotone (latest_list (map_of latest s) @ positions s (b # bs)))" (is "?l \<longleftrightarrow> ?r")
      proof -
        have "monotone (latest_list (map_of latest s) @ positions s (b # bs)) \<longleftrightarrow>
            (s = u \<longrightarrow> late = []) \<and> monotone (latest_list (map_of (dict_set u p latest) s) @ positions s bs)" for s
          using dict sp by (auto simp: positions_Cons late_def latest_list_def monotone_Cons2 split: option.split)
        then show ?thesis by blast
      qed
      show ?thesis unfolding eq append_is_Nil_conv IH using ids mono by blast
    qed
  qed
qed

subsection \<open>What a passing audit means\<close>

lemma fold_add_mono: "set ws \<subseteq> set (add_new ws vs)"
proof -
  have "set ws \<subseteq> set (fold (\<lambda>v ws. if py_str v \<in> set ws then ws else ws @ [py_str v]) vs ws)"
    by (induction vs arbitrary: ws) force+
  then show ?thesis by (simp add: add_new_def)
qed

lemma add_new_Nil: "add_new ws vs = [] \<longleftrightarrow> ws = [] \<and> vs = []"
proof (cases vs)
  case (Cons v rest)
  have "\<exists>ws'. add_new ws vs = add_new ws' rest \<and> ws' \<noteq> []"
    by (cases "py_str v \<in> set ws") (auto simp: Cons add_new_def)
  then obtain ws' where "add_new ws vs = add_new ws' rest" "ws' \<noteq> []" by blast
  with fold_add_mono [of ws' rest] Cons show ?thesis by auto
qed (simp add: add_new_def)

definition artifact_matches :: "audit_env \<Rightarrow> json \<Rightarrow> bool" where
  "artifact_matches env content =
     (case resolve_artifact_uri env (fld ''resolver_uri'' content) of
        Inr (Some a) \<Rightarrow> (case artifact_bytes env a of
            Some d \<Rightarrow> fld ''hash'' content = JStr (''sha256:'' @ au_sha env d) \<and>
              fld ''size_bytes'' content = JInt (int (length d))
          | None \<Rightarrow> False)
      | _ \<Rightarrow> False)"

definition delta_replays :: "audit_env \<Rightarrow> json \<Rightarrow> bool" where
  "delta_replays env content =
     (case (resolve_artifact_uri env (fld ''base_uri'' content), resolve_artifact_uri env (fld ''delta_uri'' content),
            resolve_artifact_uri env (fld ''resolver_uri'' content)) of
        (Inr (Some b), Inr (Some d), Inr (Some f)) \<Rightarrow>
          (case (artifact_lines env b, artifact_lines env d, artifact_bytes env f) of
             (Inr (Some bl), Inr (Some dl), Some bytes) \<Rightarrow>
               (case apply_unified_diff bl dl of Inr replayed \<Rightarrow> utf8_encode (concat replayed) = bytes | Inl _ \<Rightarrow> False)
           | _ \<Rightarrow> False)
      | _ \<Rightarrow> False)"

lemma replay_delta_Nil:
  assumes "replay_delta env b d f = Inr []"
  obtains bl dl replayed where "artifact_lines env b = Inr (Some bl)" and "artifact_lines env d = Inr (Some dl)"
    and "apply_unified_diff bl dl = Inr replayed" and "artifact_bytes env f = Some (utf8_encode (concat replayed))"
proof -
  from assms obtain bl dl where lines: "artifact_lines env b = Inr (Some bl)" "artifact_lines env d = Inr (Some dl)"
    and r: "(case apply_unified_diff bl dl of
           Inl e \<Rightarrow> [''delta_replay_failed:'' @ e]
         | Inr replayed \<Rightarrow> (case artifact_bytes env f of
             None \<Rightarrow> [''final_artifact_unreadable'']
           | Some bytes \<Rightarrow> err (utf8_encode (concat replayed) \<noteq> bytes) ''delta_replay_final_mismatch'')) = []"
    by (cases "artifact_lines env b"; cases "projr (artifact_lines env b)"; cases "artifact_lines env d";
        cases "projr (artifact_lines env d)") (simp_all add: replay_delta_def)
  from r show ?thesis
    by (cases "apply_unified_diff bl dl"; cases "artifact_bytes env f") (auto intro: that [OF lines])
qed

lemma audit_delta_Nil:
  assumes "audit_delta env c = Inr []"
  shows "delta_replays env c"
proof -
  obtain base delta final where u: "resolve_artifact_uri env (fld ''base_uri'' c) = Inr base"
    "resolve_artifact_uri env (fld ''delta_uri'' c) = Inr delta"
    "resolve_artifact_uri env (fld ''resolver_uri'' c) = Inr final"
    and r: "(case (base, delta, final) of
          (Some b, Some d, Some f) \<Rightarrow>
            checks [Inr (verify_artifact_identity env b (fld ''base_hash'' c) JNull ''base''),
                    Inr (verify_artifact_identity env d (fld ''delta_hash'' c) JNull ''delta''),
                    replay_delta env b d f]
        | _ \<Rightarrow> Inr (err (base = None) ''missing_or_unresolved_base_uri'' @
                    err (delta = None) ''missing_or_unresolved_delta_uri'' @
                    err (final = None) ''missing_or_unresolved_final_uri'')) = Inr []"
    using assms by (auto simp: audit_delta_def bind_py_Inr_iff split: if_splits)
  from r obtain b d f where bdf: "base = Some b" "delta = Some d" "final = Some f"
    and rep: "replay_delta env b d f = Inr []"
    by (cases base; cases delta; cases final) (auto simp: checks_Nil_iff)
  from rep show ?thesis by (rule replay_delta_Nil) (simp add: delta_replays_def u bdf)
qed

lemma verify_identity_Nil:
  assumes "verify_artifact_identity env a h n label = []" and "is_hash h" and "is_nonnegative_int n"
  obtains d where "artifact_bytes env a = Some d" and "h = JStr (''sha256:'' @ au_sha env d)"
    and "n = JInt (int (length d))"
proof -
  have "h \<noteq> JNull" "n \<noteq> JNull" using assms(2,3) by (auto simp: is_hash_def is_nonnegative_int_def)
  moreover have "py_eq n (JInt i) \<longleftrightarrow> n = JInt i" for i
    using assms(3) by (cases n) (auto simp: py_eq_def is_nonnegative_int_def)
  ultimately show ?thesis
    using assms(1) that by (auto simp: verify_artifact_identity_def split: option.splits)
qed

lemma audit_artifacts_Nil:
  assumes "audit_artifacts env b = Inr []" and "trace_block_ok b"
    and "fld ''resolver_state'' (fld ''audit'' b) = JStr ''available_local''"
  shows "artifact_matches env (fld ''content'' b)"
    and "fld ''action'' (fld ''observation'' b) = JStr ''delta'' \<Longrightarrow> delta_replays env (fld ''content'' b)"
proof -
  let ?c = "fld ''content'' b"
  have ident: "is_hash (fld ''hash'' ?c)" "is_nonnegative_int (fld ''size_bytes'' ?c)"
    using assms(2,3) by (simp_all add: trace_block_ok_def audit_ok_def identified_def Let_def)
  obtain a where a: "resolve_artifact_uri env (fld ''resolver_uri'' ?c) = Inr (Some a)"
    and v: "verify_artifact_identity env a (fld ''hash'' ?c) (fld ''size_bytes'' ?c) ''content'' = []"
    and d: "(if fld ''action'' (fld ''observation'' b) = JStr ''delta'' then audit_delta env ?c else Inr []) = Inr []"
  proof -
    have "bind_py (resolve_artifact_uri env (fld ''resolver_uri'' ?c)) (\<lambda>resolved. case resolved of
          None \<Rightarrow> Inr [''available_local_unresolved_content_uri'']
        | Some a \<Rightarrow> checks
            [Inr (verify_artifact_identity env a (fld ''hash'' ?c) (fld ''size_bytes'' ?c) ''content''),
             (if fld ''action'' (fld ''observation'' b) = JStr ''delta'' then audit_delta env ?c else Inr [])]) = Inr []"
      using assms(1,3) by (simp only: audit_artifacts_def Let_def) simp
    then obtain res where res: "resolve_artifact_uri env (fld ''resolver_uri'' ?c) = Inr res"
      and rest: "(case res of
          None \<Rightarrow> Inr [''available_local_unresolved_content_uri'']
        | Some a \<Rightarrow> checks
            [Inr (verify_artifact_identity env a (fld ''hash'' ?c) (fld ''size_bytes'' ?c) ''content''),
             (if fld ''action'' (fld ''observation'' b) = JStr ''delta'' then audit_delta env ?c else Inr [])]) = Inr []"
      by (rule bind_py_Inr_E)
    show ?thesis
    proof (cases res)
      case None
      with rest show ?thesis by simp
    next
      case (Some a)
      with rest res show ?thesis by (intro that [of a]) (simp_all add: checks_Nil_iff)
    qed
  qed
  from verify_identity_Nil [OF v ident] obtain d where "artifact_bytes env a = Some d"
    and "fld ''hash'' ?c = JStr (''sha256:'' @ au_sha env d)" and "fld ''size_bytes'' ?c = JInt (int (length d))" .
  with a show "artifact_matches env ?c" by (simp add: artifact_matches_def)
  show "delta_replays env ?c" if "fld ''action'' (fld ''observation'' b) = JStr ''delta''"
    using audit_delta_Nil d that by simp
qed

lemma audit_block_pass:
  assumes "audit_block env i b = Inr r" and "ar_status r \<noteq> ''fail''"
  shows "trace_block_ok b" and "audit_artifacts env b = Inr []"
    and "(fld ''payload_digest'' (fld ''envelope'' b) = JStr ''draft-uncomputed'' \<longrightarrow> ar_status r = ''warn'') \<and>
      (fld ''payload_digest'' (fld ''envelope'' b) \<noteq> JStr ''draft-uncomputed'' \<longrightarrow>
       (\<exists>k. canonical_payload_digest (au_sha env) b = Inr k \<and> fld ''payload_digest'' (fld ''envelope'' b) = JStr k))"
    and "ar_status r = ''pass'' \<longleftrightarrow>
      fld ''payload_digest'' (fld ''envelope'' b) \<noteq> JStr ''draft-uncomputed'' \<and> resolver_warnings b = []"
proof -
  have nofail: "ar_status (failed i es) = ''fail''" for es by (simp add: failed_def)
  from assms(1) obtain es where ve: "validate_trace_block b = Inr es"
    and 1: "(if es \<noteq> [] then Inr (failed i es)
      else bind_py (audit_payload_digest (au_sha env) b) (\<lambda>(digest_errors, warnings).
     if digest_errors \<noteq> [] then Inr (failed i digest_errors)
     else bind_py (audit_artifacts env b) (\<lambda>artifact_errors.
     if artifact_errors \<noteq> [] then Inr (failed i artifact_errors)
     else
       let warnings = add_new warnings (resolver_warnings b) in
       if warnings \<noteq> [] then Inr \<lparr>ar_id = i, ar_status = ''warn'', ar_errors = warnings\<rparr>
       else Inr \<lparr>ar_id = i, ar_status = ''pass'', ar_errors = []\<rparr>))) = Inr r"
    unfolding audit_block_def by (rule bind_py_Inr_E)
  have es: "es = []"
  proof (rule ccontr)
    assume "es \<noteq> []"
    with 1 have "r = failed i es" by simp
    with assms(2) nofail show False by simp
  qed
  with ve have v: "validate_trace_block b = Inr []" by simp
  from 1 es obtain ds w where pe: "audit_payload_digest (au_sha env) b = Inr (ds, w)"
    and 2: "(if ds \<noteq> [] then Inr (failed i ds)
     else bind_py (audit_artifacts env b) (\<lambda>artifact_errors.
     if artifact_errors \<noteq> [] then Inr (failed i artifact_errors)
     else
       let warnings = add_new w (resolver_warnings b) in
       if warnings \<noteq> [] then Inr \<lparr>ar_id = i, ar_status = ''warn'', ar_errors = warnings\<rparr>
       else Inr \<lparr>ar_id = i, ar_status = ''pass'', ar_errors = []\<rparr>)) = Inr r"
    by (cases "audit_payload_digest (au_sha env) b") auto
  have ds: "ds = []"
  proof (rule ccontr)
    assume "ds \<noteq> []"
    with 2 have "r = failed i ds" by simp
    with assms(2) nofail show False by simp
  qed
  with pe have p: "audit_payload_digest (au_sha env) b = Inr ([], w)" by simp
  from 2 ds have "bind_py (audit_artifacts env b) (\<lambda>artifact_errors.
     if artifact_errors \<noteq> [] then Inr (failed i artifact_errors)
     else
       let warnings = add_new w (resolver_warnings b) in
       if warnings \<noteq> [] then Inr \<lparr>ar_id = i, ar_status = ''warn'', ar_errors = warnings\<rparr>
       else Inr \<lparr>ar_id = i, ar_status = ''pass'', ar_errors = []\<rparr>) = Inr r" by simp
  then obtain afs where ae: "audit_artifacts env b = Inr afs"
    and 3: "(if afs \<noteq> [] then Inr (failed i afs)
     else
       let warnings = add_new w (resolver_warnings b) in
       if warnings \<noteq> [] then Inr \<lparr>ar_id = i, ar_status = ''warn'', ar_errors = warnings\<rparr>
       else Inr \<lparr>ar_id = i, ar_status = ''pass'', ar_errors = []\<rparr>) = (Inr r :: audit_result py)"
    by (rule bind_py_Inr_E)
  have afs: "afs = []"
  proof (rule ccontr)
    assume "afs \<noteq> []"
    with 3 have "r = failed i afs" by simp
    with assms(2) nofail show False by simp
  qed
  with ae have a: "audit_artifacts env b = Inr []" by simp
  from 3 afs have r: "ar_status r = (if add_new w (resolver_warnings b) \<noteq> [] then ''warn'' else ''pass'')"
    by (auto simp: Let_def split: if_splits)
  from v show "trace_block_ok b" by (simp add: trace_block_iff)
  show "audit_artifacts env b = Inr []" by (rule a)
  let ?d = "fld ''payload_digest'' (fld ''envelope'' b)"
  have digest: "(?d = JStr ''draft-uncomputed'' \<and> w \<noteq> []) \<or>
      (?d \<noteq> JStr ''draft-uncomputed'' \<and> w = [] \<and> (\<exists>k. canonical_payload_digest (au_sha env) b = Inr k \<and> ?d = JStr k))"
    using p by (auto simp: audit_payload_digest_def Let_def bind_py_Inr_iff split: if_splits)
  then show "(?d = JStr ''draft-uncomputed'' \<longrightarrow> ar_status r = ''warn'') \<and>
      (?d \<noteq> JStr ''draft-uncomputed'' \<longrightarrow>
       (\<exists>k. canonical_payload_digest (au_sha env) b = Inr k \<and> ?d = JStr k))"
    using r by (auto simp: add_new_Nil)
  from digest r show "ar_status r = ''pass'' \<longleftrightarrow> ?d \<noteq> JStr ''draft-uncomputed'' \<and> resolver_warnings b = []"
    by (auto simp: add_new_Nil)
qed

subsection \<open>The published matrix\<close>

text \<open>
  \<open>TRACE_INVARIANT_MATRIX\<close>. An empty list of actions or alternatives and \<open>None\<close> mean that the row says
  nothing; \<open>row_algorithm\<close> is what only the artifact audit checks.
\<close>

record invariant_row =
  row_actions :: "string list"
  row_result :: "string option"
  row_exact :: "bool option"
  row_state :: "string option"
  row_alternatives :: "string list"
  row_identity :: bool
  row_identity_local :: bool
  row_reason :: bool
  row_warns :: bool
  row_algorithm :: "string option"

definition empty_row :: invariant_row where
  "empty_row = \<lparr>row_actions = [], row_result = None, row_exact = None, row_state = None, row_alternatives = [],
     row_identity = False, row_identity_local = False, row_reason = False, row_warns = False, row_algorithm = None\<rparr>"

definition TRACE_INVARIANT_MATRIX :: "(string \<times> invariant_row) list" where
  "TRACE_INVARIANT_MATRIX =
    [(''accept_exact'', empty_row\<lparr>row_exact := Some True, row_state := Some ''available_local'',
        row_identity_local := True\<rparr>),
     (''accept_reference'', empty_row\<lparr>row_actions := [''reference''], row_exact := Some True, row_identity := True,
        row_warns := True\<rparr>),
     (''accept_non_exact_reference'', empty_row\<lparr>row_actions := [''skeleton_reference'', ''summary_reference''],
        row_exact := Some False, row_identity_local := True, row_warns := True\<rparr>),
     (''accept_pass_through'', empty_row\<lparr>row_actions := [''pass_through''], row_result := Some ''ok'',
        row_exact := Some False, row_identity_local := True\<rparr>),
     (''accept_delta'', empty_row\<lparr>row_actions := [''delta''], row_exact := Some True,
        row_state := Some ''available_local'', row_algorithm := Some ''unified_diff''\<rparr>),
     (''accept_fallback'', empty_row\<lparr>row_alternatives := [''fallback'', ''degraded'', ''error'', ''rejected'',
        ''unresolvable_fallback_required''], row_reason := True\<rparr>),
     (''reject_malformed'', empty_row\<lparr>row_result := Some ''rejected''\<rparr>)]"

definition row_holds :: "invariant_row \<Rightarrow> json \<Rightarrow> bool" where
  "row_holds row b =
     (let action = fld ''action'' (fld ''observation'' b); result = fld ''result'' (fld ''observation'' b);
          c = fld ''content'' b; state = fld ''resolver_state'' (fld ''audit'' b) in
      (row_actions row \<noteq> [] \<longrightarrow> one_of (row_actions row) action) \<and>
      (\<forall>r. row_result row = Some r \<longrightarrow> result = JStr r) \<and>
      (\<forall>x. row_exact row = Some x \<longrightarrow> fld ''exact'' c = JBool x) \<and>
      (\<forall>s. row_state row = Some s \<longrightarrow> state = JStr s) \<and>
      (row_alternatives row \<noteq> [] \<longrightarrow> (\<exists>v \<in> {action, result, state}. one_of (row_alternatives row) v)) \<and>
      (row_identity row \<longrightarrow> identified c) \<and>
      (row_identity_local row \<and> state = JStr ''available_local'' \<longrightarrow> identified c) \<and>
      (row_reason row \<longrightarrow> truthy (fld ''reason'' (fld ''audit'' b))) \<and>
      (row_warns row \<and> state \<noteq> JStr ''available_local'' \<longrightarrow> resolver_warnings b \<noteq> []))"

lemma trace_ok_parts:
  assumes "trace_block_ok b" and "fld ''expectation'' (fld ''audit'' b) = JStr e"
  shows "expectation_ok (fld ''action'' (fld ''observation'' b)) (fld ''result'' (fld ''observation'' b))
      (fld ''content'' b) (fld ''resolver_state'' (fld ''audit'' b)) e"
    and "e \<in> set ALLOWED_EXPECTATIONS"
    and "one_of ALLOWED_RESOLVER_STATES (fld ''resolver_state'' (fld ''audit'' b))"
    and "fallback_claim (fld ''action'' (fld ''observation'' b)) (fld ''result'' (fld ''observation'' b))
        (fld ''resolver_state'' (fld ''audit'' b)) \<Longrightarrow> truthy (fld ''reason'' (fld ''audit'' b))"
    and "fld ''resolver_state'' (fld ''audit'' b) = JStr ''available_local'' \<Longrightarrow> identified (fld ''content'' b)"
  using assms by (auto simp: trace_block_ok_def audit_ok_def Let_def)

lemma warns_unless_local:
  assumes "one_of ALLOWED_RESOLVER_STATES (fld ''resolver_state'' (fld ''audit'' b))"
    and "fld ''resolver_state'' (fld ''audit'' b) \<noteq> JStr ''available_local''"
    and "fld ''expectation'' (fld ''audit'' b) \<in> {JStr ''accept_reference'', JStr ''accept_non_exact_reference''}"
  shows "resolver_warnings b \<noteq> []"
  using assms
  by (auto simp: resolver_warnings_def Let_def one_of_str ALLOWED_RESOLVER_STATES_def FALLBACK_RESOLVER_STATES_def)

lemma fallback_alternative:
  assumes "fallback_claim action result state"
  shows "\<exists>v \<in> {action, result, state}. one_of [''fallback'', ''degraded'', ''error'', ''rejected'',
        ''unresolvable_fallback_required''] v"
  using assms by (auto simp: fallback_claim_def one_of_str FALLBACK_RESULTS_def)

lemma matrix_row_holds:
  assumes ok: "trace_block_ok b" and e: "fld ''expectation'' (fld ''audit'' b) = JStr e"
    and row: "map_of TRACE_INVARIANT_MATRIX e = Some row"
  shows "row_holds row b"
proof -
  note parts = trace_ok_parts [OF ok e]
  have "e \<in> {''accept_exact'', ''accept_reference'', ''accept_pass_through'', ''accept_delta'', ''accept_fallback'',
     ''reject_malformed'', ''accept_non_exact_reference''}"
    using parts(2) by (simp add: ALLOWED_EXPECTATIONS_def)
  then show ?thesis
  proof (elim insertE emptyE)
    assume c: "e = ''accept_exact''"
    then have r: "row = empty_row\<lparr>row_exact := Some True, row_state := Some ''available_local'', row_identity_local := True\<rparr>"
      using row by (simp add: TRACE_INVARIANT_MATRIX_def)
    show ?thesis
      using parts(1,5) unfolding c
      by (auto simp: r empty_row_def row_holds_def expectation_ok_def Let_def NON_EXACT_REFERENCE_ACTIONS_def)
  next
    assume c: "e = ''accept_reference''"
    then have r: "row = empty_row\<lparr>row_actions := [''reference''], row_exact := Some True, row_identity := True, row_warns := True\<rparr>"
      using row by (simp add: TRACE_INVARIANT_MATRIX_def)
    show ?thesis
      using parts(1,5) warns_unless_local [OF parts(3)] e unfolding c
      by (auto simp: r empty_row_def row_holds_def expectation_ok_def Let_def NON_EXACT_REFERENCE_ACTIONS_def)
  next
    assume c: "e = ''accept_pass_through''"
    then have r: "row = empty_row\<lparr>row_actions := [''pass_through''], row_result := Some ''ok'', row_exact := Some False, row_identity_local := True\<rparr>"
      using row by (simp add: TRACE_INVARIANT_MATRIX_def)
    show ?thesis
      using parts(1,5) unfolding c
      by (auto simp: r empty_row_def row_holds_def expectation_ok_def Let_def NON_EXACT_REFERENCE_ACTIONS_def)
  next
    assume c: "e = ''accept_delta''"
    then have r: "row = empty_row\<lparr>row_actions := [''delta''], row_exact := Some True, row_state := Some ''available_local'', row_algorithm := Some ''unified_diff''\<rparr>"
      using row by (simp add: TRACE_INVARIANT_MATRIX_def)
    show ?thesis
      using parts(1,5) unfolding c
      by (auto simp: r empty_row_def row_holds_def expectation_ok_def Let_def NON_EXACT_REFERENCE_ACTIONS_def)
  next
    assume c: "e = ''reject_malformed''"
    then have r: "row = empty_row\<lparr>row_result := Some ''rejected''\<rparr>"
      using row by (simp add: TRACE_INVARIANT_MATRIX_def)
    show ?thesis
      using parts(1,5) unfolding c
      by (auto simp: r empty_row_def row_holds_def expectation_ok_def Let_def NON_EXACT_REFERENCE_ACTIONS_def)
  next
    assume c: "e = ''accept_non_exact_reference''"
    then have r: "row = empty_row\<lparr>row_actions := [''skeleton_reference'', ''summary_reference''], row_exact := Some False, row_identity_local := True, row_warns := True\<rparr>"
      using row by (simp add: TRACE_INVARIANT_MATRIX_def)
    show ?thesis
      using parts(1,5) warns_unless_local [OF parts(3)] e unfolding c
      by (auto simp: r empty_row_def row_holds_def expectation_ok_def Let_def NON_EXACT_REFERENCE_ACTIONS_def)
  next
    assume "e = ''accept_fallback''"
    with parts(1) have claim: "fallback_claim (fld ''action'' (fld ''observation'' b)) (fld ''result'' (fld ''observation'' b))
        (fld ''resolver_state'' (fld ''audit'' b))" by (simp add: expectation_ok_def)
    have r: "row = empty_row\<lparr>row_alternatives := [''fallback'', ''degraded'', ''error'', ''rejected'',
        ''unresolvable_fallback_required''], row_reason := True\<rparr>"
      using row \<open>e = ''accept_fallback''\<close> by (simp add: TRACE_INVARIANT_MATRIX_def)
    show ?thesis
      using fallback_alternative [OF claim] parts(4) [OF claim] by (simp add: r empty_row_def row_holds_def Let_def)
  qed
qed

subsection \<open>A rendered delta passes\<close>

lemma clean_lineI: "list_all (\<lambda>c. \<not> line_break c) s \<Longrightarrow> clean_line (s @ [newline])"
  by (simp add: clean_line_def)

lemma plain_chars [simp]:
  "\<not> line_break CHR ''@''" "\<not> line_break CHR ''-''" "\<not> line_break CHR ''+''" "\<not> line_break CHR '' ''"
  "\<not> line_break CHR '',''"
  by code_simp+

lemma no_break_nat_str: "list_all (\<lambda>c. \<not> line_break c) (nat_str n)"
proof -
  have "\<not> line_break (digit_char d)" if "d < 10" for d
    using that by (simp add: line_break_def of_char_digit Let_def)
  then show ?thesis by (auto simp: list_all_iff dest!: nat_str_digits)
qed

lemma clean_hunk_header: "clean_line (hunk_header i j es)"
proof -
  have "list_all (\<lambda>c. \<not> line_break c) (unified_range a n)" for a n
    using no_break_nat_str by (simp add: unified_range_def Let_def)
  then show ?thesis
    using clean_lineI [of "''@@ -'' @ unified_range i (length (olds es)) @ '' +'' @ unified_range j (length (news es)) @ '' @@''"]
    by (simp add: hunk_header_def)
qed

lemma clean_edit_line:
  assumes "list_all clean_line (old_of e @ new_of e)"
  shows "clean_line (edit_line e)"
  using assms by (cases e) (auto simp: clean_line_def)

definition clean_script :: "hunk list \<Rightarrow> bool" where
  "clean_script hs = list_all (\<lambda>h. list_all clean_line (gap h) \<and> list_all (\<lambda>e. list_all clean_line (old_of e @ new_of e)) (edits h)) hs"

lemma clean_render_hunks: "clean_script hs \<Longrightarrow> list_all clean_line (render_hunks i j hs)"
  by (induction hs arbitrary: i j)
    (auto simp: Let_def clean_script_def clean_hunk_header list_all_iff intro!: clean_edit_line)

lemma clean_render_diff:
  assumes "clean_script hs" and "list_all (\<lambda>c. \<not> line_break c) a" and "list_all (\<lambda>c. \<not> line_break c) b"
  shows "list_all clean_line (render_diff a b hs)"
  using clean_render_hunks [OF assms(1)] assms(2,3) clean_lineI [of "''--- '' @ a"] clean_lineI [of "''+++ '' @ b"]
  by (auto simp: render_diff_def)

lemma clean_olds: "list_all (\<lambda>e. list_all clean_line (old_of e @ new_of e)) es \<Longrightarrow> list_all clean_line (olds es)"
  by (induction es) (simp_all add: olds_def)

lemma clean_old_file:
  assumes "clean_script hs" and "list_all clean_line tail"
  shows "list_all clean_line (old_file hs tail)"
proof -
  from assms(1) have "list_all clean_line (concat (map (\<lambda>h. gap h @ olds (edits h)) hs))"
    unfolding clean_script_def by (induction hs) (simp_all add: clean_olds del: list_all_append, simp add: clean_olds)
  with assms(2) show ?thesis by (simp add: old_file_def)
qed

lemma clean_line_no_cr: "clean_line l \<Longrightarrow> carriage_return \<notin> set l"
proof -
  assume "clean_line l"
  then have "l = butlast l @ [newline]" "carriage_return \<notin> set (butlast l)"
    by (auto simp: clean_line_def list_all_iff) (metis append_butlast_last_id)
  then show ?thesis by (metis Un_iff empty_iff list.set(1) list.simps(15) insert_iff line_break_newline(3) set_append)
qed

lemma artifact_lines_clean:
  assumes "artifact_bytes env a = Some (utf8_encode (concat ls))"
    and "au_decode env (utf8_encode (concat ls)) = Some (concat ls)" and "list_all clean_line ls"
  shows "artifact_lines env a = Inr (Some ls)"
proof -
  have "carriage_return \<notin> set (concat ls)"
    using assms(3) clean_line_no_cr by (auto simp: list_all_iff)
  then show ?thesis
    by (simp add: artifact_lines_def assms universal_newlines_id splitlines_keep_concat)
qed

text \<open>The three artifacts of a delta hold the texts of an edit script, with the digests the block names.\<close>

definition delta_stored :: "audit_env \<Rightarrow> json \<Rightarrow> hunk list \<Rightarrow> string list \<Rightarrow> string \<Rightarrow> string \<Rightarrow> bool" where
  "delta_stored env c hs tail old_name new_name =
     (let old = utf8_encode (concat (old_file hs tail)); delta = utf8_encode (concat (render_diff old_name new_name hs));
          new = utf8_encode (concat (new_file hs tail)) in
      (\<exists>b d f. resolve_artifact_uri env (fld ''base_uri'' c) = Inr (Some b) \<and>
         resolve_artifact_uri env (fld ''delta_uri'' c) = Inr (Some d) \<and>
         resolve_artifact_uri env (fld ''resolver_uri'' c) = Inr (Some f) \<and>
         artifact_bytes env b = Some old \<and> artifact_bytes env d = Some delta \<and> artifact_bytes env f = Some new) \<and>
      au_decode env old = Some (concat (old_file hs tail)) \<and>
      au_decode env delta = Some (concat (render_diff old_name new_name hs)) \<and>
      fld ''base_hash'' c = JStr (''sha256:'' @ au_sha env old) \<and>
      fld ''delta_hash'' c = JStr (''sha256:'' @ au_sha env delta) \<and>
      fld ''hash'' c = JStr (''sha256:'' @ au_sha env new) \<and> fld ''size_bytes'' c = JInt (int (length new)))"

lemma stored_delta_audited:
  assumes stored: "delta_stored env c hs tail a nm" and alg: "fld ''delta_algorithm'' c = JStr ''unified_diff''"
    and clean: "clean_script hs" "list_all clean_line tail"
      "list_all (\<lambda>c. \<not> line_break c) a" "list_all (\<lambda>c. \<not> line_break c) nm"
    and hunks: "\<forall>h \<in> set hs. olds (edits h) \<noteq> []"
  shows "audit_delta env c = Inr []" and "artifact_matches env c"
proof -
  let ?old = "utf8_encode (concat (old_file hs tail))" and ?delta = "utf8_encode (concat (render_diff a nm hs))"
    and ?new = "utf8_encode (concat (new_file hs tail))"
  from stored obtain b d f where
    u: "resolve_artifact_uri env (fld ''base_uri'' c) = Inr (Some b)"
       "resolve_artifact_uri env (fld ''delta_uri'' c) = Inr (Some d)"
       "resolve_artifact_uri env (fld ''resolver_uri'' c) = Inr (Some f)"
    and bytes: "artifact_bytes env b = Some ?old" "artifact_bytes env d = Some ?delta" "artifact_bytes env f = Some ?new"
    unfolding delta_stored_def Let_def by blast
  from stored have dec: "au_decode env ?old = Some (concat (old_file hs tail))"
      "au_decode env ?delta = Some (concat (render_diff a nm hs))"
    and hash: "fld ''base_hash'' c = JStr (''sha256:'' @ au_sha env ?old)"
      "fld ''delta_hash'' c = JStr (''sha256:'' @ au_sha env ?delta)"
      "fld ''hash'' c = JStr (''sha256:'' @ au_sha env ?new)" "fld ''size_bytes'' c = JInt (int (length ?new))"
    by (simp_all add: delta_stored_def Let_def)
  have "replay_delta env b d f = Inr []"
    using artifact_lines_clean [OF bytes(1) dec(1) clean_old_file [OF clean(1,2)]]
      artifact_lines_clean [OF bytes(2) dec(2) clean_render_diff [OF clean(1,3,4)]]
      apply_rendered [OF hunks]
    by (simp add: replay_delta_def bytes)
  then show "audit_delta env c = Inr []"
    using alg by (simp add: audit_delta_def u checks_Nil_iff verify_artifact_identity_def bytes hash)
  show "artifact_matches env c" by (simp add: artifact_matches_def u bytes hash)
qed

subsection \<open>Properties\<close>

text \<open>
  C11: The trace validator against the schema document \<open>docs/spec/tok_trace_schema_v0_1.tok.md\<close>: accepted blocks and documented blocks
  are the same, but for two lists of demands. The document demands and the validator does not check: digests without a newline
  behind them, the \<open>base_uri\<close> of a delta, the algorithm \<open>unified_diff\<close> for \<open>accept_delta\<close>, the types of the
  delta fields in a block that is no delta and of the reason, and that extensions are not null. The validator demands and the
  document does not: identifiers and keys that are not empty, turns, steps and sizes that are not negative, for a delta hash
  and size even when it is not exact, a delta URI that is not empty and an algorithm other than \<open>binary\<close>, reasons and local
  resolver URIs that are not empty, and extension names that are not empty.
\<close>

theorem trace_block_accepted_iff:
  "validate_trace_block b = Inr [] \<and> unchecked_demands b \<longleftrightarrow> documented_block b \<and> extra_demands b"
  unfolding trace_block_iff by (rule documented_iff)

text \<open>
  C39: The validator raises instead of reporting an error exactly when the four sections are dictionaries and one of the
  fields it looks up in a set holds a list or a dictionary.
\<close>

theorem trace_validator_raises_iff:
  "(\<exists>e. validate_trace_block b = Inl e) \<longleftrightarrow> sections_ok b \<and> \<not> list_all hashable (looked_up_fields b)"
  using isl_trace_block [of b] by (metis isl_def)

text \<open>
  Every accepted block satisfies the row of its expectation in the published invariant matrix (actions, result,
  exactness, resolver state, content identity, reason, and the warning for content that is not local).
\<close>

lemma invariant_matrix_enforced:
  assumes "validate_trace_block b = Inr []" and "fld ''expectation'' (fld ''audit'' b) = JStr e"
    and "map_of TRACE_INVARIANT_MATRIX e = Some row"
  shows "row_holds row b"
  using assms by (intro matrix_row_holds) (simp_all add: trace_block_iff)

text \<open>
  C19: The sequence audit reports nothing if and only if the block identifiers are distinct and, in every session, the
  positions (turn, step) never go back.
\<close>

theorem sequence_audit_silent_iff:
  "audit_sequence_consistency bs = [] \<longleftrightarrow> distinct (block_ids bs) \<and> (\<forall>s. monotone (positions s bs))"
  by (simp add: audit_sequence_consistency_def sequence_from_Nil latest_list_def)

text \<open>Extensions are outside the digest: adding, changing or removing them does not change it.\<close>

lemma extensions_not_covered:
  "is_dict b \<Longrightarrow> canonical_payload_digest sha (jset ''extensions'' x b) = canonical_payload_digest sha b"
  by (simp add: canonical_payload_digest_def)

text \<open>
  C4: What a passing audit guarantees: the validator accepts the block; its payload digest is the digest of its observation, content
  and audit, written as sorted compact JSON (the extensions, which the schema counts to the payload, are not covered: finding
  \<open>extensions_not_covered\<close>); its content is available locally or resolvable remotely; local content has the recorded
  digest and size; and a local delta replays on its base to exactly the stored bytes.
\<close>

theorem passing_audit_reproducible:
  assumes "audit_block env i b = Inr r" and "ar_status r = ''pass''"
  shows "validate_trace_block b = Inr [] \<and>
    (\<exists>ob c a. jget ''observation'' b = Some ob \<and> jget ''content'' b = Some c \<and> jget ''audit'' b = Some a \<and>
       fld ''payload_digest'' (fld ''envelope'' b) = JStr (''sha256:'' @ au_sha env (utf8_encode (dumps_text
         (JObj [(''observation'', ob), (''content'', c), (''audit'', a)]))))) \<and>
    fld ''resolver_state'' (fld ''audit'' b) \<in> {JStr ''available_local'', JStr ''resolvable_remote''} \<and>
    (fld ''resolver_state'' (fld ''audit'' b) = JStr ''available_local'' \<longrightarrow>
       artifact_matches env (fld ''content'' b) \<and>
       (fld ''action'' (fld ''observation'' b) = JStr ''delta'' \<longrightarrow> delta_replays env (fld ''content'' b)))"
proof -
  have nofail: "ar_status r \<noteq> ''fail''" using assms(2) by simp
  note pass = audit_block_pass [OF assms(1) nofail]
  have "one_of ALLOWED_RESOLVER_STATES (fld ''resolver_state'' (fld ''audit'' b))"
    using pass(1) by (simp add: trace_block_ok_def audit_ok_def Let_def)
  moreover have "resolver_warnings b = []" using pass(4) assms(2) by simp
  ultimately have "fld ''resolver_state'' (fld ''audit'' b) \<in> {JStr ''available_local'', JStr ''resolvable_remote''}"
    by (auto simp: resolver_warnings_def one_of_str ALLOWED_RESOLVER_STATES_def FALLBACK_RESOLVER_STATES_def Let_def
        split: if_splits)
  moreover have "\<exists>k. canonical_payload_digest (au_sha env) b = Inr k \<and> fld ''payload_digest'' (fld ''envelope'' b) = JStr k"
    using pass(3,4) assms(2) by simp
  then have "\<exists>ob c a. jget ''observation'' b = Some ob \<and> jget ''content'' b = Some c \<and> jget ''audit'' b = Some a \<and>
      fld ''payload_digest'' (fld ''envelope'' b) = JStr (''sha256:'' @ au_sha env (utf8_encode (dumps_text
        (JObj [(''observation'', ob), (''content'', c), (''audit'', a)]))))"
    by (auto simp: canonical_payload_digest_def split: option.splits)
  ultimately show ?thesis using pass(1) audit_artifacts_Nil [OF pass(2,1)] by (simp add: trace_block_iff)
qed

text \<open>
  C13: Deltas go the whole way. A block passes the audit when the validator accepts it; its payload digest is the digest of its
  observation, content and audit (extensions are not covered) and not the draft placeholder; its resolver state is
  \<open>available_local\<close> and its algorithm \<open>unified_diff\<close>; its base, delta and final URIs resolve to artifacts that hold, in UTF-8, the two sides of an edit
  script and the script rendered as a unified diff; the block records their digests and the size of the final one; every line of the
  script is ended by a newline and holds no other line break; the two file names of the diff hold no line break; and every
  hunk removes or keeps at least one line of the base.
\<close>

theorem rendered_delta_passes:
  assumes "validate_trace_block b = Inr []" and "canonical_payload_digest (au_sha env) b = Inr k"
    and "fld ''payload_digest'' (fld ''envelope'' b) = JStr k" and "k \<noteq> ''draft-uncomputed''"
    and "fld ''resolver_state'' (fld ''audit'' b) = JStr ''available_local''"
    and "fld ''delta_algorithm'' (fld ''content'' b) = JStr ''unified_diff''"
    and "delta_stored env (fld ''content'' b) hs tail old_name new_name"
    and "clean_script hs" and "list_all clean_line tail"
    and "list_all (\<lambda>c. \<not> line_break c) old_name" and "list_all (\<lambda>c. \<not> line_break c) new_name"
    and "\<forall>h \<in> set hs. olds (edits h) \<noteq> []"
  shows "audit_block env i b = Inr \<lparr>ar_id = i, ar_status = ''pass'', ar_errors = []\<rparr>"
proof -
  note delta = stored_delta_audited [OF assms(7,6,8-12)]
  have "audit_artifacts env b = Inr []"
    using delta by (auto simp: audit_artifacts_def Let_def assms(5) artifact_matches_def checks_Nil_iff
        verify_artifact_identity_def split: sum.splits option.splits)
  moreover have "validate_trace_block b = Inr []" by (rule assms(1))
  moreover have "audit_payload_digest (au_sha env) b = Inr ([], [])"
    using assms(2-4) by (simp add: audit_payload_digest_def)
  moreover have "resolver_warnings b = []" by (simp add: resolver_warnings_def assms(5) Let_def FALLBACK_RESOLVER_STATES_def)
  ultimately show ?thesis by (simp add: audit_block_def add_new_def)
qed

definition sample_hunks :: "hunk list" where
  "sample_hunks = [\<lparr>gap = [''a'' @ [newline]], edits = [Remove (''b'' @ [newline]), Insert (''c'' @ [newline])]\<rparr>]"

definition sample_audit_env :: audit_env where
  "sample_audit_env = \<lparr>au_sha = (\<lambda>_. sample_hex), au_dir = Some [''d''], au_join = (\<lambda>dir u. dir @ [u]),
     au_files = (\<lambda>p. if p = [''d'', ''base''] then Some (Some (utf8_encode (concat (old_file sample_hunks []))))
                  else if p = [''d'', ''delta''] then Some (Some (utf8_encode (concat (render_diff ''x'' ''y'' sample_hunks))))
                  else if p = [''d'', ''new''] then Some (Some (utf8_encode (concat (new_file sample_hunks []))))
                  else None),
     au_objects = (\<lambda>_. None), au_decode = Some\<rparr>"

definition sample_digest_text :: string where "sample_digest_text = ''sha256:'' @ sample_hex"

definition sample_block :: json where
  "sample_block = JObj
    [(''envelope'', JObj [(''trace_version'', JStr TRACE_VERSION), (''block_id'', JStr ''b''), (''session_id'', JStr ''s''),
       (''turn'', JInt 0), (''step'', JInt 0), (''direction'', JStr ''request''), (''payload_digest'', JStr sample_digest_text)]),
     (''observation'', JObj [(''class'', JStr ''file''), (''key'', JStr ''k''), (''action'', JStr ''delta''), (''result'', JStr ''ok'')]),
     (''content'', JObj [(''exact'', JBool True), (''hash'', JStr sample_digest_text), (''size_bytes'', JInt 4),
       (''resolver_uri'', JStr ''new''), (''base_uri'', JStr ''base''), (''delta_uri'', JStr ''tok-fixture://delta''),
       (''base_hash'', JStr sample_digest_text), (''delta_hash'', JStr sample_digest_text),
       (''delta_algorithm'', JStr ''unified_diff'')]),
     (''audit'', JObj [(''resolver_state'', JStr ''available_local''), (''expectation'', JStr ''accept_delta'')])]"

lemma invariant_matrix_enforced_witness:
  "row_holds (the (map_of TRACE_INVARIANT_MATRIX ''accept_delta'')) sample_block"
proof (rule invariant_matrix_enforced)
  show "validate_trace_block sample_block = Inr []" by code_simp
  show "fld ''expectation'' (fld ''audit'' sample_block) = JStr ''accept_delta''" by code_simp
  show "map_of TRACE_INVARIANT_MATRIX ''accept_delta'' = Some (the (map_of TRACE_INVARIANT_MATRIX ''accept_delta''))"
    by (simp add: TRACE_INVARIANT_MATRIX_def)
qed

theorem rendered_delta_passes_witness:
  "audit_block sample_audit_env ''id'' sample_block = Inr \<lparr>ar_id = ''id'', ar_status = ''pass'', ar_errors = []\<rparr>"
proof (rule rendered_delta_passes [where hs = sample_hunks and tail = "[]" and old_name = "''x''" and new_name = "''y''"])
  show "validate_trace_block sample_block = Inr []" by code_simp
  show "canonical_payload_digest (au_sha sample_audit_env) sample_block = Inr sample_digest_text" by code_simp
  show "fld ''payload_digest'' (fld ''envelope'' sample_block) = JStr sample_digest_text" by code_simp
  show "sample_digest_text \<noteq> ''draft-uncomputed''" by code_simp
  show "fld ''resolver_state'' (fld ''audit'' sample_block) = JStr ''available_local''" by code_simp
  show "fld ''delta_algorithm'' (fld ''content'' sample_block) = JStr ''unified_diff''" by code_simp
  have u: "resolve_artifact_uri sample_audit_env (fld ''base_uri'' (fld ''content'' sample_block)) = Inr (Some (FixtureFile [''d'', ''base'']))"
    "resolve_artifact_uri sample_audit_env (fld ''delta_uri'' (fld ''content'' sample_block)) = Inr (Some (FixtureFile [''d'', ''delta'']))"
    "resolve_artifact_uri sample_audit_env (fld ''resolver_uri'' (fld ''content'' sample_block)) = Inr (Some (FixtureFile [''d'', ''new'']))"
    by code_simp+
  have size: "length (utf8_encode (concat (new_file sample_hunks []))) = 4" by code_simp
  have c: "fld ''base_hash'' (fld ''content'' sample_block) = JStr (''sha256:'' @ sample_hex)"
    "fld ''delta_hash'' (fld ''content'' sample_block) = JStr (''sha256:'' @ sample_hex)"
    "fld ''hash'' (fld ''content'' sample_block) = JStr (''sha256:'' @ sample_hex)"
    "fld ''size_bytes'' (fld ''content'' sample_block) = JInt 4" by code_simp+
  have d: "utf8_encode (concat (old_file sample_hunks [])) = concat (old_file sample_hunks [])"
    "utf8_encode (concat (render_diff ''x'' ''y'' sample_hunks)) = concat (render_diff ''x'' ''y'' sample_hunks)"
    by code_simp+
  show "delta_stored sample_audit_env (fld ''content'' sample_block) sample_hunks [] ''x'' ''y''"
    using d by (simp add: delta_stored_def Let_def u c size artifact_bytes_def) (simp add: sample_audit_env_def)
  show "clean_script sample_hunks" by code_simp
  show "\<forall>h \<in> set sample_hunks. olds (edits h) \<noteq> []" by code_simp
  show "list_all (\<lambda>c. \<not> line_break c) ''x''" "list_all (\<lambda>c. \<not> line_break c) ''y''" by code_simp+
qed simp_all

theorem passing_audit_reproducible_witness:
  "validate_trace_block sample_block = Inr [] \<and>
    (\<exists>ob c a. jget ''observation'' sample_block = Some ob \<and> jget ''content'' sample_block = Some c \<and>
       jget ''audit'' sample_block = Some a \<and>
       fld ''payload_digest'' (fld ''envelope'' sample_block) = JStr (''sha256:'' @ au_sha sample_audit_env (utf8_encode (dumps_text
         (JObj [(''observation'', ob), (''content'', c), (''audit'', a)]))))) \<and>
    artifact_matches sample_audit_env (fld ''content'' sample_block) \<and>
    delta_replays sample_audit_env (fld ''content'' sample_block)"
proof -
  have r: "audit_block sample_audit_env ''id'' sample_block = Inr \<lparr>ar_id = ''id'', ar_status = ''pass'', ar_errors = []\<rparr>"
    by code_simp
  have f: "fld ''resolver_state'' (fld ''audit'' sample_block) = JStr ''available_local''"
    "fld ''action'' (fld ''observation'' sample_block) = JStr ''delta''" by code_simp+
  from passing_audit_reproducible [OF r] show ?thesis by (simp add: f)
qed

text \<open>A hash that ends in a newline is accepted, because \<open>$\<close> matches before it; and the auditor raises on a malformed block.\<close>

lemma hash_with_newline_accepted: "is_hash (JStr (sample_digest_text @ [newline]))"
  by code_simp

lemma malformed_envelope_raises:
  "audit_lines env (\<lambda>_. Some (JObj [(''envelope'', JInt 3)])) 1 [''x''] = Inl AttributeError"
proof -
  have blank: "\<not> blank_line ''x''" by code_simp
  have "line_id (JObj [(''envelope'', JInt 3)]) (JObj [(''envelope'', JInt 3)]) d = Inl AttributeError" for d
    by (simp add: line_id_def fld_def jget_or_def)
  then show ?thesis by (simp add: blank Let_def jget_or_def)
qed

end
