(* ===== verification/LiveTrace.thy ===== *)
theory LiveTrace
  imports TraceAudit
begin

section \<open>Live trace emission\<close>

text \<open>
  Models \<open>src/tok/spec/live_trace.py\<close>: the block the bridge writes for an event, the step counter, and a
  series of emissions. The digest, the UUID, the clock and the environment switches are arguments; writing
  the block to its file is not modelled.
\<close>

subsection \<open>Live emission\<close>

definition normalize_live_expectation :: "string \<Rightarrow> string \<Rightarrow> string \<Rightarrow> string" where
  "normalize_live_expectation action result expectation =
     (if action = ''pass_through'' \<and> result = ''ok'' \<and> expectation \<in> {''accept_fallback'', ''accept_reference''}
      then ''accept_pass_through'' else expectation)"

definition next_trace_step :: "string \<Rightarrow> int \<Rightarrow> int dict \<Rightarrow> int \<times> int dict" where
  "next_trace_step session_id time_ns latest =
     (let previous = (case map_of latest session_id of Some p \<Rightarrow> p | None \<Rightarrow> - 1);
          step = (if previous < time_ns then time_ns else previous + 1)
      in (step, dict_set session_id step latest))"

text \<open>The block the live emitter writes; \<open>payload\<close> is \<open>json.dumps(clean_metadata, sort_keys=True)\<close> in bytes.\<close>

fun dumps_default :: "json \<Rightarrow> string" where
  "dumps_default JNull = ''null''"
| "dumps_default (JBool b) = (if b then ''true'' else ''false'')"
| "dumps_default (JInt i) = int_str i"
| "dumps_default (JFloat t) = t"
| "dumps_default (JStr s) = dumps_str s"
| "dumps_default (JList xs) = ''['' @ join '', '' (map dumps_default xs) @ '']''"
| "dumps_default (JObj d) =
     ''{'' @ join '', '' (map (\<lambda>(k, t). dumps_str k @ '': '' @ t)
                       (sort_key fst (map (\<lambda>(k, v). (k, dumps_default v)) d))) @ ''}''"

definition live_session_id :: "(string \<Rightarrow> string) \<Rightarrow> string \<Rightarrow> string \<Rightarrow> string" where
  "live_session_id sha instance_id key = ''live:'' @ take 24 (sha (utf8_encode (instance_id @ '':'' @ key)))"

definition name_char :: "char \<Rightarrow> bool" where
  "name_char c = (let n = (of_char c :: nat) in (48 \<le> n \<and> n \<le> 57) \<or> (65 \<le> n \<and> n \<le> 90) \<or> (97 \<le> n \<and> n \<le> 122) \<or>
     n = 95 \<or> n = 46 \<or> n = 45)"

text \<open>\<open>re.sub("[^A-Za-z0-9_.-]+", "_", value)\<close>: a run of other characters becomes one underscore.\<close>

fun replace_runs :: "bool \<Rightarrow> string \<Rightarrow> string" where
  "replace_runs in_run [] = []"
| "replace_runs in_run (c # cs) =
     (if name_char c then c # replace_runs False cs
      else if in_run then replace_runs True cs
      else CHR ''_'' # replace_runs True cs)"

definition safe_name :: "string \<Rightarrow> string" where
  "safe_name v = (let s = strip_by (\<lambda>c. c = CHR ''_'') (replace_runs False v) in if s = [] then ''default'' else s)"

definition artifact_uri_of :: "(string \<Rightarrow> string) \<Rightarrow> bool \<Rightarrow> string \<Rightarrow> string \<Rightarrow> string option" where
  "artifact_uri_of sha capture event payload =
     (if \<not> capture then None
      else Some (''artifacts/'' @ safe_name event @ ''_'' @ take 16 (sha payload) @ ''.json''))"

record live_claim =
  lc_event :: string
  lc_class :: string
  lc_action :: string
  lc_result :: string
  lc_expectation :: string
  lc_reason :: string
  lc_direction :: string

definition live_block_body :: "live_claim \<Rightarrow> string \<Rightarrow> string option \<Rightarrow> string \<Rightarrow> (string \<times> json) list" where
  "live_block_body claim payload uri hash =
    [(''observation'', JObj
       [(''class'', JStr (lc_class claim)), (''key'', JStr (''live:'' @ lc_event claim)),
        (''action'', JStr (lc_action claim)), (''result'', JStr (lc_result claim))]),
     (''content'', JObj
       ([(''exact'', JBool False), (''hash'', JStr (''sha256:'' @ hash)), (''size_bytes'', JInt (int (length payload)))] @
        (case uri of None \<Rightarrow> [] | Some u \<Rightarrow> [(''resolver_uri'', JStr u)]))),
     (''audit'', JObj
       [(''resolver_state'', JStr (if uri \<noteq> None then ''available_local'' else ''missing_identifiable'')),
        (''expectation'', JStr (normalize_live_expectation (lc_action claim) (lc_result claim) (lc_expectation claim))),
        (''reason'', JStr (if uri = None then lc_reason claim
                          else lc_reason claim @ ''; sanitized metadata artifact captured''))])]"

definition build_live_trace_block ::
    "(string \<Rightarrow> string) \<Rightarrow> string \<Rightarrow> string \<Rightarrow> string \<Rightarrow> int \<Rightarrow> int \<Rightarrow> bool \<Rightarrow> json \<Rightarrow> json option \<Rightarrow> live_claim \<Rightarrow> json py" where
  "build_live_trace_block sha uuid instance_id key turn step capture metadata safety claim =
     (let payload = dumps_default metadata;
          uri = artifact_uri_of sha capture (lc_event claim) payload;
          body = live_block_body claim payload uri (sha payload);
          envelope =
            [(''trace_version'', JStr TRACE_VERSION), (''block_id'', JStr (''live-'' @ uuid)),
             (''session_id'', JStr (live_session_id sha instance_id key)), (''turn'', JInt (max 0 turn)),
             (''step'', JInt step), (''direction'', JStr (lc_direction claim))];
          extensions = (''extensions'', JObj ([(''tok.live'', JObj
             [(''event'', JStr (lc_event claim)), (''client_session_key'', JStr key),
              (''trace_instance_id'', JStr instance_id), (''metadata'', metadata)])] @
             (case safety of None \<Rightarrow> [] | Some s \<Rightarrow> [(''tok.evidence_safety'', s)])))
      in bind_py (canonical_payload_digest sha (JObj ((''envelope'', JObj envelope) # body @ [extensions]))) (\<lambda>digest.
           if digest = ''draft-uncomputed'' then Inl RuntimeError
           else Inr (JObj ((''envelope'', JObj (dict_set ''payload_digest'' (JStr digest) envelope)) #
                           body @ [extensions]))))"

text \<open>The claims that can be made of inexact metadata.\<close>

definition live_row :: "string \<Rightarrow> string \<Rightarrow> string \<Rightarrow> bool" where
  "live_row action result e =
     (e \<in> {''reject_malformed'', ''accept_non_exact_reference'', ''accept_pass_through'', ''accept_fallback''} \<and>
      (e = ''reject_malformed'' \<longrightarrow> result = ''rejected'') \<and>
      (e = ''accept_non_exact_reference'' \<longrightarrow> action \<in> set NON_EXACT_REFERENCE_ACTIONS) \<and>
      (e = ''accept_pass_through'' \<longrightarrow> action = ''pass_through'' \<and> result = ''ok'') \<and>
      (e = ''accept_fallback'' \<longrightarrow> action = ''fallback'' \<or> result \<in> set FALLBACK_RESULTS))"

definition live_claim_ok :: "live_claim \<Rightarrow> bool \<Rightarrow> bool" where
  "live_claim_ok claim captured =
     (lc_class claim \<in> set ALLOWED_CLASSES \<and> lc_action claim \<in> set ALLOWED_ACTIONS \<and> lc_action claim \<noteq> ''delta'' \<and>
      lc_result claim \<in> set ALLOWED_RESULTS \<and> lc_direction claim \<in> set ALLOWED_DIRECTIONS \<and>
      (captured \<or> lc_reason claim \<noteq> []) \<and>
      live_row (lc_action claim) (lc_result claim)
        (normalize_live_expectation (lc_action claim) (lc_result claim) (lc_expectation claim)))"

subsection \<open>Live blocks are accepted\<close>

lemma is_hash_sha: "hash_text (''sha256:'' @ h) \<Longrightarrow> is_hash (JStr (''sha256:'' @ h))"
  by (simp add: is_hash_def)

lemma build_live_cases:
  assumes "build_live_trace_block sha uuid inst key turn step capture metadata safety claim = Inr b"
  obtains t where
    "fld ''envelope'' b = JObj [(''trace_version'', JStr TRACE_VERSION), (''block_id'', JStr (''live-'' @ uuid)),
       (''session_id'', JStr (live_session_id sha inst key)), (''turn'', JInt (max 0 turn)), (''step'', JInt step),
       (''direction'', JStr (lc_direction claim)), (''payload_digest'', JStr (''sha256:'' @ sha t))]"
    and "canonical_payload_digest sha b = Inr (''sha256:'' @ sha t)"
    and "fld ''observation'' b = JObj
       [(''class'', JStr (lc_class claim)), (''key'', JStr (''live:'' @ lc_event claim)),
        (''action'', JStr (lc_action claim)), (''result'', JStr (lc_result claim))]"
    and "fld ''content'' b = JObj
       ([(''exact'', JBool False), (''hash'', JStr (''sha256:'' @ sha (dumps_default metadata))),
         (''size_bytes'', JInt (int (length (dumps_default metadata))))] @
        (case artifact_uri_of sha capture (lc_event claim) (dumps_default metadata) of None \<Rightarrow> []
         | Some u \<Rightarrow> [(''resolver_uri'', JStr u)]))"
    and "fld ''audit'' b = JObj
       [(''resolver_state'', JStr (if capture then ''available_local'' else ''missing_identifiable'')),
        (''expectation'', JStr (normalize_live_expectation (lc_action claim) (lc_result claim) (lc_expectation claim))),
        (''reason'', JStr (if \<not> capture then lc_reason claim
                          else lc_reason claim @ ''; sanitized metadata artifact captured''))]"
    and "extensions_ok (fld ''extensions'' b) \<longleftrightarrow> (case safety of None \<Rightarrow> True | Some s \<Rightarrow> is_dict s)"
proof -
  obtain t where "canonical_payload_digest sha
     (JObj ((''envelope'', e) # live_block_body claim (dumps_default metadata)
        (artifact_uri_of sha capture (lc_event claim) (dumps_default metadata)) (sha (dumps_default metadata)) @ [x])) =
     Inr (''sha256:'' @ sha t)" for e x
    by (simp add: canonical_payload_digest_def live_block_body_def)
  then show ?thesis
    using assms
    by (intro that [of t]) (auto simp: build_live_trace_block_def Let_def fld_JObj live_block_body_def dict_set_def
        artifact_uri_of_def extensions_ok_def CORE_SECTION_NAMES_def split: option.split)
qed

lemma live_audit_ok:
  "audit_ok (JStr act) (JStr res) c
     (JObj [(''resolver_state'', JStr (if capture then ''available_local'' else ''missing_identifiable'')),
            (''expectation'', JStr e), (''reason'', JStr r)]) \<longleftrightarrow>
   e \<in> set ALLOWED_EXPECTATIONS \<and>
   expectation_ok (JStr act) (JStr res) c (JStr (if capture then ''available_local'' else ''missing_identifiable'')) e \<and>
   (\<not> capture \<or> act = ''fallback'' \<or> res \<in> set FALLBACK_RESULTS \<longrightarrow> r \<noteq> []) \<and>
   (capture \<longrightarrow> truthy (fld ''resolver_uri'' c) \<and> identified c)"
  by (auto simp: audit_ok_def fld_JObj Let_def ALLOWED_RESOLVER_STATES_def fallback_claim_def)


lemma live_content_ok:
  fixes uri :: "string option"
  assumes "hash_text (''sha256:'' @ h)"
    and "c = JObj ([(''exact'', JBool False), (''hash'', JStr (''sha256:'' @ h)), (''size_bytes'', JInt (int n))] @
        (case uri of None \<Rightarrow> [] | Some u \<Rightarrow> [(''resolver_uri'', JStr u)]))"
  shows "content_ok (JStr act) c \<longleftrightarrow> act \<noteq> ''delta''" and "identified c" and "fld ''exact'' c = JBool False"
proof -
  have get: "jget ''hash'' c = Some (JStr (''sha256:'' @ h))" "jget ''size_bytes'' c = Some (JInt (int n))"
    "jget ''exact'' c = Some (JBool False)" "jget ''base_hash'' c = None"
    "jget ''resolver_uri'' c = map_option JStr uri"
    by (simp_all add: assms(2) split: option.split)
  then have fld: "fld ''hash'' c = JStr (''sha256:'' @ h)" "fld ''size_bytes'' c = JInt (int n)"
    "fld ''base_hash'' c = JNull"
    by (simp_all add: fld_def jget_or_def)
  show exact: "fld ''exact'' c = JBool False" using get by (simp add: fld_def jget_or_def)
  show ident: "identified c"
    using fld is_hash_sha [OF assms(1)] by (simp add: identified_def is_nonnegative_int_def)
  have "\<not> present_and ''hash'' c (\<lambda>v. \<not> is_hash v)" "\<not> present_and ''size_bytes'' c (\<lambda>v. \<not> is_nonnegative_int v)"
    "\<not> present_and ''resolver_uri'' c (\<lambda>v. \<not> is_str v)"
    using get is_hash_sha [OF assms(1)] by (auto simp: present_and_def is_nonnegative_int_def split: option.split)
  moreover have "\<not> is_hash JNull" "is_bool (JBool False)" by (simp_all add: is_hash_def is_bool_def)
  ultimately show "content_ok (JStr act) c \<longleftrightarrow> act \<noteq> ''delta''"
    using ident by (simp add: content_ok_def exact fld)
qed

lemma live_expectation_ok:
  assumes "e \<in> set ALLOWED_EXPECTATIONS" and "fld ''exact'' c = JBool False"
  shows "expectation_ok (JStr act) (JStr res) c (JStr (if capture then ''available_local'' else ''missing_identifiable'')) e \<longleftrightarrow>
    live_row act res e"
proof -
  have "e \<in> {''accept_exact'', ''accept_reference'', ''accept_pass_through'', ''accept_delta'', ''accept_fallback'',
     ''reject_malformed'', ''accept_non_exact_reference''}"
    using assms(1) by (simp add: ALLOWED_EXPECTATIONS_def)
  then show ?thesis
    by (elim insertE) (simp_all add: expectation_ok_def assms(2) fallback_claim_def live_row_def)
qed

lemma live_block_iff:
  assumes sha: "\<And>t. hash_text (''sha256:'' @ sha t)" and step: "0 \<le> step"
    and safety: "\<forall>s. safety = Some s \<longrightarrow> is_dict s"
    and b: "build_live_trace_block sha uuid inst key turn step capture metadata safety claim = Inr b"
  shows "trace_block_ok b \<longleftrightarrow> live_claim_ok claim capture"
proof -
  let ?act = "lc_action claim" and ?res = "lc_result claim"
  define e where "e = normalize_live_expectation ?act ?res (lc_expectation claim)"
  define uri where "uri = artifact_uri_of sha capture (lc_event claim) (dumps_default metadata)"
  have uri: "uri = None \<longleftrightarrow> \<not> capture" by (simp add: uri_def artifact_uri_of_def)
  have uri': "capture \<longrightarrow> (\<exists>u. uri = Some (CHR ''a'' # u))" by (simp add: uri_def artifact_uri_of_def)
  from b obtain t where
    env: "fld ''envelope'' b = JObj [(''trace_version'', JStr TRACE_VERSION), (''block_id'', JStr (''live-'' @ uuid)),
       (''session_id'', JStr (live_session_id sha inst key)), (''turn'', JInt (max 0 turn)), (''step'', JInt step),
       (''direction'', JStr (lc_direction claim)), (''payload_digest'', JStr (''sha256:'' @ sha t))]"
    and ob: "fld ''observation'' b = JObj
       [(''class'', JStr (lc_class claim)), (''key'', JStr (''live:'' @ lc_event claim)),
        (''action'', JStr ?act), (''result'', JStr ?res)]"
    and con: "fld ''content'' b = JObj
       ([(''exact'', JBool False), (''hash'', JStr (''sha256:'' @ sha (dumps_default metadata))),
         (''size_bytes'', JInt (int (length (dumps_default metadata))))] @
        (case uri of None \<Rightarrow> [] | Some u \<Rightarrow> [(''resolver_uri'', JStr u)]))"
    and aud: "fld ''audit'' b = JObj
       [(''resolver_state'', JStr (if capture then ''available_local'' else ''missing_identifiable'')),
        (''expectation'', JStr e),
        (''reason'', JStr (if \<not> capture then lc_reason claim
                          else lc_reason claim @ ''; sanitized metadata artifact captured''))]"
    and ext: "extensions_ok (fld ''extensions'' b)"
    unfolding e_def uri_def by (rule build_live_cases) (use safety in \<open>auto split: option.splits\<close>)
  have sections: "sections_ok b" by (simp add: sections_ok_def env ob con aud)
  have envelope: "envelope_ok (fld ''envelope'' b) \<longleftrightarrow> lc_direction claim \<in> set ALLOWED_DIRECTIONS"
    unfolding env using step is_hash_sha [OF sha, of t]
    by (simp add: envelope_ok_def fld_JObj nonempty_str_def is_nonnegative_int_def live_session_id_def)
  have observation: "observation_ok (fld ''observation'' b) \<longleftrightarrow>
      lc_class claim \<in> set ALLOWED_CLASSES \<and> ?act \<in> set ALLOWED_ACTIONS \<and> ?res \<in> set ALLOWED_RESULTS"
    unfolding ob by (auto simp: observation_ok_def fld_JObj nonempty_str_def)
  note content = live_content_ok [OF sha con]
  note exact = content(3)
  have resolver: "capture \<longrightarrow> truthy (fld ''resolver_uri'' (fld ''content'' b))"
    using uri' by (auto simp: con fld_JObj)
  have audit: "audit_ok (JStr ?act) (JStr ?res) (fld ''content'' b) (fld ''audit'' b) \<longleftrightarrow>
      e \<in> set ALLOWED_EXPECTATIONS \<and>
      expectation_ok (JStr ?act) (JStr ?res) (fld ''content'' b)
        (JStr (if capture then ''available_local'' else ''missing_identifiable'')) e \<and>
      (capture \<or> lc_reason claim \<noteq> [])"
    unfolding aud live_audit_ok using resolver content(2) by auto
  have row: "live_row ?act ?res e \<Longrightarrow> e \<in> set ALLOWED_EXPECTATIONS"
    by (auto simp: live_row_def ALLOWED_EXPECTATIONS_def)
  have expect: "e \<in> set ALLOWED_EXPECTATIONS \<Longrightarrow> expectation_ok (JStr ?act) (JStr ?res) (fld ''content'' b)
        (JStr (if capture then ''available_local'' else ''missing_identifiable'')) e \<longleftrightarrow> live_row ?act ?res e"
    by (rule live_expectation_ok [OF _ exact])
  have audit': "audit_ok (JStr ?act) (JStr ?res) (fld ''content'' b) (fld ''audit'' b) \<longleftrightarrow>
      live_row ?act ?res e \<and> (capture \<or> lc_reason claim \<noteq> [])"
    unfolding audit using row expect by argo
  have act: "fld ''action'' (fld ''observation'' b) = JStr ?act" "fld ''result'' (fld ''observation'' b) = JStr ?res"
    by (simp_all add: ob fld_JObj)
  show ?thesis
    unfolding trace_block_ok_def Let_def act envelope observation content(1) audit' live_claim_ok_def e_def [symmetric]
    using sections ext by argo
qed

subsection \<open>A sequence of live emissions\<close>

record live_call =
  call_uuid :: string
  call_instance :: string
  call_key :: string
  call_turn :: int
  call_time :: int
  call_capture :: bool
  call_metadata :: json
  call_safety :: "json option"
  call_claim :: live_claim

definition call_session :: "(string \<Rightarrow> string) \<Rightarrow> live_call \<Rightarrow> string" where
  "call_session sha c = live_session_id sha (call_instance c) (call_key c)"

fun emit_live :: "(string \<Rightarrow> string) \<Rightarrow> live_call list \<Rightarrow> int dict \<Rightarrow> json list py" where
  "emit_live sha [] latest = Inr []"
| "emit_live sha (c # cs) latest =
     (let (step, latest') = next_trace_step (call_session sha c) (call_time c) latest in
      bind_py (build_live_trace_block sha (call_uuid c) (call_instance c) (call_key c) (call_turn c) step
                 (call_capture c) (call_metadata c) (call_safety c) (call_claim c)) (\<lambda>b.
      bind_py (emit_live sha cs latest') (\<lambda>bs. Inr (b # bs))))"

lemma emitted_envelope:
  assumes "build_live_trace_block sha uuid inst key turn step capture metadata safety claim = Inr b"
  shows "is_dict (fld ''envelope'' b)" and "block_id_of (fld ''envelope'' b) = Some (''live-'' @ uuid)"
    and "position_of (fld ''envelope'' b) = Some (live_session_id sha inst key, max 0 turn, step)"
  using assms
  by (rule build_live_cases; simp add: block_id_of_def position_of_def fld_JObj int_of_def)+

lemma emitted_ids:
  "emit_live sha cs latest = Inr bs \<Longrightarrow> block_ids bs = map (\<lambda>c. ''live-'' @ call_uuid c) cs"
proof (induction cs arbitrary: latest bs)
  case Nil
  then show ?case by (simp add: block_ids_def envelopes_def List.map_filter_simps)
next
  case (Cons c cs)
  then show ?case
    by (auto simp: bind_py_Inr_iff block_ids_Cons emitted_envelope split: prod.splits)
qed

definition session_turns :: "(string \<Rightarrow> string) \<Rightarrow> string \<Rightarrow> live_call list \<Rightarrow> int list" where
  "session_turns sha s cs = map (\<lambda>c. max 0 (call_turn c)) (filter (\<lambda>c. call_session sha c = s) cs)"

lemma emitted_positions:
  "emit_live sha cs latest = Inr bs \<Longrightarrow>
     map fst (positions s bs) = session_turns sha s cs \<and>
     sorted_wrt (<) (latest_list (map_of latest s) @ map snd (positions s bs))"
proof (induction cs arbitrary: latest bs)
  case Nil
  then show ?case
    by (simp add: positions_def envelopes_def List.map_filter_simps session_turns_def latest_list_def split: option.split)
next
  case (Cons c cs)
  obtain step latest' where st: "next_trace_step (call_session sha c) (call_time c) latest = (step, latest')" by fastforce
  have later: "\<forall>q. map_of latest (call_session sha c) = Some q \<longrightarrow> q < step"
    and new: "latest' = dict_set (call_session sha c) step latest"
    using st by (auto simp: next_trace_step_def Let_def split: if_splits)
  obtain b bs' where b: "build_live_trace_block sha (call_uuid c) (call_instance c) (call_key c) (call_turn c) step
                 (call_capture c) (call_metadata c) (call_safety c) (call_claim c) = Inr b"
    and bs': "emit_live sha cs latest' = Inr bs'" and bs: "bs = b # bs'"
    using Cons.prems st by (auto simp: bind_py_Inr_iff)
  have pos: "positions s bs = (if call_session sha c = s then [(max 0 (call_turn c), step)] else []) @ positions s bs'"
    using emitted_envelope [OF b] by (simp add: bs positions_Cons call_session_def)
  from Cons.IH [OF bs'] later show ?case
    unfolding pos new by (auto simp: latest_list_def session_turns_def split: option.splits)
qed

lemma positions_monotone:
  assumes "sorted (map fst ps)" and "sorted_wrt (<) (map snd ps)"
  shows "monotone ps"
  using assms unfolding monotone_def sorted_wrt_map
  by (induction ps) (auto simp: before_def)

lemma emitted_sequence:
  assumes "emit_live sha cs [] = Inr bs" and "distinct (map call_uuid cs)"
    and "\<forall>s. sorted (session_turns sha s cs)"
  shows "audit_sequence_consistency bs = []"
proof -
  have "monotone (positions s bs)" for s
    using emitted_positions [OF assms(1), of s] assms(3)
    by (intro positions_monotone) (simp_all add: latest_list_def)
  moreover have "distinct (block_ids bs)"
    using assms(2) by (simp add: emitted_ids [OF assms(1)] distinct_map inj_on_def)
  ultimately show ?thesis
    by (simp add: audit_sequence_consistency_def sequence_from_Nil latest_list_def)
qed


subsection \<open>Properties\<close>

text \<open>
  A live emission always yields a block, and the auditor's validator accepts it exactly when the caller's claim is
  one that inexact metadata can support (allowed class, action, result and direction, a row of the matrix
  that does not need exact content, and a reason unless an artifact was captured).
\<close>

lemma live_block_accepted_iff:
  assumes "\<And>t. hash_text (''sha256:'' @ sha t)" and "0 \<le> step" and "\<forall>s. safety = Some s \<longrightarrow> is_dict s"
  shows "\<exists>b. build_live_trace_block sha uuid inst key turn step capture metadata safety claim = Inr b \<and>
    (validate_trace_block b = Inr [] \<longleftrightarrow> live_claim_ok claim capture)"
proof -
  obtain b where "build_live_trace_block sha uuid inst key turn step capture metadata safety claim = Inr b"
    by (simp add: build_live_trace_block_def Let_def canonical_payload_digest_def live_block_body_def)
  with live_block_iff [OF assms this] show ?thesis by (simp add: trace_block_iff)
qed

definition sample_claim :: live_claim where
  "sample_claim = \<lparr>lc_event = ''bridge request'', lc_class = ''message'', lc_action = ''pass_through'', lc_result = ''ok'',
     lc_expectation = ''accept_reference'', lc_reason = ''unchanged'', lc_direction = ''request''\<rparr>"

lemma live_block_accepted_iff_witness:
  "\<exists>b. build_live_trace_block (\<lambda>_. sample_hex) ''u'' ''i'' ''k'' 3 7 True (JObj []) None sample_claim = Inr b \<and>
    (validate_trace_block b = Inr [] \<longleftrightarrow> live_claim_ok sample_claim True)"
proof (rule live_block_accepted_iff)
  show "hash_text (''sha256:'' @ sample_hex)" for t :: string by code_simp
qed simp_all

text \<open>
  C20: The blocks the emitter writes form a sequence the auditor accepts, whatever the clock does: with distinct UUIDs and
  turns that do not go back within a session, the sequence audit reports nothing.
\<close>

theorem emitted_sequence_accepted:
  assumes "emit_live sha cs [] = Inr bs" and "distinct (map call_uuid cs)"
    and "\<forall>s. sorted (session_turns sha s cs)"
  shows "audit_sequence_consistency bs = []"
  by (rule emitted_sequence [OF assms])

definition sample_live_call :: "string \<Rightarrow> int \<Rightarrow> live_call" where
  "sample_live_call uuid time = \<lparr>call_uuid = uuid, call_instance = ''i'', call_key = ''k'', call_turn = 1, call_time = time,
     call_capture = False, call_metadata = JNull, call_safety = None, call_claim = sample_claim\<rparr>"

definition sample_calls :: "live_call list" where
  "sample_calls = [sample_live_call ''a'' 100, sample_live_call ''b'' 90, sample_live_call ''c'' 100]"

theorem emitted_sequence_accepted_witness:
  "audit_sequence_consistency (projr (emit_live (\<lambda>_. sample_hex) sample_calls [])) = []"
proof -
  have "isl (emit_live (\<lambda>_. sample_hex) sample_calls []) = False" by code_simp
  then obtain bs where bs: "emit_live (\<lambda>_. sample_hex) sample_calls [] = Inr bs"
    by (cases "emit_live (\<lambda>_. sample_hex) sample_calls []") auto
  have sorted: "sorted (session_turns sha s sample_calls)" for sha s
    by (simp add: session_turns_def sample_calls_def sample_live_call_def)
  have dist: "distinct (map call_uuid sample_calls)" by (simp add: sample_calls_def sample_live_call_def)
  show ?thesis using emitted_sequence_accepted [OF bs dist] sorted by (simp add: bs)
qed

end
