(* ===== verification/MacroIR.thy ===== *)
theory MacroIR
  imports PyText
begin

section \<open>Macros: instructions, registry and execution\<close>

text \<open>
  Models \<open>src/tok/macros/ir.py\<close>: instructions and macros with their dictionary forms, the registry with its
  duplicate tests, decay and loading, and \<open>execute_ir\<close>. A float is its text, as in the JSON model; the
  quotient of two integers as a float, the clock and the age of a time stamp are arguments. Locks are not
  modelled: each locked operation is one step. Python's recursion limit is the depth argument of
  \<open>execute_ir\<close>, and exceeding it raises \<open>RecursionError\<close>, a \<open>RuntimeError\<close>.
\<close>

subsection \<open>Data\<close>

record instruction =
  ins_op :: string
  ins_args :: "json list"
  ins_target :: "string option"

record provenance =
  source_code :: "string option"
  source_file :: "string option"
  composed_of :: "string list"

record macro =
  macro_name :: string
  instructions :: "instruction list"
  macro_inputs :: "string list"
  macro_provenance :: "provenance option"
  hit_count :: int
  last_seen :: "string option"
  is_durable :: bool
  lifetime_savings :: int
  avg_tokens_per_use :: string
  context_requirements :: "string dict"

definition ops_of :: "macro \<Rightarrow> string list" where
  "ops_of m = map ins_op (instructions m)"

subsection \<open>Dictionary forms\<close>

definition opt_str :: "string option \<Rightarrow> json" where
  "opt_str x = (case x of None \<Rightarrow> JNull | Some s \<Rightarrow> JStr s)"

definition instruction_to_dict :: "instruction \<Rightarrow> json" where
  "instruction_to_dict i = JObj [(''op'', JStr (ins_op i)), (''args'', JList (ins_args i)), (''target'', opt_str (ins_target i))]"

definition provenance_to_dict :: "provenance \<Rightarrow> json" where
  "provenance_to_dict p = JObj [(''source_code'', opt_str (source_code p)), (''composed_of'', JList (map JStr (composed_of p)))]"

definition macro_to_dict :: "macro \<Rightarrow> json" where
  "macro_to_dict m = JObj
    [(''name'', JStr (macro_name m)),
     (''instructions'', JList (map instruction_to_dict (instructions m))),
     (''inputs'', JList (map JStr (macro_inputs m))),
     (''provenance'', (case macro_provenance m of Some p \<Rightarrow> provenance_to_dict p | None \<Rightarrow> JNull)),
     (''hit_count'', JInt (hit_count m)),
     (''last_seen'', opt_str (last_seen m)),
     (''is_durable'', JBool (is_durable m)),
     (''lifetime_savings'', JInt (lifetime_savings m)),
     (''avg_tokens_per_use'', JFloat (avg_tokens_per_use m)),
     (''context_requirements'', JObj (map (\<lambda>(k, v). (k, JStr v)) (context_requirements m)))]"

text \<open>
  The readers on values of the declared types; a value of another type makes the code coerce it or raise, and
  gives \<open>None\<close> here, as does a missing required key (\<open>KeyError\<close>). \<open>float_text\<close> is the text of \<open>float(i)\<close>.
\<close>

fun str_value :: "json \<Rightarrow> string option" where
  "str_value (JStr s) = Some s"
| "str_value _ = None"

fun opt_str_value :: "json \<Rightarrow> string option option" where
  "opt_str_value JNull = Some None"
| "opt_str_value (JStr s) = Some (Some s)"
| "opt_str_value _ = None"

fun list_value :: "json \<Rightarrow> json list option" where
  "list_value (JList xs) = Some xs"
| "list_value _ = None"

fun int_value :: "json \<Rightarrow> int option" where
  "int_value (JInt i) = Some i"
| "int_value _ = None"

fun bool_value :: "json \<Rightarrow> bool option" where
  "bool_value (JBool b) = Some b"
| "bool_value _ = None"

fun float_value :: "(int \<Rightarrow> string) \<Rightarrow> json \<Rightarrow> string option" where
  "float_value float_text (JFloat t) = Some t"
| "float_value float_text (JInt i) = Some (float_text i)"
| "float_value float_text _ = None"

definition strs_value :: "json \<Rightarrow> string list option" where
  "strs_value j = Option.bind (list_value j) (\<lambda>xs. all_some (map str_value xs))"

fun str_entry :: "string \<times> json \<Rightarrow> (string \<times> string) option" where
  "str_entry (k, JStr v) = Some (k, v)"
| "str_entry _ = None"

definition str_dict_value :: "json \<Rightarrow> string dict option" where
  "str_dict_value j = (case j of JNull \<Rightarrow> Some [] | JObj d \<Rightarrow> all_some (map str_entry d) | _ \<Rightarrow> None)"

definition instruction_from_dict :: "json \<Rightarrow> instruction option" where
  "instruction_from_dict d =
     Option.bind (jget ''op'' d) (\<lambda>opj. Option.bind (str_value opj) (\<lambda>nm.
     Option.bind (jget ''args'' d) (\<lambda>aj. Option.bind (list_value aj) (\<lambda>args.
     Option.bind (opt_str_value (jget_or ''target'' JNull d)) (\<lambda>tgt.
     Some \<lparr>ins_op = nm, ins_args = args, ins_target = tgt\<rparr>)))))"

definition provenance_from_dict :: "json \<Rightarrow> provenance option" where
  "provenance_from_dict d =
     Option.bind (opt_str_value (jget_or ''source_code'' JNull d)) (\<lambda>code.
     Option.bind (opt_str_value (jget_or ''source_file'' JNull d)) (\<lambda>path.
     Option.bind (strs_value (jget_or ''composed_of'' (JList []) d)) (\<lambda>parts.
     Some \<lparr>source_code = code, source_file = path, composed_of = parts\<rparr>)))"

definition macro_from_dict :: "(int \<Rightarrow> string) \<Rightarrow> json \<Rightarrow> macro option" where
  "macro_from_dict float_text d =
     Option.bind (Option.bind (jget ''name'' d) str_value) (\<lambda>name.
     Option.bind (Option.bind (jget ''instructions'' d) list_value) (\<lambda>ijs.
     Option.bind (all_some (map instruction_from_dict ijs)) (\<lambda>is.
     Option.bind (Option.bind (jget ''inputs'' d) strs_value) (\<lambda>inputs.
     Option.bind (let p = jget_or ''provenance'' JNull d in
                  if truthy p then map_option Some (provenance_from_dict p) else Some None) (\<lambda>prov.
     Option.bind (int_value (jget_or ''hit_count'' (JInt 1) d)) (\<lambda>hits.
     Option.bind (opt_str_value (jget_or ''last_seen'' JNull d)) (\<lambda>seen.
     Option.bind (bool_value (jget_or ''is_durable'' (JBool False) d)) (\<lambda>durable.
     Option.bind (int_value (jget_or ''lifetime_savings'' (JInt 0) d)) (\<lambda>savings.
     Option.bind (float_value float_text (jget_or ''avg_tokens_per_use'' (JFloat ''0.0'') d)) (\<lambda>avg.
     Option.bind (str_dict_value (jget_or ''context_requirements'' JNull d)) (\<lambda>ctx.
     Some \<lparr>macro_name = name, instructions = is, macro_inputs = inputs, macro_provenance = prov, hit_count = hits,
           last_seen = seen, is_durable = durable, lifetime_savings = savings, avg_tokens_per_use = avg,
           context_requirements = ctx\<rparr>)))))))))))"

subsection \<open>The registry\<close>

type_synonym registry = "macro dict"

definition same_instructions :: "instruction list \<Rightarrow> instruction list \<Rightarrow> bool" where
  "same_instructions is js =
     list_all2 (\<lambda>i j. ins_op i = ins_op j \<and> py_eq_list (ins_args i) (ins_args j) \<and> ins_target i = ins_target j) is js"

definition is_duplicate :: "macro \<Rightarrow> macro \<Rightarrow> bool" where
  "is_duplicate m1 m2 =
     (same_instructions (instructions m1) (instructions m2) \<and> macro_inputs m1 = macro_inputs m2)"

definition find_duplicate :: "registry \<Rightarrow> macro \<Rightarrow> string option" where
  "find_duplicate r m = map_option (\<lambda>(_, e). macro_name e) (find (\<lambda>(_, e). is_duplicate e m) r)"

definition find_op_sequence_duplicate :: "registry \<Rightarrow> macro \<Rightarrow> string option" where
  "find_op_sequence_duplicate r m = map_option (\<lambda>(_, e). macro_name e) (find (\<lambda>(_, e). ops_of e = ops_of m) r)"

text \<open>\<open>input_ops[-n:]\<close> for \<open>n \<ge> 1\<close>.\<close>

definition last_n :: "nat \<Rightarrow> 'a list \<Rightarrow> 'a list" where
  "last_n n xs = drop (length xs - n) xs"

definition match_recent_sequence :: "registry \<Rightarrow> instruction list \<Rightarrow> macro option" where
  "match_recent_sequence r is =
     (if is = [] then None
      else map_option snd (find (\<lambda>(_, m). 2 \<le> length (ops_of m) \<and>
             last_n (length (ops_of m)) (map ins_op is) = ops_of m) r))"

definition nonempty_name :: "string option \<Rightarrow> bool" where
  "nonempty_name x = (x \<noteq> None \<and> x \<noteq> Some [])"

definition register :: "macro \<Rightarrow> registry \<Rightarrow> string \<times> registry" where
  "register m r =
     (let dup = find_duplicate r m; op_dup = find_op_sequence_duplicate r m in
      if nonempty_name dup then (the dup, r)
      else if nonempty_name op_dup then (the op_dup, r)
      else (macro_name m, dict_set (macro_name m) m r))"

definition record_use :: "(string \<Rightarrow> int \<Rightarrow> string) \<Rightarrow> string \<Rightarrow> registry \<Rightarrow> registry" where
  "record_use clock name r = (case map_of r name of
       None \<Rightarrow> r
     | Some m \<Rightarrow> dict_set name (m\<lparr>hit_count := hit_count m + 1, last_seen := Some (clock name (hit_count m))\<rparr>) r)"

definition ROI_PROTECTION_THRESHOLD :: int where "ROI_PROTECTION_THRESHOLD = 50"

text \<open>
  \<open>age_of s\<close>: the days since the time stamp; \<open>Inr None\<close> when it is not ISO format (\<open>ValueError\<close>, caught), an
  error when the difference raises (a stamp with a time zone).
\<close>

definition decays :: "(string \<Rightarrow> int option py) \<Rightarrow> int \<Rightarrow> int \<Rightarrow> macro \<Rightarrow> bool py" where
  "decays age_of max_age min_hits m =
     (if is_durable m then Inr False
      else case last_seen m of
          None \<Rightarrow> Inr False
        | Some s \<Rightarrow>
            if s = [] then Inr False
            else if ROI_PROTECTION_THRESHOLD \<le> lifetime_savings m then Inr False
            else bind_py (age_of s) (\<lambda>age. Inr (case age of None \<Rightarrow> False | Some a \<Rightarrow> max_age < a \<and> hit_count m < min_hits)))"

fun decayed_names :: "(macro \<Rightarrow> bool py) \<Rightarrow> registry \<Rightarrow> string list py" where
  "decayed_names P [] = Inr []"
| "decayed_names P ((k, m) # r) = bind_py (P m) (\<lambda>b. bind_py (decayed_names P r) (\<lambda>ks. Inr (if b then k # ks else ks)))"

definition remove_names :: "string list \<Rightarrow> registry \<Rightarrow> registry" where
  "remove_names ks r = filter (\<lambda>(k, _). k \<notin> set ks) r"

definition apply_decay :: "(string \<Rightarrow> int option py) \<Rightarrow> int \<Rightarrow> int \<Rightarrow> registry \<Rightarrow> registry py" where
  "apply_decay age_of max_age min_hits r =
     bind_py (decayed_names (decays age_of max_age min_hits) r) (\<lambda>ks. Inr (remove_names ks r))"

definition record_savings :: "(int \<Rightarrow> int \<Rightarrow> string) \<Rightarrow> string \<Rightarrow> int \<Rightarrow> registry \<Rightarrow> registry" where
  "record_savings fdiv name tokens r =
     (if tokens \<le> 0 then r
      else case map_of r name of
          None \<Rightarrow> r
        | Some m \<Rightarrow> let total_saved = lifetime_savings m + tokens in
            dict_set name (m\<lparr>lifetime_savings := total_saved,
                             avg_tokens_per_use := fdiv total_saved (max (hit_count m) 1)\<rparr>) r)"

definition update_from_repair ::
    "string \<Rightarrow> string \<Rightarrow> instruction list \<Rightarrow> string list option \<Rightarrow> registry \<Rightarrow> bool \<times> registry" where
  "update_from_repair now name new_instructions new_inputs r =
     (case map_of r name of
        None \<Rightarrow> (False, r)
      | Some m \<Rightarrow>
          if ops_of m = map ins_op new_instructions \<and> same_instructions (instructions m) new_instructions then (False, r)
          else (True, dict_set name (m\<lparr>instructions := new_instructions,
                 macro_inputs := (case new_inputs of None \<Rightarrow> macro_inputs m | Some i \<Rightarrow> i), last_seen := Some now\<rparr>) r))"

text \<open>
  \<open>load_global\<close>: the file is a list of macros, each read or raising. An exception is logged and ends the load;
  what was added before it stays.
\<close>

fun load_macros :: "macro py list \<Rightarrow> registry \<Rightarrow> bool \<times> registry" where
  "load_macros [] r = (True, r)"
| "load_macros (Inl _ # rest) r = (False, r)"
| "load_macros (Inr m # rest) r =
     (if nonempty_name (find_duplicate r m) \<or> nonempty_name (find_op_sequence_duplicate r m) then load_macros rest r
      else load_macros rest (dict_set (macro_name m) m r))"

text \<open>The last pass: of the macros with one op sequence the one with the most hits stays, a later one on a tie.\<close>

fun superseded :: "registry \<Rightarrow> (string list \<times> string \<times> int) list \<Rightarrow> string list" where
  "superseded [] seen = []"
| "superseded ((k, m) # rest) seen =
     (case map_of seen (ops_of m) of
        None \<Rightarrow> superseded rest (dict_set (ops_of m) (k, hit_count m) seen)
      | Some (k', hits') \<Rightarrow>
          if hits' \<le> hit_count m then k' # superseded rest (dict_set (ops_of m) (k, hit_count m) seen)
          else k # superseded rest seen)"

definition load_global :: "(string \<Rightarrow> int option py) \<Rightarrow> macro py list option \<Rightarrow> registry \<Rightarrow> registry" where
  "load_global age_of contents r = (case contents of
       None \<Rightarrow> r
     | Some ms \<Rightarrow>
         let (complete, r1) = load_macros ms r in
         if \<not> complete then r1
         else case apply_decay age_of 7 3 r1 of
             Inl _ \<Rightarrow> r1
           | Inr r2 \<Rightarrow> remove_names (superseded r2 []) r2)"


subsection \<open>Operators\<close>

text \<open>
  \<open>_execute_op\<close> on integers, booleans, strings, lists and dictionaries. What Python does on the remaining
  combinations (floats, formatting with \<open>%\<close>, operands of clashing types) is the argument \<open>host\<close>.
\<close>

type_synonym host = "string \<Rightarrow> json list \<Rightarrow> json py"

fun num :: "json \<Rightarrow> int option" where
  "num (JInt i) = Some i"
| "num (JBool b) = Some (if b then 1 else 0)"
| "num _ = None"

definition arg :: "nat \<Rightarrow> json list \<Rightarrow> json py" where
  "arg k args = (if k < length args then Inr (args ! k) else Inl IndexErrorRaised)"

definition with1 :: "json list \<Rightarrow> (json \<Rightarrow> json py) \<Rightarrow> json py" where
  "with1 args f = bind_py (arg 0 args) f"

definition with2 :: "json list \<Rightarrow> (json \<Rightarrow> json \<Rightarrow> json py) \<Rightarrow> json py" where
  "with2 args f = bind_py (arg 0 args) (\<lambda>a. bind_py (arg 1 args) (f a))"

definition times :: "int \<Rightarrow> 'a list \<Rightarrow> 'a list" where
  "times n xs = concat (replicate (nat n) xs)"

definition op_add :: "host \<Rightarrow> json \<Rightarrow> json \<Rightarrow> json py" where
  "op_add host a b = (case (num a, num b) of
     (Some i, Some j) \<Rightarrow> Inr (JInt (i + j))
   | _ \<Rightarrow> (case (a, b) of
       (JStr s, JStr t) \<Rightarrow> Inr (JStr (s @ t))
     | (JList xs, JList ys) \<Rightarrow> Inr (JList (xs @ ys))
     | _ \<Rightarrow> host ''add'' [a, b]))"

definition op_sub :: "host \<Rightarrow> json \<Rightarrow> json \<Rightarrow> json py" where
  "op_sub host a b = (case (num a, num b) of (Some i, Some j) \<Rightarrow> Inr (JInt (i - j)) | _ \<Rightarrow> host ''sub'' [a, b])"

definition op_mul :: "host \<Rightarrow> json \<Rightarrow> json \<Rightarrow> json py" where
  "op_mul host a b = (case (num a, num b) of
     (Some i, Some j) \<Rightarrow> Inr (JInt (i * j))
   | (None, Some j) \<Rightarrow> (case a of JStr s \<Rightarrow> Inr (JStr (times j s)) | JList xs \<Rightarrow> Inr (JList (times j xs)) | _ \<Rightarrow> host ''mul'' [a, b])
   | (Some i, None) \<Rightarrow> (case b of JStr s \<Rightarrow> Inr (JStr (times i s)) | JList xs \<Rightarrow> Inr (JList (times i xs)) | _ \<Rightarrow> host ''mul'' [a, b])
   | _ \<Rightarrow> host ''mul'' [a, b])"

definition op_div :: "host \<Rightarrow> json \<Rightarrow> json \<Rightarrow> json py" where
  "op_div host a b = (case (num a, num b) of
     (Some i, Some j) \<Rightarrow> if j = 0 then Inl ZeroDivisionRaised else Inr (JInt (i div j))
   | _ \<Rightarrow> host ''div'' [a, b])"

definition py_index :: "int \<Rightarrow> nat \<Rightarrow> nat option" where
  "py_index i n = (let j = (if i < 0 then i + int n else i) in if 0 \<le> j \<and> j < int n then Some (nat j) else None)"

definition op_get :: "host \<Rightarrow> json \<Rightarrow> json \<Rightarrow> json py" where
  "op_get host a b = (case (a, num b) of
     (JList xs, Some i) \<Rightarrow> (case py_index i (length xs) of Some k \<Rightarrow> Inr (xs ! k) | None \<Rightarrow> Inl IndexErrorRaised)
   | (JStr s, Some i) \<Rightarrow> (case py_index i (length s) of Some k \<Rightarrow> Inr (JStr [s ! k]) | None \<Rightarrow> Inl IndexErrorRaised)
   | (JObj d, _) \<Rightarrow>
       if \<not> hashable b then Inl TypeError
       else (case b of JStr k \<Rightarrow> (case map_of d k of Some v \<Rightarrow> Inr v | None \<Rightarrow> Inl KeyErrorRaised) | _ \<Rightarrow> Inl KeyErrorRaised)
   | _ \<Rightarrow> host ''get'' [a, b])"

text \<open>Iteration: the elements of a list, the characters of a string, the keys of a dictionary.\<close>

definition elements :: "json \<Rightarrow> json list option" where
  "elements j = (case j of
     JList xs \<Rightarrow> Some xs
   | JStr s \<Rightarrow> Some (map (\<lambda>c. JStr [c]) s)
   | JObj d \<Rightarrow> Some (map (\<lambda>(k, _). JStr k) d)
   | _ \<Rightarrow> None)"

definition iterate :: "json \<Rightarrow> (json list \<Rightarrow> json py) \<Rightarrow> json py" where
  "iterate j f = (case elements j of None \<Rightarrow> Inl TypeError | Some xs \<Rightarrow> f xs)"

definition op_len :: "json \<Rightarrow> json py" where
  "op_len j = iterate j (\<lambda>xs. Inr (JInt (int (length xs))))"

definition op_reverse :: "host \<Rightarrow> json \<Rightarrow> json py" where
  "op_reverse host j = (case j of JStr s \<Rightarrow> Inr (JStr (rev s)) | JList xs \<Rightarrow> Inr (JList (rev xs)) | _ \<Rightarrow> host ''reverse'' [j])"

definition op_filter :: "host \<Rightarrow> json \<Rightarrow> json \<Rightarrow> json py" where
  "op_filter host j p = iterate j (\<lambda>xs.
     if p = JStr ''even'' then
       (if list_all (\<lambda>x. num x \<noteq> None) xs then Inr (JList (filter (\<lambda>x. the (num x) mod 2 = 0) xs)) else host ''filter'' [j, p])
     else if p = JStr ''vowel'' then
       (if list_all is_str xs
        then Inr (JStr (concat (map py_str (filter (\<lambda>x. py_contains (py_lower (py_str x)) ''aeiou'') xs))))
        else host ''filter'' [j, p])
     else Inr (JList (filter (\<lambda>x. py_eq x p) xs)))"

fun first_occurrences :: "json list \<Rightarrow> json list \<Rightarrow> json list" where
  "first_occurrences seen [] = []"
| "first_occurrences seen (x # xs) =
     (if list_ex (py_eq x) seen then first_occurrences seen xs else x # first_occurrences (x # seen) xs)"

definition op_unique :: "json \<Rightarrow> json py" where
  "op_unique j = iterate j (\<lambda>xs. if list_all hashable xs then Inr (JList (first_occurrences [] xs)) else Inl TypeError)"

definition op_sort :: "host \<Rightarrow> json \<Rightarrow> json py" where
  "op_sort host j = iterate j (\<lambda>xs.
     if list_all (\<lambda>x. num x \<noteq> None) xs then Inr (JList (sort_key (\<lambda>x. the (num x)) xs))
     else if list_all is_str xs then Inr (JList (sort_key py_str xs))
     else host ''sort'' [j])"

definition op_join :: "json \<Rightarrow> json py" where
  "op_join j = iterate j (\<lambda>xs. Inr (JStr (concat (map py_str xs))))"

definition execute_op :: "host \<Rightarrow> string \<Rightarrow> json list \<Rightarrow> json py" where
  "execute_op host op args =
     (if op = ''add'' then with2 args (op_add host)
      else if op = ''sub'' then with2 args (op_sub host)
      else if op = ''mul'' then with2 args (op_mul host)
      else if op = ''div'' then with2 args (op_div host)
      else if op = ''const'' then arg 0 args
      else if op = ''identity'' then arg 0 args
      else if op = ''list'' then Inr (JList args)
      else if op = ''get'' then with2 args (op_get host)
      else if op = ''len'' then with1 args op_len
      else if op = ''reverse'' then with1 args (op_reverse host)
      else if op = ''filter'' then bind_py (arg 1 args) (\<lambda>p. bind_py (arg 0 args) (\<lambda>j. op_filter host j p))
      else if op = ''unique'' then with1 args op_unique
      else if op = ''sort'' then with1 args (op_sort host)
      else if op = ''join'' then with1 args op_join
      else Inl ValueErrorRaised)"

subsection \<open>Execution\<close>

type_synonym scope = "json dict"

definition variable :: "json \<Rightarrow> string option" where
  "variable a = (case a of JStr s \<Rightarrow> if prefix ''$'' s then Some (drop 1 s) else None | _ \<Rightarrow> None)"

text \<open>The value of an argument; \<open>e\<close> is what an unknown variable raises.\<close>

definition resolve_arg :: "py_error \<Rightarrow> scope \<Rightarrow> json \<Rightarrow> json py" where
  "resolve_arg e scope a = (case variable a of
     None \<Rightarrow> Inr a
   | Some v \<Rightarrow> (case map_of scope v of Some x \<Rightarrow> Inr x | None \<Rightarrow> Inl e))"

fun resolve_list :: "scope \<Rightarrow> json list \<Rightarrow> json list py" where
  "resolve_list scope [] = Inr []"
| "resolve_list scope (a # as) =
     bind_py (resolve_arg NameErrorRaised scope a) (\<lambda>x. bind_py (resolve_list scope as) (\<lambda>xs. Inr (x # xs)))"

text \<open>\<open>zip(macro.inputs, ins.args, strict=True)\<close> raises when one of the two ends before the other.\<close>

fun bind_inputs :: "scope \<Rightarrow> string list \<Rightarrow> json list \<Rightarrow> scope \<Rightarrow> scope py" where
  "bind_inputs scope [] [] acc = Inr acc"
| "bind_inputs scope (p # ps) (a # as) acc =
     bind_py (resolve_arg KeyErrorRaised scope a) (\<lambda>x. bind_inputs scope ps as (dict_set p x acc))"
| "bind_inputs scope _ _ acc = Inl ValueErrorRaised"

definition assign :: "string option \<Rightarrow> json \<Rightarrow> scope \<Rightarrow> scope" where
  "assign tgt v scope = (case tgt of Some t \<Rightarrow> if t \<noteq> [] then dict_set t v scope else scope | None \<Rightarrow> scope)"

definition called_macro :: "registry option \<Rightarrow> instruction \<Rightarrow> string option" where
  "called_macro reg i = (if prefix ''@'' (ins_op i) \<and> reg \<noteq> None then Some (drop 1 (ins_op i)) else None)"

function (sequential) execute_ir ::
    "host \<Rightarrow> (string \<Rightarrow> int \<Rightarrow> string) \<Rightarrow> nat \<Rightarrow> instruction list \<Rightarrow> scope \<Rightarrow> json \<Rightarrow> registry option \<Rightarrow>
      json py \<times> registry option" where
  "execute_ir host clock 0 is scope latest reg = (Inl RuntimeError, reg)"
| "execute_ir host clock (Suc d) [] scope latest reg = (Inr latest, reg)"
| "execute_ir host clock (Suc d) (i # is) scope latest reg =
     (let reg = (case called_macro reg i of Some n \<Rightarrow> map_option (record_use clock n) reg | None \<Rightarrow> reg) in
      case Option.bind (called_macro reg i) (\<lambda>n. map_of (the reg) n) of
        Some m \<Rightarrow>
          (case bind_inputs scope (macro_inputs m) (ins_args i) [] of
             Inl e \<Rightarrow> (Inl e, reg)
           | Inr inputs \<Rightarrow>
               (case execute_ir host clock d (instructions m) inputs JNull reg of
                  (Inl e, reg') \<Rightarrow> (Inl e, reg')
                | (Inr v, reg') \<Rightarrow> execute_ir host clock (Suc d) is (assign (ins_target i) v scope) v reg'))
      | None \<Rightarrow>
          (case bind_py (resolve_list scope (ins_args i)) (execute_op host (ins_op i)) of
             Inl e \<Rightarrow> (Inl e, reg)
           | Inr v \<Rightarrow> execute_ir host clock (Suc d) is (assign (ins_target i) v scope) v reg))"
  by pat_completeness auto

termination
  by (relation "measures [\<lambda>(host, clock, d, is, scope, latest, reg). d, \<lambda>(host, clock, d, is, scope, latest, reg). length is]")
    auto

definition run_ir :: "host \<Rightarrow> (string \<Rightarrow> int \<Rightarrow> string) \<Rightarrow> nat \<Rightarrow> instruction list \<Rightarrow> scope \<Rightarrow> registry option \<Rightarrow>
      json py \<times> registry option" where
  "run_ir host clock depth is inputs reg = execute_ir host clock depth is inputs JNull reg"

subsection \<open>Enough depth\<close>

definition shape :: "registry \<Rightarrow> string \<Rightarrow> (instruction list \<times> string list) option" where
  "shape r n = map_option (\<lambda>m. (instructions m, macro_inputs m)) (map_of r n)"

text \<open>Every macro an instruction list calls has a rank below \<open>k\<close>.\<close>

definition calls_below :: "(string \<Rightarrow> nat) \<Rightarrow> registry \<Rightarrow> nat \<Rightarrow> instruction list \<Rightarrow> bool" where
  "calls_below rank r k is = list_all (\<lambda>i. prefix ''@'' (ins_op i) \<and> shape r (drop 1 (ins_op i)) \<noteq> None \<longrightarrow>
     rank (drop 1 (ins_op i)) < k) is"

definition ranked :: "(string \<Rightarrow> nat) \<Rightarrow> registry \<Rightarrow> bool" where
  "ranked rank r = (\<forall>n is ps. shape r n = Some (is, ps) \<longrightarrow> calls_below rank r (rank n) is)"

lemma shape_record_use [simp]: "shape (record_use clock n r) = shape r"
  by (auto simp: shape_def record_use_def fun_eq_iff split: option.split)

text \<open>The instruction at the head, with the registry after the use was recorded.\<close>

definition used :: "(string \<Rightarrow> int \<Rightarrow> string) \<Rightarrow> instruction \<Rightarrow> registry \<Rightarrow> registry" where
  "used clock i r = (if prefix ''@'' (ins_op i) then record_use clock (drop 1 (ins_op i)) r else r)"

lemma shape_used [simp]: "shape (used clock i r) = shape r"
  by (simp add: used_def)

definition callee :: "registry \<Rightarrow> instruction \<Rightarrow> macro option" where
  "callee r i = (if prefix ''@'' (ins_op i) then map_of r (drop 1 (ins_op i)) else None)"

lemma execute_Cons:
  "execute_ir host clock (Suc d) (i # is) scope latest (Some r) =
     (case callee (used clock i r) i of
        Some m \<Rightarrow>
          (case bind_inputs scope (macro_inputs m) (ins_args i) [] of
             Inl e \<Rightarrow> (Inl e, Some (used clock i r))
           | Inr inputs \<Rightarrow>
               (case execute_ir host clock d (instructions m) inputs JNull (Some (used clock i r)) of
                  (Inl e, reg') \<Rightarrow> (Inl e, reg')
                | (Inr v, reg') \<Rightarrow> execute_ir host clock (Suc d) is (assign (ins_target i) v scope) v reg'))
      | None \<Rightarrow>
          (case bind_py (resolve_list scope (ins_args i)) (execute_op host (ins_op i)) of
             Inl e \<Rightarrow> (Inl e, Some (used clock i r))
           | Inr v \<Rightarrow> execute_ir host clock (Suc d) is (assign (ins_target i) v scope) v (Some (used clock i r))))"
  by (auto simp: called_macro_def used_def callee_def Let_def split: option.split sum.split)

declare execute_ir.simps(3) [simp del]

lemma execute_shape:
  "execute_ir host clock d is scope latest (Some r) = (v, reg) \<Longrightarrow> \<exists>r'. reg = Some r' \<and> shape r' = shape r"
proof (induction d arbitrary: "is" scope latest r v reg)
  case 0
  then show ?case by auto
next
  case (Suc d)
  note outer = Suc.IH
  from Suc.prems show ?case
  proof (induction "is" arbitrary: scope latest r v reg)
    case Nil
    then show ?case by auto
  next
    case (Cons i "is")
    note inner = Cons.IH and run = Cons.prems
    let ?r = "used clock i r"
    show ?case
    proof (cases "callee ?r i")
      case None
      show ?thesis
      proof (cases "bind_py (resolve_list scope (ins_args i)) (execute_op host (ins_op i))")
        case (Inl e)
        with None run show ?thesis by (auto simp: execute_Cons)
      next
        case (Inr w)
        with None run have "execute_ir host clock (Suc d) is (assign (ins_target i) w scope) w (Some ?r) = (v, reg)"
          by (simp add: execute_Cons)
        from inner [OF this] show ?thesis by simp
      qed
    next
      case (Some m)
      show ?thesis
      proof (cases "bind_inputs scope (macro_inputs m) (ins_args i) []")
        case (Inl e)
        with Some run show ?thesis by (auto simp: execute_Cons)
      next
        case (Inr inputs)
        obtain w reg' where call: "execute_ir host clock d (instructions m) inputs JNull (Some ?r) = (w, reg')" by fastforce
        from outer [OF call] obtain r2 where r2: "reg' = Some r2" "shape r2 = shape r" by auto
        show ?thesis
        proof (cases w)
          case (Inl e)
          with run Some Inr call r2 show ?thesis by (auto simp: execute_Cons)
        next
          case w: (Inr x)
          with run Some Inr call r2 have "execute_ir host clock (Suc d) is (assign (ins_target i) x scope) x (Some r2) = (v, reg)"
            by (simp add: execute_Cons)
          from inner [OF this] r2 show ?thesis by simp
        qed
      qed
    qed
  qed
qed

lemma callee_shape: "callee r i = Some m \<Longrightarrow> shape r (drop 1 (ins_op i)) = Some (instructions m, macro_inputs m) \<and> prefix ''@'' (ins_op i)"
  by (auto simp: callee_def shape_def split: if_splits)

lemma enough_depth:
  "(\<forall>n is ps. shape r n = Some (is, ps) \<longrightarrow> calls_below rank r (rank n) is) \<Longrightarrow> calls_below rank r k is \<Longrightarrow> k \<le> d \<Longrightarrow>
   execute_ir host clock (Suc d) is scope latest (Some r) = execute_ir host clock (Suc k) is scope latest (Some r)"
proof (induction k arbitrary: d "is" scope latest r rule: less_induct)
  case (less k)
  note outer = less.IH and le = less.prems(3)
  from less.prems(1,2) show ?case
  proof (induction "is" arbitrary: scope latest r)
    case Nil
    then show ?case by simp
  next
    case (Cons i "is")
    note inner = Cons.IH
    let ?r = "used clock i r"
    have rk: "\<forall>n is ps. shape ?r n = Some (is, ps) \<longrightarrow> calls_below rank ?r (rank n) is"
      using Cons.prems(1) by (simp add: calls_below_def)
    have rest: "calls_below rank ?r k is" using Cons.prems(2) by (simp add: calls_below_def)
    show ?case
    proof (cases "callee ?r i")
      case None
      show ?thesis
        using inner [OF rk rest] None by (simp add: execute_Cons split: sum.split)
    next
      case (Some m)
      from callee_shape [OF Some] have c: "shape ?r (drop 1 (ins_op i)) = Some (instructions m, macro_inputs m)"
        and at: "prefix ''@'' (ins_op i)" by auto
      let ?n = "rank (drop 1 (ins_op i))"
      have n: "?n < k" using Cons.prems(2) c at by (simp add: calls_below_def)
      then obtain k' where k: "k = Suc k'" "?n \<le> k'" by (cases k) auto
      obtain d' where d: "d = Suc d'" "k' \<le> d'" using le k by (cases d) auto
      have body: "calls_below rank ?r ?n (instructions m)" using rk c by blast
      show ?thesis
      proof (cases "bind_inputs scope (macro_inputs m) (ins_args i) []")
        case (Inl e)
        with Some show ?thesis by (simp add: execute_Cons)
      next
        case (Inr inputs)
        have same: "execute_ir host clock d (instructions m) inputs JNull (Some ?r) =
            execute_ir host clock k (instructions m) inputs JNull (Some ?r)"
          using outer [OF n rk body, of d' inputs JNull] outer [OF n rk body, of k' inputs JNull] k d by simp
        obtain w reg' where call: "execute_ir host clock k (instructions m) inputs JNull (Some ?r) = (w, reg')" by fastforce
        from execute_shape [OF call] obtain r2 where r2: "reg' = Some r2" "shape r2 = shape ?r" by auto
        show ?thesis
        proof (cases w)
          case (Inl e)
          with Some Inr call same show ?thesis by (simp add: execute_Cons)
        next
          case w: (Inr x)
          have "\<forall>n is ps. shape r2 n = Some (is, ps) \<longrightarrow> calls_below rank r2 (rank n) is"
            and "calls_below rank r2 k is"
            using rk rest by (simp_all add: calls_below_def r2)
          from inner [OF this] show ?thesis
            using Some Inr call same w r2 by (simp add: execute_Cons)
        qed
      qed
    qed
  qed
qed

text \<open>A macro without parameters whose first instruction calls itself.\<close>

definition self_calling :: "string \<Rightarrow> registry \<Rightarrow> bool" where
  "self_calling n r = (case shape r n of
     Some (i # is, []) \<Rightarrow> ins_op i = ''@'' @ n \<and> ins_args i = []
   | _ \<Rightarrow> False)"

lemma self_call_exhausts:
  assumes "self_calling n r" and "ins_op i = ''@'' @ n" and "ins_args i = []"
  shows "fst (execute_ir host clock d (i # is) scope latest (Some r)) = Inl RuntimeError"
  using assms
proof (induction d arbitrary: i "is" scope latest r)
  case 0
  then show ?case by simp
next
  case (Suc d)
  let ?r = "used clock i r"
  obtain a b where ab: "shape r n = Some (a, b)"
    using Suc.prems(1) by (auto simp: self_calling_def split: option.splits)
  then obtain j js where "a = j # js" "b = []" and j: "ins_op j = ''@'' @ n" "ins_args j = []"
    using Suc.prems(1) by (cases a; cases b) (auto simp: self_calling_def)
  with ab have s: "shape ?r n = Some (j # js, [])" by simp
  then obtain m where m: "map_of ?r n = Some m" "instructions m = j # js" "macro_inputs m = []"
    unfolding shape_def by auto
  have c: "callee ?r i = Some m" using m Suc.prems(2) by (simp add: callee_def)
  have sc: "self_calling n ?r" using Suc.prems(1) by (simp add: self_calling_def)
  obtain w reg' where call: "execute_ir host clock d (j # js) [] JNull (Some ?r) = (w, reg')" by fastforce
  from Suc.IH [OF sc j, of js "[]" JNull] call have "w = Inl RuntimeError" by simp
  with c m call Suc.prems(3) show ?case by (simp add: execute_Cons)
qed


subsection \<open>Dictionary forms round trip\<close>

lemma all_some_map_inverse: "(\<And>x. f (g x) = Some x) \<Longrightarrow> all_some (map f (map g xs)) = Some xs"
  by (induction xs) simp_all

lemma opt_str_inverse [simp]: "opt_str_value (opt_str x) = Some x"
  by (cases x) (simp_all add: opt_str_def)

lemma strs_value_inverse [simp]: "strs_value (JList (map JStr xs)) = Some xs"
  using all_some_map_inverse [of str_value JStr xs] by (simp add: strs_value_def)

lemma instruction_roundtrip [simp]: "instruction_from_dict (instruction_to_dict i) = Some i"
  by (simp add: instruction_from_dict_def instruction_to_dict_def jget_or_def)

lemma provenance_roundtrip [simp]: "provenance_from_dict (provenance_to_dict p) = Some (p\<lparr>source_file := None\<rparr>)"
  by (simp add: provenance_from_dict_def provenance_to_dict_def jget_or_def)

lemma str_dict_inverse [simp]: "str_dict_value (JObj (map (\<lambda>(k, v). (k, JStr v)) d)) = Some d"
proof -
  have "all_some (map str_entry (map (\<lambda>(k, v). (k, JStr v)) d)) = Some d"
    by (rule all_some_map_inverse) auto
  then show ?thesis by (simp add: str_dict_value_def)
qed

lemma macro_dict_roundtrip:
  "macro_from_dict float_text (macro_to_dict m) =
     Some (m\<lparr>macro_provenance := map_option (\<lambda>p. p\<lparr>source_file := None\<rparr>) (macro_provenance m)\<rparr>)"
proof -
  have ins: "all_some (map instruction_from_dict (map instruction_to_dict (instructions m))) = Some (instructions m)"
    by (rule all_some_map_inverse) simp
  have prov: "(let p = (case macro_provenance m of Some p \<Rightarrow> provenance_to_dict p | None \<Rightarrow> JNull) in
      if truthy p then map_option Some (provenance_from_dict p) else Some None) =
      Some (map_option (\<lambda>p. p\<lparr>source_file := None\<rparr>) (macro_provenance m))"
    by (cases "macro_provenance m") (simp_all add: Let_def, simp add: provenance_to_dict_def)
  show ?thesis
    using ins prov by (cases m) (simp add: macro_from_dict_def macro_to_dict_def jget_or_def)
qed

subsection \<open>The registry invariant\<close>

definition names_ok :: "registry \<Rightarrow> bool" where
  "names_ok r = (distinct (map fst r) \<and> (\<forall>(k, m) \<in> set r. macro_name m = k \<and> k \<noteq> []))"

definition registry_ok :: "registry \<Rightarrow> bool" where
  "registry_ok r = (names_ok r \<and> (\<forall>k m k' m'. map_of r k = Some m \<and> map_of r k' = Some m' \<and> ops_of m = ops_of m' \<longrightarrow> k = k'))"

lemma names_ok_map_of: "names_ok r \<longleftrightarrow> distinct (map fst r) \<and> (\<forall>k m. map_of r k = Some m \<longrightarrow> macro_name m = k \<and> k \<noteq> [])"
  unfolding names_ok_def by (simp add: map_of_eq_Some_iff Ball_def split_paired_all cong: conj_cong) 

lemma names_ok_dict_set: "names_ok r \<Longrightarrow> macro_name m = k \<Longrightarrow> k \<noteq> [] \<Longrightarrow> names_ok (dict_set k m r)"
  by (auto simp: names_ok_map_of distinct_dict_set)

lemma find_SomeD: "find P xs = Some x \<Longrightarrow> x \<in> set xs \<and> P x"
  by (induction xs) (auto split: if_splits)

lemma find_op_None: "find_op_sequence_duplicate r m = None \<longleftrightarrow> (\<forall>(k, e) \<in> set r. ops_of e \<noteq> ops_of m)"
  by (auto simp: find_op_sequence_duplicate_def find_None_iff)

lemma find_op_Some:
  assumes "find_op_sequence_duplicate r m = Some n" and "names_ok r"
  shows "\<exists>e. map_of r n = Some e \<and> ops_of e = ops_of m" and "n \<noteq> []"
proof -
  from assms(1) obtain k e where f: "find (\<lambda>(_, e). ops_of e = ops_of m) r = Some (k, e)" and n: "n = macro_name e"
    by (auto simp: find_op_sequence_duplicate_def)
  then have mem: "(k, e) \<in> set r" and ops: "ops_of e = ops_of m" by (auto dest!: find_SomeD)
  then have "n = k" "k \<noteq> []" using assms(2) n by (auto simp: names_ok_def)
  moreover have "map_of r k = Some e" using mem assms(2) by (simp add: names_ok_def)
  ultimately show "\<exists>e. map_of r n = Some e \<and> ops_of e = ops_of m" "n \<noteq> []" using ops by auto
qed

lemma same_instructions_ops: "same_instructions is js \<Longrightarrow> map ins_op is = map ins_op js"
  unfolding same_instructions_def by (induction rule: list_all2_induct) simp_all

lemma find_duplicate_Some:
  assumes "find_duplicate r m = Some n" and "names_ok r"
  shows "\<exists>e. map_of r n = Some e \<and> ops_of e = ops_of m" and "n \<noteq> []"
proof -
  from assms(1) obtain k e where f: "find (\<lambda>(_, e). is_duplicate e m) r = Some (k, e)" and n: "n = macro_name e"
    by (auto simp: find_duplicate_def)
  then have mem: "(k, e) \<in> set r" and "is_duplicate e m" by (auto dest!: find_SomeD)
  then have ops: "ops_of e = ops_of m" by (simp add: is_duplicate_def ops_of_def same_instructions_ops)
  have "n = k" "k \<noteq> []" using assms(2) n mem by (auto simp: names_ok_def)
  moreover have "map_of r k = Some e" using mem assms(2) by (simp add: names_ok_def)
  ultimately show "\<exists>e. map_of r n = Some e \<and> ops_of e = ops_of m" "n \<noteq> []" using ops by auto
qed

lemma register_cases:
  assumes "names_ok r"
  shows "(\<exists>n e. register m r = (n, r) \<and> map_of r n = Some e \<and> ops_of e = ops_of m) \<or>
    (register m r = (macro_name m, dict_set (macro_name m) m r) \<and> (\<forall>k e. map_of r k = Some e \<longrightarrow> ops_of e \<noteq> ops_of m))"
proof (cases "find_duplicate r m")
  case (Some n)
  from find_duplicate_Some [OF Some assms] Some show ?thesis by (auto simp: register_def nonempty_name_def Let_def)
next
  case None
  show ?thesis
  proof (cases "find_op_sequence_duplicate r m")
    case (Some n)
    from find_op_Some [OF Some assms] Some None show ?thesis by (auto simp: register_def nonempty_name_def Let_def)
  next
    case none: None
    then have "\<forall>k e. map_of r k = Some e \<longrightarrow> ops_of e \<noteq> ops_of m" by (auto simp: find_op_None dest: map_of_SomeD)
    with None none show ?thesis by (simp add: register_def nonempty_name_def Let_def)
  qed
qed

lemma register_ok:
  assumes "registry_ok r" and "macro_name m \<noteq> []"
  shows "registry_ok (snd (register m r))"
proof -
  have n: "names_ok r" using assms(1) by (simp add: registry_ok_def)
  from register_cases [OF n, of m] show ?thesis
  proof
    assume "register m r = (macro_name m, dict_set (macro_name m) m r) \<and> (\<forall>k e. map_of r k = Some e \<longrightarrow> ops_of e \<noteq> ops_of m)"
    then show ?thesis
      using assms names_ok_dict_set [OF n, of m "macro_name m"] by (auto simp: registry_ok_def split: if_splits) metis+
  qed (use assms in auto)
qed

text \<open>An update in place that keeps names and operators.\<close>

lemma update_in_place_ok:
  assumes "registry_ok r" and "map_of r k = Some m" and "macro_name m' = macro_name m" and "ops_of m' = ops_of m"
  shows "registry_ok (dict_set k m' r)"
proof -
  have n: "names_ok r" using assms(1) by (simp add: registry_ok_def)
  then have "macro_name m' = k" "k \<noteq> []" using assms(2,3) by (auto simp: names_ok_map_of)
  from names_ok_dict_set [OF n this] show ?thesis
    using assms(1,2,4) unfolding registry_ok_def by (auto split: if_splits)
qed

lemma map_of_remove_names: "map_of (remove_names ks r) k = (if k \<in> set ks then None else map_of r k)"
  by (induction r) (auto simp: remove_names_def)

lemma remove_names_names_ok: "names_ok r \<Longrightarrow> names_ok (remove_names ks r)"
  by (auto simp: names_ok_def remove_names_def distinct_map inj_on_def)

lemma remove_names_ok: "registry_ok r \<Longrightarrow> registry_ok (remove_names ks r)"
  unfolding registry_ok_def by (auto simp: remove_names_names_ok map_of_remove_names split: if_splits)

lemma apply_decay_Inr: "apply_decay age_of a h r = Inr r' \<Longrightarrow> \<exists>ks. r' = remove_names ks r"
  by (auto simp: apply_decay_def bind_py_Inr_iff)

subsection \<open>The last pass of a load\<close>

definition candidates :: "registry \<Rightarrow> (string list \<times> string \<times> int) list \<Rightarrow> string list \<Rightarrow> string set" where
  "candidates r seen s = {k. (\<exists>h. map_of seen s = Some (k, h)) \<or> (\<exists>m. (k, m) \<in> set r \<and> ops_of m = s)}"

definition seen_ok :: "registry \<Rightarrow> (string list \<times> string \<times> int) list \<Rightarrow> bool" where
  "seen_ok r seen = ((\<forall>s k h. map_of seen s = Some (k, h) \<longrightarrow> k \<notin> fst ` set r) \<and>
     (\<forall>s s' k h h'. map_of seen s = Some (k, h) \<and> map_of seen s' = Some (k, h') \<longrightarrow> s = s'))"

lemma superseded_one:
  assumes "distinct (map fst r)" and "seen_ok r seen" and "candidates r seen s \<noteq> {}"
  shows "\<exists>!k. k \<in> candidates r seen s \<and> k \<notin> set (superseded r seen)"
  using assms
proof (induction r arbitrary: seen s)
  case Nil
  then show ?case by (auto simp: candidates_def)
next
  case (Cons p rest)
  obtain k m where p: "p = (k, m)" by (cases p)
  let ?s = "ops_of m" and ?seen = "dict_set (ops_of m) (k, hit_count m) seen"
  have dist: "distinct (map fst rest)" and k: "k \<notin> fst ` set rest" using Cons.prems(1) p by auto
  have kseen: "map_of seen t \<noteq> Some (k, h)" for t h
    using Cons.prems(2) p by (auto simp: seen_ok_def)
  have ok1: "seen_ok rest ?seen"
    using Cons.prems(2) k kseen unfolding seen_ok_def p by (auto split: if_splits)
  have ok2: "seen_ok rest seen" using Cons.prems(2) unfolding seen_ok_def p by auto
  show ?case
  proof (cases "map_of seen ?s")
    case None
    then have same: "candidates (p # rest) seen t = candidates rest ?seen t" for t
      by (auto simp: candidates_def p)
    have sup: "superseded (p # rest) seen = superseded rest ?seen" using None by (simp add: p)
    show ?thesis unfolding same sup using Cons.IH [OF dist ok1] Cons.prems(3) [unfolded same] by blast
  next
    case (Some kh)
    then obtain k' h' where kh: "map_of seen ?s = Some (k', h')" by (cases kh) auto
    have k': "k' \<noteq> k" "k' \<notin> fst ` set rest" using Cons.prems(2) kh unfolding seen_ok_def p by auto
    show ?thesis
    proof (cases "h' \<le> hit_count m")
      case True
      have full: "candidates (p # rest) seen t = (if t = ?s then insert k' (candidates rest ?seen t) else candidates rest ?seen t)" for t
        using kh by (auto simp: candidates_def p)
      have uniq: "t = ?s" if "map_of seen t = Some (k', h)" for t h
        using Cons.prems(2) that kh unfolding seen_ok_def by blast
      have "map_of ?seen t \<noteq> Some (k', h)" for t h
        using uniq [of t h] k'(1) by auto
      moreover have "(k', m') \<notin> set rest" for m' using k'(2) by force
      ultimately have out: "k' \<notin> candidates rest ?seen t" for t by (auto simp: candidates_def)
      have ne: "candidates rest ?seen s \<noteq> {}"
      proof (cases "s = ?s")
        case True
        then show ?thesis by (auto simp: candidates_def)
      next
        case False
        with Cons.prems(3) show ?thesis unfolding full by simp
      qed
      have sup: "set (superseded (p # rest) seen) = insert k' (set (superseded rest ?seen))"
        using True kh by (simp add: p)
      have "x \<in> candidates (p # rest) seen s \<and> x \<notin> set (superseded (p # rest) seen) \<longleftrightarrow>
          x \<in> candidates rest ?seen s \<and> x \<notin> set (superseded rest ?seen)" for x
        using out [of s] unfolding full sup by auto
      with Cons.IH [OF dist ok1 ne] show ?thesis by simp
    next
      case False
      have full: "candidates (p # rest) seen t = (if t = ?s then insert k (candidates rest seen t) else candidates rest seen t)" for t
        by (auto simp: candidates_def p)
      have out: "k \<notin> candidates rest seen t" for t
        using k kseen by (force simp: candidates_def)
      have ne: "candidates rest seen s \<noteq> {}"
      proof (cases "s = ?s")
        case True
        with kh show ?thesis by (auto simp: candidates_def)
      next
        case False
        with Cons.prems(3) show ?thesis unfolding full by simp
      qed
      have sup: "set (superseded (p # rest) seen) = insert k (set (superseded rest seen))"
        using False kh by (simp add: p)
      have "x \<in> candidates (p # rest) seen s \<and> x \<notin> set (superseded (p # rest) seen) \<longleftrightarrow>
          x \<in> candidates rest seen s \<and> x \<notin> set (superseded rest seen)" for x
        using out [of s] unfolding full sup by auto
      with Cons.IH [OF dist ok2 ne] show ?thesis by simp
    qed
  qed
qed

lemma superseded_distinct:
  assumes "names_ok r"
  shows "registry_ok (remove_names (superseded r []) r)"
proof -
  have d: "distinct (map fst r)" using assms by (simp add: names_ok_def)
  have "k = k'" if "map_of r k = Some m" "map_of r k' = Some m'" "ops_of m = ops_of m'"
    "k \<notin> set (superseded r [])" "k' \<notin> set (superseded r [])" for k k' m m'
  proof -
    have c: "k \<in> candidates r [] (ops_of m)" "k' \<in> candidates r [] (ops_of m)"
      using that by (auto simp: candidates_def dest: map_of_SomeD)
    then have "candidates r [] (ops_of m) \<noteq> {}" by auto
    from superseded_one [OF d _ this] that c show ?thesis by (auto simp: seen_ok_def)
  qed
  with remove_names_names_ok [OF assms] show ?thesis
    by (auto simp: registry_ok_def map_of_remove_names split: if_splits)
qed

lemma load_macros_names:
  assumes "names_ok r" and "\<forall>m. Inr m \<in> set ms \<longrightarrow> macro_name m \<noteq> []"
  shows "names_ok (snd (load_macros ms r))"
  using assms by (induction ms r rule: load_macros.induct) (auto simp: names_ok_dict_set)


lemma load_step: "load_macros (Inr m # rest) r = load_macros rest (snd (register m r))"
  by (simp add: register_def Let_def)

lemma load_macros_ok:
  assumes "registry_ok r" and "\<forall>m. Inr m \<in> set ms \<longrightarrow> macro_name m \<noteq> []"
  shows "registry_ok (snd (load_macros ms r))"
  using assms
proof (induction ms arbitrary: r)
  case Nil
  then show ?case by simp
next
  case (Cons x ms)
  show ?case
  proof (cases x)
    case (Inl e)
    with Cons.prems show ?thesis by simp
  next
    case (Inr m)
    have "registry_ok (snd (register m r))" using Cons.prems Inr by (intro register_ok) auto
    from Cons.IH [OF this] Cons.prems show ?thesis by (auto simp only: Inr load_step list.set insert_iff)
  qed
qed

lemma load_global_ok:
  assumes "registry_ok r" and "\<forall>ms m. contents = Some ms \<and> Inr m \<in> set ms \<longrightarrow> macro_name m \<noteq> []"
  shows "registry_ok (load_global age_of contents r)"
proof (cases contents)
  case None
  with assms(1) show ?thesis by (simp add: load_global_def)
next
  case (Some ms)
  obtain c r1 where l: "load_macros ms r = (c, r1)" by fastforce
  have r1: "registry_ok r1" using load_macros_ok [OF assms(1), of ms] assms(2) Some l by auto
  then have "registry_ok (remove_names ks r1)" for ks by (rule remove_names_ok)
  then show ?thesis
    using r1 by (auto simp: load_global_def Some l remove_names_ok split: sum.split dest!: apply_decay_Inr)
qed

lemma load_global_repairs:
  assumes "names_ok r" and "\<forall>m. Inr m \<in> set ms \<longrightarrow> macro_name m \<noteq> []"
    and "fst (load_macros ms r)" and "apply_decay age_of 7 3 (snd (load_macros ms r)) = Inr r2"
  shows "registry_ok (load_global age_of (Some ms) r)"
proof -
  have "names_ok r2"
    using load_macros_names [OF assms(1,2)] apply_decay_Inr [OF assms(4)] remove_names_names_ok by auto
  from superseded_distinct [OF this] show ?thesis
    using assms(3,4) by (simp add: load_global_def case_prod_unfold)
qed

subsection \<open>Runs of the registry\<close>

datatype registry_op =
    Register macro
  | Use "string \<Rightarrow> int \<Rightarrow> string" string
  | Savings "int \<Rightarrow> int \<Rightarrow> string" string int
  | Decay "string \<Rightarrow> int option py" int int
  | Load "string \<Rightarrow> int option py" "macro py list option"
  | Repair string string "instruction list" "string list option"

fun registry_step :: "registry_op \<Rightarrow> registry \<Rightarrow> registry" where
  "registry_step (Register m) r = snd (register m r)"
| "registry_step (Use clock n) r = record_use clock n r"
| "registry_step (Savings fdiv n t) r = record_savings fdiv n t r"
| "registry_step (Decay age_of a h) r = (case apply_decay age_of a h r of Inl _ \<Rightarrow> r | Inr r' \<Rightarrow> r')"
| "registry_step (Load age_of contents) r = load_global age_of contents r"
| "registry_step (Repair now n is ps) r = snd (update_from_repair now n is ps r)"

text \<open>Macros have names, and a repair keeps the operators.\<close>

fun op_named :: "registry_op \<Rightarrow> bool" where
  "op_named (Register m) = (macro_name m \<noteq> [])"
| "op_named (Load _ (Some ms)) = list_all (\<lambda>x. case x of Inr m \<Rightarrow> macro_name m \<noteq> [] | Inl _ \<Rightarrow> True) ms"
| "op_named (Repair _ _ _ _) = False"
| "op_named _ = True"

lemma record_use_ok: "registry_ok r \<Longrightarrow> registry_ok (record_use clock n r)"
  by (auto simp: record_use_def ops_of_def split: option.split intro!: update_in_place_ok)

lemma record_savings_ok: "registry_ok r \<Longrightarrow> registry_ok (record_savings fdiv n t r)"
  by (auto simp: record_savings_def ops_of_def Let_def split: option.split intro!: update_in_place_ok)

lemma registry_step_ok: "registry_ok r \<Longrightarrow> op_named op \<Longrightarrow> registry_ok (registry_step op r)"
proof (induction op r rule: registry_step.induct)
  case (4 age_of a h r)
  then show ?case by (auto split: sum.split dest!: apply_decay_Inr intro: remove_names_ok)
next
  case (5 age_of contents r)
  have "macro_name m \<noteq> []" if "contents = Some ms" "Inr m \<in> set ms" for ms m
    using 5 that by (auto simp: list_all_iff)
  with load_global_ok [OF 5(1)] show ?case by auto
qed (simp_all add: register_ok record_use_ok record_savings_ok)

lemma registry_run_ok: "list_all op_named ops \<Longrightarrow> registry_ok r \<Longrightarrow> registry_ok (fold registry_step ops r)"
  by (induction ops arbitrary: r) (simp_all add: registry_step_ok)

subsection \<open>Properties\<close>


definition sample_macro :: "string \<Rightarrow> string list \<Rightarrow> macro" where
  "sample_macro n ops = \<lparr>macro_name = n, instructions = map (\<lambda>p. \<lparr>ins_op = p, ins_args = [], ins_target = None\<rparr>) ops,
     macro_inputs = [], macro_provenance = None, hit_count = 1, last_seen = None, is_durable = False,
     lifetime_savings = 0, avg_tokens_per_use = ''0.0'', context_requirements = []\<rparr>"


text \<open>
  Registering a macro returns the name of a macro of the registry with the same sequence of operators, and every
  other macro whose name is not the new one stays as it was.
\<close>

lemma register_contract:
  assumes "names_ok r" and "register m r = (n, r')"
  shows "\<exists>e. map_of r' n = Some e \<and> ops_of e = ops_of m \<and> (\<forall>k. k = n \<or> map_of r' k = map_of r k)"
  using register_cases [OF assms(1), of m] assms(2) by auto

lemma register_contract_witness:
  "\<exists>e. map_of [(''a'', sample_macro ''a'' [''view''])] ''a'' = Some e \<and> ops_of e = [''view''] \<and>
     (\<forall>k. k = ''a'' \<or> map_of [(''a'', sample_macro ''a'' [''view''])] k = map_of [(''a'', sample_macro ''a'' [''view''])] k)"
proof -
  have n: "names_ok [(''a'', sample_macro ''a'' [''view''])]" by (simp add: names_ok_def sample_macro_def)
  have r: "register (sample_macro ''b'' [''view'']) [(''a'', sample_macro ''a'' [''view''])] =
      (''a'', [(''a'', sample_macro ''a'' [''view''])])" by code_simp
  have o: "ops_of (sample_macro ''b'' [''view'']) = [''view'']" by code_simp
  from register_contract [OF n r] show ?thesis unfolding o .
qed

text \<open>
  Loading the global file restores the invariant: whatever repairs did before, a load that completes leaves no two
  macros with the same sequence of operators.
\<close>

lemma load_restores_invariant:
  assumes "names_ok r" and "\<forall>m. Inr m \<in> set ms \<longrightarrow> macro_name m \<noteq> []"
    and "fst (load_macros ms r)" and "apply_decay age_of 7 3 (snd (load_macros ms r)) = Inr r2"
  shows "registry_ok (load_global age_of (Some ms) r)"
  by (rule load_global_repairs [OF assms])

definition repaired_registry :: registry where
  "repaired_registry = [(''a'', sample_macro ''a'' [''view'']), (''b'', sample_macro ''b'' [''view''])]"

lemma load_restores_invariant_witness:
  "registry_ok (load_global (\<lambda>_. Inr None) (Some []) repaired_registry)"
proof (rule load_restores_invariant)
  show "names_ok repaired_registry" by (simp add: names_ok_def repaired_registry_def sample_macro_def)
  show "apply_decay (\<lambda>_. Inr None) 7 3 (snd (load_macros [] repaired_registry)) = Inr repaired_registry" by code_simp
qed simp_all

text \<open>
  A macro survives its dictionary form except for the file it came from: reading back what was written gives the
  same macro with the source file of its provenance lost.
\<close>

lemma macro_roundtrip:
  "macro_from_dict float_text (macro_to_dict m) =
     Some (m\<lparr>macro_provenance := map_option (\<lambda>p. p\<lparr>source_file := None\<rparr>) (macro_provenance m)\<rparr>)"
  by (rule macro_dict_roundtrip)

text \<open>
  C38: Execution ends by itself when the macros can be ranked, each calling only macros of lower rank: beyond that rank
  the recursion limit plays no role, the result and the registry are the same for every larger depth.
\<close>

theorem execution_terminates:
  assumes "ranked rank r" and "calls_below rank r k is" and "k < d"
  shows "run_ir host clock d is inputs (Some r) = run_ir host clock (Suc k) is inputs (Some r)"
proof -
  obtain d' where d: "d = Suc d'" "k \<le> d'" using assms(3) by (cases d) auto
  from assms(1) have "\<forall>n is ps. shape r n = Some (is, ps) \<longrightarrow> calls_below rank r (rank n) is" by (simp add: ranked_def)
  from enough_depth [OF this assms(2) d(2)] show ?thesis by (simp add: run_ir_def d(1))
qed

definition call_ins :: "string \<Rightarrow> instruction" where
  "call_ins n = \<lparr>ins_op = ''@'' @ n, ins_args = [], ins_target = None\<rparr>"

theorem execution_terminates_witness:
  "run_ir (\<lambda>_ _. Inl TypeError) (\<lambda>_ _. ''t'') 9 [call_ins ''b''] [] (Some repaired_registry) =
   run_ir (\<lambda>_ _. Inl TypeError) (\<lambda>_ _. ''t'') 2 [call_ins ''b''] [] (Some repaired_registry)"
proof -
  have r: "ranked (\<lambda>_. 0) repaired_registry"
    by (auto simp: ranked_def shape_def repaired_registry_def sample_macro_def calls_below_def split: if_splits)
  have c: "calls_below (\<lambda>_. 0) repaired_registry 1 [call_ins ''b'']" by (simp add: calls_below_def)
  from execution_terminates [OF r c, of 9] show ?thesis by (simp add: numeral_2_eq_2)
qed

text \<open>
  A macro whose first instruction calls the macro itself never returns: execution ends in the recursion error at
  every depth.
\<close>

lemma self_call_never_returns:
  assumes "self_calling n r"
  shows "fst (run_ir host clock d [call_ins n] inputs (Some r)) = Inl RuntimeError"
  unfolding run_ir_def by (rule self_call_exhausts [OF assms]) (simp_all add: call_ins_def)

lemma self_call_never_returns_witness:
  "fst (run_ir (\<lambda>_ _. Inl TypeError) (\<lambda>_ _. ''t'') 500 [call_ins ''m''] []
     (Some [(''m'', sample_macro ''m'' [''@m''])])) = Inl RuntimeError"
  by (rule self_call_never_returns) (simp add: self_calling_def shape_def sample_macro_def)

text \<open>A repair can give a macro the operators of another one.\<close>

lemma repair_breaks_invariant:
  "registry_ok [(''a'', sample_macro ''a'' [''view'']), (''b'', sample_macro ''b'' [''edit''])] \<and>
   \<not> registry_ok (registry_step (Repair ''now'' ''b'' (instructions (sample_macro ''a'' [''view''])) None)
       [(''a'', sample_macro ''a'' [''view'']), (''b'', sample_macro ''b'' [''edit''])])"
proof
  show "registry_ok [(''a'', sample_macro ''a'' [''view'']), (''b'', sample_macro ''b'' [''edit''])]"
    by (auto simp: registry_ok_def names_ok_def sample_macro_def ops_of_def split: if_splits)
  have eq: "registry_step (Repair ''now'' ''b'' (instructions (sample_macro ''a'' [''view''])) None)
       [(''a'', sample_macro ''a'' [''view'']), (''b'', sample_macro ''b'' [''edit''])] =
     [(''a'', sample_macro ''a'' [''view'']), (''b'', (sample_macro ''b'' [''view''])\<lparr>last_seen := Some ''now''\<rparr>)]"
    by code_simp
  show "\<not> registry_ok (registry_step (Repair ''now'' ''b'' (instructions (sample_macro ''a'' [''view''])) None)
       [(''a'', sample_macro ''a'' [''view'']), (''b'', sample_macro ''b'' [''edit''])])"
    unfolding eq
  proof
    assume "registry_ok [(''a'', sample_macro ''a'' [''view'']), (''b'', (sample_macro ''b'' [''view''])\<lparr>last_seen := Some ''now''\<rparr>)]"
    then have "\<forall>k m k' m'. map_of [(''a'', sample_macro ''a'' [''view'']),
        (''b'', (sample_macro ''b'' [''view''])\<lparr>last_seen := Some ''now''\<rparr>)] k = Some m \<and>
      map_of [(''a'', sample_macro ''a'' [''view'']),
        (''b'', (sample_macro ''b'' [''view''])\<lparr>last_seen := Some ''now''\<rparr>)] k' = Some m' \<and> ops_of m = ops_of m' \<longrightarrow> k = k'"
      unfolding registry_ok_def by (rule conjunct2)
    from this [THEN spec, THEN spec, THEN spec, THEN spec, of "''a''" "sample_macro ''a'' [''view'']" "''b''"
        "(sample_macro ''b'' [''view''])\<lparr>last_seen := Some ''now''\<rparr>"]
    show False by (simp add: sample_macro_def ops_of_def)
  qed
qed

end
