(* ===== verification/MacroTools.thy ===== *)
theory MacroTools
  imports MacroIR "HOL-Library.Product_Lexorder"
begin

section \<open>Macros: tools, parameters, expansion and mining\<close>

text \<open>
  Models \<open>src/tok/macros/tool_map.py\<close>, \<open>parameterization.py\<close>, \<open>expansion.py\<close> and \<open>miner.py\<close>: the map from
  operators to tools, the replacement of literals by parameters, the expansion of a macro call into tool
  calls, and the mining of repeated instruction sequences. The identifiers of expanded blocks are an
  argument; logging is left out.
\<close>

subsection \<open>Tools\<close>

record tool_mapping =
  tool_name :: string
  arg_map :: "(nat \<times> string) list"
  shell_template :: "string option"

definition tool :: "string \<Rightarrow> (nat \<times> string) list \<Rightarrow> tool_mapping" where
  "tool n a = \<lparr>tool_name = n, arg_map = a, shell_template = None\<rparr>"

definition shell :: "string \<Rightarrow> tool_mapping" where
  "shell t = \<lparr>tool_name = ''Bash'', arg_map = [], shell_template = Some t\<rparr>"

definition OP_TOOL_MAP :: "(string \<times> tool_mapping) list" where
  "OP_TOOL_MAP =
    [(''view'', tool ''Read'' [(0, ''file_path'')]),
     (''cat'', tool ''Read'' [(0, ''file_path'')]),
     (''read'', tool ''Read'' [(0, ''file_path'')]),
     (''edit'', tool ''Edit'' [(0, ''file_path'')]),
     (''grep'', tool ''Grep'' [(0, ''pattern''), (1, ''path'')]),
     (''ls'', shell ''ls {args}''),
     (''pytest'', shell ''pytest {args}''),
     (''bash'', shell ''{args}''),
     (''npm'', shell ''npm {args}'')]"

definition lookup_tool :: "string \<Rightarrow> tool_mapping option" where
  "lookup_tool op = map_of OP_TOOL_MAP op"

definition format_args :: "string \<Rightarrow> string \<Rightarrow> string" where
  "format_args template args = (case py_find ''{args}'' template of
     Some i \<Rightarrow> take i template @ args @ drop (i + 6) template
   | None \<Rightarrow> template)"

definition positional :: "string dict \<Rightarrow> json \<Rightarrow> string py" where
  "positional bindings a = (case variable a of
     Some v \<Rightarrow> (case map_of bindings v of Some s \<Rightarrow> Inr s | None \<Rightarrow> Inl KeyErrorRaised)
   | None \<Rightarrow> Inr (py_str a))"

fun positionals :: "string dict \<Rightarrow> json list \<Rightarrow> string list py" where
  "positionals bindings [] = Inr []"
| "positionals bindings (a # as) =
     bind_py (positional bindings a) (\<lambda>s. bind_py (positionals bindings as) (\<lambda>ss. Inr (s # ss)))"

definition resolve_args :: "instruction \<Rightarrow> string dict \<Rightarrow> json py" where
  "resolve_args i bindings = (case lookup_tool (ins_op i) of
     None \<Rightarrow> Inl KeyErrorRaised
   | Some mapping \<Rightarrow> bind_py (positionals bindings (ins_args i)) (\<lambda>ss. Inr (JObj
       (case shell_template mapping of
          Some t \<Rightarrow> [(''command'', JStr (format_args t (join '' '' ss)))]
        | None \<Rightarrow> map (\<lambda>(k, slot). (slot, JStr (ss ! k))) (filter (\<lambda>(k, _). k < length ss) (arg_map mapping))))))"

subsection \<open>Parameters\<close>

record param_state =
  param_inputs :: "string list"
  arg_to_param :: "string dict"
  context_file :: "string option"

definition PARAM_SLOTS :: "string list" where
  "PARAM_SLOTS = [''file_path'', ''path'', ''pattern'', ''command'']"

definition should_parameterize :: "tool_mapping option \<Rightarrow> nat \<Rightarrow> string \<Rightarrow> bool" where
  "should_parameterize mapping k s = (case Option.bind mapping (\<lambda>m. map_of (arg_map m) k) of
     Some slot \<Rightarrow> slot \<in> set PARAM_SLOTS
   | None \<Rightarrow> 3 < length s \<and> CHR ''/'' \<in> set s)"

definition param_arg :: "tool_mapping option \<Rightarrow> nat \<Rightarrow> json \<Rightarrow> param_state \<Rightarrow> string \<times> param_state" where
  "param_arg mapping k a st = (case a of
     JStr s \<Rightarrow>
       if \<not> should_parameterize mapping k s then (s, st)
       else
         let st = (if context_file st = None \<and> CHR ''/'' \<in> set s then st\<lparr>context_file := Some s\<rparr> else st) in
         (case map_of (arg_to_param st) s of
            Some p \<Rightarrow> (p, st)
          | None \<Rightarrow>
              let name = CHR ''p'' # nat_str (length (param_inputs st)) in
              (CHR ''$'' # name,
               st\<lparr>arg_to_param := dict_set s (CHR ''$'' # name) (arg_to_param st), param_inputs := param_inputs st @ [name]\<rparr>))
   | _ \<Rightarrow> (py_str a, st))"

fun param_args :: "tool_mapping option \<Rightarrow> nat \<Rightarrow> json list \<Rightarrow> param_state \<Rightarrow> string list \<times> param_state" where
  "param_args mapping k [] st = ([], st)"
| "param_args mapping k (a # as) st =
     (let (s, st1) = param_arg mapping k a st; (ss, st2) = param_args mapping (k + 1) as st1 in (s # ss, st2))"

fun param_list :: "instruction list \<Rightarrow> param_state \<Rightarrow> instruction list \<times> param_state" where
  "param_list [] st = ([], st)"
| "param_list (i # is) st =
     (let (ss, st1) = param_args (lookup_tool (ins_op i)) 0 (ins_args i) st; (is', st2) = param_list is st1 in
      (\<lparr>ins_op = ins_op i, ins_args = map JStr ss, ins_target = ins_target i\<rparr> # is', st2))"

definition empty_params :: param_state where
  "empty_params = \<lparr>param_inputs = [], arg_to_param = [], context_file = None\<rparr>"

definition parameterize_instructions :: "instruction list \<Rightarrow> instruction list \<times> string list \<times> string option" where
  "parameterize_instructions is =
     (let (is', st) = param_list is empty_params in (is', param_inputs st, context_file st))"

subsection \<open>Expansion\<close>

fun expand_instructions :: "(nat \<Rightarrow> string) \<Rightarrow> nat \<Rightarrow> instruction list \<Rightarrow> string dict \<Rightarrow> json list \<times> nat" where
  "expand_instructions new_id n [] params = ([], n)"
| "expand_instructions new_id n (i # is) params =
     (case lookup_tool (ins_op i) of
        None \<Rightarrow> expand_instructions new_id n is params
      | Some mapping \<Rightarrow>
          (case resolve_args i params of
             Inl _ \<Rightarrow> expand_instructions new_id n is params
           | Inr tool_input \<Rightarrow>
               let (bs, n') = expand_instructions new_id (n + 1) is params in
               (JObj [(''type'', JStr ''tool_use''), (''id'', JStr (new_id n)), (''name'', JStr (tool_name mapping)),
                      (''input'', tool_input)] # bs, n')))"

definition expand_macro :: "(nat \<Rightarrow> string) \<Rightarrow> nat \<Rightarrow> macro \<Rightarrow> string dict \<Rightarrow> json list \<times> nat" where
  "expand_macro new_id n m params = expand_instructions new_id n (instructions m) params"

text \<open>\<open>key in input_data\<close> and \<open>str(input_data[key])\<close> for the keys of the macro.\<close>

definition input_param :: "json \<Rightarrow> string \<Rightarrow> string option py" where
  "input_param data key = (case data of
     JObj d \<Rightarrow> Inr (map_option py_str (map_of d key))
   | JList xs \<Rightarrow> if list_ex (\<lambda>x. x = JStr key) xs then Inl TypeError else Inr None
   | JStr s \<Rightarrow> if py_contains key s then Inl TypeError else Inr None
   | _ \<Rightarrow> Inl TypeError)"

fun collect_params :: "json \<Rightarrow> string list \<Rightarrow> string dict \<Rightarrow> string dict py" where
  "collect_params data [] acc = Inr acc"
| "collect_params data (k # ks) acc =
     bind_py (input_param data k) (\<lambda>v. collect_params data ks (case v of None \<Rightarrow> acc | Some s \<Rightarrow> dict_set k s acc))"

definition expand_macro_tool_use_block ::
    "(nat \<Rightarrow> string) \<Rightarrow> registry \<Rightarrow> nat \<Rightarrow> json \<Rightarrow> (json list \<times> nat) py" where
  "expand_macro_tool_use_block new_id r n block =
     (if jget_or ''type'' JNull block \<noteq> JStr ''tool_use'' then Inr ([block], n)
      else case jget_or ''name'' (JStr []) block of
          JStr name \<Rightarrow>
            if \<not> prefix ''@'' name then Inr ([block], n)
            else (case map_of r (drop 1 name) of
                None \<Rightarrow> Inr ([block], n)
              | Some m \<Rightarrow> bind_py (collect_params (jget_or ''input'' (JObj []) block) (macro_inputs m) []) (\<lambda>params.
                  let (bs, n') = expand_macro new_id n m params in
                  Inr (if bs = [] then [block] else bs, n')))
        | _ \<Rightarrow> Inl AttributeError)"

fun expand_tool_use_blocks :: "(nat \<Rightarrow> string) \<Rightarrow> registry \<Rightarrow> nat \<Rightarrow> json list \<Rightarrow> json list py" where
  "expand_tool_use_blocks new_id r n [] = Inr []"
| "expand_tool_use_blocks new_id r n (b # bs) =
     bind_py (expand_macro_tool_use_block new_id r n b) (\<lambda>(xs, n').
     bind_py (expand_tool_use_blocks new_id r n' bs) (\<lambda>ys. Inr (xs @ ys)))"

definition macro_hint_for_session :: "registry \<Rightarrow> string option" where
  "macro_hint_for_session r =
     (let ms = map snd r;
          line = (\<lambda>m. ''  @'' @ macro_name m @ ''('' @ join '', '' (macro_inputs m) @ '') = '' @
             join '' -> '' (map (\<lambda>i. ins_op i @ ''(...)'') (instructions m)) @ '' (used '' @ int_str (hit_count m) @ ''x)'') in
      if ms = [] then None
      else Some (''Registered macros:'' @ [newline] @ join [newline] (map line (take 3 (sort_key (\<lambda>m. - hit_count m) ms)))))"

subsection \<open>Mining\<close>

type_synonym pattern = "string list \<times> (nat \<times> nat) list"

fun target_slots :: "nat \<Rightarrow> instruction list \<Rightarrow> (string \<times> nat) list \<Rightarrow> (string \<times> nat) list" where
  "target_slots k [] acc = acc"
| "target_slots k (i # is) acc =
     target_slots (k + 1) is (case ins_target i of Some t \<Rightarrow> if t \<noteq> [] then dict_set t k acc else acc | None \<Rightarrow> acc)"

definition arg_edges :: "(string \<times> nat) list \<Rightarrow> nat \<Rightarrow> instruction \<Rightarrow> (nat \<times> nat) list" where
  "arg_edges slots consumer i =
     map (\<lambda>p. (p, consumer)) (List.map_filter (\<lambda>a. Option.bind (variable a) (map_of slots)) (ins_args i))"

definition dependency_fingerprint :: "instruction list \<Rightarrow> nat \<Rightarrow> nat \<Rightarrow> (nat \<times> nat) list" where
  "dependency_fingerprint is start len =
     (let s = take len (drop start is); slots = target_slots 0 s [] in
      sort (concat (map (\<lambda>k. arg_edges slots k (s ! k)) [0..<length s])))"

definition window_key :: "instruction list \<Rightarrow> nat \<Rightarrow> nat \<Rightarrow> pattern" where
  "window_key is len start = (take len (drop start (map ins_op is)), dependency_fingerprint is start len)"

definition pattern_keys :: "instruction list list \<Rightarrow> pattern list" where
  "pattern_keys histories = concat (map (\<lambda>is. concat (map (\<lambda>len.
     map (window_key is len) [0..<length is + 1 - len]) [2, 3])) histories)"

definition pattern_counts :: "instruction list list \<Rightarrow> (pattern \<times> int) list" where
  "pattern_counts histories = foldl (\<lambda>c k. cadd k 1 c) [] (pattern_keys histories)"

definition contains_window :: "string list \<Rightarrow> string list \<Rightarrow> bool" where
  "contains_window longer k = list_ex (\<lambda>i. take (length k) (drop i longer) = k) [0..<length longer + 1 - length k]"

definition add_filtered :: "pattern list \<Rightarrow> pattern \<Rightarrow> pattern list" where
  "add_filtered acc k = (if list_ex (\<lambda>l. contains_window (fst l) (fst k)) acc then acc else acc @ [k])"

definition frequent_patterns :: "int \<Rightarrow> instruction list list \<Rightarrow> pattern list" where
  "frequent_patterns min_frequency histories =
     (let frequent = map fst (filter (\<lambda>(_, n). min_frequency \<le> n) (pattern_counts histories)) in
      foldl add_filtered [] (sort_key (\<lambda>k. - int (length (fst k))) frequent))"

text \<open>\<open>int(s)\<close> for a text without underscores.\<close>

definition py_int :: "string \<Rightarrow> int option" where
  "py_int s = (let t = py_strip s; neg = prefix ''-'' t; d = (if neg \<or> prefix ''+'' t then drop 1 t else t) in
     if d = [] \<or> \<not> list_all is_digit d then None
     else Some (if neg then - int (decimal_value d) else int (decimal_value d)))"

definition last_segment :: "string \<Rightarrow> string" where
  "last_segment s = rev (takeWhile (\<lambda>c. c \<noteq> CHR ''_'') (rev s))"

definition AUTO :: string where "AUTO = ''auto_macro_''"

definition index_step :: "int \<Rightarrow> string \<Rightarrow> int" where
  "index_step n name =
     (if prefix AUTO name then (case py_int (last_segment name) of Some k \<Rightarrow> max n (k + 1) | None \<Rightarrow> n) else n)"

definition next_index :: "registry option \<Rightarrow> int" where
  "next_index reg = (case reg of None \<Rightarrow> 0 | Some r \<Rightarrow> foldl index_step 0 (map fst r))"

definition found_in :: "pattern \<Rightarrow> instruction list \<Rightarrow> instruction list option" where
  "found_in k is = map_option (\<lambda>start. take (length (fst k)) (drop start is))
     (find (\<lambda>start. window_key is (length (fst k)) start = k) [0..<length is + 1 - length (fst k)])"

fun found_instructions :: "pattern \<Rightarrow> instruction list list \<Rightarrow> instruction list option" where
  "found_instructions k [] = None"
| "found_instructions k (is # rest) = (case found_in k is of Some f \<Rightarrow> Some f | None \<Rightarrow> found_instructions k rest)"

definition dep_text :: "(nat \<times> nat) list \<Rightarrow> string" where
  "dep_text fp = (if fp = [] then ''none'' else join ''|'' (map (\<lambda>(p, c). nat_str p @ ''->'' @ nat_str c) fp))"

definition mined_macro :: "int \<Rightarrow> instruction list \<Rightarrow> (nat \<times> nat) list \<Rightarrow> macro" where
  "mined_macro idx found fp =
     (let (is', ps, ctx) = parameterize_instructions found in
      \<lparr>macro_name = AUTO @ int_str idx, instructions = is', macro_inputs = ps,
       macro_provenance = Some \<lparr>source_code = Some (join '' -> '' (map ins_op found) @ '' [deps:'' @ dep_text fp @ '']''),
         source_file = None, composed_of = map (drop 1) (filter (prefix ''@'') (map ins_op found))\<rparr>,
       hit_count = 1, last_seen = None, is_durable = False, lifetime_savings = 0, avg_tokens_per_use = ''0.0'',
       context_requirements = (case ctx of Some c \<Rightarrow> if c \<noteq> [] then [(''file'', c)] else [] | None \<Rightarrow> [])\<rparr>)"

fun mine_from :: "instruction list list \<Rightarrow> registry option \<Rightarrow> int \<Rightarrow> pattern list \<Rightarrow> macro list" where
  "mine_from histories reg idx [] = []"
| "mine_from histories reg idx (k # ks) =
     (case found_instructions k histories of
        None \<Rightarrow> mine_from histories reg (idx + 1) ks
      | Some found \<Rightarrow>
          let m = mined_macro idx found (snd k) in
          if found = [] then mine_from histories reg (idx + 1) ks
          else if (case reg of Some r \<Rightarrow> nonempty_name (find_op_sequence_duplicate r m) | None \<Rightarrow> False)
          then mine_from histories reg (idx + 1) ks
          else if length found = 1 \<and> prefix ''@'' (ins_op (hd found)) then mine_from histories reg (idx + 1) ks
          else m # mine_from histories reg (idx + 1) ks)"

definition mine :: "int \<Rightarrow> instruction list list \<Rightarrow> registry option \<Rightarrow> macro list" where
  "mine min_frequency histories reg =
     (if histories = [] then [] else mine_from histories reg (next_index reg) (frequent_patterns min_frequency histories))"

subsection \<open>Recorded bindings\<close>

definition bindings_of :: "param_state \<Rightarrow> string dict" where
  "bindings_of st = map (\<lambda>(s, p). (drop 1 p, s)) (arg_to_param st)"

definition param_name :: "nat \<Rightarrow> string" where
  "param_name k = CHR ''p'' # nat_str k"

definition params_ok :: "param_state \<Rightarrow> bool" where
  "params_ok st = (param_inputs st = map param_name [0..<length (param_inputs st)] \<and>
     map snd (arg_to_param st) = map (\<lambda>p. CHR ''$'' # p) (param_inputs st) \<and> distinct (map fst (arg_to_param st)))"

definition literal_args :: "instruction list \<Rightarrow> bool" where
  "literal_args is = list_all (\<lambda>i. list_all (\<lambda>a. \<not> prefix ''$'' (py_str a)) (ins_args i)) is"

definition extends :: "string dict \<Rightarrow> string dict \<Rightarrow> bool" where
  "extends b b' = (\<forall>v s. map_of b v = Some s \<longrightarrow> map_of b' v = Some s)"

lemma extends_refl [simp]: "extends b b"
  by (simp add: extends_def)

lemma extends_trans: "extends a b \<Longrightarrow> extends b c \<Longrightarrow> extends a c"
  by (simp add: extends_def)

lemma param_name_inject [simp]: "param_name a = param_name b \<longleftrightarrow> a = b"
  by (simp add: param_name_def)

lemma variable_literal: "\<not> prefix ''$'' (py_str a) \<Longrightarrow> variable a = None \<and> variable (JStr (py_str a)) = None"
  by (cases a) (simp_all add: variable_def)

lemma bindings_keys: "params_ok st \<Longrightarrow> map fst (bindings_of st) = param_inputs st"
proof -
  have "map fst (bindings_of st) = map (drop 1) (map snd (arg_to_param st))"
    by (simp add: bindings_of_def case_prod_unfold comp_def)
  moreover assume "params_ok st"
  then have "map snd (arg_to_param st) = map (\<lambda>p. CHR ''$'' # p) (param_inputs st)" by (simp add: params_ok_def)
  ultimately show ?thesis by (simp only: map_map) (simp add: comp_def)
qed

lemma bindings_distinct: "params_ok st \<Longrightarrow> distinct (map fst (bindings_of st))"
proof -
  assume ok: "params_ok st"
  then have "param_inputs st = map param_name [0..<length (param_inputs st)]" by (simp add: params_ok_def)
  moreover have "distinct (map param_name [0..<length (param_inputs st)])" by (simp add: distinct_map inj_on_def)
  ultimately show ?thesis using bindings_keys [OF ok] by metis
qed

lemma binding_of_param:
  assumes "params_ok st" and "map_of (arg_to_param st) s = Some p"
  shows "\<exists>v. p = CHR ''$'' # v \<and> map_of (bindings_of st) v = Some s"
proof -
  from assms(2) have mem: "(s, p) \<in> set (arg_to_param st)" by (rule map_of_SomeD)
  then have "p \<in> set (map snd (arg_to_param st))" by force
  then have "p \<in> set (map (\<lambda>q. CHR ''$'' # q) (param_inputs st))" using assms(1) by (simp only: params_ok_def)
  then obtain v where v: "p = CHR ''$'' # v" by auto
  have "(v, s) \<in> set (bindings_of st)" using mem v by (force simp: bindings_of_def)
  then show ?thesis using v bindings_distinct [OF assms(1)] by (simp add: map_of_eq_Some_iff)
qed

lemma dict_set_new: "k \<notin> set (map fst d) \<Longrightarrow> dict_set k v d = d @ [(k, v)]"
  by (induction d) (auto simp: dict_set_def)

lemma param_arg_spec:
  assumes ok: "params_ok st" and lit: "\<not> prefix ''$'' (py_str a)" and run: "param_arg mapping k a st = (s, st')"
  shows "params_ok st' \<and> extends (bindings_of st) (bindings_of st') \<and>
    positional (bindings_of st') (JStr s) = Inr (py_str a)"
proof (cases "\<exists>t. a = JStr t \<and> should_parameterize mapping k t")
  case False
  then have "s = py_str a" "st' = st" using run by (auto simp: param_arg_def split: json.splits if_splits)
  then show ?thesis using ok variable_literal [OF lit] by (simp add: positional_def)
next
  case True
  then obtain t where a: "a = JStr t" and sp: "should_parameterize mapping k t" by auto
  define st1 where "st1 = (if context_file st = None \<and> CHR ''/'' \<in> set t then st\<lparr>context_file := Some t\<rparr> else st)"
  have same: "arg_to_param st1 = arg_to_param st" "param_inputs st1 = param_inputs st" by (simp_all add: st1_def)
  have ok1: "params_ok st1" and b1: "bindings_of st1 = bindings_of st"
    using ok by (simp_all add: params_ok_def bindings_of_def same)
  show ?thesis
  proof (cases "map_of (arg_to_param st) t")
    case (Some p)
    then have r: "s = p" "st' = st1" using run a sp by (simp_all add: param_arg_def st1_def [symmetric] Let_def same)
    from binding_of_param [OF ok Some] obtain v where "p = CHR ''$'' # v" "map_of (bindings_of st) v = Some t" by blast
    then show ?thesis using ok1 b1 by (simp add: r positional_def variable_def a)
  next
    case None
    let ?name = "param_name (length (param_inputs st))"
    have r: "s = CHR ''$'' # ?name"
      "st' = st1\<lparr>arg_to_param := dict_set t (CHR ''$'' # ?name) (arg_to_param st), param_inputs := param_inputs st @ [?name]\<rparr>"
      using run a sp None by (auto simp: param_arg_def st1_def [symmetric] Let_def same param_name_def)
    have new: "dict_set t (CHR ''$'' # ?name) (arg_to_param st) = arg_to_param st @ [(t, CHR ''$'' # ?name)]"
      using None by (intro dict_set_new) (simp add: map_of_eq_None_iff)
    have t: "t \<notin> set (map fst (arg_to_param st))" using None by (simp add: map_of_eq_None_iff)
    have ok': "params_ok st'"
      using ok t by (simp add: r new params_ok_def)
    have b': "bindings_of st' = bindings_of st @ [(?name, t)]" by (simp add: r new bindings_of_def)
    have fresh: "?name \<notin> set (map fst (bindings_of st))"
      using bindings_distinct [OF ok'] unfolding b' by auto
    then have "map_of (bindings_of st') ?name = Some t"
      unfolding b' using map_of_eq_None_iff [of "bindings_of st" ?name] by (simp add: map_add_def)
    moreover have "extends (bindings_of st) (bindings_of st')"
      using bindings_distinct [OF ok'] unfolding extends_def b'
      by (auto simp: map_add_def split: option.split)
    ultimately show ?thesis using ok' by (simp add: positional_def variable_def r(1) a)
  qed
qed

lemma positional_extends:
  "positional b a = Inr s \<Longrightarrow> extends b b' \<Longrightarrow> positional b' a = Inr s"
  by (auto simp: positional_def extends_def split: option.splits)

lemma positionals_extends:
  "positionals b as = Inr ss \<Longrightarrow> extends b b' \<Longrightarrow> positionals b' as = Inr ss"
  by (induction as arbitrary: ss) (auto simp: bind_py_Inr_iff dest: positional_extends)

lemma param_args_spec:
  assumes "params_ok st" and "list_all (\<lambda>a. \<not> prefix ''$'' (py_str a)) as" and "param_args mapping k as st = (ss, st')"
  shows "params_ok st' \<and> extends (bindings_of st) (bindings_of st') \<and>
    positionals (bindings_of st') (map JStr ss) = Inr (map py_str as)"
  using assms
proof (induction as arbitrary: k st ss st')
  case Nil
  then show ?case by simp
next
  case (Cons a as)
  obtain s st1 where s: "param_arg mapping k a st = (s, st1)" by fastforce
  obtain ss' st2 where ss: "param_args mapping (k + 1) as st1 = (ss', st2)" by fastforce
  have r: "ss = s # ss'" "st' = st2" using Cons.prems(3) s ss by simp_all
  from Cons.prems(1,2) param_arg_spec [OF _ _ s] have a: "params_ok st1" "extends (bindings_of st) (bindings_of st1)"
    "positional (bindings_of st1) (JStr s) = Inr (py_str a)" by simp_all
  from Cons.IH [OF a(1) _ ss] Cons.prems(2) r have b: "params_ok st'" "extends (bindings_of st1) (bindings_of st')"
    "positionals (bindings_of st') (map JStr ss') = Inr (map py_str as)" by simp_all
  from b a positional_extends [OF a(3) b(2)] show ?case by (auto simp: r intro: extends_trans)
qed

lemma positionals_literal:
  "list_all (\<lambda>a. \<not> prefix ''$'' (py_str a)) as \<Longrightarrow> positionals b as = Inr (map py_str as)"
  by (induction as) (auto simp: positional_def dest!: variable_literal)

lemma resolve_args_positionals:
  "positionals b (ins_args i) = Inr ss \<Longrightarrow> positionals b' (ins_args j) = Inr ss \<Longrightarrow> ins_op i = ins_op j \<Longrightarrow>
   resolve_args i b = resolve_args j b'"
  by (cases "lookup_tool (ins_op j)") (simp_all add: resolve_args_def)

lemma param_list_spec:
  assumes "params_ok st" and "literal_args is" and "param_list is st = (is', st')"
  shows "params_ok st' \<and> extends (bindings_of st) (bindings_of st') \<and>
    list_all2 (\<lambda>i i'. ins_op i' = ins_op i \<and> ins_target i' = ins_target i \<and>
      positionals (bindings_of st') (ins_args i') = Inr (map py_str (ins_args i))) is is'"
  using assms
proof (induction "is" arbitrary: st is' st')
  case Nil
  then show ?case by simp
next
  case (Cons i "is")
  obtain ss st1 where s: "param_args (lookup_tool (ins_op i)) 0 (ins_args i) st = (ss, st1)" by fastforce
  obtain is'' st2 where l: "param_list is st1 = (is'', st2)" by fastforce
  have r: "is' = \<lparr>ins_op = ins_op i, ins_args = map JStr ss, ins_target = ins_target i\<rparr> # is''" "st' = st2"
    using Cons.prems(3) s l by simp_all
  have a: "params_ok st1" "extends (bindings_of st) (bindings_of st1)"
    "positionals (bindings_of st1) (map JStr ss) = Inr (map py_str (ins_args i))"
    using param_args_spec [OF Cons.prems(1) _ s] Cons.prems(2) by (simp_all add: literal_args_def)
  have lit: "literal_args is" using Cons.prems(2) by (simp add: literal_args_def)
  from Cons.IH [OF a(1) lit l] r have b: "params_ok st'" "extends (bindings_of st1) (bindings_of st')"
    "list_all2 (\<lambda>i i'. ins_op i' = ins_op i \<and> ins_target i' = ins_target i \<and>
      positionals (bindings_of st') (ins_args i') = Inr (map py_str (ins_args i))) is is''" by simp_all
  from positionals_extends [OF a(3) b(2)] a b show ?case by (auto simp: r intro: extends_trans)
qed

definition recorded_bindings :: "instruction list \<Rightarrow> string dict" where
  "recorded_bindings is = bindings_of (snd (param_list is empty_params))"

lemma params_ok_empty: "params_ok empty_params"
  by (simp add: params_ok_def empty_params_def)

lemma parameterize_spec:
  assumes "literal_args is" and "parameterize_instructions is = (is', ps, ctx)"
  shows "list_all2 (\<lambda>i i'. ins_op i' = ins_op i \<and> ins_target i' = ins_target i \<and>
      positionals (recorded_bindings is) (ins_args i') = Inr (map py_str (ins_args i))) is is'"
    and "map fst (recorded_bindings is) = ps" and "distinct ps"
proof -
  obtain st where l: "param_list is empty_params = (is', st)" and ps: "ps = param_inputs st"
    using assms(2) by (auto simp: parameterize_instructions_def split: prod.splits)
  from param_list_spec [OF params_ok_empty assms(1) l] l ps bindings_keys [of st] bindings_distinct [of st]
  show "list_all2 (\<lambda>i i'. ins_op i' = ins_op i \<and> ins_target i' = ins_target i \<and>
      positionals (recorded_bindings is) (ins_args i') = Inr (map py_str (ins_args i))) is is'"
    and "map fst (recorded_bindings is) = ps" and "distinct ps"
    by (auto simp: recorded_bindings_def)
qed

lemma expand_recorded:
  assumes "list_all2 (\<lambda>i i'. ins_op i' = ins_op i \<and> ins_target i' = ins_target i \<and>
      positionals b (ins_args i') = Inr (map py_str (ins_args i))) is is'"
    and "literal_args is"
  shows "expand_instructions new_id n is' b = expand_instructions new_id n is []"
  using assms
proof (induction "is" is' arbitrary: n rule: list_all2_induct)
  case Nil
  then show ?case by simp
next
  case (Cons i "is" i' is')
  have lit: "literal_args is" "positionals [] (ins_args i) = Inr (map py_str (ins_args i))"
    using Cons.prems by (auto simp: literal_args_def intro: positionals_literal)
  have r: "resolve_args i' b = resolve_args i []"
    using Cons.hyps(1) lit(2) by (intro resolve_args_positionals) auto
  show ?case using Cons.IH [OF lit(1)] r Cons.hyps(1) by (simp split: option.split sum.split)
qed

lemma collect_params_all:
  assumes "distinct (map fst acc @ map fst b)" and "distinct (map fst (b0 @ b))"
  shows "collect_params (JObj (map (\<lambda>(k, s). (k, JStr s)) (b0 @ b))) (map fst b) acc = Inr (acc @ b)"
  using assms
proof (induction b arbitrary: acc b0)
  case Nil
  then show ?case by simp
next
  case (Cons p b)
  obtain k s where p: "p = (k, s)" by (cases p)
  have "map_of (map (\<lambda>(k, s). (k, JStr s)) (b0 @ p # b)) k = Some (JStr s)"
    using Cons.prems(2) p by (intro map_of_is_SomeI) (auto simp: comp_def case_prod_unfold)
  then have i: "input_param (JObj (map (\<lambda>(k, s). (k, JStr s)) (b0 @ p # b))) k = Inr (Some s)"
    by (simp add: input_param_def)
  have d: "dict_set k s acc = acc @ [p]"
    unfolding p using Cons.prems(1) p by (intro dict_set_new) auto
  from Cons.IH [of "acc @ [p]" "b0 @ [p]"] Cons.prems i d show ?case by (simp add: p)
qed


subsection \<open>What is mined\<close>

lemma cget_foldl_cadd: "cget k (foldl (\<lambda>c k. cadd k 1 c) c ks) = cget k c + int (count_list ks k)"
  by (induction ks arbitrary: c) auto

lemma distinct_foldl_cadd: "distinct (map fst c) \<Longrightarrow> distinct (map fst (foldl (\<lambda>c k. cadd k 1 c) c ks))"
  by (induction ks arbitrary: c) (auto simp: cadd_def distinct_dict_set)

lemma pattern_counts_mem:
  assumes "(k, n) \<in> set (pattern_counts histories)"
  shows "n = int (count_list (pattern_keys histories) k)"
proof -
  have "distinct (map fst (pattern_counts histories))" by (simp add: pattern_counts_def distinct_foldl_cadd)
  then have "map_of (pattern_counts histories) k = Some n" using assms by (simp add: map_of_eq_Some_iff)
  then have "cget k (pattern_counts histories) = n" by (simp add: cget_def)
  then show ?thesis using cget_foldl_cadd [of k "[]" "pattern_keys histories"] by (simp add: pattern_counts_def)
qed

lemma contains_window_length: "contains_window longer k \<Longrightarrow> length k \<le> length longer"
  by (auto simp: contains_window_def list_ex_iff)

lemma contains_window_same_length: "contains_window longer k \<Longrightarrow> length k = length longer \<Longrightarrow> k = longer"
  by (auto simp: contains_window_def list_ex_iff)

lemma contains_window_refl: "contains_window k k"
  by (simp add: contains_window_def)

text \<open>No pattern of the list contains another one.\<close>

definition window_free :: "pattern list \<Rightarrow> bool" where
  "window_free ks = sorted_wrt (\<lambda>a b. \<not> contains_window (fst a) (fst b) \<and> \<not> contains_window (fst b) (fst a)) ks"

lemma foldl_add_filtered:
  assumes "window_free acc" and "sorted_wrt (\<lambda>a b. length (fst b) \<le> length (fst a)) (acc @ ks)"
  shows "window_free (foldl add_filtered acc ks) \<and> set (foldl add_filtered acc ks) \<subseteq> set acc \<union> set ks"
  using assms
proof (induction ks arbitrary: acc)
  case Nil
  then show ?case by simp
next
  case (Cons k ks)
  show ?case
  proof (cases "list_ex (\<lambda>l. contains_window (fst l) (fst k)) acc")
    case True
    then have "add_filtered acc k = acc" by (simp add: add_filtered_def)
    moreover have "sorted_wrt (\<lambda>a b. length (fst b) \<le> length (fst a)) (acc @ ks)"
      using Cons.prems(2) by (simp add: sorted_wrt_append)
    ultimately show ?thesis using Cons.IH [OF Cons.prems(1)] by auto
  next
    case False
    then have a: "add_filtered acc k = acc @ [k]" by (simp add: add_filtered_def)
    have "\<not> contains_window (fst l) (fst k) \<and> \<not> contains_window (fst k) (fst l)" if "l \<in> set acc" for l
    proof -
      have no: "\<not> contains_window (fst l) (fst k)" using False that by (auto simp: list_ex_iff)
      have len: "length (fst k) \<le> length (fst l)" using Cons.prems(2) that by (simp add: sorted_wrt_append)
      have "\<not> contains_window (fst k) (fst l)"
      proof
        assume c: "contains_window (fst k) (fst l)"
        with len contains_window_length [OF c] contains_window_same_length [OF c] have "fst l = fst k" by simp
        with no contains_window_refl [of "fst k"] show False by simp
      qed
      with no show ?thesis by simp
    qed
    then have "window_free (acc @ [k])" using Cons.prems(1) by (simp add: window_free_def sorted_wrt_append)
    from Cons.IH [OF this] Cons.prems(2) show ?thesis by (auto simp: a)
  qed
qed

lemma frequent_patterns_spec:
  "window_free (frequent_patterns f histories) \<and>
   (\<forall>k \<in> set (frequent_patterns f histories). f \<le> int (count_list (pattern_keys histories) k) \<and> k \<in> set (pattern_keys histories))"
proof -
  let ?freq = "map fst (filter (\<lambda>(_, n). f \<le> n) (pattern_counts histories))"
  let ?sorted = "sort_key (\<lambda>k. - int (length (fst k))) ?freq"
  have "sorted (map (\<lambda>k. - int (length (fst k))) ?sorted)" by (rule sorted_sort_key)
  then have "sorted_wrt (\<lambda>a b. length (fst b) \<le> length (fst a)) ?sorted" by (simp add: sorted_wrt_map)
  with foldl_add_filtered [of "[]" ?sorted]
  have "window_free (frequent_patterns f histories)" and sub: "set (frequent_patterns f histories) \<subseteq> set ?freq"
    by (simp_all add: frequent_patterns_def window_free_def)
  moreover have "f \<le> int (count_list (pattern_keys histories) k) \<and> k \<in> set (pattern_keys histories)" if "k \<in> set ?freq" for k
  proof -
    from that obtain n where mem: "(k, n) \<in> set (pattern_counts histories)" and "f \<le> n" by auto
    have "fst ` set (pattern_counts histories) \<subseteq> set (pattern_keys histories)"
    proof -
      have "fst ` set (foldl (\<lambda>c k. cadd k 1 c) c ks) \<subseteq> fst ` set c \<union> set ks" for c :: "(pattern \<times> int) list" and ks
      proof (induction ks arbitrary: c)
        case (Cons x ks)
        have "fst ` set (cadd x 1 c) = insert x (fst ` set c)" using keys_dict_set [of x _ c] by (simp add: cadd_def)
        with Cons [of "cadd x 1 c"] show ?case by auto
      qed simp
      from this [of "[]"] show ?thesis by (simp add: pattern_counts_def)
    qed
    moreover have "k \<in> fst ` set (pattern_counts histories)" using mem by force
    ultimately show ?thesis using pattern_counts_mem [OF mem] \<open>f \<le> n\<close> by auto
  qed
  ultimately show ?thesis by blast
qed

lemma param_list_ops: "map ins_op (fst (param_list is st)) = map ins_op is"
  by (induction "is" arbitrary: st) (auto split: prod.split simp: case_prod_unfold Let_def)

lemma mined_macro_ops [simp]: "ops_of (mined_macro idx found fp) = map ins_op found"
  using param_list_ops [of found empty_params]
  by (simp add: mined_macro_def parameterize_instructions_def ops_of_def case_prod_unfold Let_def)

lemma mined_macro_name [simp]: "macro_name (mined_macro idx found fp) = AUTO @ int_str idx"
  by (simp add: mined_macro_def case_prod_unfold Let_def)

lemma found_ops: "found_instructions k histories = Some f \<Longrightarrow> map ins_op f = fst k"
proof (induction histories)
  case (Cons h rest)
  show ?case
  proof (cases "found_in k h")
    case None
    with Cons show ?thesis by simp
  next
    case (Some g)
    then obtain start where "window_key h (length (fst k)) start = k" "g = take (length (fst k)) (drop start h)"
      by (auto simp: found_in_def dest: find_SomeD)
    then have "map ins_op g = fst k" by (metis drop_map fst_conv take_map window_key_def)
    with Some Cons.prems show ?thesis by simp
  qed
qed simp

lemma int_str_inject: "0 \<le> a \<Longrightarrow> 0 \<le> b \<Longrightarrow> int_str a = int_str b \<longleftrightarrow> a = b"
  by (simp add: int_str_def eq_nat_nat_iff)

lemma mine_from_spec:
  assumes "0 \<le> idx"
  shows "(\<forall>m \<in> set (mine_from histories reg idx ks). \<exists>j \<ge> idx. macro_name m = AUTO @ int_str j) \<and>
    distinct (map macro_name (mine_from histories reg idx ks)) \<and>
    subseq (map ops_of (mine_from histories reg idx ks)) (map fst ks) \<and>
    (\<forall>m \<in> set (mine_from histories reg idx ks). case reg of Some r \<Rightarrow> \<not> nonempty_name (find_op_sequence_duplicate r m) | None \<Rightarrow> True)"
  using assms
proof (induction ks arbitrary: idx)
  case Nil
  then show ?case by simp
next
  case (Cons k ks)
  let ?rest = "mine_from histories reg (idx + 1) ks"
  have IH: "(\<forall>m \<in> set ?rest. \<exists>j \<ge> idx + 1. macro_name m = AUTO @ int_str j) \<and> distinct (map macro_name ?rest) \<and>
    subseq (map ops_of ?rest) (map fst ks) \<and>
    (\<forall>m \<in> set ?rest. case reg of Some r \<Rightarrow> \<not> nonempty_name (find_op_sequence_duplicate r m) | None \<Rightarrow> True)"
    using Cons.prems by (intro Cons.IH) simp
  then have weak: "\<forall>m \<in> set ?rest. \<exists>j \<ge> idx. macro_name m = AUTO @ int_str j"
    by (metis add.commute add_increasing order_trans zle_add1_eq_le zless_add1_eq)
  consider "mine_from histories reg idx (k # ks) = ?rest"
    | found where "found_instructions k histories = Some found"
        "mine_from histories reg idx (k # ks) = mined_macro idx found (snd k) # ?rest"
        "case reg of Some r \<Rightarrow> \<not> nonempty_name (find_op_sequence_duplicate r (mined_macro idx found (snd k))) | None \<Rightarrow> True"
  proof (cases "found_instructions k histories")
    case None
    then show ?thesis by (intro that(1)) simp
  next
    case (Some found)
    show ?thesis
    proof (cases "found = [] \<or> (case reg of Some r \<Rightarrow> nonempty_name (find_op_sequence_duplicate r (mined_macro idx found (snd k))) | None \<Rightarrow> False) \<or>
        (length found = 1 \<and> prefix ''@'' (ins_op (hd found)))")
      case True
      with Some show ?thesis by (intro that(1)) (auto simp: Let_def)
    next
      case False
      with Some show ?thesis by (intro that(2)) (auto simp: Let_def split: option.split)
    qed
  qed
  then show ?case
  proof cases
    case 1
    with IH weak show ?thesis by (auto intro: list_emb_Cons)
  next
    case 2
    have "AUTO @ int_str idx \<noteq> macro_name m" if "m \<in> set ?rest" for m
    proof -
      obtain j where "j \<ge> idx + 1" "macro_name m = AUTO @ int_str j" using IH \<open>m \<in> set ?rest\<close> by blast
      with Cons.prems show ?thesis by (simp add: int_str_inject)
    qed
    then show ?thesis using IH weak 2 found_ops [OF 2(1)] by auto
  qed
qed

lemma last_segment_nat_str: "last_segment (AUTO @ nat_str n) = nat_str n"
proof -
  have no: "CHR ''_'' \<notin> set (nat_str n)"
    using nat_str_all_digits [of n] by (auto simp: list_all_iff is_digit_def)
  have "last_segment (AUTO @ nat_str n) = rev (takeWhile (\<lambda>c. c \<noteq> CHR ''_'') (rev (nat_str n) @ rev AUTO))"
    by (simp add: last_segment_def)
  also have "takeWhile (\<lambda>c. c \<noteq> CHR ''_'') (rev (nat_str n) @ rev AUTO) = rev (nat_str n)"
    using no by (subst takeWhile_append2) (auto simp: AUTO_def)
  finally show ?thesis by simp
qed

lemma digit_no_space: "is_digit c \<Longrightarrow> \<not> py_space c"
  by (auto simp: is_digit_def py_space_def Let_def)

lemma py_int_nat_str: "py_int (nat_str n) = Some (int n)"
proof -
  have digits: "list_all is_digit (nat_str n)" by (rule nat_str_all_digits)
  then have s: "py_strip (nat_str n) = nat_str n"
    by (intro py_strip_id) (auto simp: list_all_iff digit_no_space)
  obtain c cs where c: "nat_str n = c # cs" by (cases "nat_str n") auto
  with digits have "is_digit c" by simp
  then have "c \<noteq> CHR ''-''" "c \<noteq> CHR ''+''" by (auto simp: is_digit_def)
  with c have "\<not> prefix ''-'' (nat_str n)" "\<not> prefix ''+'' (nat_str n)" by auto
  then show ?thesis using digits by (simp add: py_int_def s)
qed

lemma index_step_mono: "n \<le> index_step n name"
  by (simp add: index_step_def split: option.split)

lemma foldl_index_mono: "n \<le> foldl index_step n names"
  by (induction names arbitrary: n) (auto intro: order_trans [OF index_step_mono])

lemma foldl_index_above:
  assumes "AUTO @ nat_str j \<in> set names"
  shows "int j < foldl index_step n names"
  using assms
proof (induction names arbitrary: n)
  case (Cons x names)
  show ?case
  proof (cases "x = AUTO @ nat_str j")
    case True
    have "int j < index_step n x"
      by (simp add: True index_step_def last_segment_nat_str py_int_nat_str)
    also have "\<dots> \<le> foldl index_step (index_step n x) names" by (rule foldl_index_mono)
    finally show ?thesis by simp
  next
    case False
    with Cons show ?thesis by simp
  qed
qed simp

lemma next_index_fresh:
  assumes "next_index (Some r) \<le> j"
  shows "AUTO @ int_str j \<notin> set (map fst r)"
proof
  have "0 \<le> next_index (Some r)" using foldl_index_mono [of 0 "map fst r"] by (simp add: next_index_def)
  with assms have j: "int_str j = nat_str (nat j)" "int (nat j) = j" by (simp_all add: int_str_def)
  have above: "j < next_index (Some r)" if "AUTO @ nat_str (nat j) \<in> set (map fst r)"
    using foldl_index_above [OF that, of 0] j(2) by (simp add: next_index_def)
  assume "AUTO @ int_str j \<in> set (map fst r)"
  then have "AUTO @ nat_str (nat j) \<in> set (map fst r)" by (simp only: j(1))
  with above assms show False by simp
qed

lemma subseq_set: "subseq xs ys \<Longrightarrow> set xs \<subseteq> set ys"
  by (induction rule: list_emb.induct) auto

lemma subseq_sorted_wrt: "subseq xs ys \<Longrightarrow> sorted_wrt P ys \<Longrightarrow> sorted_wrt P xs"
  by (induction rule: list_emb.induct) (use subseq_set in fastforce)+

subsection \<open>Properties\<close>


definition sample_instructions :: "instruction list" where
  "sample_instructions = [\<lparr>ins_op = ''grep'', ins_args = [JStr ''foo'', JStr ''src/a''], ins_target = None\<rparr>,
     \<lparr>ins_op = ''view'', ins_args = [JStr ''src/a''], ins_target = None\<rparr>,
     \<lparr>ins_op = ''pytest'', ins_args = [JStr ''-q'', JStr ''tests/a''], ins_target = None\<rparr>]"

definition sample_expandable :: macro where
  "sample_expandable = (sample_macro ''m'' [])\<lparr>instructions := fst (parameterize_instructions sample_instructions),
     macro_inputs := fst (snd (parameterize_instructions sample_instructions))\<rparr>"


text \<open>
  Every mined macro is frequent and new: its operators occur (with one data flow) at least as often as asked, no mined
  sequence of operators contains another one, the names are distinct and none is taken in the registry, and the
  registry has no macro with the same operators.
\<close>

lemma mined_macros_frequent_new:
  assumes "names_ok r" and "ms = mine f histories (Some r)"
  shows "list_all (\<lambda>m. \<exists>fp. f \<le> int (count_list (pattern_keys histories) (ops_of m, fp))) ms \<and>
    sorted_wrt (\<lambda>a b. \<not> contains_window (ops_of a) (ops_of b) \<and> \<not> contains_window (ops_of b) (ops_of a)) ms \<and>
    distinct (map macro_name ms) \<and> set (map macro_name ms) \<inter> set (map fst r) = {} \<and>
    list_all (\<lambda>m. \<not> list_ex (\<lambda>(_, e). ops_of e = ops_of m) r) ms"
proof (cases "histories = []")
  case True
  with assms(2) show ?thesis by (simp add: mine_def)
next
  case False
  let ?ks = "frequent_patterns f histories"
  have ms: "ms = mine_from histories (Some r) (next_index (Some r)) ?ks" using False assms(2) by (simp add: mine_def)
  have "0 \<le> next_index (Some r)" using foldl_index_mono [of 0 "map fst r"] by (simp add: next_index_def)
  from mine_from_spec [OF this, of histories "Some r" ?ks]
  have names: "\<forall>m \<in> set ms. \<exists>j \<ge> next_index (Some r). macro_name m = AUTO @ int_str j"
    and dist: "distinct (map macro_name ms)" and sub: "subseq (map ops_of ms) (map fst ?ks)"
    and dup: "\<forall>m \<in> set ms. \<not> nonempty_name (find_op_sequence_duplicate r m)" by (simp_all add: ms)
  have fresh: "macro_name m \<notin> set (map fst r)" if "m \<in> set ms" for m
    using names that next_index_fresh by metis
  have new: "\<not> list_ex (\<lambda>(_, e). ops_of e = ops_of m) r" if "m \<in> set ms" for m
  proof -
    have "find_op_sequence_duplicate r m = None"
      using dup that find_op_Some [of r m, OF _ assms(1)] by (cases "find_op_sequence_duplicate r m") (auto simp: nonempty_name_def)
    then show ?thesis by (auto simp: find_op_None list_ex_iff)
  qed
  have freq: "\<exists>fp. f \<le> int (count_list (pattern_keys histories) (ops_of m, fp))" if "m \<in> set ms" for m
  proof -
    have "ops_of m \<in> set (map fst ?ks)" using subseq_set [OF sub] that by auto
    then obtain fp where "(ops_of m, fp) \<in> set ?ks" by auto
    with frequent_patterns_spec show ?thesis by blast
  qed
  have "sorted_wrt (\<lambda>a b. \<not> contains_window a b \<and> \<not> contains_window b a) (map fst ?ks)"
    using frequent_patterns_spec [of f histories] by (simp add: window_free_def sorted_wrt_map)
  then have "sorted_wrt (\<lambda>a b. \<not> contains_window a b \<and> \<not> contains_window b a) (map ops_of ms)"
    by (rule subseq_sorted_wrt [OF sub])
  then have free: "sorted_wrt (\<lambda>a b. \<not> contains_window (ops_of a) (ops_of b) \<and> \<not> contains_window (ops_of b) (ops_of a)) ms"
    by (simp add: sorted_wrt_map)
  show ?thesis using freq free dist fresh new by (auto simp: list_all_iff)
qed

definition sample_histories :: "instruction list list" where
  "sample_histories = [[\<lparr>ins_op = ''view'', ins_args = [JStr ''src/a''], ins_target = None\<rparr>,
     \<lparr>ins_op = ''edit'', ins_args = [JStr ''src/a''], ins_target = None\<rparr>,
     \<lparr>ins_op = ''view'', ins_args = [JStr ''src/b''], ins_target = None\<rparr>,
     \<lparr>ins_op = ''edit'', ins_args = [JStr ''src/b''], ins_target = None\<rparr>]]"

definition sample_mined :: "macro list" where
  "sample_mined = mine 2 sample_histories (Some repaired_registry)"

lemma mined_macros_frequent_new_witness:
  "map ops_of sample_mined = [[''view'', ''edit'']] \<and>
   list_all (\<lambda>m. \<exists>fp. 2 \<le> int (count_list (pattern_keys sample_histories) (ops_of m, fp))) sample_mined \<and>
   distinct (map macro_name sample_mined) \<and> set (map macro_name sample_mined) \<inter> set (map fst repaired_registry) = {} \<and>
   list_all (\<lambda>m. \<not> list_ex (\<lambda>(_, e). ops_of e = ops_of m) repaired_registry) sample_mined"
proof -
  have n: "names_ok repaired_registry" by (simp add: names_ok_def repaired_registry_def sample_macro_def)
  have o: "map ops_of sample_mined = [[''view'', ''edit'']]" by code_simp
  from mined_macros_frequent_new [OF n sample_mined_def] o show ?thesis by blast
qed

text \<open>
  Two windows with the same operators and different data flow are counted apart, but the filter that drops contained
  patterns drops the second one, as it compares the operators only.
\<close>

lemma same_operators_mined_once:
  "let ins = (\<lambda>p as t. \<lparr>ins_op = p, ins_args = as, ins_target = t\<rparr>);
       wired = [ins ''a'' [] (Some ''x''), ins ''b'' [JStr ''$x''] None];
       plain = [ins ''a'' [] None, ins ''b'' [] None]
   in length (filter (\<lambda>k. fst k = [''a'', ''b'']) (remdups (pattern_keys [wired, plain]))) = 2 \<and>
      length (mine 1 [wired, plain] None) = 1"
  by code_simp

end
