(* ===== verification/ShellText.thy ===== *)
theory ShellText
  imports PyText
begin

section \<open>Paths and shell words\<close>

text \<open>
  What \<open>src/tok/runtime/repeat_targets.py\<close> uses of the standard library on paths and commands: \<open>str.split\<close>,
  \<open>posixpath.normpath\<close>, \<open>pathlib.Path(...).name\<close> and \<open>shlex.split\<close> (POSIX rules, no comments). The lemmas say that
  a normalised path is in normal form, that it leads to the same place from every directory, and that words
  without special characters survive \<open>shlex.split\<close>.
\<close>

subsection \<open>Splitting\<close>

fun split_by :: "(char \<Rightarrow> bool) \<Rightarrow> string \<Rightarrow> string list" where
  "split_by P [] = [[]]"
| "split_by P (c # cs) =
     (if P c then [] # split_by P cs
      else case split_by P cs of [] \<Rightarrow> [[c]] | w # ws \<Rightarrow> (c # w) # ws)"

text \<open>\<open>s.split()\<close> and \<open>" ".join(s.split())\<close>.\<close>

definition py_words :: "string \<Rightarrow> string list" where
  "py_words s = filter (\<lambda>w. w \<noteq> []) (split_by py_space s)"

definition squeeze :: "string \<Rightarrow> string" where
  "squeeze s = join '' '' (py_words s)"

lemma split_by_nonempty [simp]: "split_by P s \<noteq> []"
  by (induction s) (auto split: list.splits)

lemma split_by_free: "w \<in> set (split_by P s) \<Longrightarrow> \<not> list_ex P w"
  by (induction s arbitrary: w) (auto split: list.splits if_splits)

lemma split_by_id: "\<not> list_ex P s \<Longrightarrow> split_by P s = [s]"
  by (induction s) auto

lemma split_by_append:
  "\<not> list_ex P w \<Longrightarrow> P d \<Longrightarrow> split_by P (w @ d # s) = w # split_by P s"
  by (induction w) auto

lemma split_by_join:
  "ws \<noteq> [] \<Longrightarrow> P d \<Longrightarrow> \<forall>w \<in> set ws. \<not> list_ex P w \<Longrightarrow> split_by P (join [d] ws) = ws"
proof (induction "[d]" ws rule: join.induct)
  case (3 s t ss)
  then show ?case using split_by_append [of P s d "join [d] (t # ss)"] by simp
qed (auto simp: split_by_id)

lemma set_split_by: "w \<in> set (split_by P s) \<Longrightarrow> set w \<subseteq> set s"
  by (induction s arbitrary: w) (force split: list.splits if_splits)+

lemma py_words_clean: "w \<in> set (py_words s) \<Longrightarrow> w \<noteq> [] \<and> \<not> list_ex py_space w"
  by (auto simp: py_words_def dest: split_by_free)

lemma space_is_space [simp]: "py_space (CHR '' '')"
  by (simp add: py_space_def)

lemma py_words_squeeze [simp]: "py_words (squeeze s) = py_words s"
proof (cases "py_words s = []")
  case True
  then show ?thesis by (simp add: squeeze_def) (simp add: py_words_def)
next
  case False
  have "\<forall>w \<in> set (py_words s). \<not> list_ex py_space w" using py_words_clean by blast
  from split_by_join [OF False space_is_space this]
  have "split_by py_space (squeeze s) = py_words s" by (simp add: squeeze_def)
  then show ?thesis by (simp add: py_words_def [of "squeeze s"]) (simp add: py_words_def)
qed

lemma squeeze_idem [simp]: "squeeze (squeeze s) = squeeze s"
  by (simp add: squeeze_def [of "squeeze s"]) (simp add: squeeze_def)

subsection \<open>Paths\<close>

definition slash :: char where "slash = CHR ''/''"

definition path_parts :: "string \<Rightarrow> string list" where
  "path_parts p = split_by (\<lambda>c. c = slash) p"

text \<open>\<open>pathlib.Path(p).name\<close>: the last component that is neither empty nor a dot.\<close>

definition path_name :: "string \<Rightarrow> string" where
  "path_name p = (case rev (filter (\<lambda>w. w \<noteq> [] \<and> w \<noteq> ''.'') (path_parts p)) of [] \<Rightarrow> [] | w # _ \<Rightarrow> w)"

definition norm_step :: "bool \<Rightarrow> string list \<Rightarrow> string \<Rightarrow> string list" where
  "norm_step absolute got part =
     (if part = [] \<or> part = ''.'' then got
      else if part \<noteq> ''..'' \<or> (\<not> absolute \<and> got = []) \<or> (got \<noteq> [] \<and> hd got = ''..'') then part # got
      else tl got)"

text \<open>The components found so far are kept with the last one first.\<close>

definition initial_slashes :: "string \<Rightarrow> nat" where
  "initial_slashes p =
     (if \<not> prefix ''/'' p then 0 else if prefix ''//'' p \<and> \<not> prefix ''///'' p then 2 else 1)"

definition norm_parts :: "bool \<Rightarrow> string list \<Rightarrow> string list" where
  "norm_parts absolute comps = rev (foldl (norm_step absolute) [] comps)"

definition normpath :: "string \<Rightarrow> string" where
  "normpath p =
     (if p = [] then ''.''
      else let k = initial_slashes p;
               r = replicate k slash @ join ''/'' (norm_parts (k \<noteq> 0) (path_parts p))
           in if r = [] then ''.'' else r)"

subsection \<open>Normal forms\<close>

definition plain_part :: "string \<Rightarrow> bool" where
  "plain_part w \<longleftrightarrow> w \<noteq> [] \<and> w \<noteq> ''.'' \<and> w \<noteq> ''..'' \<and> slash \<notin> set w"

text \<open>Normal: plain names, and above them in a relative path steps to the parent.\<close>

definition normal_parts :: "bool \<Rightarrow> string list \<Rightarrow> bool" where
  "normal_parts absolute ws \<longleftrightarrow>
     (\<exists>k names. ws = replicate k ''..'' @ names \<and> list_all plain_part names \<and> (absolute \<longrightarrow> k = 0))"

definition normal_stack :: "bool \<Rightarrow> string list \<Rightarrow> bool" where
  "normal_stack absolute ws \<longleftrightarrow>
     (\<exists>k names. ws = names @ replicate k ''..'' \<and> list_all plain_part names \<and> (absolute \<longrightarrow> k = 0))"

lemma normal_stack_rev: "normal_stack absolute ws \<Longrightarrow> normal_parts absolute (rev ws)"
  unfolding normal_stack_def normal_parts_def
proof (elim exE conjE)
  fix k names
  assume "ws = names @ replicate k ''..''" "list_all plain_part names" "absolute \<longrightarrow> k = 0"
  then have "rev ws = replicate k ''..'' @ rev names \<and> list_all plain_part (rev names) \<and> (absolute \<longrightarrow> k = 0)"
    by (simp add: list_all_iff)
  then show "\<exists>k names. rev ws = replicate k ''..'' @ names \<and> list_all plain_part names \<and> (absolute \<longrightarrow> k = 0)"
    by blast
qed

lemma norm_step_normal:
  assumes "normal_stack absolute got" and "slash \<notin> set part"
  shows "normal_stack absolute (norm_step absolute got part)"
proof -
  obtain k names where d: "got = names @ replicate k ''..''" "list_all plain_part names" "absolute \<longrightarrow> k = 0"
    using assms(1) by (auto simp: normal_stack_def)
  consider (skip) "part = [] \<or> part = ''.''" | (up) "part = ''..''" | (name) "plain_part part"
    using assms(2) by (auto simp: plain_part_def)
  then show ?thesis
  proof cases
    case skip
    with assms(1) show ?thesis by (auto simp: norm_step_def)
  next
    case name
    then have "norm_step absolute got part = (part # names) @ replicate k ''..''"
      by (auto simp: norm_step_def plain_part_def d)
    with d name show ?thesis unfolding normal_stack_def by (metis list.pred_inject(2))
  next
    case up
    show ?thesis
    proof (cases names)
      case Nil
      with d up have "norm_step absolute got part = (if absolute then [] else replicate (Suc k) ''..'')"
        by (cases k) (auto simp: norm_step_def)
      then have "norm_step absolute got part = [] @ replicate (if absolute then 0 else Suc k) ''..''" by simp
      then show ?thesis unfolding normal_stack_def by (metis list.pred_inject(1))
    next
      case (Cons n ns)
      with d up have "norm_step absolute got part = ns @ replicate k ''..''"
        by (auto simp: norm_step_def plain_part_def)
      with d Cons show ?thesis unfolding normal_stack_def by auto
    qed
  qed
qed

lemma foldl_norm_normal:
  "\<forall>w \<in> set ws. slash \<notin> set w \<Longrightarrow> normal_stack absolute got \<Longrightarrow>
     normal_stack absolute (foldl (norm_step absolute) got ws)"
  by (induction ws arbitrary: got) (auto intro: norm_step_normal)

lemma path_parts_no_slash: "w \<in> set (path_parts p) \<Longrightarrow> slash \<notin> set w"
  by (auto simp: path_parts_def list_ex_iff dest: split_by_free)

lemma norm_parts_normal: "normal_parts absolute (norm_parts absolute (path_parts p))"
  unfolding norm_parts_def
  by (rule normal_stack_rev, rule foldl_norm_normal)
     (auto simp: normal_stack_def dest: path_parts_no_slash intro: exI [where x = 0])

lemma foldl_names: "list_all plain_part names \<Longrightarrow> foldl (norm_step absolute) got names = rev names @ got"
  by (induction names arbitrary: got) (auto simp: norm_step_def plain_part_def)

lemma foldl_ups: "foldl (norm_step False) (replicate j ''..'') (replicate k ''..'') = replicate (j + k) ''..''"
proof (induction k arbitrary: j)
  case (Suc k)
  have "norm_step False (replicate j ''..'') ''..'' = replicate (Suc j) ''..''"
    by (cases j) (auto simp: norm_step_def)
  with Suc [of "Suc j"] show ?case by simp
qed simp

lemma norm_parts_fixed: "normal_parts absolute ws \<Longrightarrow> norm_parts absolute ws = ws"
proof -
  assume "normal_parts absolute ws"
  then obtain k names where ws: "ws = replicate k ''..'' @ names" "list_all plain_part names" "absolute \<longrightarrow> k = 0"
    by (auto simp: normal_parts_def)
  show ?thesis
  proof (cases absolute)
    case True
    with ws show ?thesis by (simp add: norm_parts_def foldl_names)
  next
    case False
    with ws foldl_ups [of 0 k] show ?thesis by (simp add: norm_parts_def foldl_names)
  qed
qed

subsection \<open>Where a path leads\<close>

text \<open>
  A directory is the list of the names above it, last one first; a step goes to the parent (the root is its own
  parent) or to a child. This reading of paths knows nothing of symbolic links, as \<open>normpath\<close> does not.
\<close>

definition walk_step :: "string list \<Rightarrow> string \<Rightarrow> string list" where
  "walk_step dir part =
     (if part = [] \<or> part = ''.'' then dir else if part = ''..'' then tl dir else part # dir)"

definition walk :: "string list \<Rightarrow> string list \<Rightarrow> string list" where
  "walk dir parts = foldl walk_step dir parts"

definition leads_to :: "string list \<Rightarrow> string \<Rightarrow> string list" where
  "leads_to dir p = walk (if prefix ''/'' p then [] else dir) (path_parts p)"

lemma walk_norm_step:
  assumes "normal_stack absolute got" and "absolute \<longrightarrow> dir = []"
  shows "walk dir (rev (norm_step absolute got part)) = walk_step (walk dir (rev got)) part"
proof (cases "part = ''..'' \<and> got \<noteq> [] \<and> hd got \<noteq> ''..''")
  case True
  then obtain n ns where got: "got = n # ns" "n \<noteq> ''..''" by (cases got) auto
  then have "plain_part n"
    using assms(1) by (auto simp: normal_stack_def Cons_eq_append_conv Cons_replicate_eq)
  with got True show ?thesis
    by (simp add: norm_step_def walk_def walk_step_def plain_part_def)
next
  case not_pop: False
  show ?thesis
  proof (cases "part = [] \<or> part = ''.''")
    case True
    then show ?thesis by (auto simp: norm_step_def walk_def walk_step_def)
  next
    case named: False
    show ?thesis
    proof (cases "part = ''..'' \<and> absolute \<and> got = []")
      case True
      with assms(2) show ?thesis by (simp add: norm_step_def walk_def walk_step_def)
    next
      case False
      with named not_pop have "norm_step absolute got part = part # got"
        by (cases got) (auto simp: norm_step_def)
      then show ?thesis by (simp add: walk_def)
    qed
  qed
qed

lemma walk_norm_parts:
  assumes "\<forall>w \<in> set ws. slash \<notin> set w" and "absolute \<longrightarrow> dir = []"
  shows "walk dir (norm_parts absolute ws) = walk dir ws"
proof -
  have "normal_stack absolute got \<Longrightarrow>
      walk dir (rev (foldl (norm_step absolute) got ws)) = foldl walk_step (walk dir (rev got)) ws" for got
    using assms(1)
  proof (induction ws arbitrary: got)
    case Nil
    then show ?case by simp
  next
    case (Cons w ws)
    have "normal_stack absolute (norm_step absolute got w)" using Cons.prems norm_step_normal by simp
    with Cons walk_norm_step [OF Cons.prems(1) assms(2)] show ?case by simp
  qed
  moreover have "normal_stack absolute []" by (simp add: normal_stack_def)
  ultimately show ?thesis by (simp add: norm_parts_def walk_def)
qed

lemma normal_parts_clean: "normal_parts absolute ws \<Longrightarrow> w \<in> set ws \<Longrightarrow> w \<noteq> [] \<and> slash \<notin> set w \<and> w \<noteq> ''.''"
proof -
  assume "normal_parts absolute ws" and w: "w \<in> set ws"
  then obtain k names where "ws = replicate k ''..'' @ names" "list_all plain_part names"
    by (auto simp: normal_parts_def)
  with w have "w = ''..'' \<or> plain_part w" by (auto simp: list_all_iff)
  then show ?thesis by (elim disjE) (simp_all add: plain_part_def slash_def)
qed

lemma normal_parts_hd: "normal_parts absolute ws \<Longrightarrow> ws \<noteq> [] \<Longrightarrow> hd ws \<noteq> [] \<and> hd (hd ws) \<noteq> slash"
proof -
  assume "normal_parts absolute ws" "ws \<noteq> []"
  then have "hd ws \<noteq> [] \<and> slash \<notin> set (hd ws)"
    using normal_parts_clean [of absolute ws "hd ws"] hd_in_set by blast
  then show ?thesis by (metis hd_in_set)
qed

lemma walk_skip: "walk dir (replicate k [] @ ws) = walk dir ws"
  by (induction k) (auto simp: walk_def walk_step_def)

lemma path_parts_join:
  "normal_parts absolute ws \<Longrightarrow> ws \<noteq> [] \<Longrightarrow> path_parts (join ''/'' ws) = ws"
  unfolding path_parts_def
  by (rule split_by_join) (auto simp: slash_def list_ex_iff dest: normal_parts_clean)

lemma path_parts_slashes: "path_parts (replicate k slash @ s) = replicate k [] @ path_parts s"
  by (induction k) (simp_all add: path_parts_def)

lemma path_parts_only: "path_parts (replicate k slash) = replicate k [] @ [[]]"
  using path_parts_slashes [of k "[]"] by (simp add: path_parts_def)

text \<open>The result of \<open>normpath\<close> is the slashes and the normal components, which can be read off it again.\<close>

lemma normpath_shape:
  assumes "p \<noteq> []"
  defines "k \<equiv> initial_slashes p"
  defines "ws \<equiv> norm_parts (k \<noteq> 0) (path_parts p)"
  shows "normpath p = (if k = 0 \<and> ws = [] then ''.'' else replicate k slash @ join ''/'' ws)"
proof -
  have "join ''/'' ws = [] \<longleftrightarrow> ws = []"
  proof (cases ws)
    case (Cons w vs)
    have "w \<noteq> []"
      using normal_parts_clean [OF norm_parts_normal, of w "k \<noteq> 0" p] Cons by (simp add: ws_def)
    with Cons show ?thesis by (cases vs) auto
  qed simp
  moreover have "normpath p =
      (if replicate k slash @ join ''/'' ws = [] then ''.'' else replicate k slash @ join ''/'' ws)"
    using assms(1) by (simp only: normpath_def Let_def k_def ws_def if_False)
  ultimately show ?thesis by (cases "k = 0") auto
qed

lemma leads_to_parts: "leads_to dir p = walk (if initial_slashes p = 0 then dir else []) (path_parts p)"
  by (simp add: leads_to_def initial_slashes_def)

lemma initial_slashes_rebuild:
  assumes "ws = [] \<or> (hd ws \<noteq> [] \<and> hd (hd ws) \<noteq> slash)" and "k \<le> 2"
  shows "initial_slashes (replicate k slash @ join ''/'' ws) = k"
proof -
  have "\<not> prefix ''/'' (join ''/'' ws)"
  proof (cases ws)
    case (Cons w vs)
    with assms(1) obtain c cs where "w = c # cs" "c \<noteq> slash" by (cases w) auto
    with Cons show ?thesis by (cases vs) (auto simp: slash_def)
  qed simp
  moreover have "k = 0 \<or> k = 1 \<or> k = 2" using assms(2) by auto
  ultimately show ?thesis
    by (elim disjE) (auto simp: initial_slashes_def slash_def numeral_2_eq_2 prefix_def)
qed

lemma initial_slashes_le: "initial_slashes p \<le> 2"
  by (simp add: initial_slashes_def)

lemma normpath_leads: "p \<noteq> [] \<Longrightarrow> leads_to dir (normpath p) = leads_to dir p"
proof -
  assume ne: "p \<noteq> []"
  define k where "k = initial_slashes p"
  define ws where "ws = norm_parts (k \<noteq> 0) (path_parts p)"
  define start where "start = (if k = 0 then dir else [])"
  have normal: "normal_parts (k \<noteq> 0) ws" unfolding ws_def by (rule norm_parts_normal)
  have shape: "normpath p = (if k = 0 \<and> ws = [] then ''.'' else replicate k slash @ join ''/'' ws)"
    unfolding ws_def k_def by (rule normpath_shape [OF ne])
  have goal: "walk start ws = leads_to dir p"
    unfolding ws_def leads_to_parts k_def [symmetric] start_def [symmetric]
    by (rule walk_norm_parts) (auto simp: start_def dest: path_parts_no_slash)
  show ?thesis
  proof (cases "k = 0 \<and> ws = []")
    case True
    then have "leads_to dir (normpath p) = dir"
      by (simp add: shape leads_to_def path_parts_def slash_def walk_def walk_step_def)
    with True goal show ?thesis by (simp add: walk_def start_def)
  next
    case False
    have "hd ws \<noteq> [] \<and> hd (hd ws) \<noteq> slash" if "ws \<noteq> []"
      using normal_parts_hd [OF normal that] .
    then have "initial_slashes (normpath p) = k"
      using False shape initial_slashes_rebuild [of ws k] initial_slashes_le [of p] by (auto simp: k_def)
    moreover have "walk start (path_parts (normpath p)) = walk start ws"
    proof (cases "ws = []")
      case True
      with False have "path_parts (normpath p) = replicate k [] @ [[]]"
        by (simp add: shape path_parts_only)
      with True show ?thesis by (simp add: walk_skip) (simp add: walk_def walk_step_def)
    next
      case False
      then have "path_parts (normpath p) = replicate k [] @ ws"
        by (simp add: shape path_parts_slashes path_parts_join [OF normal])
      then show ?thesis by (simp add: walk_skip)
    qed
    ultimately show ?thesis using goal by (simp add: leads_to_parts start_def)
  qed
qed

lemma normpath_nonempty: "normpath p \<noteq> []"
  by (simp add: normpath_def Let_def)

lemma normpath_idem: "normpath (normpath p) = normpath p"
proof (cases "p = []")
  case True
  have "normpath (normpath []) = normpath []" by code_simp
  with True show ?thesis by simp
next
  case ne: False
  define k where "k = initial_slashes p"
  define ws where "ws = norm_parts (k \<noteq> 0) (path_parts p)"
  have normal: "normal_parts (k \<noteq> 0) ws" unfolding ws_def by (rule norm_parts_normal)
  have shape: "normpath p = (if k = 0 \<and> ws = [] then ''.'' else replicate k slash @ join ''/'' ws)"
    unfolding ws_def k_def by (rule normpath_shape [OF ne])
  show ?thesis
  proof (cases "k = 0 \<and> ws = []")
    case True
    have "normpath ''.'' = ''.''" by code_simp
    with True shape show ?thesis by simp
  next
    case False
    then have q: "normpath p = replicate k slash @ join ''/'' ws" by (simp add: shape)
    have hd: "hd ws \<noteq> [] \<and> hd (hd ws) \<noteq> slash" if "ws \<noteq> []"
      using normal_parts_hd [OF normal that] .
    then have k: "initial_slashes (normpath p) = k"
      using q initial_slashes_rebuild [of ws k] initial_slashes_le [of p] by (auto simp: k_def)
    have parts: "norm_parts (k \<noteq> 0) (path_parts (normpath p)) = ws"
    proof (cases "ws = []")
      case True
      have "foldl (norm_step a) [] (replicate j [] @ [[]]) = []" for a j
        by (induction j) (simp_all add: norm_step_def)
      moreover have "path_parts (normpath p) = replicate k [] @ [[]]"
        using True q by (simp add: path_parts_only)
      ultimately show ?thesis using True by (simp add: norm_parts_def)
    next
      case False
      have "foldl (norm_step a) [] (replicate j [] @ vs) = foldl (norm_step a) [] vs" for a j vs
        by (induction j) (simp_all add: norm_step_def)
      then have "norm_parts (k \<noteq> 0) (path_parts (normpath p)) = norm_parts (k \<noteq> 0) ws"
        using False q by (simp add: path_parts_slashes path_parts_join [OF normal] norm_parts_def)
      then show ?thesis using norm_parts_fixed [OF normal] by simp
    qed
    have "normpath (normpath p) = (if k = 0 \<and> ws = [] then ''.'' else replicate k slash @ join ''/'' ws)"
      using normpath_shape [OF normpath_nonempty [of p]] unfolding k parts .
    then show ?thesis by (simp only: shape)
  qed
qed

subsection \<open>Shell words\<close>

text \<open>
  \<open>shlex.split(s)\<close> as the automaton of the library: \<open>token\<close> is the word so far and \<open>quoted\<close> says that it had
  quotes, so that an empty quoted word counts. \<open>None\<close> is the \<open>ValueError\<close> of an open quotation or a final escape.
\<close>

datatype shell_state = Gap | Word | Quote char | Escape "char option"

definition backslash :: char where "backslash = char_of (92 :: nat)"
definition single_quote :: char where "single_quote = char_of (39 :: nat)"
definition double_quote :: char where "double_quote = char_of (34 :: nat)"

definition shell_space :: "char \<Rightarrow> bool" where
  "shell_space c = (let n = (of_char c :: nat) in n = 32 \<or> n = 9 \<or> n = 13 \<or> n = 10)"

definition is_quote :: "char \<Rightarrow> bool" where
  "is_quote c = (c = single_quote \<or> c = double_quote)"

fun shlex_from :: "shell_state \<Rightarrow> string \<Rightarrow> bool \<Rightarrow> string \<Rightarrow> string list option" where
  "shlex_from Gap token quoted [] = Some []"
| "shlex_from Gap token quoted (c # cs) =
     (if shell_space c then shlex_from Gap [] False cs
      else if c = backslash then shlex_from (Escape None) [] False cs
      else if is_quote c then shlex_from (Quote c) [] True cs
      else shlex_from Word [c] False cs)"
| "shlex_from (Quote q) token quoted [] = None"
| "shlex_from (Quote q) token quoted (c # cs) =
     (if c = q then shlex_from Word token True cs
      else if c = backslash \<and> q = double_quote then shlex_from (Escape (Some q)) token True cs
      else shlex_from (Quote q) (token @ [c]) True cs)"
| "shlex_from (Escape e) token quoted [] = None"
| "shlex_from (Escape e) token quoted (c # cs) =
     (case e of
        None \<Rightarrow> shlex_from Word (token @ [c]) quoted cs
      | Some q \<Rightarrow> shlex_from (Quote q)
          (token @ (if c \<noteq> backslash \<and> c \<noteq> q then [backslash] else []) @ [c]) quoted cs)"
| "shlex_from Word token quoted [] = Some (if token \<noteq> [] \<or> quoted then [token] else [])"
| "shlex_from Word token quoted (c # cs) =
     (if shell_space c then
        (if token \<noteq> [] \<or> quoted then map_option (Cons token) (shlex_from Gap [] False cs)
         else shlex_from Gap [] False cs)
      else if is_quote c then shlex_from (Quote c) token True cs
      else if c = backslash then shlex_from (Escape None) token quoted cs
      else shlex_from Word (token @ [c]) quoted cs)"

definition shlex_split :: "string \<Rightarrow> string list option" where
  "shlex_split s = shlex_from Gap [] False s"

definition shell_plain :: "char \<Rightarrow> bool" where
  "shell_plain c \<longleftrightarrow> \<not> shell_space c \<and> c \<noteq> backslash \<and> \<not> is_quote c"

lemma shlex_word:
  "list_all shell_plain w \<Longrightarrow> token @ w \<noteq> [] \<Longrightarrow>
     shlex_from Word token quoted (w @ CHR '' '' # cs) = map_option (Cons (token @ w)) (shlex_from Gap [] False cs)"
proof (induction w arbitrary: token)
  case (Cons c w)
  then show ?case using Cons.IH [of "token @ [c]"] by (simp add: shell_plain_def)
qed (simp add: shell_space_def)

lemma shlex_last:
  "list_all shell_plain w \<Longrightarrow> token @ w \<noteq> [] \<Longrightarrow> shlex_from Word token quoted w = Some [token @ w]"
proof (induction w arbitrary: token)
  case (Cons c w)
  then show ?case using Cons.IH [of "token @ [c]"] by (simp add: shell_plain_def)
qed simp

lemma shlex_gap:
  "shell_plain c \<Longrightarrow> shlex_from Gap token quoted (c # cs) = shlex_from Word [c] False cs"
  by (simp add: shell_plain_def)

lemma shlex_split_join:
  "list_all (\<lambda>w. w \<noteq> [] \<and> list_all shell_plain w) ws \<Longrightarrow> shlex_split (join '' '' ws) = Some ws"
  unfolding shlex_split_def
proof (induction "'' ''" ws rule: join.induct)
  case 1
  then show ?case by simp
next
  case (2 s)
  then obtain c cs where "s = c # cs" by (cases s) auto
  with 2 show ?case using shlex_last [of cs "[c]" False] by (simp add: shlex_gap del: shlex_from.simps)
next
  case (3 s t ss)
  then obtain c cs where s: "s = c # cs" by (cases s) auto
  have "shlex_from Gap [] False (join '' '' (t # ss)) = Some (t # ss)" using 3 by simp
  with 3 s show ?case
    using shlex_word [of cs "[c]" False "join '' '' (t # ss)"] by (simp add: shlex_gap del: shlex_from.simps)
qed

end
