(* ===== verification/RepeatTargets.thy ===== *)
theory RepeatTargets
  imports ShellText
begin

section \<open>Logical targets\<close>

text \<open>
  Models the first part of \<open>src/tok/runtime/repeat_targets.py\<close>: which file, search, listing or command a tool call
  is about, and the keys under which evidence is remembered. The tool names come from
  \<open>src/tok/compression/_tool_taxonomy.py\<close>. \<open>tmpdir\<close> is the system's directory of temporary files, \<open>sha\<close> the
  hexadecimal SHA-256.
\<close>

subsection \<open>Tool names\<close>

definition FILE_LIKE_TOOLS :: "string list" where
  "FILE_LIKE_TOOLS = [''view'', ''view_file'', ''read'', ''read_file'', ''cat'', ''open_file'', ''get_file'']"

definition EDIT_LIKE_TOOLS :: "string list" where
  "EDIT_LIKE_TOOLS = [''edit'', ''write'', ''edit_file'', ''write_file'', ''apply_patch'', ''str_replace_based_edit_tool'']"

definition SEARCH_LIKE_TOOLS :: "string list" where
  "SEARCH_LIKE_TOOLS = [''grep'', ''grep_search'', ''search'', ''rg'', ''find_by_name'', ''glob'', ''find'', ''code_search'']"

definition LISTING_LIKE_TOOLS :: "string list" where
  "LISTING_LIKE_TOOLS = [''list_dir'', ''ls'']"

definition COMMAND_LIKE_TOOLS :: "string list" where
  "COMMAND_LIKE_TOOLS = [''bash'', ''run_bash'', ''sh'', ''run_terminal'', ''computer'', ''run'', ''shell'', ''zsh'',
     ''bash_script'', ''execute_command'', ''cmd'', ''terminal'', ''exec'']"

definition PRECISION_READ_ARG_KEYS :: "string list" where
  "PRECISION_READ_ARG_KEYS = [''offset'', ''limit'', ''start'', ''end'']"

text \<open>\<open>context\<close> is \<open>None\<close> or a dictionary.\<close>

definition is_precision_read_context :: "json \<Rightarrow> bool" where
  "is_precision_read_context ctx =
     (truthy ctx \<and> py_lower (py_str (jget_or ''name'' (JStr []) ctx)) \<in> set FILE_LIKE_TOOLS \<and>
      (case jget ''args'' ctx of
         Some (JObj d) \<Rightarrow> list_ex (\<lambda>k. map_of d k \<noteq> None) PRECISION_READ_ARG_KEYS
       | _ \<Rightarrow> False))"

subsection \<open>Paths and commands\<close>

definition or_empty :: "string option \<Rightarrow> string" where
  "or_empty s = (case s of None \<Rightarrow> [] | Some t \<Rightarrow> t)"

definition given :: "string option \<Rightarrow> bool" where
  "given s = (or_empty s \<noteq> [])"

text \<open>\<open>a or b\<close> for optional strings.\<close>

definition first_given :: "string option \<Rightarrow> string option \<Rightarrow> string" where
  "first_given a b = (if given a then or_empty a else or_empty b)"

definition normalize_path_target :: "string \<Rightarrow> string" where
  "normalize_path_target p =
     (let text = map (\<lambda>c. if c = backslash then slash else c) (py_strip p) in
      if text = [] then []
      else if prefix ''/'' text then normpath text
      else let normalized = normpath text in if normalized = ''.'' then [] else normalized)"

definition path_or_missing :: "string \<Rightarrow> string" where
  "path_or_missing p = (if normalize_path_target p = [] then ''path-missing'' else normalize_path_target p)"

definition command_name :: "string \<Rightarrow> string" where
  "command_name w = py_lower (path_name w)"

definition SHELL_UNSAFE_MARKERS :: "string list" where
  "SHELL_UNSAFE_MARKERS = [''&&'', ''||'', '';'', ''|'', ''>>'', ''>'', ''<'', ''$('', ''`'', ''*'', ''?'']"

definition unsafe_shell :: "string \<Rightarrow> bool" where
  "unsafe_shell text = list_ex (\<lambda>m. py_contains m text) SHELL_UNSAFE_MARKERS"

definition classify_revision :: "string \<Rightarrow> string" where
  "classify_revision revision =
     (if revision = ''HEAD'' \<or> revision = ''head'' then ''HEAD''
      else if prefix ''HEAD~'' revision then ''HEAD~N''
      else if 4 \<le> length revision \<and> length revision \<le> 40 \<and> list_all is_hex revision then ''sha''
      else if prefix ''@'' revision then ''ref''
      else ''other'')"

text \<open>The two patterns are matched against text whose words are separated by single blanks.\<close>

definition git_show_match :: "string \<Rightarrow> (string \<times> string) option" where
  "git_show_match text =
     (if \<not> prefix ''git show '' text then None
      else let r = drop 9 text; a = takeWhile (\<lambda>c. c \<noteq> CHR '':'') r; b = drop (length a) r in
           if a = [] \<or> b = [] \<or> tl b = [] then None else Some (a, tl b))"

definition skip_blank :: "string \<Rightarrow> string" where
  "skip_blank s = (if prefix '' '' s then tl s else s)"

definition revision_char :: "char \<Rightarrow> bool" where
  "revision_char c = (word_char c \<or> c \<in> set ''@~^./:-'')"

fun git_diff_try :: "nat \<Rightarrow> string \<Rightarrow> (string \<times> string) option" where
  "git_diff_try 0 r = None"
| "git_diff_try (Suc k) r =
     (let rest = skip_blank (drop (Suc k) r); after = skip_blank (drop 2 rest) in
      if prefix ''--'' rest \<and> after \<noteq> [] then Some (take (Suc k) r, after) else git_diff_try k r)"

definition git_diff_match :: "string \<Rightarrow> (string \<times> string) option" where
  "git_diff_match text =
     (if \<not> prefix ''git diff '' text then None
      else let r = drop 9 text in git_diff_try (length (takeWhile revision_char r)) r)"

definition extract_git_history_path :: "string option \<Rightarrow> string option \<times> string" where
  "extract_git_history_path command =
     (let text = squeeze (or_empty command) in
      if text = [] then (None, [])
      else case git_show_match text of
        Some (revision, p) \<Rightarrow> (Some (normalize_path_target p), classify_revision revision)
      | None \<Rightarrow>
          (case git_diff_match text of
             Some (revision, p) \<Rightarrow> (Some (normalize_path_target (py_strip p)), classify_revision revision)
           | None \<Rightarrow> (None, [])))"

definition shell_words :: "string \<Rightarrow> string list" where
  "shell_words text = (case shlex_split text of Some ws \<Rightarrow> ws | None \<Rightarrow> py_words text)"

definition extract_shell_search_params :: "string option \<Rightarrow> string option \<times> string option" where
  "extract_shell_search_params command =
     (let text = squeeze (or_empty command) in
      if text = [] then (None, None)
      else case shell_words text of
        [] \<Rightarrow> (None, None)
      | w # ws \<Rightarrow>
          if command_name w \<notin> set [''grep'', ''rg'', ''ag''] then (None, None)
          else case filter (\<lambda>a. \<not> prefix ''-'' a \<and> a \<noteq> ''--'') ws of
            [] \<Rightarrow> (None, None)
          | [q] \<Rightarrow> (Some q, None)
          | q # r # rs \<Rightarrow> (Some q, Some (normalize_path_target (List.last (r # rs)))))"

definition METADATA_SUBTYPES :: "string list" where
  "METADATA_SUBTYPES = [''git'', ''stat'', ''wc'', ''file'', ''ls'', ''find'']"

definition extract_metadata_probe :: "string option \<Rightarrow> string option" where
  "extract_metadata_probe command =
     (let text = squeeze (or_empty command) in
      if text = [] \<or> unsafe_shell text then None
      else case shlex_split text of
        None \<Rightarrow> None
      | Some [] \<Rightarrow> None
      | Some (w # ws) \<Rightarrow>
          let cmd = command_name w in
          if cmd = ''git'' \<and> ws \<noteq> [] then
            (let sub = py_lower (hd ws) in
             if sub \<in> set [''log'', ''status'', ''shortlog'', ''blame''] then Some (''git_'' @ sub) else None)
          else if cmd \<in> set METADATA_SUBTYPES then Some cmd else None)"

definition is_env :: "string \<Rightarrow> bool" where
  "is_env w = (command_name w \<in> set [''env'', ''/usr/bin/env''])"

definition shell_read_cat_path :: "string list \<Rightarrow> string option" where
  "shell_read_cat_path args =
     (let args = (if take 1 args = [''--''] then tl args else args) in
      case args of [a] \<Rightarrow> Some a | _ \<Rightarrow> None)"

definition shell_read_head_tail_nl_path :: "string list \<Rightarrow> string option" where
  "shell_read_head_tail_nl_path args =
     (case filter (\<lambda>a. a \<noteq> ''--'' \<and> \<not> prefix ''-'' a) args of [a] \<Rightarrow> Some a | _ \<Rightarrow> None)"

definition shell_read_sed_path :: "string list \<Rightarrow> string option" where
  "shell_read_sed_path args = (if length args \<noteq> 3 \<or> hd args \<noteq> ''-n'' then None else Some (args ! 2))"

definition shell_read_handler :: "string \<Rightarrow> (string list \<Rightarrow> string option) option" where
  "shell_read_handler name =
     (if name = ''cat'' then Some shell_read_cat_path
      else if name \<in> set [''head'', ''tail'', ''nl''] then Some shell_read_head_tail_nl_path
      else if name = ''sed'' then Some shell_read_sed_path else None)"

definition extract_shell_file_read_path :: "string option \<Rightarrow> string option" where
  "extract_shell_file_read_path command =
     (let text = squeeze (or_empty command) in
      if text = [] \<or> unsafe_shell text then None
      else case shlex_split text of
        None \<Rightarrow> None
      | Some parts \<Rightarrow>
          (case dropWhile is_env parts of
             [] \<Rightarrow> None
           | w # args \<Rightarrow> (case shell_read_handler (command_name w) of None \<Rightarrow> None | Some h \<Rightarrow> h args)))"

definition normalize_command_parts :: "string list \<Rightarrow> string list" where
  "normalize_command_parts parts =
     (let parts = dropWhile is_env parts in
      if 2 \<le> length parts \<and> command_name (hd parts) = ''uv'' \<and> parts ! 1 = ''run'' then drop 2 parts else parts)"

definition normalize_command_family :: "string option \<Rightarrow> string" where
  "normalize_command_family command =
     (let text = squeeze (or_empty command) in
      if text = [] then []
      else
        let parts = normalize_command_parts (shell_words text) in
        if 3 \<le> length parts \<and> command_name (hd parts) \<in> set [''python'', ''python3''] \<and> parts ! 1 = ''-m''
        then py_lower (parts ! 2)
        else if parts = [] then py_lower text else command_name (hd parts))"

definition normalize_tool_family :: "string \<Rightarrow> string option \<Rightarrow> string option \<Rightarrow> string" where
  "normalize_tool_family tool_name query command =
     (let lowered = py_lower (py_strip tool_name) in
      if lowered \<in> set FILE_LIKE_TOOLS then ''file_read''
      else if lowered \<in> set LISTING_LIKE_TOOLS then ''listing''
      else if lowered \<in> set COMMAND_LIKE_TOOLS \<and> given (extract_shell_file_read_path command) then ''file_read''
      else if lowered \<in> set SEARCH_LIKE_TOOLS \<or> given query then ''search''
      else if lowered \<in> set COMMAND_LIKE_TOOLS \<or> given command then ''command''
      else if lowered = [] then ''unknown'' else lowered)"

fun parse_listing_args :: "string list \<Rightarrow> string \<Rightarrow> string list \<Rightarrow> string \<times> string" where
  "parse_listing_args [] listing_path mode_parts = (listing_path, py_strip (join '' '' mode_parts))"
| "parse_listing_args (a # as) listing_path mode_parts =
     (if a = ''--'' then parse_listing_args as listing_path mode_parts
      else if prefix ''-'' a then parse_listing_args as listing_path (mode_parts @ [a])
      else if listing_path = [] then parse_listing_args as a mode_parts
      else parse_listing_args as listing_path (mode_parts @ [a]))"

definition extract_shell_listing_target :: "string option \<Rightarrow> string \<times> string" where
  "extract_shell_listing_target command =
     (let text = squeeze (or_empty command) in
      if text = [] then ([], [])
      else case shlex_split text of
        None \<Rightarrow> ([], [])
      | Some parts \<Rightarrow>
          (case normalize_command_parts parts of
             [] \<Rightarrow> ([], [])
           | w # ws \<Rightarrow> if command_name w \<notin> set [''ls'', ''find''] then ([], []) else parse_listing_args ws [] []))"

subsection \<open>What a call is evidence for\<close>

record evidence_intent =
  ei_domain :: string
  ei_anchor :: string
  ei_variant :: string
  ei_novelty_key :: string
  ei_display_label :: string
  ei_source_kind :: string

definition is_temp_path :: "string \<Rightarrow> string \<Rightarrow> bool" where
  "is_temp_path tmpdir p =
     list_ex (\<lambda>pre. prefix pre (normalize_path_target p))
       [tmpdir, ''/tmp/'', ''/var/tmp/'', ''/private/tmp/'', ''tmp/'']"

definition json_opt :: "string option \<Rightarrow> json" where
  "json_opt s = (case s of None \<Rightarrow> JNull | Some t \<Rightarrow> JStr t)"

definition search_anchor :: "string option \<Rightarrow> string \<Rightarrow> string" where
  "search_anchor query scope = dumps_compact (JObj [(''query'', json_opt query), (''scope'', JStr scope)])"

definition at_scope :: "string \<Rightarrow> string \<Rightarrow> string" where
  "at_scope query scope = (if scope \<noteq> [] then query @ '' @ '' @ scope else query)"

definition resolve_command_intent :: "string \<Rightarrow> string \<Rightarrow> string option \<Rightarrow> evidence_intent option" where
  "resolve_command_intent tmpdir command p =
     (case extract_git_history_path (Some command) of (git_path, git_rev) \<Rightarrow>
      if given git_path then
        Some \<lparr>ei_domain = ''file_history'', ei_anchor = or_empty git_path, ei_variant = ''diff'',
              ei_novelty_key = git_rev, ei_display_label = or_empty git_path @ ''@'' @ git_rev,
              ei_source_kind = ''git_history''\<rparr>
      else case extract_shell_search_params (Some command) of (shell_query, shell_scope) \<Rightarrow>
      if given shell_query then
        (let scope = or_empty shell_scope; anchor = search_anchor shell_query scope in
         Some \<lparr>ei_domain = ''search'', ei_anchor = anchor, ei_variant = ''search_results'',
               ei_novelty_key = anchor, ei_display_label = at_scope (or_empty shell_query) scope,
               ei_source_kind = ''shell_search''\<rparr>)
      else case extract_metadata_probe (Some command) of
        Some subtype \<Rightarrow>
          (let meta_path = or_empty p in
           Some \<lparr>ei_domain = (if subtype \<in> set [''ls'', ''find''] then ''listing'' else ''file_metadata''),
                 ei_anchor = (if normalize_path_target meta_path = [] then subtype else normalize_path_target meta_path),
                 ei_variant = ''metadata'', ei_novelty_key = subtype,
                 ei_display_label = (if meta_path \<noteq> [] then subtype @ '':'' @ meta_path else subtype),
                 ei_source_kind = ''metadata_probe''\<rparr>)
      | None \<Rightarrow>
          (let shell_read_path = extract_shell_file_read_path (Some command) in
           if given shell_read_path then
             (let f = or_empty shell_read_path; is_temp = is_temp_path tmpdir f in
              Some \<lparr>ei_domain = ''file_current'', ei_anchor = path_or_missing f,
                    ei_variant = (if is_temp then ''copy'' else ''full''), ei_novelty_key = [],
                    ei_display_label = f, ei_source_kind = (if is_temp then ''temp_copy'' else ''shell_read'')\<rparr>)
           else None))"

definition resolve_native_intent :: "string \<Rightarrow> string option \<Rightarrow> string option \<Rightarrow> evidence_intent option" where
  "resolve_native_intent tool_name p query =
     (if tool_name \<in> set FILE_LIKE_TOOLS \<and> given p then
        Some \<lparr>ei_domain = ''file_current'', ei_anchor = path_or_missing (or_empty p), ei_variant = ''full'',
              ei_novelty_key = [], ei_display_label = or_empty p, ei_source_kind = ''native_tool''\<rparr>
      else if tool_name \<in> set LISTING_LIKE_TOOLS \<and> given p then
        Some \<lparr>ei_domain = ''listing'', ei_anchor = path_or_missing (or_empty p), ei_variant = ''search_results'',
              ei_novelty_key = [], ei_display_label = or_empty p, ei_source_kind = ''native_tool''\<rparr>
      else if tool_name \<in> set SEARCH_LIKE_TOOLS \<or> given query then
        (let scope = normalize_path_target (or_empty p); anchor = search_anchor query scope in
         Some \<lparr>ei_domain = ''search'', ei_anchor = anchor, ei_variant = ''search_results'',
               ei_novelty_key = anchor, ei_display_label = at_scope (or_empty query) scope,
               ei_source_kind = ''native_tool''\<rparr>)
      else None)"

definition resolve_evidence_intent ::
    "string \<Rightarrow> string \<Rightarrow> string option \<Rightarrow> string option \<Rightarrow> string option \<Rightarrow> evidence_intent option" where
  "resolve_evidence_intent tmpdir tool_name p query command =
     (let lowered = py_lower (py_strip tool_name);
          intent = (if lowered \<in> set COMMAND_LIKE_TOOLS \<and> given command
                    then resolve_command_intent tmpdir (or_empty command) p else None)
      in case intent of Some i \<Rightarrow> Some i | None \<Rightarrow> resolve_native_intent lowered p query)"

subsection \<open>Keys of targets\<close>

definition identity_entry :: "string list \<Rightarrow> string \<times> json \<Rightarrow> (string \<times> json) option" where
  "identity_entry excluded entry =
     (case entry of (key, value) \<Rightarrow>
      if key \<in> set excluded then None
      else case value of
        JStr s \<Rightarrow> if squeeze s = [] then None else Some (key, JStr (squeeze s))
      | JInt _ \<Rightarrow> Some (key, value)
      | JFloat _ \<Rightarrow> Some (key, value)
      | JBool _ \<Rightarrow> Some (key, value)
      | JNull \<Rightarrow> None
      | _ \<Rightarrow> Some (key, JStr (str_strip value)))"

definition normalize_identity_args :: "json dict \<Rightarrow> string list \<Rightarrow> json dict" where
  "normalize_identity_args args excluded = List.map_filter (identity_entry excluded) args"

definition IDENTITY_EXCLUDED :: "string list" where
  "IDENTITY_EXCLUDED =
     [''path'', ''file_path'', ''AbsolutePath'', ''TargetFile'', ''SearchDirectory'', ''search_folder_absolute_uri'',
      ''query'', ''pattern'', ''Pattern'', ''search'', ''search_term'', ''text'', ''command'', ''cmd'', ''offset'',
      ''limit'', ''start'', ''end'']"

definition evidence_identity_key ::
    "string \<Rightarrow> string option \<Rightarrow> string option \<Rightarrow> string option \<Rightarrow> json dict \<Rightarrow> string option" where
  "evidence_identity_key tool_name p query command args =
     (let lowered = py_lower (py_strip tool_name); shell_path = extract_shell_file_read_path command in
      if lowered \<in> set FILE_LIKE_TOOLS \<or> given shell_path then
        Some (''file_read|'' @ path_or_missing (first_given p shell_path))
      else case extract_shell_search_params command of (shell_query, shell_scope) \<Rightarrow>
      if lowered \<in> set SEARCH_LIKE_TOOLS \<or> given shell_query then
        Some (''search|'' @ dumps_compact (JObj
          [(''flags'', JObj (normalize_identity_args args IDENTITY_EXCLUDED)),
           (''query'', JStr (squeeze (first_given query shell_query))),
           (''scope'', JStr (normalize_path_target (first_given p shell_scope)))]))
      else case extract_shell_listing_target command of (listing_path, listing_mode) \<Rightarrow>
      if lowered \<in> set LISTING_LIKE_TOOLS \<or> listing_path \<noteq> [] then
        Some (''listing|'' @ dumps_compact (JObj
          [(''mode'', if listing_mode \<noteq> [] then JObj [(''command_mode'', JStr listing_mode)]
                    else JObj (normalize_identity_args args IDENTITY_EXCLUDED)),
           (''path'', JStr (path_or_missing (first_given p (Some listing_path))))]))
      else None)"

text \<open>\<open>json.dumps\<close> of a dictionary of strings with the default separators, in insertion order.\<close>

definition dumps_str_dict :: "string dict \<Rightarrow> string" where
  "dumps_str_dict d = ''{'' @ join '', '' (map (\<lambda>(k, v). dumps_str k @ '': '' @ dumps_str v) d) @ ''}''"

definition LISTING_EXCLUDED :: "string list" where
  "LISTING_EXCLUDED = [''path'', ''file_path'', ''AbsolutePath'', ''TargetFile'', ''text'', ''command'', ''cmd'']"

definition logical_target_identity ::
    "string \<Rightarrow> string option \<Rightarrow> string option \<Rightarrow> string option \<Rightarrow> json dict \<Rightarrow> string \<times> string" where
  "logical_target_identity tool_name p query command args =
     (let family = normalize_tool_family tool_name query command in
      (family,
       if family = ''file_read'' then path_or_missing (first_given p (extract_shell_file_read_path command))
       else if family = ''search'' then
         dumps_compact (JObj [(''query'', JStr (squeeze (or_empty query))),
           (''search_path'', JStr (normalize_path_target (or_empty p)))])
       else if family = ''listing'' then
         (case extract_shell_listing_target command of (shell_path, shell_mode) \<Rightarrow>
            dumps_compact (JObj
              [(''mode'', JStr (if shell_mode \<noteq> [] then shell_mode
                 else dumps_str_dict (map (\<lambda>(k, v). (k, py_str v)) (normalize_identity_args args LISTING_EXCLUDED)))),
               (''path'', JStr (path_or_missing (first_given p (Some shell_path))))]))
       else if family = ''command'' then dumps_compact (JObj [(''family'', JStr (normalize_command_family command))])
       else dumps_compact (JObj [(''path'', JStr (normalize_path_target (or_empty p))),
           (''query'', JStr (squeeze (or_empty query))), (''command'', JStr (squeeze (or_empty command)))])))"

definition display_target_label ::
    "string \<Rightarrow> string option \<Rightarrow> string option \<Rightarrow> string option \<Rightarrow> string \<Rightarrow> string" where
  "display_target_label family p query command logical_target =
     (if family = ''file_read'' then
        py_strip (first_given (Some (first_given p (extract_shell_file_read_path command))) (Some logical_target))
      else if family = ''search'' then
        (let q = squeeze (or_empty query); t = py_strip (or_empty p) in
         if q \<noteq> [] \<and> t \<noteq> [] then q @ '' @ '' @ t else first_given (Some q) (Some logical_target))
      else if family = ''listing'' then first_given (Some (py_strip (or_empty p))) (Some logical_target)
      else if family = ''command'' then first_given (Some (normalize_command_family command)) (Some logical_target)
      else logical_target)"

definition stable_digest :: "(string \<Rightarrow> string) \<Rightarrow> string \<Rightarrow> string" where
  "stable_digest sha text = take 16 (sha (utf8_encode text))"

record hot_summary_record =
  hs_tool_family :: string
  hs_logical_target :: string
  hs_display_target :: string
  hs_summary :: string
  hs_token_cost :: int
  hs_result_digest :: string
  hs_last_seen_turn :: int
  hs_exact_evidence_key :: string
  hs_hot_promotion_turn :: int
  hs_stuck_promotion_turn :: int
  hs_last_injected_turn :: int
  hs_repeat_count :: int
  hs_recent_window_count :: int
  hs_stuck_window_count :: int
  hs_unchanged_result_count :: int
  hs_evidence_intent :: "evidence_intent option"
  hs_skeleton :: string
  hs_tokens_saved :: int

record repeat_target_event =
  re_turn_index :: int
  re_tool_family :: string
  re_logical_target :: string
  re_display_target :: string
  re_token_cost :: int
  re_result_digest :: string
  re_unchanged_result :: bool
  re_evidence_anchor :: string

subsection \<open>Facts about paths and words\<close>

definition slashed :: "string \<Rightarrow> string" where
  "slashed p = map (\<lambda>c. if c = backslash then slash else c) (py_strip p)"

lemma leads_to_Nil: "leads_to dir [] = dir"
  by (simp add: leads_to_def path_parts_def walk_def walk_step_def)

lemma leads_to_dot: "leads_to dir ''.'' = dir"
  by (simp add: leads_to_def path_parts_def slash_def walk_def walk_step_def)

lemma normalize_path_cases:
  "normalize_path_target p =
     (if slashed p = [] \<or> normpath (slashed p) = ''.'' then [] else normpath (slashed p))"
proof -
  have "normpath t \<noteq> ''.''" if "prefix ''/'' t" for t
  proof -
    have t: "t \<noteq> []" and k: "initial_slashes t \<noteq> 0" using that by (auto simp: initial_slashes_def)
    then obtain j where "initial_slashes t = Suc j" by (cases "initial_slashes t") auto
    with normpath_shape [OF t] show ?thesis by (simp add: slash_def)
  qed
  then show ?thesis by (auto simp: normalize_path_target_def slashed_def Let_def)
qed

lemma normalize_path_leads: "leads_to dir (normalize_path_target p) = leads_to dir (slashed p)"
proof (cases "slashed p = []")
  case True
  then show ?thesis by (simp add: normalize_path_cases)
next
  case False
  with normpath_leads [OF False, of dir] show ?thesis
    by (auto simp: normalize_path_cases leads_to_Nil leads_to_dot)
qed

lemma set_tl: "set (tl xs) \<subseteq> set xs"
  by (cases xs) auto

lemma backslash_slash [simp]: "backslash \<noteq> slash" "slash \<noteq> backslash"
  by code_simp+

lemma norm_parts_chars: "\<forall>w \<in> set (norm_parts a ws). w \<in> set ws"
proof -
  have "set (norm_step a got w) \<subseteq> insert w (set got)" for got w
    using set_tl [of got] by (auto simp: norm_step_def)
  then have "set (foldl (norm_step a) got ws) \<subseteq> set got \<union> set ws" for got
  proof (induction ws arbitrary: got)
    case (Cons w ws)
    have "set (foldl (norm_step a) (norm_step a got w) ws) \<subseteq> set (norm_step a got w) \<union> set ws"
      using Cons by simp
    with Cons.prems [of got w] show ?case by auto
  qed simp
  from this [of "[]"] show ?thesis by (auto simp: norm_parts_def)
qed

lemma set_join: "set (join sep ws) \<subseteq> set sep \<union> (\<Union>w \<in> set ws. set w)"
  by (induction sep ws rule: join.induct) auto

lemma normpath_chars: "backslash \<notin> set p \<Longrightarrow> backslash \<notin> set (normpath p)"
proof -
  assume p: "backslash \<notin> set p"
  have "backslash \<notin> set w" if "w \<in> set (norm_parts a (path_parts p))" for w a
    using that norm_parts_chars [of a "path_parts p"] set_split_by [of w] p by (auto simp: path_parts_def)
  then have "backslash \<notin> set (join ''/'' (norm_parts a (path_parts p)))" for a
    using set_join [of "[slash]" "norm_parts a (path_parts p)"] by (auto simp: slash_def [symmetric])
  moreover have "backslash \<notin> set ''.''" by code_simp
  ultimately show ?thesis by (auto simp: normpath_def Let_def)
qed

lemma slashed_id: "py_strip q = q \<Longrightarrow> backslash \<notin> set q \<Longrightarrow> slashed q = q"
  by (auto simp: slashed_def intro: map_idI)

lemma normalize_path_idem:
  assumes "py_strip (normalize_path_target p) = normalize_path_target p"
  shows "normalize_path_target (normalize_path_target p) = normalize_path_target p"
proof (cases "slashed p = [] \<or> normpath (slashed p) = ''.''")
  case True
  then have "normalize_path_target p = []" by (simp add: normalize_path_cases)
  then show ?thesis by (simp add: normalize_path_target_def)
next
  case False
  then have n: "normalize_path_target p = normpath (slashed p)" by (simp add: normalize_path_cases)
  have "backslash \<notin> set (slashed p)" by (auto simp: slashed_def)
  with assms n have "slashed (normalize_path_target p) = normpath (slashed p)"
    using slashed_id normpath_chars by simp
  then show ?thesis
    using False n normpath_nonempty normalize_path_cases [of "normpath (slashed p)"] by (simp add: normpath_idem)
qed

lemma path_or_missing_nonempty: "path_or_missing p \<noteq> []"
  by (simp add: path_or_missing_def)

definition plain_path_char :: "char \<Rightarrow> bool" where
  "plain_path_char c \<longleftrightarrow> shell_plain c \<and> \<not> py_space c \<and> c \<notin> set ''&|;><$`*?''"

lemma py_contains_hd: "py_contains (c # m) s \<Longrightarrow> c \<in> set s"
proof -
  assume "py_contains (c # m) s"
  then obtain i where "py_find (c # m) s = Some i" by (auto simp: py_contains_def)
  then have "prefix (c # m) (drop i s)" by (rule py_find_Some_prefix)
  then have "c \<in> set (drop i s)" by (auto simp: prefix_def)
  then show ?thesis by (rule in_set_dropD)
qed

lemma safe_text: "\<forall>c \<in> set s. c \<notin> set ''&|;><$`*?'' \<Longrightarrow> \<not> unsafe_shell s"
  unfolding unsafe_shell_def SHELL_UNSAFE_MARKERS_def
  by (auto dest!: py_contains_hd)

lemma squeeze_words:
  "ws \<noteq> [] \<Longrightarrow> list_all (\<lambda>w. w \<noteq> [] \<and> \<not> list_ex py_space w) ws \<Longrightarrow> squeeze (join '' '' ws) = join '' '' ws"
proof -
  assume ws: "ws \<noteq> []" "list_all (\<lambda>w. w \<noteq> [] \<and> \<not> list_ex py_space w) ws"
  then have "split_by py_space (join [CHR '' ''] ws) = ws"
    by (intro split_by_join) (auto simp: list_all_iff)
  moreover have "filter (\<lambda>w. w \<noteq> []) ws = ws" using ws(2) by (auto simp: list_all_iff)
  ultimately show ?thesis by (simp add: squeeze_def py_words_def)
qed

lemma path_name_plain: "slash \<notin> set w \<Longrightarrow> w \<noteq> [] \<Longrightarrow> w \<noteq> ''.'' \<Longrightarrow> path_name w = w"
  by (simp add: path_name_def path_parts_def split_by_id list_ex_iff)

lemma shell_read_cat:
  assumes "p \<noteq> []" "p \<noteq> ''--''" "list_all plain_path_char p"
  shows "extract_shell_file_read_path (Some (''cat '' @ p)) = Some p"
proof -
  have j: "''cat '' @ p = join '' '' [''cat'', p]" by simp
  have pc: "\<forall>c \<in> set p. plain_path_char c" using assms(3) by (simp add: list_all_iff)
  have cat: "list_all plain_path_char ''cat''" by code_simp
  have sq: "squeeze (''cat '' @ p) = ''cat '' @ p"
    unfolding j using assms(1) pc cat by (intro squeeze_words) (auto simp: list_ex_iff list_all_iff plain_path_char_def)
  have split: "shlex_split (''cat '' @ p) = Some [''cat'', p]"
    unfolding j using assms(1) pc cat by (intro shlex_split_join) (auto simp: list_all_iff plain_path_char_def)
  have safe: "\<not> unsafe_shell (''cat '' @ p)"
    using pc by (intro safe_text) (auto simp: plain_path_char_def)
  have name: "command_name ''cat'' = ''cat''" by code_simp
  then have "\<not> is_env ''cat''" by (simp add: is_env_def)
  then show ?thesis
    using assms(2) sq split safe name
    by (simp add: extract_shell_file_read_path_def or_empty_def shell_read_handler_def shell_read_cat_path_def)
qed

subsection \<open>Properties\<close>

text \<open>
  Normalising a path never changes where it leads: from every directory, the normalised path and the given
  one (without surrounding blanks, backslashes read as slashes) lead to the same place. Normalising again
  changes nothing unless the result begins or ends with a blank.
\<close>

lemma normalized_path_same_place:
  "leads_to dir (normalize_path_target p) = leads_to dir (slashed p) \<and>
   (py_strip (normalize_path_target p) = normalize_path_target p \<longrightarrow>
      normalize_path_target (normalize_path_target p) = normalize_path_target p)"
  using normalize_path_leads normalize_path_idem by blast

lemma normalized_path_same_place_witness:
  "leads_to [''home''] ''../etc'' = leads_to [''home''] ''.//x/../../etc/'' \<and> normalize_path_target ''../etc'' = ''../etc''"
proof -
  have n: "normalize_path_target ''.//x/../../etc/'' = ''../etc''" by code_simp
  have s: "slashed ''.//x/../../etc/'' = ''.//x/../../etc/''" by code_simp
  have strip: "py_strip ''../etc'' = ''../etc''" by code_simp
  show ?thesis
    using normalized_path_same_place [of "[''home'']" "''.//x/../../etc/''"] strip unfolding n s by blast
qed

text \<open>A path that names nothing, such as the dot, has the key of a file called \<open>path-missing\<close>.\<close>

lemma file_read_key:
  assumes "py_lower (py_strip t) \<in> set FILE_LIKE_TOOLS"
  shows "evidence_identity_key t (Some f) None None a = Some (''file_read|'' @ path_or_missing f)"
proof -
  have none: "extract_shell_file_read_path None = None" by code_simp
  have missing: "path_or_missing [] = ''path-missing''" by code_simp
  from assms none missing show ?thesis
    by (cases f) (simp_all add: evidence_identity_key_def first_given_def given_def or_empty_def)
qed

lemma missing_path_collides:
  "evidence_identity_key ''read'' (Some ''.'') None None [] = evidence_identity_key ''read'' (Some ''path-missing'') None None []"
  by code_simp

text \<open>
  C36: Reading a file through the shell counts as the same evidence as reading it through a file tool: for a path
  without blanks and shell characters, other than empty and \<open>--\<close>, \<open>cat path\<close> and the tool call have the same key. Two reads through
  file tools, the first of such a path, have the same key exactly when their paths have the same normal form
  (\<open>normalize_path_target\<close>), but for one collision: a path that normalises to nothing shares its key with a file called
  \<open>path-missing\<close>. And paths of the same normal form lead, from every directory, to the same place (with \<open>..\<close> taken by name, without
  following links).
\<close>

theorem shell_read_same_evidence:
  assumes "p \<noteq> []" and "p \<noteq> ''--''" and "list_all plain_path_char p"
  shows "evidence_identity_key ''bash'' None None (Some (''cat '' @ p)) args =
      evidence_identity_key ''read'' (Some p) None None args' \<and>
    (evidence_identity_key ''read'' (Some p) None None args' = evidence_identity_key ''view'' (Some q) None None args'' \<longleftrightarrow>
      normalize_path_target p = normalize_path_target q \<or>
      {normalize_path_target p, normalize_path_target q} = {[], ''path-missing''}) \<and>
    (normalize_path_target p = normalize_path_target q \<longrightarrow> leads_to dir (slashed p) = leads_to dir (slashed q))"
proof -
  have tools: "py_lower (py_strip ''bash'') \<notin> set FILE_LIKE_TOOLS" "py_lower (py_strip ''read'') \<in> set FILE_LIKE_TOOLS"
    "py_lower (py_strip ''view'') \<in> set FILE_LIKE_TOOLS" by code_simp+
  have shell: "given (extract_shell_file_read_path (Some (''cat '' @ p)))"
    "or_empty (extract_shell_file_read_path (Some (''cat '' @ p))) = p"
    using assms(1) unfolding shell_read_cat [OF assms] by (simp_all add: given_def or_empty_def)
  have "evidence_identity_key ''bash'' None None (Some (''cat '' @ p)) args = Some (''file_read|'' @ path_or_missing p)"
    using shell by (simp add: evidence_identity_key_def first_given_def Let_def) (simp add: given_def or_empty_def)
  moreover have "path_or_missing p = path_or_missing q \<longleftrightarrow> normalize_path_target p = normalize_path_target q \<or>
      {normalize_path_target p, normalize_path_target q} = {[], ''path-missing''}"
    by (auto simp: path_or_missing_def doubleton_eq_iff)
  moreover have "leads_to dir (slashed p) = leads_to dir (slashed q)" if "normalize_path_target p = normalize_path_target q"
    using that normalize_path_leads by metis
  ultimately show ?thesis by (simp add: file_read_key tools)
qed

theorem shell_read_same_evidence_witness:
  "evidence_identity_key ''bash'' None None (Some (''cat '' @ ''src/a.py'')) [] =
     evidence_identity_key ''read'' (Some ''src/a.py'') None None [] \<and>
   leads_to [] (slashed ''src/a.py'') = leads_to [] (slashed ''./src//b/../a.py'')"
proof -
  have p: "''src/a.py'' \<noteq> []" "''src/a.py'' \<noteq> ''--''" by simp_all
  have plain: "list_all plain_path_char ''src/a.py''" by code_simp
  have "normalize_path_target ''src/a.py'' = normalize_path_target ''./src//b/../a.py''" by code_simp
  with shell_read_same_evidence [OF p plain, of "[]" "[]" "''./src//b/../a.py''" "[]" "[]"] show ?thesis by blast
qed

end
