(* ===== verification/TargetSummaries.thy ===== *)
theory TargetSummaries
  imports RepeatTargets
begin

section \<open>Summaries of results\<close>

text \<open>
  Models the second part of \<open>src/tok/runtime/repeat_targets.py\<close>: how much a search result proves, and the short
  summaries and skeletons that stand for a result seen before. \<open>loads\<close> is \<open>json.loads\<close> (\<open>None\<close> when it raises)
  and \<open>dots\<close> the ellipsis character, which lies outside the code points of the model.
\<close>

subsection \<open>Search results\<close>

text \<open>
  \<open>_SEARCH_RESULT_LINE_RE\<close> on one line: the earliest place that reads \<open>:12:\<close> or \<open>:12:5:\<close>; the result is what
  follows, without leading blanks.
\<close>

definition colon :: char where "colon = CHR '':''"

definition position_tail :: "string \<Rightarrow> string option" where
  "position_tail s =
     (case s of [] \<Rightarrow> None
      | c # r \<Rightarrow>
        if c \<noteq> colon then None
        else case span is_digit r of (ds, r1) \<Rightarrow>
          if ds = [] \<or> \<not> prefix [colon] r1 then None
          else case span is_digit (tl r1) of (es, r3) \<Rightarrow>
            if es \<noteq> [] \<and> prefix [colon] r3 then Some (tl r3) else Some (tl r1))"

fun search_payload :: "string \<Rightarrow> string option" where
  "search_payload [] = None"
| "search_payload (c # cs) =
     (case position_tail (c # cs) of
        Some t \<Rightarrow> Some (dropWhile py_space t)
      | None \<Rightarrow> search_payload cs)"

definition dash_number :: "string \<Rightarrow> bool" where
  "dash_number s =
     (prefix ''-'' s \<and> (case span is_digit (tl s) of (ds, r) \<Rightarrow> ds \<noteq> [] \<and> prefix ''-'' r))"

definition context_line :: "string \<Rightarrow> bool" where
  "context_line s =
     (let head = takeWhile (\<lambda>c. c \<noteq> colon) s in
      head \<noteq> [] \<and> \<not> py_space (hd head) \<and> list_ex (\<lambda>i. dash_number (drop i head)) [1..<length head])"

definition EVIDENCE_KEYS :: "string list" where
  "EVIDENCE_KEYS = [''line'', ''snippet'', ''content'', ''text'', ''match'', ''context'']"

definition has_line_evidence :: "string list \<Rightarrow> bool" where
  "has_line_evidence ls = (list_ex (\<lambda>l. search_payload l \<noteq> None) ls \<or> list_ex context_line ls)"

definition has_json_array_evidence :: "json list \<Rightarrow> bool" where
  "has_json_array_evidence data =
     list_ex (\<lambda>item. case item of JObj d \<Rightarrow> list_ex (\<lambda>(k, _). py_lower k \<in> set EVIDENCE_KEYS) d | _ \<Rightarrow> False) data"

definition non_empty_lines :: "string \<Rightarrow> string list" where
  "non_empty_lines text = filter (\<lambda>l. l \<noteq> []) (map py_strip (splitlines text))"

definition search_result_evidence_level :: "(string \<Rightarrow> json option) \<Rightarrow> string \<Rightarrow> string" where
  "search_result_evidence_level loads text =
     (let cleaned = py_strip text; ls = non_empty_lines cleaned in
      if cleaned = [] \<or> ls = [] then ''navigation''
      else if has_line_evidence ls then ''exact_content''
      else if hd cleaned = CHR ''['' \<and> List.last cleaned = CHR '']'' then
        (case loads cleaned of
           Some (JList data) \<Rightarrow> if has_json_array_evidence data then ''exact_content'' else ''navigation''
         | _ \<Rightarrow> ''navigation'')
      else ''navigation'')"

subsection \<open>Summaries\<close>

definition truncate_chars :: "char \<Rightarrow> string \<Rightarrow> int \<Rightarrow> string" where
  "truncate_chars dots text limit =
     (let cleaned = py_strip text in
      if int (length cleaned) \<le> limit then cleaned
      else if limit \<le> 1 then slice_to limit cleaned
      else rstrip (slice_to (limit - 1) cleaned) @ [dots])"

fun fitting_lines :: "int \<Rightarrow> string list \<Rightarrow> string list \<Rightarrow> string list" where
  "fitting_lines limit parts [] = parts"
| "fitting_lines limit parts (l # ls) =
     (let item = py_strip l in
      if item = [] then fitting_lines limit parts ls
      else if limit < int (length (join '' | '' (parts @ [item]))) then parts
      else fitting_lines limit (parts @ [item]) ls)"

definition join_summary_lines :: "char \<Rightarrow> string list \<Rightarrow> int \<Rightarrow> string" where
  "join_summary_lines dots ls limit = truncate_chars dots (join '' | '' (fitting_lines limit [] ls)) limit"

definition summary_scoring_text :: "string \<Rightarrow> string" where
  "summary_scoring_text line =
     (let stripped = py_strip line in
      case search_payload stripped of
        Some payload \<Rightarrow> if py_strip payload \<noteq> [] then py_strip payload else stripped
      | None \<Rightarrow> stripped)"

definition starts_any :: "string list \<Rightarrow> string \<Rightarrow> bool" where
  "starts_any heads s = list_ex (\<lambda>p. prefix p s) heads"

definition positive_score :: "string \<Rightarrow> int" where
  "positive_score l =
     (if starts_any [''def '', ''async def '', ''class ''] l then 120 else 0) +
     (if starts_any [''return '', ''raise '', ''yield ''] l then 110 else 0) +
     (if starts_any [''import '', ''from ''] l then 90 else 0) +
     (if starts_any [''if '', ''elif '', ''else:'', ''for '', ''while '', ''try:'', ''except '', ''with '', ''match '',
          ''case ''] l then 70 else 0) +
     (if starts_any [''@''] l then 20 else 0)"

definition negative_score :: "string \<Rightarrow> string \<Rightarrow> int" where
  "negative_score text l =
     - (if starts_any [''pass'', ''continue'', ''break''] l then 80 else 0)
     - (if starts_any [''#''] l then 40 else 0)
     - (if py_contains ''except Exception'' text then 80 else 0)
     - (if py_contains ''except BaseException'' text then 80 else 0)
     - (if list_ex (\<lambda>t. py_contains t text)
            [''logger.debug'', ''logger.info'', ''logger.warning'', ''logger.error'', ''print(''] then 60 else 0)"

text \<open>\<open>_ASSIGNMENT_RE\<close>: an equals sign that is part of no comparison.\<close>

fun assignment_from :: "char option \<Rightarrow> string \<Rightarrow> bool" where
  "assignment_from before [] = False"
| "assignment_from before (c # cs) =
     ((c = CHR ''='' \<and> (case before of None \<Rightarrow> True | Some b \<Rightarrow> b \<notin> set ''=!<>'') \<and> \<not> prefix ''='' cs) \<or>
      assignment_from (Some c) cs)"

definition has_assignment :: "string \<Rightarrow> bool" where
  "has_assignment text =
     (assignment_from None text \<and> \<not> list_ex (\<lambda>t. py_contains t text) [''=='', ''!='', ''>='', ''<=''])"

definition summary_line_score :: "string \<Rightarrow> int" where
  "summary_line_score line =
     (let text = summary_scoring_text line; l = dropWhile py_space text in
      if text = [] then - 1000
      else positive_score l + (if has_assignment text then 100 else 0) +
        (if py_contains ''('' text \<and> py_contains '')'' text \<and> \<not> prefix ''#'' l then 30 else 0) +
        negative_score text l)"

text \<open>Indices of the best lines, in the order of the lines; equal scores prefer the earlier line.\<close>

definition structural_summary_indices :: "string list \<Rightarrow> int \<Rightarrow> nat list" where
  "structural_summary_indices ls max_lines =
     (let scored = filter (\<lambda>(score, i). 0 < score) (zip (map summary_line_score ls) [0..<length ls]) in
      if scored = [] then []
      else sort (remdups (map snd (slice_to max_lines (sort_key (\<lambda>(score, i). - score) scored)))))"

definition scope_line :: "string \<Rightarrow> bool" where
  "scope_line l = starts_any [''class '', ''def '', ''async def ''] (dropWhile py_space l)"

definition rstrip_colons :: "string \<Rightarrow> string" where
  "rstrip_colons s = rev (dropWhile (\<lambda>c. c = colon) (rev s))"

definition find_enclosing_scope :: "string list \<Rightarrow> string list \<Rightarrow> string" where
  "find_enclosing_scope all_lines summary_lines =
     (if summary_lines = [] \<or> all_lines = [] then []
      else
        let first_line = py_strip (hd summary_lines);
            above = takeWhile (\<lambda>l. py_strip l \<noteq> first_line) all_lines
        in if length above = length all_lines then []
           else case List.find scope_line (rev (drop (length above - 29) above)) of
               None \<Rightarrow> [] | Some l \<Rightarrow> rstrip_colons (py_strip l))"

definition with_scope :: "string list \<Rightarrow> string list \<Rightarrow> string list" where
  "with_scope all_lines head =
     (let scope = find_enclosing_scope all_lines head in
      if scope \<noteq> [] \<and> scope \<notin> set head then scope # head else head)"

definition build_file_summary :: "char \<Rightarrow> string \<Rightarrow> int \<Rightarrow> int \<Rightarrow> string" where
  "build_file_summary dots text max_chars max_lines =
     (let ls = non_empty_lines text; indices = structural_summary_indices ls max_lines;
          all_lines = splitlines text in
      if ls = [] then []
      else if indices \<noteq> [] then
        join_summary_lines dots (with_scope all_lines (map (\<lambda>i. ls ! i) indices)) max_chars
      else
        let head = slice_to (min 8 max_lines) ls;
            tail_count = min 4 (max 0 (max_lines - int (length head)));
            head = (if 12 < length ls \<and> tail_count \<noteq> 0 then head @ last_items (nat tail_count) ls else head)
        in join_summary_lines dots (with_scope all_lines head) max_chars)"

fun skeleton_from :: "int \<Rightarrow> nat \<Rightarrow> string list \<Rightarrow> string list \<Rightarrow> string list \<Rightarrow> string list" where
  "skeleton_from max_lines n seen sigs [] = sigs"
| "skeleton_from max_lines n seen sigs (l # ls) =
     (if \<not> scope_line l then skeleton_from max_lines (Suc n) seen sigs ls
      else
        let cleaned = rstrip_colons (py_strip l) in
        if cleaned = [] \<or> cleaned \<in> set seen then skeleton_from max_lines (Suc n) seen sigs ls
        else
          let sigs' = sigs @ [cleaned @ '' [L'' @ nat_str n @ '']''] in
          if max_lines \<le> int (length sigs') then sigs'
          else skeleton_from max_lines (Suc n) (cleaned # seen) sigs' ls)"

definition build_file_skeleton :: "char \<Rightarrow> string \<Rightarrow> int \<Rightarrow> int \<Rightarrow> string" where
  "build_file_skeleton dots text max_chars max_lines =
     (if splitlines text = [] then []
      else join_summary_lines dots (skeleton_from max_lines 1 [] [] (splitlines text)) max_chars)"

definition build_search_summary :: "char \<Rightarrow> string \<Rightarrow> int \<Rightarrow> int \<Rightarrow> string" where
  "build_search_summary dots text max_chars max_lines =
     (let ls = non_empty_lines text; indices = structural_summary_indices ls max_lines in
      if ls = [] then []
      else if indices \<noteq> [] then join_summary_lines dots (map (\<lambda>i. ls ! i) indices) max_chars
      else join_summary_lines dots (slice_to max_lines ls) max_chars)"

definition ascii_letter :: "char \<Rightarrow> bool" where
  "ascii_letter c = (let n = (of_char c :: nat) in (65 \<le> n \<and> n \<le> 90) \<or> (97 \<le> n \<and> n \<le> 122))"

text \<open>\<open>_ANSI_RE\<close> at the start of the text: what remains behind an escape sequence.\<close>

definition ansi_tail :: "string \<Rightarrow> string option" where
  "ansi_tail s =
     (if \<not> prefix [char_of (27 :: nat), CHR ''[''] s then None
      else case dropWhile (\<lambda>c. is_digit c \<or> c = CHR '';'') (drop 2 s) of
        [] \<Rightarrow> None | c # r \<Rightarrow> if ascii_letter c then Some r else None)"

lemma ansi_tail_length: "ansi_tail s = Some r \<Longrightarrow> length r < length s"
proof -
  assume "ansi_tail s = Some r"
  then obtain c where "dropWhile (\<lambda>c. is_digit c \<or> c = CHR '';'') (drop 2 s) = c # r"
    by (auto simp: ansi_tail_def split: if_splits list.splits)
  then have "length (c # r) \<le> length (drop 2 s)" by (metis length_dropWhile_le)
  then show ?thesis by simp
qed

function (sequential) strip_ansi :: "string \<Rightarrow> string" where
  "strip_ansi [] = []"
| "strip_ansi (c # cs) =
     (case ansi_tail (c # cs) of Some r \<Rightarrow> strip_ansi r | None \<Rightarrow> c # strip_ansi cs)"
  by pat_completeness auto
termination by (relation "measure length") (auto dest: ansi_tail_length)

definition canonicalize_command_output :: "(string \<Rightarrow> json option) \<Rightarrow> string \<Rightarrow> string" where
  "canonicalize_command_output loads text =
     (let cleaned = strip_ansi (universal_newlines text); stripped = py_strip cleaned in
      if stripped \<noteq> [] \<and> hd stripped \<in> set ''[{'' then
        (case loads stripped of Some j \<Rightarrow> dumps_compact j | None \<Rightarrow> cleaned)
      else cleaned)"

definition build_command_summary :: "char \<Rightarrow> (string \<Rightarrow> json option) \<Rightarrow> string \<Rightarrow> int \<Rightarrow> int \<Rightarrow> string" where
  "build_command_summary dots loads text max_chars max_lines =
     join_summary_lines dots
       (slice_to max_lines (non_empty_lines (canonicalize_command_output loads text))) max_chars"

record summary_limits =
  file_max_chars :: int
  file_max_lines :: int
  search_max_chars :: int
  search_max_lines :: int
  command_max_chars :: int
  command_max_lines :: int

definition build_summary_for_family ::
    "char \<Rightarrow> (string \<Rightarrow> json option) \<Rightarrow> summary_limits \<Rightarrow> string \<Rightarrow> string \<Rightarrow> string" where
  "build_summary_for_family dots loads lim family text =
     (if family = ''file_read'' then build_file_summary dots text (file_max_chars lim) (file_max_lines lim)
      else if family = ''search'' \<or> family = ''listing'' then
        build_search_summary dots text (search_max_chars lim) (search_max_lines lim)
      else if family = ''command'' then
        build_command_summary dots loads text (command_max_chars lim) (command_max_lines lim)
      else [])"

subsection \<open>Facts about summaries\<close>

definition stripped :: "string \<Rightarrow> bool" where
  "stripped w \<longleftrightarrow> w \<noteq> [] \<and> \<not> py_space (hd w) \<and> \<not> py_space (List.last w)"

lemma stripped_id: "stripped w \<Longrightarrow> py_strip w = w"
proof -
  assume w: "stripped w"
  then have "dropWhile py_space w = w" by (cases w) (auto simp: stripped_def)
  moreover have "dropWhile py_space (rev w) = rev w"
    using w by (cases w rule: rev_cases) (auto simp: stripped_def)
  ultimately show ?thesis by (simp add: py_strip_def strip_by_def)
qed

lemma stripped_py_strip: "py_strip s \<noteq> [] \<Longrightarrow> stripped (py_strip s)"
proof -
  assume ne: "py_strip s \<noteq> []"
  define t where "t = dropWhile py_space s"
  define u where "u = dropWhile py_space (rev t)"
  have s: "py_strip s = rev u" by (simp add: py_strip_def strip_by_def t_def u_def)
  have "\<not> py_space (hd u)" using ne s hd_dropWhile [of py_space "rev t"] by (auto simp: u_def)
  then have last: "\<not> py_space (List.last (py_strip s))" using ne s by (simp add: last_rev)
  have "dropWhile py_space (py_strip s) = py_strip s"
    using dropWhile_rev_dropWhile [of py_space s] by (simp add: s t_def u_def)
  then have "\<not> py_space (hd (py_strip s))" using ne hd_dropWhile [of py_space "py_strip s"] by simp
  with ne last show ?thesis by (simp add: stripped_def)
qed

lemma join_ends:
  "ws \<noteq> [] \<Longrightarrow> \<forall>w \<in> set ws. w \<noteq> [] \<Longrightarrow>
     join sep ws \<noteq> [] \<and> hd (join sep ws) = hd (hd ws) \<and> List.last (join sep ws) = List.last (List.last ws)"
  by (induction sep ws rule: join.induct) auto

lemma stripped_join: "ws \<noteq> [] \<Longrightarrow> \<forall>w \<in> set ws. stripped w \<Longrightarrow> stripped (join sep ws)"
proof -
  assume ws: "ws \<noteq> []" "\<forall>w \<in> set ws. stripped w"
  then have "stripped (hd ws)" "stripped (List.last ws)" "\<forall>w \<in> set ws. w \<noteq> []"
    by (auto simp: stripped_def)
  with join_ends [OF ws(1), of sep] show ?thesis by (simp add: stripped_def)
qed

lemma fitting_lines_spec:
  "\<forall>w \<in> set parts. stripped w \<Longrightarrow> parts = [] \<or> int (length (join '' | '' parts)) \<le> limit \<Longrightarrow>
     \<exists>sel. fitting_lines limit parts ls = parts @ sel \<and> prefix sel (filter (\<lambda>l. l \<noteq> []) (map py_strip ls)) \<and>
       (parts @ sel = [] \<or> int (length (join '' | '' (parts @ sel))) \<le> limit)"
proof (induction ls arbitrary: parts)
  case Nil
  then show ?case by simp
next
  case (Cons l ls)
  show ?case
  proof (cases "py_strip l = []")
    case True
    with Cons show ?thesis by simp
  next
    case kept: False
    show ?thesis
    proof (cases "limit < int (length (join '' | '' (parts @ [py_strip l])))")
      case True
      with kept have "fitting_lines limit parts (l # ls) = parts @ []" by (simp add: Let_def)
      with Cons.prems show ?thesis by (metis Nil_prefix append_Nil2)
    next
      case False
      have "\<forall>w \<in> set (parts @ [py_strip l]). stripped w" using Cons.prems(1) kept stripped_py_strip by auto
      from Cons.IH [OF this] False obtain sel where
        sel: "fitting_lines limit (parts @ [py_strip l]) ls = (parts @ [py_strip l]) @ sel"
          "prefix sel (filter (\<lambda>l. l \<noteq> []) (map py_strip ls))"
          "int (length (join '' | '' ((parts @ [py_strip l]) @ sel))) \<le> limit" by auto
      from kept False sel(1) have "fitting_lines limit parts (l # ls) = parts @ (py_strip l # sel)"
        by (simp add: Let_def)
      moreover have "prefix (py_strip l # sel) (filter (\<lambda>l. l \<noteq> []) (map py_strip (l # ls)))"
        using kept sel(2) by simp
      ultimately show ?thesis using sel(3) by (metis append.assoc append_Cons append_Nil)
    qed
  qed
qed

text \<open>A summary is a prefix of its nonempty lines, joined by bars, within the limit; it is never cut inside a line.\<close>

lemma join_summary_spec:
  "\<exists>sel. join_summary_lines dots ls limit = join '' | '' sel \<and>
     prefix sel (filter (\<lambda>l. l \<noteq> []) (map py_strip ls)) \<and> (sel = [] \<or> int (length (join '' | '' sel)) \<le> limit)"
proof -
  obtain sel where sel: "fitting_lines limit [] ls = sel"
    "prefix sel (filter (\<lambda>l. l \<noteq> []) (map py_strip ls))"
    "sel = [] \<or> int (length (join '' | '' sel)) \<le> limit"
    using fitting_lines_spec [of "[]" limit ls] by auto
  show ?thesis
  proof (cases "sel = []")
    case True
    then have "join_summary_lines dots ls limit = join '' | '' []"
      using sel(1) by (simp add: join_summary_lines_def truncate_chars_def slice_to_def)
    with True sel show ?thesis by blast
  next
    case False
    have "\<forall>w \<in> set sel. stripped w"
      using set_mono_prefix [OF sel(2)] stripped_py_strip by auto
    then have "py_strip (join '' | '' sel) = join '' | '' sel"
      using stripped_id stripped_join False by blast
    then have "join_summary_lines dots ls limit = join '' | '' sel"
      using sel(1,3) False by (simp add: join_summary_lines_def truncate_chars_def Let_def)
    with sel show ?thesis by blast
  qed
qed

definition family_chars :: "summary_limits \<Rightarrow> string \<Rightarrow> int" where
  "family_chars lim family = (if family = ''file_read'' then file_max_chars lim
     else if family = ''command'' then command_max_chars lim else search_max_chars lim)"

definition family_lines :: "summary_limits \<Rightarrow> string \<Rightarrow> int" where
  "family_lines lim family = (if family = ''file_read'' then file_max_lines lim
     else if family = ''command'' then command_max_lines lim else search_max_lines lim)"

definition quoted_text :: "(string \<Rightarrow> json option) \<Rightarrow> string \<Rightarrow> string \<Rightarrow> string" where
  "quoted_text loads family tx = (if family = ''command'' then canonicalize_command_output loads tx else tx)"

text \<open>
  The definition at the head of a summary, said without the search: \<open>l\<close> is the nearest line that opens a definition among the 29
  lines above the place where the first quoted line occurs first; the item is that line without its colons.
\<close>

definition heads_line :: "string list \<Rightarrow> string \<Rightarrow> string \<Rightarrow> bool" where
  "heads_line all s first \<longleftrightarrow> (\<exists>pre l mid rest. all = pre @ l # mid @ rest \<and> scope_line l \<and>
     s = py_strip (rstrip_colons (py_strip l)) \<and> \<not> list_ex scope_line mid \<and> length mid < 29 \<and>
     rest \<noteq> [] \<and> py_strip (hd rest) = first \<and> \<not> list_ex (\<lambda>x. py_strip x = first) (pre @ l # mid))"

definition scope_ok :: "string list \<Rightarrow> string list \<Rightarrow> string list \<Rightarrow> bool" where
  "scope_ok all scope items \<longleftrightarrow> length scope \<le> 1 \<and>
     (\<forall>s \<in> set scope. \<exists>first. heads_line all s first \<and> (items \<noteq> [] \<longrightarrow> hd items = first))"

lemma non_empty_lines_stripped: "w \<in> set (non_empty_lines tx) \<Longrightarrow> stripped w"
  by (auto simp: non_empty_lines_def stripped_py_strip)

lemma set_slice_to: "set (slice_to n xs) \<subseteq> set xs"
  by (auto simp: slice_to_def dest: in_set_takeD)

lemma length_slice_to: "0 \<le> n \<Longrightarrow> int (length (slice_to n xs)) \<le> n"
  by (auto simp: slice_to_def)

lemma find_rev_split:
  assumes "List.find P (rev xs) = Some x"
  obtains ys zs where "xs = ys @ x # zs" and "\<not> list_ex P zs" and "P x"
proof -
  from assms obtain i where i: "i < length (rev xs)" "P (rev xs ! i)" "x = rev xs ! i" "\<forall>j<i. \<not> P (rev xs ! j)"
    by (auto simp: find_Some_iff)
  define us where "us = take i (rev xs)"
  define vs where "vs = drop (Suc i) (rev xs)"
  have r: "rev xs = us @ x # vs" unfolding us_def vs_def i(3) using i(1) by (rule id_take_nth_drop)
  then have "xs = rev (us @ x # vs)" by (metis rev_rev_ident)
  moreover have "\<not> list_ex P (rev us)"
    using i(1,4) by (auto simp: us_def list_ex_iff in_set_conv_nth)
  ultimately show ?thesis using that [of "rev vs" "rev us"] i(2,3) by simp
qed

lemma find_scope_heads:
  assumes "find_enclosing_scope all head \<noteq> []"
  shows "heads_line all (py_strip (find_enclosing_scope all head)) (py_strip (hd head))"
proof -
  define first where "first = py_strip (hd head)"
  define above where "above = takeWhile (\<lambda>l. py_strip l \<noteq> first) all"
  define rest where "rest = dropWhile (\<lambda>l. py_strip l \<noteq> first) all"
  have all: "all = above @ rest" by (simp add: above_def rest_def)
  from assms obtain l where found: "length above \<noteq> length all"
    "List.find scope_line (rev (drop (length above - 29) above)) = Some l"
    "find_enclosing_scope all head = rstrip_colons (py_strip l)"
    unfolding find_enclosing_scope_def Let_def above_def first_def by (simp split: if_splits option.splits)
  from find_rev_split [OF found(2)] obtain ys mid where
    split: "drop (length above - 29) above = ys @ l # mid" "\<not> list_ex scope_line mid" "scope_line l" .
  have "above = take (length above - 29) above @ drop (length above - 29) above" by simp
  then have above: "above = (take (length above - 29) above @ ys) @ l # mid" unfolding split(1) by simp
  have "length (drop (length above - 29) above) \<le> 29" by simp
  then have short: "length mid < 29" unfolding split(1) by simp
  have rest: "rest \<noteq> []" using found(1) all by auto
  then have first: "py_strip (hd rest) = first"
    using hd_dropWhile [of "\<lambda>l. py_strip l \<noteq> first" all] by (simp add: rest_def)
  have none: "\<not> list_ex (\<lambda>x. py_strip x = first) above"
    by (auto simp: above_def list_ex_iff dest: set_takeWhileD)
  have all_split: "all = (take (length above - 29) above @ ys) @ l # mid @ rest"
    by (subst all, subst above) simp
  have "\<not> list_ex (\<lambda>x. py_strip x = first) ((take (length above - 29) above @ ys) @ l # mid)"
    using none above by metis
  with all_split split(2,3) short rest first show ?thesis
    unfolding heads_line_def first_def [symmetric] found(3) by blast
qed

lemma subseq_lines: "subseq xs ys \<Longrightarrow> set xs \<subseteq> set ys"
  by (auto elim: list_emb_set)

lemma strip_lines: "set ls \<subseteq> set (non_empty_lines tx) \<Longrightarrow> filter (\<lambda>l. l \<noteq> []) (map py_strip ls) = ls"
proof (induction ls)
  case (Cons l ls)
  then have "stripped l" using non_empty_lines_stripped by auto
  then have "py_strip l = l" "l \<noteq> []" using stripped_id by (auto simp: stripped_def)
  with Cons show ?case by simp
qed simp

lemma scoped_summary:
  assumes sub: "subseq head (non_empty_lines tx)" and n: "int (length head) \<le> n"
  shows "\<exists>scope items. join_summary_lines dots (with_scope all head) limit = join '' | '' (scope @ items) \<and>
     (scope @ items = [] \<or> int (length (join '' | '' (scope @ items))) \<le> limit) \<and> int (length items) \<le> n \<and>
     subseq items (non_empty_lines tx) \<and> scope_ok all scope items"
proof -
  have within: "set head \<subseteq> set (non_empty_lines tx)" using sub by (rule subseq_lines)
  note kept = strip_lines [OF within]
  obtain sel where sel: "join_summary_lines dots (with_scope all head) limit = join '' | '' sel"
    "prefix sel (filter (\<lambda>l. l \<noteq> []) (map py_strip (with_scope all head)))"
    "sel = [] \<or> int (length (join '' | '' sel)) \<le> limit"
    using join_summary_spec by blast
  have part: "int (length xs) \<le> n \<and> subseq xs (non_empty_lines tx)" if "prefix xs head" for xs
    using that sub n prefix_length_le [OF that] by (meson of_nat_mono order_trans prefix_imp_subseq subseq_order.order_trans)
  let ?s = "py_strip (find_enclosing_scope all head)"
  consider (plain) "prefix sel head" | (headed) "find_enclosing_scope all head \<noteq> []" "prefix sel (?s # head)"
    using sel(2) kept by (auto simp: with_scope_def Let_def split: if_splits)
  then show ?thesis
  proof cases
    case plain
    with part [OF plain] sel(1,3) show ?thesis
      by (intro exI [of _ "[]"] exI [of _ sel]) (simp add: scope_ok_def)
  next
    case headed
    show ?thesis
    proof (cases sel)
      case Nil
      with part [of "[]"] sel(1,3) show ?thesis by (intro exI [of _ "[]"] exI [of _ "[]"]) (simp add: scope_ok_def)
    next
      case (Cons x items)
      then have x: "x = ?s" and items: "prefix items head" using headed(2) by simp_all
      have "py_strip (hd head) = hd items" if "items \<noteq> []"
      proof -
        have "hd items = hd head" "head \<noteq> []" using items that by (auto simp: prefix_def)
        moreover have "py_strip (hd head) = hd head"
          using within \<open>head \<noteq> []\<close> non_empty_lines_stripped stripped_id by (meson hd_in_set subsetD)
        ultimately show ?thesis by simp
      qed
      with find_scope_heads [OF headed(1)] have "scope_ok all [x] items"
        unfolding scope_ok_def x by auto
      with part [OF items] sel(1,3) Cons show ?thesis
        by (intro exI [of _ "[x]"] exI [of _ items]) simp
    qed
  qed
qed

lemma plain_summary:
  assumes sub: "subseq ls (non_empty_lines tx)" and n: "int (length ls) \<le> n"
  shows "\<exists>items. join_summary_lines dots ls limit = join '' | '' items \<and>
     (items = [] \<or> int (length (join '' | '' items)) \<le> limit) \<and> int (length items) \<le> n \<and>
     subseq items (non_empty_lines tx)"
proof -
  have "set ls \<subseteq> set (non_empty_lines tx)" using sub by (rule subseq_lines)
  note kept = strip_lines [OF this]
  obtain items where items: "join_summary_lines dots ls limit = join '' | '' items" "prefix items ls"
    "items = [] \<or> int (length (join '' | '' items)) \<le> limit"
    using join_summary_spec [of dots ls limit] unfolding kept by blast
  with sub n prefix_length_le [OF items(2)] have "int (length items) \<le> n \<and> subseq items (non_empty_lines tx)"
    by (meson of_nat_mono order_trans prefix_imp_subseq subseq_order.order_trans)
  with items(1,3) show ?thesis by blast
qed

lemma indices_bound:
  assumes "0 \<le> n"
  shows "(\<forall>i \<in> set (structural_summary_indices ls n). i < length ls) \<and>
    int (length (structural_summary_indices ls n)) \<le> n"
proof
  define scored where "scored = filter (\<lambda>(score, i). 0 < score) (zip (map summary_line_score ls) [0..<length ls])"
  define best where "best = slice_to n (sort_key (\<lambda>(score, i). - score) scored)"
  have s: "structural_summary_indices ls n = (if scored = [] then [] else sort (remdups (map snd best)))"
    by (simp add: structural_summary_indices_def Let_def scored_def best_def)
  have "set best \<subseteq> set scored" using set_slice_to [of n "sort_key (\<lambda>(score, i). - score) scored"] by (simp add: best_def)
  moreover have "i < length ls" if "(score, i) \<in> set scored" for score i
    using that by (auto simp: scored_def dest: set_zip_rightD)
  ultimately have "\<forall>x \<in> set best. snd x < length ls" by (metis prod.collapse subsetD)
  then show "\<forall>i \<in> set (structural_summary_indices ls n). i < length ls" by (auto simp: s)
  have "int (length (remdups (map snd best))) \<le> int (length best)"
    using length_remdups_leq [of "map snd best"] by simp
  also have "\<dots> \<le> n" unfolding best_def by (rule length_slice_to [OF assms])
  finally show "int (length (structural_summary_indices ls n)) \<le> n" using assms by (simp add: s)
qed

lemma indices_sorted: "sorted_wrt (<) (structural_summary_indices ls n)"
  by (auto simp: structural_summary_indices_def Let_def strict_sorted_iff)

lemma subseq_nths_sorted:
  assumes "sorted_wrt (<) ks" and "\<forall>i \<in> set ks. i < length ls"
  shows "subseq (map (\<lambda>i. ls ! i) ks) ls"
proof -
  have "subseq ks [0..<length ls]"
    using assms by (intro sorted_subset_imp_subseq) (auto intro: sorted_wrt_mono_rel [of _ "(<)"])
  then have "subseq (map (\<lambda>i. ls ! i) ks) (map (\<lambda>i. ls ! i) [0..<length ls])" by (rule subseq_map)
  then show ?thesis by (simp only: map_nth)
qed

lemma picked_lines:
  assumes "0 \<le> n"
  shows "subseq (map (\<lambda>i. ls ! i) (structural_summary_indices ls n)) ls"
    and "int (length (map (\<lambda>i. ls ! i) (structural_summary_indices ls n))) \<le> n"
  using indices_bound [OF assms, of ls] subseq_nths_sorted [OF indices_sorted] by auto

lemma prefix_slice_to: "prefix (slice_to n xs) xs"
  by (simp add: slice_to_def take_is_prefix)

lemma ends_subseq:
  assumes "i \<le> 8" and "k \<le> 4" and "12 < length ls"
  shows "subseq (take i ls @ last_items k ls) ls"
proof -
  have "i \<le> length ls - k" using assms by linarith
  then obtain d where d: "length ls - k = d + i" by (metis le_add_diff_inverse2)
  have "subseq (drop d (drop i ls)) (drop i ls)" by (rule suffix_imp_subseq) (rule suffix_drop)
  then have "subseq (take i ls @ drop (length ls - k) ls) (take i ls @ drop i ls)"
    by (simp only: subseq_append' d drop_drop)
  then show ?thesis by (simp add: last_items_def)
qed

lemma file_summary_quotes:
  assumes "0 \<le> n"
  shows "\<exists>scope items. build_file_summary dots tx limit n = join '' | '' (scope @ items) \<and>
     (scope @ items = [] \<or> int (length (join '' | '' (scope @ items))) \<le> limit) \<and> int (length items) \<le> n \<and>
     subseq items (non_empty_lines tx) \<and> scope_ok (splitlines tx) scope items"
proof -
  define ls where "ls = non_empty_lines tx"
  define start where "start = slice_to (min 8 n) ls"
  define extra where "extra = min 4 (max 0 (n - int (length start)))"
  define both where "both = (if 12 < length ls \<and> extra \<noteq> 0 then start @ last_items (nat extra) ls else start)"
  have start: "start = take (nat (min 8 n)) ls" using assms by (simp add: start_def slice_to_def)
  have sub: "subseq both ls"
    using ends_subseq [of "nat (min 8 n)" "nat extra" ls] by (auto simp: both_def start extra_def intro: prefix_imp_subseq take_is_prefix)
  have "int (length (last_items k ls)) \<le> int k" for k by (simp add: last_items_def)
  then have bound: "int (length both) \<le> n"
    using assms by (auto simp: both_def start extra_def) (smt (verit) int_nat_eq of_nat_mono)
  consider (none) "ls = []" | (best) "ls \<noteq> []" "structural_summary_indices ls n \<noteq> []"
    | (plain) "ls \<noteq> []" "structural_summary_indices ls n = []" by blast
  then show ?thesis
  proof cases
    case none
    then have "build_file_summary dots tx limit n = join '' | '' ([] @ [])" by (simp add: build_file_summary_def ls_def)
    then show ?thesis using assms by (intro exI [of _ "[]"]) (simp add: scope_ok_def)
  next
    case best
    then have "build_file_summary dots tx limit n =
        join_summary_lines dots (with_scope (splitlines tx) (map (\<lambda>i. ls ! i) (structural_summary_indices ls n))) limit"
      by (simp add: build_file_summary_def ls_def Let_def)
    then show ?thesis using scoped_summary [OF picked_lines [OF assms, of ls, unfolded ls_def]] by (simp add: ls_def)
  next
    case plain
    then have "build_file_summary dots tx limit n = join_summary_lines dots (with_scope (splitlines tx) both) limit"
      by (simp add: build_file_summary_def ls_def Let_def both_def start_def extra_def)
    then show ?thesis using scoped_summary [OF sub [unfolded ls_def] bound] by simp
  qed
qed

lemma search_summary_quotes:
  assumes "0 \<le> n"
  shows "\<exists>items. build_search_summary dots tx limit n = join '' | '' items \<and>
     (items = [] \<or> int (length (join '' | '' items)) \<le> limit) \<and> int (length items) \<le> n \<and>
     subseq items (non_empty_lines tx)"
proof -
  define ls where "ls = non_empty_lines tx"
  have start: "subseq (slice_to n ls) ls" "int (length (slice_to n ls)) \<le> n"
    using prefix_slice_to length_slice_to [OF assms] by auto
  have eq: "build_search_summary dots tx limit n = (if ls = [] then join '' | '' []
      else if structural_summary_indices ls n \<noteq> []
      then join_summary_lines dots (map (\<lambda>i. ls ! i) (structural_summary_indices ls n)) limit
      else join_summary_lines dots (slice_to n ls) limit)"
    by (simp add: build_search_summary_def Let_def ls_def)
  show ?thesis
  proof (cases "ls = []")
    case True
    with eq assms show ?thesis by (intro exI [of _ "[]"]) simp
  next
    case False
    then show ?thesis
      using plain_summary [OF picked_lines [OF assms, of ls, unfolded ls_def]] plain_summary [OF start [unfolded ls_def]]
      unfolding eq by (cases "structural_summary_indices ls n = []") (simp_all add: ls_def)
  qed
qed

lemma command_summary_quotes:
  assumes "0 \<le> n"
  shows "\<exists>items. build_command_summary dots loads tx limit n = join '' | '' items \<and>
     (items = [] \<or> int (length (join '' | '' items)) \<le> limit) \<and> int (length items) \<le> n \<and>
     subseq items (non_empty_lines (canonicalize_command_output loads tx))"
proof -
  have "subseq (slice_to n ls) ls" for ls :: "string list" using prefix_slice_to by blast
  from plain_summary [OF this length_slice_to [OF assms]] show ?thesis by (simp add: build_command_summary_def)
qed

subsection \<open>Properties\<close>

text \<open>
  C14: A summary quotes within its limits. With a line limit that is not negative it is a list of items joined by bars, not longer
  than the character limit of its family and never cut inside an item. The items are lines of the output without their outer blanks,
  in the order of the output, none quoted twice, at most as many as the family allows; for a command the output is first freed
  of control sequences and, when it is JSON, replaced by its compact form. Only the summary of a file may have one item more, at the
  head: the nearest line that opens a definition among the 29 lines above the first line of the file that reads like
  the first quoted line.
\<close>

theorem summary_quotes_within_limits:
  assumes "0 \<le> family_lines lim family"
  shows "\<exists>scope items. build_summary_for_family dots loads lim family tx = join '' | '' (scope @ items) \<and>
     (scope @ items = [] \<or> int (length (join '' | '' (scope @ items))) \<le> family_chars lim family) \<and>
     int (length items) \<le> family_lines lim family \<and>
     subseq items (non_empty_lines (quoted_text loads family tx)) \<and>
     (if family = ''file_read'' then scope_ok (splitlines tx) scope items else scope = [])"
proof -
  consider (reads) "family = ''file_read''" | (finds) "family = ''search'' \<or> family = ''listing''"
    | (runs) "family = ''command''"
    | (neither) "family \<noteq> ''file_read''" "family \<noteq> ''search''" "family \<noteq> ''listing''" "family \<noteq> ''command''" by blast
  then show ?thesis
  proof cases
    case reads
    with file_summary_quotes [of "file_max_lines lim" dots tx "file_max_chars lim"] assms show ?thesis
      by (simp add: build_summary_for_family_def family_lines_def family_chars_def quoted_text_def)
  next
    case finds
    then have "0 \<le> search_max_lines lim" using assms by (auto simp: family_lines_def)
    from search_summary_quotes [OF this, of dots tx "search_max_chars lim"] finds show ?thesis
      by (auto simp: build_summary_for_family_def family_lines_def family_chars_def quoted_text_def)
  next
    case runs
    then have "0 \<le> command_max_lines lim" using assms by (simp add: family_lines_def)
    from command_summary_quotes [OF this, of dots loads tx "command_max_chars lim"] runs show ?thesis
      by (simp add: build_summary_for_family_def family_lines_def family_chars_def quoted_text_def)
  next
    case neither
    then have "build_summary_for_family dots loads lim family tx = join '' | '' ([] @ [])"
      by (simp add: build_summary_for_family_def)
    with assms neither(1) show ?thesis by (intro exI [of _ "[]"]) simp
  qed
qed

text \<open>A file without blank lines between its definitions, and what a summary of one line quotes.\<close>

definition sample_limits :: summary_limits where
  "sample_limits = \<lparr>file_max_chars = 40, file_max_lines = 1, search_max_chars = 40, search_max_lines = 1,
     command_max_chars = 40, command_max_lines = 1\<rparr>"

theorem summary_quotes_within_limits_witness:
  "\<exists>scope items. ''class A | return g()'' = join '' | '' (scope @ items) \<and> int (length items) \<le> 1 \<and>
     subseq items [''x'', ''class A:'', ''pass'', ''return g()''] \<and>
     scope_ok [''x'', ''class A:'', ''  pass'', ''  return g()''] scope items"
proof -
  let ?text = "''x'' @ [newline] @ ''class A:'' @ [newline] @ ''  pass'' @ [newline] @ ''  return g()''"
  have s: "build_summary_for_family (CHR ''.'') (\<lambda>_. None) sample_limits ''file_read'' ?text = ''class A | return g()''"
    by code_simp
  have n: "family_lines sample_limits ''file_read'' = 1" by (simp add: family_lines_def sample_limits_def)
  have ls: "splitlines ?text = [''x'', ''class A:'', ''  pass'', ''  return g()'']" by code_simp
  have q: "non_empty_lines (quoted_text (\<lambda>_. None) ''file_read'' ?text) = [''x'', ''class A:'', ''pass'', ''return g()'']"
    by code_simp
  have "0 \<le> family_lines sample_limits ''file_read''" by (simp add: n)
  from summary_quotes_within_limits [OF this, of "CHR ''.''" "\<lambda>_. None" ?text] show ?thesis
    unfolding s n ls q by (auto simp del: join.simps)
qed

text \<open>A quoted line that occurs twice in a file is headed by the definition above its first occurrence.\<close>

lemma scope_of_first_occurrence:
  "find_enclosing_scope [''def f():'', ''return x'', ''def g():'', ''y = 1'', ''return x''] [''return x''] = ''def f()''"
  by code_simp

end
