(* ===== verification/SessionState.thy ===== *)
theory SessionState
  imports RepeatTargets EvidenceSafety SmartPolicy Smoothness "HOL-Library.Product_Lexorder"
begin

section \<open>The session of the runtime\<close>

text \<open>
  Models the state groups of \<open>src/tok/runtime\<close> (\<open>_fallback_state.py\<close>, \<open>_loop_detection_state.py\<close>,
  \<open>_stream_recovery_state.py\<close>, \<open>_answer_phase_state.py\<close>, \<open>_request_policy_state.py\<close>, \<open>_cache_state.py\<close>,
  \<open>_fidelity_state.py\<close>, \<open>_file_delivery_state.py\<close>, \<open>_project_state.py\<close>, \<open>_telemetry_state.py\<close>, \<open>_macro_state.py\<close>,
  \<open>_user_prompt_state.py\<close>, \<open>_hot_summary_state.py\<close>, \<open>_smoothness_state.py\<close>, \<open>_request_lifecycle.py\<close>) and the methods
  of \<open>RuntimeSession\<close> in \<open>core.py\<close> that work on them alone. A Python set is a list whose order and repetitions mean
  nothing. Saving to disk and logging leave no trace in the state and are left out; of the bridge memory only the
  turn, the hot entries and the rolling commands occur here.
\<close>

subsection \<open>State groups\<close>

record fallback_state =
  consecutive_count :: int
  baseline_only :: bool
  persistence_failures :: int
  recovery_count :: int

definition new_fallback :: fallback_state where
  "new_fallback = \<lparr>consecutive_count = 0, baseline_only = False, persistence_failures = 0, recovery_count = 0\<rparr>"

definition record_fallback_event :: "int \<Rightarrow> fallback_state \<Rightarrow> fallback_state" where
  "record_fallback_event threshold st =
     (let n = consecutive_count st + 1 in
      st\<lparr>consecutive_count := n, baseline_only := baseline_only st \<or> threshold \<le> n\<rparr>)"

definition reset_fallback_count :: "fallback_state \<Rightarrow> fallback_state" where
  "reset_fallback_count st = st\<lparr>consecutive_count := 0, baseline_only := False\<rparr>"

definition reset_fallback :: "fallback_state \<Rightarrow> fallback_state" where
  "reset_fallback st = st\<lparr>consecutive_count := 0, baseline_only := False, persistence_failures := 0\<rparr>"

record loop_state =
  loop_window :: "(string \<times> string) list"
  loop_detected :: bool

text \<open>\<open>xs[-n:]\<close> for a positive \<open>n\<close>; for \<open>n = 0\<close> it is the whole list, as \<open>-0\<close> is \<open>0\<close>.\<close>

definition slice_last :: "int \<Rightarrow> 'a list \<Rightarrow> 'a list" where
  "slice_last n xs = (if 0 < n then drop (length xs - nat n) xs else drop (nat (- n)) xs)"

definition observe_tool_action :: "bool \<Rightarrow> int \<Rightarrow> string \<Rightarrow> string \<Rightarrow> loop_state \<Rightarrow> (bool \<times> loop_state) py" where
  "observe_tool_action enabled threshold tool key st =
     (if \<not> enabled then Inr (False, st)
      else
        let w = loop_window st @ [(tool, tool @ '':'' @ key)];
            size = threshold * 3;
            w = (if size < int (length w) then slice_last size w else w)
        in if int (length w) < threshold then Inr (False, st\<lparr>loop_window := w\<rparr>)
           else
             let recent = slice_last threshold w in
             if list_all (\<lambda>a. snd a = snd (hd recent)) recent
             then (if recent = [] then Inl IndexErrorRaised else Inr (True, st\<lparr>loop_window := w, loop_detected := True\<rparr>))
             else Inr (False, st\<lparr>loop_window := w\<rparr>))"

definition consume_loop_detected :: "loop_state \<Rightarrow> bool \<times> loop_state" where
  "consume_loop_detected st = (loop_detected st, st\<lparr>loop_detected := False\<rparr>)"

definition new_loop :: loop_state where
  "new_loop = \<lparr>loop_window = [], loop_detected = False\<rparr>"

definition reset_loop :: "loop_state \<Rightarrow> loop_state" where "reset_loop st = new_loop"

record stream_state =
  reacquisition_budget :: int
  history_floor_budget :: int
  tool_use_only_signature :: string
  tool_use_only_repeat_count :: int
  cooldown_remaining :: int
  cooldown_suppressed :: bool
  read_error_consecutive_count :: int
  read_error_last_stage :: string

definition new_stream :: stream_state where
  "new_stream = \<lparr>reacquisition_budget = 0, history_floor_budget = 0, tool_use_only_signature = [],
     tool_use_only_repeat_count = 0, cooldown_remaining = 0, cooldown_suppressed = False,
     read_error_consecutive_count = 0, read_error_last_stage = []\<rparr>"

definition reset_stream :: "stream_state \<Rightarrow> stream_state" where "reset_stream st = new_stream"

record answer_phase_state =
  answer_ready_repair_pending :: bool
  answer_ready_repair_active :: bool
  late_assembly_repair_pending :: bool
  late_assembly_repair_active :: bool
  late_assembly_repair_mode_pending :: string
  late_assembly_repair_mode_active :: string
  late_followthrough_pending :: bool
  late_followthrough_active :: bool
  answer_phase_expected_this_turn :: bool
  natural_response_acceptable_this_turn :: bool

definition new_answer_phase :: answer_phase_state where
  "new_answer_phase = \<lparr>answer_ready_repair_pending = False, answer_ready_repair_active = False,
     late_assembly_repair_pending = False, late_assembly_repair_active = False,
     late_assembly_repair_mode_pending = [], late_assembly_repair_mode_active = [],
     late_followthrough_pending = False, late_followthrough_active = False,
     answer_phase_expected_this_turn = False, natural_response_acceptable_this_turn = False\<rparr>"

definition reset_answer_phase :: "answer_phase_state \<Rightarrow> answer_phase_state" where "reset_answer_phase st = new_answer_phase"

record request_policy_state =
  tool_mode_sticky_turns :: int
  stream_recovery_watch_turns :: int
  tool_recovery_watch_turns :: int
  last_effective_tool_compatible :: bool
  drift_detected_previous_turn :: bool

definition new_request_policy :: request_policy_state where
  "new_request_policy = \<lparr>tool_mode_sticky_turns = 0, stream_recovery_watch_turns = 0,
     tool_recovery_watch_turns = 0, last_effective_tool_compatible = False, drift_detected_previous_turn = False\<rparr>"

definition reset_request_policy :: "request_policy_state \<Rightarrow> request_policy_state" where "reset_request_policy st = new_request_policy"

record cache_state =
  result_cache :: "json dict"
  semantic_hash_cache :: "string dict"
  observed_tool_result_ids :: "string list"
  prepared_prompt_token_cache :: "int dict"
  predictive_cache_warm_keys :: "string list"

definition new_cache :: cache_state where
  "new_cache = \<lparr>result_cache = [], semantic_hash_cache = [], observed_tool_result_ids = [],
     prepared_prompt_token_cache = [], predictive_cache_warm_keys = []\<rparr>"

definition reset_cache :: "cache_state \<Rightarrow> cache_state" where "reset_cache st = new_cache"

record fidelity_state =
  fidelity_overrides :: "int dict"
  fidelity_reads_by_turn :: "int dict"
  fidelity_elevated_path :: string
  tool_required_latch_streak :: int
  fidelity_fingerprints :: "string dict"

definition new_fidelity :: fidelity_state where
  "new_fidelity = \<lparr>fidelity_overrides = [], fidelity_reads_by_turn = [], fidelity_elevated_path = [],
     tool_required_latch_streak = 0, fidelity_fingerprints = []\<rparr>"

definition reset_fidelity :: "fidelity_state \<Rightarrow> fidelity_state" where "reset_fidelity st = new_fidelity"

record file_delivery_state =
  delivery_files_read :: "string list"
  delivery_fully_delivered :: "int dict"
  delivery_overrides :: "int dict"
  delivery_reads_by_turn :: "int dict"
  delivery_elevated_path :: string
  delivery_skeleton_paths :: "string list"
  delivery_fingerprints :: "string dict"

definition new_file_delivery :: file_delivery_state where
  "new_file_delivery = \<lparr>delivery_files_read = [], delivery_fully_delivered = [], delivery_overrides = [],
     delivery_reads_by_turn = [], delivery_elevated_path = [], delivery_skeleton_paths = [],
     delivery_fingerprints = []\<rparr>"

definition reset_file_delivery :: "file_delivery_state \<Rightarrow> file_delivery_state" where "reset_file_delivery st = new_file_delivery"

record project_state =
  project_markers :: "string list"
  files_read :: "string list"
  files_fully_delivered :: "int dict"
  recently_edited_files :: "int dict"
  skeleton_delivered_paths :: "string list"

definition project_mark_file_edited :: "string \<Rightarrow> int \<Rightarrow> project_state \<Rightarrow> project_state" where
  "project_mark_file_edited p step st = st\<lparr>recently_edited_files := dict_set p step (recently_edited_files st)\<rparr>"

definition project_is_recently_edited :: "string \<Rightarrow> int \<Rightarrow> int \<Rightarrow> project_state \<Rightarrow> bool" where
  "project_is_recently_edited p step window st =
     (case map_of (recently_edited_files st) p of None \<Rightarrow> False | Some edit_step \<Rightarrow> step - edit_step < window)"

definition reset_project :: "project_state \<Rightarrow> project_state" where
  "reset_project st = st\<lparr>files_read := [], files_fully_delivered := [], recently_edited_files := [],
     skeleton_delivered_paths := []\<rparr>"

record telemetry_state =
  step_count :: int
  tool_names_seen :: "string list"
  token_count :: int
  tool_density :: rat
  context_char_count :: int
  invisible_pressure :: int
  active_tools :: "string list"
  last_tool_compatible_state :: string
  last_tool_compatible_state_fields :: "string list dict"
  suppressed_failure_markers :: "string list"
  response_word_samples :: "int list"
  is_first_request :: bool
  tok_memory_snap_triggered :: int
  last_mode :: string
  last_request_message_count :: int

definition new_telemetry :: telemetry_state where
  "new_telemetry = \<lparr>step_count = 0, tool_names_seen = [], token_count = 0, tool_density = 0,
     context_char_count = 0, invisible_pressure = 0, active_tools = [], last_tool_compatible_state = [],
     last_tool_compatible_state_fields = [], suppressed_failure_markers = [], response_word_samples = [],
     is_first_request = True, tok_memory_snap_triggered = 0, last_mode = [], last_request_message_count = 0\<rparr>"

definition reset_telemetry :: "telemetry_state \<Rightarrow> telemetry_state" where "reset_telemetry st = new_telemetry"

record macro_state =
  load_global_macros :: bool
  pending_heal :: string
  pending_heal_turn :: int

definition reset_macro :: "macro_state \<Rightarrow> macro_state" where
  "reset_macro st = st\<lparr>pending_heal := [], pending_heal_turn := 0\<rparr>"

record user_prompt_state =
  last_prompt_text :: string
  last_prompt_labels :: "string list"
  request_has_tools :: bool
  hint_last_turn :: "int dict"

definition new_user_prompt :: user_prompt_state where
  "new_user_prompt = \<lparr>last_prompt_text = [], last_prompt_labels = [], request_has_tools = False, hint_last_turn = []\<rparr>"

definition reset_user_prompt :: "user_prompt_state \<Rightarrow> user_prompt_state" where "reset_user_prompt st = new_user_prompt"

record hot_summary_state =
  recent_repeat_target_events :: "repeat_target_event list"
  hot_records :: "hot_summary_record dict"
  hints_loaded_from_disk :: int

definition new_hot_summary :: hot_summary_state where
  "new_hot_summary = \<lparr>recent_repeat_target_events = [], hot_records = [], hints_loaded_from_disk = 0\<rparr>"

definition reset_hot_summary :: "hot_summary_state \<Rightarrow> hot_summary_state" where "reset_hot_summary st = new_hot_summary"

record smoothness_state =
  latest_turn_score :: int
  latest_turn_labour_index :: int
  current_task_score :: int
  current_task_labour_index :: int
  current_tok_mode :: tok_mode
  smoothness_event_counts :: counts

definition new_smoothness :: smoothness_state where
  "new_smoothness = \<lparr>latest_turn_score = 100, latest_turn_labour_index = 0, current_task_score = 100,
     current_task_labour_index = 0, current_tok_mode = FULL_TOK, smoothness_event_counts = []\<rparr>"

definition reset_smoothness :: "smoothness_state \<Rightarrow> smoothness_state" where "reset_smoothness st = new_smoothness"

text \<open>The part of the bridge memory that these methods touch.\<close>

record memory_view =
  memory_turn :: int
  memory_hot :: "json dict"
  rolling_cmds :: "json list"

record runtime_session =
  s_memory :: memory_view
  pending_behavior_signals :: counts
  family_states :: "adaptive_state dict"
  s_evidence :: evidence_state
  s_stream :: stream_state
  s_policy :: request_policy_state
  s_answer :: answer_phase_state
  s_delivery :: file_delivery_state
  s_fallback :: fallback_state
  s_smoothness :: smoothness_state
  s_loop :: loop_state
  s_cache :: cache_state
  s_hot :: hot_summary_state
  s_telemetry :: telemetry_state
  s_macro :: macro_state
  s_fidelity :: fidelity_state
  s_prompt :: user_prompt_state
  s_project :: project_state

subsection \<open>Methods of the session\<close>

definition reset_session :: "runtime_session \<Rightarrow> runtime_session" where
  "reset_session s = s\<lparr>
     s_fallback := reset_fallback (s_fallback s), s_smoothness := reset_smoothness (s_smoothness s),
     s_loop := reset_loop (s_loop s), s_cache := reset_cache (s_cache s), s_hot := reset_hot_summary (s_hot s),
     s_telemetry := reset_telemetry (s_telemetry s), s_macro := reset_macro (s_macro s),
     s_fidelity := reset_fidelity (s_fidelity s), s_prompt := reset_user_prompt (s_prompt s),
     s_project := reset_project (s_project s), pending_behavior_signals := [], family_states := [],
     s_memory := (s_memory s)\<lparr>memory_hot := [], rolling_cmds := []\<rparr>,
     s_evidence := reset_evidence (s_evidence s), s_stream := reset_stream (s_stream s),
     s_policy := reset_request_policy (s_policy s), s_answer := reset_answer_phase (s_answer s),
     s_delivery := reset_file_delivery (s_delivery s)\<rparr>"

definition note_stream_recovery :: "int \<Rightarrow> runtime_session \<Rightarrow> runtime_session" where
  "note_stream_recovery turns s =
     (let p = s_policy s in s\<lparr>s_policy := p\<lparr>stream_recovery_watch_turns := max (stream_recovery_watch_turns p) turns,
        tool_mode_sticky_turns := max (tool_mode_sticky_turns p) turns\<rparr>\<rparr>)"

definition note_tool_mode_recovery :: "int \<Rightarrow> runtime_session \<Rightarrow> runtime_session" where
  "note_tool_mode_recovery turns s =
     (let p = s_policy s in s\<lparr>s_policy := p\<lparr>tool_recovery_watch_turns := max (tool_recovery_watch_turns p) turns,
        tool_mode_sticky_turns := max (tool_mode_sticky_turns p) turns\<rparr>\<rparr>)"

text \<open>What the second recovery in a row clears.\<close>

definition clear_hot_bridge_state :: "runtime_session \<Rightarrow> runtime_session" where
  "clear_hot_bridge_state s =
     (let s = s\<lparr>s_telemetry := (s_telemetry s)\<lparr>last_tool_compatible_state := [], last_tool_compatible_state_fields := []\<rparr>,
                s_cache := (s_cache s)\<lparr>observed_tool_result_ids := []\<rparr>,
                s_evidence := (s_evidence s)\<lparr>first_exact_seen := [], ledger := [], pending_exact_keys := []\<rparr>\<rparr>;
          s = s\<lparr>s_cache := (s_cache s)\<lparr>result_cache := [], semantic_hash_cache := []\<rparr>,
                s_project := (s_project s)\<lparr>files_read := [], files_fully_delivered := []\<rparr>,
                s_telemetry := (s_telemetry s)\<lparr>suppressed_failure_markers := []\<rparr>,
                s_stream := reset_stream (s_stream s), s_policy := reset_request_policy (s_policy s)\<rparr>
      in s\<lparr>s_memory := (s_memory s)\<lparr>
             memory_hot := fold dict_pop [''turns'', ''next'', ''cmds'', ''errs'', ''blockers''] (memory_hot (s_memory s)),
             rolling_cmds := []\<rparr>\<rparr>)"

definition record_invalid_tool_history_recovery ::
    "int \<Rightarrow> bool \<Rightarrow> runtime_session \<Rightarrow> counts \<times> runtime_session" where
  "record_invalid_tool_history_recovery sticky_turns blocked s =
     (let f = s_fallback s; n = recovery_count f + 1;
          s = note_tool_mode_recovery sticky_turns (s\<lparr>s_fallback := f\<lparr>recovery_count := n\<rparr>\<rparr>);
          signals = [(''tok_bridge_invalid_tool_history_recovery'', 1),
                     (''tok_bridge_invalid_tool_history_blocked'', if blocked then 1 else 0)]
      in if 2 \<le> n
         then (dict_set ''tok_bridge_invalid_tool_history_session_reset'' 1 signals, clear_hot_bridge_state s)
         else (signals, s))"

definition reset_invalid_tool_history_recovery :: "runtime_session \<Rightarrow> runtime_session" where
  "reset_invalid_tool_history_recovery s = s\<lparr>s_fallback := (s_fallback s)\<lparr>recovery_count := 0\<rparr>\<rparr>"

definition session_fallback_event :: "int \<Rightarrow> runtime_session \<Rightarrow> runtime_session" where
  "session_fallback_event threshold s = s\<lparr>s_fallback := record_fallback_event threshold (s_fallback s)\<rparr>"

definition session_reset_fallback :: "runtime_session \<Rightarrow> runtime_session" where
  "session_reset_fallback s = s\<lparr>s_fallback := reset_fallback_count (s_fallback s)\<rparr>"

definition session_observe_tool_action ::
    "bool \<Rightarrow> int \<Rightarrow> string \<Rightarrow> string \<Rightarrow> runtime_session \<Rightarrow> (bool \<times> runtime_session) py" where
  "session_observe_tool_action enabled threshold tool key s =
     bind_py (observe_tool_action enabled threshold tool key (s_loop s)) (\<lambda>(b, l). Inr (b, s\<lparr>s_loop := l\<rparr>))"

definition session_consume_loop_detected :: "runtime_session \<Rightarrow> bool \<times> runtime_session" where
  "session_consume_loop_detected s = (case consume_loop_detected (s_loop s) of (b, l) \<Rightarrow> (b, s\<lparr>s_loop := l\<rparr>))"

definition mark_file_edited :: "string \<Rightarrow> runtime_session \<Rightarrow> runtime_session" where
  "mark_file_edited p s =
     s\<lparr>s_project := project_mark_file_edited p (step_count (s_telemetry s)) (s_project s)\<rparr>"

definition is_recently_edited :: "string \<Rightarrow> runtime_session \<Rightarrow> bool" where
  "is_recently_edited p s = project_is_recently_edited p (step_count (s_telemetry s)) 2 (s_project s)"

definition bump_signals :: "counts \<Rightarrow> runtime_session \<Rightarrow> runtime_session" where
  "bump_signals signals s =
     (let s = s\<lparr>pending_behavior_signals := fold (\<lambda>(k, n). cadd k n) signals (pending_behavior_signals s)\<rparr> in
      if cget ''tok_memory_snap_triggered'' signals \<noteq> 0
      then s\<lparr>s_telemetry := (s_telemetry s)\<lparr>tok_memory_snap_triggered := 1\<rparr>\<rparr> else s)"

definition consume_behavior_signals :: "runtime_session \<Rightarrow> counts \<times> runtime_session" where
  "consume_behavior_signals s = (pending_behavior_signals s, s\<lparr>pending_behavior_signals := []\<rparr>)"

definition record_exact_evidence ::
    "(string \<Rightarrow> string \<Rightarrow> string) \<Rightarrow> string \<Rightarrow> string \<Rightarrow> string option \<Rightarrow> bool \<Rightarrow> runtime_session \<Rightarrow> counts \<times> runtime_session" where
  "record_exact_evidence put key digest content register s =
     (case record_exact key digest (max 1 (memory_turn (s_memory s))) content (Some put) register (s_evidence s) of
        (signals, e) \<Rightarrow> (signals, bump_signals signals (s\<lparr>s_evidence := e\<rparr>)))"

definition record_non_exact_evidence ::
    "string \<Rightarrow> string \<Rightarrow> evidence_form \<Rightarrow> runtime_session \<Rightarrow> counts \<times> runtime_session" where
  "record_non_exact_evidence key digest form s =
     (case record_non_exact key digest form (max 1 (memory_turn (s_memory s))) (s_evidence s) of
        (signals, e) \<Rightarrow> (signals, bump_signals signals (s\<lparr>s_evidence := e\<rparr>)))"

definition session_require_reacquisition :: "string option \<Rightarrow> string \<Rightarrow> runtime_session \<Rightarrow> counts \<times> runtime_session" where
  "session_require_reacquisition env key s =
     (case require_exact_reacquisition env key (s_evidence s) of
        (signals, e) \<Rightarrow> (signals, bump_signals signals (s\<lparr>s_evidence := e\<rparr>)))"

definition policy_snapshot :: "string \<Rightarrow> runtime_session \<Rightarrow> (string \<times> smart_zone_policy) \<times> runtime_session" where
  "policy_snapshot model s =
     (let policy = policy_for_model model; key = family_key (policy_family policy) in
      case map_of (family_states s) key of
        Some st \<Rightarrow> ((state_mode st, policy), s)
      | None \<Rightarrow> ((state_mode (initial_state policy), policy),
                 s\<lparr>family_states := dict_set key (initial_state policy) (family_states s)\<rparr>))"

definition is_predictive_cache_hit :: "string \<Rightarrow> string \<Rightarrow> runtime_session \<Rightarrow> bool" where
  "is_predictive_cache_hit fam target s =
     ((fam @ ''|'' @ target) \<in> set (predictive_cache_warm_keys (s_cache s)))"

definition update_smoothness_state :: "int \<Rightarrow> int \<Rightarrow> tok_mode \<Rightarrow> counts \<Rightarrow> runtime_session \<Rightarrow> runtime_session" where
  "update_smoothness_state score labour mode events s =
     s\<lparr>s_smoothness := (s_smoothness s)\<lparr>latest_turn_score := score, latest_turn_labour_index := labour,
         current_tok_mode := mode,
         smoothness_event_counts := fold (\<lambda>(k, n). cadd k n) events (smoothness_event_counts (s_smoothness s)),
         current_task_score := score, current_task_labour_index := labour\<rparr>\<rparr>"

text \<open>The records are ranked by promotion and last turn; \<open>sorted(..., reverse=True)\<close> keeps equal items in order.\<close>

definition record_rank :: "string \<times> hot_summary_record \<Rightarrow> int \<times> int" where
  "record_rank item = (let r = snd item in
     (if hs_stuck_promotion_turn r \<noteq> 0 then hs_stuck_promotion_turn r else hs_hot_promotion_turn r,
      hs_last_seen_turn r))"

definition neg_rank :: "string \<times> hot_summary_record \<Rightarrow> int \<times> int" where
  "neg_rank item = (case record_rank item of (a, b) \<Rightarrow> (- a, - b))"

definition trim_repeat_target_state :: "runtime_session \<Rightarrow> runtime_session" where
  "trim_repeat_target_state s =
     (let h = s_hot s; c = s_cache s;
          h = (if 16 < length (recent_repeat_target_events h)
               then h\<lparr>recent_repeat_target_events := slice_last 16 (recent_repeat_target_events h)\<rparr> else h);
          h = (if 64 < length (hot_records h)
               then h\<lparr>hot_records := take 64 (sort_key neg_rank (hot_records h))\<rparr> else h);
          c = (if 64 < length (observed_tool_result_ids c)
               then c\<lparr>observed_tool_result_ids := slice_last 64 (observed_tool_result_ids c)\<rparr> else c)
      in s\<lparr>s_hot := h, s_cache := c\<rparr>)"


subsection \<open>The guard against edits of files the model has only seen summarised\<close>

record tool_event =
  te_id :: string
  te_name :: string
  te_args :: "json dict"
  te_path :: "string option"
  te_command :: "string option"
  te_query :: "string option"

definition is_edit_tool_event :: "tool_event \<Rightarrow> bool" where
  "is_edit_tool_event e = (py_lower (te_name e) \<in> set EDIT_LIKE_TOOLS)"

definition PATH_ARG_KEYS :: "string list" where
  "PATH_ARG_KEYS = [''file_path'', ''path'', ''AbsolutePath'', ''TargetFile'', ''file'']"

fun first_path_arg :: "json dict \<Rightarrow> string list \<Rightarrow> string option" where
  "first_path_arg args [] = None"
| "first_path_arg args (k # ks) =
     (case map_of args k of
        Some v \<Rightarrow> if truthy v then Some (py_str v) else first_path_arg args ks
      | None \<Rightarrow> first_path_arg args ks)"

definition extract_file_path_from_event :: "tool_event \<Rightarrow> string option" where
  "extract_file_path_from_event e =
     (if given (te_path e) then te_path e else first_path_arg (te_args e) PATH_ARG_KEYS)"

definition is_unsafe_skeleton_edit :: "tool_event \<Rightarrow> runtime_session \<Rightarrow> bool" where
  "is_unsafe_skeleton_edit e s =
     (given (extract_file_path_from_event e) \<and>
      normalize_path_target (or_empty (extract_file_path_from_event e)) \<in> set (skeleton_delivered_paths (s_project s)))"

definition READ_NAMES :: "string list" where
  "READ_NAMES = [''read'', ''read_file'', ''fileread'']"

definition is_verbatim_file_read :: "tool_event \<Rightarrow> bool" where
  "is_verbatim_file_read e =
     (py_lower (te_name e) \<in> set READ_NAMES \<and>
      \<not> list_ex (\<lambda>k. map_of (te_args e) k \<noteq> None) PRECISION_READ_ARG_KEYS)"

text \<open>
  \<open>int(x)\<close>: a text is a decimal literal with optional sign, surrounding white space and single underscores between
  digits; a float is cut by \<open>fint\<close>, which is \<open>None\<close> for the values that have no integer (\<open>NaN\<close>); the infinities,
  whose \<open>OverflowError\<close> no handler of this code catches, are outside the model.
\<close>

definition int_literal :: "string \<Rightarrow> int option" where
  "int_literal s =
     (let t = py_strip s; neg = prefix ''-'' t; d = (if neg \<or> prefix ''+'' t then drop 1 t else t);
          groups = split_by (\<lambda>c. c = CHR ''_'') d
      in if list_all (\<lambda>g. g \<noteq> [] \<and> list_all is_digit g) groups
         then Some (if neg then - int (decimal_value (concat groups)) else int (decimal_value (concat groups)))
         else None)"

fun to_int :: "(string \<Rightarrow> int option) \<Rightarrow> json \<Rightarrow> int option" where
  "to_int fint (JInt i) = Some i"
| "to_int fint (JBool b) = Some (if b then 1 else 0)"
| "to_int fint (JStr s) = int_literal s"
| "to_int fint (JFloat f) = fint f"
| "to_int fint _ = None"

definition read_clears_skeleton_block :: "(string \<Rightarrow> int option) \<Rightarrow> tool_event \<Rightarrow> bool" where
  "read_clears_skeleton_block fint e =
     (if is_verbatim_file_read e then True
      else if py_lower (te_name e) \<notin> set READ_NAMES then False
      else case (case map_of (te_args e) ''offset'' of Some v \<Rightarrow> Some v | None \<Rightarrow> map_of (te_args e) ''start'') of
             None \<Rightarrow> False
           | Some start \<Rightarrow> (case to_int fint start of Some i \<Rightarrow> i = 0 \<or> i = 1 | None \<Rightarrow> False))"

definition clear_skeleton_tracking :: "tool_event \<Rightarrow> runtime_session \<Rightarrow> runtime_session" where
  "clear_skeleton_tracking e s =
     (if \<not> given (extract_file_path_from_event e) then s
      else s\<lparr>s_project := (s_project s)\<lparr>skeleton_delivered_paths :=
             filter (\<lambda>p. p \<noteq> normalize_path_target (or_empty (extract_file_path_from_event e)))
               (skeleton_delivered_paths (s_project s))\<rparr>\<rparr>)"

text \<open>\<open>execute_tool_event\<close>; \<open>run\<close> is the executor of the tool, and \<open>Inl\<close> the path that \<open>TokSafetyError\<close> names.\<close>

definition execute_tool_event ::
    "(string \<Rightarrow> int option) \<Rightarrow> (tool_event \<Rightarrow> 'w \<Rightarrow> 'r \<times> 'w) \<Rightarrow> tool_event \<Rightarrow> runtime_session option \<Rightarrow> 'w \<Rightarrow>
     (string + 'r) \<times> runtime_session option \<times> 'w" where
  "execute_tool_event fint run e session w =
     (case session of
        None \<Rightarrow> (case run e w of (r, w') \<Rightarrow> (Inr r, None, w'))
      | Some s \<Rightarrow>
          if is_edit_tool_event e \<and> is_unsafe_skeleton_edit e s
          then (Inl (or_empty (extract_file_path_from_event e)), Some s, w)
          else let s = (if read_clears_skeleton_block fint e then clear_skeleton_tracking e s else s)
               in case run e w of (r, w') \<Rightarrow> (Inr r, Some s, w'))"

fun execute_tool_events_batch ::
    "(string \<Rightarrow> int option) \<Rightarrow> (tool_event \<Rightarrow> 'w \<Rightarrow> 'r \<times> 'w) \<Rightarrow> tool_event list \<Rightarrow> runtime_session option \<Rightarrow> 'w \<Rightarrow>
     (string + 'r list) \<times> runtime_session option \<times> 'w" where
  "execute_tool_events_batch fint run [] session w = (Inr [], session, w)"
| "execute_tool_events_batch fint run (e # es) session w =
     (case execute_tool_event fint run e session w of
        (Inl err, session, w) \<Rightarrow> (Inl err, session, w)
      | (Inr r, session, w) \<Rightarrow>
          (case execute_tool_events_batch fint run es session w of
             (Inl err, session, w) \<Rightarrow> (Inl err, session, w)
           | (Inr rs, session, w) \<Rightarrow> (Inr (r # rs), session, w)))"

subsection \<open>Stages of a request\<close>

record request_lifecycle =
  initial_preflight :: bool
  model_extraction :: bool
  tool_compatibility_check :: bool
  request_preparation :: bool
  runtime_preparation :: bool
  signals_and_metrics :: bool
  prepared_preflight :: bool
  plan_finalization_guard :: bool
  final_payload_construction :: bool
  repeat_target_capture :: bool
  tool_event_normalization :: bool
  hot_memory_refresh :: bool
  compression_safety_applied :: bool
  response_processing_complete :: bool

definition GATEWAY_STAGES :: "(string \<times> (request_lifecycle \<Rightarrow> bool)) list" where
  "GATEWAY_STAGES =
     [(''initial_preflight'', initial_preflight), (''model_extraction'', model_extraction),
      (''tool_compatibility_check'', tool_compatibility_check), (''request_preparation'', request_preparation),
      (''runtime_preparation'', runtime_preparation), (''repeat_target_capture'', repeat_target_capture),
      (''tool_event_normalization'', tool_event_normalization), (''hot_memory_refresh'', hot_memory_refresh),
      (''signals_and_metrics'', signals_and_metrics), (''prepared_preflight'', prepared_preflight),
      (''compression_safety_applied'', compression_safety_applied),
      (''plan_finalization_guard'', plan_finalization_guard),
      (''final_payload_construction'', final_payload_construction)]"

definition gateway_stages_complete :: "request_lifecycle \<Rightarrow> bool" where
  "gateway_stages_complete l = list_all (\<lambda>(_, done_of). done_of l) GATEWAY_STAGES"

definition incomplete_gateway_stages :: "request_lifecycle \<Rightarrow> string list" where
  "incomplete_gateway_stages l = map fst (filter (\<lambda>(_, done_of). \<not> done_of l) GATEWAY_STAGES)"


subsection \<open>Runs of the session\<close>

record session_config =
  cfg_fallback_threshold :: int
  cfg_loop_enabled :: bool
  cfg_loop_threshold :: int
  cfg_sticky_turns :: int

datatype session_op =
    FallbackOp
  | ResetFallbackOp
  | RecoveryOp bool
  | ResetRecoveryOp
  | ActionOp string string
  | ConsumeLoopOp
  | EditedOp string
  | SignalsOp counts
  | ConsumeSignalsOp
  | StreamNoteOp int
  | ToolNoteOp int
  | SmoothnessOp int int tok_mode counts
  | TrimOp
  | ResetSessionOp

fun session_apply :: "session_config \<Rightarrow> session_op \<Rightarrow> runtime_session \<Rightarrow> runtime_session py" where
  "session_apply c FallbackOp s = Inr (session_fallback_event (cfg_fallback_threshold c) s)"
| "session_apply c ResetFallbackOp s = Inr (session_reset_fallback s)"
| "session_apply c (RecoveryOp blocked) s =
     Inr (snd (record_invalid_tool_history_recovery (cfg_sticky_turns c) blocked s))"
| "session_apply c ResetRecoveryOp s = Inr (reset_invalid_tool_history_recovery s)"
| "session_apply c (ActionOp tool key) s =
     bind_py (session_observe_tool_action (cfg_loop_enabled c) (cfg_loop_threshold c) tool key s) (\<lambda>(_, s). Inr s)"
| "session_apply c ConsumeLoopOp s = Inr (snd (session_consume_loop_detected s))"
| "session_apply c (EditedOp p) s = Inr (mark_file_edited p s)"
| "session_apply c (SignalsOp signals) s = Inr (bump_signals signals s)"
| "session_apply c ConsumeSignalsOp s = Inr (snd (consume_behavior_signals s))"
| "session_apply c (StreamNoteOp n) s = Inr (note_stream_recovery n s)"
| "session_apply c (ToolNoteOp n) s = Inr (note_tool_mode_recovery n s)"
| "session_apply c (SmoothnessOp score labour mode events) s = Inr (update_smoothness_state score labour mode events s)"
| "session_apply c TrimOp s = Inr (trim_repeat_target_state s)"
| "session_apply c ResetSessionOp s = Inr (reset_session s)"

fun session_run :: "session_config \<Rightarrow> session_op list \<Rightarrow> runtime_session \<Rightarrow> runtime_session py" where
  "session_run c [] s = Inr s"
| "session_run c (x # xs) s = bind_py (session_apply c x s) (session_run c xs)"

definition clears_fallback :: "session_op \<Rightarrow> bool" where
  "clears_fallback x = (x = ResetFallbackOp \<or> x = ResetSessionOp)"

lemma observe_total:
  assumes "0 < t"
  shows "\<exists>b l'. observe_tool_action en t tool key l = Inr (b, l')"
  using assms by (auto simp: observe_tool_action_def slice_last_def Let_def)

lemma session_apply_total: "0 < cfg_loop_threshold c \<Longrightarrow> \<exists>s'. session_apply c x s = Inr s'"
  using observe_total [of "cfg_loop_threshold c" "cfg_loop_enabled c"]
  by (cases x) (auto simp: session_observe_tool_action_def, metis bind_py_simps(2) case_prod_conv)

lemmas session_defs = session_fallback_event_def session_reset_fallback_def record_invalid_tool_history_recovery_def
  reset_invalid_tool_history_recovery_def session_consume_loop_detected_def mark_file_edited_def bump_signals_def
  consume_behavior_signals_def note_stream_recovery_def note_tool_mode_recovery_def update_smoothness_state_def
  trim_repeat_target_state_def clear_hot_bridge_state_def

text \<open>What one operation does to the count of fallbacks.\<close>

lemma session_apply_fallback:
  assumes "session_apply c x s = Inr s'" and "\<not> clears_fallback x"
  shows "consecutive_count (s_fallback s') = consecutive_count (s_fallback s) + (if x = FallbackOp then 1 else 0)"
    and "baseline_only (s_fallback s') \<longleftrightarrow> baseline_only (s_fallback s) \<or>
           (x = FallbackOp \<and> cfg_fallback_threshold c \<le> consecutive_count (s_fallback s) + 1)"
  using assms
  by (cases x; force simp: clears_fallback_def session_defs record_fallback_event_def Let_def
        session_observe_tool_action_def bind_py_Inr_iff split: prod.splits if_splits)+

lemma session_run_fallback:
  assumes "session_run c xs s = Inr s'" and "\<not> list_ex clears_fallback xs"
  shows "consecutive_count (s_fallback s') = consecutive_count (s_fallback s) + int (count_list xs FallbackOp)
    \<and> (baseline_only (s_fallback s') \<longleftrightarrow> baseline_only (s_fallback s) \<or>
         (FallbackOp \<in> set xs \<and> cfg_fallback_threshold c \<le> consecutive_count (s_fallback s'))) "
  using assms
proof (induction xs arbitrary: s)
  case (Cons x xs)
  then obtain s1 where s1: "session_apply c x s = Inr s1" "session_run c xs s1 = Inr s'"
    by (auto elim: bind_py_Inr_E)
  have keep: "\<not> clears_fallback x" "\<not> list_ex clears_fallback xs" using Cons.prems by auto
  note IH = Cons.IH [OF s1(2) keep(2)]
  note step = session_apply_fallback [OF s1(1) keep(1)]
  have none: "FallbackOp \<notin> set xs \<Longrightarrow> count_list xs FallbackOp = 0" by (simp add: count_list_0_iff)
  show ?case using IH step none by (cases "x = FallbackOp"; cases "FallbackOp \<in> set xs") auto
qed simp

lemma session_run_total: "0 < cfg_loop_threshold c \<Longrightarrow> \<exists>s'. session_run c xs s = Inr s'"
proof (induction xs arbitrary: s)
  case (Cons x xs)
  then show ?case using session_apply_total [of c x s] by auto
qed simp


text \<open>C15: A session that keeps failing ends in baseline mode: every run in which as many fallback events happen as the
  threshold says, and in which nobody resets the count, runs to its end and leaves the session in baseline mode,
  whatever else happens in between and however the session started (with a count that is not negative).\<close>

theorem repeated_fallback_degrades:
  assumes "0 < cfg_loop_threshold c"
    and "0 \<le> consecutive_count (s_fallback s)"
    and "FallbackOp \<in> set xs"
    and "cfg_fallback_threshold c \<le> int (count_list xs FallbackOp)"
    and "\<not> list_ex clears_fallback xs"
  shows "\<exists>s'. session_run c xs s = Inr s' \<and> baseline_only (s_fallback s')"
proof -
  obtain s' where run: "session_run c xs s = Inr s'" using session_run_total [OF assms(1)] by blast
  from session_run_fallback [OF run assms(5)] assms(2-4)
  have "baseline_only (s_fallback s')" by auto
  with run show ?thesis by blast
qed

definition sample_session :: runtime_session where
  "sample_session = \<lparr>s_memory = \<lparr>memory_turn = 0, memory_hot = [], rolling_cmds = []\<rparr>,
     pending_behavior_signals = [], family_states = [], s_evidence = new_evidence_state,
     s_stream = new_stream, s_policy = new_request_policy,
     s_answer = new_answer_phase, s_delivery = new_file_delivery,
     s_fallback = new_fallback, s_smoothness = new_smoothness, s_loop = new_loop,
     s_cache = new_cache, s_hot = new_hot_summary, s_telemetry = new_telemetry,
     s_macro = \<lparr>load_global_macros = True, pending_heal = [], pending_heal_turn = 0\<rparr>,
     s_fidelity = new_fidelity, s_prompt = new_user_prompt,
     s_project = \<lparr>project_markers = [], files_read = [], files_fully_delivered = [], recently_edited_files = [],
       skeleton_delivered_paths = [''src/a.py'']\<rparr>\<rparr>"

definition sample_config :: session_config where
  "sample_config = \<lparr>cfg_fallback_threshold = 3, cfg_loop_enabled = True, cfg_loop_threshold = 3, cfg_sticky_turns = 2\<rparr>"

theorem repeated_fallback_degrades_witness:
  "\<exists>s'. session_run sample_config [FallbackOp, EditedOp ''a'', FallbackOp, RecoveryOp True, FallbackOp] sample_session = Inr s'
    \<and> baseline_only (s_fallback s')"
  by (rule repeated_fallback_degrades)
    (simp_all add: sample_config_def sample_session_def new_fallback_def clears_fallback_def)

subsection \<open>Loop detection\<close>

definition action_key :: "string \<times> string \<Rightarrow> string \<times> string" where
  "action_key a = (fst a, fst a @ '':'' @ snd a)"

text \<open>The results of a sequence of observed actions, and the state after it.\<close>

fun observe_all :: "int \<Rightarrow> (string \<times> string) list \<Rightarrow> loop_state \<Rightarrow> (bool list \<times> loop_state) py" where
  "observe_all t [] st = Inr ([], st)"
| "observe_all t (a # acts) st =
     bind_py (observe_tool_action True t (fst a) (snd a) st) (\<lambda>(b, st).
       bind_py (observe_all t acts st) (\<lambda>(bs, st). Inr (b # bs, st)))"

definition last_same :: "nat \<Rightarrow> 'a list \<Rightarrow> bool" where
  "last_same t xs = (t \<le> length xs \<and> (\<exists>k. drop (length xs - t) xs = replicate t k))"

lemma replicate_hd:
  assumes "ys \<noteq> []"
  shows "(\<exists>k. ys = replicate (length ys) k) \<longleftrightarrow> list_all (\<lambda>y. y = hd ys) ys"
proof
  assume "\<exists>k. ys = replicate (length ys) k"
  then obtain k where k: "ys = replicate (length ys) k" by blast
  then have "\<forall>y \<in> set ys. y = k" by (metis in_set_replicate)
  then show "list_all (\<lambda>y. y = hd ys) ys" using assms by (cases ys) (auto simp: list_all_iff)
next
  assume "list_all (\<lambda>y. y = hd ys) ys"
  then have "replicate (length ys) (hd ys) = ys" by (simp add: list_all_iff replicate_length_same)
  then show "\<exists>k. ys = replicate (length ys) k" by metis
qed

lemma window_step:
  "(let w = drop (length xs - n) xs @ [x] in if n < length w then drop (length w - n) w else w)
    = drop (length (xs @ [x]) - n) (xs @ [x])"
proof (cases "n \<le> length xs")
  case True
  then show ?thesis by (auto simp: Let_def Suc_diff_le)
qed (auto simp: Let_def)

lemma drop_last_window:
  assumes "t \<le> n"
  shows "drop (length (drop (length xs - n) xs) - t) (drop (length xs - n) xs) = drop (length xs - t) xs"
proof (cases "n \<le> length xs")
  case True
  then have "length xs - (length xs - n + t) + (length xs - n) = length xs - t" using assms by simp
  then show ?thesis using assms True by simp
qed (use assms in simp)

lemma observe_window:
  fixes a :: "string \<times> string" and ks :: "(string \<times> string) list"
  defines "ks' \<equiv> ks @ [action_key a]"
  assumes "0 < t" and "loop_window st = drop (length ks - nat (3 * t)) ks"
  shows "\<exists>st'. observe_tool_action True t (fst a) (snd a) st = Inr (last_same (nat t) (map snd ks'), st') \<and>
    loop_window st' = drop (length ks' - nat (3 * t)) ks'"
proof -
  define w where "w = loop_window st @ [action_key a]"
  define w' where "w' = (if 3 * t < int (length w) then slice_last (3 * t) w else w)"
  have "w' = (let v = drop (length ks - nat (3 * t)) ks @ [action_key a]
              in if nat (3 * t) < length v then drop (length v - nat (3 * t)) v else v)"
    using assms(2) by (simp add: w'_def w_def assms(3) slice_last_def Let_def nat_less_iff del: length_append drop_append)
  then have w': "w' = drop (length ks' - nat (3 * t)) ks'"
    unfolding window_step by (simp only: ks'_def)
  have len: "int (length w') < t \<longleftrightarrow> length ks' < nat t" using assms(2) by (auto simp: w')
  have recent: "slice_last t w' = drop (length ks' - nat t) ks'" (is "_ = ?r")
  proof -
    have "slice_last t w' = drop (length w' - nat t) w'" using assms(2) by (simp add: slice_last_def)
    also have "\<dots> = ?r" unfolding w' by (rule drop_last_window) (use assms(2) in simp)
    finally show ?thesis .
  qed
  have same: "last_same (nat t) (map snd ks') \<longleftrightarrow> list_all (\<lambda>b. snd b = snd (hd ?r)) ?r"
    if "\<not> length ks' < nat t"
  proof -
    have "length ?r = nat t" "?r \<noteq> []" using that assms(2) by auto
    then show ?thesis
      using replicate_hd [of "map snd ?r"] that
      by (auto simp: last_same_def drop_map list_all_length hd_map)
  qed
  have nonempty: "\<not> length ks' < nat t \<Longrightarrow> ?r \<noteq> []" using assms(2) by auto
  have raw: "observe_tool_action True t (fst a) (snd a) st =
     (if int (length w') < t then Inr (False, st\<lparr>loop_window := w'\<rparr>)
      else if list_all (\<lambda>b. snd b = snd (hd (slice_last t w'))) (slice_last t w')
      then (if slice_last t w' = [] then Inl IndexErrorRaised else Inr (True, st\<lparr>loop_window := w', loop_detected := True\<rparr>))
      else Inr (False, st\<lparr>loop_window := w'\<rparr>))"
    by (simp add: observe_tool_action_def Let_def w'_def w_def action_key_def mult.commute)
  show ?thesis
  proof (cases "length ks' < nat t")
    case True
    then show ?thesis using len w' by (simp add: raw last_same_def)
  next
    case False
    then show ?thesis using same nonempty len unfolding raw recent by (auto simp: w')
  qed
qed

lemma observe_all_window:
  assumes "0 < t" and "loop_window st = drop (length ks - nat (3 * t)) ks"
  shows "\<exists>st'. observe_all t acts st =
     Inr (map (\<lambda>i. last_same (nat t) (map snd (ks @ map action_key (take (Suc i) acts)))) [0..<length acts], st') \<and>
    loop_window st' = drop (length (ks @ map action_key acts) - nat (3 * t)) (ks @ map action_key acts)"
  using assms(2)
proof (induction acts arbitrary: st ks)
  case (Cons a acts)
  obtain st1 where one: "observe_tool_action True t (fst a) (snd a) st =
      Inr (last_same (nat t) (map snd (ks @ [action_key a])), st1)"
    "loop_window st1 = drop (length (ks @ [action_key a]) - nat (3 * t)) (ks @ [action_key a])"
    using observe_window [OF assms(1) Cons.prems, of a] by blast
  from Cons.IH [OF one(2)] show ?case
    by (auto simp: one(1) upt_conv_Cons map_Suc_upt [symmetric] simp del: upt_Suc)
qed simp


text \<open>C17: Loop detection works on a window of three times the threshold, yet it answers as if it had the whole history:
  from a fresh state, and for a positive threshold, the \<open>i\<close>-th observation reports a loop exactly when the last
  \<open>threshold\<close> actions of the history up to it have one and the same key; and the window never grows past its size.\<close>

theorem loop_detection_exact:
  assumes "0 < t"
  shows "\<exists>st. observe_all t acts new_loop =
      Inr (map (\<lambda>i. last_same (nat t) (map (\<lambda>a. snd (action_key a)) (take (Suc i) acts))) [0..<length acts], st)
    \<and> int (length (loop_window st)) \<le> 3 * t"
proof -
  obtain st where "observe_all t acts new_loop =
      Inr (map (\<lambda>i. last_same (nat t) (map (\<lambda>a. snd (action_key a)) (take (Suc i) acts))) [0..<length acts], st)"
    "loop_window st = drop (length acts - nat (3 * t)) (map action_key acts)"
    using observe_all_window [OF assms, of new_loop "[]" acts] by (auto simp: new_loop_def comp_def)
  then show ?thesis using assms by auto
qed

theorem loop_detection_exact_witness:
  "\<exists>st. observe_all 2 [(''read'', ''a''), (''read'', ''b''), (''read'', ''b''), (''read'', ''b'')] new_loop =
      Inr ([False, False, True, True], st) \<and> int (length (loop_window st)) \<le> 6"
proof -
  have same: "(\<exists>k. [x, y :: string] = replicate (Suc (Suc 0)) k) \<longleftrightarrow> x = y" for x y by auto
  show ?thesis
    using loop_detection_exact [of 2 "[(''read'', ''a''), (''read'', ''b''), (''read'', ''b''), (''read'', ''b'')]"]
    by (simp add: last_same_def action_key_def upt_rec numeral_2_eq_2 same)
qed

subsection \<open>The guard in a batch\<close>

text \<open>An executor that also keeps the list of the events it was given.\<close>

definition logged :: "(tool_event \<Rightarrow> 'w \<Rightarrow> 'r \<times> 'w) \<Rightarrow> tool_event \<Rightarrow> 'w \<times> tool_event list \<Rightarrow> 'r \<times> ('w \<times> tool_event list)" where
  "logged run e wl = (case run e (fst wl) of (r, w) \<Rightarrow> (r, (w, snd wl @ [e])))"

text \<open>The place an event is about, in the form in which the session keeps paths.\<close>

definition event_place :: "tool_event \<Rightarrow> string option" where
  "event_place e = (if given (extract_file_path_from_event e)
                    then Some (normalize_path_target (or_empty (extract_file_path_from_event e))) else None)"

text \<open>
  A read of a file from its top, said without the check of the session: a read tool named for that file, with no window at all, or
  with a window that begins at 0 or 1. The window begins at \<open>offset\<close>, or at \<open>start\<close> when there is no offset, and must name an integer.
\<close>

definition window_begins :: "(string \<Rightarrow> int option) \<Rightarrow> json dict \<Rightarrow> int \<Rightarrow> bool" where
  "window_begins fint args i \<longleftrightarrow>
     (\<exists>v. map_of args ''offset'' = Some v \<and> to_int fint v = Some i) \<or>
     (map_of args ''offset'' = None \<and> (\<exists>v. map_of args ''start'' = Some v \<and> to_int fint v = Some i))"

definition reads_from_top :: "(string \<Rightarrow> int option) \<Rightarrow> string \<Rightarrow> tool_event \<Rightarrow> bool" where
  "reads_from_top fint p e \<longleftrightarrow> event_place e = Some p \<and>
     py_lower (te_name e) \<in> {''read'', ''read_file'', ''fileread''} \<and>
     (set (map fst (te_args e)) \<inter> {''offset'', ''limit'', ''start'', ''end''} = {} \<or>
      window_begins fint (te_args e) 0 \<or> window_begins fint (te_args e) 1)"

lemma reads_from_top_iff: "reads_from_top fint p e \<longleftrightarrow> read_clears_skeleton_block fint e \<and> event_place e = Some p"
proof -
  have plain: "set (map fst (te_args e)) \<inter> {''offset'', ''limit'', ''start'', ''end''} = {} \<longleftrightarrow>
      \<not> list_ex (\<lambda>k. map_of (te_args e) k \<noteq> None) PRECISION_READ_ARG_KEYS"
    by (simp add: PRECISION_READ_ARG_KEYS_def map_of_eq_None_iff)
  have window: "(case (case map_of (te_args e) ''offset'' of Some v \<Rightarrow> Some v | None \<Rightarrow> map_of (te_args e) ''start'') of
       None \<Rightarrow> False | Some start \<Rightarrow> (case to_int fint start of Some i \<Rightarrow> i = 0 \<or> i = 1 | None \<Rightarrow> False)) \<longleftrightarrow>
      window_begins fint (te_args e) 0 \<or> window_begins fint (te_args e) 1"
    by (auto simp: window_begins_def split: option.split)
  have names: "set READ_NAMES = {''read'', ''read_file'', ''fileread''}" by (simp add: READ_NAMES_def)
  show ?thesis
    unfolding reads_from_top_def read_clears_skeleton_block_def is_verbatim_file_read_def plain window names by auto
qed

lemma unsafe_edit_place:
  "is_unsafe_skeleton_edit e s \<longleftrightarrow>
     (case event_place e of None \<Rightarrow> False | Some p \<Rightarrow> p \<in> set (skeleton_delivered_paths (s_project s)))"
  by (simp add: is_unsafe_skeleton_edit_def event_place_def)

lemma skeletons_clear:
  "set (skeleton_delivered_paths (s_project (clear_skeleton_tracking e s)))
    = set (skeleton_delivered_paths (s_project s)) - set_option (event_place e)"
  by (auto simp: clear_skeleton_tracking_def event_place_def)

lemma batch_step:
  assumes "execute_tool_events_batch fint (logged run) (e # es) (Some s) (w, seen0) = (r, s', w', seen)"
    and "\<not> (is_edit_tool_event e \<and> is_unsafe_skeleton_edit e s)"
  obtains s1 w1 r1 where
      "s1 = (if read_clears_skeleton_block fint e then clear_skeleton_tracking e s else s)"
      "execute_tool_events_batch fint (logged run) es (Some s1) (w1, seen0 @ [e]) = (r1, s', w', seen)"
      "(\<exists>rs. r = Inr rs) \<longleftrightarrow> (\<exists>rs. r1 = Inr rs)"
proof -
  define s1 where "s1 = (if read_clears_skeleton_block fint e then clear_skeleton_tracking e s else s)"
  obtain x w1 where run: "run e w = (x, w1)" by fastforce
  obtain r1 s2 w2 seen2 where rest:
    "execute_tool_events_batch fint (logged run) es (Some s1) (w1, seen0 @ [e]) = (r1, s2, w2, seen2)"
    by (metis prod_cases4)
  have "(r, s', w', seen) = (case r1 of Inl err \<Rightarrow> (Inl err, s2, w2, seen2) | Inr rs \<Rightarrow> (Inr (x # rs), s2, w2, seen2))"
    using assms rest by (cases r1) (auto simp: execute_tool_event_def logged_def run s1_def [symmetric])
  with rest s1_def that [of s1 w1 r1] show thesis by (cases r1) auto
qed

lemma batch_stop:
  assumes "is_edit_tool_event e" and "is_unsafe_skeleton_edit e s"
  shows "execute_tool_events_batch fint run (e # es) (Some s) w =
    (Inl (or_empty (extract_file_path_from_event e)), Some s, w)"
  using assms by (simp add: execute_tool_event_def)

lemma batch_ran:
  assumes "execute_tool_events_batch fint (logged run) es (Some s) (w, seen0) = (r, s', w', seen)"
  shows "\<exists>ran. seen = seen0 @ ran \<and> prefix ran es \<and> ((\<exists>rs. r = Inr rs) \<longleftrightarrow> ran = es)"
  using assms
proof (induction es arbitrary: s w seen0 r)
  case (Cons e es)
  show ?case
  proof (cases "is_edit_tool_event e \<and> is_unsafe_skeleton_edit e s")
    case True
    then have "seen = seen0" "\<nexists>rs. r = Inr rs"
      using Cons.prems batch_stop [of e s fint "logged run" es "(w, seen0)"] by auto
    then show ?thesis by simp
  next
    case False
    obtain s1 w1 r1 where
      "s1 = (if read_clears_skeleton_block fint e then clear_skeleton_tracking e s else s)" and
      rest: "execute_tool_events_batch fint (logged run) es (Some s1) (w1, seen0 @ [e]) = (r1, s', w', seen)" and
      r: "(\<exists>rs. r = Inr rs) \<longleftrightarrow> (\<exists>rs. r1 = Inr rs)" by (rule batch_step [OF Cons.prems False])
    from Cons.IH [OF rest] obtain ran
      where "seen = (seen0 @ [e]) @ ran" "prefix ran es" "(\<exists>rs. r1 = Inr rs) \<longleftrightarrow> ran = es" by blast
    then show ?thesis unfolding r by (intro exI [of _ "e # ran"]) simp
  qed
qed simp

lemma batch_stopped_at:
  assumes "execute_tool_events_batch fint (logged run) es (Some s) (w, seen0) = (r, s', w', seen)" and "r = Inl err"
  shows "\<exists>ran e rest. seen = seen0 @ ran \<and> es = ran @ e # rest \<and> is_edit_tool_event e \<and>
    (\<exists>p \<in> set (skeleton_delivered_paths (s_project s)). event_place e = Some p)"
  using assms
proof (induction es arbitrary: s w seen0 r err)
  case (Cons e es)
  show ?case
  proof (cases "is_edit_tool_event e \<and> is_unsafe_skeleton_edit e s")
    case True
    then have "seen = seen0" using Cons.prems(1) batch_stop [of e s fint "logged run" es "(w, seen0)"] by auto
    with True show ?thesis by (auto simp: unsafe_edit_place split: option.splits)
  next
    case False
    obtain s1 w1 r1 where
      s1: "s1 = (if read_clears_skeleton_block fint e then clear_skeleton_tracking e s else s)" and
      rest: "execute_tool_events_batch fint (logged run) es (Some s1) (w1, seen0 @ [e]) = (r1, s', w', seen)" and
      r: "(\<exists>rs. r = Inr rs) \<longleftrightarrow> (\<exists>rs. r1 = Inr rs)" by (rule batch_step [OF Cons.prems(1) False])
    with Cons.prems(2) obtain err1 where "r1 = Inl err1" by (cases r1) auto
    from Cons.IH [OF rest this] obtain ran e1 tail where
      "seen = (seen0 @ [e]) @ ran" "es = ran @ e1 # tail" "is_edit_tool_event e1"
      "\<exists>p \<in> set (skeleton_delivered_paths (s_project s1)). event_place e1 = Some p" by blast
    moreover have "set (skeleton_delivered_paths (s_project s1)) \<subseteq> set (skeleton_delivered_paths (s_project s))"
      by (auto simp: s1 skeletons_clear)
    ultimately show ?thesis by (intro exI [of _ "e # ran"] exI [of _ e1] exI [of _ tail]) auto
  qed
qed simp

lemma batch_guarded:
  assumes "execute_tool_events_batch fint (logged run) es (Some s) (w, seen0) = (r, s', w', seen0 @ before @ e # after)"
    and "p \<in> set (skeleton_delivered_paths (s_project s))"
    and "is_edit_tool_event e" and "event_place e = Some p"
  shows "list_ex (reads_from_top fint p) before"
  using assms
proof (induction before arbitrary: es s w seen0 r)
  case Nil
  then obtain e1 es1 where es: "es = e1 # es1" by (cases es) auto
  from batch_ran [OF Nil.prems(1)] es have "e1 = e" by auto
  with Nil.prems es have "is_unsafe_skeleton_edit e s" by (simp add: unsafe_edit_place)
  with Nil.prems es \<open>e1 = e\<close> show ?case
    using batch_stop [of e s fint "logged run" es1 "(w, seen0)"] by auto
next
  case (Cons b before)
  then obtain e1 es1 where es: "es = e1 # es1" by (cases es) auto
  from batch_ran [OF Cons.prems(1)] es have e1: "e1 = b" by auto
  have safe: "\<not> (is_edit_tool_event b \<and> is_unsafe_skeleton_edit b s)"
  proof
    assume "is_edit_tool_event b \<and> is_unsafe_skeleton_edit b s"
    then have "seen0 @ (b # before) @ e # after = seen0"
      using Cons.prems(1) batch_stop [of b s fint "logged run" es1 "(w, seen0)"] unfolding es e1 by auto
    then show False by simp
  qed
  obtain s1 w1 r1 where
    s1: "s1 = (if read_clears_skeleton_block fint b then clear_skeleton_tracking b s else s)" and
    rest0: "execute_tool_events_batch fint (logged run) es1 (Some s1) (w1, seen0 @ [b]) =
      (r1, s', w', seen0 @ (b # before) @ e # after)" and
    "(\<exists>rs. r = Inr rs) \<longleftrightarrow> (\<exists>rs. r1 = Inr rs)" by (rule batch_step [OF Cons.prems(1) [unfolded es e1] safe])
  then have rest: "execute_tool_events_batch fint (logged run) es1 (Some s1) (w1, seen0 @ [b]) =
      (r1, s', w', (seen0 @ [b]) @ before @ e # after)" by (simp only: append_Cons append_Nil append_assoc)
  show ?case
  proof (cases "reads_from_top fint p b")
    case False
    then have "p \<in> set (skeleton_delivered_paths (s_project s1))"
      using Cons.prems(2) by (auto simp: s1 skeletons_clear reads_from_top_iff elim: option.set_cases)
    from Cons.IH [OF rest this Cons.prems(3,4)] show ?thesis by simp
  qed simp
qed

text \<open>C16: The skeleton guard holds across a batch. Whatever the executor does, the events that reach it are an initial
  part of the batch, and the whole batch exactly when no error is raised; an edit of a file that the model has
  only seen summarised reaches it only when an earlier event of the batch has read that file again from its top (a read tool with
  no window, or with a window whose offset or start is 0 or 1); and when the batch stops, the event it stops at is an
  edit of a file that had been delivered as a summary.\<close>

theorem skeleton_edit_guarded:
  assumes "execute_tool_events_batch fint (logged run) es (Some s) (w, []) = (r, s', w', seen)"
  shows "prefix seen es \<and> ((\<exists>rs. r = Inr rs) \<longleftrightarrow> seen = es) \<and>
    (\<forall>before e after. seen = before @ e # after \<longrightarrow> is_edit_tool_event e \<longrightarrow>
       (\<forall>p \<in> set (skeleton_delivered_paths (s_project s)). event_place e = Some p \<longrightarrow>
          list_ex (reads_from_top fint p) before)) \<and>
    (\<forall>err. r = Inl err \<longrightarrow> (\<exists>e rest. es = seen @ e # rest \<and> is_edit_tool_event e \<and>
       (\<exists>p \<in> set (skeleton_delivered_paths (s_project s)). event_place e = Some p)))"
proof -
  from batch_ran [OF assms] have "prefix seen es \<and> ((\<exists>rs. r = Inr rs) \<longleftrightarrow> seen = es)" by simp
  moreover have "list_ex (reads_from_top fint p) before"
    if "seen = before @ e # after" "is_edit_tool_event e"
      "p \<in> set (skeleton_delivered_paths (s_project s))" "event_place e = Some p" for before e after p
    using batch_guarded [of fint run es s w "[]" r s' w' before e after p] that assms by simp
  moreover have "\<exists>e rest. es = seen @ e # rest \<and> is_edit_tool_event e \<and>
      (\<exists>p \<in> set (skeleton_delivered_paths (s_project s)). event_place e = Some p)" if "r = Inl err" for err
    using batch_stopped_at [OF assms that] by auto
  ultimately show ?thesis by blast
qed

definition tool_sample :: "string \<Rightarrow> json dict \<Rightarrow> tool_event" where
  "tool_sample name args = \<lparr>te_id = ''t'', te_name = name, te_args = args, te_path = Some '' src//a.py'',
     te_command = None, te_query = None\<rparr>"

definition sample_batch :: "tool_event list" where
  "sample_batch = [tool_sample ''Read'' [(''offset'', JStr ''1'')], tool_sample ''edit'' []]"

definition count_run :: "tool_event \<Rightarrow> nat \<Rightarrow> unit \<times> nat" where
  "count_run e w = ((), Suc w)"

theorem skeleton_edit_guarded_witness:
  "\<exists>r s' w'. execute_tool_events_batch (\<lambda>_. None) (logged count_run) sample_batch (Some sample_session) (0, [])
      = (r, s', w', sample_batch)
    \<and> list_ex (reads_from_top (\<lambda>_. None) ''src/a.py'') [tool_sample ''Read'' [(''offset'', JStr ''1'')]]"
proof -
  obtain r s' w' seen where run: "execute_tool_events_batch (\<lambda>_. None) (logged count_run) sample_batch
      (Some sample_session) (0, []) = (r, s', w', seen)" by (metis prod_cases4)
  have "\<not> isl (fst (execute_tool_events_batch (\<lambda>_. None) (logged count_run) sample_batch (Some sample_session) (0, [])))"
    by code_simp
  then have "\<exists>rs. r = Inr rs" unfolding run by (cases r) auto
  then have seen: "seen = sample_batch" using skeleton_edit_guarded [OF run] by blast
  have split: "seen = [tool_sample ''Read'' [(''offset'', JStr ''1'')]] @ tool_sample ''edit'' [] # []"
    by (simp add: seen sample_batch_def)
  have edit: "is_edit_tool_event (tool_sample ''edit'' [])" by code_simp
  have place: "event_place (tool_sample ''edit'' []) = Some ''src/a.py''" by code_simp
  have old: "''src/a.py'' \<in> set (skeleton_delivered_paths (s_project sample_session))" by (simp add: sample_session_def)
  from skeleton_edit_guarded [OF run] split edit place old
  have "list_ex (reads_from_top (\<lambda>_. None) ''src/a.py'') [tool_sample ''Read'' [(''offset'', JStr ''1'')]]" by blast
  with run seen show ?thesis by blast
qed


subsection \<open>Trimming, and what a reset leaves\<close>

lemma length_slice_last: "0 < n \<Longrightarrow> length (slice_last n xs) = min (nat n) (length xs)"
  by (simp add: slice_last_def min_def)

lemma neg_rank_le: "neg_rank a \<le> neg_rank b \<longleftrightarrow> record_rank b \<le> record_rank a"
  by (cases "record_rank a"; cases "record_rank b") (auto simp: neg_rank_def less_eq_prod_def)

lemma sorted_take_drop:
  assumes "sorted (map f xs)" and "x \<in> set (take n xs)" and "y \<in> set (drop n xs)"
  shows "f x \<le> f y"
proof -
  have "sorted (map f (take n xs) @ map f (drop n xs))"
    using assms(1) by (metis append_take_drop_id map_append)
  then show ?thesis using assms(2,3) by (auto simp: sorted_append)
qed

text \<open>Trimming keeps the repeat-target state within its limits, sixteen events, sixty-four records and sixty-four
  result identifiers, and of the records it drops the lowest: no dropped record was promoted, or then seen, later than
  one that is kept.\<close>

lemma trim_within_limits:
  "let h' = s_hot (trim_repeat_target_state s) in
     length (recent_repeat_target_events h') \<le> 16 \<and> length (hot_records h') \<le> 64 \<and>
     length (observed_tool_result_ids (s_cache (trim_repeat_target_state s))) \<le> 64 \<and>
     set (hot_records h') \<subseteq> set (hot_records (s_hot s)) \<and>
     (\<forall>kept \<in> set (hot_records h'). \<forall>dropped \<in> set (hot_records (s_hot s)) - set (hot_records h').
        record_rank dropped \<le> record_rank kept)"
proof -
  define rs where "rs = hot_records (s_hot s)"
  define rs' where "rs' = hot_records (s_hot (trim_repeat_target_state s))"
  have rs': "rs' = (if 64 < length rs then take 64 (sort_key neg_rank rs) else rs)"
    by (simp add: rs'_def rs_def trim_repeat_target_state_def Let_def)
  have events: "length (recent_repeat_target_events (s_hot (trim_repeat_target_state s))) \<le> 16"
    by (simp add: trim_repeat_target_state_def Let_def length_slice_last)
  have ids: "length (observed_tool_result_ids (s_cache (trim_repeat_target_state s))) \<le> 64"
    by (simp add: trim_repeat_target_state_def Let_def length_slice_last)
  have sub: "set rs' \<subseteq> set rs" unfolding rs' using set_take_subset [of 64 "sort_key neg_rank rs"] by auto
  have best: "record_rank dropped \<le> record_rank kept"
    if kept: "kept \<in> set rs'" and dropped: "dropped \<in> set rs - set rs'" for kept dropped
  proof (cases "64 < length rs")
    case True
    have "set rs = set (take 64 (sort_key neg_rank rs)) \<union> set (drop 64 (sort_key neg_rank rs))"
      by (metis append_take_drop_id set_append set_sort)
    then have "dropped \<in> set (drop 64 (sort_key neg_rank rs))" "kept \<in> set (take 64 (sort_key neg_rank rs))"
      using kept dropped True unfolding rs' by auto
    from sorted_take_drop [OF sorted_sort_key this(2,1)] show ?thesis by (simp add: neg_rank_le)
  next
    case False
    with dropped show ?thesis by (simp add: rs')
  qed
  show ?thesis
    using events ids sub best by (auto simp: Let_def rs_def [symmetric] rs'_def [symmetric] rs')
qed

text \<open>
  \<open>reset_session\<close> says that all transient state is cleared, but the count of recoveries survives it: the first
  recovery of the next conversation is then taken for a repeated one and clears the hot state again.
\<close>

lemma recovery_count_survives_reset:
  assumes "1 \<le> recovery_count (s_fallback s)"
  shows "map_of (fst (record_invalid_tool_history_recovery n b (reset_session s)))
      ''tok_bridge_invalid_tool_history_session_reset'' = Some 1"
  using assms by (simp add: record_invalid_tool_history_recovery_def reset_session_def reset_fallback_def Let_def)

lemma reset_clears:
  "s_evidence (reset_session s) = reset_evidence (s_evidence s) \<and> s_loop (reset_session s) = new_loop \<and>
   \<not> baseline_only (s_fallback (reset_session s)) \<and> pending_behavior_signals (reset_session s) = [] \<and>
   skeleton_delivered_paths (s_project (reset_session s)) = []"
  by (simp add: reset_session_def reset_fallback_def reset_loop_def reset_project_def)

text \<open>A request has passed every stage exactly when no stage is reported missing.\<close>

lemma lifecycle_complete_iff:
  "gateway_stages_complete l \<longleftrightarrow> incomplete_gateway_stages l = []"
  by (auto simp: gateway_stages_complete_def incomplete_gateway_stages_def list_all_iff filter_empty_conv)

end
