(* ===== verification/SkeletonDelta.thy ===== *)
theory SkeletonDelta
  imports RepeatTargets "HOL-Library.Product_Lexorder"
begin

section \<open>Differences between skeletons\<close>

text \<open>
  Models \<open>src/tok/utils/delta.py\<close>: reading a skeleton into an index of functions and classes, the difference of two
  indexes, applying a difference, and printing both. The code walks over Python sets, whose order is not defined:
  \<open>order\<close> is the order it meets, a rearrangement of the keys it is given (\<open>reorders\<close>). The attributes of an entry
  are a dictionary of texts.
\<close>

subsection \<open>Searching\<close>

text \<open>\<open>re.search\<close> for a pattern whose match at a place is decided by \<open>m\<close>: the first place that matches.\<close>

fun re_search :: "(string \<Rightarrow> 'a option) \<Rightarrow> string \<Rightarrow> 'a option" where
  "re_search m [] = m []"
| "re_search m (c # s) = (case m (c # s) of Some r \<Rightarrow> Some r | None \<Rightarrow> re_search m s)"

definition after_prefix :: "string \<Rightarrow> string \<Rightarrow> string option" where
  "after_prefix p s = (if prefix p s then Some (drop (length p) s) else None)"

text \<open>A nonempty run of characters of a class, and what follows it.\<close>

definition run_of :: "(char \<Rightarrow> bool) \<Rightarrow> string \<Rightarrow> (string \<times> string) option" where
  "run_of P s = (if takeWhile P s = [] then None else Some (takeWhile P s, dropWhile P s))"

definition ref_at :: "string \<Rightarrow> string option" where
  "ref_at s = Option.bind (after_prefix ''ref:*'' s) (\<lambda>r. map_option fst (run_of word_char r))"

definition bases_at :: "string \<Rightarrow> string option" where
  "bases_at s = Option.bind (after_prefix ''bases:'' s) (\<lambda>r. map_option fst (run_of (\<lambda>c. \<not> py_space c) r))"

definition repo_at :: "string \<Rightarrow> string option" where
  "repo_at s = Option.bind (after_prefix ''@repo'' s) (\<lambda>r. Option.bind (run_of py_space r) (\<lambda>(_, r).
     map_option fst (run_of (\<lambda>c. \<not> py_space c) r)))"

definition class_at :: "string \<Rightarrow> string option" where
  "class_at s = Option.bind (after_prefix ''@class'' s) (\<lambda>r. Option.bind (run_of py_space r) (\<lambda>(_, r).
     map_option fst (run_of word_char r)))"

text \<open>\<open>@func name (args)\<close>: the name and the text between the parentheses.\<close>

definition func_at :: "string \<Rightarrow> (string \<times> string) option" where
  "func_at s = Option.bind (after_prefix ''@func'' s) (\<lambda>r. Option.bind (run_of py_space r) (\<lambda>(_, r).
     Option.bind (run_of word_char r) (\<lambda>(name, r).
       Option.bind (after_prefix ''('' (dropWhile py_space r)) (\<lambda>r.
         if dropWhile (\<lambda>c. c \<noteq> CHR '')'') r = [] then None
         else Some (name, takeWhile (\<lambda>c. c \<noteq> CHR '')'') r)))))"

subsection \<open>The index of a skeleton\<close>

type_synonym delta_key = "string \<times> string \<times> string"
type_synonym attrs = "string dict"
type_synonym skeleton_index = "(delta_key \<times> attrs) list"

definition or_unknown :: "string option \<Rightarrow> string option \<Rightarrow> string" where
  "or_unknown module_name file_name =
     (if given module_name then or_empty module_name else if given file_name then or_empty file_name else ''unknown'')"

definition with_ref :: "bool \<Rightarrow> string \<Rightarrow> attrs \<Rightarrow> attrs" where
  "with_ref include_refs stripped a =
     (case re_search ref_at stripped of
        Some r \<Rightarrow> if include_refs then dict_set ''ref'' r a else a
      | None \<Rightarrow> a)"

definition parse_func_entry :: "string \<Rightarrow> string option \<Rightarrow> string option \<Rightarrow> bool \<Rightarrow> (delta_key \<times> attrs) option" where
  "parse_func_entry stripped module_name file_name include_refs =
     (case re_search func_at stripped of
        None \<Rightarrow> None
      | Some (name, args) \<Rightarrow>
          Some ((''func'', name, or_unknown module_name file_name),
                with_ref include_refs stripped (if args \<noteq> [] then [(''params'', args)] else [])))"

definition parse_class_entry :: "string \<Rightarrow> string option \<Rightarrow> string option \<Rightarrow> bool \<Rightarrow> (delta_key \<times> attrs) option" where
  "parse_class_entry stripped module_name file_name include_refs =
     (case re_search class_at stripped of
        None \<Rightarrow> None
      | Some name \<Rightarrow>
          Some ((''class'', name, or_unknown module_name file_name),
                with_ref include_refs stripped
                  (case re_search bases_at stripped of Some b \<Rightarrow> [(''bases'', b)] | None \<Rightarrow> [])))"

definition SKIP_PREFIXES :: "string list" where
  "SKIP_PREFIXES = [''@chunk'', ''@corpus'', ''@deps'', ''@func'', ''@class'']"

definition is_module_directive :: "string \<Rightarrow> bool" where
  "is_module_directive stripped = (prefix ''@'' stripped \<and> \<not> list_ex (\<lambda>p. prefix p stripped) SKIP_PREFIXES)"

text \<open>\<open>potential.split()[0]\<close>: the stripped line without its \<open>@\<close> signs has a word unless it is empty or blank.\<close>

definition extract_module_name :: "string \<Rightarrow> string option \<Rightarrow> string option py" where
  "extract_module_name stripped current =
     (if given current then Inr current
      else let potential = dropWhile (\<lambda>c. c = CHR ''@'') stripped in
           if potential = [] then Inr None
           else case py_words potential of [] \<Rightarrow> Inl IndexErrorRaised | w # _ \<Rightarrow> Inr (Some w))"

record skeleton_reader =
  reader_index :: skeleton_index
  reader_file :: "string option"
  reader_module :: "string option"

definition index_entry :: "(delta_key \<times> attrs) option \<Rightarrow> skeleton_reader \<Rightarrow> skeleton_reader" where
  "index_entry e st = (case e of None \<Rightarrow> st | Some (k, a) \<Rightarrow> st\<lparr>reader_index := dict_set k a (reader_index st)\<rparr>)"

definition read_line :: "bool \<Rightarrow> string \<Rightarrow> skeleton_reader \<Rightarrow> skeleton_reader py" where
  "read_line include_refs line st =
     (let stripped = py_strip line;
          st = (if prefix ''@repo'' stripped
                then (case re_search repo_at stripped of
                        Some f \<Rightarrow> st\<lparr>reader_file := Some f, reader_module := Some f\<rparr> | None \<Rightarrow> st)
                else st)
      in if is_module_directive stripped
         then bind_py (extract_module_name stripped (reader_module st)) (\<lambda>m. Inr (st\<lparr>reader_module := m\<rparr>))
         else if prefix ''@func'' stripped
         then Inr (index_entry (parse_func_entry stripped (reader_module st) (reader_file st) include_refs) st)
         else if prefix ''@class'' stripped
         then Inr (index_entry (parse_class_entry stripped (reader_module st) (reader_file st) include_refs) st)
         else Inr st)"

fun read_lines :: "bool \<Rightarrow> string list \<Rightarrow> skeleton_reader \<Rightarrow> skeleton_reader py" where
  "read_lines include_refs [] st = Inr st"
| "read_lines include_refs (l # ls) st = bind_py (read_line include_refs l st) (read_lines include_refs ls)"

definition parse_skeleton :: "string \<Rightarrow> bool \<Rightarrow> skeleton_index py" where
  "parse_skeleton tx include_refs =
     bind_py (read_lines include_refs (split_by (\<lambda>c. c = newline) tx)
                \<lparr>reader_index = [], reader_file = None, reader_module = None\<rparr>)
       (\<lambda>st. Inr (reader_index st))"

subsection \<open>Differences\<close>

record tok_delta =
  d_op :: string
  d_type :: string
  d_label :: string
  d_old :: attrs
  d_new :: attrs
  d_file :: "string option"
  d_ref :: "string option"

definition reorders :: "('a list \<Rightarrow> 'a list) \<Rightarrow> bool" where
  "reorders order = (\<forall>xs. mset (order xs) = mset xs)"

definition attr_or :: "string \<Rightarrow> string \<Rightarrow> attrs \<Rightarrow> string" where
  "attr_or dflt k a = (case map_of a k of None \<Rightarrow> dflt | Some v \<Rightarrow> v)"

definition all_attr_keys :: "attrs \<Rightarrow> attrs \<Rightarrow> string list" where
  "all_attr_keys old new = remdups (map fst old @ map fst new)"

definition changed_fields :: "(string list \<Rightarrow> string list) \<Rightarrow> tok_delta \<Rightarrow> string list" where
  "changed_fields order d =
     filter (\<lambda>k. map_of (d_old d) k \<noteq> map_of (d_new d) k) (order (all_attr_keys (d_old d) (d_new d)))"

definition compute_attr_diff :: "(string list \<Rightarrow> string list) \<Rightarrow> attrs \<Rightarrow> attrs \<Rightarrow> (string \<times> string \<times> string) list" where
  "compute_attr_diff order old new =
     map (\<lambda>k. (k, attr_or ''<missing>'' k old, attr_or ''<missing>'' k new))
       (filter (\<lambda>k. attr_or ''<missing>'' k old \<noteq> attr_or ''<missing>'' k new) (order (all_attr_keys old new)))"

definition entry_attrs :: "delta_key \<Rightarrow> skeleton_index \<Rightarrow> attrs" where
  "entry_attrs k idx = (case map_of idx k of None \<Rightarrow> [] | Some a \<Rightarrow> a)"

fun add_delta :: "skeleton_index \<Rightarrow> delta_key \<Rightarrow> tok_delta" where
  "add_delta new (t, l, f) = (let a = entry_attrs (t, l, f) new in
     \<lparr>d_op = ''add'', d_type = t, d_label = l, d_old = [], d_new = a, d_file = Some f, d_ref = map_of a ''ref''\<rparr>)"

fun remove_delta :: "skeleton_index \<Rightarrow> delta_key \<Rightarrow> tok_delta" where
  "remove_delta old (t, l, f) = (let a = entry_attrs (t, l, f) old in
     \<lparr>d_op = ''remove'', d_type = t, d_label = l, d_old = a, d_new = [], d_file = Some f, d_ref = map_of a ''ref''\<rparr>)"

fun update_delta :: "skeleton_index \<Rightarrow> skeleton_index \<Rightarrow> delta_key \<Rightarrow> tok_delta" where
  "update_delta old new (t, l, f) = (let a = entry_attrs (t, l, f) old; b = entry_attrs (t, l, f) new in
     \<lparr>d_op = ''update'', d_type = t, d_label = l, d_old = a, d_new = b, d_file = Some f,
      d_ref = (if given (map_of b ''ref'') then map_of b ''ref'' else map_of a ''ref'')\<rparr>)"

text \<open>The part of \<open>diff_tok\<close> that works on the two indexes, and \<open>diff_tok\<close>.\<close>

definition diff_indexes ::
    "(delta_key list \<Rightarrow> delta_key list) \<Rightarrow> (string list \<Rightarrow> string list) \<Rightarrow> skeleton_index \<Rightarrow> skeleton_index \<Rightarrow> tok_delta list" where
  "diff_indexes order attr_order old new =
     (let old_keys = map fst old; new_keys = map fst new;
          added = order (filter (\<lambda>k. k \<notin> set old_keys) new_keys);
          removed = order (filter (\<lambda>k. k \<notin> set new_keys) old_keys);
          common = order (filter (\<lambda>k. k \<in> set new_keys) old_keys)
      in map (add_delta new) added @ map (remove_delta old) removed @
         map (update_delta old new)
           (filter (\<lambda>k. compute_attr_diff attr_order (entry_attrs k old) (entry_attrs k new) \<noteq> []) common))"

definition diff_tok ::
    "(delta_key list \<Rightarrow> delta_key list) \<Rightarrow> (string list \<Rightarrow> string list) \<Rightarrow> string \<Rightarrow> string \<Rightarrow> bool \<Rightarrow> tok_delta list py" where
  "diff_tok order attr_order old_tok new_tok include_refs =
     bind_py (parse_skeleton old_tok include_refs) (\<lambda>old.
       bind_py (parse_skeleton new_tok include_refs) (\<lambda>new. Inr (diff_indexes order attr_order old new)))"

definition shown_attrs :: "char \<Rightarrow> attrs \<Rightarrow> string list" where
  "shown_attrs sign a = map (\<lambda>(k, v). ''    '' @ [sign] @ k @ '': '' @ v) (filter (\<lambda>(k, _). k \<noteq> ''ref'') a)"

definition format_delta_attrs :: "(string list \<Rightarrow> string list) \<Rightarrow> tok_delta \<Rightarrow> string list" where
  "format_delta_attrs order d =
     (if d_op d = ''update''
      then concat (map (\<lambda>k. [''    -'' @ k @ '': '' @ attr_or ''<absent>'' k (d_old d),
                             ''    +'' @ k @ '': '' @ attr_or ''<absent>'' k (d_new d)])
                     (filter (\<lambda>k. k \<noteq> ''ref'') (changed_fields order d)))
      else if d_op d = ''add'' then shown_attrs CHR ''+'' (d_new d)
      else if d_op d = ''remove'' then shown_attrs CHR ''-'' (d_old d)
      else [])"

definition delta_lines :: "(string list \<Rightarrow> string list) \<Rightarrow> tok_delta \<Rightarrow> string list" where
  "delta_lines order d =
     (''  '' @ d_op d @ '' @'' @ d_type d @ ''|'' @ d_label d @
        (if given (d_file d) then '' in '' @ or_empty (d_file d) else [])) # format_delta_attrs order d"

definition delta_to_tok :: "(string list \<Rightarrow> string list) \<Rightarrow> tok_delta list \<Rightarrow> string" where
  "delta_to_tok order ds =
     (if ds = [] then [] else py_strip (join [newline] (concat (map (delta_lines order) ds))))"

subsection \<open>Applying a difference\<close>

definition delta_key :: "tok_delta \<Rightarrow> delta_key" where
  "delta_key d = (d_type d, d_label d, if given (d_file d) then or_empty (d_file d) else ''unknown'')"

definition apply_single_delta :: "skeleton_index \<Rightarrow> tok_delta \<Rightarrow> skeleton_index" where
  "apply_single_delta idx d =
     (let k = delta_key d in
      if d_op d = ''add'' then dict_set k (d_new d) idx
      else if d_op d = ''remove'' then dict_pop k idx
      else if d_op d = ''update''
      then (case map_of idx k of
              Some a \<Rightarrow> dict_set k (dict_update a (d_new d)) idx
            | None \<Rightarrow> dict_set k (d_new d) idx)
      else idx)"

definition apply_deltas :: "tok_delta list \<Rightarrow> skeleton_index \<Rightarrow> skeleton_index" where
  "apply_deltas ds idx = foldl apply_single_delta idx ds"

definition attr_text :: "attrs \<Rightarrow> string" where
  "attr_text a = join '' '' (map (\<lambda>(k, v). k @ '':'' @ v) a)"

text \<open>Entries are printed in the order of file, type and label; \<open>current\<close> is the file of the last header line.\<close>

fun skeleton_lines :: "skeleton_index \<Rightarrow> string option \<Rightarrow> string list" where
  "skeleton_lines [] current = []"
| "skeleton_lines (((t, l, f), a) # es) current =
     (let fresh = (Some f \<noteq> current \<and> f \<noteq> ''unknown'');
          shown = (if t = ''func'' then [''  @func '' @ l @ ''('' @ attr_or [] ''params'' a @ '') '' @ attr_text a]
                   else if t = ''class'' then [''  @class '' @ l @ '' '' @ attr_text a] else [])
      in (if fresh then [''@'' @ f] else []) @ shown @ skeleton_lines es (if fresh then Some f else current))"

definition reconstruct_skeleton :: "skeleton_index \<Rightarrow> string" where
  "reconstruct_skeleton idx =
     join [newline] (skeleton_lines (sort_key (\<lambda>((t, l, f), _). (f, t, l)) idx) None)"

definition apply_delta :: "string \<Rightarrow> tok_delta list \<Rightarrow> string py" where
  "apply_delta tx ds =
     (if ds = [] then Inr tx
      else bind_py (parse_skeleton tx True) (\<lambda>idx. Inr (reconstruct_skeleton (apply_deltas ds idx))))"


subsection \<open>An index as a map\<close>

definition index_ok :: "skeleton_index \<Rightarrow> bool" where
  "index_ok idx = (distinct (map fst idx) \<and> (\<forall>(k, a) \<in> set idx. snd (snd k) \<noteq> [] \<and> distinct (map fst a)))"

text \<open>The meaning of an index: for each entry the value of each attribute.\<close>

definition meaning :: "skeleton_index \<Rightarrow> delta_key \<Rightarrow> (string \<Rightarrow> string option) option" where
  "meaning idx k = map_option map_of (map_of idx k)"

lemma or_unknown_nonempty: "or_unknown m f \<noteq> []"
  by (simp add: or_unknown_def given_def)

lemma set_dict_set: "set (dict_set k v d) \<subseteq> insert (k, v) (set d)"
  by (induction d) (auto simp: dict_set_def)

lemma index_ok_dict_set:
  "index_ok idx \<Longrightarrow> snd (snd k) \<noteq> [] \<Longrightarrow> distinct (map fst a) \<Longrightarrow> index_ok (dict_set k a idx)"
  using set_dict_set [of k a idx] by (auto simp: index_ok_def distinct_dict_set)

lemma distinct_with_ref: "distinct (map fst a) \<Longrightarrow> distinct (map fst (with_ref r s a))"
  by (auto simp: with_ref_def distinct_dict_set split: option.split)

lemma parse_entry_ok:
  "parse_func_entry s m f r = Some (k, a) \<Longrightarrow> snd (snd k) \<noteq> [] \<and> distinct (map fst a)"
  "parse_class_entry s m f r = Some (k, a) \<Longrightarrow> snd (snd k) \<noteq> [] \<and> distinct (map fst a)"
  by (auto simp: parse_func_entry_def parse_class_entry_def or_unknown_nonempty split: option.splits
      intro!: distinct_with_ref)

lemma index_entry_ok:
  assumes "index_ok (reader_index st)" and "\<And>k a. e = Some (k, a) \<Longrightarrow> snd (snd k) \<noteq> [] \<and> distinct (map fst a)"
  shows "index_ok (reader_index (index_entry e st))"
  using assms by (auto simp: index_entry_def index_ok_dict_set split: option.split)

lemma read_line_ok:
  assumes "read_line r l st = Inr st'" and "index_ok (reader_index st)"
  shows "index_ok (reader_index st')"
proof -
  define st1 where "st1 = (if prefix ''@repo'' (py_strip l)
    then (case re_search repo_at (py_strip l) of
            Some f \<Rightarrow> st\<lparr>reader_file := Some f, reader_module := Some f\<rparr> | None \<Rightarrow> st) else st)"
  have "index_ok (reader_index st1)" using assms(2) by (auto simp: st1_def split: option.split)
  then show ?thesis
    using assms(1) parse_entry_ok
    by (auto simp: read_line_def Let_def st1_def [symmetric] bind_py_Inr_iff intro!: index_entry_ok split: if_splits)
qed

lemma read_lines_ok:
  "read_lines r ls st = Inr st' \<Longrightarrow> index_ok (reader_index st) \<Longrightarrow> index_ok (reader_index st')"
  by (induction ls arbitrary: st) (auto simp: bind_py_Inr_iff dest: read_line_ok)

lemma parse_skeleton_ok: "parse_skeleton tx r = Inr idx \<Longrightarrow> index_ok idx"
  by (auto simp: parse_skeleton_def bind_py_Inr_iff index_ok_def [of "[]"] dest!: read_lines_ok)

lemma set_reorders: "reorders order \<Longrightarrow> set (order xs) = set xs"
  unfolding reorders_def by (metis set_mset_mset)

lemma meaning_dict_set: "meaning (dict_set k a idx) k' = (if k' = k then Some (map_of a) else meaning idx k')"
  by (simp add: meaning_def)

lemma meaning_dict_pop: "meaning (dict_pop k idx) k' = (if k' = k then None else meaning idx k')"
  by (simp add: meaning_def)

lemma map_of_dict_update: "map_of (dict_update a b) = map_of a ++ map_of (rev b)"
  unfolding dict_update_def
  by (induction b arbitrary: a rule: rev_induct) (auto simp: fun_eq_iff map_add_def split: option.splits)

lemma map_of_rev_distinct: "distinct (map fst d) \<Longrightarrow> map_of (rev d) = map_of d"
  using map_of_inject_set [of "rev d" d] by (simp add: rev_map [symmetric])

text \<open>What one delta of a difference does to the meaning of an index.\<close>

lemma meaning_apply_add:
  "snd (snd k) \<noteq> [] \<Longrightarrow> meaning (apply_single_delta idx (add_delta new k)) k' =
    (if k' = k then Some (map_of (entry_attrs k new)) else meaning idx k')"
  by (cases k) (auto simp: apply_single_delta_def delta_key_def Let_def given_def or_empty_def meaning_dict_set)

lemma meaning_apply_remove:
  "snd (snd k) \<noteq> [] \<Longrightarrow> meaning (apply_single_delta idx (remove_delta old k)) k' =
    (if k' = k then None else meaning idx k')"
  by (cases k) (auto simp: apply_single_delta_def delta_key_def Let_def given_def or_empty_def meaning_dict_pop)

lemma meaning_apply_update:
  "snd (snd k) \<noteq> [] \<Longrightarrow> distinct (map fst (entry_attrs k new)) \<Longrightarrow> meaning idx k = Some m \<Longrightarrow>
    meaning (apply_single_delta idx (update_delta old new k)) k' =
    (if k' = k then Some (m ++ map_of (entry_attrs k new)) else meaning idx k')"
  by (cases k) (auto simp: apply_single_delta_def delta_key_def Let_def given_def or_empty_def meaning_dict_set
      map_of_dict_update map_of_rev_distinct meaning_def split: option.split)

lemma meaning_adds:
  assumes "\<forall>k \<in> set ks. snd (snd k) \<noteq> []"
  shows "meaning (apply_deltas (map (add_delta new) ks) idx) k' =
    (if k' \<in> set ks then Some (map_of (entry_attrs k' new)) else meaning idx k')"
  using assms unfolding apply_deltas_def
  by (induction ks arbitrary: idx) (auto simp: meaning_apply_add)

lemma meaning_removes:
  assumes "\<forall>k \<in> set ks. snd (snd k) \<noteq> []"
  shows "meaning (apply_deltas (map (remove_delta old) ks) idx) k' = (if k' \<in> set ks then None else meaning idx k')"
  using assms unfolding apply_deltas_def
  by (induction ks arbitrary: idx) (auto simp: meaning_apply_remove)

lemma meaning_updates:
  assumes "\<forall>k \<in> set ks. snd (snd k) \<noteq> [] \<and> distinct (map fst (entry_attrs k new)) \<and> meaning idx k \<noteq> None"
    and "distinct ks"
  shows "meaning (apply_deltas (map (update_delta old new) ks) idx) k' =
    (if k' \<in> set ks then Some (the (meaning idx k') ++ map_of (entry_attrs k' new)) else meaning idx k')"
  using assms unfolding apply_deltas_def
proof (induction ks arbitrary: idx)
  case (Cons k ks)
  define idx1 where "idx1 = apply_single_delta idx (update_delta old new k)"
  obtain m where m: "meaning idx k = Some m" using Cons.prems by auto
  have step: "meaning idx1 k' = (if k' = k then Some (m ++ map_of (entry_attrs k new)) else meaning idx k')" for k'
    using Cons.prems(1) m unfolding idx1_def by (intro meaning_apply_update) auto
  have "\<forall>k \<in> set ks. snd (snd k) \<noteq> [] \<and> distinct (map fst (entry_attrs k new)) \<and> meaning idx1 k \<noteq> None"
    using Cons.prems by (auto simp: step)
  from Cons.IH [OF this] Cons.prems(2) show ?case by (auto simp: idx1_def [symmetric] step m)
qed simp


subsection \<open>A difference, applied\<close>

definition same_shown :: "attrs \<Rightarrow> attrs \<Rightarrow> bool" where
  "same_shown a b = (\<forall>k \<in> set (map fst a) \<union> set (map fst b). attr_or ''<missing>'' k a = attr_or ''<missing>'' k b)"

lemma attr_diff_empty: "reorders order \<Longrightarrow> compute_attr_diff order a b = [] \<longleftrightarrow> same_shown a b"
  using set_reorders [of order "all_attr_keys a b"]
  by (auto simp: compute_attr_diff_def same_shown_def all_attr_keys_def filter_empty_conv)

lemma in_keys_meaning: "k \<in> set (map fst idx) \<longleftrightarrow> meaning idx k \<noteq> None"
  by (simp add: meaning_def map_of_eq_None_iff)

lemma meaning_entry: "k \<in> set (map fst idx) \<Longrightarrow> meaning idx k = Some (map_of (entry_attrs k idx))"
  by (auto simp: meaning_def entry_attrs_def map_of_eq_None_iff split: option.split)

lemma entry_distinct: "index_ok idx \<Longrightarrow> distinct (map fst (entry_attrs k idx))"
  by (auto simp: index_ok_def entry_attrs_def split: option.split dest: map_of_SomeD)

lemma index_ok_file: "index_ok idx \<Longrightarrow> k \<in> set (map fst idx) \<Longrightarrow> snd (snd k) \<noteq> []"
  by (auto simp: index_ok_def)

lemma distinct_reorders: "reorders order \<Longrightarrow> distinct xs \<Longrightarrow> distinct (order xs)"
  unfolding reorders_def by (metis mset_eq_imp_distinct_iff)

text \<open>
  The complete account of what a difference does to the index it was taken from: entries come and go as they
  should, and the attributes of an entry that stays are overwritten, not replaced.
\<close>

lemma apply_diff_meaning:
  assumes "index_ok old" and "index_ok new" and "reorders order" and "reorders attr_order"
  shows "meaning (apply_deltas (diff_indexes order attr_order old new) old) k =
    (if k \<notin> set (map fst new) then None
     else if k \<notin> set (map fst old) then meaning new k
     else if same_shown (entry_attrs k old) (entry_attrs k new) then meaning old k
     else Some (map_of (entry_attrs k old) ++ map_of (entry_attrs k new)))"
proof -
  define added where "added = order (filter (\<lambda>k. k \<notin> set (map fst old)) (map fst new))"
  define removed where "removed = order (filter (\<lambda>k. k \<notin> set (map fst new)) (map fst old))"
  define common where "common = filter (\<lambda>k. compute_attr_diff attr_order (entry_attrs k old) (entry_attrs k new) \<noteq> [])
    (order (filter (\<lambda>k. k \<in> set (map fst new)) (map fst old)))"
  note sets = set_reorders [OF assms(3)]
  have set_added: "set added = set (map fst new) - set (map fst old)" by (auto simp: added_def sets)
  have set_removed: "set removed = set (map fst old) - set (map fst new)" by (auto simp: removed_def sets)
  have set_common: "set common = {k \<in> set (map fst old) \<inter> set (map fst new).
      \<not> same_shown (entry_attrs k old) (entry_attrs k new)}"
    by (auto simp: common_def sets attr_diff_empty [OF assms(4)])
  have files: "\<forall>k \<in> set added. snd (snd k) \<noteq> []" "\<forall>k \<in> set removed. snd (snd k) \<noteq> []"
    "\<forall>k \<in> set common. snd (snd k) \<noteq> []"
    using index_ok_file [OF assms(1)] index_ok_file [OF assms(2)]
    by (auto simp: set_added set_removed set_common simp del: set_map)
  have dist: "distinct common"
    using assms(1) distinct_reorders [OF assms(3)] by (simp add: common_def index_ok_def)
  define idx1 where "idx1 = apply_deltas (map (add_delta new) added) old"
  define idx2 where "idx2 = apply_deltas (map (remove_delta old) removed) idx1"
  have m1: "meaning idx1 k = (if k \<in> set added then Some (map_of (entry_attrs k new)) else meaning old k)" for k
    unfolding idx1_def by (rule meaning_adds [OF files(1)])
  have m2: "meaning idx2 k = (if k \<in> set removed then None else meaning idx1 k)" for k
    unfolding idx2_def by (rule meaning_removes [OF files(2)])
  have on_common: "meaning idx2 k = Some (map_of (entry_attrs k old))" if "k \<in> set common" for k
    using that meaning_entry [of k old] by (auto simp: m2 m1 set_removed set_added set_common simp del: set_map)
  have m3: "meaning (apply_deltas (map (update_delta old new) common) idx2) k =
      (if k \<in> set common then Some (the (meaning idx2 k) ++ map_of (entry_attrs k new)) else meaning idx2 k)"
    by (rule meaning_updates) (use files(3) entry_distinct [OF assms(2)] on_common dist in auto)
  have "apply_deltas (diff_indexes order attr_order old new) old
      = apply_deltas (map (update_delta old new) common) idx2"
    by (simp add: diff_indexes_def Let_def idx2_def idx1_def apply_deltas_def added_def removed_def common_def)
  then show ?thesis
    using m3 on_common [of k] meaning_entry [of k new] in_keys_meaning [of k old]
    by (auto simp: m2 m1 set_added set_removed set_common simp del: set_map)
qed

lemma unmapped: "set (map fst a) \<subseteq> set (map fst b) \<Longrightarrow> map_of b x = None \<Longrightarrow> map_of a x = None"
  by (metis map_of_eq_None_iff set_map subsetD)

text \<open>C18: Applying the difference of two skeletons to the index of the first gives the meaning of the second: the same
  entries with the same attributes, in whatever order the sets are walked, provided that no entry that stays has lost
  an attribute and that no attribute of the second has the text that stands for a missing one.\<close>

theorem diff_apply_roundtrip:
  assumes "parse_skeleton old_tok r = Inr old" and "parse_skeleton new_tok r' = Inr new"
    and "reorders order" and "reorders attr_order"
    and "\<forall>k \<in> set (map fst old) \<inter> set (map fst new).
           set (map fst (entry_attrs k old)) \<subseteq> set (map fst (entry_attrs k new))"
    and "\<forall>k \<in> set (map fst new). ''<missing>'' \<notin> set (map snd (entry_attrs k new))"
  shows "meaning (apply_deltas (diff_indexes order attr_order old new) old) = meaning new"
proof
  fix k
  note ok = parse_skeleton_ok [OF assms(1)] parse_skeleton_ok [OF assms(2)]
  have same: "map_of a = map_of b"
    if shown: "same_shown a b" and sub: "set (map fst a) \<subseteq> set (map fst b)" and lit: "''<missing>'' \<notin> set (map snd b)"
    for a b :: attrs
  proof
    fix j
    show "map_of a j = map_of b j"
    proof (cases "map_of b j")
      case None
      then show ?thesis using unmapped [OF sub] by simp
    next
      case (Some v)
      then have j: "j \<in> set (map fst b)" by (metis map_of_eq_None_iff option.distinct(1) set_map)
      from Some lit have "v \<noteq> ''<missing>''" by (force dest: map_of_SomeD)
      moreover have "attr_or ''<missing>'' j a = v" using shown j Some by (auto simp: same_shown_def attr_or_def)
      ultimately show ?thesis using Some by (auto simp: attr_or_def split: option.splits)
    qed
  qed
  have over: "map_of a ++ map_of b = map_of b" if sub: "set (map fst a) \<subseteq> set (map fst b)" for a b :: attrs
    using unmapped [OF sub] by (auto simp: map_add_def fun_eq_iff split: option.split)
  show "meaning (apply_deltas (diff_indexes order attr_order old new) old) k = meaning new k"
    using meaning_entry [of k old] meaning_entry [of k new] in_keys_meaning [of k new]
      same [of "entry_attrs k old" "entry_attrs k new"] over [of "entry_attrs k old" "entry_attrs k new"] assms(5,6)
    unfolding apply_diff_meaning [OF ok assms(3,4)]
    by (auto simp del: set_map)
qed


definition sample_old :: string where
  "sample_old = join [newline] [''@mod'', ''  @func f(a)'', ''  @func g()'', ''  @class C ref:*r1'']"

definition sample_new :: string where
  "sample_new = join [newline] [''@mod'', ''  @func f(a, b)'', ''  @class C bases:B ref:*r2'', ''  @func h()'']"

lemma sample_parses:
  "parse_skeleton sample_old True = Inr
     [((''func'', ''f'', ''mod''), [(''params'', ''a'')]), ((''func'', ''g'', ''mod''), []),
      ((''class'', ''C'', ''mod''), [(''ref'', ''r1'')])]"
  "parse_skeleton sample_new False = Inr
     [((''func'', ''f'', ''mod''), [(''params'', ''a, b'')]), ((''class'', ''C'', ''mod''), [(''bases'', ''B'')]),
      ((''func'', ''h'', ''mod''), [])]"
  "parse_skeleton sample_new True = Inr
     [((''func'', ''f'', ''mod''), [(''params'', ''a, b'')]),
      ((''class'', ''C'', ''mod''), [(''bases'', ''B''), (''ref'', ''r2'')]), ((''func'', ''h'', ''mod''), [])]"
  by code_simp+

lemma reorders_id: "reorders (\<lambda>xs. xs)"
  by (simp add: reorders_def)

theorem diff_apply_roundtrip_witness:
  "\<exists>old new. parse_skeleton sample_old True = Inr old \<and> parse_skeleton sample_new True = Inr new \<and>
     meaning (apply_deltas (diff_indexes (\<lambda>ks. ks) (\<lambda>ks. ks) old new) old) = meaning new"
proof -
  let ?old = "[((''func'', ''f'', ''mod''), [(''params'', ''a'')]), ((''func'', ''g'', ''mod''), []),
      ((''class'', ''C'', ''mod''), [(''ref'', ''r1'')])] :: skeleton_index"
  let ?new = "[((''func'', ''f'', ''mod''), [(''params'', ''a, b'')]),
      ((''class'', ''C'', ''mod''), [(''bases'', ''B''), (''ref'', ''r2'')]), ((''func'', ''h'', ''mod''), [])] :: skeleton_index"
  have "\<forall>k \<in> set (map fst ?old) \<inter> set (map fst ?new).
      set (map fst (entry_attrs k ?old)) \<subseteq> set (map fst (entry_attrs k ?new))"
    by (simp add: entry_attrs_def image_iff)
  moreover have "\<forall>k \<in> set (map fst ?new). ''<missing>'' \<notin> set (map snd (entry_attrs k ?new))"
    by (simp add: entry_attrs_def image_iff)
  ultimately have "meaning (apply_deltas (diff_indexes (\<lambda>ks. ks) (\<lambda>ks. ks) ?old ?new) ?old) = meaning ?new"
    by (rule diff_apply_roundtrip [OF sample_parses(1,3) reorders_id reorders_id])
  with sample_parses show ?thesis by blast
qed

text \<open>
  Without the proviso the round trip fails: a class that loses its base keeps it. Two more losses show in the printed
  form: the second module of a skeleton is read as the first, and a reference does not survive printing and reading.
\<close>

lemma dropped_attribute_kept:
  "apply_deltas (diff_indexes (\<lambda>ks. ks) (\<lambda>ks. ks) [((''class'', ''C'', ''m''), [(''bases'', ''B'')])] [((''class'', ''C'', ''m''), [])])
     [((''class'', ''C'', ''m''), [(''bases'', ''B'')])] = [((''class'', ''C'', ''m''), [(''bases'', ''B'')])]"
  by code_simp

lemma second_module_lost:
  "parse_skeleton (join [newline] [''@a'', ''  @func f()'', ''@b'', ''  @func g()'']) True =
     Inr [((''func'', ''f'', ''a''), []), ((''func'', ''g'', ''a''), [])]"
  by code_simp

lemma printed_reference_lost:
  "parse_skeleton (reconstruct_skeleton [((''class'', ''C'', ''m''), [(''ref'', ''r1'')])]) True =
     Inr [((''class'', ''C'', ''m''), [])]"
  by code_simp

end
