(* ===== verification/FileTree.thy ===== *)
theory FileTree
  imports ShellText PyText
begin

section \<open>A file tree with symbolic links\<close>

text \<open>
  The part of the operating system and of Python's \<open>os\<close> module that the tool executor works on. A tree maps
  absolute paths, lists of components, to files, directories and symbolic links; the root is always a directory.
  \<open>kwalk\<close> is how the kernel follows a path, link after link, up to a number of links; \<open>resolve\<close> is
  \<open>os.path.realpath\<close> (not strict), which follows links that it is not already following and treats what does not
  exist as if it did. A file holds its decoded text. After a cycle of links \<open>realpath\<close> joins the rest of the path
  without looking at the tree.
\<close>

subsection \<open>Nodes and paths\<close>

datatype fnode = FFile string | FDir | FLink string

type_synonym fpath = "string list"
type_synonym ftree = "(fpath \<times> fnode) list"

definition node_at :: "ftree \<Rightarrow> fpath \<Rightarrow> fnode option" where
  "node_at t p = (if p = [] then Some FDir else map_of t p)"

definition set_node :: "fpath \<Rightarrow> fnode \<Rightarrow> ftree \<Rightarrow> ftree" where
  "set_node p n t = (if p = [] then t else dict_set p n t)"

definition is_absolute :: "string \<Rightarrow> bool" where
  "is_absolute s = prefix ''/'' s"

definition path_string :: "fpath \<Rightarrow> string" where
  "path_string p = ''/'' @ join ''/'' p"

text \<open>One step of a walk by name; the empty name and the dot stay where they are.\<close>

definition lexical_step :: "fpath \<Rightarrow> string \<Rightarrow> fpath" where
  "lexical_step cur c = (if c = [] \<or> c = ''.'' then cur else if c = ''..'' then butlast cur else cur @ [c])"

definition start_at :: "fpath \<Rightarrow> string \<Rightarrow> fpath" where
  "start_at cwd s = (if is_absolute s then [] else cwd)"

text \<open>\<open>os.path.abspath\<close>, which works on names only.\<close>

definition abspath :: "fpath \<Rightarrow> string \<Rightarrow> fpath" where
  "abspath cwd s = foldl lexical_step (start_at cwd s) (path_parts s)"

definition links :: "ftree \<Rightarrow> fpath set" where
  "links t = {p. \<exists>s. node_at t p = Some (FLink s)}"

lemma finite_links: "finite (links t)"
proof (rule finite_subset)
  show "links t \<subseteq> set (map fst t)"
    by (auto simp: links_def node_at_def split: if_splits dest!: map_of_SomeD) (force simp: image_iff)
qed simp

lemma links_shrink:
  assumes "node_at t p = Some (FLink target)" and "p \<notin> set following"
  shows "card (links t - insert p (set following)) < card (links t - set following)"
proof (rule psubset_card_mono)
  show "finite (links t - set following)" using finite_links [of t] by simp
  show "links t - insert p (set following) \<subset> links t - set following"
    using assms by (auto simp: links_def)
qed

subsection \<open>\<open>realpath\<close>\<close>

function resolve :: "ftree \<Rightarrow> fpath list \<Rightarrow> fpath \<Rightarrow> string list \<Rightarrow> bool \<times> fpath" where
  "resolve t following cur [] = (True, cur)"
| "resolve t following cur (c # cs) =
     (if c = [] \<or> c = ''.'' \<or> c = ''..'' then resolve t following (lexical_step cur c) cs
      else case node_at t (cur @ [c]) of
        Some (FLink target) \<Rightarrow>
          if cur @ [c] \<in> set following then (False, foldl lexical_step (cur @ [c]) cs)
          else (case resolve t ((cur @ [c]) # following) (start_at cur target) (path_parts target) of
                  (True, q) \<Rightarrow> resolve t following q cs
                | (False, q) \<Rightarrow> (False, foldl lexical_step q cs))
      | _ \<Rightarrow> resolve t following (cur @ [c]) cs)"
  by pat_completeness auto

termination
  by (relation "measures [\<lambda>(t, following, cur, cs). card (links t - set following), \<lambda>(t, following, cur, cs). length cs]")
    (auto dest: links_shrink)

definition has_nul :: "string \<Rightarrow> bool" where
  "has_nul s = (char_of (0 :: nat) \<in> set s)"

text \<open>A name with a null character raises \<open>ValueError\<close>, here \<open>None\<close>.\<close>

definition realpath :: "ftree \<Rightarrow> fpath \<Rightarrow> string \<Rightarrow> fpath option" where
  "realpath t cwd s =
     (if has_nul s then None else Some (snd (resolve t [] (start_at cwd s) (path_parts s))))"

subsection \<open>The kernel's walk\<close>

function kwalk :: "ftree \<Rightarrow> nat \<Rightarrow> fpath \<Rightarrow> string list \<Rightarrow> (nat \<times> fpath) option" where
  "kwalk t n cur [] = Some (n, cur)"
| "kwalk t n cur (c # cs) =
     (if node_at t cur \<noteq> Some FDir then None
      else if c = [] \<or> c = ''.'' \<or> c = ''..'' then kwalk t n (lexical_step cur c) cs
      else case node_at t (cur @ [c]) of
        Some (FLink target) \<Rightarrow>
          (case n of 0 \<Rightarrow> None | Suc m \<Rightarrow> kwalk t m (start_at cur target) (path_parts target @ cs))
      | _ \<Rightarrow> kwalk t n (cur @ [c]) cs)"
  by pat_completeness auto

termination by (relation "measures [\<lambda>(t, n, cur, cs). n, \<lambda>(t, n, cur, cs). length cs]") auto

definition MAX_LINKS :: nat where "MAX_LINKS = 40"

definition target_of :: "ftree \<Rightarrow> fpath \<Rightarrow> string \<Rightarrow> fpath option" where
  "target_of t cwd s =
     (if s = [] \<or> has_nul s then None else map_option snd (kwalk t MAX_LINKS (start_at cwd s) (path_parts s)))"

definition path_exists :: "ftree \<Rightarrow> fpath \<Rightarrow> string \<Rightarrow> bool" where
  "path_exists t cwd s = (case target_of t cwd s of None \<Rightarrow> False | Some q \<Rightarrow> node_at t q \<noteq> None)"

definition path_is_dir :: "ftree \<Rightarrow> fpath \<Rightarrow> string \<Rightarrow> bool" where
  "path_is_dir t cwd s = (case target_of t cwd s of None \<Rightarrow> False | Some q \<Rightarrow> node_at t q = Some FDir)"

text \<open>
  \<open>open(s).read()\<close> in text mode, and \<open>open(s, "w")\<close>, which makes the file or empties it; \<open>may_read\<close> and \<open>may_write\<close>
  say for which files the host allows it (rights, decodable content).
\<close>

definition read_text :: "(fpath \<Rightarrow> bool) \<Rightarrow> ftree \<Rightarrow> fpath \<Rightarrow> string \<Rightarrow> string option" where
  "read_text may_read t cwd s =
     (case target_of t cwd s of
        None \<Rightarrow> None
      | Some q \<Rightarrow> (case node_at t q of
                     Some (FFile tx) \<Rightarrow> if may_read q then Some (universal_newlines tx) else None
                   | _ \<Rightarrow> None))"

definition open_for_writing :: "(fpath \<Rightarrow> bool) \<Rightarrow> ftree \<Rightarrow> fpath \<Rightarrow> string \<Rightarrow> (fpath \<times> ftree) option" where
  "open_for_writing may_write t cwd s =
     (case target_of t cwd s of
        None \<Rightarrow> None
      | Some q \<Rightarrow>
          (case node_at t q of
             Some FDir \<Rightarrow> None
           | Some (FLink _) \<Rightarrow> None
           | _ \<Rightarrow> if may_write q then Some (q, set_node q (FFile []) t) else None))"

subsection \<open>Making directories\<close>

text \<open>\<open>os.mkdir\<close> of the directory \<open>c\<close> in \<open>head\<close>, and \<open>os.makedirs(..., exist_ok=True)\<close> of a path given backwards.\<close>

definition make_dir :: "(fpath \<Rightarrow> bool) \<Rightarrow> ftree \<Rightarrow> fpath \<Rightarrow> string \<Rightarrow> ftree option" where
  "make_dir may_write t head c =
     (case target_of t [] (path_string head) of
        None \<Rightarrow> None
      | Some q \<Rightarrow> if node_at t q = Some FDir \<and> node_at t (q @ [c]) = None \<and> may_write q
                  then Some (set_node (q @ [c]) FDir t) else None)"

fun make_dirs :: "(fpath \<Rightarrow> bool) \<Rightarrow> ftree \<Rightarrow> fpath \<Rightarrow> bool \<times> ftree" where
  "make_dirs may_write t [] = (True, t)"
| "make_dirs may_write t (c # up) =
     (case (if path_exists t [] (path_string (rev up)) then (True, t) else make_dirs may_write t up) of
        (False, t1) \<Rightarrow> (False, t1)
      | (True, t1) \<Rightarrow>
          (case make_dir may_write t1 (rev up) c of
             Some t2 \<Rightarrow> (True, t2)
           | None \<Rightarrow> (path_is_dir t1 [] (path_string (rev up @ [c])), t1)))"


subsection \<open>The kernel never leaves the resolved path\<close>

definition stays :: "string \<Rightarrow> bool" where
  "stays c = (c = [] \<or> c = ''.'' \<or> c = ''..'')"

definition no_link :: "fnode option \<Rightarrow> bool" where
  "no_link x = (\<forall>target. x \<noteq> Some (FLink target))"

lemma kwalk_stay:
  "stays c \<Longrightarrow> kwalk t n cur (c # cs) = (if node_at t cur = Some FDir then kwalk t n (lexical_step cur c) cs else None)"
  by (simp add: stays_def)

lemma kwalk_plain:
  "\<not> stays c \<Longrightarrow> no_link (node_at t (cur @ [c])) \<Longrightarrow>
    kwalk t n cur (c # cs) = (if node_at t cur = Some FDir then kwalk t n (cur @ [c]) cs else None)"
  by (auto simp: stays_def no_link_def split: option.split fnode.split)

lemma kwalk_link:
  "\<not> stays c \<Longrightarrow> node_at t (cur @ [c]) = Some (FLink target) \<Longrightarrow>
    kwalk t n cur (c # cs) = (if node_at t cur = Some FDir \<and> 0 < n
      then kwalk t (n - 1) (start_at cur target) (path_parts target @ cs) else None)"
  by (auto simp: stays_def split: nat.split)

declare kwalk.simps(2) [simp del]

text \<open>How a name is met: in place, plain, or a link.\<close>

lemma name_cases:
  obtains (stay) "stays c" | (plain) "\<not> stays c" "no_link (node_at t (cur @ [c]))"
    | (link) target where "\<not> stays c" "node_at t (cur @ [c]) = Some (FLink target)"
  by (auto simp: no_link_def)

lemma walk_induct [case_names Nil stay plain link]:
  fixes P :: "nat \<Rightarrow> fpath \<Rightarrow> string list \<Rightarrow> bool"
  assumes "\<And>n cur. P n cur []"
    and "\<And>n cur c cs. stays c \<Longrightarrow> P n (lexical_step cur c) cs \<Longrightarrow> P n cur (c # cs)"
    and "\<And>n cur c cs. \<not> stays c \<Longrightarrow> no_link (node_at t (cur @ [c])) \<Longrightarrow> P n (cur @ [c]) cs \<Longrightarrow> P n cur (c # cs)"
    and "\<And>n cur c cs target. \<not> stays c \<Longrightarrow> node_at t (cur @ [c]) = Some (FLink target) \<Longrightarrow>
           (\<And>m cur' cs'. m < n \<Longrightarrow> P m cur' cs') \<Longrightarrow> P n cur (c # cs)"
  shows "P n cur cs"
proof (induction n arbitrary: cur cs rule: less_induct)
  case (less n cur cs)
  show ?case
  proof (induction cs arbitrary: cur)
    case Nil
    show ?case by (rule assms(1))
  next
    case (Cons c cs)
    show ?case
    proof (rule name_cases [where c = c and t = t and cur = cur])
      show "stays c \<Longrightarrow> P n cur (c # cs)" by (intro assms(2) Cons.IH)
      show "\<not> stays c \<Longrightarrow> no_link (node_at t (cur @ [c])) \<Longrightarrow> P n cur (c # cs)" by (intro assms(3) Cons.IH)
      show "\<not> stays c \<Longrightarrow> node_at t (cur @ [c]) = Some (FLink target) \<Longrightarrow> P n cur (c # cs)" for target
        by (intro assms(4) less.IH)
    qed
  qed
qed

lemma kwalk_append:
  "kwalk t n cur (as @ bs) = Option.bind (kwalk t n cur as) (\<lambda>(m, q). kwalk t m q bs)"
proof (induction n cur as rule: walk_induct [where t = t])
  case (link n cur c cs target)
  have "kwalk t (n - 1) (start_at cur target) (path_parts target @ cs @ bs)
      = Option.bind (kwalk t (n - 1) (start_at cur target) (path_parts target @ cs)) (\<lambda>(m, q). kwalk t m q bs)"
    if "0 < n" using link(3) [of "n - 1" "start_at cur target" "path_parts target @ cs"] that by simp
  then show ?case using link by (simp add: kwalk_link)
qed (simp_all add: kwalk_stay kwalk_plain)

text \<open>The number of links a walk takes does not depend on how many it was allowed.\<close>

lemma kwalk_budget:
  "kwalk t n cur cs = Some (m, q) \<Longrightarrow> m \<le> n \<and> (\<forall>k. kwalk t k cur cs = (if n - m \<le> k then Some (k - (n - m), q) else None))"
proof (induction n cur cs arbitrary: m q rule: walk_induct [where t = t])
  case (link n cur c cs target)
  from link(1,2,4) have n: "0 < n" and dir: "node_at t cur = Some FDir" and
    walk: "kwalk t (n - 1) (start_at cur target) (path_parts target @ cs) = Some (m, q)"
    by (auto simp: kwalk_link split: if_splits)
  from link(3) [OF _ walk] n have le: "m \<le> n - 1" and
    all: "\<And>k. kwalk t k (start_at cur target) (path_parts target @ cs) =
      (if n - 1 - m \<le> k then Some (k - (n - 1 - m), q) else None)" by auto
  have "kwalk t k cur (c # cs) = (if n - m \<le> k then Some (k - (n - m), q) else None)" for k
    using link(1,2) dir le n by (cases k) (auto simp: kwalk_link all)
  with le show ?case by auto
qed (auto simp: kwalk_stay kwalk_plain split: if_splits)


lemma resolve_stay: "stays c \<Longrightarrow> resolve t fl cur (c # cs) = resolve t fl (lexical_step cur c) cs"
  by (simp add: stays_def)

lemma resolve_plain:
  "\<not> stays c \<Longrightarrow> no_link (node_at t (cur @ [c])) \<Longrightarrow> resolve t fl cur (c # cs) = resolve t fl (cur @ [c]) cs"
  by (auto simp: stays_def no_link_def split: option.split fnode.split)

lemma resolve_link:
  "\<not> stays c \<Longrightarrow> node_at t (cur @ [c]) = Some (FLink target) \<Longrightarrow>
    resolve t fl cur (c # cs) =
      (if cur @ [c] \<in> set fl then (False, foldl lexical_step (cur @ [c]) cs)
       else (case resolve t ((cur @ [c]) # fl) (start_at cur target) (path_parts target) of
               (True, q) \<Rightarrow> resolve t fl q cs
             | (False, q) \<Rightarrow> (False, foldl lexical_step q cs)))"
  by (simp add: stays_def)

declare resolve.simps(2) [simp del]

text \<open>The links that are being followed cannot be met within the budget of the walk.\<close>

definition out_of_reach :: "ftree \<Rightarrow> fpath list \<Rightarrow> nat \<Rightarrow> bool" where
  "out_of_reach t fl k = (\<forall>d c. \<not> stays c \<and> d @ [c] \<in> set fl \<longrightarrow> kwalk t k d [c] = None)"

lemma kwalk_less: "kwalk t n cur cs = None \<Longrightarrow> m \<le> n \<Longrightarrow> kwalk t m cur cs = None"
proof (rule ccontr)
  assume "kwalk t n cur cs = None" "m \<le> n" "kwalk t m cur cs \<noteq> None"
  then obtain k q where "kwalk t m cur cs = Some (k, q)" by auto
  from kwalk_budget [OF this] \<open>m \<le> n\<close> have "kwalk t n cur cs \<noteq> None" by auto
  with \<open>kwalk t n cur cs = None\<close> show False by simp
qed

lemma kwalk_resolve:
  "kwalk t n cur cs = Some (m, q) \<Longrightarrow> out_of_reach t fl (n - m) \<Longrightarrow> resolve t fl cur cs = (True, q)"
proof (induction n cur cs arbitrary: m q fl rule: walk_induct [where t = t])
  case (link n cur c cs target)
  let ?p = "cur @ [c]"
  from link(1,2,4) have n: "0 < n" and dir: "node_at t cur = Some FDir" and
    walk: "kwalk t (n - 1) (start_at cur target) (path_parts target @ cs) = Some (m, q)"
    by (auto simp: kwalk_link split: if_splits)
  from walk obtain m1 q1 where w1: "kwalk t (n - 1) (start_at cur target) (path_parts target) = Some (m1, q1)"
    and w2: "kwalk t m1 q1 cs = Some (m, q)" by (auto simp: kwalk_append bind_eq_Some_conv)
  have m1: "m1 \<le> n - 1" and b1: "\<And>k. kwalk t k (start_at cur target) (path_parts target) =
      (if n - 1 - m1 \<le> k then Some (k - (n - 1 - m1), q1) else None)"
    using kwalk_budget [OF w1] by auto
  have m: "m \<le> m1" using kwalk_budget [OF w2] by auto
  have "kwalk t (n - m) cur [c] \<noteq> None"
    using link(1,2) dir n m1 m by (auto simp: kwalk_link b1)
  with link(5) link(1) have fresh: "?p \<notin> set fl" by (auto simp: out_of_reach_def)
  have self: "kwalk t (n - 1 - m1) cur [c] = None"
    using link(1,2) m1 by (auto simp: kwalk_link b1)
  have "kwalk t (n - 1 - m1) d [c'] = None" if "\<not> stays c'" "d @ [c'] \<in> set (?p # fl)" for d c'
    using that self link(5) m1 m kwalk_less [of t "n - m" d "[c']" "n - 1 - m1"] by (auto simp: out_of_reach_def)
  then have r1: "resolve t (?p # fl) (start_at cur target) (path_parts target) = (True, q1)"
    using link(3) [OF _ w1] n by (auto simp: out_of_reach_def)
  have "out_of_reach t fl (m1 - m)"
    using link(5) m1 n kwalk_less [where n = "n - m" and m = "m1 - m" and t = t]
    by (auto simp: out_of_reach_def)
  then have "resolve t fl q1 cs = (True, q)" using link(3) [OF _ w2] n m1 by auto
  then show ?case using link(1,2) fresh r1 by (simp add: resolve_link)
qed (auto simp: kwalk_stay kwalk_plain resolve_stay resolve_plain split: if_splits)

text \<open>What the kernel opens is the path that \<open>realpath\<close> gives.\<close>

lemma target_realpath: "target_of t cwd s = Some q \<Longrightarrow> realpath t cwd s = Some q"
proof -
  assume "target_of t cwd s = Some q"
  then obtain m where "kwalk t MAX_LINKS (start_at cwd s) (path_parts s) = Some (m, q)" "\<not> has_nul s"
    by (auto simp: target_of_def split: if_splits)
  with kwalk_resolve [OF this(1), of "[]"] show ?thesis by (simp add: realpath_def out_of_reach_def)
qed


subsection \<open>What making directories and writing changes\<close>

definition only_new_dirs :: "ftree \<Rightarrow> ftree \<Rightarrow> bool" where
  "only_new_dirs t t' = (\<forall>p. node_at t' p = node_at t p \<or> (node_at t p = None \<and> node_at t' p = Some FDir))"

lemma node_set_node: "node_at (set_node p n t) q = (if p = q \<and> p \<noteq> [] then Some n else node_at t q)"
  by (auto simp: node_at_def set_node_def)

lemma make_dir_only: "make_dir mw t h c = Some t' \<Longrightarrow> only_new_dirs t t'"
  by (auto simp: make_dir_def only_new_dirs_def node_set_node split: option.splits if_splits)

lemma only_new_dirs_refl [simp]: "only_new_dirs t t"
  by (simp add: only_new_dirs_def)

lemma only_new_dirs_trans: "only_new_dirs t u \<Longrightarrow> only_new_dirs u v \<Longrightarrow> only_new_dirs t v"
  by (simp add: only_new_dirs_def) metis

lemma make_dirs_only: "make_dirs mw t r = (ok, t') \<Longrightarrow> only_new_dirs t t'"
proof (induction r arbitrary: ok t')
  case (Cons c up)
  define head where "head = (if path_exists t [] (path_string (rev up)) then (True, t) else make_dirs mw t up)"
  obtain ok1 t1 where head: "head = (ok1, t1)" by fastforce
  then have first: "only_new_dirs t t1"
    using Cons.IH by (auto simp: head_def split: if_splits)
  show ?case
    using Cons.prems first make_dir_only [of mw t1 "rev up" c]
    by (auto simp: head_def [symmetric] head split: bool.splits option.splits intro: only_new_dirs_trans)
qed simp

lemma resolve_same_links:
  assumes "\<And>p. node_at t p = node_at t' p \<or> no_link (node_at t p) \<and> no_link (node_at t' p)"
  shows "resolve t fl cur cs = resolve t' fl cur cs"
  using assms
proof (induction t fl cur cs rule: resolve.induct)
  case (2 t fl cur c cs)
  consider "stays c" | "\<not> stays c" "no_link (node_at t (cur @ [c]))"
    | target where "\<not> stays c" "node_at t (cur @ [c]) = Some (FLink target)"
    by (auto simp: no_link_def)
  then show ?case
  proof cases
    case 1
    with 2 show ?thesis by (simp add: resolve_stay stays_def)
  next
    case 2
    then have plain: "no_link (node_at t' (cur @ [c]))" using "2.prems" [of "cur @ [c]"] by (auto simp: no_link_def)
    have "resolve t fl (cur @ [c]) cs = resolve t' fl (cur @ [c]) cs"
      using 2 "2.IH"(2-4) "2.prems"
      by (cases "node_at t (cur @ [c])"; cases "the (node_at t (cur @ [c]))") (auto simp: no_link_def stays_def)
    with 2 plain show ?thesis by (simp add: resolve_plain)
  next
    case (3 target)
    then have link: "node_at t' (cur @ [c]) = Some (FLink target)" using "2.prems" [of "cur @ [c]"] by (auto simp: no_link_def)
    have one: "resolve t ((cur @ [c]) # fl) (start_at cur target) (path_parts target)
        = resolve t' ((cur @ [c]) # fl) (start_at cur target) (path_parts target)" if "cur @ [c] \<notin> set fl"
      using 3 that "2.IH"(5) "2.prems" by (auto simp: stays_def)
    have two: "resolve t fl q cs = resolve t' fl q cs"
      if "cur @ [c] \<notin> set fl" "resolve t ((cur @ [c]) # fl) (start_at cur target) (path_parts target) = (True, q)" for q
      using 3 that "2.IH"(6) "2.prems" by (auto simp: stays_def)
    show ?thesis using 3 link one two
      by (auto simp: resolve_link split: prod.split bool.split)
  qed
qed simp


text \<open>
  Changes that stay inside a directory: elsewhere at most new directories appear, inside it files come and change; no
  link is made or replaced.
\<close>

definition confined :: "fpath \<Rightarrow> ftree \<Rightarrow> ftree \<Rightarrow> bool" where
  "confined d t t' = (\<forall>p. node_at t' p = node_at t p \<or> (node_at t p = None \<and> node_at t' p = Some FDir) \<or>
     (prefix d p \<and> (node_at t p = None \<or> (\<exists>tx. node_at t p = Some (FFile tx))) \<and> (\<exists>tx. node_at t' p = Some (FFile tx))))"

lemma confined_refl [simp]: "confined d t t"
  by (simp add: confined_def)

lemma confined_trans: "confined d t u \<Longrightarrow> confined d u v \<Longrightarrow> confined d t v"
  unfolding confined_def by (metis (no_types, opaque_lifting) fnode.distinct(1) option.distinct(1) option.inject)

lemma confined_dirs: "only_new_dirs t t' \<Longrightarrow> confined d t t'"
  by (auto simp: only_new_dirs_def confined_def)

lemma confined_links: "confined d t t' \<Longrightarrow> node_at t p = node_at t' p \<or> no_link (node_at t p) \<and> no_link (node_at t' p)"
  unfolding confined_def no_link_def by (metis fnode.distinct(3,5) option.distinct(1) option.inject)

lemma realpath_confined: "confined d t t' \<Longrightarrow> realpath t' cwd s = realpath t cwd s"
  using resolve_same_links [of t t' "[]"] confined_links [of d t t'] by (simp add: realpath_def)

lemma open_for_writing_SomeD:
  assumes "open_for_writing mw t cwd s = Some (q, t')"
  shows "realpath t cwd s = Some q" and "t' = set_node q (FFile []) t" and "target_of t cwd s = Some q" and "q \<noteq> []"
    and "node_at t q = None \<or> (\<exists>tx. node_at t q = Some (FFile tx))"
  using assms by (auto simp: open_for_writing_def node_at_def target_realpath split: option.splits fnode.splits if_splits)

lemma confined_write:
  "node_at t q = None \<or> (\<exists>tx. node_at t q = Some (FFile tx)) \<Longrightarrow> prefix d q \<Longrightarrow> q \<noteq> [] \<Longrightarrow> confined d t (set_node q (FFile tx) t)"
  by (auto simp: confined_def node_set_node)

subsection \<open>Paths as texts\<close>

definition good_name :: "string \<Rightarrow> bool" where
  "good_name c = (c \<noteq> [] \<and> slash \<notin> set c)"

lemma good_lexical: "list_all good_name cur \<Longrightarrow> slash \<notin> set c \<Longrightarrow> list_all good_name (lexical_step cur c)"
  by (auto simp: lexical_step_def good_name_def list_all_iff dest: in_set_butlastD)

lemma good_foldl: "list_all good_name cur \<Longrightarrow> \<forall>c \<in> set cs. slash \<notin> set c \<Longrightarrow> list_all good_name (foldl lexical_step cur cs)"
  by (induction cs arbitrary: cur) (auto intro: good_lexical)

lemma good_start: "list_all good_name cur \<Longrightarrow> list_all good_name (start_at cur s)"
  by (simp add: start_at_def)

lemma good_resolve:
  "list_all good_name cur \<Longrightarrow> \<forall>c \<in> set cs. slash \<notin> set c \<Longrightarrow> list_all good_name (snd (resolve t fl cur cs))"
proof (induction t fl cur cs rule: resolve.induct)
  case (2 t fl cur c cs)
  consider "stays c" | "\<not> stays c" "no_link (node_at t (cur @ [c]))"
    | target where "\<not> stays c" "node_at t (cur @ [c]) = Some (FLink target)"
    by (auto simp: no_link_def)
  then show ?case
  proof cases
    case 1
    with 2 show ?thesis by (simp add: resolve_stay stays_def good_lexical)
  next
    case 2
    have "good_name c" using 2 "2.prems" by (simp add: good_name_def stays_def)
    then have good: "list_all good_name (cur @ [c])" using "2.prems" by simp
    have "list_all good_name (snd (resolve t fl (cur @ [c]) cs))"
      using 2 "2.IH"(2-4) "2.prems" good
      by (cases "node_at t (cur @ [c])"; cases "the (node_at t (cur @ [c]))") (auto simp: no_link_def stays_def)
    with 2 show ?thesis by (simp add: resolve_plain)
  next
    case (3 target)
    have "good_name c" using 3 "2.prems" by (simp add: good_name_def stays_def)
    then have good: "list_all good_name (cur @ [c])" using "2.prems" by simp
    have one: "list_all good_name (snd (resolve t ((cur @ [c]) # fl) (start_at cur target) (path_parts target)))"
      if "cur @ [c] \<notin> set fl"
      using 3 that "2.IH"(5) "2.prems" by (auto simp: stays_def good_start path_parts_no_slash)
    have two: "list_all good_name (snd (resolve t fl q cs))"
      if "cur @ [c] \<notin> set fl" "resolve t ((cur @ [c]) # fl) (start_at cur target) (path_parts target) = (True, q)" for q
      using 3 that "2.IH"(6) "2.prems" one [OF that(1)] by (auto simp: stays_def)
    show ?thesis using 3 one two good "2.prems"
      by (auto simp: resolve_link intro!: good_foldl split: prod.split bool.split)
  qed
qed simp

lemma good_realpath: "list_all good_name cwd \<Longrightarrow> realpath t cwd s = Some r \<Longrightarrow> list_all good_name r"
  using good_resolve [of "start_at cwd s" "path_parts s" t "[]"] path_parts_no_slash [of _ s]
  by (auto simp: realpath_def good_start split: if_splits)

lemma parts_join: "list_all good_name p \<Longrightarrow> p \<noteq> [] \<Longrightarrow> path_parts (join ''/'' p) = p"
  using split_by_join [of p "\<lambda>c. c = slash" slash]
  by (auto simp: path_parts_def slash_def good_name_def list_all_iff list_ex_iff)

lemma parts_join_append:
  "list_all good_name p \<Longrightarrow> p \<noteq> [] \<Longrightarrow> path_parts (join ''/'' p @ slash # z) = p @ path_parts z"
proof (induction "''/'' :: string" p rule: join.induct)
  case (2 s)
  then show ?case using split_by_append [of "\<lambda>c. c = slash" s slash z]
    by (auto simp: path_parts_def good_name_def list_ex_iff)
next
  case (3 s t ss)
  then show ?case
    using split_by_append [of "\<lambda>c. c = slash" s slash "join ''/'' (t # ss) @ slash # z"]
    by (auto simp: path_parts_def good_name_def list_ex_iff slash_def)
qed simp

text \<open>A path below another, as the code tests it on texts.\<close>

lemma path_string_below:
  assumes "list_all good_name w" and "list_all good_name r"
    and "path_string r = path_string w \<or> prefix (path_string w @ ''/'') (path_string r)"
  shows "prefix w r"
proof (cases "w = []")
  case False
  from assms(3) show ?thesis
  proof
    assume "path_string r = path_string w"
    then have eq: "join ''/'' r = join ''/'' w" by (simp add: path_string_def)
    moreover have "join ''/'' w \<noteq> []" using False assms(1) by (cases w rule: remdups_adj.cases) (auto simp: good_name_def)
    ultimately have "r \<noteq> []" by auto
    then have "r = w" using eq parts_join [OF assms(1) False] parts_join [OF assms(2)] by simp
    then show ?thesis by simp
  next
    assume "prefix (path_string w @ ''/'') (path_string r)"
    then obtain z where z: "join ''/'' r = join ''/'' w @ slash # z" by (auto simp: path_string_def prefix_def slash_def)
    then have "r \<noteq> []" by auto
    then have "r = w @ path_parts z"
      using z parts_join_append [OF assms(1) False, of z] parts_join [OF assms(2)] by simp
    then show ?thesis by simp
  qed
qed simp

end
