(* ===== verification/ToolExecutor.thy ===== *)
theory ToolExecutor
  imports SessionState SkeletonDelta FileTree
begin

section \<open>The tool executor\<close>

text \<open>
  Models \<open>RuntimeToolExecutor\<close> of \<open>src/tok/runtime/tools.py\<close>: which paths are safe, the tools \<open>read\<close>, \<open>write\<close>,
  \<open>edit\<close>, \<open>run\<close> and \<open>delta\<close> on a file tree, and the bookkeeping of snapshots and deltas. \<open>exec_env\<close> is what comes
  from outside: the working directory, the workspace root as configured, the rights of the process, the text of an
  exception that the host raises, the skeleton of a file (\<open>Sifter.from_file\<close>, which parses Python), the integer part
  of a float, and the outcome of a command with its log entry (\<open>None\<close> when starting it, waiting for it or logging it
  raises). The guard \<open>_compiler_guard\<close>, which the runtime never calls, is left out.
\<close>

subsection \<open>State and results\<close>

record exec_env =
  env_cwd :: fpath
  env_root :: string
  env_may_read :: "fpath \<Rightarrow> bool"
  env_may_write :: "fpath \<Rightarrow> bool"
  env_error :: "string \<Rightarrow> string"
  env_sift :: "ftree \<Rightarrow> string \<Rightarrow> string option"
  env_fint :: "string \<Rightarrow> int option"
  env_command :: "string list \<Rightarrow> ftree \<Rightarrow> (string \<times> string \<times> int) option \<times> ftree"

record executor =
  ex_pre_state :: "string dict"
  ex_pending :: "tok_delta list"
  ex_sifter_cache :: "string dict"

definition new_executor :: executor where
  "new_executor = \<lparr>ex_pre_state = [], ex_pending = [], ex_sifter_cache = []\<rparr>"

record tool_result =
  r_status :: string
  r_message :: string
  r_returncode :: "int option"

definition tool_error :: "string \<Rightarrow> tool_result" where
  "tool_error msg = \<lparr>r_status = ''ERROR'', r_message = msg, r_returncode = None\<rparr>"

definition tool_success :: "string \<Rightarrow> tool_result" where
  "tool_success msg = \<lparr>r_status = ''SUCCESS'', r_message = msg, r_returncode = None\<rparr>"

lemma result_simps [simp]:
  "r_status (tool_error m) = ''ERROR''" "r_status (tool_success m) = ''SUCCESS''" "r_message (tool_success m) = m"
  by (simp_all add: tool_error_def tool_success_def)

type_synonym world = "executor \<times> ftree"

subsection \<open>Safe paths\<close>

text \<open>The workspace root has no null character, so that its own resolution cannot raise.\<close>

definition is_safe_path :: "exec_env \<Rightarrow> ftree \<Rightarrow> string \<Rightarrow> bool" where
  "is_safe_path env t p =
     (if p = [] \<or> py_strip p = [] then False
      else case realpath t (env_cwd env) p of
        None \<Rightarrow> False
      | Some r \<Rightarrow>
          (case realpath t (env_cwd env) (env_root env) of
             None \<Rightarrow> False
           | Some w \<Rightarrow> path_string r = path_string w \<or> prefix (path_string w @ ''/'') (path_string r)))"

definition flag_char :: "char \<Rightarrow> bool" where
  "flag_char c = (c \<in> set ''rfRF'')"

text \<open>The groups of flags after \<open>rm\<close>: a hyphen, flag characters, white space.\<close>

function drop_flags :: "string \<Rightarrow> string" where
  "drop_flags s =
     (let a = dropWhile flag_char (drop 1 s); b = dropWhile py_space a in
      if prefix ''-'' s \<and> length a < length s - 1 \<and> length b < length a then drop_flags b else s)"
  by pat_completeness auto

termination by (relation "measure length") (auto simp: Let_def)

declare drop_flags.simps [simp del]

definition rm_target :: "string \<Rightarrow> string" where
  "rm_target cmd =
     (let rest = (if prefix ''rm'' cmd \<and> dropWhile py_space (drop 2 cmd) \<noteq> drop 2 cmd
                  then drop_flags (dropWhile py_space (drop 2 cmd)) else cmd)
      in strip_by (\<lambda>c. c = single_quote \<or> c = char_of (34 :: nat)) (py_strip rest))"

definition BLOCKED_ROOTS :: "string list" where
  "BLOCKED_ROOTS = [''/'', ''/etc'', ''/usr'', ''/bin'', ''/sbin'', ''/System'', ''/Library'', ''/var'']"

definition is_safe_rm :: "exec_env \<Rightarrow> ftree \<Rightarrow> string \<Rightarrow> bool" where
  "is_safe_rm env t cmd =
     (if rm_target cmd = [] then False
      else case realpath t (env_cwd env) (rm_target cmd) of
        None \<Rightarrow> False
      | Some r \<Rightarrow>
          (case realpath t (env_cwd env) (env_root env) of
             None \<Rightarrow> False
           | Some w \<Rightarrow>
               let resolved = path_string r; workspace = path_string w;
                   rel = drop (length workspace + 1) resolved
               in if resolved = workspace then False
                  else if prefix (workspace @ ''/'') resolved \<and> (rel = ''.git'' \<or> prefix ''.git/'' rel) then False
                  else \<not> list_ex (\<lambda>b. resolved = b \<or> prefix (b @ ''/'') resolved) BLOCKED_ROOTS))"

subsection \<open>Snapshots\<close>

definition capture_snapshot :: "exec_env \<Rightarrow> string \<Rightarrow> world \<Rightarrow> string option \<times> world" where
  "capture_snapshot env p w =
     (case map_of (ex_sifter_cache (fst w)) p of
        Some s \<Rightarrow> (Some s, w)
      | None \<Rightarrow>
          (case env_sift env (snd w) p of
             None \<Rightarrow> (None, w)
           | Some s \<Rightarrow> (Some s, ((fst w)\<lparr>ex_sifter_cache := dict_set p s (ex_sifter_cache (fst w))\<rparr>, snd w))))"

text \<open>\<open>compute_delta\<close> may raise, when a skeleton cannot be read; \<open>order\<close> and \<open>attr_order\<close> are the orders of the sets.\<close>

definition compute_delta ::
    "(delta_key list \<Rightarrow> delta_key list) \<Rightarrow> (string list \<Rightarrow> string list) \<Rightarrow> string \<Rightarrow> string \<Rightarrow> executor \<Rightarrow> tok_delta list py" where
  "compute_delta order attr_order p post x =
     (if post = [] then Inr []
      else case map_of (ex_pre_state x) p of
        None \<Rightarrow> Inr []
      | Some pre \<Rightarrow> if pre \<noteq> [] \<and> pre \<noteq> post then diff_tok order attr_order pre post False else Inr [])"

text \<open>What \<open>write\<close> and \<open>edit\<close> do after the file is written: \<open>None\<close> when it raises.\<close>

definition note_delta ::
    "exec_env \<Rightarrow> (delta_key list \<Rightarrow> delta_key list) \<Rightarrow> (string list \<Rightarrow> string list) \<Rightarrow> string \<Rightarrow> string option \<Rightarrow> world \<Rightarrow>
     bool \<times> world" where
  "note_delta env order attr_order p pre w =
     (if pre = None then (True, w)
      else case capture_snapshot env p w of
        (None, w) \<Rightarrow> (True, w)
      | (Some post, w) \<Rightarrow>
          if post = [] then (True, w)
          else (case compute_delta order attr_order p post (fst w) of
                  Inl e \<Rightarrow> (False, w)
                | Inr ds \<Rightarrow> (True, ((fst w)\<lparr>ex_pending := ex_pending (fst w) @ ds\<rparr>, snd w))))"

subsection \<open>Reading\<close>

definition arg_of :: "string \<Rightarrow> tool_event \<Rightarrow> json" where
  "arg_of k e = (case map_of (te_args e) k of None \<Rightarrow> JNull | Some v \<Rightarrow> v)"

definition json_or :: "json \<Rightarrow> json \<Rightarrow> json" where
  "json_or a b = (if truthy a then a else b)"

definition trailing_char :: "char \<Rightarrow> bool" where
  "trailing_char c = (c \<in> set ''.*?:;'')"

definition rstrip_by :: "(char \<Rightarrow> bool) \<Rightarrow> string \<Rightarrow> string" where
  "rstrip_by P s = rev (dropWhile P (rev s))"

text \<open>\<open>f.readlines()\<close>, and \<open>xs[a:b]\<close> for a start that is not negative.\<close>

fun file_lines_from :: "string \<Rightarrow> string \<Rightarrow> string list" where
  "file_lines_from acc [] = (if acc = [] then [] else [acc])"
| "file_lines_from acc (c # cs) =
     (if c = newline then (acc @ [c]) # file_lines_from [] cs else file_lines_from (acc @ [c]) cs)"

definition file_lines :: "string \<Rightarrow> string list" where
  "file_lines s = file_lines_from [] s"

definition slice_between :: "int \<Rightarrow> int \<Rightarrow> 'a list \<Rightarrow> 'a list" where
  "slice_between a b xs =
     (let hi = (if b < 0 then max 0 (int (length xs) + b) else b) in drop (nat a) (take (nat hi) xs))"

definition read_content :: "exec_env \<Rightarrow> tool_event \<Rightarrow> string \<Rightarrow> string \<Rightarrow> string option" where
  "read_content env e p tx =
     (let start = json_or (arg_of ''start'' e) (arg_of ''L'' e); stop = arg_of ''end'' e in
      if truthy start \<and> truthy stop
      then (case (to_int (env_fint env) start, to_int (env_fint env) stop) of
              (Some i, Some j) \<Rightarrow>
                let ls = file_lines tx in
                Some (''Read '' @ p @ '' [L'' @ int_str i @ ''-L'' @ int_str j @ '']:'' @ [newline] @
                      concat (slice_between (max 0 (i - 1)) (min (int (length ls)) j) ls))
            | _ \<Rightarrow> None)
      else Some (''Read '' @ p @ '':'' @ [newline] @ tx))"

definition execute_read :: "exec_env \<Rightarrow> tool_event \<Rightarrow> world \<Rightarrow> tool_result" where
  "execute_read env e w =
     (if \<not> given (te_path e) then tool_error ''Missing path for read tool''
      else
        let p = rstrip_by trailing_char (py_strip (or_empty (te_path e))) in
        if \<not> is_safe_path env (snd w) p then tool_error (''Security Violation: '' @ p)
        else if \<not> path_exists (snd w) (env_cwd env) p then tool_error (''Not found: '' @ p)
        else if path_is_dir (snd w) (env_cwd env) p
        then tool_error (p @ '' is a directory. Use run tool with '' @ [single_quote] @ ''ls -R {path}'' @ [single_quote] @
                         '' to list contents.'')
        else case Option.bind (read_text (env_may_read env) (snd w) (env_cwd env) p) (read_content env e p) of
               Some msg \<Rightarrow> tool_success msg
             | None \<Rightarrow> tool_error (''Failed to read '' @ p @ '': '' @ env_error env p))"

subsection \<open>Writing and editing\<close>

definition file_name_char :: "char \<Rightarrow> bool" where
  "file_name_char c = (word_char c \<or> c \<in> set ''.-/'')"

text \<open>The dollar of the pattern also matches before a newline that ends the text.\<close>

definition write_name_ok :: "string \<Rightarrow> bool" where
  "write_name_ok p =
     (let q = (if p \<noteq> [] \<and> List.last p = newline then butlast p else p) in q \<noteq> [] \<and> list_all file_name_char q)"

text \<open>
  \<open>with open(path, "w") as f: f.write(content)\<close>. The file is emptied when it is opened; a content that is not a text
  then raises.
\<close>

definition write_opened :: "exec_env \<Rightarrow> string \<Rightarrow> string option \<Rightarrow> world \<Rightarrow> bool \<times> world" where
  "write_opened env p content w =
     (case open_for_writing (env_may_write env) (snd w) (env_cwd env) p of
        None \<Rightarrow> (False, w)
      | Some (q, t) \<Rightarrow>
          (case content of
             None \<Rightarrow> (False, (fst w, t))
           | Some tx \<Rightarrow> (True, (fst w, set_node q (FFile tx) t))))"

fun text_of :: "json \<Rightarrow> string option" where
  "text_of (JStr s) = Some s"
| "text_of _ = None"


lemma text_of_Some: "text_of j = Some s \<longleftrightarrow> j = JStr s"
  by (cases j) auto

text \<open>The checks of a tool, with the answer when one fails; then its \<open>try\<close> block, \<open>False\<close> when it raises.\<close>

definition write_guard :: "exec_env \<Rightarrow> ftree \<Rightarrow> string \<Rightarrow> tool_result option" where
  "write_guard env t p =
     (if p = [] then Some (tool_error ''Missing path for write tool'')
      else if \<not> write_name_ok p
      then Some (tool_error (''Invalid filename: '' @ p @ ''. Use alphanumeric, dots, underscores, hyphens only.''))
      else if \<not> is_safe_path env t p then Some (tool_error (''Security Violation: '' @ p))
      else None)"

definition write_steps ::
    "exec_env \<Rightarrow> (delta_key list \<Rightarrow> delta_key list) \<Rightarrow> (string list \<Rightarrow> string list) \<Rightarrow> string \<Rightarrow> string option \<Rightarrow> world \<Rightarrow>
     bool \<times> world" where
  "write_steps env order attr_order p content w =
     (case capture_snapshot env p w of (pre, w) \<Rightarrow>
      (case make_dirs (env_may_write env) (snd w) (rev (butlast (abspath (env_cwd env) p))) of
         (False, t) \<Rightarrow> (False, (fst w, t))
       | (True, t) \<Rightarrow>
           (case write_opened env p content (fst w, t) of
              (False, w) \<Rightarrow> (False, w)
            | (True, w) \<Rightarrow> note_delta env order attr_order p pre w)))"

definition execute_write ::
    "exec_env \<Rightarrow> (delta_key list \<Rightarrow> delta_key list) \<Rightarrow> (string list \<Rightarrow> string list) \<Rightarrow> tool_event \<Rightarrow> world \<Rightarrow> tool_result \<times> world" where
  "execute_write env order attr_order e w =
     (let p = or_empty (te_path e);
          content = json_or (json_or (arg_of ''content'' e) (arg_of ''text'' e)) (JStr [])
      in case write_guard env (snd w) p of
           Some err \<Rightarrow> (err, w)
         | None \<Rightarrow>
             (case write_steps env order attr_order p (text_of content) w of
                (False, w) \<Rightarrow> (tool_error (''Failed to write to '' @ p @ '': '' @ env_error env p), w)
              | (True, w) \<Rightarrow> (tool_success (''Wrote to '' @ p), w)))"

definition replace_first :: "string \<Rightarrow> string \<Rightarrow> string \<Rightarrow> string" where
  "replace_first s r tx = (case py_find s tx of None \<Rightarrow> tx | Some i \<Rightarrow> take i tx @ r @ drop (i + length s) tx)"

definition edit_guard :: "exec_env \<Rightarrow> ftree \<Rightarrow> string \<Rightarrow> json \<Rightarrow> json \<Rightarrow> tool_result option" where
  "edit_guard env t p srch repl =
     (if p = [] then Some (tool_error ''Missing path for edit tool'')
      else if srch = JNull \<or> repl = JNull then Some (tool_error ''Edit tool requires both search and replace'')
      else if \<not> is_safe_path env t p then Some (tool_error (''Security Violation: '' @ p))
      else if \<not> path_exists t (env_cwd env) p then Some (tool_error (''Not found: '' @ p))
      else None)"

definition edit_steps ::
    "exec_env \<Rightarrow> (delta_key list \<Rightarrow> delta_key list) \<Rightarrow> (string list \<Rightarrow> string list) \<Rightarrow> string \<Rightarrow> json \<Rightarrow> json \<Rightarrow> world \<Rightarrow>
     tool_result option \<times> world" where
  "edit_steps env order attr_order p srch repl w =
     (case capture_snapshot env p w of (pre, w) \<Rightarrow>
      (case (read_text (env_may_read env) (snd w) (env_cwd env) p, text_of srch) of
         (Some fc, Some s) \<Rightarrow>
           if \<not> py_contains s fc then (Some (tool_error (''Search string not found in '' @ p)), w)
           else (case write_opened env p (map_option (\<lambda>r. replace_first s r fc) (text_of repl)) w of
                   (False, w) \<Rightarrow> (None, w)
                 | (True, w) \<Rightarrow>
                     (case note_delta env order attr_order p pre w of
                        (False, w) \<Rightarrow> (None, w)
                      | (True, w) \<Rightarrow> (Some (tool_success (''Edited '' @ p)), w)))
       | _ \<Rightarrow> (None, w)))"

definition execute_edit ::
    "exec_env \<Rightarrow> (delta_key list \<Rightarrow> delta_key list) \<Rightarrow> (string list \<Rightarrow> string list) \<Rightarrow> tool_event \<Rightarrow> world \<Rightarrow> tool_result \<times> world" where
  "execute_edit env order attr_order e w =
     (let p = or_empty (te_path e);
          srch = json_or (arg_of ''search'' e) (arg_of ''before'' e);
          repl = json_or (arg_of ''replace'' e) (arg_of ''after'' e)
      in case edit_guard env (snd w) p srch repl of
           Some err \<Rightarrow> (err, w)
         | None \<Rightarrow>
             (case edit_steps env order attr_order p srch repl w of
                (Some res, w) \<Rightarrow> (res, w)
              | (None, w) \<Rightarrow> (tool_error (''Failed to edit '' @ p @ '': '' @ env_error env p), w)))"

subsection \<open>Commands\<close>

definition execute_run :: "exec_env \<Rightarrow> tool_event \<Rightarrow> world \<Rightarrow> tool_result \<times> world" where
  "execute_run env e w =
     (let cmd = or_empty (te_command e);
          failed = tool_error (''Failed to run command: '' @ env_error env cmd)
      in if cmd = [] then (tool_error ''Missing command for run tool'', w)
         else case shlex_split cmd of
           None \<Rightarrow> (failed, w)
         | Some args \<Rightarrow>
             (case env_command env args (snd w) of
                (None, t) \<Rightarrow> (failed, (fst w, t))
              | (Some (out, err, rc), t) \<Rightarrow>
                  (\<lparr>r_status = (if rc = 0 then ''SUCCESS'' else ''FAILURE''),
                    r_message = ''Command `'' @ cmd @ ''` exit '' @ int_str rc @ '':'' @ [newline] @
                      ''STDOUT:'' @ [newline] @ out @ [newline] @ ''STDERR:'' @ [newline] @ err,
                    r_returncode = Some rc\<rparr>, (fst w, t))))"

subsection \<open>Deltas\<close>

text \<open>\<open>add @type|label\<close> at the start of a line, and the like.\<close>

definition delta_head :: "string \<Rightarrow> string \<Rightarrow> (string \<times> string) option" where
  "delta_head op s =
     Option.bind (after_prefix op s) (\<lambda>r. Option.bind (run_of py_space r) (\<lambda>(_, r).
       Option.bind (after_prefix ''@'' r) (\<lambda>r. Option.bind (run_of word_char r) (\<lambda>(ty, r).
         Option.bind (after_prefix ''|'' r) (\<lambda>r. map_option (\<lambda>(label, _). (ty, label)) (run_of word_char r))))))"

definition new_delta :: "string \<Rightarrow> string \<Rightarrow> string \<Rightarrow> string \<Rightarrow> tok_delta" where
  "new_delta op ty label p = \<lparr>d_op = op, d_type = ty, d_label = label, d_old = [], d_new = [], d_file = Some p, d_ref = None\<rparr>"

definition colon_char :: char where "colon_char = CHR '':''"

definition payload_step :: "string \<Rightarrow> tok_delta list \<Rightarrow> string \<Rightarrow> tok_delta list" where
  "payload_step p ds line =
     (let s = py_strip line in
      if s = [] then ds
      else case delta_head ''add'' s of
        Some (ty, label) \<Rightarrow> ds @ [new_delta ''add'' ty label p]
      | None \<Rightarrow>
      (case delta_head ''remove'' s of
        Some (ty, label) \<Rightarrow> ds @ [new_delta ''remove'' ty label p]
      | None \<Rightarrow>
      (case delta_head ''update'' s of
        Some (ty, label) \<Rightarrow> ds @ [new_delta ''update'' ty label p]
      | None \<Rightarrow>
          if prefix ''+'' s \<and> colon_char \<in> set s \<and> ds \<noteq> []
          then let r = drop 1 s; k = takeWhile (\<lambda>c. c \<noteq> colon_char) r; v = drop (length k + 1) r; d = List.last ds
               in butlast ds @ [d\<lparr>d_new := dict_set (py_strip k) (py_strip v) (d_new d)\<rparr>]
          else ds)))"

definition parse_delta_payload :: "string \<Rightarrow> string \<Rightarrow> tok_delta list" where
  "parse_delta_payload payload p = foldl (payload_step p) [] (splitlines payload)"

definition resolve_delta_payload :: "tool_event \<Rightarrow> json" where
  "resolve_delta_payload e =
     json_or (arg_of ''payload'' e) (json_or (json_or (arg_of ''text'' e) (arg_of ''content'' e)) (JStr []))"

text \<open>
  \<open>apply_delta\<close> stores the dictionary of a delta in the index, so that a later delta on the same entry changes the
  earlier delta: \<open>owner\<close> names, for an entry of the index, the delta whose dictionary it shares.
\<close>

record sharing =
  sh_index :: skeleton_index
  sh_owner :: "(delta_key \<times> nat) list"
  sh_deltas :: "tok_delta list"

definition share_step :: "sharing \<Rightarrow> nat \<Rightarrow> sharing" where
  "share_step st i =
     (let d = sh_deltas st ! i; k = delta_key d; stored = st\<lparr>sh_index := apply_single_delta (sh_index st) d\<rparr> in
      if d_op d = ''add'' then stored\<lparr>sh_owner := dict_set k i (sh_owner st)\<rparr>
      else if d_op d = ''remove'' then stored\<lparr>sh_owner := dict_pop k (sh_owner st)\<rparr>
      else if d_op d = ''update''
      then (case map_of (sh_index st) k of
              None \<Rightarrow> stored\<lparr>sh_owner := dict_set k i (sh_owner st)\<rparr>
            | Some a \<Rightarrow>
                (case map_of (sh_owner st) k of
                   None \<Rightarrow> stored
                 | Some j \<Rightarrow> stored\<lparr>sh_deltas := (sh_deltas st)[j := (sh_deltas st ! j)\<lparr>d_new :=
                               dict_update (d_new (sh_deltas st ! j)) (d_new d)\<rparr>]\<rparr>))
      else stored)"

definition share_all :: "tok_delta list \<Rightarrow> skeleton_index \<Rightarrow> tok_delta list" where
  "share_all ds idx =
     sh_deltas (foldl share_step \<lparr>sh_index = idx, sh_owner = [], sh_deltas = ds\<rparr> [0..<length ds])"

definition delta_guard :: "exec_env \<Rightarrow> ftree \<Rightarrow> string \<Rightarrow> json \<Rightarrow> tool_result option" where
  "delta_guard env t p payload =
     (if p = [] then Some (tool_error ''Missing path for delta tool'')
      else if \<not> truthy payload then Some (tool_error ''Missing delta payload'')
      else if \<not> is_safe_path env t p then Some (tool_error (''Security Violation: '' @ p))
      else None)"

definition delta_steps :: "exec_env \<Rightarrow> string \<Rightarrow> string option \<Rightarrow> world \<Rightarrow> tool_result option \<times> world" where
  "delta_steps env p payload w =
     (case capture_snapshot env p w of (pre, w) \<Rightarrow>
      (case payload of
         None \<Rightarrow> (None, w)
       | Some tx \<Rightarrow>
           let ds = parse_delta_payload tx p in
           if ds = [] then (Some (tool_error ''No valid deltas found in payload''), w)
           else case pre of
             None \<Rightarrow> (None, w)
           | Some skeleton \<Rightarrow>
               (case parse_skeleton skeleton True of
                  Inl err \<Rightarrow> (None, w)
                | Inr idx \<Rightarrow>
                    (Some (tool_success (''Applied '' @ nat_str (length ds) @ '' deltas to '' @ p)),
                     ((fst w)\<lparr>ex_pending := ex_pending (fst w) @ share_all ds idx\<rparr>, snd w)))))"

definition execute_delta :: "exec_env \<Rightarrow> tool_event \<Rightarrow> world \<Rightarrow> tool_result \<times> world" where
  "execute_delta env e w =
     (let p = or_empty (te_path e); payload = resolve_delta_payload e in
      case delta_guard env (snd w) p payload of
        Some err \<Rightarrow> (err, w)
      | None \<Rightarrow>
          (case delta_steps env p (text_of payload) w of
             (Some res, w) \<Rightarrow> (res, w)
           | (None, w) \<Rightarrow> (tool_error (''Failed to apply delta: '' @ env_error env p), w)))"

subsection \<open>Dispatch\<close>

definition execute_normalized_tool ::
    "exec_env \<Rightarrow> (delta_key list \<Rightarrow> delta_key list) \<Rightarrow> (string list \<Rightarrow> string list) \<Rightarrow> tool_event \<Rightarrow> world \<Rightarrow> tool_result \<times> world" where
  "execute_normalized_tool env order attr_order e w =
     (if te_name e = ''read'' then (execute_read env e w, w)
      else if te_name e = ''write'' then execute_write env order attr_order e w
      else if te_name e = ''edit'' then execute_edit env order attr_order e w
      else if te_name e = ''run'' then execute_run env e w
      else if te_name e = ''delta'' then execute_delta env e w
      else (tool_error (''Unknown tool: '' @ te_name e), w))"


subsection \<open>The sandbox\<close>

text \<open>The workspace of a tree, and what the host is assumed to hold: a working directory of plain names.\<close>

definition in_workspace :: "exec_env \<Rightarrow> ftree \<Rightarrow> fpath \<Rightarrow> bool" where
  "in_workspace env t q =
     (case realpath t (env_cwd env) (env_root env) of None \<Rightarrow> False | Some ws \<Rightarrow> prefix ws q)"

definition plain_cwd :: "exec_env \<Rightarrow> bool" where
  "plain_cwd env = list_all good_name (env_cwd env)"

lemma safe_path_inside:
  assumes "plain_cwd env" and "is_safe_path env t p"
  shows "\<exists>ws r. realpath t (env_cwd env) (env_root env) = Some ws \<and> realpath t (env_cwd env) p = Some r \<and> prefix ws r"
  using assms path_string_below good_realpath
  by (auto simp: is_safe_path_def plain_cwd_def split: if_splits option.splits)

lemma snd_capture: "capture_snapshot env p w = (s, w') \<Longrightarrow> snd w' = snd w"
  by (auto simp: capture_snapshot_def split: option.splits)

lemma snd_note: "note_delta env order ao p pre w = (b, w') \<Longrightarrow> snd w' = snd w"
  by (auto simp: note_delta_def split: if_splits option.splits prod.splits sum.splits dest: snd_capture)

lemma write_opened_confined:
  assumes "write_opened env p content w = (b, w')"
    and "realpath (snd w) (env_cwd env) p = Some r" and "prefix d r"
  shows "confined d (snd w) (snd w')"
proof (cases "open_for_writing (env_may_write env) (snd w) (env_cwd env) p")
  case None
  with assms(1) show ?thesis by (auto simp: write_opened_def)
next
  case (Some qt)
  obtain q t where qt: "qt = (q, t)" by fastforce
  note opened = open_for_writing_SomeD [OF Some [unfolded qt]]
  from opened(1) assms(2) have "q = r" by simp
  have one: "confined d (snd w) t" unfolding opened(2) using opened(4,5) assms(3) \<open>q = r\<close> by (intro confined_write) auto
  have two: "confined d t (set_node q (FFile tx) t)" for tx
    unfolding opened(2) using opened(4) assms(3) \<open>q = r\<close> by (intro confined_write) (auto simp: node_set_node)
  show ?thesis using assms(1) Some one confined_trans [OF one two]
    by (auto simp: write_opened_def qt split: option.splits)
qed

lemma write_steps_confined:
  assumes "write_steps env order ao p content w = (b, w')"
    and "realpath (snd w) (env_cwd env) p = Some q" and "prefix d q"
  shows "confined d (snd w) (snd w')"
proof -
  obtain pre w1 where cap: "capture_snapshot env p w = (pre, w1)" by (cases "capture_snapshot env p w") auto
  then have w1: "snd w1 = snd w" by (rule snd_capture)
  obtain ok t where dirs: "make_dirs (env_may_write env) (snd w) (rev (butlast (abspath (env_cwd env) p))) = (ok, t)"
    by fastforce
  then have ct: "confined d (snd w) t" by (intro confined_dirs make_dirs_only)
  obtain b1 w2 where wr: "write_opened env p content (fst w1, t) = (b1, w2)"
    by (cases "write_opened env p content (fst w1, t)") auto
  have "confined d t (snd w2)"
    using write_opened_confined [OF wr _ assms(3)] realpath_confined [OF ct] assms(2) by simp
  then have "confined d (snd w) (snd w2)" by (rule confined_trans [OF ct])
  with assms(1) ct show ?thesis
    by (cases ok; cases b1) (auto simp: write_steps_def cap w1 dirs wr dest: snd_note)
qed

lemma edit_steps_confined:
  assumes "edit_steps env order ao p srch repl w = (b, w')"
    and "realpath (snd w) (env_cwd env) p = Some q" and "prefix d q"
  shows "confined d (snd w) (snd w')"
proof -
  obtain pre w1 where cap: "capture_snapshot env p w = (pre, w1)" by (cases "capture_snapshot env p w") auto
  then have w1: "snd w1 = snd w" by (rule snd_capture)
  have opened: "confined d (snd w) (snd w2)" if "write_opened env p c w1 = (b2, w2)" for c b2 w2
    using write_opened_confined [OF that _ assms(3)] assms(2) w1 by simp
  show ?thesis
  proof (cases "read_text (env_may_read env) (snd w) (env_cwd env) p")
    case None
    with assms(1) w1 show ?thesis by (auto simp: edit_steps_def cap)
  next
    case (Some fc)
    note rd = this
    show ?thesis
    proof (cases "text_of srch")
      case None
      with assms(1) rd w1 show ?thesis by (auto simp: edit_steps_def cap)
    next
      case (Some s)
      obtain b2 w2 where wr: "write_opened env p (map_option (\<lambda>r. replace_first s r fc) (text_of repl)) w1 = (b2, w2)"
        by (cases "write_opened env p (map_option (\<lambda>r. replace_first s r fc) (text_of repl)) w1") auto
      from assms(1) rd Some opened [OF wr] w1 show ?thesis
        by (auto simp: edit_steps_def cap wr split: if_splits bool.splits prod.splits dest: snd_note)
    qed
  qed
qed

text \<open>What a tool may do to the tree: nothing, or changes confined to the workspace.\<close>

definition sandboxed :: "exec_env \<Rightarrow> ftree \<Rightarrow> ftree \<Rightarrow> bool" where
  "sandboxed env t t' = (t' = t \<or> (\<exists>ws. realpath t (env_cwd env) (env_root env) = Some ws \<and> confined ws t t'))"

lemma execute_write_sandboxed:
  assumes "plain_cwd env" and "execute_write env order ao e w = (r, w')"
  shows "sandboxed env (snd w) (snd w')"
proof (cases "write_guard env (snd w) (or_empty (te_path e))")
  case (Some err)
  with assms(2) show ?thesis by (simp add: execute_write_def Let_def sandboxed_def)
next
  case None
  then have "is_safe_path env (snd w) (or_empty (te_path e))" by (simp add: write_guard_def split: if_splits)
  from safe_path_inside [OF assms(1) this] obtain ws q where
    "realpath (snd w) (env_cwd env) (env_root env) = Some ws"
    "realpath (snd w) (env_cwd env) (or_empty (te_path e)) = Some q" "prefix ws q" by blast
  moreover obtain b w2 where steps: "write_steps env order ao (or_empty (te_path e))
      (text_of (json_or (json_or (arg_of ''content'' e) (arg_of ''text'' e)) (JStr []))) w = (b, w2)"
    by (metis surj_pair)
  moreover have "snd w' = snd w2"
    using assms(2) None steps by (cases b) (simp_all add: execute_write_def Let_def)
  ultimately show ?thesis using write_steps_confined [OF steps] by (simp add: sandboxed_def)
qed

lemma execute_edit_sandboxed:
  assumes "plain_cwd env" and "execute_edit env order ao e w = (r, w')"
  shows "sandboxed env (snd w) (snd w')"
proof (cases "edit_guard env (snd w) (or_empty (te_path e)) (json_or (arg_of ''search'' e) (arg_of ''before'' e))
    (json_or (arg_of ''replace'' e) (arg_of ''after'' e))")
  case (Some err)
  with assms(2) show ?thesis by (simp add: execute_edit_def Let_def sandboxed_def)
next
  case None
  then have "is_safe_path env (snd w) (or_empty (te_path e))" by (simp add: edit_guard_def split: if_splits)
  from safe_path_inside [OF assms(1) this] obtain ws q where
    "realpath (snd w) (env_cwd env) (env_root env) = Some ws"
    "realpath (snd w) (env_cwd env) (or_empty (te_path e)) = Some q" "prefix ws q" by blast
  moreover obtain b w2 where steps: "edit_steps env order ao (or_empty (te_path e))
      (json_or (arg_of ''search'' e) (arg_of ''before'' e)) (json_or (arg_of ''replace'' e) (arg_of ''after'' e)) w = (b, w2)"
    by (metis surj_pair)
  moreover have "snd w' = snd w2"
    using assms(2) None steps by (cases b) (simp_all add: execute_edit_def Let_def)
  ultimately show ?thesis using edit_steps_confined [OF steps] by (simp add: sandboxed_def)
qed

lemma delta_steps_tree: "delta_steps env p payload w = (b, w') \<Longrightarrow> snd w' = snd w"
  by (auto simp: delta_steps_def Let_def split: prod.splits option.splits sum.splits if_splits dest: snd_capture)

text \<open>The delta tool reports success without changing any file.\<close>

lemma execute_delta_tree:
  assumes "execute_delta env e w = (r, w')"
  shows "snd w' = snd w"
proof -
  obtain b w2 where steps: "delta_steps env (or_empty (te_path e)) (text_of (resolve_delta_payload e)) w = (b, w2)"
    by (metis surj_pair)
  show ?thesis
    using assms delta_steps_tree [OF steps] steps
    by (cases b; cases "delta_guard env (snd w) (or_empty (te_path e)) (resolve_delta_payload e)")
      (simp_all add: execute_delta_def Let_def)
qed

lemma execute_tool_sandboxed:
  assumes "plain_cwd env" and "te_name e \<noteq> ''run''" and "execute_normalized_tool env order ao e w = (r, w')"
  shows "sandboxed env (snd w) (snd w')"
  using assms execute_write_sandboxed execute_edit_sandboxed execute_delta_tree
  by (auto simp: execute_normalized_tool_def sandboxed_def split: if_splits)


lemma sandboxed_refl: "sandboxed env t t"
  by (simp add: sandboxed_def)

lemma sandboxed_trans: "sandboxed env t u \<Longrightarrow> sandboxed env u v \<Longrightarrow> sandboxed env t v"
  unfolding sandboxed_def by (metis confined_trans option.inject realpath_confined)

lemma execute_event_sandboxed:
  assumes "plain_cwd env" and "te_name e \<noteq> ''run''"
    and "execute_tool_event fint (execute_normalized_tool env order ao) e session w = (r, session', w')"
  shows "sandboxed env (snd w) (snd w')"
proof -
  obtain r1 w1 where run: "execute_normalized_tool env order ao e w = (r1, w1)" by (metis surj_pair)
  have "w' = w \<or> w' = w1"
    using assms(3) run by (auto simp: execute_tool_event_def Let_def split: option.splits if_splits)
  then show ?thesis using execute_tool_sandboxed [OF assms(1,2) run] sandboxed_refl by auto
qed

lemma batch_sandboxed_trans:
  assumes "plain_cwd env" and "\<forall>e \<in> set es. te_name e \<noteq> ''run''"
    and "execute_tool_events_batch fint (execute_normalized_tool env order ao) es session w = (r, session', w')"
  shows "sandboxed env (snd w) (snd w')"
  using assms(2,3)
proof (induction es arbitrary: session w r session' w')
  case (Cons e es)
  obtain r1 s1 w1 where one: "execute_tool_event fint (execute_normalized_tool env order ao) e session w = (r1, s1, w1)"
    by (metis prod_cases3)
  then have first: "sandboxed env (snd w) (snd w1)" using execute_event_sandboxed [OF assms(1) _ one] Cons.prems(1) by simp
  obtain r2 s2 w2 where rest:
    "execute_tool_events_batch fint (execute_normalized_tool env order ao) es s1 w1 = (r2, s2, w2)" by (metis prod_cases3)
  have last: "w' = w1 \<or> w' = w2"
    using Cons.prems(2) one rest by (cases r1; cases r2) simp_all
  have "sandboxed env (snd w1) (snd w2)" by (rule Cons.IH [OF _ rest]) (use Cons.prems(1) in simp)
  with last show ?case using first sandboxed_trans by auto
qed (simp add: sandboxed_refl)

text \<open>C9: A batch of tool calls without commands stays in its workspace. Whatever the calls are, and whatever symbolic
  links the tree has: outside the place to which the workspace root resolves nothing that existed is changed or removed, and at
  most new directories appear; inside it only files are made or rewritten, and no link is made or replaced.\<close>

theorem batch_stays_in_workspace:
  assumes "plain_cwd env" and "\<forall>e \<in> set es. te_name e \<noteq> ''run''"
    and "execute_tool_events_batch fint (execute_normalized_tool env order ao) es session (x, t) = (r, session', x', t')"
    and "node_at t' p \<noteq> node_at t p"
  shows "(node_at t p = None \<and> node_at t' p = Some FDir) \<or>
    ((\<exists>ws. realpath t (env_cwd env) (env_root env) = Some ws \<and> prefix ws p) \<and>
     (node_at t p = None \<or> (\<exists>old. node_at t p = Some (FFile old))) \<and> (\<exists>new. node_at t' p = Some (FFile new)))"
  using batch_sandboxed_trans [OF assms(1-3)] assms(4)
  by (auto simp: sandboxed_def confined_def)

subsection \<open>Reading and editing\<close>

text \<open>C35: A read that succeeds shows the text of a file inside the workspace, to which its path leads through all symbolic
  links, and one that the process may read; with a range it shows whole lines of that text.\<close>

theorem read_shows_workspace_file:
  assumes "plain_cwd env" and "r_status (execute_read env e w) = ''SUCCESS''"
  shows "\<exists>q old. in_workspace env (snd w) q \<and> node_at (snd w) q = Some (FFile old) \<and> env_may_read env q \<and>
    target_of (snd w) (env_cwd env) (rstrip_by trailing_char (py_strip (or_empty (te_path e)))) = Some q \<and>
    Some (r_message (execute_read env e w)) =
      read_content env e (rstrip_by trailing_char (py_strip (or_empty (te_path e)))) (universal_newlines old)"
proof -
  define p where "p = rstrip_by trailing_char (py_strip (or_empty (te_path e)))"
  define got where "got = Option.bind (read_text (env_may_read env) (snd w) (env_cwd env) p) (read_content env e p)"
  have safe: "is_safe_path env (snd w) p" and res: "execute_read env e w = (case got of Some msg \<Rightarrow> tool_success msg
      | None \<Rightarrow> tool_error (''Failed to read '' @ p @ '': '' @ env_error env p))"
    using assms(2)
    by (simp_all add: execute_read_def Let_def p_def [symmetric] got_def [symmetric] split: if_splits)
  obtain msg where got: "got = Some msg" using assms(2) by (cases got) (simp_all add: res)
  then obtain q old where q: "target_of (snd w) (env_cwd env) p = Some q" "node_at (snd w) q = Some (FFile old)"
      "env_may_read env q" "read_content env e p (universal_newlines old) = Some msg"
    by (auto simp: got_def read_text_def bind_eq_Some_conv split: option.splits fnode.splits if_splits)
  have "in_workspace env (snd w) q"
    using safe_path_inside [OF assms(1) safe] target_realpath [OF q(1)] by (auto simp: in_workspace_def)
  with q show ?thesis by (auto simp: res got p_def)
qed

lemma replace_first_split:
  assumes "py_contains s tx"
  shows "\<exists>a b. tx = a @ s @ b \<and> replace_first s r tx = a @ r @ b \<and> (\<forall>i < length a. \<not> prefix s (drop i tx))"
proof -
  obtain i where i: "py_find s tx = Some i" using assms by (auto simp: py_contains_def)
  obtain b where b: "drop i tx = s @ b" using py_find_Some_prefix [OF i] by (auto simp: prefix_def)
  have len: "i + length s \<le> length tx" using i by (rule py_find_bound)
  have "drop (i + length s) tx = b" using b by (metis add.commute append_eq_conv_conj drop_drop)
  moreover have "tx = take i tx @ s @ b" using b by (metis append_take_drop_id)
  moreover have "length (take i tx) = i" using len by simp
  ultimately show ?thesis using py_find_least [OF i] i
    by (intro exI [of _ "take i tx"] exI [of _ b]) (simp add: replace_first_def)
qed

lemma write_opened_content:
  assumes "write_opened env p content w = (True, w')"
  shows "\<exists>q tx. content = Some tx \<and> target_of (snd w) (env_cwd env) p = Some q \<and> q \<noteq> [] \<and>
    (\<forall>p'. node_at (snd w') p' = (if p' = q then Some (FFile tx) else node_at (snd w) p'))"
  using assms
  by (auto simp: write_opened_def node_set_node dest: open_for_writing_SomeD split: option.splits)
    (metis node_set_node open_for_writing_SomeD(2-4))+

lemma edit_steps_success:
  assumes "edit_steps env order ao p srch repl w = (Some res, w')" and "r_status res = ''SUCCESS''"
  shows "\<exists>s r q old. srch = JStr s \<and> repl = JStr r \<and> target_of (snd w) (env_cwd env) p = Some q \<and> q \<noteq> [] \<and>
    node_at (snd w) q = Some (FFile old) \<and> py_contains s (universal_newlines old) \<and>
    (\<forall>p'. node_at (snd w') p' =
       (if p' = q then Some (FFile (replace_first s r (universal_newlines old))) else node_at (snd w) p'))"
proof -
  obtain pre w1 where cap: "capture_snapshot env p w = (pre, w1)" by (cases "capture_snapshot env p w") auto
  then have w1: "snd w1 = snd w" by (rule snd_capture)
  obtain fc s where rd: "read_text (env_may_read env) (snd w) (env_cwd env) p = Some fc" and s: "text_of srch = Some s"
    and found: "py_contains s fc"
    using assms by (auto simp: edit_steps_def cap w1 split: option.splits if_splits)
  obtain b w2 where wr: "write_opened env p (map_option (\<lambda>r. replace_first s r fc) (text_of repl)) w1 = (b, w2)"
    by (metis surj_pair)
  have b: "b" and w': "snd w' = snd w2"
    using assms by (auto simp: edit_steps_def cap w1 rd s found wr split: bool.splits prod.splits if_splits dest: snd_note)
  have "write_opened env p (map_option (\<lambda>r. replace_first s r fc) (text_of repl)) w1 = (True, w2)" using wr b by simp
  from write_opened_content [OF this] obtain q tx where
    q: "map_option (\<lambda>r. replace_first s r fc) (text_of repl) = Some tx" "target_of (snd w) (env_cwd env) p = Some q"
      "q \<noteq> []" "\<forall>p'. node_at (snd w2) p' = (if p' = q then Some (FFile tx) else node_at (snd w) p')"
    unfolding w1 by blast
  from q(1) obtain r where r: "text_of repl = Some r" "tx = replace_first s r fc" by auto
  from rd q(2) obtain old where old: "node_at (snd w) q = Some (FFile old)" "fc = universal_newlines old"
    by (auto simp: read_text_def split: option.splits fnode.splits if_splits)
  have "srch = JStr s" "repl = JStr r" using s r(1) by (simp_all add: text_of_Some)
  with q old r found w' show ?thesis
    by (intro exI [of _ s] exI [of _ r] exI [of _ q] exI [of _ old]) simp
qed

text \<open>C10: An edit that succeeds replaces the first occurrence of its search text, and nothing else. Its path leads to a
  file inside the workspace; the text of that file, read with universal newlines, splits into a part \<open>a\<close>, the search
  text and a part \<open>b\<close>, where the search text begins nowhere before; the file then holds \<open>a\<close>, the replacement and \<open>b\<close>; and
  every other node of the tree is as before.\<close>

theorem edit_replaces_first:
  assumes "plain_cwd env" and "execute_edit env order ao e w = (r, w')" and "r_status r = ''SUCCESS''"
  shows "\<exists>s repl q old a b. json_or (arg_of ''search'' e) (arg_of ''before'' e) = JStr s \<and>
    json_or (arg_of ''replace'' e) (arg_of ''after'' e) = JStr repl \<and>
    in_workspace env (snd w) q \<and> node_at (snd w) q = Some (FFile old) \<and>
    universal_newlines old = a @ s @ b \<and> (\<forall>i < length a. \<not> prefix s (drop i (universal_newlines old))) \<and>
    (\<forall>p. node_at (snd w') p = (if p = q then Some (FFile (a @ repl @ b)) else node_at (snd w) p))"
proof -
  define p where "p = or_empty (te_path e)"
  define srch where "srch = json_or (arg_of ''search'' e) (arg_of ''before'' e)"
  define rep where "rep = json_or (arg_of ''replace'' e) (arg_of ''after'' e)"
  have "edit_guard env (snd w) p srch rep = None"
    using assms(2,3)
    by (cases "edit_guard env (snd w) p srch rep")
      (auto simp: execute_edit_def Let_def p_def [symmetric] srch_def [symmetric] rep_def [symmetric] edit_guard_def
        split: if_splits)
  moreover obtain res w2 where steps: "edit_steps env order ao p srch rep w = (res, w2)" by (metis surj_pair)
  ultimately have res: "res = Some r" "w2 = w'" and safe: "is_safe_path env (snd w) p"
    using assms(2,3)
    by (cases res; auto simp: execute_edit_def Let_def p_def [symmetric] srch_def [symmetric] rep_def [symmetric]
        edit_guard_def split: if_splits)+
  from edit_steps_success [OF steps [unfolded res] assms(3)] obtain s r' q old where
    e: "srch = JStr s" "rep = JStr r'" "target_of (snd w) (env_cwd env) p = Some q" "node_at (snd w) q = Some (FFile old)"
      "py_contains s (universal_newlines old)"
      "\<forall>p'. node_at (snd w') p' =
         (if p' = q then Some (FFile (replace_first s r' (universal_newlines old))) else node_at (snd w) p')" by blast
  have "in_workspace env (snd w) q"
    using safe_path_inside [OF assms(1) safe] target_realpath [OF e(3)] by (auto simp: in_workspace_def)
  with e replace_first_split [OF e(5), of r'] show ?thesis unfolding srch_def rep_def by metis
qed


subsection \<open>Deltas\<close>

text \<open>
  Nothing ever fills the earlier states that \<open>compute_delta\<close> looks up, so writing and editing record no delta.
\<close>

lemma capture_keeps: "capture_snapshot env p w = (s, w') \<Longrightarrow>
    ex_pending (fst w') = ex_pending (fst w) \<and> ex_pre_state (fst w') = ex_pre_state (fst w)"
  by (auto simp: capture_snapshot_def split: option.splits)

lemma note_delta_nothing:
  assumes "ex_pre_state (fst w) = []" and "note_delta env order ao p pre w = (b, w')"
  shows "ex_pending (fst w') = ex_pending (fst w) \<and> ex_pre_state (fst w') = []"
proof -
  obtain post w1 where cap: "capture_snapshot env p w = (post, w1)" by (metis surj_pair)
  from capture_keeps [OF cap] assms show ?thesis
    by (auto simp: note_delta_def cap compute_delta_def split: if_splits option.splits)
qed

lemma write_opened_keeps: "write_opened env p c w = (b, w') \<Longrightarrow> fst w' = fst w"
  by (auto simp: write_opened_def split: option.splits)

lemma write_records_no_delta:
  assumes "ex_pre_state (fst w) = []" and "write_steps env order ao p content w = (b, w')"
  shows "ex_pending (fst w') = ex_pending (fst w) \<and> ex_pre_state (fst w') = []"
proof -
  obtain pre w1 where cap: "capture_snapshot env p w = (pre, w1)" by (metis surj_pair)
  obtain ok t where dirs: "make_dirs (env_may_write env) (snd w1) (rev (butlast (abspath (env_cwd env) p))) = (ok, t)"
    by (metis surj_pair)
  obtain b1 w2 where wr: "write_opened env p content (fst w1, t) = (b1, w2)" by (metis surj_pair)
  have "ex_pre_state (fst w2) = []" "ex_pending (fst w2) = ex_pending (fst w)"
    using capture_keeps [OF cap] write_opened_keeps [OF wr] assms(1) by simp_all
  moreover have "w' = (fst w1, t) \<or> w' = w2 \<or> note_delta env order ao p pre w2 = (b, w')"
    using assms(2) by (cases ok; cases b1) (simp_all add: write_steps_def cap dirs wr)
  ultimately show ?thesis
    using note_delta_nothing [of w2 env order ao p pre b w'] capture_keeps [OF cap] assms(1) by auto
qed

subsection \<open>Examples, and what goes wrong\<close>

definition tool_env :: exec_env where
  "tool_env = \<lparr>env_cwd = [''ws''], env_root = ''/ws'', env_may_read = (\<lambda>_. True), env_may_write = (\<lambda>_. True),
     env_error = (\<lambda>_. ''error''), env_sift = (\<lambda>_ _. None), env_fint = (\<lambda>_. None), env_command = (\<lambda>_ t. (None, t))\<rparr>"

definition sample_tree :: ftree where
  "sample_tree = [([''ws''], FDir), ([''ws'', ''a.py''], FFile (''x = 1'' @ [newline])), ([''etc''], FDir),
     ([''etc'', ''conf''], FFile ''c''), ([''ws'', ''out''], FLink ''/etc''), ([''ws'', ''d1''], FDir), ([''ws'', ''d1'', ''d2''], FDir),
     ([''ws'', ''in''], FLink ''d1/d2'')]"

definition tool_call :: "string \<Rightarrow> string \<Rightarrow> json dict \<Rightarrow> tool_event" where
  "tool_call name p args = \<lparr>te_id = ''t'', te_name = name, te_args = args, te_path = Some p, te_command = None, te_query = None\<rparr>"

definition tool_batch :: "tool_event list" where
  "tool_batch = [tool_call ''write'' ''out/conf'' [(''content'', JStr ''bad'')],
                 tool_call ''write'' ''in/b.py'' [(''content'', JStr ''new'')]]"

lemma plain_sample: "plain_cwd tool_env"
  by (simp add: plain_cwd_def tool_env_def good_name_def slash_def)

definition batch_tree :: ftree where
  "batch_tree = snd (snd (snd (execute_tool_events_batch (\<lambda>_. None)
     (execute_normalized_tool tool_env (\<lambda>ks. ks) (\<lambda>ks. ks)) tool_batch None (new_executor, sample_tree))))"

lemma batch_tree_eval:
  "batch_tree = sample_tree @ [([''ws'', ''d1'', ''d2'', ''b.py''], FFile ''new'')]"
  by code_simp

theorem batch_stays_in_workspace_witness:
  "node_at batch_tree [''ws'', ''d1'', ''d2'', ''b.py''] \<noteq> node_at sample_tree [''ws'', ''d1'', ''d2'', ''b.py''] \<and>
   (\<exists>ws. realpath sample_tree [''ws''] ''/ws'' = Some ws \<and> prefix ws [''ws'', ''d1'', ''d2'', ''b.py''])"
proof -
  let ?p = "[''ws'', ''d1'', ''d2'', ''b.py''] :: fpath"
  have changed: "node_at batch_tree ?p \<noteq> node_at sample_tree ?p" and no_dir: "node_at batch_tree ?p \<noteq> Some FDir"
    by code_simp+
  have names: "\<forall>e \<in> set tool_batch. te_name e \<noteq> ''run''" by (simp add: tool_batch_def tool_call_def)
  obtain r session x where run: "execute_tool_events_batch (\<lambda>_. None)
      (execute_normalized_tool tool_env (\<lambda>ks. ks) (\<lambda>ks. ks)) tool_batch None (new_executor, sample_tree)
      = (r, session, x, batch_tree)"
    unfolding batch_tree_def by (metis prod.collapse)
  from batch_stays_in_workspace [OF plain_sample names run changed] no_dir changed
  show ?thesis by (auto simp: tool_env_def)
qed

theorem read_shows_workspace_file_witness:
  "\<exists>q old. in_workspace tool_env sample_tree q \<and> node_at sample_tree q = Some (FFile old)"
proof -
  have "r_status (execute_read tool_env (tool_call ''read'' ''a.py'' []) (new_executor, sample_tree)) = ''SUCCESS''"
    by code_simp
  from read_shows_workspace_file [OF plain_sample this] show ?thesis by auto
qed

definition edit_call :: tool_event where
  "edit_call = tool_call ''edit'' ''a.py'' [(''search'', JStr ''1''), (''replace'', JStr ''2'')]"

theorem edit_replaces_first_witness:
  "\<exists>q old a b t. in_workspace tool_env sample_tree q \<and> node_at sample_tree q = Some (FFile old) \<and>
     universal_newlines old = a @ ''1'' @ b \<and> node_at t q = Some (FFile (a @ ''2'' @ b))"
proof -
  obtain r w' where run: "execute_edit tool_env (\<lambda>ks. ks) (\<lambda>ks. ks) edit_call (new_executor, sample_tree) = (r, w')"
    by (metis surj_pair)
  have "r_status (fst (execute_edit tool_env (\<lambda>ks. ks) (\<lambda>ks. ks) edit_call (new_executor, sample_tree))) = ''SUCCESS''"
    by code_simp
  then have ok: "r_status r = ''SUCCESS''" by (simp add: run)
  have args: "json_or (arg_of ''search'' edit_call) (arg_of ''before'' edit_call) = JStr ''1''"
    "json_or (arg_of ''replace'' edit_call) (arg_of ''after'' edit_call) = JStr ''2''" by code_simp+
  obtain q old a b where "in_workspace tool_env sample_tree q" "node_at sample_tree q = Some (FFile old)"
    "universal_newlines old = a @ ''1'' @ b" "\<forall>p. node_at (snd w') p = (if p = q then Some (FFile (a @ ''2'' @ b))
       else node_at sample_tree p)"
    using edit_replaces_first [OF plain_sample run ok] unfolding args by auto
  then show ?thesis by (metis (full_types))
qed

text \<open>
  A replacement that is no text is found out only when the file has been opened for writing: the tool reports an error
  and the file is empty. The same happens to a file that is written with a content that is no text.
\<close>

lemma failed_edit_empties_file:
  "let e = tool_call ''edit'' ''a.py'' [(''search'', JStr ''1''), (''replace'', JInt 2)];
       (r, x, t) = execute_edit tool_env (\<lambda>ks. ks) (\<lambda>ks. ks) e (new_executor, sample_tree)
   in r_status r = ''ERROR'' \<and> node_at t [''ws'', ''a.py''] = Some (FFile [])"
  by code_simp

lemma failed_write_empties_file:
  "let e = tool_call ''write'' ''a.py'' [(''content'', JInt 2)];
       (r, x, t) = execute_write tool_env (\<lambda>ks. ks) (\<lambda>ks. ks) e (new_executor, sample_tree)
   in r_status r = ''ERROR'' \<and> node_at t [''ws'', ''a.py''] = Some (FFile [])"
  by code_simp

text \<open>
  The directories of a written file are made along the path without its links resolved, which may lie outside the
  workspace although the file itself does not.
\<close>

lemma directory_made_outside:
  "let e = tool_call ''write'' ''in/../../x/f'' [(''content'', JStr ''c'')];
       (r, x, t) = execute_write tool_env (\<lambda>ks. ks) (\<lambda>ks. ks) e (new_executor, sample_tree)
   in r_status r = ''ERROR'' \<and> node_at sample_tree [''x''] = None \<and> node_at t [''x''] = Some FDir"
  by code_simp

text \<open>An edit cannot delete: the empty replacement counts as missing.\<close>

lemma empty_replacement_refused:
  "r_status (fst (execute_edit tool_env (\<lambda>ks. ks) (\<lambda>ks. ks)
      (tool_call ''edit'' ''a.py'' [(''search'', JStr ''1''), (''replace'', JStr [])]) (new_executor, sample_tree))) = ''ERROR''"
  by code_simp

text \<open>An \<open>rm\<close> of a directory that holds the workspace passes the check, which only refuses the workspace itself.\<close>

lemma parent_removal_accepted:
  "is_safe_rm (tool_env\<lparr>env_root := ''/home/ws''\<rparr>) [([''home''], FDir), ([''home'', ''ws''], FDir)] ''rm -rf /home''"
  by code_simp

end
