(* ===== verification/BehaviorSignals.thy ===== *)
theory BehaviorSignals
  imports SignalRegistry "HOL-Library.Tree"
begin

section \<open>The registry of behaviour signals\<close>

text \<open>
  Models \<open>src/tok/runtime/_signal_definitions.py\<close>, the table of the signals that diagnostics and release gates read, and
  \<open>src/tok/runtime/signals.py\<close>, the registry over it and the sums by category.
\<close>

subsection \<open>Definitions of signals\<close>

record signal_definition =
  sd_name :: string
  sd_category :: string
  sd_severity :: string
  sd_label :: string
  sd_affects_health :: bool
  sd_release_critical :: bool

definition VALID_CATEGORIES :: "string list" where
  "VALID_CATEGORIES = [''fallback'', ''recovery'', ''provider_safety'', ''evidence_safety'', ''compression'', ''session'', ''trace'']"

definition VALID_SEVERITIES :: "string list" where
  "VALID_SEVERITIES = [''info'', ''warning'', ''critical'']"

definition signal_row :: "string \<Rightarrow> string \<Rightarrow> string \<Rightarrow> string \<Rightarrow> bool \<Rightarrow> bool \<Rightarrow> signal_definition" where
  "signal_row name cat sev label health release =
     \<lparr>sd_name = name, sd_category = cat, sd_severity = sev, sd_label = label,
      sd_affects_health = health, sd_release_critical = release\<rparr>"

text \<open>The check of \<open>__post_init__\<close>: a row outside the valid categories or severities raises.\<close>

definition check_signal :: "signal_definition \<Rightarrow> signal_definition py" where
  "check_signal s =
     (if sd_category s \<notin> set VALID_CATEGORIES then Inl ValueErrorRaised
      else if sd_severity s \<notin> set VALID_SEVERITIES then Inl ValueErrorRaised else Inr s)"

subsection \<open>The table\<close>

definition signals_1 :: "signal_definition list" where
  "signals_1 = [
     signal_row ''tok_fallback_activated'' ''fallback'' ''warning''
       ''Tok fallback activated'' True True,
     signal_row ''baseline_only_session'' ''fallback'' ''warning''
       ''Baseline-only session'' True True,
     signal_row ''non_tok_response'' ''fallback'' ''warning''
       ''Non-Tok response'' True True,
     signal_row ''fail_open_compat_response'' ''fallback'' ''warning''
       ''Compatibility fallback'' True True,
     signal_row ''malformed_tok_response'' ''fallback'' ''warning''
       ''Malformed Tok response'' True True,
     signal_row ''malformed_tok_hybrid_tool'' ''fallback'' ''warning''
       ''Malformed hybrid tool response'' True True,
     signal_row ''malformed_tok_non_inverted_msg'' ''fallback'' ''warning''
       ''Malformed non-inverted message'' True True,
     signal_row ''malformed_tok_markdown_fallback'' ''fallback'' ''warning''
       ''Markdown fallback response'' True True,
     signal_row ''malformed_tok_bad_header'' ''fallback'' ''warning''
       ''Malformed Tok header'' True True,
     signal_row ''request_policy_escalations'' ''recovery'' ''info''
       ''Request policy escalations'' False True,
     signal_row ''request_policy_deescalations'' ''recovery'' ''info''
       ''Request policy deescalations'' False True,
     signal_row ''request_policy_reason_stream_recovery'' ''recovery'' ''info''
       ''Stream recovery policy hold'' False True,
     signal_row ''request_policy_reason_tool_recovery'' ''recovery'' ''info''
       ''Tool recovery policy hold'' False True,
     signal_row ''request_policy_reason_structured_tool_loop'' ''recovery'' ''info''
       ''Structured tool-loop policy hold'' False True,
     signal_row ''request_policy_held_by_recovery'' ''recovery'' ''info''
       ''Policy held by recovery'' False True,
     signal_row ''request_policy_recovery_sticky_continuations'' ''recovery'' ''info''
       ''Sticky recovery continuations'' False True,
     signal_row ''stream_recovery_started'' ''recovery'' ''info''
       ''Stream recovery started'' False True,
     signal_row ''stream_recovery_retry'' ''recovery'' ''info''
       ''Stream recovery retry'' False True,
     signal_row ''stream_recovery_empty_success'' ''recovery'' ''info''
       ''Empty stream recovered'' False True,
     signal_row ''stream_recovery_read_error'' ''recovery'' ''info''
       ''Stream read error recovered'' False True,
     signal_row ''stream_recovery_success_text'' ''recovery'' ''info''
       ''Stream recovered as text'' False True,
     signal_row ''stream_recovery_success_tool_use'' ''recovery'' ''info''
       ''Stream recovered as tool use'' False True]"

definition signals_2 :: "signal_definition list" where
  "signals_2 = [
     signal_row ''stream_recovery_fallback'' ''recovery'' ''warning''
       ''Stream recovery fallback'' True True,
     signal_row ''tok_bridge_provider_sensitive_degraded_to_provider_safe'' ''provider_safety'' ''warning''
       ''Provider-sensitive request degraded safely'' True True,
     signal_row ''tok_bridge_provider_sensitive_blocked_local'' ''provider_safety'' ''warning''
       ''Provider-sensitive request blocked locally'' True True,
     signal_row ''tok_bridge_provider_pairing_risk_detected'' ''provider_safety'' ''warning''
       ''Provider pairing risk detected'' True True,
     signal_row ''fail_open_retry_upstream_pairing_disagreement'' ''provider_safety'' ''warning''
       ''Upstream pairing disagreement'' True True,
     signal_row ''tok_bridge_assistant_tool_use_text_interleaving_blocked'' ''provider_safety'' ''warning''
       ''Assistant tool/text interleaving blocked'' True True,
     signal_row ''tok_bridge_invalid_tool_history_blocked'' ''provider_safety'' ''warning''
       ''Invalid tool history blocked'' True True,
     signal_row ''evidence_exact_observed'' ''evidence_safety'' ''info''
       ''Exact evidence observed'' False True,
     signal_row ''evidence_first_exact_observed'' ''evidence_safety'' ''info''
       ''First exact evidence observed'' False True,
     signal_row ''evidence_non_exact_reference_emitted'' ''evidence_safety'' ''info''
       ''Non-exact evidence reference emitted'' False True,
     signal_row ''evidence_non_exact_summary_emitted'' ''evidence_safety'' ''info''
       ''Non-exact evidence summary emitted'' False True,
     signal_row ''evidence_non_exact_skeleton_emitted'' ''evidence_safety'' ''info''
       ''Non-exact evidence skeleton emitted'' False True,
     signal_row ''evidence_exact_reacquisition_required'' ''evidence_safety'' ''info''
       ''Exact evidence reacquisition required'' False True,
     signal_row ''evidence_exact_reacquisition_satisfied'' ''evidence_safety'' ''info''
       ''Exact evidence reacquisition satisfied'' False True,
     signal_row ''evidence_compression_blocked_for_safety'' ''evidence_safety'' ''info''
       ''Evidence compression blocked for safety'' False True,
     signal_row ''evidence_resolver_cache_stored'' ''evidence_safety'' ''info''
       ''Exact evidence stored in resolver cache'' False True,
     signal_row ''evidence_tool_result_compression_skipped'' ''evidence_safety'' ''info''
       ''Tool-result compression skipped for evidence safety'' False True,
     signal_row ''evidence_history_compression_skipped'' ''evidence_safety'' ''info''
       ''History compression skipped for evidence safety'' False True,
     signal_row ''processing_error'' ''fallback'' ''warning''
       ''Bridge processing error'' True True,
     signal_row ''critical_system_error'' ''fallback'' ''critical''
       ''Critical system error'' True True,
     signal_row ''data_structure_error'' ''fallback'' ''warning''
       ''Data structure error'' True True]"

definition signals_3 :: "signal_definition list" where
  "signals_3 = [
     signal_row ''json_decode_error'' ''fallback'' ''warning''
       ''JSON decode error'' True True,
     signal_row ''unexpected_error'' ''fallback'' ''warning''
       ''Unexpected bridge error'' True True,
     signal_row ''streaming_error_retry'' ''fallback'' ''warning''
       ''Streaming error with retry'' True True,
     signal_row ''stream_buffer_read_error'' ''fallback'' ''warning''
       ''Stream buffer read error'' True True,
     signal_row ''tok_fail_open_retry'' ''fallback'' ''warning''
       ''Tok fail-open retry'' True True,
     signal_row ''tok_fallback_zero_compression_revert'' ''fallback'' ''warning''
       ''Zero-compression revert to baseline'' True True,
     signal_row ''stream_recovery_loop_broken'' ''recovery'' ''warning''
       ''Stream recovery loop broken'' True True,
     signal_row ''stream_recovery_retry_exception'' ''recovery'' ''warning''
       ''Stream recovery retry exception'' True True,
     signal_row ''stream_recovery_history_floor_applied'' ''recovery'' ''info''
       ''Stream recovery history floor applied'' False False,
     signal_row ''stream_recovery_history_floor_kept_context'' ''recovery'' ''info''
       ''Stream recovery kept context on floor'' False False,
     signal_row ''stream_recovery_history_floor_noop'' ''recovery'' ''info''
       ''Stream recovery history floor noop'' False False,
     signal_row ''stream_recovery_history_floor_tool_result_compression_skipped'' ''recovery'' ''info''
       ''Stream recovery history floor: tool-result compression skipped'' False False,
     signal_row ''stream_recovery_original_empty_call'' ''recovery'' ''warning''
       ''Stream recovery: original empty-stream call billed'' False False,
     signal_row ''stream_recovery_usage'' ''recovery'' ''info''
       ''Stream recovery usage recorded'' False False,
     signal_row ''stream_empty_after_success'' ''recovery'' ''warning''
       ''Stream empty after apparent success'' True True,
     signal_row ''tok_bridge_pairing_degraded_to_provider_safe'' ''provider_safety'' ''warning''
       ''Bridge pairing degraded to provider-safe'' True True,
     signal_row ''tok_bridge_thinking_mutation_degraded_to_provider_safe'' ''provider_safety'' ''warning''
       ''Thinking mutation degraded to provider-safe'' True True,
     signal_row ''tok_bridge_thinking_mutation_unrestored'' ''provider_safety'' ''warning''
       ''Thinking mutation not restored'' True True,
     signal_row ''tok_bridge_preflight_failed_local'' ''provider_safety'' ''warning''
       ''Bridge preflight failed locally'' True True]"

definition signals_4 :: "signal_definition list" where
  "signals_4 = [
     signal_row ''tok_bridge_preflight_rejected'' ''provider_safety'' ''warning''
       ''Bridge preflight rejected'' True True,
     signal_row ''prompt_caching_message_cache_reduced'' ''provider_safety'' ''info''
       ''Message-level prompt cache topology changed (non-blocking)'' False True,
     signal_row ''tok_bridge_prepared_pairing_rejected_local'' ''provider_safety'' ''warning''
       ''Prepared pairing rejected locally'' True True,
     signal_row ''tok_bridge_tool_history_pairing_repaired'' ''provider_safety'' ''info''
       ''Tool history pairing repaired'' False True,
     signal_row ''tok_bridge_tool_history_repaired'' ''provider_safety'' ''info''
       ''Tool history repaired'' False True,
     signal_row ''tok_compression_worked_before_pairing_degraded'' ''provider_safety'' ''warning''
       ''Compression worked but pairing later degraded'' True True,
     signal_row ''tok_history_pairing_safety_degraded'' ''provider_safety'' ''warning''
       ''History pairing safety degraded'' True True,
     signal_row ''tok_release_blocking_thinking_mutation'' ''provider_safety'' ''critical''
       ''Release-blocking thinking mutation'' True True,
     signal_row ''preflight_block_rewritten_payload'' ''provider_safety'' ''info''
       ''Preflight block rewrote payload'' False True,
     signal_row ''request_policy_forced_baseline'' ''session'' ''warning''
       ''Request policy forced to baseline'' True True,
     signal_row ''request_policy_natural_first'' ''session'' ''info''
       ''Request policy: natural-first'' False False,
     signal_row ''request_policy_tool_compatible'' ''session'' ''info''
       ''Request policy: tool-compatible'' False False,
     signal_row ''request_policy_effective_tool_compatible'' ''session'' ''info''
       ''Effective request policy: tool-compatible'' False False,
     signal_row ''request_policy_effective_natural_first'' ''session'' ''info''
       ''Effective request policy: natural-first'' False False,
     signal_row ''request_policy_transition_to_tool_compatible'' ''session'' ''info''
       ''Policy transition to tool-compatible'' False False,
     signal_row ''request_policy_transition_to_natural_first'' ''session'' ''info''
       ''Policy transition to natural-first'' False False,
     signal_row ''request_policy_transition_unchanged'' ''session'' ''info''
       ''Policy transition unchanged'' False False,
     signal_row ''request_policy_requested_tool_compatible'' ''session'' ''info''
       ''Requested policy: tool-compatible'' False False,
     signal_row ''request_policy_requested_non_tool_compatible'' ''session'' ''info''
       ''Requested policy: non-tool-compatible'' False False,
     signal_row ''request_policy_requested_natural_first_effective_tool_compatible'' ''session'' ''info''
       ''Natural-first requested but tool-compatible effective'' False False]"

definition signals_5 :: "signal_definition list" where
  "signals_5 = [
     signal_row ''request_policy_recovery_cooldown_suppressed'' ''session'' ''info''
       ''Policy recovery cooldown suppressed'' False False,
     signal_row ''request_policy_interleaving_downgrades'' ''session'' ''info''
       ''Policy interleaving downgrades'' False False,
     signal_row ''short_session_baseline_mode'' ''session'' ''info''
       ''Short session baseline mode'' False False,
     signal_row ''thinking_forced_non_stream'' ''session'' ''info''
       ''Thinking forced non-streaming'' False False,
     signal_row ''smoothness_streaming_disabled'' ''session'' ''info''
       ''Smoothness streaming disabled'' False False,
     signal_row ''jit_offer_available'' ''session'' ''info''
       ''JIT offer available'' False False,
     signal_row ''jit_offer_context_filtered'' ''session'' ''info''
       ''JIT offer context filtered'' False False,
     signal_row ''repeat_command_suppression_hint_injected'' ''session'' ''info''
       ''Repeat command suppression hint injected'' False False,
     signal_row ''loop_terminated'' ''session'' ''info''
       ''Loop terminated'' False False,
     signal_row ''lossless_task_mode_history_skipped'' ''compression'' ''info''
       ''Lossless task mode: history compression skipped'' False False,
     signal_row ''broad_audit_history_skipped'' ''compression'' ''info''
       ''Broad-audit: history compression skipped'' False False,
     signal_row ''broad_audit_tok_additions_suppressed'' ''compression'' ''info''
       ''Broad-audit: Tok additions suppressed'' False False,
     signal_row ''broad_audit_tool_result_compression_skipped'' ''compression'' ''info''
       ''Broad-audit: tool-result compression skipped'' False False,
     signal_row ''tok_history_compression_skipped'' ''compression'' ''info''
       ''History compression skipped'' False False,
     signal_row ''tok_skip_context_dependency'' ''compression'' ''info''
       ''History compression skipped for context dependency'' False False,
     signal_row ''tok_history_cut_blocked_tool_result'' ''compression'' ''info''
       ''History cut blocked by tool result'' False False,
     signal_row ''tok_history_cut_point_missing'' ''compression'' ''info''
       ''History cut point missing'' False True,
     signal_row ''tok_history_cut_point_missing_with_tools'' ''compression'' ''info''
       ''History cut point missing with tools present'' False True,
     signal_row ''compress_tool_results_bypassed'' ''compression'' ''info''
       ''Tool-result compression bypassed'' False False,
     signal_row ''tool_compatible_compression'' ''compression'' ''info''
       ''Tool-compatible compression applied'' False False]"

definition signals_6 :: "signal_definition list" where
  "signals_6 = [
     signal_row ''tok_context_compression_detected'' ''compression'' ''info''
       ''Context compression detected'' False False,
     signal_row ''tok_prompt_bloat_detected'' ''compression'' ''info''
       ''Prompt bloat detected'' False False,
     signal_row ''tok_prompt_optimized'' ''compression'' ''info''
       ''Prompt optimized'' False False,
     signal_row ''tok_prompt_optimization_blocked'' ''compression'' ''info''
       ''Prompt optimization blocked'' False False,
     signal_row ''tok_prompt_optimization_skipped_bridge'' ''compression'' ''info''
       ''Prompt optimization skipped (bridge)'' False False,
     signal_row ''bridge_history_cut_search_used'' ''compression'' ''info''
       ''History cut extended to search boundary'' False False,
     signal_row ''bridge_history_cut_search_extended'' ''compression'' ''info''
       ''History cut search extended'' False False,
     signal_row ''plan_finalization_turn'' ''compression'' ''info''
       ''Plan finalization turn'' False True,
     signal_row ''plan_finalization_history_skipped'' ''compression'' ''info''
       ''Plan finalization: history compression skipped'' False False,
     signal_row ''plan_finalization_tool_result_compression_skipped'' ''compression'' ''info''
       ''Plan finalization: tool-result compression skipped'' False False,
     signal_row ''context_dependency_turn'' ''compression'' ''info''
       ''Context dependency turn'' False False,
     signal_row ''context_dependency_kind_plan_handoff'' ''compression'' ''info''
       ''Context dependency: plan handoff'' False False,
     signal_row ''context_dependency_protected_suffix_start'' ''compression'' ''info''
       ''Context dependency protected suffix start'' False False,
     signal_row ''context_dependency_slice_preserved'' ''compression'' ''info''
       ''Context dependency slice preserved'' False False,
     signal_row ''context_dependency_fallback_full_history'' ''compression'' ''warning''
       ''Context dependency fallback to full history'' False False,
     signal_row ''context_dependency_history_skipped'' ''compression'' ''info''
       ''Context dependency: history compression skipped'' False False,
     signal_row ''context_dependency_tool_result_compression_skipped'' ''compression'' ''info''
       ''Context dependency: tool-result compression skipped'' False False,
     signal_row ''plan_finalization_tok_overhead_blocked'' ''compression'' ''info''
       ''Plan finalization: Tok overhead blocked'' False False,
     signal_row ''plan_finalization_tool_escalation_suppressed'' ''compression'' ''info''
       ''Plan finalization: tool escalation suppressed'' False False,
     signal_row ''plan_finalization_passthrough'' ''compression'' ''info''
       ''Plan finalization: passthrough'' False False]"

definition signals_7 :: "signal_definition list" where
  "signals_7 = [
     signal_row ''retention_latest_substitution'' ''compression'' ''info''
       ''Retention latest substitution applied'' False False,
     signal_row ''tok_sift_cache_marked_blocks'' ''compression'' ''info''
       ''Sift cache-marked blocks'' False False,
     signal_row ''client_cache_marker_dropped'' ''compression'' ''info''
       ''Client cache marker dropped'' False False,
     signal_row ''answer_ready_turn'' ''evidence_safety'' ''info''
       ''Answer-ready turn'' False True,
     signal_row ''answer_anchor_present'' ''evidence_safety'' ''info''
       ''Answer anchor present'' False True,
     signal_row ''answer_anchor_reacquisition_attempt'' ''evidence_safety'' ''info''
       ''Answer anchor reacquisition attempt'' False True,
     signal_row ''answer_ready_reacquisition_attempt'' ''evidence_safety'' ''info''
       ''Answer-ready reacquisition attempt'' False True,
     signal_row ''exploration_reacquisition_expected'' ''evidence_safety'' ''info''
       ''Exploration reacquisition expected'' False False,
     signal_row ''repair_phase_reacquisition_attempt'' ''evidence_safety'' ''info''
       ''Repair phase reacquisition attempt'' False True,
     signal_row ''benign_reverification_attempt'' ''evidence_safety'' ''info''
       ''Benign reverification attempt'' False False,
     signal_row ''answer_ready_repair_active'' ''evidence_safety'' ''info''
       ''Answer-ready repair active'' False True,
     signal_row ''late_answer_assembly_repair_active'' ''evidence_safety'' ''info''
       ''Late answer assembly repair active'' False True,
     signal_row ''late_answer_followthrough_active'' ''evidence_safety'' ''info''
       ''Late answer followthrough active'' False True,
     signal_row ''late_answer_followthrough_blocked_insufficient_evidence'' ''evidence_safety'' ''warning''
       ''Late answer followthrough blocked: insufficient evidence'' True True,
     signal_row ''answer_anchor_forced_full_resend'' ''evidence_safety'' ''info''
       ''Answer anchor forced full resend'' False True,
     signal_row ''answer_anchor_verified_current'' ''evidence_safety'' ''info''
       ''Answer anchor verified current'' False False,
     signal_row ''answer_anchor_delta_allowed'' ''evidence_safety'' ''info''
       ''Answer anchor delta allowed'' False False,
     signal_row ''answer_ready_exact_evidence_fallback_full_history'' ''evidence_safety'' ''info''
       ''Answer-ready exact evidence: full history fallback'' False True,
     signal_row ''answer_ready_exact_evidence_in_safe_suffix'' ''evidence_safety'' ''info''
       ''Answer-ready exact evidence in safe suffix'' False True,
     signal_row ''answer_ready_exact_search_evidence_history_preserved'' ''evidence_safety'' ''info''
       ''Answer-ready search evidence: history preserved'' False True,
     signal_row ''bad_tool_args_event'' ''session'' ''warning''
       ''Bad tool arguments event'' False True]"

definition signals_8 :: "signal_definition list" where
  "signals_8 = [
     signal_row ''mixed_answer_tool_event'' ''session'' ''info''
       ''Mixed answer+tool event'' False False,
     signal_row ''toolless_fresh_answer_event'' ''session'' ''info''
       ''Toolless fresh answer event'' False False,
     signal_row ''unsupported_tool_event'' ''session'' ''warning''
       ''Unsupported tool event'' False True,
     signal_row ''tool_required_condition_unresolved'' ''session'' ''info''
       ''Tool-required condition unresolved'' False True,
     signal_row ''tool_required_latch_active'' ''session'' ''info''
       ''Tool-required latch active'' False False,
     signal_row ''tool_result_order_repair_non_degrading'' ''session'' ''info''
       ''Tool-result order repaired (non-degrading)'' False False,
     signal_row ''tool_result_cache_hit'' ''compression'' ''info''
       ''Tool-result cache hit'' False False,
     signal_row ''command_result_cache_hit'' ''compression'' ''info''
       ''Command result cache hit'' False False,
     signal_row ''command_result_cacheable_seen'' ''compression'' ''info''
       ''Cacheable command result seen'' False False,
     signal_row ''early_retry_answer_only_satisfied'' ''recovery'' ''info''
       ''Early retry: answer-only satisfied'' False False,
     signal_row ''early_retry_answer_only_failed_tool'' ''recovery'' ''info''
       ''Early retry: answer-only failed (tool expected)'' False False,
     signal_row ''early_retry_tool_only_satisfied'' ''recovery'' ''info''
       ''Early retry: tool-only satisfied'' False False,
     signal_row ''early_retry_tool_only_failed_mixed'' ''recovery'' ''info''
       ''Early retry: tool-only failed (mixed)'' False False,
     signal_row ''early_retry_tool_only_failed_toolless'' ''recovery'' ''info''
       ''Early retry: tool-only failed (toolless)'' False False,
     signal_row ''late_retry_answer_only_satisfied'' ''recovery'' ''info''
       ''Late retry: answer-only satisfied'' False False,
     signal_row ''late_retry_answer_only_failed_tool'' ''recovery'' ''info''
       ''Late retry: answer-only failed (tool expected)'' False False,
     signal_row ''late_retry_tool_only_satisfied'' ''recovery'' ''info''
       ''Late retry: tool-only satisfied'' False False,
     signal_row ''late_retry_tool_only_failed_mixed'' ''recovery'' ''info''
       ''Late retry: tool-only failed (mixed)'' False False,
     signal_row ''late_retry_tool_only_failed_toolless'' ''recovery'' ''info''
       ''Late retry: tool-only failed (toolless)'' False False,
     signal_row ''retry_prompt_supporting_tool_satisfied'' ''recovery'' ''info''
       ''Retry prompt supporting tool satisfied'' False False]"

definition signals_9 :: "signal_definition list" where
  "signals_9 = [
     signal_row ''retry_prompt_supporting_tool_missed'' ''recovery'' ''info''
       ''Retry prompt supporting tool missed'' False False,
     signal_row ''late_answer_followthrough_requested'' ''recovery'' ''info''
       ''Late answer followthrough requested'' False False,
     signal_row ''late_answer_assembly_repair_answer_only'' ''recovery'' ''info''
       ''Late answer assembly repair: answer-only'' False False,
     signal_row ''late_answer_assembly_repair_answer_only_requested'' ''recovery'' ''info''
       ''Late answer assembly repair: answer-only requested'' False False,
     signal_row ''late_answer_assembly_repair_answer_only_resolved'' ''recovery'' ''info''
       ''Late answer assembly repair: answer-only resolved'' False False,
     signal_row ''late_answer_assembly_repair_answer_only_failed'' ''recovery'' ''info''
       ''Late answer assembly repair: answer-only failed'' True True,
     signal_row ''late_answer_assembly_repair_tool_only'' ''recovery'' ''info''
       ''Late answer assembly repair: tool-only'' False False,
     signal_row ''state_resend_reason_answer_ready_forced_full'' ''compression'' ''info''
       ''State resend: answer-ready forced full'' False True,
     signal_row ''state_resend_reason_answer_anchor_present_kept_full'' ''compression'' ''info''
       ''State resend: answer anchor kept full'' False True,
     signal_row ''state_resend_reason_delta_not_smaller'' ''compression'' ''info''
       ''State resend: delta not smaller than full'' False False,
     signal_row ''state_resend_reason_delta_selected'' ''compression'' ''info''
       ''State resend: delta selected'' False False,
     signal_row ''state_resend_reason_full_default'' ''compression'' ''info''
       ''State resend: full (default)'' False False,
     signal_row ''state_resend_reason_history_compression_skipped'' ''compression'' ''info''
       ''State resend: history compression skipped'' False False,
     signal_row ''state_resend_reason_state_verified_current'' ''compression'' ''info''
       ''State resend: state verified current'' False False,
     signal_row ''state_resend_reason_tool_compatible_compression_without_resend_change'' ''compression'' ''info''
       ''State resend: tool-compatible compression without resend change'' False False,
     signal_row ''smoothness_prompt_optimization_active_task'' ''session'' ''info''
       ''Smoothness prompt optimization: active task'' False False,
     signal_row ''smoothness_history_winnowing_active_loop'' ''session'' ''info''
       ''Smoothness: history winnowing active loop'' False False,
     signal_row ''smoothness_guarded_history_winnowing_skipped'' ''session'' ''info''
       ''Smoothness: guarded history winnowing skipped'' False False,
     signal_row ''short_session_history_skipped'' ''compression'' ''info''
       ''Short session: history compression skipped'' False False,
     signal_row ''semantic_dedup_hit'' ''compression'' ''info''
       ''Semantic deduplication hit'' False False]"

definition signals_10 :: "signal_definition list" where
  "signals_10 = [
     signal_row ''stable_payload_validation_failed'' ''provider_safety'' ''warning''
       ''Stable payload validation failed'' True True,
     signal_row ''request_policy_escalation_source_tool_recovery'' ''recovery'' ''info''
       ''Policy escalation source: tool recovery'' False False,
     signal_row ''system_prompt_cache_hint_chars'' ''compression'' ''info''
       ''System prompt static prefix chars under cache_control hint'' False False]"

definition SIGNALS :: "signal_definition list" where
  "SIGNALS = signals_1 @ signals_2 @ signals_3 @ signals_4 @ signals_5 @ signals_6 @ signals_7 @ signals_8 @ signals_9 @ signals_10"

subsection \<open>The registry\<close>

definition SIGNAL_REGISTRY :: "signal_definition dict" where
  "SIGNAL_REGISTRY = foldl (\<lambda>d s. dict_set (sd_name s) s d) [] SIGNALS"

definition signal_definition_of :: "string \<Rightarrow> signal_definition option" where
  "signal_definition_of name = map_of SIGNAL_REGISTRY name"

definition is_registered_signal :: "string \<Rightarrow> bool" where
  "is_registered_signal name = (map_of SIGNAL_REGISTRY name \<noteq> None)"

definition signals_by_category :: "string \<Rightarrow> signal_definition list" where
  "signals_by_category cat = filter (\<lambda>s. sd_category s = cat) SIGNALS"

definition EVIDENCE_SAFETY_SIGNAL_NAMES :: "string list" where
  "EVIDENCE_SAFETY_SIGNAL_NAMES = map sd_name (filter (\<lambda>s. sd_category s = ''evidence_safety'') SIGNALS)"

definition aggregate_signal_category :: "counts \<Rightarrow> string \<Rightarrow> int" where
  "aggregate_signal_category signals cat =
     sum_list (map snd (filter (\<lambda>(name, _). name \<in> set (map sd_name (signals_by_category cat))) signals))"

definition category_step :: "counts \<Rightarrow> string \<times> int \<Rightarrow> counts" where
  "category_step totals entry =
     (case signal_definition_of (fst entry) of
        None \<Rightarrow> totals
      | Some s \<Rightarrow> cadd (sd_category s) (snd entry) totals)"

definition aggregate_registered_categories :: "counts \<Rightarrow> counts" where
  "aggregate_registered_categories signals = foldl category_step [] signals"

definition unregistered_signals :: "counts \<Rightarrow> counts" where
  "unregistered_signals signals = filter (\<lambda>(name, _). \<not> is_registered_signal name) signals"

subsection \<open>The table is sound\<close>

text \<open>The names are told apart by a number each, kept in a search tree that refuses a number it has.\<close>

fun name_weight :: "int \<Rightarrow> int \<Rightarrow> string \<Rightarrow> int" where
  "name_weight a b [] = b"
| "name_weight a b (c # cs) = name_weight (a + of_char c) (b + a + of_char c) cs"

fun add_number :: "int \<Rightarrow> int tree \<Rightarrow> int tree option" where
  "add_number n Leaf = Some (Node Leaf n Leaf)"
| "add_number n (Node l m r) =
     (if n < m then map_option (\<lambda>l'. Node l' m r) (add_number n l)
      else if m < n then map_option (\<lambda>r'. Node l m r') (add_number n r) else None)"

fun add_numbers :: "int list \<Rightarrow> int tree \<Rightarrow> int tree option" where
  "add_numbers [] t = Some t"
| "add_numbers (n # ns) t = (case add_number n t of None \<Rightarrow> None | Some t' \<Rightarrow> add_numbers ns t')"

lemma add_number_set: "add_number n t = Some t' \<Longrightarrow> set_tree t' = insert n (set_tree t)"
  by (induction t arbitrary: t') (auto split: if_splits)

lemma add_number_bst: "add_number n t = Some t' \<Longrightarrow> bst t \<Longrightarrow> bst t'"
  by (induction t arbitrary: t') (auto split: if_splits simp: add_number_set)

lemma add_number_fresh: "add_number n t = Some t' \<Longrightarrow> bst t \<Longrightarrow> n \<notin> set_tree t"
  by (induction t arbitrary: t') (force split: if_splits)+

lemma add_numbers_distinct:
  "add_numbers ns t = Some t' \<Longrightarrow> bst t \<Longrightarrow> distinct ns \<and> set ns \<inter> set_tree t = {}"
proof (induction ns arbitrary: t)
  case (Cons n ns)
  then obtain t1 where t1: "add_number n t = Some t1" "add_numbers ns t1 = Some t'" by (auto split: option.splits)
  from Cons.IH [OF t1(2) add_number_bst [OF t1(1) Cons.prems(2)]] show ?case
    using add_number_fresh [OF t1(1) Cons.prems(2)] by (auto simp: add_number_set [OF t1(1)])
qed simp

lemma signals_valid: "list_all (\<lambda>s. check_signal s = Inr s) SIGNALS"
  by code_simp

lemma weights_added:
  "add_numbers (map (name_weight 0 0) (map sd_name SIGNALS @ map snd STRICT_FAILURE_SIGNAL_MAP)) Leaf \<noteq> None"
  by code_simp

lemma names_distinct: "distinct (map sd_name SIGNALS @ map snd STRICT_FAILURE_SIGNAL_MAP)"
proof -
  obtain t where "add_numbers (map (name_weight 0 0) (map sd_name SIGNALS @ map snd STRICT_FAILURE_SIGNAL_MAP)) Leaf = Some t"
    using weights_added by blast
  from add_numbers_distinct [OF this]
  have "distinct (map (name_weight 0 0) (map sd_name SIGNALS @ map snd STRICT_FAILURE_SIGNAL_MAP))" by simp
  then show ?thesis by (metis distinct_map)
qed

lemma signal_names_distinct: "distinct (map sd_name SIGNALS)"
  using names_distinct by simp

text \<open>The dictionary finds exactly the rows of the table.\<close>

lemma map_of_keyed:
  "map_of (foldl (\<lambda>d s. dict_set (f s) s d) d xs) k =
     (case find (\<lambda>s. f s = k) (rev xs) of None \<Rightarrow> map_of d k | Some s \<Rightarrow> Some s)"
proof (induction xs rule: rev_induct)
  case (snoc x xs)
  then show ?case by (cases "f x = k") auto
qed simp

lemma signal_definition_of_iff:
  "signal_definition_of name = Some s \<longleftrightarrow> s \<in> set SIGNALS \<and> sd_name s = name"
proof
  assume "signal_definition_of name = Some s"
  then show "s \<in> set SIGNALS \<and> sd_name s = name"
    by (auto simp: signal_definition_of_def SIGNAL_REGISTRY_def map_of_keyed find_Some_iff split: option.splits)
      (metis nth_mem set_rev length_rev)
next
  assume s: "s \<in> set SIGNALS \<and> sd_name s = name"
  show "signal_definition_of name = Some s"
  proof (cases "find (\<lambda>s. sd_name s = name) (rev SIGNALS)")
    case None
    then show ?thesis using s by (auto simp: find_None_iff)
  next
    case (Some r)
    then have "r \<in> set SIGNALS" "sd_name r = name"
      by (auto simp: find_Some_iff) (metis nth_mem set_rev length_rev)
    then have "r = s" using s signal_names_distinct by (auto simp: distinct_map inj_on_def)
    then show ?thesis using Some by (simp add: signal_definition_of_def SIGNAL_REGISTRY_def map_of_keyed)
  qed
qed

lemma name_in_category_iff:
  "name \<in> set (map sd_name (signals_by_category cat)) \<longleftrightarrow>
     (case signal_definition_of name of None \<Rightarrow> False | Some s \<Rightarrow> sd_category s = cat)"
proof (cases "signal_definition_of name")
  case None
  then have "\<not> (\<exists>s \<in> set SIGNALS. sd_name s = name)" using signal_definition_of_iff by (metis option.distinct(1))
  then show ?thesis using None by (auto simp: signals_by_category_def)
next
  case (Some s)
  then have s: "s \<in> set SIGNALS" "sd_name s = name" by (simp_all add: signal_definition_of_iff)
  have u: "r = s" if "r \<in> set SIGNALS" "sd_name r = name" for r
    using Some that signal_definition_of_iff [of name r] by simp
  have "name \<in> set (map sd_name (signals_by_category cat)) \<longleftrightarrow>
      (\<exists>r \<in> set SIGNALS. sd_category r = cat \<and> sd_name r = name)"
    by (auto simp: signals_by_category_def)
  also have "\<dots> \<longleftrightarrow> sd_category s = cat" using s u by blast
  finally show ?thesis by (simp add: Some)
qed

subsection \<open>Sums by category\<close>

lemma category_steps_sum:
  "cget cat (foldl category_step totals signals) = cget cat totals + aggregate_signal_category signals cat"
proof (induction signals arbitrary: totals)
  case Nil
  then show ?case by (simp add: aggregate_signal_category_def)
next
  case (Cons e es)
  obtain name n where e: "e = (name, n)" by (cases e)
  show ?case
    using Cons.IH [of "category_step totals e"] name_in_category_iff [of name cat]
    by (simp add: e category_step_def aggregate_signal_category_def split: option.splits)
qed

text \<open>The one pass over the counted signals gives each category the same total as the separate sum over the names the
  table lists under it, for every dictionary of counted signals.\<close>

lemma category_totals_exact:
  "cget cat (aggregate_registered_categories signals) = aggregate_signal_category signals cat"
  by (simp add: aggregate_registered_categories_def category_steps_sum)

lemma registered_category_valid: "signal_definition_of name = Some s \<Longrightarrow> sd_category s \<in> set VALID_CATEGORIES"
  using signals_valid
  by (auto simp: signal_definition_of_iff list_all_iff check_signal_def split: if_splits)

text \<open>Nothing counted is lost: what the seven categories do not hold is unregistered.\<close>

lemma signals_partitioned:
  "(\<Sum>cat\<leftarrow>VALID_CATEGORIES. aggregate_signal_category signals cat) + sum_list (map snd (unregistered_signals signals)) =
     sum_list (map snd signals)"
proof (induction signals)
  case Nil
  then show ?case by (simp add: aggregate_signal_category_def unregistered_signals_def VALID_CATEGORIES_def)
next
  case (Cons e es)
  obtain name n where e: "e = (name, n)" by (cases e)
  have step: "aggregate_signal_category (e # es) cat =
      (case signal_definition_of name of None \<Rightarrow> 0 | Some s \<Rightarrow> if sd_category s = cat then n else 0) +
      aggregate_signal_category es cat" for cat
    using name_in_category_iff [of name cat] by (simp add: e aggregate_signal_category_def split: option.splits)
  show ?case
  proof (cases "signal_definition_of name")
    case None
    then have "\<not> is_registered_signal name" by (simp add: is_registered_signal_def signal_definition_of_def)
    then show ?thesis using Cons.IH None by (simp add: step) (simp add: e unregistered_signals_def)
  next
    case (Some s)
    then have r: "is_registered_signal name" by (simp add: is_registered_signal_def signal_definition_of_def)
    from registered_category_valid [OF Some] have "sd_category s \<in> set VALID_CATEGORIES" .
    then have "(\<Sum>cat\<leftarrow>VALID_CATEGORIES. (if sd_category s = cat then n else 0)) = n"
      by (auto simp: VALID_CATEGORIES_def)
    then show ?thesis using Cons.IH Some r by (simp add: step sum_list_addf) (simp add: e unregistered_signals_def)
  qed
qed

text \<open>The strict failure signals of the bridge are in no category: none of them is in the table.\<close>

lemma strict_failures_unregistered:
  "\<forall>entry \<in> set STRICT_FAILURE_SIGNAL_MAP. \<not> is_registered_signal (snd entry)"
proof -
  have "snd entry \<notin> set (map sd_name SIGNALS)" if "entry \<in> set STRICT_FAILURE_SIGNAL_MAP" for entry
    using names_distinct that by auto
  then show ?thesis
    using signal_definition_of_iff by (fastforce simp: is_registered_signal_def signal_definition_of_def)
qed

end
