(* ===== verification/GatewayCache.thy ===== *)
theory GatewayCache
  imports Canonicalize
begin

section \<open>Cache control, fingerprints and the comparison of request bodies\<close>

text \<open>
  Models \<open>src/tok/gateway/_cache_control.py\<close>, \<open>_fingerprint.py\<close>, \<open>_bridge_comparison.py\<close> and \<open>_request_policy.py\<close>: how the
  gateway counts the cache markers of a request, summarises a request without its text, and reports what the rewriting changed.
  A request body is a JSON dictionary; the headers of a request are pairs of strings in order. \<open>json.loads\<close> is the parameter
  \<open>loads\<close> (\<open>None\<close> when it raises), \<open>sha\<close> and \<open>wire\<close> are those of the canonicalisation.
\<close>

subsection \<open>Cache markers\<close>

fun body_has_cache_control :: "json \<Rightarrow> bool" where
  "body_has_cache_control (JObj d) =
     (map_of d ''cache_control'' \<noteq> None \<or> list_ex (\<lambda>(_, item). body_has_cache_control item) d)"
| "body_has_cache_control (JList xs) = list_ex body_has_cache_control xs"
| "body_has_cache_control _ = False"

fun count_cache_control_entries :: "json \<Rightarrow> int" where
  "count_cache_control_entries (JObj d) =
     (if map_of d ''cache_control'' \<noteq> None then 1 else 0)
     + sum_list (map (\<lambda>(_, item). count_cache_control_entries item) d)"
| "count_cache_control_entries (JList xs) = sum_list (map count_cache_control_entries xs)"
| "count_cache_control_entries _ = 0"

definition has_marker :: "json \<Rightarrow> bool" where
  "has_marker block = (is_dict block \<and> jget ''cache_control'' block \<noteq> None)"

definition count_block :: "json \<Rightarrow> counts \<Rightarrow> counts" where
  "count_block block c =
     (if \<not> has_marker block then c
      else let t = field_strip ''type'' block in
        if t = ''text'' then cadd ''message_text_blocks'' 1 c
        else if t = ''tool_result'' then cadd ''message_tool_result_blocks'' 1 c
        else if t = ''tool_use'' then cadd ''message_tool_use_blocks'' 1 c
        else c)"

definition count_message :: "json \<Rightarrow> counts \<Rightarrow> counts" where
  "count_message message c = (case msg_content message of None \<Rightarrow> c | Some bs \<Rightarrow> fold count_block bs c)"

definition cache_control_counts_for_messages :: "json \<Rightarrow> counts" where
  "cache_control_counts_for_messages messages =
     (let counts = [(''message_text_blocks'', 0), (''message_tool_result_blocks'', 0), (''message_tool_use_blocks'', 0)] in
      case messages of JList ms \<Rightarrow> fold count_message ms counts | _ \<Rightarrow> counts)"

definition cache_control_counts_for_tools :: "json \<Rightarrow> int" where
  "cache_control_counts_for_tools tools =
     (case tools of JList ts \<Rightarrow> int (length (filter has_marker ts)) | _ \<Rightarrow> 0)"

subsection \<open>Fingerprints\<close>

definition get_header_value :: "(string \<times> string) list \<Rightarrow> string \<Rightarrow> string" where
  "get_header_value headers name =
     (case find (\<lambda>(key, _). py_lower key = py_lower name) headers of None \<Rightarrow> '''' | Some (_, value) \<Rightarrow> value)"

record system_print =
  sp_type :: string
  sp_block_count :: int
  sp_text_length :: int
  sp_cache_control_blocks :: int

definition system_print_of :: "string \<Rightarrow> int \<Rightarrow> int \<Rightarrow> int \<Rightarrow> system_print" where
  "system_print_of t n len c =
     \<lparr>sp_type = t, sp_block_count = n, sp_text_length = len, sp_cache_control_blocks = c\<rparr>"

definition system_text_length :: "json \<Rightarrow> int" where
  "system_text_length block =
     (if is_text_block block then int (length (py_str (jget_or ''text'' (JStr '''') block))) else 0)"

text \<open>\<open>system\<close> is the value of the field, \<open>None\<close> when it is missing or null.\<close>

definition system_fingerprint :: "json \<Rightarrow> system_print" where
  "system_fingerprint system =
     (case system of
        JNull \<Rightarrow> system_print_of ''missing'' 0 0 0
      | JStr s \<Rightarrow> system_print_of ''str'' (if s \<noteq> '''' then 1 else 0) (int (length s)) 0
      | JList blocks \<Rightarrow>
          system_print_of ''list'' (int (length blocks))
            (sum_list (map system_text_length (filter is_dict blocks)))
            (int (length (filter has_marker blocks)))
      | other \<Rightarrow> system_print_of (type_name other) 0 (int (length (py_str other))) 0)"

record request_print =
  rp_anthropic_beta :: string
  rp_prompt_caching :: bool
  rp_system :: system_print
  rp_cache_control :: counts

definition fingerprint_counts :: "json \<Rightarrow> counts" where
  "fingerprint_counts body =
     (let system = system_fingerprint (jget_or ''system'' JNull body);
          c0 = cache_control_counts_for_messages (jget_or ''messages'' JNull body);
          c1 = dict_set ''system_blocks'' (sp_cache_control_blocks system) c0;
          c2 = dict_set ''tools'' (cache_control_counts_for_tools (jget_or ''tools'' JNull body)) c1;
          c3 = dict_set ''total''
                 (cget ''message_text_blocks'' c2 + cget ''message_tool_result_blocks'' c2 +
                  cget ''message_tool_use_blocks'' c2 + cget ''system_blocks'' c2 + cget ''tools'' c2) c2;
          known = cget ''system_blocks'' c3 + cget ''message_text_blocks'' c3 +
                  cget ''message_tool_result_blocks'' c3 + cget ''message_tool_use_blocks'' c3 + cget ''tools'' c3
      in dict_set ''other'' (max 0 (cget ''total'' c3 - known)) c3)"

definition request_body_fingerprint :: "(string \<times> string) list \<Rightarrow> json \<Rightarrow> request_print" where
  "request_body_fingerprint headers body =
     (let counts = fingerprint_counts body;
          beta = get_header_value headers ''anthropic-beta''
      in \<lparr>rp_anthropic_beta = (if beta = '''' then ''<unset>'' else beta),
          rp_prompt_caching = (py_contains ''prompt-caching'' beta \<or> 0 < cget ''total'' counts),
          rp_system = system_fingerprint (jget_or ''system'' JNull body),
          rp_cache_control = counts\<rparr>)"

subsection \<open>Response headers\<close>

definition DROP_RESPONSE_HEADERS :: "string list" where
  "DROP_RESPONSE_HEADERS = [''content-encoding'', ''content-length'', ''transfer-encoding'', ''connection'']"

definition safe_headers :: "(string \<times> string) list \<Rightarrow> (string \<times> string) list" where
  "safe_headers headers = filter (\<lambda>(k, _). py_lower k \<notin> set DROP_RESPONSE_HEADERS) headers"

definition TOK_STATE_HEADER :: string where
  "TOK_STATE_HEADER = ''x-tok-state''"

definition tok_state_header_value :: "counts \<Rightarrow> bool \<Rightarrow> string" where
  "tok_state_header_value signals baseline_only =
     (if cget ''tok_fallback_activated'' signals \<noteq> 0 \<or> cget ''tok_fail_open_retry'' signals \<noteq> 0 then ''fail-open''
      else if baseline_only then ''baseline'' else ''compressed'')"

definition apply_tok_state_header :: "(string \<times> string) list \<Rightarrow> counts \<Rightarrow> bool \<Rightarrow> bool \<Rightarrow> (string \<times> string) list" where
  "apply_tok_state_header headers signals baseline_only enabled =
     (if enabled then dict_set TOK_STATE_HEADER (tok_state_header_value signals baseline_only) headers else headers)"

subsection \<open>Material differences\<close>

fun pop_field :: "string \<Rightarrow> json \<Rightarrow> json" where
  "pop_field k (JObj d) = JObj (dict_pop k d)"
| "pop_field k j = j"

definition drop_empty_system :: "json \<Rightarrow> json \<Rightarrow> json" where
  "drop_empty_system body other =
     (if jget ''system'' body = Some (JStr '''') \<and> jget ''system'' other = None then pop_field ''system'' body else body)"

definition canonical_body :: "(string \<Rightarrow> string) \<Rightarrow> (json \<Rightarrow> wire_error list) \<Rightarrow> json \<Rightarrow> json py" where
  "canonical_body sha wire body =
     bind_py (canonicalize_anthropic_bridge_body sha wire body []) (\<lambda>(b, _, _, _). Inr b)"

definition bridge_bodies_materially_differ ::
    "(string \<Rightarrow> string) \<Rightarrow> (json \<Rightarrow> wire_error list) \<Rightarrow> json \<Rightarrow> json \<Rightarrow> bool py" where
  "bridge_bodies_materially_differ sha wire current original =
     (if \<not> is_dict current \<or> \<not> is_dict original then Inr (\<not> py_eq current original)
      else let current_cmp = drop_empty_system current original;
               original_cmp = drop_empty_system original current_cmp
           in bind_py (canonical_body sha wire current_cmp) (\<lambda>c.
              bind_py (canonical_body sha wire original_cmp) (\<lambda>r. Inr (\<not> py_eq c r))))"

definition payloads_materially_differ ::
    "(string \<Rightarrow> string) \<Rightarrow> (json \<Rightarrow> wire_error list) \<Rightarrow> (string \<Rightarrow> json option) \<Rightarrow> string \<Rightarrow> string option \<Rightarrow> bool py" where
  "payloads_materially_differ sha wire loads content original_content =
     (case original_content of
        None \<Rightarrow> Inr False
      | Some orig \<Rightarrow>
          if orig = content then Inr False
          else case (loads content, loads orig) of
                 (Some current, Some original) \<Rightarrow> bridge_bodies_materially_differ sha wire current original
               | _ \<Rightarrow> Inr True)"

subsection \<open>What a rewriting changed\<close>

definition topology_reasons :: "request_print \<Rightarrow> request_print \<Rightarrow> string list" where
  "topology_reasons original current =
     (let oc = rp_cache_control original; cc = rp_cache_control current;
          ot = sp_type (rp_system original); ct = sp_type (rp_system current);
          original_text_or_system = cget ''system_blocks'' oc + cget ''message_text_blocks'' oc;
          current_text_or_system = cget ''system_blocks'' cc + cget ''message_text_blocks'' cc;
          current_tool_or_tools = cget ''message_tool_result_blocks'' cc + cget ''message_tool_use_blocks'' cc + cget ''tools'' cc
      in (if {ot, ct} \<subseteq> {''list'', ''str''} \<and> ot \<noteq> ct then [''system_type_changed''] else [])
         @ (if cget ''total'' cc \<noteq> cget ''total'' oc then [''cache_control_total_changed''] else [])
         @ (if cget ''system_blocks'' cc \<noteq> cget ''system_blocks'' oc then [''system_cache_control_changed''] else [])
         @ (if cget ''message_text_blocks'' cc \<noteq> cget ''message_text_blocks'' oc
            then [''message_text_cache_control_changed''] else [])
         @ (if 0 < original_text_or_system \<and> current_text_or_system = 0 \<and> 0 < current_tool_or_tools
            then [''text_system_cache_control_removed_only_tool_cache_remains''] else []))"

definition removed_cache_control :: "request_print \<Rightarrow> request_print \<Rightarrow> counts" where
  "removed_cache_control original current =
     (let oc = rp_cache_control original; cc = rp_cache_control current in
      [(''system_blocks'', max 0 (cget ''system_blocks'' oc - cget ''system_blocks'' cc)),
       (''message_text_blocks'', max 0 (cget ''message_text_blocks'' oc - cget ''message_text_blocks'' cc))])"

record fingerprint_diff =
  fd_anthropic_beta :: string
  fd_prompt_caching :: bool
  fd_body_materially_differs :: bool
  fd_messages_changed :: bool
  fd_system_changed :: bool
  fd_cache_topology_changed :: bool
  fd_cache_topology_reasons :: "string list"
  fd_removed_text_or_system_cache_control :: bool
  fd_removed_cache_control :: counts
  fd_original :: request_print
  fd_rewritten :: request_print

definition request_fingerprint_diff ::
    "(string \<Rightarrow> string) \<Rightarrow> (json \<Rightarrow> wire_error list) \<Rightarrow> (string \<times> string) list \<Rightarrow> json \<Rightarrow> json \<Rightarrow> fingerprint_diff py" where
  "request_fingerprint_diff sha wire headers current_body original_body =
     (let current = request_body_fingerprint headers current_body;
          original = request_body_fingerprint headers original_body;
          reasons = topology_reasons original current;
          removed = removed_cache_control original current
      in bind_py (bridge_bodies_materially_differ sha wire current_body original_body) (\<lambda>differs.
         Inr \<lparr>fd_anthropic_beta = rp_anthropic_beta current,
              fd_prompt_caching = (rp_prompt_caching original \<or> rp_prompt_caching current),
              fd_body_materially_differs = differs,
              fd_messages_changed =
                (\<not> py_eq (jget_or ''messages'' JNull current_body) (jget_or ''messages'' JNull original_body)),
              fd_system_changed = (rp_system original \<noteq> rp_system current),
              fd_cache_topology_changed = (reasons \<noteq> []),
              fd_cache_topology_reasons = reasons,
              fd_removed_text_or_system_cache_control = list_ex (\<lambda>(_, n). n \<noteq> 0) removed,
              fd_removed_cache_control = removed,
              fd_original = original,
              fd_rewritten = current\<rparr>))"

subsection \<open>The request policy\<close>

definition REQUEST_POLICY_ALIASES :: "string dict" where
  "REQUEST_POLICY_ALIASES =
     [(''legacy'', ''legacy_tool_compatible''), (''legacy_tool_compatible'', ''legacy_tool_compatible''),
      (''tool_compatible'', ''legacy_tool_compatible''), (''tool-compatible'', ''legacy_tool_compatible''),
      (''natural'', ''natural_first''), (''natural_first'', ''natural_first''), (''natural-first'', ''natural_first''),
      (''baseline'', ''forced_baseline''), (''forced_baseline'', ''forced_baseline''),
      (''forced-baseline'', ''forced_baseline'')]"

definition normalize_request_policy :: "string \<Rightarrow> string" where
  "normalize_request_policy value =
     (let normalized = py_lower (py_strip value) in
      if normalized = '''' then ''''
      else case map_of REQUEST_POLICY_ALIASES normalized of None \<Rightarrow> '''' | Some p \<Rightarrow> p)"

text \<open>\<open>env\<close> is the environment of the process.\<close>

definition default_request_policy :: "(string \<Rightarrow> string option) \<Rightarrow> string option \<Rightarrow> string option \<Rightarrow> string" where
  "default_request_policy env tok_mode request_policy =
     (let or_env = (\<lambda>given name dflt. case given of Some v \<Rightarrow> v | None \<Rightarrow> (case env name of Some v \<Rightarrow> v | None \<Rightarrow> dflt));
          mode = py_lower (py_strip (or_env tok_mode ''TOK_MODE'' ''tool-compatible''))
      in if mode = ''baseline'' then ''forced_baseline''
         else let explicit = normalize_request_policy (or_env request_policy ''TOK_REQUEST_POLICY'' '''')
              in if explicit \<noteq> '''' then explicit else ''natural_first'')"

definition request_policy_mode_label :: "string \<Rightarrow> string" where
  "request_policy_mode_label policy =
     (if policy = ''forced_baseline'' then ''baseline''
      else if policy = ''natural_first'' then ''natural-first'' else ''tool-compatible'')"

subsection \<open>The two readings of the markers agree\<close>

lemma count_entries_nonneg [simp]: "0 \<le> count_cache_control_entries v"
  by (induction v rule: count_cache_control_entries.induct) (auto intro!: add_nonneg_nonneg sum_list_nonneg)

lemma entries_sum_nonneg [simp]: "0 \<le> (\<Sum>(_, item)\<leftarrow>d. count_cache_control_entries item)"
  by (induction d) auto

lemma sum_list_pos_iff: "list_all (\<lambda>n. 0 \<le> n) ns \<Longrightarrow> 0 < sum_list ns \<longleftrightarrow> list_ex (\<lambda>n. 0 < n) (ns :: int list)"
proof (induction ns)
  case (Cons n ns)
  then have "0 \<le> sum_list ns" by (auto simp: list_all_iff intro!: sum_list_nonneg)
  then show ?case using Cons by auto
qed simp

text \<open>The walk that looks for a cache marker finds one exactly when the walk that counts them counts at least one.\<close>

lemma marker_found_iff_counted: "body_has_cache_control v \<longleftrightarrow> 0 < count_cache_control_entries v"
proof (induction v rule: body_has_cache_control.induct)
  case (1 d)
  have ih: "body_has_cache_control (snd e) \<longleftrightarrow> 0 < count_cache_control_entries (snd e)" if "e \<in> set d" for e
    using 1 [of e "fst e" "snd e"] that by simp
  have "0 < sum_list (map (\<lambda>(_, item). count_cache_control_entries item) d) \<longleftrightarrow>
      list_ex (\<lambda>n. 0 < n) (map (\<lambda>(_, item). count_cache_control_entries item) d)"
    by (rule sum_list_pos_iff) (auto simp: list_all_iff)
  also have "\<dots> \<longleftrightarrow> list_ex (\<lambda>(_, item). body_has_cache_control item) d"
    by (simp add: list_ex_iff case_prod_beta ih cong: bex_cong)
  finally show ?case using entries_sum_nonneg [of d] by (auto simp del: entries_sum_nonneg)
next
  case (2 xs)
  then show ?case by (simp add: sum_list_pos_iff list_all_iff list_ex_iff)
qed simp_all

subsection \<open>A fingerprint never counts a marker twice\<close>

definition lookup_sum :: "(json \<Rightarrow> int) \<Rightarrow> string list \<Rightarrow> json dict \<Rightarrow> int" where
  "lookup_sum f ks d = sum_list (map (\<lambda>k. case map_of d k of None \<Rightarrow> 0 | Some v \<Rightarrow> f v) ks)"

lemma lookup_sum_Cons:
  "k \<notin> set ks \<Longrightarrow> lookup_sum f ks ((k, v) # d) = lookup_sum f ks d"
  unfolding lookup_sum_def by (rule arg_cong [of _ _ sum_list]) auto

lemma lookup_sum_le:
  assumes "\<And>v. 0 \<le> f v" "distinct ks"
  shows "lookup_sum f ks d \<le> sum_list (map (\<lambda>(_, v). f v) d)"
  using assms(2)
proof (induction d arbitrary: ks)
  case (Cons e d)
  obtain k v where e: "e = (k, v)" by (cases e)
  show ?case
  proof (cases "k \<in> set ks")
    case True
    have "lookup_sum f ks (e # d) = f v + lookup_sum f (remove1 k ks) (e # d)"
      unfolding lookup_sum_def e by (subst sum_list_map_remove1 [OF True]) simp
    also have "lookup_sum f (remove1 k ks) (e # d) = lookup_sum f (remove1 k ks) d"
      using Cons.prems by (simp add: e lookup_sum_Cons)
    also have "\<dots> \<le> sum_list (map (\<lambda>(_, v). f v) d)" using Cons by simp
    finally show ?thesis by (simp add: e)
  next
    case False
    then show ?thesis using Cons.IH [OF Cons.prems] assms(1) [of v] by (simp add: e lookup_sum_Cons)
  qed
qed (simp add: lookup_sum_def sum_list_0 [symmetric] flip: map_replicate_const)

definition block_marks :: "counts \<Rightarrow> int" where
  "block_marks c = cget ''message_text_blocks'' c + cget ''message_tool_result_blocks'' c + cget ''message_tool_use_blocks'' c"

lemma marker_counts: "has_marker b \<Longrightarrow> 1 \<le> count_cache_control_entries b"
  by (cases b) (auto simp: has_marker_def intro!: sum_list_nonneg)

lemma count_block_marks: "block_marks (count_block b c) \<le> block_marks c + count_cache_control_entries b"
  using marker_counts [of b] by (simp add: count_block_def block_marks_def Let_def)

lemma count_blocks_marks:
  "block_marks (fold count_block bs c) \<le> block_marks c + count_cache_control_entries (JList bs)"
proof (induction bs arbitrary: c)
  case (Cons b bs)
  show ?case using Cons.IH [of "count_block b c"] count_block_marks [of b c] by simp
qed simp

lemma field_counts: "jget k j = Some v \<Longrightarrow> count_cache_control_entries v \<le> count_cache_control_entries j"
proof (cases j)
  case (JObj d)
  assume "jget k j = Some v"
  then show ?thesis
    using lookup_sum_le [of count_cache_control_entries "[k]" d] JObj by (simp add: lookup_sum_def)
qed simp_all

lemma count_message_marks: "block_marks (count_message m c) \<le> block_marks c + count_cache_control_entries m"
proof (cases "msg_content m")
  case (Some bs)
  then have "count_cache_control_entries (JList bs) \<le> count_cache_control_entries m"
    by (intro field_counts [of "''content''"]) (simp add: msg_content_Some_iff)
  then show ?thesis using count_blocks_marks [of bs c] Some by (simp add: count_message_def)
qed (simp add: count_message_def)

lemma messages_marks:
  "block_marks (cache_control_counts_for_messages messages) \<le> count_cache_control_entries messages"
proof (cases messages)
  case (JList ms)
  have "block_marks (fold count_message ms c) \<le> block_marks c + count_cache_control_entries (JList ms)" for c
  proof (induction ms arbitrary: c)
    case (Cons m ms)
    show ?case using Cons.IH [of "count_message m c"] count_message_marks [of m c] by simp
  qed simp
  from this [of "[(''message_text_blocks'', 0), (''message_tool_result_blocks'', 0), (''message_tool_use_blocks'', 0)]"]
  show ?thesis by (simp add: JList cache_control_counts_for_messages_def Let_def block_marks_def cget_def)
qed (simp_all add: cache_control_counts_for_messages_def block_marks_def cget_def)

lemma filter_marks: "int (length (filter has_marker bs)) \<le> count_cache_control_entries (JList bs)"
proof (induction bs)
  case (Cons b bs)
  then show ?case using marker_counts [of b] count_entries_nonneg [of b] by (auto simp del: count_entries_nonneg)
qed simp

lemma system_marks: "sp_cache_control_blocks (system_fingerprint system) \<le> count_cache_control_entries system"
  using filter_marks by (cases system) (simp_all add: system_fingerprint_def system_print_of_def)

lemma tools_marks: "cache_control_counts_for_tools tools \<le> count_cache_control_entries tools"
  using filter_marks by (cases tools) (simp_all add: cache_control_counts_for_tools_def)

lemma fingerprint_total:
  "cget ''total'' (fingerprint_counts body) =
     block_marks (cache_control_counts_for_messages (jget_or ''messages'' JNull body)) +
     sp_cache_control_blocks (system_fingerprint (jget_or ''system'' JNull body)) +
     cache_control_counts_for_tools (jget_or ''tools'' JNull body)"
  by (simp add: fingerprint_counts_def Let_def block_marks_def)

text \<open>The total that the fingerprint of a body reports never exceeds the number of cache markers in the body, so no marker
  is counted under two headings.\<close>

lemma fingerprint_total_bounded:
  "cget ''total'' (fingerprint_counts (JObj d)) \<le> count_cache_control_entries (JObj d)"
proof -
  let ?n = "\<lambda>k. count_cache_control_entries (jget_or k JNull (JObj d))"
  have "?n ''messages'' + ?n ''system'' + ?n ''tools'' =
      lookup_sum count_cache_control_entries [''messages'', ''system'', ''tools''] d"
    by (simp add: lookup_sum_def jget_or_def split: option.split)
  also have "\<dots> \<le> sum_list (map (\<lambda>(_, v). count_cache_control_entries v) d)" by (rule lookup_sum_le) simp_all
  also have "\<dots> \<le> count_cache_control_entries (JObj d)" by simp
  finally show ?thesis
    using messages_marks [of "jget_or ''messages'' JNull (JObj d)"] system_marks [of "jget_or ''system'' JNull (JObj d)"]
      tools_marks [of "jget_or ''tools'' JNull (JObj d)"]
    by (simp add: fingerprint_total)
qed

text \<open>The heading \<open>other\<close>, for markers outside the known places, is always zero: the total is the sum over the known ones.\<close>

lemma other_always_zero: "cget ''other'' (fingerprint_counts body) = 0"
  by (simp add: fingerprint_counts_def Let_def)

lemma other_misses_marker:
  "cget ''total'' (fingerprint_counts (JObj [(''metadata'', JObj [(''cache_control'', JNull)])])) = 0 \<and>
     count_cache_control_entries (JObj [(''metadata'', JObj [(''cache_control'', JNull)])]) = 1"
  by (simp add: fingerprint_counts_def Let_def jget_or_def system_fingerprint_def system_print_of_def
      cache_control_counts_for_messages_def cache_control_counts_for_tools_def cget_def)

subsection \<open>Comparing bodies\<close>

lemma drop_empty_system_twice: "drop_empty_system b (drop_empty_system a b) = drop_empty_system b a"
  by (cases a) (auto simp: drop_empty_system_def)

lemma is_dict_drop_empty_system [simp]: "is_dict (drop_empty_system a b) = is_dict a"
  by (cases a) (auto simp: drop_empty_system_def)

text \<open>The comparison does not depend on which body is called the original.\<close>

lemma materially_differ_sym:
  "bridge_bodies_materially_differ sha wire a b = Inr v \<longleftrightarrow> bridge_bodies_materially_differ sha wire b a = Inr v"
proof -
  have eq: "py_eq x y \<longleftrightarrow> py_eq y x" for x y using py_eq_sym by blast
  show ?thesis
  proof (cases "is_dict a \<and> is_dict b")
    case True
    then show ?thesis
      by (cases "canonical_body sha wire (drop_empty_system a b)"; cases "canonical_body sha wire (drop_empty_system b a)")
        (auto simp: bridge_bodies_materially_differ_def drop_empty_system_twice dest: py_eq_sym)
  next
    case False
    then show ?thesis using eq [of a b] by (auto simp: bridge_bodies_materially_differ_def)
  qed
qed

lemma drop_empty_system_self [simp]: "drop_empty_system body body = body"
  by (auto simp: drop_empty_system_def)

lemma same_body_not_different:
  "canonical_body sha wire body = Inr c \<Longrightarrow> is_dict body \<Longrightarrow>
     bridge_bodies_materially_differ sha wire body body = Inr False"
  by (simp add: bridge_bodies_materially_differ_def)

lemma dict_pop_fresh: "map_of d k = None \<Longrightarrow> dict_pop k d = d"
  by (induction d) (auto simp: dict_pop_def split: if_splits)

lemma dict_pop_dict_set: "dict_pop k (dict_set k v d) = dict_pop k d"
  by (induction d) (auto simp: dict_pop_def dict_set_def)

text \<open>An empty system prompt and a missing one are the same.\<close>

lemma empty_system_immaterial:
  assumes "jget ''system'' body = None" "is_dict body" "canonical_body sha wire body = Inr c"
  shows "bridge_bodies_materially_differ sha wire (jset ''system'' (JStr '''') body) body = Inr False"
proof -
  obtain d where d: "body = JObj d" using assms(2) by (cases body) auto
  have "drop_empty_system (jset ''system'' (JStr '''') body) body = body"
    using assms(1) by (simp add: drop_empty_system_def d dict_pop_dict_set dict_pop_fresh)
  then show ?thesis using assms by (simp add: bridge_bodies_materially_differ_def)
qed

subsection \<open>What the report says\<close>

lemma topology_unchanged [simp]: "topology_reasons p p = []"
  by (simp add: topology_reasons_def Let_def)

text \<open>The report on a request that the rewriting left alone says that nothing changed: no material difference, no change of
  the messages, the system prompt or the cache topology, and no removed cache marker.\<close>

lemma unchanged_body_reports_nothing:
  assumes "canonical_body sha wire body = Inr c" "is_dict body"
  shows "\<exists>fd. request_fingerprint_diff sha wire headers body body = Inr fd \<and> \<not> fd_body_materially_differs fd \<and>
    \<not> fd_messages_changed fd \<and> \<not> fd_system_changed fd \<and> \<not> fd_cache_topology_changed fd \<and>
    \<not> fd_removed_text_or_system_cache_control fd"
  using same_body_not_different [OF assms]
  by (simp add: request_fingerprint_diff_def Let_def removed_cache_control_def)

text \<open>The last reason never stands alone, and a removed marker is always a change of the topology.\<close>

lemma removed_reason_not_alone:
  "''text_system_cache_control_removed_only_tool_cache_remains'' \<in> set (topology_reasons p q) \<Longrightarrow>
     ''system_cache_control_changed'' \<in> set (topology_reasons p q) \<or>
     ''message_text_cache_control_changed'' \<in> set (topology_reasons p q)"
  by (auto simp: topology_reasons_def Let_def split: if_splits)

lemma removed_marker_is_topology_change:
  "list_ex (\<lambda>(_, n). n \<noteq> 0) (removed_cache_control p q) \<Longrightarrow> topology_reasons p q \<noteq> []"
  by (auto simp: topology_reasons_def removed_cache_control_def Let_def)

subsection \<open>Policies\<close>

lemma policy_values: "normalize_request_policy v \<in> {'''', ''legacy_tool_compatible'', ''natural_first'', ''forced_baseline''}"
proof -
  have "p \<in> {''legacy_tool_compatible'', ''natural_first'', ''forced_baseline''}"
    if "map_of REQUEST_POLICY_ALIASES x = Some p" for x p
    using map_of_SomeD [OF that] by (auto simp: REQUEST_POLICY_ALIASES_def)
  then show ?thesis by (auto simp: normalize_request_policy_def Let_def split: option.splits)
qed

lemma policy_names_stable:
  "list_all (\<lambda>p. normalize_request_policy p = p) ['''', ''legacy_tool_compatible'', ''natural_first'', ''forced_baseline'']"
  by code_simp

lemma normalize_policy_idempotent: "normalize_request_policy (normalize_request_policy v) = normalize_request_policy v"
  using policy_values [of v] policy_names_stable by auto

lemma default_policy_known:
  "default_request_policy env mode policy \<in> {''legacy_tool_compatible'', ''natural_first'', ''forced_baseline''}"
proof -
  have "normalize_request_policy v \<noteq> '''' \<Longrightarrow>
      normalize_request_policy v \<in> {''legacy_tool_compatible'', ''natural_first'', ''forced_baseline''}" for v
    using policy_values [of v] by simp
  then show ?thesis by (simp add: default_request_policy_def Let_def del: insert_iff) (simp split: option.split)
qed

definition cached_body :: json where
  "cached_body =
     JObj [(''model'', JStr ''m''), (''system'', JStr ''be brief''),
           (''messages'', JList [JObj [(''role'', JStr ''user''),
              (''content'', JList [JObj [(''type'', JStr ''text''), (''text'', JStr ''hi''),
                                         (''cache_control'', JObj [(''type'', JStr ''ephemeral'')])]])]])]"

lemma cached_body_canonical: "canonical_body id (\<lambda>_. []) cached_body = Inr cached_body"
  by code_simp

lemma unchanged_body_reports_nothing_witness:
  "\<exists>fd. request_fingerprint_diff id (\<lambda>_. []) [] cached_body cached_body = Inr fd \<and>
    \<not> fd_body_materially_differs fd \<and> \<not> fd_messages_changed fd \<and> \<not> fd_system_changed fd \<and>
    \<not> fd_cache_topology_changed fd \<and> \<not> fd_removed_text_or_system_cache_control fd"
  by (rule unchanged_body_reports_nothing [OF cached_body_canonical]) (simp add: cached_body_def)

end
