(* ===== verification/PyRegex.thy ===== *)
theory PyRegex
  imports PyText
begin

section \<open>Regular expressions of Python\<close>

text \<open>
  The patterns of the \<open>re\<close> module that the program uses, as a datatype, and what matching them yields. \<open>ends r s (i, gs)\<close>
  lists, in the order in which the backtracking matcher tries them, the positions of \<open>s\<close> at which a match of \<open>r\<close> from \<open>i\<close>
  may end, each with the groups captured on the way; the match that Python finds is the first of the list. On it rest
  \<open>re.match\<close>, \<open>re.search\<close>, \<open>re.fullmatch\<close>, \<open>re.finditer\<close> and \<open>re.sub\<close>.
\<close>

subsection \<open>Patterns\<close>

datatype rx =
    Cls "char \<Rightarrow> bool"
  | Blank
  | Seq rx rx
  | Alt rx rx
  | Rep bool nat "nat option" rx
  | Grp nat rx
  | Look bool rx
  | Bol
  | Eol
  | TextStart
  | TextEnd
  | DollarEnd
  | WordB
  | NotAfter "char \<Rightarrow> bool"

text \<open>
  \<open>Rep greedy least most r\<close> is a repetition, \<open>Look True\<close> and \<open>Look False\<close> are the two lookaheads, \<open>Bol\<close> and \<open>Eol\<close> are \<open>^\<close> and
  \<open>$\<close> under \<open>MULTILINE\<close>, \<open>TextStart\<close>, \<open>TextEnd\<close> and \<open>DollarEnd\<close> are \<open>^\<close>, \<open>\Z\<close> and \<open>$\<close> without it, \<open>WordB\<close> is
  \<open>\b\<close>, and \<open>NotAfter p\<close> is the negative lookbehind \<open>(?<![...])\<close> for one character.
\<close>

definition lit :: "string \<Rightarrow> rx" where
  "lit t = foldr (\<lambda>c r. Seq (Cls (\<lambda>d. d = c)) r) t Blank"

definition lit_nocase :: "string \<Rightarrow> rx" where
  "lit_nocase t = foldr (\<lambda>c r. Seq (Cls (\<lambda>d. lower_char d = lower_char c)) r) t Blank"

definition seqs :: "rx list \<Rightarrow> rx" where
  "seqs rs = foldr Seq rs Blank"

fun alts :: "rx list \<Rightarrow> rx" where
  "alts [] = Cls (\<lambda>_. False)"
| "alts [r] = r"
| "alts (r # rs) = Alt r (alts rs)"

definition star :: "rx \<Rightarrow> rx" where "star r = Rep True 0 None r"
definition plus1 :: "rx \<Rightarrow> rx" where "plus1 r = Rep True 1 None r"
definition maybe :: "rx \<Rightarrow> rx" where "maybe r = Rep True 0 (Some 1) r"
definition lazy_star :: "rx \<Rightarrow> rx" where "lazy_star r = Rep False 0 None r"
definition lazy_plus :: "rx \<Rightarrow> rx" where "lazy_plus r = Rep False 1 None r"

definition dot :: rx where "dot = Cls (\<lambda>c. c \<noteq> newline)"
definition space_rx :: rx where "space_rx = Cls py_space"
definition nonspace_rx :: rx where "nonspace_rx = Cls (\<lambda>c. \<not> py_space c)"
definition digit_rx :: rx where "digit_rx = Cls is_digit"
definition word_rx :: rx where "word_rx = Cls word_char"
definition one_of :: "string \<Rightarrow> rx" where "one_of cs = Cls (\<lambda>c. c \<in> set cs)"
definition none_of :: "string \<Rightarrow> rx" where "none_of cs = Cls (\<lambda>c. c \<notin> set cs)"

lemmas rx_abbrevs = lit_def lit_nocase_def seqs_def star_def plus1_def maybe_def lazy_star_def lazy_plus_def dot_def
  space_rx_def nonspace_rx_def digit_rx_def word_rx_def one_of_def none_of_def

subsection \<open>Matching\<close>

type_synonym groups = "(nat \<times> nat \<times> nat) list"
type_synonym rx_state = "nat \<times> groups"

definition less_one :: "nat option \<Rightarrow> nat option" where
  "less_one m = map_option (\<lambda>k. k - 1) m"

text \<open>\<open>n\<close> is the length of the text; a further round of a repetition has to advance, as the matcher requires.\<close>

function rep :: "bool \<Rightarrow> (rx_state \<Rightarrow> rx_state list) \<Rightarrow> nat \<Rightarrow> nat \<Rightarrow> nat option \<Rightarrow> rx_state \<Rightarrow> rx_state list" where
  "rep g f n (Suc m) most st = concat (map (rep g f n m (less_one most)) (f st))"
| "rep g f n 0 most (i, gs) =
     (let more = (if most = Some 0 then []
                  else concat (map (\<lambda>(j, gs'). if i < j \<and> j \<le> n then rep g f n 0 (less_one most) (j, gs') else [])
                                   (f (i, gs))))
      in if g then more @ [(i, gs)] else (i, gs) # more)"
  by pat_completeness auto
termination
  by (relation "measures [\<lambda>(_, _, _, m, _). m, \<lambda>(_, _, n, _, _, i, _). n - i]") auto

definition word_at :: "string \<Rightarrow> nat \<Rightarrow> bool" where
  "word_at s i = (i < length s \<and> word_char (s ! i))"

primrec ends :: "rx \<Rightarrow> string \<Rightarrow> rx_state \<Rightarrow> rx_state list" where
  "ends (Cls p) s st = (if fst st < length s \<and> p (s ! fst st) then [(Suc (fst st), snd st)] else [])"
| "ends Blank s st = [st]"
| "ends (Seq a b) s st = concat (map (ends b s) (ends a s st))"
| "ends (Alt a b) s st = ends a s st @ ends b s st"
| "ends (Rep g least most r) s st = rep g (ends r s) (length s) least most st"
| "ends (Grp k r) s st = map (\<lambda>(j, gs). (j, (k, fst st, j) # gs)) (ends r s st)"
| "ends (Look b r) s st = (if (ends r s st \<noteq> []) = b then [st] else [])"
| "ends Bol s st = (if fst st = 0 \<or> (fst st \<le> length s \<and> s ! (fst st - 1) = newline) then [st] else [])"
| "ends Eol s st = (if length s \<le> fst st \<or> s ! fst st = newline then [st] else [])"
| "ends TextStart s st = (if fst st = 0 then [st] else [])"
| "ends TextEnd s st = (if length s \<le> fst st then [st] else [])"
| "ends DollarEnd s st =
     (if length s \<le> fst st \<or> (Suc (fst st) = length s \<and> s ! fst st = newline) then [st] else [])"
| "ends WordB s st =
     (if (fst st \<noteq> 0 \<and> word_at s (fst st - 1)) \<noteq> word_at s (fst st) then [st] else [])"
| "ends (NotAfter p) s st =
     (if fst st = 0 \<or> length s < fst st \<or> \<not> p (s ! (fst st - 1)) then [st] else [])"

text \<open>A match is the position where it starts, the position where it ends and the groups, the latest capture first.\<close>

type_synonym match_result = "nat \<times> nat \<times> groups"

definition match_from :: "rx \<Rightarrow> string \<Rightarrow> nat \<Rightarrow> match_result option" where
  "match_from r s i = (case ends r s (i, []) of [] \<Rightarrow> None | (j, gs) # _ \<Rightarrow> Some (i, j, gs))"

definition rx_match :: "rx \<Rightarrow> string \<Rightarrow> match_result option" where
  "rx_match r s = match_from r s 0"

definition rx_fullmatch :: "rx \<Rightarrow> string \<Rightarrow> bool" where
  "rx_fullmatch r s = list_ex (\<lambda>(j, _). j = length s) (ends r s (0, []))"

fun first_some :: "('a \<Rightarrow> 'b option) \<Rightarrow> 'a list \<Rightarrow> 'b option" where
  "first_some f [] = None"
| "first_some f (x # xs) = (case f x of None \<Rightarrow> first_some f xs | Some y \<Rightarrow> Some y)"

definition rx_search :: "rx \<Rightarrow> string \<Rightarrow> match_result option" where
  "rx_search r s = first_some (match_from r s) [0 ..< Suc (length s)]"

definition rx_matches :: "rx \<Rightarrow> string \<Rightarrow> bool" where
  "rx_matches r s = (rx_match r s \<noteq> None)"

definition rx_found :: "rx \<Rightarrow> string \<Rightarrow> bool" where
  "rx_found r s = (rx_search r s \<noteq> None)"

definition between :: "string \<Rightarrow> nat \<Rightarrow> nat \<Rightarrow> string" where
  "between s i j = take (j - i) (drop i s)"

definition group_text :: "string \<Rightarrow> match_result \<Rightarrow> nat \<Rightarrow> string" where
  "group_text s m k = (case map_of (snd (snd m)) k of None \<Rightarrow> [] | Some (a, b) \<Rightarrow> between s a b)"

definition match_text :: "string \<Rightarrow> match_result \<Rightarrow> string" where
  "match_text s m = between s (fst m) (fst (snd m))"

subsection \<open>Bounds of a match\<close>

definition forward :: "nat \<Rightarrow> (rx_state \<Rightarrow> rx_state list) \<Rightarrow> bool" where
  "forward n f = (\<forall>st. fst st \<le> n \<longrightarrow> (\<forall>e \<in> set (f st). fst st \<le> fst e \<and> fst e \<le> n))"

lemma forwardD: "forward n f \<Longrightarrow> e \<in> set (f st) \<Longrightarrow> fst st \<le> n \<Longrightarrow> fst st \<le> fst e \<and> fst e \<le> n"
  unfolding forward_def by blast

declare rep.simps [simp del]

lemma rep_zero_cases:
  assumes "e \<in> set (rep g f n 0 most (i, gs))" "e \<noteq> (i, gs)"
  obtains j gs' where "most \<noteq> Some 0" "(j, gs') \<in> set (f (i, gs))" "i < j" "j \<le> n" "e \<in> set (rep g f n 0 (less_one most) (j, gs'))"
proof -
  let ?more = "concat (map (\<lambda>(j, gs'). if i < j \<and> j \<le> n then rep g f n 0 (less_one most) (j, gs') else []) (f (i, gs)))"
  have "e \<in> set (rep g f n 0 most (i, gs)) \<Longrightarrow> most \<noteq> Some 0 \<and> e \<in> set ?more"
    using assms(2) unfolding rep.simps(2) [of g f n most i gs] Let_def by (cases "most = Some 0"; cases g) simp_all
  with assms(1) obtain x where x: "most \<noteq> Some 0" "x \<in> set (f (i, gs))"
    "e \<in> set (case x of (j, gs') \<Rightarrow> if i < j \<and> j \<le> n then rep g f n 0 (less_one most) (j, gs') else [])" by auto
  obtain j gs' where "x = (j, gs')" by (cases x)
  with x that show thesis by (cases "i < j \<and> j \<le> n") auto
qed

lemma rep_forward: "forward n f \<Longrightarrow> e \<in> set (rep g f n m most st) \<Longrightarrow> fst st \<le> n \<Longrightarrow> fst st \<le> fst e \<and> fst e \<le> n"
proof (induction g f n m most st arbitrary: e rule: rep.induct)
  case (1 g f n m most st)
  from 1(3) obtain e' where e': "e' \<in> set (f st)" "e \<in> set (rep g f n m (less_one most) e')"
    by (auto simp: rep.simps(1))
  have "fst st \<le> fst e'" "fst e' \<le> n" using forwardD [OF 1(2) e'(1) 1(4)] by auto
  with 1(1) [OF e'(1) 1(2) e'(2)] show ?case by simp
next
  case (2 g f n most i gs)
  show ?case
  proof (cases "e = (i, gs)")
    case False
    obtain j gs' where j: "most \<noteq> Some 0" "(j, gs') \<in> set (f (i, gs))" "i < j" "j \<le> n"
      "e \<in> set (rep g f n 0 (less_one most) (j, gs'))" by (rule rep_zero_cases [OF 2(3) False])
    have "fst (j, gs') \<le> fst e \<and> fst e \<le> n"
      by (rule 2(1) [where x = "(j, gs')"]) (use j 2(2) in auto)
    then show ?thesis using j by simp
  qed (use 2(4) in simp)
qed

lemma ends_forward: "forward (length s) (ends r s)"
proof (induction r)
  case (Seq a b)
  show ?case
    unfolding forward_def
  proof (intro allI impI ballI)
    fix st e assume st: "fst st \<le> length s" and "e \<in> set (ends (Seq a b) s st)"
    then obtain e' where e': "e' \<in> set (ends a s st)" "e \<in> set (ends b s e')" by auto
    from forwardD [OF Seq(1) e'(1) st] have "fst st \<le> fst e'" "fst e' \<le> length s" by auto
    with forwardD [OF Seq(2) e'(2)] show "fst st \<le> fst e \<and> fst e \<le> length s" by auto
  qed
next
  case (Rep g least most r)
  show ?case
    unfolding forward_def using rep_forward [OF Rep] by auto
qed (auto simp: forward_def split: if_splits, (metis fst_conv)+)

lemma match_from_bounds:
  assumes "match_from r s i = Some (a, b, gs)" "i \<le> length s"
  shows "a = i \<and> i \<le> b \<and> b \<le> length s"
proof -
  from assms(1) have "a = i" "(b, gs) \<in> set (ends r s (i, []))"
    by (auto simp: match_from_def split: list.splits)
  with forwardD [OF ends_forward this(2)] assms(2) show ?thesis by simp
qed

lemma first_some_SomeD: "first_some f xs = Some y \<Longrightarrow> \<exists>x \<in> set xs. f x = Some y"
  by (induction xs) (auto split: option.splits)

lemma first_some_None: "first_some f xs = None \<longleftrightarrow> (\<forall>x \<in> set xs. f x = None)"
  by (induction xs) (auto split: option.splits)

subsection \<open>All matches, substitution and splitting\<close>

text \<open>After an empty match the next one has to advance; otherwise it starts where the last one ended.\<close>

definition match_from_next :: "rx \<Rightarrow> string \<Rightarrow> nat \<Rightarrow> bool \<Rightarrow> nat \<Rightarrow> match_result option" where
  "match_from_next r s i advance k =
     (case filter (\<lambda>(j, _). \<not> (advance \<and> k = i \<and> j = i)) (ends r s (k, [])) of
        [] \<Rightarrow> None | (j, gs) # _ \<Rightarrow> Some (k, j, gs))"

definition next_match :: "rx \<Rightarrow> string \<Rightarrow> nat \<Rightarrow> bool \<Rightarrow> match_result option" where
  "next_match r s i advance = first_some (match_from_next r s i advance) [i ..< Suc (length s)]"

lemma next_match_bounds:
  assumes "next_match r s i advance = Some (a, b, gs)"
  shows "i \<le> a \<and> a \<le> b \<and> b \<le> length s \<and> (advance \<longrightarrow> i < b)"
proof -
  from first_some_SomeD [OF assms [unfolded next_match_def]] obtain k where k: "i \<le> k" "k \<le> length s"
    "match_from_next r s i advance k = Some (a, b, gs)" by auto
  from k(3) have m: "a = k" "(b, gs) \<in> set (filter (\<lambda>(j, _). \<not> (advance \<and> k = i \<and> j = i)) (ends r s (k, [])))"
    by (cases "filter (\<lambda>(j, _). \<not> (advance \<and> k = i \<and> j = i)) (ends r s (k, []))"; simp add: match_from_next_def split_beta)+
  then have "(b, gs) \<in> set (ends r s (k, []))" "\<not> (advance \<and> k = i \<and> b = i)" by auto
  with forwardD [OF ends_forward this(1)] k m(1) show ?thesis by auto
qed

function finditer_from :: "rx \<Rightarrow> string \<Rightarrow> nat \<Rightarrow> bool \<Rightarrow> match_result list" where
  "finditer_from r s i advance =
     (case next_match r s i advance of
        None \<Rightarrow> []
      | Some (a, b, gs) \<Rightarrow> (a, b, gs) # finditer_from r s b (a = b))"
  by pat_completeness auto
termination
proof (relation "measure (\<lambda>(r, s, i, advance). 2 * (length s - i) + (if advance then 0 else 1))")
  fix r s i advance m a x b gs
  assume "next_match r s i advance = Some m" "(a, x) = m" "(b, gs) = x"
  then have "next_match r s i advance = Some (a, b, gs)" by simp
  from next_match_bounds [OF this]
  show "((r, s, b, a = b), r, s, i, advance) \<in> measure (\<lambda>(r, s, i, advance). 2 * (length s - i) + (if advance then 0 else 1))"
    by auto
qed simp

declare finditer_from.simps [simp del]

definition finditer :: "rx \<Rightarrow> string \<Rightarrow> match_result list" where
  "finditer r s = finditer_from r s 0 False"

fun spliced :: "string \<Rightarrow> (match_result \<Rightarrow> string) \<Rightarrow> nat \<Rightarrow> match_result list \<Rightarrow> string" where
  "spliced s repl i [] = drop i s"
| "spliced s repl i (m # ms) = between s i (fst m) @ repl m @ spliced s repl (fst (snd m)) ms"

definition rx_sub :: "rx \<Rightarrow> (match_result \<Rightarrow> string) \<Rightarrow> string \<Rightarrow> string" where
  "rx_sub r repl s = spliced s repl 0 (finditer r s)"

fun pieces :: "string \<Rightarrow> nat \<Rightarrow> match_result list \<Rightarrow> string list" where
  "pieces s i [] = [drop i s]"
| "pieces s i (m # ms) = between s i (fst m) # pieces s (fst (snd m)) ms"

definition rx_split :: "rx \<Rightarrow> string \<Rightarrow> string list" where
  "rx_split r s = pieces s 0 (finditer r s)"

text \<open>The matches lie one after the other inside the text.\<close>

fun in_order :: "nat \<Rightarrow> nat \<Rightarrow> match_result list \<Rightarrow> bool" where
  "in_order n i [] = (i \<le> n)"
| "in_order n i (m # ms) = (i \<le> fst m \<and> fst m \<le> fst (snd m) \<and> in_order n (fst (snd m)) ms)"

lemma finditer_from_in_order: "i \<le> length s \<Longrightarrow> in_order (length s) i (finditer_from r s i advance)"
proof (induction r s i advance rule: finditer_from.induct)
  case (1 r s i advance)
  show ?case
  proof (cases "next_match r s i advance")
    case (Some m)
    obtain a b gs where m: "m = (a, b, gs)" by (cases m)
    have "i \<le> a \<and> a \<le> b \<and> b \<le> length s" using next_match_bounds Some m by blast
    then show ?thesis using 1 Some m by (subst finditer_from.simps) simp
  qed (use 1 in \<open>subst finditer_from.simps, simp\<close>)
qed

lemma finditer_in_order: "in_order (length s) 0 (finditer r s)"
  by (simp add: finditer_def finditer_from_in_order)

lemma between_append_drop: "i \<le> j \<Longrightarrow> between s i j @ drop j s = drop i s"
  using append_take_drop_id [of "j - i" "drop i s"] by (simp add: between_def add.commute)

lemma in_order_bound: "in_order n i ms \<Longrightarrow> i \<le> n"
  by (induction ms arbitrary: i) force+

lemma spliced_same:
  assumes "in_order (length s) i ms" "\<And>m. repl m = between s (fst m) (fst (snd m))"
  shows "spliced s repl i ms = drop i s"
  using assms(1)
proof (induction ms arbitrary: i)
  case (Cons m ms)
  then have "spliced s repl (fst (snd m)) ms = drop (fst (snd m)) s" by simp
  then show ?case using Cons.prems by (simp add: assms(2) [of m] between_append_drop)
qed simp

lemma spliced_length:
  assumes "in_order (length s) i ms" "\<And>m. m \<in> set ms \<Longrightarrow> length (repl m) \<le> fst (snd m) - fst m"
  shows "length (spliced s repl i ms) \<le> length s - i"
  using assms
proof (induction ms arbitrary: i)
  case (Cons m ms)
  have "length (spliced s repl (fst (snd m)) ms) \<le> length s - fst (snd m)" using Cons by simp
  moreover have "length (repl m) \<le> fst (snd m) - fst m" using Cons.prems by simp
  moreover have "fst (snd m) \<le> length s" using Cons.prems in_order_bound by auto
  ultimately show ?case using Cons.prems(1) by (auto simp: between_def)
qed simp

text \<open>What no match covers stays: a substitution that puts back what was matched is the identity, one without a match leaves
  the text, and one that never lengthens a match never lengthens the text.\<close>

lemma rx_sub_same: "rx_sub r (match_text s) s = s"
  by (simp add: rx_sub_def spliced_same [OF finditer_in_order] match_text_def)

lemma match_from_next_fresh: "match_from_next r s i False = match_from r s"
  by (simp add: fun_eq_iff match_from_next_def match_from_def)

lemma finditer_None: "rx_search r s = None \<Longrightarrow> finditer r s = []"
  by (simp add: finditer_def finditer_from.simps next_match_def rx_search_def match_from_next_fresh)

lemma rx_sub_None: "\<not> rx_found r s \<Longrightarrow> rx_sub r repl s = s"
  by (cases "rx_search r s") (simp_all add: rx_found_def rx_sub_def finditer_None)

lemma rx_sub_length:
  assumes "\<And>m. m \<in> set (finditer r s) \<Longrightarrow> length (repl m) \<le> fst (snd m) - fst m"
  shows "length (rx_sub r repl s) \<le> length s"
  using spliced_length [OF finditer_in_order assms] by (simp add: rx_sub_def)

lemma join_pieces:
  "in_order (length s) i ms \<Longrightarrow>
     concat (pieces s i ms) = spliced s (\<lambda>_. []) i ms"
  by (induction ms arbitrary: i) simp_all

lemma concat_rx_split: "concat (rx_split r s) = rx_sub r (\<lambda>_. []) s"
  by (simp add: rx_split_def rx_sub_def join_pieces finditer_in_order)

lemma rx_found_at: "match_from r s i \<noteq> None \<Longrightarrow> i \<le> length s \<Longrightarrow> rx_found r s"
  using first_some_None [of "match_from r s" "[0 ..< Suc (length s)]"]
  by (simp add: rx_found_def rx_search_def del: upt_Suc not_None_eq) force

end
