(* ===== verification/ResultDetection.thy ===== *)
theory ResultDetection
  imports PyRegex RepeatTargets
begin

section \<open>The kind of a tool result\<close>

text \<open>
  Models \<open>_detect_tool_content_type\<close> and \<open>_json_array_kind\<close> of \<open>src/tok/compression/_tool_result_codecs.py\<close>, with its
  patterns, and the advisories of \<open>_tool_result_advisory.py\<close>. Shares of lines are compared as products of integers, which
  agrees with the comparison of the quotients. \<open>loads\<close> is \<open>json.loads\<close>, \<open>None\<close> when it raises; \<open>force_file\<close> is the flag
  \<open>TOK_FORCE_FILE_CODEC\<close>.
\<close>

subsection \<open>Patterns\<close>

definition CODE_PATTERNS_RX :: rx where
  "CODE_PATTERNS_RX =
     (let named = (\<lambda>w. seqs [WordB, lit w, plus1 space_rx, plus1 word_rx]) in
      alts (map (\<lambda>w. Seq WordB (lit w)) [''def '', ''class '', ''import '', ''async def '', ''function ''] @
            [named ''fn'', named ''func'', named ''interface'',
             seqs [WordB, alts (map lit [''public'', ''private'', ''protected'']), plus1 space_rx,
                   alts (map lit [''class'', ''interface'', ''enum'']), plus1 space_rx, plus1 word_rx]]))"

definition FIND_ABS_PATH_RX :: rx where
  "FIND_ABS_PATH_RX = seqs [TextStart, lit ''/'', plus1 nonspace_rx, DollarEnd]"

definition CODE_FILE_EXTENSIONS :: "string list" where
  "CODE_FILE_EXTENSIONS =
     [''py'', ''pyi'', ''ts'', ''tsx'', ''js'', ''jsx'', ''mjs'', ''cjs'', ''rs'', ''go'', ''java'', ''kt'', ''kts'', ''swift'', ''rb'', ''php'',
      ''cpp'', ''cc'', ''cxx'', ''c'', ''h'', ''hpp'', ''cs'', ''scala'', ''sh'', ''bash'', ''zsh'', ''fish'']"

definition word_or :: "string \<Rightarrow> rx" where
  "word_or cs = Cls (\<lambda>c. word_char c \<or> c \<in> set cs)"

definition NODE_FRAME_RX :: rx where
  "NODE_FRAME_RX =
     seqs [Bol, plus1 space_rx, lit ''at '', plus1 (word_or ''.<>$[]''), plus1 space_rx, lit ''('', star dot,
           lit '':'', plus1 digit_rx, lit '':'', plus1 digit_rx, lit '')'']"

definition JAVA_FRAME_RX :: rx where
  "JAVA_FRAME_RX =
     seqs [Bol, plus1 space_rx, lit ''at '', plus1 (word_or ''.$''), lit ''('', plus1 (word_or ''.''),
           lit '':'', plus1 digit_rx, lit '')'']"

definition hex_rx :: rx where
  "hex_rx = Cls is_hex"

definition GIT_LOG_COMMIT_RX :: rx where
  "GIT_LOG_COMMIT_RX = seqs [TextStart, lit ''commit '', Grp 1 (Rep True 40 (Some 40) hex_rx), DollarEnd]"

definition GIT_LOG_ONELINE_RX :: rx where
  "GIT_LOG_ONELINE_RX = seqs [TextStart, Grp 1 (Rep True 7 (Some 40) hex_rx), plus1 space_rx, Grp 2 (plus1 dot)]"

definition INSTALL_PROGRESS_RX :: rx where
  "INSTALL_PROGRESS_RX =
     seqs [TextStart, star space_rx, alts (map lit_nocase
       [''Downloading'', ''Installing'', ''Resolving'', ''Fetching'', ''Installed'', ''Resolved'', ''Locked'', ''Preparing'',
        ''Collecting'', ''Obtaining'', ''Already satisfied'', ''Using cached'', ''Requirement already'', ''Building'', ''Running'',
        ''Successfully installed'', ''Prepared'', ''Uninstalled'', ''Built''])]"

subsection \<open>Arrays of results\<close>

definition SEARCH_KEYS :: "string list" where
  "SEARCH_KEYS = [''path'', ''file'', ''line'', ''snippet'', ''content'', ''text'', ''match'', ''context'']"

definition json_array_kind :: "(string \<Rightarrow> json option) \<Rightarrow> string \<Rightarrow> string" where
  "json_array_kind loads stripped =
     (case loads stripped of
        Some (JList data) \<Rightarrow>
          if data = [] \<or> \<not> list_all is_dict (take 5 data) then ''json_skeleton''
          else if list_ex (\<lambda>k. list_all (\<lambda>item. jget k item \<noteq> None) (take 5 data)) SEARCH_KEYS
          then ''search_results'' else ''json_skeleton''
      | _ \<Rightarrow> ''json_skeleton'')"

subsection \<open>Tests on the whole text\<close>

definition detect_whole :: "string \<Rightarrow> string option" where
  "detect_whole tx =
     (if py_contains ''Traceback (most recent call last):'' tx \<or> py_contains ''at new '' tx then Some ''stack_trace''
      else if 3 \<le> length (finditer NODE_FRAME_RX tx) \<or> 3 \<le> length (finditer JAVA_FRAME_RX tx) then Some ''stack_trace''
      else if rx_found (seqs [WordB, alts [lit ''PASSED'', lit ''FAILED''], WordB]) tx \<and>
              rx_found (seqs [plus1 digit_rx, lit '' '', alts [lit ''passed'', lit ''failed''], alts [lit '' in '', lit '' ,'']]) tx
      then Some ''pytest''
      else if rx_found (Seq Bol (lit ''diff --git '')) tx \<or>
              (rx_found (Seq Bol (lit ''--- a/'')) tx \<and> rx_found (Seq Bol (lit ''+++ b/'')) tx)
      then Some ''git_diff''
      else if rx_matches (seqs [TextStart, alts
                 [seqs [lit ''USER'', plus1 space_rx, lit ''PID'', plus1 space_rx, lit ''%CPU''],
                  seqs [lit ''UID'', plus1 space_rx, lit ''PID'', plus1 space_rx, lit ''PPID'']]]) tx \<or>
              rx_matches (seqs [TextStart, plus1 nonspace_rx, plus1 space_rx, plus1 nonspace_rx, plus1 space_rx,
                                lit ''COMMAND'', WordB]) (take 200 tx)
      then Some ''ps_output''
      else if rx_found (seqs [Bol, alts (map lit [''HOME'', ''PATH'', ''SHELL'', ''USER'', ''LANG'']), lit ''='']) tx
      then Some ''env_output'' else None)"

subsection \<open>Tests on the lines\<close>

definition count_lines :: "(string \<Rightarrow> bool) \<Rightarrow> string list \<Rightarrow> nat" where
  "count_lines P ls = length (filter P ls)"

definition GREP_CONTEXT_RX :: rx where
  "GREP_CONTEXT_RX =
     seqs [TextStart, Cls (\<lambda>c. \<not> py_space c \<and> c \<noteq> CHR ''-''), star (none_of ''-''), lit ''-'', Grp 1 (plus1 digit_rx), lit ''-'']"

definition grep_line :: "string \<Rightarrow> bool" where
  "grep_line line =
     (rx_matches (seqs [TextStart, plus1 nonspace_rx, lit '':'', plus1 digit_rx, lit '':'']) line \<or>
      rx_matches (seqs [TextStart, plus1 nonspace_rx, lit ''.'',
        Rep True 1 (Some 8) (Cls (\<lambda>c. (CHR ''A'' \<le> c \<and> c \<le> CHR ''Z'') \<or> (CHR ''a'' \<le> c \<and> c \<le> CHR ''z'') \<or> is_digit c)),
        lit '':'', plus1 dot, DollarEnd]) line)"

definition numbered_line :: "string \<Rightarrow> bool" where
  "numbered_line line = rx_matches (seqs [TextStart, plus1 digit_rx, lit '':'', star space_rx, nonspace_rx]) line"

definition detect_search :: "string list \<Rightarrow> string option" where
  "detect_search non_empty =
     (let n = length non_empty in
      if 2 \<le> n \<and> 2 \<le> count_lines (rx_matches GIT_LOG_COMMIT_RX) non_empty then Some ''git_log''
      else if 2 \<le> n \<and> (let k = count_lines (\<lambda>l. rx_matches GIT_LOG_ONELINE_RX (py_strip l)) non_empty in
                        4 \<le> k \<and> 4 * n < 10 * k) then Some ''git_log''
      else if 3 \<le> n \<and> 7 * n < 10 * count_lines grep_line non_empty then Some ''grep''
      else if 3 \<le> n \<and> 7 * n < 10 * count_lines numbered_line non_empty then Some ''grep''
      else if 3 \<le> n \<and> 85 * n \<le> 100 * count_lines (\<lambda>l. rx_matches FIND_ABS_PATH_RX (py_strip l)) non_empty then Some ''find''
      else None)"

definition listing_mode_line :: "string \<Rightarrow> bool" where
  "listing_mode_line line = rx_matches (seqs [TextStart, one_of ''dl-'', Rep True 9 (Some 9) (one_of ''rwx-'')]) line"

definition plain_file_line :: "string \<Rightarrow> bool" where
  "plain_file_line line =
     (rx_matches (seqs [TextStart, plus1 nonspace_rx, lit ''.'', Rep True 1 (Some 6) word_rx, DollarEnd]) (py_strip line) \<or>
      rx_matches (seqs [TextStart, plus1 nonspace_rx, lit ''/'', DollarEnd]) (py_strip line))"

definition glob_line :: "string \<Rightarrow> bool" where
  "glob_line line =
     rx_matches (seqs [TextStart, plus1 (Grp 1 (seqs [lit ''/'', plus1 (none_of ''/ '')])), DollarEnd]) (py_strip line)"

definition detect_listing :: "string list \<Rightarrow> string option" where
  "detect_listing non_empty =
     (let n = length non_empty in
      if 8 \<le> n \<and> (6 \<le> count_lines listing_mode_line non_empty \<or> 7 * n < 10 * count_lines plain_file_line non_empty \<or>
                  7 * n < 10 * count_lines glob_line non_empty) then Some ''ls''
      else if 6 \<le> n \<and> 5 \<le> count_lines (rx_matches INSTALL_PROGRESS_RX) non_empty then Some ''install''
      else None)"

subsection \<open>Code and repetition\<close>

definition js_words :: "string \<Rightarrow> bool" where
  "js_words tx =
     (rx_found (seqs [WordB, alts (map lit [''const'', ''let'', ''var'']), WordB]) tx \<or>
      rx_found (seqs [lit ''=>'', star space_rx, one_of ''{('']) tx)"

definition js_signals :: "string \<Rightarrow> bool" where
  "js_signals tx =
     (js_words tx \<or> rx_found (seqs [WordB, lit ''export'', plus1 space_rx, maybe (Seq (lit ''default'') (plus1 space_rx))]) tx \<or>
      rx_found (seqs [lit ''{'', star space_rx, lit ''...'']) tx)"

definition detect_code :: "bool \<Rightarrow> string \<Rightarrow> string option" where
  "detect_code force_file tx =
     (if 1000 < length tx \<and> rx_found CODE_PATTERNS_RX tx \<and> \<not> js_signals tx then Some ''file''
      else if force_file \<and> 200 < length tx \<and>
              (rx_found CODE_PATTERNS_RX tx \<or> 5 < length (filter (\<lambda>c. c = newline) tx)) \<and> \<not> js_words tx
      then Some ''file'' else None)"

definition prefix_separator :: "char \<Rightarrow> bool" where
  "prefix_separator c = (c \<in> set ''/: '')"

definition repeated_prefix_at :: "string list \<Rightarrow> nat \<Rightarrow> bool" where
  "repeated_prefix_at ls i =
     (let p = hd (split_by prefix_separator (rstrip (ls ! i))) in
      p \<noteq> [] \<and> list_all (\<lambda>j. prefix p (rstrip (ls ! (i + j)))) [1, 2, 3, 4])"

definition detect_repetitive :: "string list \<Rightarrow> string option" where
  "detect_repetitive ls =
     (if 5 \<le> length ls \<and> list_ex (repeated_prefix_at ls) [0 ..< length ls - 4] then Some ''repetitive'' else None)"

subsection \<open>Detection\<close>

definition path_extension :: "string \<Rightarrow> string" where
  "path_extension path = (if CHR ''.'' \<in> set path then py_lower (last (split_by (\<lambda>c. c = CHR ''.'') path)) else [])"

fun first_kind :: "string option list \<Rightarrow> string" where
  "first_kind [] = ''raw''"
| "first_kind (Some k # ks) = k"
| "first_kind (None # ks) = first_kind ks"

definition detect_json :: "(string \<Rightarrow> json option) \<Rightarrow> string \<Rightarrow> string option" where
  "detect_json loads tx =
     (let stripped = py_strip tx in
      if prefix ''{'' stripped \<and> suffix ''}'' stripped then Some ''json_skeleton''
      else if prefix ''['' stripped \<and> suffix '']'' stripped then Some (json_array_kind loads stripped)
      else None)"

definition detect_grep_context :: "string list \<Rightarrow> string option" where
  "detect_grep_context non_empty =
     (if 4 \<le> length non_empty \<and> 6 * length non_empty < 10 * count_lines (rx_matches GREP_CONTEXT_RX) non_empty
      then Some ''grep_context'' else None)"

definition detect_tool_content_type :: "bool \<Rightarrow> (string \<Rightarrow> json option) \<Rightarrow> string \<Rightarrow> string \<Rightarrow> string" where
  "detect_tool_content_type force_file loads tx path =
     (if path \<noteq> [] \<and> path_extension path \<in> set CODE_FILE_EXTENSIONS then ''file''
      else let ls = splitlines tx; non_empty = filter (\<lambda>l. py_strip l \<noteq> []) ls in
        first_kind [detect_whole tx, detect_grep_context non_empty, detect_json loads tx, detect_search non_empty,
                    detect_listing non_empty, detect_code force_file tx, detect_repetitive ls])"

subsection \<open>Advisories\<close>

definition estimate_tokens :: "string \<Rightarrow> nat" where
  "estimate_tokens tx = length tx div 4"

definition TOK_CLI_TOKEN_RX :: rx where
  "TOK_CLI_TOKEN_RX =
     seqs [NotAfter (\<lambda>c. word_char c \<or> c \<in> set ''./-''), lit ''tok'', Look False (word_or ''-'')]"

definition is_tok_cli_command :: "string \<Rightarrow> bool" where
  "is_tok_cli_command command =
     (let cleaned = squeeze (py_strip command) in
      cleaned \<noteq> [] \<and> (prefix ''tok '' cleaned \<or> rx_found TOK_CLI_TOKEN_RX cleaned))"

text \<open>The state is the turn of the last advisory of each query.\<close>

definition build_search_advisory ::
    "(string \<times> int) list \<Rightarrow> nat \<Rightarrow> nat \<Rightarrow> nat \<Rightarrow> bool \<Rightarrow> string option \<Rightarrow> int \<Rightarrow> string \<times> (string \<times> int) list" where
  "build_search_advisory cooldown match_count file_count estimated has_scope query turn =
     (let identity = or_empty query in
      if identity \<noteq> [] \<and> (case map_of cooldown identity of None \<Rightarrow> False | Some t \<Rightarrow> turn - t < 3) then ([], cooldown)
      else let high_matches = 50 < match_count; many_files = 10 < file_count; high_tokens = 2000 < estimated;
               unscoped = \<not> has_scope
        in if \<not> (high_matches \<or> many_files \<or> high_tokens \<or> unscoped) then ([], cooldown)
           else let hints =
                  (if unscoped \<and> (high_matches \<or> many_files)
                   then [''unscoped search'', if many_files then ''try path: or glob: filter'' else ''narrow with path or pattern'']
                   else if many_files \<and> high_matches then [nat_str file_count @ '' files'', ''try path: or glob: filter'']
                   else if high_matches then [nat_str match_count @ '' matches'', ''consider narrower pattern'']
                   else if many_files then [nat_str file_count @ '' files'', ''try path: filter'']
                   else if high_tokens then [''large result'', ''consider narrowing scope'']
                   else [''broad search'', ''consider narrowing scope''])
                in (''[tok advisory: '' @ join '' - '' hints @ '']'',
                    if identity \<noteq> [] then dict_set identity turn cooldown else cooldown))"

end
