(* ===== verification/ResultTruncation.thy ===== *)
theory ResultTruncation
  imports PyRegex
begin

section \<open>Truncation of large tool results\<close>

text \<open>
  Models \<open>src/tok/compression/_tool_result_truncation.py\<close>: a large result is cut between two lines chosen near the ends,
  with a marker that says what was left out; output of a test run keeps its failures and its summary; and when neither
  shortens the text, its two ends are kept around a line that signals an error. Limits are natural numbers.
\<close>

subsection \<open>Choosing a boundary between lines\<close>

definition leading_whitespace_width :: "string \<Rightarrow> nat" where
  "leading_whitespace_width line = length (takeWhile (\<lambda>c. c = CHR '' '' \<or> c = char_of (9 :: nat)) line)"

definition BLOCK_START_RX :: rx where
  "BLOCK_START_RX = seqs [TextStart, star space_rx, alts
     ([lit ''@'', lit ''def '', lit ''class '', lit ''async def '', lit ''if '', lit ''for '', lit ''while '', lit ''with ''] @
      map (\<lambda>w. Seq (lit w) WordB) [''try'', ''except'', ''elif'', ''else'', ''match'', ''case''])]"

definition line_boundary_priority :: "string \<Rightarrow> string \<Rightarrow> nat" where
  "line_boundary_priority prev_line next_line =
     (if py_strip prev_line = [] \<or> py_strip next_line = [] then 0
      else if leading_whitespace_width next_line < leading_whitespace_width prev_line then 0
      else if rx_matches BLOCK_START_RX next_line then 1 else 2)"

fun first_least :: "('a \<Rightarrow> 'a \<Rightarrow> bool) \<Rightarrow> 'a \<Rightarrow> 'a list \<Rightarrow> 'a" where
  "first_least lt b [] = b"
| "first_least lt b (x # xs) = first_least lt (if lt x b then x else b) xs"

definition distance :: "nat \<Rightarrow> nat \<Rightarrow> nat" where
  "distance a b = (if a \<le> b then b - a else a - b)"

type_synonym boundary = "nat \<times> nat \<times> nat"

definition boundary_less :: "boundary \<Rightarrow> boundary \<Rightarrow> bool" where
  "boundary_less a b =
     (fst a < fst b \<or> (fst a = fst b \<and>
       (fst (snd a) < fst (snd b) \<or> (fst (snd a) = fst (snd b) \<and> snd (snd a) < snd (snd b)))))"

definition boundary_candidates :: "string list \<Rightarrow> nat list \<Rightarrow> nat \<Rightarrow> nat \<Rightarrow> boundary list" where
  "boundary_candidates ls offsets target window =
     map (\<lambda>i. (line_boundary_priority (ls ! (i - 1)) (ls ! i), distance (offsets ! i) target, i))
       (filter (\<lambda>i. distance (offsets ! i) target \<le> window) [1 ..< length ls])"

definition choose_line_boundary :: "string list \<Rightarrow> nat list \<Rightarrow> nat \<Rightarrow> nat \<Rightarrow> nat" where
  "choose_line_boundary ls offsets target window =
     (if length ls \<le> 1 then length ls
      else case boundary_candidates ls offsets target window of
             c # cs \<Rightarrow> snd (snd (first_least boundary_less c cs))
           | [] \<Rightarrow> first_least (\<lambda>i j. distance (offsets ! i) target < distance (offsets ! j) target) 1 [2 ..< length ls])"

fun offsets_from :: "nat \<Rightarrow> string list \<Rightarrow> nat list" where
  "offsets_from n [] = [n]"
| "offsets_from n (l # ls) = n # offsets_from (n + length l) ls"

subsection \<open>Output of a test run\<close>

definition rule_rx :: rx where
  "rule_rx = Rep True 3 None (one_of ''=_-'')"

definition PYTEST_SECTION_RX :: rx where
  "PYTEST_SECTION_RX =
     (let upper = plus1 (Cls (\<lambda>c. CHR ''A'' \<le> c \<and> c \<le> CHR ''Z'')) in
      seqs [TextStart, rule_rx, star space_rx, alts [seqs [upper, one_of '' _'', upper], upper], star space_rx, rule_rx,
            star space_rx, DollarEnd])"

definition PYTEST_SUMMARY_RX :: rx where
  "PYTEST_SUMMARY_RX =
     seqs [Bol, rule_rx, star space_rx, plus1 digit_rx, star dot,
           alts (map lit_nocase [''passed'', ''failed'', ''error'', ''warning'', ''skipped'']),
           star dot, star space_rx, rule_rx, star space_rx, Eol]"

definition upper_ascii :: "char \<Rightarrow> char" where
  "upper_ascii c = (if CHR ''a'' \<le> c \<and> c \<le> CHR ''z'' then char_of ((of_char c :: nat) - 32) else c)"

fun last_index :: "('a \<Rightarrow> bool) \<Rightarrow> nat \<Rightarrow> 'a list \<Rightarrow> nat option" where
  "last_index P i [] = None"
| "last_index P i (x # xs) =
     (case last_index P (Suc i) xs of Some j \<Rightarrow> Some j | None \<Rightarrow> if P x then Some i else None)"

definition summary_line :: "string \<Rightarrow> bool" where
  "summary_line l = rx_matches PYTEST_SUMMARY_RX (py_strip l)"

definition section_line :: "string \<Rightarrow> bool" where
  "section_line l = (\<not> summary_line l \<and> rx_matches PYTEST_SECTION_RX (py_strip l))"

definition failures_start :: "string list \<Rightarrow> nat option" where
  "failures_start ls =
     find (\<lambda>i. section_line (ls ! i) \<and> py_contains ''FAIL'' (map upper_ascii (ls ! i))) [0 ..< length ls]"

definition summary_index :: "string list \<Rightarrow> nat option" where
  "summary_index ls = last_index summary_line 0 ls"

definition head_lines :: "string list \<Rightarrow> nat" where
  "head_lines ls = (case failures_start ls of None \<Rightarrow> min 3 (length ls) | Some f \<Rightarrow> max (min 3 (length ls)) f)"

definition kept_indices :: "string list \<Rightarrow> nat list" where
  "kept_indices ls =
     filter (\<lambda>i. i < head_lines ls \<or> (case summary_index ls of None \<Rightarrow> False | Some s \<Rightarrow> s \<le> i) \<or>
                 (case failures_start ls of None \<Rightarrow> False | Some f \<Rightarrow> f \<le> i \<and> i < f + 80)) [0 ..< length ls]"

text \<open>\<open>nxt\<close> is one more than the index kept last.\<close>

fun kept_parts :: "string list \<Rightarrow> nat \<Rightarrow> nat list \<Rightarrow> string list" where
  "kept_parts ls nxt [] = []"
| "kept_parts ls nxt (i # js) =
     (if nxt < i then [''['' @ nat_str (i - nxt) @ '' lines omitted]'' @ [newline]] else []) @
     ls ! i # kept_parts ls (Suc i) js"

fun omitted_before :: "nat \<Rightarrow> nat list \<Rightarrow> nat" where
  "omitted_before nxt [] = 0"
| "omitted_before nxt (i # js) = (i - nxt) + omitted_before (Suc i) js"

definition pytest_aware_truncation :: "string \<Rightarrow> string list \<Rightarrow> string option" where
  "pytest_aware_truncation tx ls =
     (if \<not> rx_found PYTEST_SUMMARY_RX tx then None
      else if failures_start ls = None \<and> summary_index ls = None then None
      else let parts = kept_parts ls 0 (kept_indices ls);
               result = concat parts
           in if length tx \<le> length result then None
              else let marker = newline # ''... [TRUNCATED '' @ nat_str (length tx - length result) @ '' CHARS; '' @
                         nat_str (omitted_before 0 (kept_indices ls)) @
                         '' lines omitted; FAILURES + summary preserved] ...'' @ [newline];
                       pos = min (head_lines ls) (length parts)
                   in Some (concat (take pos parts) @ marker @ concat (drop pos parts)))"

subsection \<open>The symbols of the omitted section\<close>

definition IMPORT_RX :: rx where
  "IMPORT_RX = Seq TextStart (Grp 1 (alts [lit ''import '', seqs [lit ''from '', plus1 nonspace_rx, lit '' import '']]))"

definition SYMBOL_RX :: rx where
  "SYMBOL_RX = seqs [TextStart, Grp 1 (star space_rx), Grp 2 (alts [lit ''class '', lit ''def '', lit ''async def '']),
                     Grp 3 (plus1 word_rx)]"

definition symbol_row :: "nat \<Rightarrow> string \<Rightarrow> string" where
  "symbol_row abs_line t =
     (let num = nat_str abs_line in ''  |> L'' @ num @ replicate (5 - length num) (CHR '' '') @ '' '' @ t)"

text \<open>\<open>left\<close> is the number of lines from the one in hand to the end of the section.\<close>

fun symbol_entries :: "nat \<Rightarrow> string list \<Rightarrow> string list \<Rightarrow> string list" where
  "symbol_entries abs_line entries [] = entries"
| "symbol_entries abs_line entries (raw # raws) =
     (let stripped = rstrip raw in
      if rx_matches IMPORT_RX stripped then
        symbol_entries (Suc abs_line)
          (if length (filter (py_contains ''import'') entries) < 5
           then entries @ [symbol_row abs_line (take 80 stripped)] else entries) raws
      else case rx_match SYMBOL_RX stripped of
             None \<Rightarrow> symbol_entries (Suc abs_line) entries raws
           | Some m \<Rightarrow>
               if 8 < length (group_text stripped m 1) then symbol_entries (Suc abs_line) entries raws
               else let sig = py_strip stripped;
                        sig = (if 72 < length sig then take 69 sig @ ''...'' else sig);
                        entries = entries @ [symbol_row abs_line sig]
                    in if 40 \<le> length entries
                       then entries @ [''  |> ... ('' @ nat_str (Suc (length raws)) @ '' more lines not shown)'']
                       else symbol_entries (Suc abs_line) entries raws)"

definition extract_symbol_table :: "string list \<Rightarrow> nat \<Rightarrow> nat \<Rightarrow> string" where
  "extract_symbol_table ls start stop =
     (let entries = symbol_entries (Suc start) [] (take (stop - start) (drop start ls)) in
      if entries = [] then [] else ''@symbols'' @ [newline] @ join [newline] entries @ [newline])"

subsection \<open>Truncation\<close>

definition SIGNALS_RX :: rx where
  "SIGNALS_RX = seqs [WordB, alts (map lit_nocase
     [''error'', ''fail'', ''exception'', ''traceback'', ''parse_error'', ''collision'', ''conflict'', ''issue'', ''bug'',
      ''diff'', ''warning'']), WordB]"

text \<open>\<open>xs[-n:]\<close>; a count of zero keeps everything.\<close>

definition tail_of :: "nat \<Rightarrow> 'a list \<Rightarrow> 'a list" where
  "tail_of n xs = (if n = 0 then xs else drop (length xs - n) xs)"

definition middle_of :: "nat \<Rightarrow> string \<Rightarrow> string" where
  "middle_of limit tx =
     (if (limit + 1) div 2 = 0 then [] else between tx (limit div 2) (length tx - (limit + 1) div 2))"

definition important_line :: "string \<Rightarrow> string" where
  "important_line middle =
     (case find (rx_found SIGNALS_RX) (splitlines middle) of
        None \<Rightarrow> []
      | Some line \<Rightarrow> newline # ''... [SIGNAL FOUND] '' @ take 100 (py_strip line) @ '' ...'')"

definition signal_truncation :: "string \<Rightarrow> nat \<Rightarrow> string" where
  "signal_truncation tx limit =
     (let omitted = length tx - limit div 2 * 2 in
      take (limit div 2) tx @ newline # ''... [TRUNCATED '' @ nat_str omitted @ '' CHARS] ...'' @
      important_line (middle_of limit tx) @ newline # tail_of ((limit + 1) div 2) tx)"

definition cut_points :: "string list \<Rightarrow> nat \<Rightarrow> nat \<Rightarrow> nat \<times> nat" where
  "cut_points ls len limit =
     (let offsets = offsets_from 0 ls;
          window = max 80 (limit div 4);
          head_target = max 1 (limit div 2);
          tail_target = max (head_target + 1) (len - limit div 2);
          h = choose_line_boundary ls offsets head_target window;
          t = choose_line_boundary ls offsets tail_target window;
          t = (if t \<le> h then min (length ls) (max (h + 1) t) else t)
      in if t \<le> h then (let h' = max 1 (length ls div 2) in (h', min (length ls) (h' + 1))) else (h, t))"

definition truncation_marker :: "string list \<Rightarrow> nat \<Rightarrow> nat \<Rightarrow> nat \<Rightarrow> string \<Rightarrow> string" where
  "truncation_marker ls omitted_chars h t result_type =
     ''... [TRUNCATED '' @ nat_str omitted_chars @ '' CHARS; omitted lines '' @ nat_str (h + 1) @ ''-'' @ nat_str t @
     ''; continue at line '' @ nat_str (if t < length ls then t + 1 else length ls) @ '']'' @ [newline] @
     extract_symbol_table ls h t @
     (if result_type \<noteq> ''bash'' then ''... [use offset='' @ nat_str (h + 1) @ '' to read omitted section] ...'' else [])"

definition line_truncation :: "string \<Rightarrow> string list \<Rightarrow> nat \<Rightarrow> nat \<Rightarrow> string \<Rightarrow> string" where
  "line_truncation tx ls h t result_type =
     (let head_text = concat (take h ls);
          tail_text = concat (drop t ls);
          omitted_chars = length tx - length head_text - length tail_text
      in head_text @ (if head_text \<noteq> [] \<and> last head_text \<noteq> newline then [newline] else []) @
         truncation_marker ls omitted_chars h t result_type @
         (if tail_text = [] then [] else (if hd tail_text \<noteq> newline then [newline] else []) @ tail_text))"

definition truncate_large_result :: "string \<Rightarrow> nat \<Rightarrow> bool \<Rightarrow> string \<Rightarrow> string" where
  "truncate_large_result tx limit already_compressed result_type =
     (let line_count = length (filter (\<lambda>c. c = newline) tx) + 1 in
      if already_compressed then tx
      else if length tx \<le> 3 * limit div 2 then tx
      else if 1000 \<le> limit \<and> 2 \<le> line_count \<and> line_count < 100 \<and> length tx < 300 * line_count then tx
      else let ls = splitlines_keep tx in
        case pytest_aware_truncation tx ls of
          Some r \<Rightarrow> r
        | None \<Rightarrow>
            if length ls \<le> 1 then signal_truncation tx limit
            else let (h, t) = cut_points ls (length tx) limit;
                     compressed = line_truncation tx ls h t result_type
                 in if length compressed < length tx then compressed else signal_truncation tx limit)"

subsection \<open>The cut lies between lines\<close>

lemma first_least_in: "first_least lt b xs \<in> insert b (set xs)"
proof (induction xs arbitrary: b)
  case (Cons x xs)
  show ?case using Cons.IH [of "if lt x b then x else b"] by (auto split: if_splits)
qed simp

lemma choose_line_boundary_range:
  assumes "1 < length ls"
  shows "1 \<le> choose_line_boundary ls offsets target window \<and> choose_line_boundary ls offsets target window < length ls"
proof (cases "boundary_candidates ls offsets target window")
  case Nil
  then show ?thesis
    using assms first_least_in [of "\<lambda>i j. distance (offsets ! i) target < distance (offsets ! j) target" 1 "[2 ..< length ls]"]
    by (auto simp: choose_line_boundary_def)
next
  case (Cons c cs)
  have "first_least boundary_less c cs \<in> set (boundary_candidates ls offsets target window)"
    using first_least_in [of boundary_less c cs] by (simp add: Cons)
  then have "1 \<le> snd (snd (first_least boundary_less c cs)) \<and> snd (snd (first_least boundary_less c cs)) < length ls"
    by (auto simp: boundary_candidates_def)
  then show ?thesis using assms by (simp add: choose_line_boundary_def Cons)
qed

lemma cut_points_range:
  assumes "1 < length ls" "cut_points ls len limit = (h, t)"
  shows "1 \<le> h \<and> h < t \<and> t \<le> length ls"
proof -
  define h0 where "h0 = choose_line_boundary ls (offsets_from 0 ls) (max 1 (limit div 2)) (max 80 (limit div 4))"
  define t0 where "t0 = choose_line_boundary ls (offsets_from 0 ls) (max (max 1 (limit div 2) + 1) (len - limit div 2))
    (max 80 (limit div 4))"
  define t1 where "t1 = (if t0 \<le> h0 then min (length ls) (max (h0 + 1) t0) else t0)"
  have range: "1 \<le> h0" "h0 < length ls" "t0 < length ls"
    using choose_line_boundary_range [OF assms(1)] by (simp_all add: h0_def t0_def)
  then have t1: "h0 < t1" "t1 \<le> length ls" by (auto simp: t1_def)
  have "cut_points ls len limit = (if t1 \<le> h0 then (max 1 (length ls div 2), min (length ls) (max 1 (length ls div 2) + 1)) else (h0, t1))"
    by (simp only: cut_points_def Let_def h0_def t0_def t1_def)
  then have "(h, t) = (h0, t1)" using t1 assms(2) by simp
  then show ?thesis using range t1 by simp
qed

lemma concat_three: "h \<le> t \<Longrightarrow> concat (take h ls) @ concat (take (t - h) (drop h ls)) @ concat (drop t ls) = concat ls"
proof -
  assume "h \<le> t"
  then have "take h ls @ take (t - h) (drop h ls) @ drop t ls = ls"
    by (metis append.assoc append_take_drop_id le_add_diff_inverse take_add)
  then show ?thesis by (metis concat_append)
qed

lemma line_truncation_parts:
  assumes "h \<le> t"
  shows "\<exists>mid a b. tx = concat (take h (splitlines_keep tx)) @ mid @ concat (drop t (splitlines_keep tx)) \<and>
    a \<in> {[], [newline]} \<and> b \<in> {[], [newline]} \<and>
    line_truncation tx (splitlines_keep tx) h t rt =
      concat (take h (splitlines_keep tx)) @ a @ truncation_marker (splitlines_keep tx) (length mid) h t rt @ b @
      concat (drop t (splitlines_keep tx))"
proof -
  let ?ls = "splitlines_keep tx"
  let ?H = "concat (take h ?ls)" and ?T = "concat (drop t ?ls)" and ?M = "concat (take (t - h) (drop h ?ls))"
  let ?a = "if ?H \<noteq> [] \<and> last ?H \<noteq> newline then [newline] else []"
  let ?b = "if ?T \<noteq> [] \<and> hd ?T \<noteq> newline then [newline] else []"
  have tx: "tx = ?H @ ?M @ ?T" using concat_three [OF assms, of ?ls] by simp
  then have len: "length tx - length ?H - length ?T = length ?M" by (metis add_diff_cancel_left' add_diff_cancel_right' length_append)
  have "line_truncation tx ?ls h t rt = ?H @ ?a @ truncation_marker ?ls (length ?M) h t rt @ ?b @ ?T"
    unfolding line_truncation_def Let_def len by simp
  moreover have "?a \<in> {[], [newline]}" "?b \<in> {[], [newline]}" by auto
  ultimately show ?thesis using tx by blast
qed

text \<open>What a truncated text looks like, said without the steps of the truncation. First, a cut between two lines.\<close>

definition keeps_whole_lines :: "string \<Rightarrow> string \<Rightarrow> string \<Rightarrow> bool" where
  "keeps_whole_lines tx rt r \<longleftrightarrow> (\<exists>above omitted below a b. splitlines_keep tx = above @ omitted @ below \<and>
     above \<noteq> [] \<and> omitted \<noteq> [] \<and> a \<in> {[], [newline]} \<and> b \<in> {[], [newline]} \<and> length r < length tx \<and>
     (let first = length above + 1; final = length above + length omitted in
      r = concat above @ a @
        ''... [TRUNCATED '' @ nat_str (length (concat omitted)) @ '' CHARS; omitted lines '' @ nat_str first @ ''-'' @ nat_str final @
        ''; continue at line '' @ nat_str (if below = [] then final else final + 1) @ '']'' @ [newline] @
        extract_symbol_table (splitlines_keep tx) (length above) final @
        (if rt = ''bash'' then [] else ''... [use offset='' @ nat_str first @ '' to read omitted section] ...'') @
        b @ concat below))"

text \<open>Second, a cut at a number of characters, with the first line of the omitted text that signals an error.\<close>

definition signal_note :: "string \<Rightarrow> string \<Rightarrow> bool" where
  "signal_note omitted note \<longleftrightarrow>
     (note = [] \<and> \<not> list_ex (rx_found SIGNALS_RX) (splitlines omitted)) \<or>
     (\<exists>quiet l rest. splitlines omitted = quiet @ l # rest \<and> \<not> list_ex (rx_found SIGNALS_RX) quiet \<and> rx_found SIGNALS_RX l \<and>
        note = [newline] @ ''... [SIGNAL FOUND] '' @ take 100 (py_strip l) @ '' ...'')"

definition keeps_two_ends :: "nat \<Rightarrow> string \<Rightarrow> string \<Rightarrow> bool" where
  "keeps_two_ends limit tx r \<longleftrightarrow> (\<exists>head omitted tail note. tx = head @ omitted @ tail \<and>
     length head = limit div 2 \<and> length tail = (limit + 1) div 2 \<and> signal_note omitted note \<and>
     r = head @ [newline] @ ''... [TRUNCATED '' @ nat_str (length omitted + limit mod 2) @ '' CHARS] ...'' @ note @ [newline] @ tail)"

definition small_file :: "nat \<Rightarrow> string \<Rightarrow> bool" where
  "small_file limit tx \<longleftrightarrow> 1000 \<le> limit \<and>
     (let n = length (filter (\<lambda>c. c = newline) tx) in 1 \<le> n \<and> n < 99 \<and> length tx < 300 * (n + 1))"

lemma line_truncation_keeps:
  assumes "1 \<le> h" "h < t" "t \<le> length (splitlines_keep tx)" "r = line_truncation tx (splitlines_keep tx) h t rt"
    "length r < length tx"
  shows "keeps_whole_lines tx rt r"
proof -
  let ?ls = "splitlines_keep tx"
  define omitted where "omitted = take (t - h) (drop h ?ls)"
  have split: "?ls = take h ?ls @ omitted @ drop t ?ls" unfolding omitted_def
    using assms(2) by (metis append_take_drop_id le_add_diff_inverse less_imp_le_nat take_add append.assoc)
  have n: "length (take h ?ls) = h" "length omitted = t - h" using assms(1-3) by (simp_all add: omitted_def)
  have below: "drop t ?ls = [] \<longleftrightarrow> \<not> t < length ?ls" by auto
  from line_truncation_parts [of h t tx rt] assms(2) obtain mid a b where
    parts: "tx = concat (take h ?ls) @ mid @ concat (drop t ?ls)" "a \<in> {[], [newline]}" "b \<in> {[], [newline]}"
      "r = concat (take h ?ls) @ a @ truncation_marker ?ls (length mid) h t rt @ b @ concat (drop t ?ls)"
    unfolding assms(4) by (metis less_imp_le_nat)
  have "tx = concat (take h ?ls) @ concat omitted @ concat (drop t ?ls)"
    using split by (metis concat_append concat_splitlines_keep)
  with parts(1) have mid: "mid = concat omitted" by (metis append_same_eq same_append_eq)
  have ht: "h + (t - h) = t" "(if drop t ?ls = [] then t else t + 1) = (if t < length ?ls then t + 1 else length ?ls)"
    using assms(2,3) below by auto
  have marker: "truncation_marker ?ls (length mid) h t rt =
      ''... [TRUNCATED '' @ nat_str (length (concat omitted)) @ '' CHARS; omitted lines '' @ nat_str (h + 1) @ ''-'' @ nat_str t @
        ''; continue at line '' @ nat_str (if drop t ?ls = [] then t else t + 1) @ '']'' @ [newline] @
        extract_symbol_table ?ls h t @
        (if rt = ''bash'' then [] else ''... [use offset='' @ nat_str (h + 1) @ '' to read omitted section] ...'')"
    unfolding truncation_marker_def ht(2) mid by simp
  have ne: "take h ?ls \<noteq> []" "omitted \<noteq> []" using n assms(1,2) by auto
  show ?thesis
    unfolding keeps_whole_lines_def
    by (intro exI [of _ "take h ?ls"] exI [of _ omitted] exI [of _ "drop t ?ls"] exI [of _ a] exI [of _ b])
      (simp only: Let_def n ht(1) marker [symmetric], use split ne parts(2-4) assms(5) in \<open>simp add: marker\<close>)
qed

lemma signal_note_important: "signal_note omitted (important_line omitted)"
proof (cases "find (rx_found SIGNALS_RX) (splitlines omitted)")
  case None
  then have "important_line omitted = []" by (simp add: important_line_def)
  moreover have "\<not> list_ex (rx_found SIGNALS_RX) (splitlines omitted)"
    using None unfolding find_None_iff by (auto simp: list_ex_iff)
  ultimately show ?thesis unfolding signal_note_def by blast
next
  case (Some l)
  let ?ls = "splitlines omitted"
  from Some obtain i where i: "i < length ?ls" "rx_found SIGNALS_RX (?ls ! i)" "l = ?ls ! i"
    "\<forall>j<i. \<not> rx_found SIGNALS_RX (?ls ! j)" by (auto simp: find_Some_iff)
  have split: "?ls = take i ?ls @ l # drop (Suc i) ?ls" unfolding i(3) using i(1) by (rule id_take_nth_drop)
  have "\<not> list_ex (rx_found SIGNALS_RX) (take i ?ls)" using i(1,4) by (auto simp: list_ex_iff in_set_conv_nth)
  with split i(2,3) have "\<exists>quiet l' rest. ?ls = quiet @ l' # rest \<and> \<not> list_ex (rx_found SIGNALS_RX) quiet \<and>
      rx_found SIGNALS_RX l' \<and> important_line omitted = [newline] @ ''... [SIGNAL FOUND] '' @ take 100 (py_strip l') @ '' ...''"
    by (intro exI [of _ "take i ?ls"] exI [of _ l] exI [of _ "drop (Suc i) ?ls"]) (simp add: important_line_def Some)
  then show ?thesis unfolding signal_note_def by blast
qed

lemma signal_truncation_keeps:
  assumes "1 \<le> limit" "limit \<le> length tx"
  shows "keeps_two_ends limit tx (signal_truncation tx limit)"
proof -
  define k where "k = (limit + 1) div 2"
  have k: "k \<noteq> 0" "limit div 2 + k = limit" "limit div 2 * 2 = limit - limit mod 2"
    using assms(1) by (auto simp: k_def minus_mod_eq_div_mult [symmetric])
  define head where "head = take (limit div 2) tx"
  define tail where "tail = drop (length tx - k) tx"
  define omitted where "omitted = middle_of limit tx"
  have mid: "omitted = take (length tx - k - limit div 2) (drop (limit div 2) tx)"
    using k(1) by (simp add: omitted_def middle_of_def k_def between_def)
  have tx: "tx = head @ omitted @ tail"
  proof -
    have "drop (limit div 2) tx = omitted @ drop (length tx - k - limit div 2) (drop (limit div 2) tx)"
      unfolding mid by (rule append_take_drop_id [symmetric])
    also have "drop (length tx - k - limit div 2) (drop (limit div 2) tx) = tail"
      using k(2) assms(2) by (simp add: tail_def)
    finally show ?thesis unfolding head_def by (metis append_take_drop_id)
  qed
  have len: "length head = limit div 2" "length tail = k" using k(2) assms(2) by (auto simp: head_def tail_def)
  have "length tx = length head + length omitted + length tail" by (subst tx) simp
  then have "length tx = limit + length omitted" using len k(2) by simp
  moreover have "limit mod 2 \<le> limit" by simp
  ultimately have count: "length tx - limit div 2 * 2 = length omitted + limit mod 2" unfolding k(3) by linarith
  have "tail_of k tx = tail" using k(1) by (simp add: tail_of_def tail_def)
  then have "signal_truncation tx limit = head @ [newline] @ ''... [TRUNCATED '' @ nat_str (length omitted + limit mod 2) @
      '' CHARS] ...'' @ important_line omitted @ [newline] @ tail"
    unfolding signal_truncation_def Let_def count omitted_def [symmetric] k_def [symmetric] head_def [symmetric] by simp
  with tx len signal_note_important [of omitted] show ?thesis
    unfolding keeps_two_ends_def k_def by blast
qed

text \<open>C40: What truncation does to a text that is no output of a test run (it holds no line of a test summary), for a limit of at least
  1. The text is unchanged when it is already compressed, when it is at most one and a half times the limit, or when the limit is at
  least 1000 and it is a small file of 2 to 99 lines with fewer than 300 characters a line. Any other text is cut. Either the result
  is shorter than the text and keeps whole lines at the beginning and whole lines at the end (none when the cut reaches the end),
  letter by letter, around a marker that gives the exact number of omitted characters, the exact range of the omitted lines, the
  line to continue at and the symbols of the omitted lines; or it keeps the first and the last half of the limit of characters around
  a marker with the number of omitted characters (one more when the limit is odd) and with the first omitted line that signals an
  error, when there is one.\<close>

theorem truncation_keeps_ends:
  assumes "1 \<le> limit" and "\<not> rx_found PYTEST_SUMMARY_RX tx"
  shows "if compressed \<or> length tx \<le> 3 * limit div 2 \<or> small_file limit tx then truncate_large_result tx limit compressed rt = tx
     else keeps_whole_lines tx rt (truncate_large_result tx limit compressed rt) \<or>
       keeps_two_ends limit tx (truncate_large_result tx limit compressed rt)"
proof (cases "compressed \<or> length tx \<le> 3 * limit div 2 \<or> small_file limit tx")
  case True
  then show ?thesis by (auto simp: truncate_large_result_def small_file_def Let_def)
next
  case False
  let ?ls = "splitlines_keep tx"
  have none: "pytest_aware_truncation tx ?ls = None" using assms(2) by (simp add: pytest_aware_truncation_def)
  obtain h t where ht: "cut_points ?ls (length tx) limit = (h, t)" by (cases "cut_points ?ls (length tx) limit")
  have "limit \<le> length tx" using False by auto
  note signal = signal_truncation_keeps [OF assms(1) this]
  have "\<not> (1000 \<le> limit \<and> 2 \<le> length (filter (\<lambda>c. c = newline) tx) + 1 \<and> length (filter (\<lambda>c. c = newline) tx) + 1 < 100 \<and>
      length tx < 300 * (length (filter (\<lambda>c. c = newline) tx) + 1))"
    using False by (simp add: small_file_def Let_def)
  moreover have "\<not> compressed" "\<not> length tx \<le> 3 * limit div 2" using False by simp_all
  ultimately have r: "truncate_large_result tx limit compressed rt =
      (if length ?ls \<le> 1 then signal_truncation tx limit
       else if length (line_truncation tx ?ls h t rt) < length tx then line_truncation tx ?ls h t rt else signal_truncation tx limit)"
    unfolding truncate_large_result_def Let_def by (simp only: none ht option.case prod.case if_False)
  have "keeps_whole_lines tx rt (line_truncation tx ?ls h t rt)"
    if "1 < length ?ls" "length (line_truncation tx ?ls h t rt) < length tx"
    using cut_points_range [OF that(1) ht] line_truncation_keeps [OF _ _ _ refl that(2)] by blast
  with signal False show ?thesis unfolding r by auto
qed

subsection \<open>Truncation does not lengthen\<close>

lemma nat_str_length: "length (nat_str n) \<le> n div 10 + 1"
proof (induction n rule: nat_str.induct)
  case (1 n)
  show ?case
  proof (cases "n < 10")
    case False
    then have "length (nat_str (n div 10)) \<le> n div 10 div 10 + 1" using 1 by simp
    moreover have "n div 10 div 10 + 1 \<le> n div 10" using False by auto
    ultimately show ?thesis using False by (subst nat_str.simps) simp
  qed (subst nat_str.simps, simp)
qed

lemma important_line_length: "length (important_line m) \<le> 124"
  by (simp add: important_line_def split: option.split)

lemma signal_truncation_length:
  assumes "1 \<le> limit" "limit \<le> length tx"
  shows "length (signal_truncation tx limit) \<le> limit + 153 + length tx div 10"
proof -
  have k: "(limit + 1) div 2 \<noteq> 0" "limit div 2 + (limit + 1) div 2 = limit" using assms by auto
  have digits: "length (nat_str (length tx - limit div 2 * 2)) \<le> length tx div 10 + 1"
    using nat_str_length [of "length tx - limit div 2 * 2"] div_le_mono [of "length tx - limit div 2 * 2" "length tx" 10] by linarith
  have "length (signal_truncation tx limit) = length (take (limit div 2) tx) + 28 +
      length (nat_str (length tx - limit div 2 * 2)) + length (important_line (middle_of limit tx)) +
      length (tail_of ((limit + 1) div 2) tx)"
    by (simp add: signal_truncation_def Let_def)
  moreover have "length (take (limit div 2) tx) \<le> limit div 2" by simp
  moreover have "length (tail_of ((limit + 1) div 2) tx) \<le> (limit + 1) div 2" using k(1) by (simp add: tail_of_def)
  ultimately show ?thesis using digits important_line_length [of "middle_of limit tx"] k(2) by linarith
qed

text \<open>With a limit of at least 500 characters, a text that is not the output of a test run never grows under truncation.\<close>

lemma truncation_never_lengthens:
  assumes "500 \<le> limit" "pytest_aware_truncation tx (splitlines_keep tx) = None"
  shows "length (truncate_large_result tx limit compressed rt) \<le> length tx"
proof -
  have "length (signal_truncation tx limit) \<le> length tx" if "3 * limit div 2 < length tx"
  proof -
    have "length (signal_truncation tx limit) \<le> limit + 153 + length tx div 10"
      by (rule signal_truncation_length) (use assms that in linarith)+
    then show ?thesis using assms that by linarith
  qed
  then show ?thesis using assms(2) by (auto simp: truncate_large_result_def Let_def split: prod.split)
qed

subsection \<open>What survives of a test run\<close>

lemma kept_parts_append:
  "\<exists>gap. kept_parts ls nxt (xs @ [s ..< n]) = kept_parts ls nxt xs @ gap @ map ((!) ls) [s ..< n]"
proof (induction xs arbitrary: nxt)
  case Nil
  have run: "kept_parts ls s [s ..< n] = map ((!) ls) [s ..< n]" for s
  proof (induction "n - s" arbitrary: s)
    case (Suc k)
    then have "[s ..< n] = s # [Suc s ..< n]" by (simp add: upt_conv_Cons)
    moreover have "kept_parts ls (Suc s) [Suc s ..< n] = map ((!) ls) [Suc s ..< n]" by (rule Suc(1)) (use Suc(2) in simp)
    ultimately show ?case by simp
  qed simp
  show ?case
  proof (cases "s < n")
    case True
    then have "[s ..< n] = s # [Suc s ..< n]" by (simp add: upt_conv_Cons)
    then show ?thesis using run [of "Suc s"] by simp
  qed simp
next
  case (Cons x xs)
  from Cons.IH [of "Suc x"] obtain gap where
    "kept_parts ls (Suc x) (xs @ [s ..< n]) = kept_parts ls (Suc x) xs @ gap @ map ((!) ls) [s ..< n]" by blast
  then show ?case by (intro exI [of _ gap]) simp
qed

lemma kept_parts_length: "length xs \<le> length (kept_parts ls nxt xs)"
proof (induction xs arbitrary: nxt)
  case (Cons x xs)
  show ?case using Cons.IH [of "Suc x"] by simp
qed simp

lemma kept_parts_member: "i \<in> set xs \<Longrightarrow> ls ! i \<in> set (kept_parts ls nxt xs)"
  by (induction xs arbitrary: nxt) auto

lemma pytest_result:
  assumes "pytest_aware_truncation tx ls = Some r"
  obtains pos marker where "pos \<le> head_lines ls"
    "r = concat (take pos (kept_parts ls 0 (kept_indices ls))) @ marker @ concat (drop pos (kept_parts ls 0 (kept_indices ls)))"
  using assms that [of "min (head_lines ls) (length (kept_parts ls 0 (kept_indices ls)))"]
  unfolding pytest_aware_truncation_def Let_def
  by (simp only: option.distinct option.inject split: if_splits) (metis min.cobounded1)

text \<open>When the output of a test run is truncated, every line of the first 80 lines of its failures section is in the result.\<close>

lemma failures_survive:
  assumes "pytest_aware_truncation tx ls = Some r" "failures_start ls = Some f" "f \<le> i" "i < f + 80" "i < length ls"
  shows "sublist (ls ! i) r"
proof -
  obtain pos marker where r: "r = concat (take pos (kept_parts ls 0 (kept_indices ls))) @ marker @
      concat (drop pos (kept_parts ls 0 (kept_indices ls)))"
    by (rule pytest_result [OF assms(1)])
  let ?parts = "kept_parts ls 0 (kept_indices ls)"
  have "i \<in> set (kept_indices ls)" using assms by (simp add: kept_indices_def)
  then have "ls ! i \<in> set (take pos ?parts @ drop pos ?parts)" by (simp add: kept_parts_member)
  then consider "ls ! i \<in> set (take pos ?parts)" | "ls ! i \<in> set (drop pos ?parts)" by (metis Un_iff set_append)
  then show ?thesis
  proof cases
    case 1
    then obtain a b where "take pos ?parts = a @ ls ! i # b" by (auto simp: in_set_conv_decomp)
    then have "r = concat a @ ls ! i @ (concat b @ marker @ concat (drop pos ?parts))" by (simp add: r)
    then show ?thesis unfolding sublist_def by blast
  next
    case 2
    then obtain a b where "drop pos ?parts = a @ ls ! i # b" by (auto simp: in_set_conv_decomp)
    then have "r = (concat (take pos ?parts) @ marker @ concat a) @ ls ! i @ concat b" by (simp add: r)
    then show ?thesis unfolding sublist_def by blast
  qed
qed

text \<open>The summary and what follows it survive when they come after the head.\<close>

lemma summary_survives:
  assumes "pytest_aware_truncation tx ls = Some r" "summary_index ls = Some s" "head_lines ls \<le> s"
  shows "suffix (concat (drop s ls)) r"
proof (cases "s \<le> length ls")
  case True
  define P where "P i = (i < head_lines ls \<or> s \<le> i \<or>
    (case failures_start ls of None \<Rightarrow> False | Some f \<Rightarrow> f \<le> i \<and> i < f + 80))" for i
  define before where "before = filter P [0 ..< s]"
  have "[0 ..< length ls] = [0 ..< s] @ [s ..< length ls]" using upt_add_eq_append [of 0 s "length ls - s"] True by simp
  then have kept: "kept_indices ls = before @ [s ..< length ls]"
    using assms(2) unfolding kept_indices_def before_def P_def [abs_def] by simp
  obtain gap where gap: "kept_parts ls 0 (kept_indices ls) = kept_parts ls 0 before @ gap @ map ((!) ls) [s ..< length ls]"
    unfolding kept using kept_parts_append by blast
  have "[0 ..< s] = [0 ..< head_lines ls] @ [head_lines ls ..< s]"
    using upt_add_eq_append [of 0 "head_lines ls" "s - head_lines ls"] assms(3) by simp
  moreover have "filter P [0 ..< head_lines ls] = [0 ..< head_lines ls]" by (simp add: P_def filter_id_conv)
  ultimately have "head_lines ls \<le> length before" by (simp add: before_def)
  then have "head_lines ls \<le> length (kept_parts ls 0 before)" using kept_parts_length le_trans by blast
  moreover obtain pos marker where r: "pos \<le> head_lines ls"
      "r = concat (take pos (kept_parts ls 0 (kept_indices ls))) @ marker @ concat (drop pos (kept_parts ls 0 (kept_indices ls)))"
    by (rule pytest_result [OF assms(1)])
  moreover have "map ((!) ls) [s ..< length ls] = drop s ls" by (simp add: list_eq_iff_nth_eq)
  ultimately have "r = (concat (take pos (kept_parts ls 0 (kept_indices ls))) @ marker @
      concat (drop pos (kept_parts ls 0 before)) @ concat gap) @ concat (drop s ls)" by (simp add: gap)
  then show ?thesis by (simp add: suffix_def)
qed simp

subsection \<open>Examples\<close>

definition sample_lines :: "string list" where
  "sample_lines = map (\<lambda>l. l @ [newline]) ([''a'', ''a'', ''a''] @ replicate 12 ''b'' @ [''===1 failed===''])"

lemma sample_summary: "summary_index sample_lines = Some 15"
  by code_simp

lemma sample_failures: "failures_start sample_lines = None"
  by code_simp

lemma sample_concat: "concat sample_lines = [CHR ''a'', newline, CHR ''a'', newline, CHR ''a'', newline] @
   concat (replicate 12 [CHR ''b'', newline]) @ ''===1 failed==='' @ [newline]"
  by (simp add: sample_lines_def)

lemma sample_length: "length (concat sample_lines) = 45"
  by (simp add: sample_concat length_concat sum_list_replicate)

lemma sample_summary_found: "rx_found PYTEST_SUMMARY_RX (concat sample_lines)"
proof (rule rx_found_at)
  show "match_from PYTEST_SUMMARY_RX (concat sample_lines) 30 \<noteq> None" by code_simp
  show "30 \<le> length (concat sample_lines)" by (simp add: sample_length)
qed

lemma sample_kept: "kept_indices sample_lines = [0, 1, 2, 15]"
  using sample_summary sample_failures
  by (simp add: kept_indices_def head_lines_def) (simp add: sample_lines_def upt_rec)

lemma sample_numbers: "nat_str 12 = ''12''" "nat_str 5 = ''5''"
  by code_simp+

lemma sample_head: "head_lines sample_lines = 3"
  by (simp add: head_lines_def sample_failures) (simp add: sample_lines_def)

lemma sample_last: "sample_lines ! 15 = ''===1 failed==='' @ [newline]"
  by (simp add: sample_lines_def nth_append)

lemma sample_parts:
  "kept_parts sample_lines 0 [0, 1, 2, 15] =
     map (\<lambda>l. l @ [newline]) [''a'', ''a'', ''a'', ''[12 lines omitted]'', ''===1 failed==='']"
  by (simp add: sample_last sample_numbers) (simp add: sample_lines_def)

lemma sample_truncated:
  "pytest_aware_truncation (concat sample_lines) sample_lines =
     Some (''a'' @ newline # ''a'' @ newline # ''a'' @ newline # newline #
       ''... [TRUNCATED 5 CHARS; 12 lines omitted; FAILURES + summary preserved] ...'' @ newline #
       ''[12 lines omitted]'' @ newline # ''===1 failed==='' @ [newline])"
  unfolding pytest_aware_truncation_def Let_def sample_kept sample_parts sample_length sample_head
  using sample_summary_found sample_summary 
  by (simp add: sample_numbers)

text \<open>The marker is added after the comparison with the length of the text, so that the result may be the longer one.\<close>

lemma pytest_truncation_lengthens:
  "\<exists>r. pytest_aware_truncation (concat sample_lines) sample_lines = Some r \<and> length (concat sample_lines) < length r"
  unfolding sample_truncated sample_length by simp

lemma summary_survives_witness:
  "\<exists>r. pytest_aware_truncation (concat sample_lines) sample_lines = Some r \<and> suffix (concat (drop 15 sample_lines)) r"
  using summary_survives [OF sample_truncated sample_summary] sample_truncated by (simp add: sample_head)

theorem truncation_keeps_ends_witness:
  "keeps_whole_lines ''abcdef'' ''file'' (''a'' @ newline # ''... [TRUNCATED 4 CHARS] ...'' @ newline # ''f'') \<or>
   keeps_two_ends 2 ''abcdef'' (''a'' @ newline # ''... [TRUNCATED 4 CHARS] ...'' @ newline # ''f'')"
proof -
  have t: "\<not> rx_found PYTEST_SUMMARY_RX ''abcdef''" by code_simp
  have r: "truncate_large_result ''abcdef'' 2 False ''file'' = ''a'' @ newline # ''... [TRUNCATED 4 CHARS] ...'' @ newline # ''f''"
    by code_simp
  have "\<not> small_file 2 ''abcdef''" by (simp add: small_file_def)
  with truncation_keeps_ends [OF _ t, of 2 False "''file''"] show ?thesis unfolding r by simp
qed

lemma truncation_never_lengthens_witness:
  "length (truncate_large_result ''short'' 500 False ''file'') \<le> length ''short''"
proof (rule truncation_never_lengthens)
  show "pytest_aware_truncation ''short'' (splitlines_keep ''short'') = None" by code_simp
qed simp

end
