(* ===== verification/ResultCodecs.thy ===== *)
theory ResultCodecs
  imports ResultDetection ResultTruncation TargetSummaries "HOL-Library.List_Lexorder" "HOL-Library.Char_ord"
begin

section \<open>Codecs of tool results\<close>

text \<open>
  Models the compressors of \<open>src/tok/compression/_tool_result_codecs.py\<close>, one per kind of result. \<open>loads\<close> is \<open>json.loads\<close>
  (\<open>None\<close> when it raises), \<open>count_tokens\<close> the tokenizer, \<open>json_guard\<close> the flag \<open>TOK_ENABLE_JSON_NONEXPANSION_GUARD\<close>; \<open>command\<close> is
  the command of the tool call, empty when there is none. Most codecs share one contract, the locale \<open>shrinking_codec\<close>: the
  result is the text itself or is shorter.
\<close>

definition lines_text :: "string list \<Rightarrow> string" where
  "lines_text ls = join [newline] ls"

definition shorter :: "string \<Rightarrow> string \<Rightarrow> string" where
  "shorter tx compressed = (if length tx \<le> length compressed then tx else compressed)"

subsection \<open>Test runs\<close>

record pytest_state =
  pt_result :: "string list"
  pt_in_failure :: bool
  pt_passed :: nat
  pt_failed :: nat
  pt_first_passed :: string
  pt_first_failed :: string
  pt_summary_passed :: nat
  pt_summary_failed :: nat

definition pytest_start :: pytest_state where
  "pytest_start =
     \<lparr>pt_result = [], pt_in_failure = False, pt_passed = 0, pt_failed = 0, pt_first_passed = [], pt_first_failed = [],
      pt_summary_passed = 0, pt_summary_failed = 0\<rparr>"

definition extract_label :: "string \<Rightarrow> string \<Rightarrow> string" where
  "extract_label ending line =
     (let label = py_strip line;
          label = (if suffix ending label then py_strip (take (length label - length ending) label) else label)
      in take 120 label)"

definition PYTEST_RULE_RX :: rx where
  "PYTEST_RULE_RX =
     seqs [plus1 (lit ''=''), plus1 space_rx, plus1 digit_rx, star dot, plus1 space_rx, plus1 (lit ''=''), star space_rx,
           DollarEnd]"

definition count_before :: "string \<Rightarrow> string \<Rightarrow> nat option" where
  "count_before word line =
     map_option (\<lambda>m. decimal_value (group_text line m 1))
       (rx_search (seqs [Grp 1 (plus1 digit_rx), plus1 space_rx, lit word]) line)"

definition note_summary :: "string \<Rightarrow> pytest_state \<Rightarrow> pytest_state" where
  "note_summary line st =
     (if pt_passed st = 0 \<and> pt_failed st = 0 then
        st\<lparr>pt_summary_passed := (case count_before ''passed'' line of None \<Rightarrow> pt_summary_passed st | Some n \<Rightarrow> n),
           pt_summary_failed := (case count_before ''failed'' line of None \<Rightarrow> pt_summary_failed st | Some n \<Rightarrow> n)\<rparr>
      else st)"

definition keep_line :: "string \<Rightarrow> pytest_state \<Rightarrow> pytest_state" where
  "keep_line line st = st\<lparr>pt_result := pt_result st @ [line]\<rparr>"

definition pytest_step :: "string \<Rightarrow> pytest_state \<Rightarrow> pytest_state" where
  "pytest_step line st =
     (if rx_matches PYTEST_RULE_RX line then note_summary line ((keep_line line st)\<lparr>pt_in_failure := False\<rparr>)
      else if py_contains '' PASSED'' line then
        st\<lparr>pt_passed := Suc (pt_passed st),
           pt_first_passed := (if pt_first_passed st = [] then extract_label '' PASSED'' line else pt_first_passed st),
           pt_in_failure := False\<rparr>
      else if py_contains '' FAILED'' line then
        (keep_line line st)\<lparr>pt_failed := Suc (pt_failed st),
           pt_first_failed := (if pt_first_failed st = [] then extract_label '' FAILED'' line else pt_first_failed st),
           pt_in_failure := True\<rparr>
      else if prefix ''='' line \<or> prefix ''_'' line then
        (keep_line line st)\<lparr>pt_in_failure := (prefix ''_ FAILURES'' line \<or> py_contains ''FAILED'' line \<or> pt_in_failure st)\<rparr>
      else if pt_in_failure st then keep_line line st
      else if prefix ''collected '' line \<or> prefix ''platform '' line \<or> prefix ''rootdir'' line then keep_line line st
      else st)"

definition verification_line :: "string \<Rightarrow> nat \<Rightarrow> nat \<Rightarrow> pytest_state \<Rightarrow> string" where
  "verification_line command passed failed st =
     (let failures = nat_str failed @ '' failed''; passes = nat_str passed @ '' passed'' in
      if failed \<noteq> 0 then
        (if command \<noteq> [] \<and> pt_first_failed st \<noteq> []
         then ''verification: '' @ command @ '' -> '' @ pt_first_failed st @ '' ('' @ failures @ '')''
         else if command \<noteq> [] then ''verification: '' @ command @ '' ('' @ failures @ '')''
         else if pt_first_failed st \<noteq> [] then ''verification: '' @ pt_first_failed st @ '' ('' @ failures @ '')''
         else ''verification: '' @ failures)
      else if passed \<noteq> 0 then
        (if command \<noteq> [] then ''verification: '' @ command @ '' '' @ passes
         else if pt_first_passed st \<noteq> [] then ''verification: '' @ pt_first_passed st @ '' ('' @ passes @ '')''
         else ''verification: '' @ passes)
      else [])"

definition compress_pytest :: "string \<Rightarrow> string \<Rightarrow> string" where
  "compress_pytest tx command =
     (let st = fold pytest_step (splitlines tx) pytest_start;
          none = (pt_passed st = 0 \<and> pt_failed st = 0 \<and> (pt_summary_passed st \<noteq> 0 \<or> pt_summary_failed st \<noteq> 0));
          passed = (if none then pt_summary_passed st else pt_passed st);
          failed = (if none then pt_summary_failed st else pt_failed st);
          header = ''>>> tool:pytest|passed:'' @ nat_str passed @ ''|failed:'' @ nat_str failed;
          v = verification_line (take 120 (squeeze command)) passed failed st
      in lines_text ([header] @ (if v \<noteq> [] then [v] else []) @
                     (if pt_result st \<noteq> [] then [lines_text (pt_result st)] else [])))"

subsection \<open>Matches of a search\<close>

definition path_head_rx :: rx where
  "path_head_rx = Grp 1 (Seq (Cls (\<lambda>c. \<not> py_space c \<and> c \<noteq> CHR '':'')) (star (none_of '':'')))"

definition GREP_FULL_RX :: rx where
  "GREP_FULL_RX = seqs [TextStart, path_head_rx, lit '':'', Grp 2 (plus1 digit_rx), lit '':'', Grp 3 (star dot)]"

definition GREP_NUMBER_RX :: rx where
  "GREP_NUMBER_RX = seqs [TextStart, Grp 1 (plus1 digit_rx), lit '':'', Grp 2 (star dot)]"

definition GREP_PATH_RX :: rx where
  "GREP_PATH_RX = seqs [TextStart, path_head_rx, lit '':'', Grp 2 (plus1 dot)]"

text \<open>The path (empty when there is none), the number of the line as text, and the snippet.\<close>

definition parse_grep_line :: "string \<Rightarrow> string \<times> string \<times> string" where
  "parse_grep_line line =
     (case rx_match GREP_FULL_RX line of
        Some m \<Rightarrow> (group_text line m 1, group_text line m 2, group_text line m 3)
      | None \<Rightarrow>
          (case rx_match GREP_NUMBER_RX line of
             Some m \<Rightarrow> ([], group_text line m 1, group_text line m 2)
           | None \<Rightarrow>
               (case rx_match GREP_PATH_RX line of
                  Some m \<Rightarrow>
                    let candidate = group_text line m 1 in
                    if list_ex (\<lambda>c. c \<in> set candidate) [slash, CHR ''.'', backslash] \<or> prefix ''~'' candidate
                    then (candidate, [], group_text line m 2) else ([], [], line)
                | None \<Rightarrow> ([], [], line))))"

type_synonym grep_groups = "(string \<times> (string \<times> string) list) list"

definition add_match :: "string \<Rightarrow> grep_groups \<Rightarrow> grep_groups" where
  "add_match line groups =
     (let (path, lnum, snippet) = parse_grep_line line;
          old = (case map_of groups path of None \<Rightarrow> [] | Some es \<Rightarrow> es)
      in dict_set path (old @ [(lnum, py_strip snippet)]) groups)"

definition upper_letter :: "char \<Rightarrow> bool" where
  "upper_letter c = (let n = (of_char c :: nat) in (65 \<le> n \<and> n \<le> 90) \<or> (192 \<le> n \<and> n \<le> 222 \<and> n \<noteq> 215))"

definition file_token :: "string \<Rightarrow> bool" where
  "file_token tok =
     (tok \<noteq> [] \<and> \<not> prefix ''-'' tok \<and> slash \<notin> set tok \<and> backslash \<notin> set tok \<and>
      (CHR ''.'' \<in> set tok \<or> prefix ''~'' tok \<or> upper_letter (hd tok)))"

definition grep_file_name :: "string \<Rightarrow> string" where
  "grep_file_name command =
     (let tokens = (case shlex_split command of Some ws \<Rightarrow> ws | None \<Rightarrow> py_words command) in
      case find file_token (map py_strip (rev tokens)) of None \<Rightarrow> [] | Some t \<Rightarrow> t)"

definition name_groups :: "string \<Rightarrow> grep_groups \<Rightarrow> grep_groups" where
  "name_groups command groups =
     (if list_all (\<lambda>(k, _). k = []) groups \<and> command \<noteq> [] \<and> grep_file_name command \<noteq> []
      then map (\<lambda>(_, es). (grep_file_name command, es)) groups else groups)"

definition grep_row :: "string \<Rightarrow> string \<times> string \<Rightarrow> string" where
  "grep_row key e =
     (let (lnum, s) = e in
      (if key \<noteq> [] \<and> lnum \<noteq> [] then key @ '':'' @ lnum @ '': ''
       else if lnum \<noteq> [] then lnum @ '': ''
       else if key \<noteq> [] then key @ '': '' else []) @ take 80 s)"

definition grep_group_rows :: "nat \<Rightarrow> string \<times> (string \<times> string) list \<Rightarrow> string list" where
  "grep_group_rows limit g =
     (let (key, es) = g; remaining = length es - limit in
      map (grep_row key) (take limit es) @
      (if 0 < remaining
       then [(if key = [] then ''(unscoped)'' else key) @ '': ... ('' @ nat_str remaining @ '' more matches)''] else []))"

definition grep_limit :: "nat \<Rightarrow> nat" where
  "grep_limit n = (if n \<le> 20 then 999 else if n \<le> 50 then 6 else 3)"

definition grep_groups_of :: "string \<Rightarrow> string list \<Rightarrow> grep_groups" where
  "grep_groups_of command raw_lines = name_groups command (fold add_match raw_lines [])"

definition compress_grep :: "string \<Rightarrow> string \<Rightarrow> string" where
  "compress_grep tx command =
     (let raw_lines = splitlines tx; n = length raw_lines in
      if n \<le> 3 then tx
      else let groups = grep_groups_of command raw_lines;
               file_count = length (filter (\<lambda>(k, _). k \<noteq> []) groups);
               file_count = (if file_count = 0 then 1 else file_count);
               header = ''>>> tool:grep|lines:'' @ nat_str n @ ''|files:'' @ nat_str file_count
           in shorter tx (lines_text (header # concat (map (grep_group_rows (grep_limit n)) groups))))"

subsection \<open>Repeated lines\<close>

definition line_key :: "string \<Rightarrow> string" where
  "line_key line = (case find (\<lambda>p. p \<noteq> []) (split_by prefix_separator (rstrip line)) of None \<Rightarrow> [] | Some p \<Rightarrow> p)"

function repetitive_rows :: "string list \<Rightarrow> string list" where
  "repetitive_rows [] = []"
| "repetitive_rows (line # ls) =
     (let key = line_key line; run = takeWhile (\<lambda>l. prefix key (rstrip l)) ls in
      if key \<noteq> [] \<and> 5 \<le> Suc (length run)
      then (''['' @ key @ ''...]: '' @ nat_str (Suc (length run)) @ '' lines'') # repetitive_rows (drop (length run) ls)
      else line # repetitive_rows ls)"
  by pat_completeness auto
termination
  by (relation "measure length") auto

definition compress_repetitive :: "string \<Rightarrow> string \<Rightarrow> string" where
  "compress_repetitive tx command =
     (if is_tok_cli_command command then tx
      else let ls = splitlines tx; rows = repetitive_rows ls in
        shorter tx (''>>> tool:bash|original_lines:'' @ nat_str (length ls) @ ''|compressed_lines:'' @ nat_str (length rows) @
                    [newline] @ lines_text rows))"

subsection \<open>Diffs\<close>

definition diff_insertion :: "string \<Rightarrow> bool" where
  "diff_insertion line = (prefix ''+'' line \<and> \<not> prefix ''+++'' line)"

definition diff_deletion :: "string \<Rightarrow> bool" where
  "diff_deletion line = (prefix ''-'' line \<and> \<not> prefix ''---'' line)"

definition diff_kept :: "string \<Rightarrow> bool" where
  "diff_kept line =
     (starts_any [''diff --git'', ''index '', ''---'', ''+++'', ''@@''] line \<or> diff_insertion line \<or> diff_deletion line \<or>
      py_strip line = [])"

definition compress_git_diff :: "string \<Rightarrow> string" where
  "compress_git_diff tx =
     (let ls = splitlines tx; result = filter diff_kept ls in
      if length ls \<le> length result then tx
      else ''>>> tool:git_diff|files:'' @ nat_str (count_lines (prefix ''diff --git'') ls) @
           ''|insertions:'' @ nat_str (count_lines diff_insertion ls) @
           ''|deletions:'' @ nat_str (count_lines diff_deletion ls) @ [newline] @ lines_text result)"

subsection \<open>Listings\<close>

definition LS_LONG_RX :: rx where
  "LS_LONG_RX = Seq TextStart (Grp 1 (alts [seqs [lit ''total'', plus1 space_rx, plus1 digit_rx],
                                            seqs [one_of ''dl-'', Rep True 9 (Some 9) (one_of ''rwx-'')]]))"

record ls_state =
  ls_names :: "string list"
  ls_dirs :: "string list"
  ls_info :: "string dict"

definition ls_step :: "bool \<Rightarrow> string \<Rightarrow> ls_state \<Rightarrow> ls_state" where
  "ls_step is_la line st =
     (if is_la then
        let parts = py_words line in
        if parts = [] \<or> prefix ''total'' (hd parts) then st
        else let name = last parts in
          if prefix ''d'' line then st\<lparr>ls_dirs := ls_dirs st @ [name]\<rparr>
          else st\<lparr>ls_names := ls_names st @ [name],
                  ls_info := (if 5 \<le> length parts then dict_set name (parts ! 4) (ls_info st) else ls_info st)\<rparr>
      else st\<lparr>ls_names := ls_names st @ [py_strip line]\<rparr>)"

definition has_extension :: "string \<Rightarrow> bool" where
  "has_extension name = (CHR ''.'' \<in> set name \<and> \<not> prefix ''.'' name)"

definition first_ten :: "string list \<Rightarrow> string" where
  "first_ten xs = join '', '' (take 10 xs) @ (if 10 < length xs then '' ...'' else [])"

definition ls_file_rows :: "ls_state \<Rightarrow> string list" where
  "ls_file_rows st =
     (if 0 < length (ls_names st) \<and> length (ls_names st) \<le> 20 then
        [''  files: '' @ join '', '' (map (\<lambda>n. case map_of (ls_info st) n of
            None \<Rightarrow> n | Some info \<Rightarrow> if info \<noteq> [] then n @ '' ('' @ info @ '')'' else n) (ls_names st))]
      else
        let counts = foldl (\<lambda>c n. cadd (path_extension n) 1 c) [] (filter has_extension (ls_names st));
            unusual = filter (\<lambda>n. \<not> has_extension n) (ls_names st)
        in map (\<lambda>(ext, n). ''  .'' @ ext @ '': '' @ int_str n) (sort_key (\<lambda>(_, n). - n) counts) @
           (if unusual \<noteq> [] then [''  other: '' @ first_ten unusual] else []))"

definition compress_ls :: "string \<Rightarrow> string" where
  "compress_ls tx =
     (let ls = filter (\<lambda>l. py_strip l \<noteq> []) (splitlines tx);
          st = fold (ls_step (list_ex (rx_matches LS_LONG_RX) ls)) ls \<lparr>ls_names = [], ls_dirs = [], ls_info = []\<rparr>
      in shorter tx (lines_text
           ([''>>> tool:ls|total:'' @ nat_str (length (ls_names st) + length (ls_dirs st)) @ ''|dirs:'' @
             nat_str (length (ls_dirs st))] @ ls_file_rows st @
            (if ls_dirs st \<noteq> [] then [''  dirs: '' @ first_ten (ls_dirs st)] else []))))"

definition FIND_PATH_PRESERVE_LIMIT :: nat where
  "FIND_PATH_PRESERVE_LIMIT = 200"

definition find_key :: "string \<Rightarrow> string" where
  "find_key p = (let parts = split_by (\<lambda>c. c = slash) p in if 3 \<le> length parts then join [slash] (take 3 parts) else p)"

definition find_group_rows :: "string list \<Rightarrow> string \<Rightarrow> string list" where
  "find_group_rows paths key =
     (let group_paths = filter (\<lambda>p. find_key p = key) paths in
      (''  '' @ rev (dropWhile (\<lambda>c. c = slash) (rev key)) @ ''/ ('' @ nat_str (length group_paths) @ '' files):'') #
      map (\<lambda>p. ''    '' @ p) group_paths)"

definition compress_find :: "string \<Rightarrow> string" where
  "compress_find tx =
     (let paths = filter (\<lambda>p. p \<noteq> []) (map py_strip (splitlines tx));
          header = ''>>> tool:find|total:'' @ nat_str (length paths)
      in if length paths \<le> FIND_PATH_PRESERVE_LIMIT then header @ [newline] @ lines_text paths
         else shorter tx (lines_text (header # concat (map (find_group_rows paths) (sort (remdups (map find_key paths)))))))"

subsection \<open>Installations\<close>

definition INSTALL_ERROR_RX :: rx where
  "INSTALL_ERROR_RX = seqs [WordB, Grp 1 (alts (map lit_nocase [''error'', ''warning'', ''failed'', ''conflict''])), WordB]"

definition decimals_rx :: rx where
  "decimals_rx = seqs [plus1 digit_rx, lit ''.'', plus1 digit_rx]"

definition INSTALL_SUMMARY_RX :: rx where
  "INSTALL_SUMMARY_RX =
     Grp 1 (alts [lit_nocase ''Successfully installed'', Seq (lit_nocase ''installed '') (plus1 digit_rx),
                  Seq (lit_nocase ''added '') (plus1 digit_rx), seqs [lit_nocase ''in '', decimals_rx, lit_nocase ''s''],
                  seqs [plus1 digit_rx, lit_nocase '' package'', maybe (lit_nocase ''s'')]])"

definition INSTALL_FAILURE_SIGNAL_RX :: rx where
  "INSTALL_FAILURE_SIGNAL_RX =
     Grp 1 (alts ([seqs [WordB, lit_nocase ''error'', WordB], seqs [WordB, lit_nocase ''failed'', WordB]] @
                  map lit_nocase [''traceback'', ''exception'', ''npm err!'', ''pip subprocess'', ''could not build wheels'']))"

record install_state =
  in_kept :: "string list"
  in_summary :: string
  in_packages :: nat
  in_duration :: string

definition install_step :: "string \<Rightarrow> install_state \<Rightarrow> install_state" where
  "install_step line st =
     (if rx_found INSTALL_SUMMARY_RX line then
        st\<lparr>in_summary := line,
           in_duration := (case rx_search (seqs [lit ''in'', plus1 space_rx, Grp 1 (Seq decimals_rx (lit ''s''))]) line of
                             None \<Rightarrow> in_duration st | Some m \<Rightarrow> group_text line m 1)\<rparr>
      else if rx_found INSTALL_ERROR_RX line then st\<lparr>in_kept := in_kept st @ [line]\<rparr>
      else if rx_matches INSTALL_PROGRESS_RX line then st\<lparr>in_packages := Suc (in_packages st)\<rparr>
      else st\<lparr>in_kept := in_kept st @ [line]\<rparr>)"

definition failure_index :: "string list \<Rightarrow> nat option" where
  "failure_index ls = find (\<lambda>i. rx_found INSTALL_FAILURE_SIGNAL_RX (ls ! i)) [0 ..< length ls]"

definition compress_install :: "string \<Rightarrow> string" where
  "compress_install tx =
     (let ls = splitlines tx;
          st = fold install_step ls \<lparr>in_kept = [], in_summary = [], in_packages = 0, in_duration = []\<rparr>;
          header = ''>>> tool:install|packages:'' @ nat_str (in_packages st) @ ''|duration:'' @
                   (if in_duration st = [] then ''unknown'' else in_duration st)
      in case failure_index ls of
           Some f \<Rightarrow> shorter tx (header @ ''|status:failed'' @ [newline] @ lines_text (drop (f - 2) ls))
         | None \<Rightarrow> shorter tx (header @ [newline] @
                      lines_text (in_kept st @ (if in_summary st \<noteq> [] then [in_summary st] else []))))"

subsection \<open>Logs of commits\<close>

definition oneline_log :: "string list \<Rightarrow> bool" where
  "oneline_log ls = list_all (\<lambda>l. rx_matches GIT_LOG_ONELINE_RX l) (filter (\<lambda>l. py_strip l \<noteq> []) ls)"

definition oneline_entry :: "string \<Rightarrow> string list" where
  "oneline_entry line =
     (case rx_match GIT_LOG_ONELINE_RX (py_strip line) of
        None \<Rightarrow> []
      | Some m \<Rightarrow> [take 8 (group_text (py_strip line) m 1) @ '' '' @ take 80 (group_text (py_strip line) m 2)])"

text \<open>The commit in hand is its hash and its subject, \<open>None\<close> before the first; author and date are set and never read.\<close>

record log_state =
  lg_entries :: "string list"
  lg_current :: "(string \<times> string) option"
  lg_in_body :: bool

definition log_entry :: "(string \<times> string) option \<Rightarrow> string list" where
  "log_entry current =
     (case current of None \<Rightarrow> [] | Some (hash, subject) \<Rightarrow> if hash \<noteq> [] then [hash @ '' '' @ take 40 subject] else [])"

definition log_step :: "string \<Rightarrow> log_state \<Rightarrow> log_state" where
  "log_step line st =
     (case rx_match GIT_LOG_COMMIT_RX line of
        Some m \<Rightarrow> \<lparr>lg_entries = lg_entries st @ log_entry (lg_current st),
                   lg_current = Some (take 8 (group_text line m 1), []), lg_in_body = False\<rparr>
      | None \<Rightarrow>
          if prefix ''Author:'' line \<or> prefix ''Date:'' line then st\<lparr>lg_in_body := False\<rparr>
          else case lg_current st of
            None \<Rightarrow> st
          | Some (hash, subject) \<Rightarrow>
              if py_strip line \<noteq> [] \<and> \<not> lg_in_body st \<and> hash \<noteq> [] \<and> subject = []
              then st\<lparr>lg_current := Some (hash, take 72 (py_strip line)), lg_in_body := True\<rparr> else st)"

definition log_entries :: "string list \<Rightarrow> string list" where
  "log_entries ls =
     (let st = fold log_step ls \<lparr>lg_entries = [], lg_current = None, lg_in_body = False\<rparr>
      in lg_entries st @ log_entry (lg_current st))"

definition compress_git_log :: "string \<Rightarrow> string" where
  "compress_git_log tx =
     (let ls = splitlines tx;
          entries = (if oneline_log ls then concat (map oneline_entry ls) else log_entries ls)
      in if entries = [] then tx
         else shorter tx (''>>> tool:git_log|commits:'' @ nat_str (length entries) @ [newline] @ lines_text entries))"

subsection \<open>Results of a search as JSON\<close>

text \<open>\<open>key in item\<close>; \<open>None\<close> when it raises.\<close>

definition key_in :: "string \<Rightarrow> json \<Rightarrow> bool option" where
  "key_in key item =
     (case item of
        JObj d \<Rightarrow> Some (map_of d key \<noteq> None)
      | JStr s \<Rightarrow> Some (py_contains key s)
      | JList xs \<Rightarrow> Some (list_ex (py_eq (JStr key)) xs)
      | _ \<Rightarrow> None)"

fun key_in_all :: "string \<Rightarrow> json list \<Rightarrow> bool option" where
  "key_in_all key [] = Some True"
| "key_in_all key (item # items) =
     (case key_in key item of None \<Rightarrow> None | Some False \<Rightarrow> Some False | Some True \<Rightarrow> key_in_all key items)"

fun filter_option :: "('a \<Rightarrow> bool option) \<Rightarrow> 'a list \<Rightarrow> 'a list option" where
  "filter_option P [] = Some []"
| "filter_option P (x # xs) =
     (case P x of None \<Rightarrow> None
      | Some b \<Rightarrow> map_option (\<lambda>ys. if b then x # ys else ys) (filter_option P xs))"

definition search_row :: "string list \<Rightarrow> json \<Rightarrow> string list option" where
  "search_row value_keys item =
     (case item of
        JObj d \<Rightarrow>
          let vals = map (\<lambda>k. map (\<lambda>c. if c = newline then CHR '' '' else c) (take 80 (py_str (jget_or k (JStr []) item)))) value_keys
          in Some (if list_ex (\<lambda>v. py_strip v \<noteq> []) vals then [join '':'' vals] else [])
      | _ \<Rightarrow> None)"

fun collect_rows :: "(json \<Rightarrow> string list option) \<Rightarrow> json list \<Rightarrow> string list option" where
  "collect_rows f [] = Some []"
| "collect_rows f (x # xs) =
     (case f x of None \<Rightarrow> None | Some rows \<Rightarrow> map_option (\<lambda>rest. rows @ rest) (collect_rows f xs))"

definition kept_keys :: "string list \<Rightarrow> string list \<Rightarrow> string list" where
  "kept_keys wanted common = filter (\<lambda>k. k \<in> set common) wanted"

definition search_results_rows :: "string \<Rightarrow> json list \<Rightarrow> string list \<Rightarrow> string option" where
  "search_results_rows tx data common =
     (let header_keys = kept_keys [''path'', ''file'', ''name'', ''title'', ''line'', ''id''] common;
          header_keys = (if header_keys = [] then take 3 common else header_keys);
          value_keys = kept_keys [''path'', ''file'', ''name'', ''line'', ''snippet'', ''text'', ''match'', ''context'', ''id''] common
      in if value_keys = [] then Some tx
         else map_option (\<lambda>rows.
           let advisory = fst (build_search_advisory [] (length data) 0 (estimate_tokens tx) True None 0)
           in lines_text ((''>>> tool:search_results|count:'' @ nat_str (length data) @ ''|keys:'' @ join '','' header_keys) # rows @
                          (if advisory \<noteq> [] then [advisory] else [])))
           (collect_rows (search_row value_keys) data))"

definition compress_search_results :: "(string \<Rightarrow> json option) \<Rightarrow> string \<Rightarrow> string" where
  "compress_search_results loads tx =
     (case loads tx of
        None \<Rightarrow> compress_repetitive tx []
      | Some (JList (JObj sample # rest)) \<Rightarrow>
          (let data = JObj sample # rest in
           case filter_option (\<lambda>k. key_in_all k (take 5 data)) (map fst sample) of
             None \<Rightarrow> compress_repetitive tx []
           | Some common \<Rightarrow>
               if kept_keys [''line'', ''snippet'', ''content'', ''text'', ''match'', ''context''] common = [] then tx
               else case search_results_rows tx data common of
                      None \<Rightarrow> compress_repetitive tx [] | Some r \<Rightarrow> r)
      | Some _ \<Rightarrow> tx)"

subsection \<open>Stack traces\<close>

definition LIB_PATTERNS :: "string list" where
  "LIB_PATTERNS =
     [''node_modules'', ''site-packages'', ''dist-packages'', ''/lib/python'', ''/usr/lib'', ''/usr/include'',
      ''/Library/Frameworks'', ''/usr/local/Cellar'']"

definition library_path :: "string \<Rightarrow> bool" where
  "library_path path = list_ex (\<lambda>p. py_contains p path) LIB_PATTERNS"

definition double_quote_rx :: rx where
  "double_quote_rx = Cls (\<lambda>c. c = double_quote)"

definition PY_FILE_RX :: rx where
  "PY_FILE_RX = seqs [lit ''File '', double_quote_rx, Grp 1 (plus1 (Cls (\<lambda>c. c \<noteq> double_quote))), double_quote_rx]"

definition NODE_PATH_RX :: rx where
  "NODE_PATH_RX = seqs [lit ''at '', plus1 (word_or ''.<>$[]''), lit '' ('', Grp 1 (plus1 dot), lit '':'', plus1 digit_rx,
                        lit '':'', plus1 digit_rx, lit '')'']"

definition JAVA_PATH_RX :: rx where
  "JAVA_PATH_RX = seqs [lit ''at '', plus1 (word_or ''.$''), lit ''('', Grp 1 (plus1 (word_or ''.$'')), lit '':'',
                        Grp 2 (plus1 digit_rx), lit '')'']"

definition JS_FILE_RX :: rx where
  "JS_FILE_RX = seqs [lit ''.'', Grp 1 (alts (map lit_nocase [''js'', ''ts'', ''mjs'', ''cjs'', ''jsx'', ''tsx''])), DollarEnd]"

definition trace_paths :: "string \<Rightarrow> string list" where
  "trace_paths tx =
     (let py = map (\<lambda>m. group_text tx m 1) (finditer PY_FILE_RX tx);
          node = map (\<lambda>m. group_text tx m 1) (finditer NODE_PATH_RX tx);
          java = filter (\<lambda>c. c \<notin> set node \<and> \<not> rx_found JS_FILE_RX c) (map (\<lambda>m. group_text tx m 1) (finditer JAVA_PATH_RX tx))
      in py @ node @ map (map (\<lambda>c. if c = CHR ''.'' then slash else c)) java)"

text \<open>\<open>os.path.commonpath\<close>: \<open>None\<close> when it raises, for absolute and relative paths together.\<close>

fun common_head :: "'a list \<Rightarrow> 'a list \<Rightarrow> 'a list" where
  "common_head (x # xs) (y # ys) = (if x = y then x # common_head xs ys else [])"
| "common_head _ _ = []"

definition commonpath :: "string list \<Rightarrow> string option" where
  "commonpath paths =
     (let is_abs = (\<lambda>p. prefix [slash] p);
          parts = map (\<lambda>p. filter (\<lambda>c. c \<noteq> [] \<and> c \<noteq> ''.'') (split_by (\<lambda>c. c = slash) p)) paths
      in if paths = [] \<or> (list_ex is_abs paths \<and> \<not> list_all is_abs paths) then None
         else Some ((if list_all is_abs paths then [slash] else []) @ join [slash] (foldl common_head (hd parts) (tl parts))))"

definition trace_prefix :: "string list \<Rightarrow> string" where
  "trace_prefix paths =
     (if 2 \<le> length paths then
        (case commonpath paths of None \<Rightarrow> [] | Some p \<Rightarrow> if length p < 10 then [] else p)
      else [])"

definition shown_path :: "string \<Rightarrow> string \<Rightarrow> string" where
  "shown_path common path = (if common \<noteq> [] \<and> prefix common path then ''...'' @ drop (length common) path else path)"

definition PY_FRAME_RX :: rx where
  "PY_FRAME_RX =
     seqs [lit ''File '', double_quote_rx, Grp 1 (plus1 dot), double_quote_rx, lit '', line '', Grp 2 (plus1 digit_rx),
           lit '', in '', Grp 3 (plus1 word_rx)]"

definition NODE_LINE_RX :: rx where
  "NODE_LINE_RX =
     seqs [lit ''at '', Grp 1 (plus1 (word_or ''.<>$[]'')), lit '' ('', Grp 2 (plus1 dot), lit '':'', Grp 3 (plus1 digit_rx),
           lit '':'', Grp 4 (plus1 digit_rx), lit '')'']"

text \<open>A line of the trace: the function, path and line of a frame, or no frame.\<close>

definition parse_frame :: "string \<Rightarrow> (string \<times> string \<times> string) option" where
  "parse_frame line =
     (case rx_search PY_FRAME_RX line of
        Some m \<Rightarrow> Some (group_text line m 3, group_text line m 1, group_text line m 2)
      | None \<Rightarrow>
          (case rx_search NODE_LINE_RX line of
             Some m \<Rightarrow> Some (group_text line m 1, group_text line m 2, group_text line m 3)
           | None \<Rightarrow> None))"

definition frame_rows :: "string \<Rightarrow> string \<Rightarrow> string list" where
  "frame_rows common line =
     (case parse_frame line of
        None \<Rightarrow> [line]
      | Some (func, path, num) \<Rightarrow>
          if library_path path then []
          else [''  at '' @ func @ '' ('' @ shown_path common path @ '':'' @ num @ '')''])"

definition hidden_frame :: "string \<Rightarrow> bool" where
  "hidden_frame line = (case parse_frame line of None \<Rightarrow> False | Some (_, path, _) \<Rightarrow> library_path path)"

definition compress_stack_traces :: "string \<Rightarrow> string" where
  "compress_stack_traces tx =
     (let ls = splitlines tx;
          hidden = count_lines hidden_frame ls;
          rows = concat (map (frame_rows (trace_prefix (trace_paths tx))) ls);
          rows = (if 0 < hidden then (''  [... filtered '' @ nat_str hidden @ '' library frames]'') # rows else rows)
      in shorter tx (''>>> tool:stack_trace|lines:'' @ nat_str (length ls) @ ''|hidden_frames:'' @ nat_str hidden @
                     [newline] @ lines_text rows))"

subsection \<open>JSON\<close>

text \<open>\<open>depth\<close> grows to \<open>most\<close>, the parameter \<open>_max_depth\<close>, which is 20 in every call.\<close>

definition keys_note :: "nat \<Rightarrow> json" where
  "keys_note n = JStr (''{... '' @ nat_str n @ '' keys}'')"

fun compress_json_response :: "nat \<Rightarrow> nat \<Rightarrow> json \<Rightarrow> json" where
  "compress_json_response most depth (JObj d) =
     (if most \<le> depth \<or> (20 < length d \<and> 1 < depth) then keys_note (length d)
      else JObj (map (\<lambda>(k, v). (k, compress_json_response most (Suc depth) v)) d))"
| "compress_json_response most depth (JList xs) =
     (if most \<le> depth then JStr (''[... '' @ nat_str (length xs) @ '' items]'')
      else if 10 < length xs
      then JList (take 1 (map (compress_json_response most (Suc depth)) xs) @
                  [JObj [(''_omitted'', JInt (int (length xs - 1)))]])
      else JList (map (compress_json_response most (Suc depth)) xs))"
| "compress_json_response most depth (JStr s) =
     (if most \<le> depth then JStr s else if 200 < length s then JStr (take 197 s @ ''...'') else JStr s)"
| "compress_json_response most depth j = j"

text \<open>\<open>json.dumps(j, indent=2)\<close>; \<open>pad\<close> is the indentation of the line in hand.\<close>

fun dumps_indent :: "string \<Rightarrow> json \<Rightarrow> string" where
  "dumps_indent pad (JList xs) =
     (if xs = [] then ''[]''
      else ''['' @ [newline] @ join ('','' @ [newline]) (map (\<lambda>x. pad @ ''  '' @ dumps_indent (pad @ ''  '') x) xs) @
           [newline] @ pad @ '']'')"
| "dumps_indent pad (JObj d) =
     (if d = [] then ''{}''
      else ''{'' @ [newline] @
           join ('','' @ [newline]) (map (\<lambda>(k, v). pad @ ''  '' @ dumps_str k @ '': '' @ dumps_indent (pad @ ''  '') v) d) @
           [newline] @ pad @ ''}'')"
| "dumps_indent pad j = dumps_compact j"

definition compress_config_json ::
    "bool \<Rightarrow> (string \<Rightarrow> nat) \<Rightarrow> (string \<Rightarrow> json option) \<Rightarrow> string \<Rightarrow> string" where
  "compress_config_json json_guard count_tokens loads tx =
     (case loads tx of
        None \<Rightarrow> tx
      | Some data \<Rightarrow>
          let compressed = dumps_indent [] (compress_json_response 20 0 data);
              header = ''>>> tool:json_skeleton|original_chars:'' @ nat_str (length tx) @ ''|saved_chars:'' @
                       int_str (int (length tx) - int (length compressed));
              candidate = header @ [newline] @ compressed
          in if json_guard \<and> count_tokens tx \<le> count_tokens candidate then tx else shorter tx candidate)"

subsection \<open>Matches with context\<close>

definition CONTEXT_STRICT_RX :: rx where
  "CONTEXT_STRICT_RX =
     seqs [TextStart, Grp 1 (Seq (Cls (\<lambda>c. \<not> py_space c \<and> c \<noteq> CHR ''-'')) (star (none_of ''-''))), lit ''-'',
           Grp 2 (plus1 digit_rx), lit ''-'', Grp 3 (star dot)]"

definition CONTEXT_LOOSE_RX :: rx where
  "CONTEXT_LOOSE_RX =
     seqs [TextStart, Grp 1 (Seq (Cls (\<lambda>c. \<not> py_space c \<and> c \<noteq> CHR ''-'')) (lazy_plus nonspace_rx)), lit ''-'',
           Grp 2 (plus1 digit_rx), lit ''-'', Grp 3 (star dot)]"

definition context_match :: "string \<Rightarrow> match_result option" where
  "context_match line = (case rx_match CONTEXT_STRICT_RX line of Some m \<Rightarrow> Some m | None \<Rightarrow> rx_match CONTEXT_LOOSE_RX line)"

record context_state =
  cx_result :: "string list"
  cx_file :: "string option"
  cx_last :: int

definition context_step :: "string \<Rightarrow> context_state \<Rightarrow> context_state" where
  "context_step line st =
     (case context_match line of
        Some m \<Rightarrow>
          let path = group_text line m 1; lnum = int (decimal_value (group_text line m 2));
              row = ''  ['' @ int_str lnum @ ''] '' @ group_text line m 3
          in if cx_file st \<noteq> Some path
             then \<lparr>cx_result = cx_result st @ [''file://'' @ path @ '':'', row], cx_file = Some path, cx_last = lnum\<rparr>
             else st\<lparr>cx_result := cx_result st @ (if cx_last st + 1 < lnum then [''  ...''] else []) @ [row], cx_last := lnum\<rparr>
      | None \<Rightarrow>
          (case rx_match GREP_FULL_RX line of
             Some m \<Rightarrow>
               let path = group_text line m 1; lnum = int (decimal_value (group_text line m 2))
               in \<lparr>cx_result = cx_result st @ (if cx_file st \<noteq> Some path then [''file://'' @ path @ '':''] else []) @
                     [''  ['' @ int_str lnum @ '']* '' @ group_text line m 3],
                   cx_file = Some path, cx_last = lnum\<rparr>
           | None \<Rightarrow> st\<lparr>cx_result := cx_result st @ [line]\<rparr>))"

definition compress_grep_context :: "string \<Rightarrow> string" where
  "compress_grep_context tx =
     (let ls = splitlines tx in
      if ls = [] then tx
      else let st = fold context_step ls \<lparr>cx_result = [], cx_file = None, cx_last = -1\<rparr>;
               advisory = fst (build_search_advisory [] (length ls) 0 (estimate_tokens tx) True None 0)
           in ''>>> tool:grep_context|lines:'' @ nat_str (length ls) @ [newline] @ lines_text (cx_result st) @
              (if advisory \<noteq> [] then newline # advisory else []))"

subsection \<open>Processes and environments\<close>

definition system_process :: "string \<Rightarrow> bool" where
  "system_process line = list_ex (\<lambda>p. py_contains p line) [''/System/'', ''/usr/libexec/'', ''kernel_task'']"

definition INTERESTING_VARS :: "string list" where
  "INTERESTING_VARS = [''PATH'', ''HOME'', ''USER'', ''SHELL'', ''EDITOR'', ''LANG'', ''PWD'', ''VIRTUAL_ENV'']"

definition interesting_var :: "string \<Rightarrow> bool" where
  "interesting_var line =
     (CHR ''='' \<in> set line \<and>
      (let key = takeWhile (\<lambda>c. c \<noteq> CHR ''='') line in
       key \<in> set INTERESTING_VARS \<or> list_ex (\<lambda>p. py_contains p key) [''API'', ''TOKEN'', ''URL'', ''PORT'']))"

definition compress_env_ps :: "string \<Rightarrow> string \<Rightarrow> string" where
  "compress_env_ps tx kind =
     (let ls = splitlines tx in
      if kind = ''ps_output'' then
        let kept = take 1 ls @ filter (\<lambda>l. \<not> system_process l) (drop 1 ls);
            shown = (if 20 < length kept
                     then take 20 kept @ [''... '' @ nat_str (length kept - 20) @ '' more active processes''] else kept)
        in ''>>> tool:ps|total_lines:'' @ nat_str (length ls) @ ''|interesting:'' @ nat_str (length shown - 1) @ [newline] @
           lines_text shown
      else if kind = ''env_output'' then
        let kept = filter interesting_var ls
        in ''>>> tool:env|total_vars:'' @ nat_str (length ls) @ ''|displayed:'' @ nat_str (length kept) @ [newline] @ lines_text kept
      else tx)"

subsection \<open>Aggressive shortening\<close>

definition tighten_compressed_output :: "string \<Rightarrow> string \<Rightarrow> string \<Rightarrow> string" where
  "tighten_compressed_output kind compressed level =
     (if level \<noteq> ''aggressive'' \<or>
         kind \<notin> {''grep'', ''grep_context'', ''ls'', ''install'', ''repetitive'', ''search_results''} then compressed
      else let ls = splitlines compressed in
        if length ls \<le> 4 \<or> length (tl ls) \<le> 4 then compressed
        else let candidate = lines_text ([hd ls] @ take 4 (tl ls) @
                               [''... '' @ nat_str (length (tl ls) - 4) @ '' more lines omitted''])
             in if length candidate < length compressed then candidate else compressed)"

subsection \<open>The contract of the codecs\<close>

text \<open>A codec returns the text or something shorter; its clients may then count on what they save.\<close>

locale shrinking_codec =
  fixes codec :: "string \<Rightarrow> string"
  assumes shrinks: "codec tx = tx \<or> length (codec tx) < length tx"
begin

lemma never_longer: "length (codec tx) \<le> length tx"
  using shrinks [of tx] by auto

lemma saved_exactly: "length tx = length (codec tx) + (length tx - length (codec tx))"
  using never_longer [of tx] by simp

lemma iterated: "length ((codec ^^ n) tx) \<le> length tx"
  by (induction n) (auto intro: le_trans [OF never_longer])

text \<open>Applied again and again a codec comes to rest: after as many rounds as the text has characters nothing changes.\<close>

lemma comes_to_rest: "\<exists>n \<le> length tx. codec ((codec ^^ n) tx) = (codec ^^ n) tx"
proof (induction "length tx" arbitrary: tx rule: less_induct)
  case less
  show ?case
  proof (cases "codec tx = tx")
    case True
    then show ?thesis by (intro exI [of _ 0]) simp
  next
    case False
    then have "length (codec tx) < length tx" using shrinks [of tx] by simp
    moreover from less [OF this] obtain n where "n \<le> length (codec tx)" "codec ((codec ^^ n) (codec tx)) = (codec ^^ n) (codec tx)"
      by blast
    ultimately show ?thesis by (intro exI [of _ "Suc n"]) (simp add: funpow_swap1)
  qed
qed

end

lemma shorter_shrinks: "shorter tx c = tx \<or> length (shorter tx c) < length tx"
  by (simp add: shorter_def)

interpretation grep: shrinking_codec "\<lambda>tx. compress_grep tx command"
  by unfold_locales (auto simp: compress_grep_def Let_def shorter_def)

interpretation repetitive: shrinking_codec "\<lambda>tx. compress_repetitive tx command"
  by unfold_locales (auto simp: compress_repetitive_def Let_def shorter_def)

interpretation listing: shrinking_codec compress_ls
  by unfold_locales (simp add: compress_ls_def Let_def shorter_shrinks)

interpretation install: shrinking_codec compress_install
  by unfold_locales (auto simp: compress_install_def Let_def shorter_def split: option.splits)

interpretation git_log: shrinking_codec compress_git_log
  by unfold_locales (auto simp: compress_git_log_def Let_def shorter_def)

interpretation stack_trace: shrinking_codec compress_stack_traces
  by unfold_locales (simp add: compress_stack_traces_def Let_def shorter_shrinks)

interpretation config_json: shrinking_codec "compress_config_json json_guard count_tokens loads"
  by unfold_locales (auto simp: compress_config_json_def Let_def shorter_def split: option.splits)

interpretation tightened: shrinking_codec "\<lambda>tx. tighten_compressed_output kind tx level"
  by unfold_locales (auto simp: tighten_compressed_output_def Let_def)

subsection \<open>Every match is counted\<close>

definition group_sizes :: "grep_groups \<Rightarrow> nat" where
  "group_sizes groups = sum_list (map (\<lambda>g. length (snd g)) groups)"

lemma group_sizes_dict_set:
  "group_sizes (dict_set k es groups) =
     (case map_of groups k of None \<Rightarrow> group_sizes groups + length es
      | Some old \<Rightarrow> group_sizes groups + length es - length old)"
proof (induction groups)
  case (Cons g groups)
  obtain k' old' where g: "g = (k', old')" by (cases g)
  have bound: "map_of groups k = Some old \<Longrightarrow> length old \<le> group_sizes groups" for old
    by (induction groups) (auto simp: group_sizes_def split: if_splits)
  show ?case
    using Cons.IH bound by (cases "map_of groups k") (auto simp: g group_sizes_def dict_set_def)
qed (simp add: group_sizes_def dict_set_def)

lemma group_sizes_lookup: "map_of groups k = Some old \<Longrightarrow> length old \<le> group_sizes groups"
  by (induction groups) (auto simp: group_sizes_def split: if_splits)

lemma add_match_size: "group_sizes (add_match line groups) = Suc (group_sizes groups)"
proof -
  obtain path lnum snippet where p: "parse_grep_line line = (path, lnum, snippet)" by (cases "parse_grep_line line")
  show ?thesis
    using group_sizes_lookup [of groups path]
    by (cases "map_of groups path") (auto simp: add_match_def p group_sizes_dict_set)
qed

lemma grep_groups_size: "group_sizes (grep_groups_of command ls) = length ls"
proof -
  have "group_sizes (fold add_match ls groups) = group_sizes groups + length ls" for groups
    by (induction ls arbitrary: groups) (simp_all add: add_match_size)
  from this [of "[]"] have "group_sizes (fold add_match ls []) = length ls" by (simp add: group_sizes_def)
  moreover have "group_sizes (name_groups command groups) = group_sizes groups" for groups
    by (auto simp: name_groups_def group_sizes_def comp_def case_prod_beta)
  ultimately show ?thesis by (simp add: grep_groups_of_def)
qed

text \<open>In the compressed output of a search no match goes missing: the matches shown, at most the limit for each file, and the
  matches that the last row of a file announces as left out, add up to the lines of the output.\<close>

lemma grep_accounts_for_lines:
  "sum_list (map (\<lambda>g. length (take limit (snd g)) + (length (snd g) - limit)) (grep_groups_of command (splitlines tx))) =
     length (splitlines tx)"
proof -
  have "length (take limit es) + (length es - limit) = length es" for es :: "(string \<times> string) list" by simp
  then have "map (\<lambda>g. length (take limit (snd g)) + (length (snd g) - limit)) gs = map (\<lambda>g. length (snd g)) gs"
    for gs :: grep_groups by simp
  then show ?thesis using grep_groups_size [of command "splitlines tx"] by (simp only: group_sizes_def)
qed

subsection \<open>Every path of a listing is kept\<close>

lemma sublist_join_member: "x \<in> set xs \<Longrightarrow> sublist x (join sep xs)"
proof (induction xs rule: induct_list012)
  case (2 y)
  then show ?case by simp
next
  case (3 y z ys)
  show ?case
  proof (cases "x = y")
    case True
    then show ?thesis by (auto simp: sublist_def intro: exI [of _ "[]"])
  next
    case False
    then have "sublist x (join sep (z # ys))" using 3 by simp
    then show ?thesis by (auto simp: sublist_def) (metis append.assoc)
  qed
qed simp

text \<open>The compressed form of a list of paths still holds every path of the list, whatever its length.\<close>

lemma find_keeps_paths:
  assumes "l \<in> set (splitlines tx)"
  shows "sublist (py_strip l) (compress_find tx) \<or> compress_find tx = tx"
proof -
  define paths where "paths = filter (\<lambda>p. p \<noteq> []) (map py_strip (splitlines tx))"
  show ?thesis
  proof (cases "py_strip l = []")
    case True
    then show ?thesis by simp
  next
    case False
    then have p: "py_strip l \<in> set paths" using assms by (simp add: paths_def)
    show ?thesis
    proof (cases "length paths \<le> FIND_PATH_PRESERVE_LIMIT")
      case True
      have "sublist (py_strip l) (lines_text paths)" unfolding lines_text_def by (rule sublist_join_member [OF p])
      moreover have "compress_find tx = (''>>> tool:find|total:'' @ nat_str (length paths) @ [newline]) @ lines_text paths"
        using True by (simp add: compress_find_def Let_def flip: paths_def)
      ultimately have "sublist (py_strip l) (compress_find tx)"
        using sublist_order.order_trans [OF _ sublist_append_leftI] by (simp only:)
      then show ?thesis ..
    next
      case False
      let ?rows = "concat (map (find_group_rows paths) (sort (remdups (map find_key paths))))"
      have row: "''    '' @ py_strip l \<in> set ?rows"
        using p by (auto simp: find_group_rows_def Let_def)
      have "sublist (''    '' @ py_strip l) (lines_text (h # ?rows))" for h
        unfolding lines_text_def by (rule sublist_join_member) (use row in simp)
      then have rows: "sublist (py_strip l) (lines_text (h # ?rows))" for h
        by (rule sublist_order.order_trans [OF sublist_append_leftI])
      have "compress_find tx = shorter tx (lines_text ((''>>> tool:find|total:'' @ nat_str (length paths)) # ?rows))"
        using False by (simp add: compress_find_def Let_def flip: paths_def)
      then show ?thesis using rows by (simp add: shorter_def del: append_Cons)
    qed
  qed
qed

subsection \<open>JSON skeletons are small\<close>

text \<open>Below the depth limit no list has more than ten items, and no dictionary below the second level more than twenty keys.\<close>

fun within :: "nat \<Rightarrow> nat \<Rightarrow> json \<Rightarrow> bool" where
  "within most depth (JObj d) =
     (depth < most \<and> (1 < depth \<longrightarrow> length d \<le> 20) \<and> list_all (\<lambda>(_, v). within most (Suc depth) v) d)"
| "within most depth (JList xs) = (depth < most \<and> length xs \<le> 10 \<and> list_all (within most (Suc depth)) xs)"
| "within most depth _ = True"

text \<open>The skeleton of a JSON value never nests more than one level below the depth limit, where only the note on omitted items
  stands; it has no list of more than ten items and no dictionary of more than twenty keys below its second level.\<close>

lemma json_skeleton_bounded: "within (Suc most) depth (compress_json_response most depth j)"
proof (induction most depth j rule: compress_json_response.induct)
  case (1 most depth d)
  then show ?case by (auto simp: keys_note_def list_all_iff)
next
  case (2 most depth xs)
  show ?case
  proof (cases "depth < most \<and> 10 < length xs")
    case True
    then have "list_all (within (Suc most) (Suc depth)) (take 1 (map (compress_json_response most (Suc depth)) xs))"
      using 2(1) by (cases xs) (simp_all add: list_all_iff)
    then show ?thesis using True by simp
  next
    case False
    then show ?thesis using 2(2) by (auto simp: list_all_iff)
  qed
qed auto

subsection \<open>Diffs keep their changes\<close>

text \<open>The compressed diff keeps every inserted and every deleted line, and its header counts exactly those lines.\<close>

lemma git_diff_keeps_changes:
  assumes "compress_git_diff tx \<noteq> tx"
  shows "\<exists>kept n. compress_git_diff tx =
      ''>>> tool:git_diff|files:'' @ nat_str n @ ''|insertions:'' @ nat_str (length (filter diff_insertion kept)) @
      ''|deletions:'' @ nat_str (length (filter diff_deletion kept)) @ [newline] @ lines_text kept \<and>
    filter diff_insertion kept = filter diff_insertion (splitlines tx) \<and>
    filter diff_deletion kept = filter diff_deletion (splitlines tx)"
proof -
  let ?kept = "filter diff_kept (splitlines tx)"
  have "filter diff_insertion ?kept = filter diff_insertion (splitlines tx)"
    "filter diff_deletion ?kept = filter diff_deletion (splitlines tx)"
    by (auto simp: diff_kept_def intro!: filter_cong)
  then show ?thesis
    using assms
    by (intro exI [of _ ?kept] exI [of _ "count_lines (prefix ''diff --git'') (splitlines tx)"])
      (simp add: compress_git_diff_def Let_def count_lines_def split: if_splits)
qed

subsection \<open>A failed installation keeps its end\<close>

text \<open>When a line of an installation signals a failure, that line, the two before it and all that follow are in the result,
  and the status says failed, unless this is no shorter than the text.\<close>

lemma install_failure_kept:
  assumes "failure_index (splitlines tx) = Some f"
  shows "compress_install tx = tx \<or>
    (\<exists>header. compress_install tx = header @ ''|status:failed'' @ [newline] @ lines_text (drop (f - 2) (splitlines tx)) \<and>
      rx_found INSTALL_FAILURE_SIGNAL_RX (splitlines tx ! f) \<and>
      (\<forall>i. i < f \<longrightarrow> \<not> rx_found INSTALL_FAILURE_SIGNAL_RX (splitlines tx ! i)))"
proof -
  from assms have f: "rx_found INSTALL_FAILURE_SIGNAL_RX (splitlines tx ! f)"
    "\<forall>i. i < f \<longrightarrow> \<not> rx_found INSTALL_FAILURE_SIGNAL_RX (splitlines tx ! i)"
    unfolding failure_index_def find_Some_iff by auto
  show ?thesis
  proof (cases "compress_install tx = tx")
    case False
    then show ?thesis
      using f by (simp add: compress_install_def Let_def assms shorter_def split: if_splits)
  qed simp
qed

subsection \<open>Examples\<close>

lemma find_keeps_paths_witness:
  "sublist (py_strip ''src/b.py'') (compress_find (''src/a.py'' @ newline # ''src/b.py'')) \<or>
     compress_find (''src/a.py'' @ newline # ''src/b.py'') = ''src/a.py'' @ newline # ''src/b.py''"
  by (rule find_keeps_paths) code_simp

lemma git_diff_keeps_changes_witness:
  "\<exists>kept n. compress_git_diff (''+new'' @ newline # '' old'') =
      ''>>> tool:git_diff|files:'' @ nat_str n @ ''|insertions:'' @ nat_str (length (filter diff_insertion kept)) @
      ''|deletions:'' @ nat_str (length (filter diff_deletion kept)) @ [newline] @ lines_text kept \<and>
    filter diff_insertion kept = filter diff_insertion (splitlines (''+new'' @ newline # '' old'')) \<and>
    filter diff_deletion kept = filter diff_deletion (splitlines (''+new'' @ newline # '' old''))"
  by (rule git_diff_keeps_changes) code_simp

lemma sample_failure: "failure_index (splitlines (''ok'' @ newline # ''an error'')) = Some 1"
  by code_simp

lemma install_failure_kept_witness:
  "compress_install (''ok'' @ newline # ''an error'') = ''ok'' @ newline # ''an error'' \<or>
    (\<exists>header. compress_install (''ok'' @ newline # ''an error'') =
        header @ ''|status:failed'' @ [newline] @ lines_text (drop (1 - 2) (splitlines (''ok'' @ newline # ''an error''))) \<and>
      rx_found INSTALL_FAILURE_SIGNAL_RX (splitlines (''ok'' @ newline # ''an error'') ! 1) \<and>
      (\<forall>i. i < 1 \<longrightarrow> \<not> rx_found INSTALL_FAILURE_SIGNAL_RX (splitlines (''ok'' @ newline # ''an error'') ! i)))"
  by (rule install_failure_kept [OF sample_failure])

text \<open>The number of interesting processes counts the row on the ones left out.\<close>

lemma process_count_off:
  "prefix ''>>> tool:ps|total_lines:31|interesting:20''
     (compress_env_ps (concat (replicate 31 (''p'' @ [newline]))) ''ps_output'')"
  by code_simp

text \<open>
  The title of the failures section begins with equality signs and does not contain the word that the codec looks for, so that
  the lines of a failure under it are dropped: only its rules and the summary remain.
\<close>

lemma failure_details_dropped:
  "compress_pytest (lines_text [''== FAILURES =='', ''__ t __'', ''E 1 == 2'', ''== 1 failed in 1s =='']) [] =
     lines_text [''>>> tool:pytest|passed:0|failed:1'', ''verification: 1 failed'', ''== FAILURES =='', ''__ t __'',
                 ''== 1 failed in 1s ==''] "
  by code_simp

end
