(* ===== verification/ResultPipeline.thy ===== *)
theory ResultPipeline
  imports ResultCodecs
begin

section \<open>The compression of a tool result\<close>

text \<open>
  Models \<open>tok_tool_result_impl\<close> of \<open>src/tok/compression/_tool_result_pipeline.py\<close> with its helpers, and the registry of
  \<open>_registry.py\<close>: which results are left alone, which codec runs, when truncation follows, and what is added in front. The
  flags, the tokenizer, \<open>json.loads\<close> and the codec of file reads, which parses Python with the \<open>ast\<close> module, are the fields
  of one record; \<open>ctx\<close> is the tool context, \<open>JNull\<close> when there is none.
\<close>

record codec_env =
  ce_force_file :: bool
  ce_pytest_fail :: bool
  ce_json_guard :: bool
  ce_count_tokens :: "string \<Rightarrow> nat"
  ce_loads :: "string \<Rightarrow> json option"
  ce_file :: "string \<Rightarrow> string"

subsection \<open>The command and the path of a call\<close>

definition command_value :: "json \<Rightarrow> string \<Rightarrow> string option" where
  "command_value d key = (case jget key d of Some (JStr s) \<Rightarrow> if py_strip s \<noteq> [] then Some s else None | _ \<Rightarrow> None)"

definition tool_command_hint :: "json \<Rightarrow> string" where
  "tool_command_hint ctx =
     (case first_some id
             ((case jget ''args'' ctx of
                 Some (JObj d) \<Rightarrow> [command_value (JObj d) ''command'', command_value (JObj d) ''cmd''] | _ \<Rightarrow> []) @
              [command_value ctx ''command'', command_value ctx ''cmd'']) of
        None \<Rightarrow> [] | Some s \<Rightarrow> s)"

definition PATH_LIST_FLAGS :: "string list" where
  "PATH_LIST_FLAGS = [''--name-only'', ''--name-status'', ''--raw'']"

definition is_git_path_list_command :: "string \<Rightarrow> bool" where
  "is_git_path_list_command command =
     (if py_strip command = [] then False
      else let parts = (case shlex_split command of Some ws \<Rightarrow> ws | None \<Rightarrow> py_words command) in
        2 \<le> length parts \<and> last (split_by (\<lambda>c. c = slash) (hd parts)) = ''git'' \<and>
        parts ! 1 \<in> {''diff'', ''log'', ''show''} \<and>
        list_ex (\<lambda>p. p \<in> set PATH_LIST_FLAGS \<or> prefix ''--name-only='' p) (drop 2 parts))"

fun first_truthy :: "json option list \<Rightarrow> json" where
  "first_truthy [] = JStr []"
| "first_truthy (Some v # vs) = (if truthy v then v else first_truthy vs)"
| "first_truthy (None # vs) = first_truthy vs"

definition context_path :: "json \<Rightarrow> string" where
  "context_path ctx =
     (case jget ''args'' ctx of
        Some (JObj d) \<Rightarrow> py_str (first_truthy (map (map_of d) [''path'', ''file_path'', ''AbsolutePath'', ''TargetFile'']))
      | _ \<Rightarrow> [])"

subsection \<open>The registry\<close>

definition default_registry :: "codec_env \<Rightarrow> string \<Rightarrow> (string \<times> (string \<Rightarrow> string)) list" where
  "default_registry env command =
     [(''pytest'', \<lambda>tx. compress_pytest tx command), (''grep'', \<lambda>tx. compress_grep tx command),
      (''git_diff'', compress_git_diff), (''ls'', compress_ls), (''find'', compress_find), (''install'', compress_install),
      (''git_log'', compress_git_log), (''repetitive'', \<lambda>tx. compress_repetitive tx command), (''file'', ce_file env),
      (''search_results'', compress_search_results (ce_loads env)), (''stack_trace'', compress_stack_traces),
      (''ps_output'', \<lambda>tx. compress_env_ps tx ''ps_output''), (''env_output'', \<lambda>tx. compress_env_ps tx ''env_output''),
      (''grep_context'', compress_grep_context),
      (''config_json'', compress_config_json (ce_json_guard env) (ce_count_tokens env) (ce_loads env)),
      (''json_skeleton'', compress_config_json (ce_json_guard env) (ce_count_tokens env) (ce_loads env))]"

text \<open>The command that the codec of searches reads is the field \<open>command\<close> of the arguments alone.\<close>

definition grep_command :: "json \<Rightarrow> string" where
  "grep_command ctx =
     (case jget ''args'' ctx of Some (JObj d) \<Rightarrow> (case map_of d ''command'' of Some (JStr s) \<Rightarrow> s | _ \<Rightarrow> []) | _ \<Rightarrow> [])"

definition run_codec :: "codec_env \<Rightarrow> json \<Rightarrow> string \<Rightarrow> string \<Rightarrow> string" where
  "run_codec env ctx kind content =
     (if kind = ''grep'' then compress_grep content (grep_command ctx)
      else case map_of (default_registry env (tool_command_hint ctx)) kind of None \<Rightarrow> content | Some codec \<Rightarrow> codec content)"

subsection \<open>The pipeline\<close>

definition left_alone :: "codec_env \<Rightarrow> nat \<Rightarrow> json \<Rightarrow> string \<Rightarrow> bool" where
  "left_alone env threshold ctx content =
     (length content \<le> threshold \<or> is_tok_cli_command (tool_command_hint ctx) \<or>
      is_git_path_list_command (tool_command_hint ctx))"

definition result_kind :: "codec_env \<Rightarrow> json \<Rightarrow> string \<Rightarrow> string" where
  "result_kind env ctx content = detect_tool_content_type (ce_force_file env) (ce_loads env) content (context_path ctx)"

definition keeps_own_form :: "string \<Rightarrow> string \<Rightarrow> bool" where
  "keeps_own_form kind compressed =
     ((kind = ''file'' \<and> (py_contains ''|> ['' compressed \<or> py_contains ''lines]'' compressed)) \<or>
      kind \<in> {''git_diff'', ''find''})"

definition result_header :: "string \<Rightarrow> nat \<Rightarrow> nat \<Rightarrow> string" where
  "result_header kind original saved =
     ''>>> tok_compressed:tool_result|type:'' @ kind @ ''|original_chars:'' @ nat_str original @ ''|saved_chars:'' @
     nat_str saved @ [newline]"

definition compressed_form :: "codec_env \<Rightarrow> string \<Rightarrow> json \<Rightarrow> string \<Rightarrow> string" where
  "compressed_form env level ctx content =
     (let kind = result_kind env ctx content;
          compressed = tighten_compressed_output kind (run_codec env ctx kind content) level
      in if is_precision_read_context ctx then compressed
         else truncate_large_result compressed 1200 (keeps_own_form kind compressed) kind)"

definition tok_tool_result :: "codec_env \<Rightarrow> nat \<Rightarrow> string \<Rightarrow> json \<Rightarrow> string \<Rightarrow> string" where
  "tok_tool_result env threshold level ctx content =
     (if left_alone env threshold ctx content then content
      else let kind = result_kind env ctx content in
        if kind = ''pytest'' \<and> py_contains '' FAILED'' content \<and> \<not> ce_pytest_fail env then content
        else let compressed = compressed_form env level ctx content in
          if length content \<le> length compressed then content
          else if prefix ''>>>'' compressed then compressed
          else result_header kind (length content) (length content - length compressed) @ compressed)"

subsection \<open>What is returned\<close>

text \<open>The result is the content, or carries the mark and holds a form that is shorter than the content, with the number of
  saved characters in front of it exactly the difference.\<close>

lemma tool_result_forms:
  "tok_tool_result env threshold level ctx content = content \<or>
   (\<exists>body. length body < length content \<and>
      ((prefix ''>>>'' body \<and> tok_tool_result env threshold level ctx content = body) \<or>
       tok_tool_result env threshold level ctx content =
         result_header (result_kind env ctx content) (length content) (length content - length body) @ body))"
proof -
  have "tok_tool_result env threshold level ctx content = content \<or>
      (length (compressed_form env level ctx content) < length content \<and>
       tok_tool_result env threshold level ctx content =
         (if prefix ''>>>'' (compressed_form env level ctx content) then compressed_form env level ctx content
          else result_header (result_kind env ctx content) (length content)
                 (length content - length (compressed_form env level ctx content)) @ compressed_form env level ctx content))"
    unfolding tok_tool_result_def Let_def by (simp only: linorder_not_le split: if_split) blast
  then show ?thesis by (cases "prefix ''>>>'' (compressed_form env level ctx content)") auto
qed

lemma git_words_plain: "list_all (list_all shell_plain) [''git'', ''diff'', ''log'', ''show'']"
  by code_simp

text \<open>The output of \<open>git diff\<close>, \<open>git log\<close> or \<open>git show\<close> with a flag that asks for a list of paths is never changed, whatever
  the other arguments are and however long the output is.\<close>

lemma path_list_output_exact:
  assumes "tool_command_hint ctx = join '' '' (''git'' # sub # args)" "sub \<in> {''diff'', ''log'', ''show''}"
    "\<exists>flag \<in> set PATH_LIST_FLAGS. flag \<in> set args" "list_all (\<lambda>w. w \<noteq> [] \<and> list_all shell_plain w) args"
  shows "tok_tool_result env threshold level ctx content = content"
proof -
  let ?ws = "''git'' # sub # args"
  have "list_all (\<lambda>w. w \<noteq> [] \<and> list_all shell_plain w) ?ws"
    using assms(2,4) git_words_plain by auto
  then have split: "shlex_split (join '' '' ?ws) = Some ?ws" by (rule shlex_split_join)
  have "CHR ''g'' \<in> set (join '' '' ?ws)" by simp
  then have "py_strip (join '' '' ?ws) \<noteq> []"
    unfolding py_strip_def strip_by_Nil_iff by (auto simp: py_space_def)
  moreover have "last (split_by (\<lambda>c. c = slash) ''git'') = ''git''" by (simp add: slash_def)
  moreover define cmd where "cmd = join '' '' ?ws"
  ultimately have cmd: "py_strip cmd \<noteq> []" "shlex_split cmd = Some ?ws" "last (split_by (\<lambda>c. c = slash) ''git'') = ''git''"
    using split by simp_all
  have "list_ex (\<lambda>p. p \<in> set PATH_LIST_FLAGS \<or> prefix ''--name-only='' p) args"
    using assms(3) by (auto simp: list_ex_iff)
  then have "is_git_path_list_command cmd"
    unfolding is_git_path_list_command_def Let_def using cmd assms(2) by simp
  then show ?thesis by (simp add: tok_tool_result_def left_alone_def assms(1) cmd_def)
qed

text \<open>A read that asks for an exact range of lines gets raw text letter by letter: no codec runs on it and it is not truncated.\<close>

lemma precision_read_exact:
  assumes "is_precision_read_context ctx" "result_kind env ctx content = ''raw''"
  shows "tok_tool_result env threshold level ctx content = content"
  using assms
  by (simp add: tok_tool_result_def Let_def compressed_form_def run_codec_def default_registry_def tighten_compressed_output_def)

text \<open>The mark is added after the savings were found positive, so that the result may be longer than the content.\<close>

lemma marked_result_longer:
  assumes "\<not> left_alone env threshold ctx content" "\<not> prefix ''>>>'' (compressed_form env level ctx content)"
    "result_kind env ctx content = ''raw''"
    "length (compressed_form env level ctx content) < length content"
    "length content \<le> length (compressed_form env level ctx content) + 60"
  shows "length content < length (tok_tool_result env threshold level ctx content)"
proof -
  have "length (result_header ''raw'' n k) > 60" for n k
    by (simp add: result_header_def)
  then show ?thesis
    using assms by (simp add: tok_tool_result_def Let_def)
      (metis add.commute add_less_cancel_left le_less_trans length_append)
qed

subsection \<open>Examples\<close>

definition sample_env :: codec_env where
  "sample_env =
     \<lparr>ce_force_file = False, ce_pytest_fail = False, ce_json_guard = True, ce_count_tokens = length, ce_loads = (\<lambda>_. None),
      ce_file = id\<rparr>"

definition sample_git_context :: json where
  "sample_git_context = JObj [(''name'', JStr ''bash''), (''args'', JObj [(''command'', JStr ''git diff --name-only main'')])]"

lemma path_list_output_exact_witness: "tok_tool_result sample_env 0 ''balanced'' sample_git_context ''a.py'' = ''a.py''"
proof (rule path_list_output_exact [where sub = "''diff''" and args = "[''--name-only'', ''main'']"])
  show "tool_command_hint sample_git_context = join '' '' [''git'', ''diff'', ''--name-only'', ''main'']" by code_simp
  show "list_all (\<lambda>w. w \<noteq> [] \<and> list_all shell_plain w) [''--name-only'', ''main'']" by code_simp
qed (simp_all add: PATH_LIST_FLAGS_def)

definition sample_read_context :: json where
  "sample_read_context =
     JObj [(''name'', JStr ''read_file''), (''args'', JObj [(''path'', JStr ''notes.txt''), (''offset'', JInt 10)])]"

lemma precision_read_exact_witness: "tok_tool_result sample_env 0 ''balanced'' sample_read_context ''plain'' = ''plain''"
proof (rule precision_read_exact)
  show "is_precision_read_context sample_read_context" by code_simp
  show "result_kind sample_env sample_read_context ''plain'' = ''raw''" by code_simp
qed

end
