(* ===== verification/AnthropicOptimizations.thy ===== *)
theory AnthropicOptimizations
  imports ResultCodecs ProviderBlocks
begin

section \<open>Optimisations of a request to Anthropic\<close>

text \<open>
  Models \<open>src/tok/gateway/_anthropic_optimizations.py\<close>: leaked control state is scrubbed from the texts of a request, the
  system prompt is split for caching, tool results are sifted, and Tok syntax is rewritten. A body is the JSON value of a
  request; where the code mutates blocks in place the model returns the new body. \<open>count_tokens\<close> and \<open>loads\<close> are parameters, as
  are the flags.
\<close>

subsection \<open>The system prompt\<close>

definition DYNAMIC_BOUNDARY :: string where
  "DYNAMIC_BOUNDARY = ''__SYSTEM_PROMPT_DYNAMIC_BOUNDARY__''"

definition CACHE_MIN_CHARS :: nat where
  "CACHE_MIN_CHARS = 800"

definition system_text_block :: "string \<Rightarrow> json" where
  "system_text_block t = JObj [(''type'', JStr ''text''), (''text'', JStr t)]"

definition cached_text_block :: "string \<Rightarrow> json" where
  "cached_text_block t =
     JObj [(''type'', JStr ''text''), (''text'', JStr t), (''cache_control'', JObj [(''type'', JStr ''ephemeral'')])]"

definition split_system_for_caching :: "json \<Rightarrow> json" where
  "split_system_for_caching body =
     (case jget ''system'' body of
        Some (JStr system) \<Rightarrow>
          (case py_find DYNAMIC_BOUNDARY system of
             Some i \<Rightarrow>
               let static_text = rstrip (take i system);
                   dynamic_text = dropWhile (\<lambda>c. c = newline) (drop (i + length DYNAMIC_BOUNDARY) system)
               in if CACHE_MIN_CHARS \<le> length static_text
                  then jset ''system'' (JList [cached_text_block static_text, system_text_block dynamic_text]) body else body
           | None \<Rightarrow>
               if CACHE_MIN_CHARS \<le> length system then jset ''system'' (JList [cached_text_block system]) body else body)
      | _ \<Rightarrow> body)"

subsection \<open>Leaked control state\<close>

definition LEAKED_POINTERS_RX :: rx where
  "LEAKED_POINTERS_RX =
     seqs [Bol, lit ''@pointers'', star space_rx, one_of [newline], lazy_star (Cls (\<lambda>_. True)),
           Look True (alts [Seq Bol nonspace_rx, TextEnd])]"

definition LEAKED_TOK_STATE_RX :: rx where
  "LEAKED_TOK_STATE_RX =
     seqs [Bol, lit ''>>>'', space_rx, star dot,
           star (seqs [one_of [newline],
             Look False (Seq (star space_rx) (alts
               [lit ''commit'', lit ''Author:'', lit ''Date:'', lit ''diff --git'',
                Seq (Rep True 1 (Some 2) (one_of ''MADRCU?!'')) space_rx, TextEnd])),
             star dot])]"

definition LEAKED_TOK_FACT_RX :: rx where
  "LEAKED_TOK_FACT_RX =
     seqs [Bol, star space_rx, maybe (Seq (Cls (\<lambda>c. CHR ''a'' \<le> c \<and> c \<le> CHR ''z'')) (lit '':'')),
           alts [lit ''answer_file'', lit ''answer_verification'',
                 seqs [lit ''file['', plus1 (Cls (\<lambda>c. c \<noteq> CHR '']'' \<and> c \<noteq> newline)), lit '']''],
                 lit ''is_skeleton'', lit ''s:drift_healed'', Seq (lit ''k:answer_'') (plus1 dot)],
           Look False (Seq (star space_rx) (lit ''='')), star dot, maybe (one_of [newline])]"

definition newline_run_rx :: rx where
  "newline_run_rx = Rep True 3 None (one_of [newline])"

definition STATE_LEAK_MARKERS :: "string list" where
  "STATE_LEAK_MARKERS =
     [''g:_CLAUDE'', ''s:drift_healed'', ''k:answer_'', ''answer_file'', ''answer_verification'', ''file['', ''is_skeleton'']"

definition may_leak :: "string \<Rightarrow> bool" where
  "may_leak tx =
     (py_contains ''gitStatus'' tx \<or> py_contains ''@pointers'' tx \<or>
      (py_contains ''>>>'' tx \<and> list_ex (\<lambda>k. py_contains k tx) STATE_LEAK_MARKERS))"

definition scrub_text :: "string \<Rightarrow> string \<times> nat" where
  "scrub_text tx =
     (if tx = [] \<or> \<not> may_leak tx then (tx, 0)
      else let c1 = rx_sub LEAKED_POINTERS_RX (\<lambda>_. []) tx;
               c2 = rx_sub LEAKED_TOK_STATE_RX (\<lambda>_. []) c1;
               c3 = rx_sub LEAKED_TOK_FACT_RX (\<lambda>_. []) c2;
               cleaned = strip_by (\<lambda>c. c = newline) (rx_sub newline_run_rx (\<lambda>_. [newline, newline]) c3)
           in (cleaned, length tx - length cleaned))"

text \<open>\<open>_clean_value\<close>: only strings are cleaned.\<close>

definition clean_value :: "json \<Rightarrow> json \<times> nat" where
  "clean_value v = (case v of JStr s \<Rightarrow> (let (t, n) = scrub_text s in (JStr t, n)) | _ \<Rightarrow> (v, 0))"

text \<open>A text block gets its cleaned text and goes when nothing is left of it.\<close>

definition clean_block :: "json \<Rightarrow> json list \<times> nat" where
  "clean_block block =
     (if is_text_block block then
        let (v, n) = clean_value (jget_or ''text'' (JStr []) block); b = jset ''text'' v block
        in if str_strip v = [] then ([], n) else ([b], n)
      else ([block], 0))"

definition clean_blocks :: "json list \<Rightarrow> json list \<times> nat" where
  "clean_blocks blocks = (concat (map (fst \<circ> clean_block) blocks), sum_list (map (snd \<circ> clean_block) blocks))"

definition clean_field :: "string \<Rightarrow> json \<Rightarrow> json \<times> nat" where
  "clean_field key j =
     (case jget key j of
        Some (JStr s) \<Rightarrow> (let (v, n) = clean_value (JStr s) in (jset key v j, n))
      | Some (JList blocks) \<Rightarrow> (let (bs, n) = clean_blocks blocks in (jset key (JList bs) j, n))
      | _ \<Rightarrow> (j, 0))"

definition scrub_leaked_tok_context :: "json \<Rightarrow> json \<times> nat" where
  "scrub_leaked_tok_context body =
     (let (body, n) = clean_field ''system'' body in
      case jget ''messages'' body of
        Some (JList messages) \<Rightarrow>
          (jset ''messages'' (JList (map (fst \<circ> clean_field ''content'') messages)) body,
           n + sum_list (map (snd \<circ> clean_field ''content'') messages))
      | _ \<Rightarrow> (body, n))"

subsection \<open>Tool results\<close>

text \<open>The flags of the codecs and \<open>json.loads\<close>.\<close>

definition sift_stdout :: "bool \<Rightarrow> bool \<Rightarrow> (string \<Rightarrow> json option) \<Rightarrow> string \<Rightarrow> string" where
  "sift_stdout force_file pytest_fail loads tx =
     (if length tx < 80 \<or> prefix ''>>> '' tx then tx
      else if length (filter (\<lambda>c. c = newline) tx) + 1 \<le> 100 \<and> length tx \<le> 10000 then tx
      else let kind = detect_tool_content_type force_file loads tx [] in
        if kind = ''ls'' then compress_ls tx
        else if kind = ''git_log'' then compress_git_log tx
        else if kind = ''grep_context'' then compress_grep_context tx
        else if kind = ''grep'' then compress_grep tx []
        else if kind = ''pytest'' then
          (if py_contains '' FAILED'' tx \<and> \<not> pytest_fail then tx else compress_pytest tx [])
        else if kind = ''stack_trace'' then compress_stack_traces tx
        else if kind = ''install'' then compress_install tx
        else if 1200 < length tx then
          (if kind = ''file'' \<or> rx_found CODE_PATTERNS_RX tx then tx else truncate_large_result tx 1200 False [])
        else tx)"

text \<open>What sifting one text yields: the shorter text, if it is shorter, and the tokens before and saved.\<close>

record sifted =
  sf_text :: "string option"
  sf_chars :: nat
  sf_tokens :: nat
  sf_saved_tokens :: nat

definition sift_text :: "(string \<Rightarrow> string) \<Rightarrow> (string \<Rightarrow> nat) \<Rightarrow> string \<Rightarrow> sifted" where
  "sift_text sift count_tokens original =
     (let compressed = sift original in
      if length compressed < length original
      then \<lparr>sf_text = Some compressed, sf_chars = length original - length compressed, sf_tokens = count_tokens original,
            sf_saved_tokens = count_tokens original - count_tokens compressed\<rparr>
      else \<lparr>sf_text = None, sf_chars = 0, sf_tokens = count_tokens original, sf_saved_tokens = 0\<rparr>)"

definition put_text :: "string \<Rightarrow> string option \<Rightarrow> json \<Rightarrow> json" where
  "put_text key t j = (case t of None \<Rightarrow> j | Some s \<Rightarrow> jset key (JStr s) j)"

definition nothing_sifted :: sifted where
  "nothing_sifted = \<lparr>sf_text = None, sf_chars = 0, sf_tokens = 0, sf_saved_tokens = 0\<rparr>"

definition sift_sub :: "(string \<Rightarrow> string) \<Rightarrow> (string \<Rightarrow> nat) \<Rightarrow> json \<Rightarrow> json \<times> sifted" where
  "sift_sub sift count_tokens sub =
     (if is_text_block sub
      then let r = sift_text sift count_tokens (py_str (jget_or ''text'' (JStr []) sub)) in (put_text ''text'' (sf_text r) sub, r)
      else (sub, nothing_sifted))"

definition note_cache_marked :: "nat \<Rightarrow> nat \<Rightarrow> counts option \<Rightarrow> counts option" where
  "note_cache_marked tokens saved signals =
     map_option (\<lambda>s. cadd ''tok_sift_cache_marked_saved_tokens'' (int saved)
                      (cadd ''tok_sift_cache_marked_block_tokens'' (int tokens) (cadd ''tok_sift_cache_marked_blocks'' 1 s))) signals"

definition sift_block ::
    "(string \<Rightarrow> string) \<Rightarrow> (string \<Rightarrow> nat) \<Rightarrow> json \<Rightarrow> counts option \<Rightarrow> json \<times> nat \<times> counts option" where
  "sift_block sift count_tokens block signals =
     (if \<not> has_type ''tool_result'' block then (block, 0, signals)
      else let (block', rs) =
             (case jget ''content'' block of
                Some (JList subs) \<Rightarrow>
                  (let ps = map (sift_sub sift count_tokens) subs in (jset ''content'' (JList (map fst ps)) block, map snd ps))
              | Some (JStr s) \<Rightarrow> (let r = sift_text sift count_tokens s in (put_text ''content'' (sf_text r) block, [r]))
              | _ \<Rightarrow> (block, []));
             tokens = sum_list (map sf_tokens rs)
        in (block', sum_list (map sf_chars rs),
            if jget ''cache_control'' block \<noteq> None \<and> 0 < tokens
            then note_cache_marked tokens (sum_list (map sf_saved_tokens rs)) signals else signals))"

fun sift_blocks ::
    "(string \<Rightarrow> string) \<Rightarrow> (string \<Rightarrow> nat) \<Rightarrow> json list \<Rightarrow> counts option \<Rightarrow> json list \<times> nat \<times> counts option" where
  "sift_blocks sift count_tokens [] signals = ([], 0, signals)"
| "sift_blocks sift count_tokens (b # bs) signals =
     (let (b', n, signals') = sift_block sift count_tokens b signals;
          (bs', m, signals'') = sift_blocks sift count_tokens bs signals'
      in (b' # bs', n + m, signals''))"

text \<open>A message that is not a dictionary raises; what was done before it stays done. The flag says whether the walk came to its end.\<close>

fun sift_messages ::
    "(string \<Rightarrow> string) \<Rightarrow> (string \<Rightarrow> nat) \<Rightarrow> json list \<Rightarrow> counts option \<Rightarrow> json list \<times> counts option \<times> bool" where
  "sift_messages sift count_tokens [] signals = ([], signals, True)"
| "sift_messages sift count_tokens (m # ms) signals =
     (if \<not> is_dict m then (m # ms, signals, False)
      else let (m', signals') =
             (case (jget ''role'' m, jget ''content'' m) of
                (Some (JStr role), Some (JList blocks)) \<Rightarrow>
                  if role = ''user''
                  then let (bs, n, s) = sift_blocks sift count_tokens blocks signals in (jset ''content'' (JList bs) m, s)
                  else (m, signals)
              | _ \<Rightarrow> (m, signals));
             (ms', signals'', ok) = sift_messages sift count_tokens ms signals'
        in (m' # ms', signals'', ok))"

subsection \<open>Tok syntax\<close>

definition BLOCK_NAMES :: "string list" where
  "BLOCK_NAMES = [''msg'', ''thought'', ''Tool'', ''result'', ''meta'', ''Delegate'']"

definition STATE_LINE_RX :: rx where
  "STATE_LINE_RX = seqs [Bol, Grp 1 (lit ''>>> ''), Grp 2 (plus1 dot), Eol]"

definition PIPE_ATTR_RX :: rx where
  "PIPE_ATTR_RX = Seq (lit ''|'') (Grp 1 (Seq (plus1 (Cls (\<lambda>c. (CHR ''a'' \<le> c \<and> c \<le> CHR ''z'') \<or> c = CHR ''_''))) (lit '':'')))"

definition TOK_BLOCK_RX :: rx where
  "TOK_BLOCK_RX = seqs [Bol, Grp 1 (Rep True 2 None (lit '' '')), lit ''@'', Grp 2 (alts (map lit BLOCK_NAMES)), WordB]"

definition TOK_HEADER_RX :: rx where
  "TOK_HEADER_RX = Seq Bol (lit ''>>>'')"

definition TOK_KNOWN_BLOCK_RX :: rx where
  "TOK_KNOWN_BLOCK_RX = seqs [Bol, lit ''@'', Grp 1 (alts (map lit BLOCK_NAMES)), WordB]"

text \<open>The text of a block may be any value; one whose length cannot be taken, or that is no text though it is long, raises.\<close>

definition looks_like_tok_wire :: "json \<Rightarrow> bool py" where
  "looks_like_tok_wire v =
     (case v of
        JStr s \<Rightarrow> Inr (10 \<le> length s \<and> (rx_found TOK_HEADER_RX s \<or> rx_found TOK_KNOWN_BLOCK_RX s))
      | JList xs \<Rightarrow> if length xs < 10 then Inr False else Inl TypeError
      | JObj d \<Rightarrow> if length d < 10 then Inr False else Inl TypeError
      | _ \<Rightarrow> if truthy v then Inl TypeError else Inr False)"

definition replace_all :: "string \<Rightarrow> string \<Rightarrow> string \<Rightarrow> string" where
  "replace_all old new = rx_sub (lit old) (\<lambda>_. new)"

definition translate_state_line :: "string \<Rightarrow> match_result \<Rightarrow> string" where
  "translate_state_line tx m =
     (let rest = group_text tx m 2 in
      group_text tx m 1 @ rx_sub PIPE_ATTR_RX (\<lambda>p. CHR '','' # group_text rest p 1) rest)"

definition translate_bpe :: "string \<Rightarrow> string" where
  "translate_bpe tx =
     (if length tx < 10 then tx
      else let r1 = rx_sub STATE_LINE_RX (translate_state_line tx) tx;
               r2 = replace_all ''|>'' ''>'' (replace_all ''|> '' ''> '' (replace_all '' | '' '','' r1));
               r3 = rx_sub TOK_BLOCK_RX (\<lambda>m. CHR ''@'' # group_text r2 m 2) r2
           in rx_sub newline_run_rx (\<lambda>_. [newline]) r3)"

definition translate_value :: "string \<Rightarrow> json \<Rightarrow> json py" where
  "translate_value key j =
     (let raw = jget_or key (JStr []) j in
      bind_py (looks_like_tok_wire raw) (\<lambda>wire.
        Inr (if wire then jset key (JStr (translate_bpe (py_str raw))) j else j)))"

text \<open>As before: the values changed so far, and whether the walk came to its end.\<close>

fun translate_blocks :: "(json \<Rightarrow> bool) \<Rightarrow> json list \<Rightarrow> json list \<times> bool" where
  "translate_blocks is_text [] = ([], True)"
| "translate_blocks is_text (b # bs) =
     (if is_text b then
        (case translate_value ''text'' b of
           Inl _ \<Rightarrow> (b # bs, False)
         | Inr b' \<Rightarrow> (let (bs', ok) = translate_blocks is_text bs in (b' # bs', ok)))
      else let (bs', ok) = translate_blocks is_text bs in (b # bs', ok))"

definition translate_field :: "string \<Rightarrow> (json \<Rightarrow> bool) \<Rightarrow> json \<Rightarrow> json \<times> bool" where
  "translate_field key is_text j =
     (case jget key j of
        Some (JStr s) \<Rightarrow> (case translate_value key j of Inl _ \<Rightarrow> (j, False) | Inr j' \<Rightarrow> (j', True))
      | Some (JList blocks) \<Rightarrow> (let (bs, ok) = translate_blocks is_text blocks in (jset key (JList bs) j, ok))
      | _ \<Rightarrow> (j, True))"

fun translate_messages :: "json list \<Rightarrow> json list \<times> bool" where
  "translate_messages [] = ([], True)"
| "translate_messages (m # ms) =
     (if \<not> is_dict m then (m # ms, False)
      else let (m', ok) = translate_field ''content'' (has_type ''text'') m in
        if \<not> ok then (m' # ms, False)
        else let (ms', ok') = translate_messages ms in (m' # ms', ok'))"

subsection \<open>All of them\<close>

text \<open>\<open>json.dumps(body, ensure_ascii=False, separators=(",", ":"))\<close>: the fields in their order, no blanks.\<close>

fun dumps_wire :: "json \<Rightarrow> string" where
  "dumps_wire JNull = ''null''"
| "dumps_wire (JBool b) = (if b then ''true'' else ''false'')"
| "dumps_wire (JInt i) = int_str i"
| "dumps_wire (JFloat t) = t"
| "dumps_wire (JStr s) = dumps_text_str s"
| "dumps_wire (JList xs) = ''['' @ join '','' (map dumps_wire xs) @ '']''"
| "dumps_wire (JObj d) = ''{'' @ join '','' (map (\<lambda>(k, v). dumps_text_str k @ '':'' @ dumps_wire v) d) @ ''}''"

text \<open>
  \<open>body, _ = sift_tool_results(body)\<close>: without a list of messages the function returns the body alone, which is then unpacked. A
  body of two fields becomes the name of the first, any other number of fields raises.
\<close>

definition unpack_body :: "json \<Rightarrow> json \<times> bool" where
  "unpack_body body =
     (case body of JObj d \<Rightarrow> if length d = 2 then (JStr (fst (hd d)), True) else (body, False) | _ \<Rightarrow> (body, False))"

definition sift_tool_results ::
    "(string \<Rightarrow> string) \<Rightarrow> (string \<Rightarrow> nat) \<Rightarrow> json \<Rightarrow> counts option \<Rightarrow> json \<times> counts option \<times> bool" where
  "sift_tool_results sift count_tokens body signals =
     (case jget ''messages'' body of
        Some (JList ms) \<Rightarrow>
          (let (ms', signals', ok) = sift_messages sift count_tokens ms signals
           in (jset ''messages'' (JList ms') body, signals', ok))
      | _ \<Rightarrow> (let (b, ok) = unpack_body body in (b, signals, ok)))"

definition bpe_translate_request :: "json \<Rightarrow> json \<times> bool" where
  "bpe_translate_request body =
     (if \<not> is_dict body then (body, False)
      else case jget ''messages'' body of
        Some (JList ms) \<Rightarrow>
          (let (ms', ok) = translate_messages ms; body' = jset ''messages'' (JList ms') body
           in if ok then translate_field ''system'' is_text_block body' else (body', False))
      | _ \<Rightarrow> unpack_body body)"

definition optimized_body ::
    "(string \<Rightarrow> string) \<Rightarrow> (string \<Rightarrow> nat) \<Rightarrow> json \<Rightarrow> counts option \<Rightarrow> json \<times> counts option" where
  "optimized_body sift count_tokens body signals =
     (let b1 = split_system_for_caching (fst (scrub_leaked_tok_context body));
          (b2, signals', ok) = sift_tool_results sift count_tokens b1 signals
      in if ok then (fst (bpe_translate_request b2), signals') else (b2, signals'))"

definition apply_anthropic_optimizations ::
    "bool \<Rightarrow> bool \<Rightarrow> (string \<Rightarrow> json option) \<Rightarrow> (string \<Rightarrow> nat) \<Rightarrow> bool \<Rightarrow> json \<Rightarrow> counts option \<Rightarrow>
      json \<times> nat \<times> counts option" where
  "apply_anthropic_optimizations force_file pytest_fail loads count_tokens is_claude_bridge body signals =
     (if \<not> is_claude_bridge then (body, 0, signals)
      else let (body', signals') = optimized_body (sift_stdout force_file pytest_fail loads) count_tokens body signals
           in (body', count_tokens (dumps_wire body) - count_tokens (dumps_wire body'), signals'))"

subsection \<open>What is left alone\<close>

text \<open>What a provider needs to pair tool calls with results: everything of a block that is no text, its content aside.\<close>

definition tool_frame :: "json \<Rightarrow> json option list" where
  "tool_frame b =
     map (\<lambda>k. jget k b) [''type'', ''id'', ''tool_use_id'', ''name'', ''input'', ''is_error'', ''cache_control'', ''thinking'', ''signature'', ''data'', ''source'']"

definition message_frame :: "json \<Rightarrow> json option \<times> json option list list" where
  "message_frame m =
     (jget ''role'' m,
      case jget ''content'' m of Some (JList bs) \<Rightarrow> map tool_frame (filter (\<lambda>b. \<not> is_text_block b) bs) | _ \<Rightarrow> [])"

definition frames :: "json list \<Rightarrow> json option list list" where
  "frames bs = map tool_frame (filter (\<lambda>b. \<not> is_text_block b) bs)"

lemma frames_Nil [simp]: "frames [] = []"
  by (simp add: frames_def)

lemma frames_Cons: "frames (b # bs) = (if is_text_block b then frames bs else tool_frame b # frames bs)"
  by (simp add: frames_def)

lemma frames_append: "frames (xs @ ys) = frames xs @ frames ys"
  by (simp add: frames_def)

lemma text_has_type: "is_text_block b = has_type ''text'' b"
  by (simp add: is_text_block_def block_type_Some TEXT_BLOCK_TYPE_def)

lemma text_jset [simp]: "k \<noteq> ''type'' \<Longrightarrow> is_text_block (jset k v b) = is_text_block b"
  by (simp add: text_has_type)

lemma frame_jset: "is_dict b \<Longrightarrow> tool_frame (jset ''content'' v b) = tool_frame b"
  by (simp add: tool_frame_def)

lemma message_frame_content:
  "jget ''content'' m = Some (JList bs) \<Longrightarrow> frames cs = frames bs \<Longrightarrow> message_frame (jset ''content'' (JList cs) m) = message_frame m"
  using jget_SomeD [of "''content''" m] by (simp add: message_frame_def frames_def)

lemma message_frame_string:
  "jget ''content'' m = Some (JStr s) \<Longrightarrow> message_frame (jset ''content'' (JStr t) m) = message_frame m"
  using jget_SomeD [of "''content''" m] by (simp add: message_frame_def)

lemma clean_blocks_frames: "frames (fst (clean_blocks bs)) = frames bs"
  by (induction bs) (auto simp: clean_blocks_def clean_block_def frames_append frames_Cons Let_def split: prod.splits)

lemma clean_field_frame: "message_frame (fst (clean_field ''content'' m)) = message_frame m"
proof (cases "jget ''content'' m")
  case (Some c)
  have string: "fst (clean_value (JStr x)) = JStr (fst (scrub_text x))" for x
    by (simp add: clean_value_def split: prod.splits)
  show ?thesis
    using string by (cases c) (simp_all add: clean_field_def Some Let_def case_prod_beta message_frame_string message_frame_content clean_blocks_frames)
qed (simp add: clean_field_def)

lemma sift_block_frame:
  "is_text_block (fst (sift_block sift ct b sg)) = is_text_block b \<and> tool_frame (fst (sift_block sift ct b sg)) = tool_frame b"
proof (cases "has_type ''tool_result'' b")
  case True
  then have "is_dict b" by (auto simp: has_type_def dest: jget_SomeD)
  then show ?thesis
    by (auto simp: sift_block_def put_text_def frame_jset Let_def split: option.splits json.splits)
qed (simp add: sift_block_def)

lemma sift_blocks_frames: "frames (fst (sift_blocks sift ct bs sg)) = frames bs"
proof (induction bs arbitrary: sg)
  case (Cons b bs)
  obtain b' n s' where b: "sift_block sift ct b sg = (b', n, s')" by (cases "sift_block sift ct b sg") auto
  show ?case
    using Cons [of s'] sift_block_frame [of sift ct b sg]
    by (auto simp: b frames_Cons split: prod.splits)
qed simp

lemma sift_messages_frames: "map message_frame (fst (sift_messages sift ct ms sg)) = map message_frame ms"
proof (induction ms arbitrary: sg)
  case (Cons m ms)
  define step where "step = (case (jget ''role'' m, jget ''content'' m) of
      (Some (JStr role), Some (JList blocks)) \<Rightarrow>
        if role = ''user'' then let (bs, n, s) = sift_blocks sift ct blocks sg in (jset ''content'' (JList bs) m, s) else (m, sg)
    | _ \<Rightarrow> (m, sg))"
  have step: "message_frame (fst step) = message_frame m"
    unfolding step_def case_prod_beta Let_def
    by (simp add: message_frame_content sift_blocks_frames split: option.split json.split)
  have unfold_once: "sift_messages sift ct (m # ms) sg =
      (if \<not> is_dict m then (m # ms, sg, False)
       else let (ms', sg', ok) = sift_messages sift ct ms (snd step) in (fst step # ms', sg', ok))"
    by (simp add: step_def Let_def case_prod_beta)
  show ?case
    unfolding unfold_once using step Cons by (simp add: case_prod_beta)
qed simp

lemma translate_value_shape: "translate_value k j = Inr j' \<Longrightarrow> j' = j \<or> (\<exists>t. j' = jset k (JStr t) j)"
  by (auto simp: translate_value_def Let_def bind_py_def split: sum.splits if_splits)

lemma translate_blocks_frames: "frames (fst (translate_blocks (has_type ''text'') bs)) = frames bs"
proof (induction bs)
  case (Cons b bs)
  then show ?case
    by (auto simp: frames_Cons text_has_type split: prod.splits sum.splits dest!: translate_value_shape)
qed simp

lemma translate_field_frame: "message_frame (fst (translate_field ''content'' (has_type ''text'') m)) = message_frame m"
proof (cases "jget ''content'' m")
  case (Some c)
  then show ?thesis
    by (cases c) (auto simp: translate_field_def Let_def case_prod_beta message_frame_content message_frame_string
        translate_blocks_frames split: sum.splits dest!: translate_value_shape)
qed (simp add: translate_field_def)

lemma translate_messages_frames: "map message_frame (fst (translate_messages ms)) = map message_frame ms"
proof (induction ms)
  case (Cons m ms)
  show ?case using Cons translate_field_frame [of m] by (auto simp: Let_def split: prod.splits)
qed simp

lemma messages_field_kept:
  assumes "k \<noteq> ''messages''"
  shows "jget ''messages'' (jset k v j) = jget ''messages'' j"
  using assms by (cases j) auto

lemma clean_system_messages: "jget ''messages'' (fst (clean_field ''system'' body)) = jget ''messages'' body"
  by (auto simp: clean_field_def Let_def case_prod_beta messages_field_kept split: option.split json.split)

lemma scrub_messages:
  "jget ''messages'' body = Some (JList ms) \<Longrightarrow>
   jget ''messages'' (fst (scrub_leaked_tok_context body)) = Some (JList (map (fst \<circ> clean_field ''content'') ms))"
  using clean_system_messages [of body] jget_SomeD [of "''messages''" "fst (clean_field ''system'' body)"]
  by (simp add: scrub_leaked_tok_context_def Let_def case_prod_beta)

lemma split_messages: "jget ''messages'' (split_system_for_caching body) = jget ''messages'' body"
  by (auto simp: split_system_for_caching_def Let_def messages_field_kept split: option.split json.split)

lemma sift_tool_results_messages:
  "jget ''messages'' body = Some (JList ms) \<Longrightarrow>
   jget ''messages'' (fst (sift_tool_results sift ct body sg)) = Some (JList (fst (sift_messages sift ct ms sg)))"
  using jget_SomeD [of "''messages''" body] by (simp add: sift_tool_results_def Let_def case_prod_beta)

lemma translate_system_messages: "jget ''messages'' (fst (translate_field ''system'' f body)) = jget ''messages'' body"
  by (auto simp: translate_field_def Let_def case_prod_beta messages_field_kept split: option.split json.split sum.split
      dest!: translate_value_shape)

lemma translate_messages_field:
  "jget ''messages'' body = Some (JList ms) \<Longrightarrow>
   jget ''messages'' (fst (bpe_translate_request body)) = Some (JList (fst (translate_messages ms)))"
  using jget_SomeD [of "''messages''" body]
  by (simp add: bpe_translate_request_def Let_def case_prod_beta translate_system_messages)

lemma optimized_frames:
  assumes "jget ''messages'' body = Some (JList ms)"
  shows "\<exists>ms'. jget ''messages'' (fst (optimized_body sift ct body sg)) = Some (JList ms') \<and>
               map message_frame ms' = map message_frame ms"
proof -
  define b1 where "b1 = split_system_for_caching (fst (scrub_leaked_tok_context body))"
  define ms1 where "ms1 = map (fst \<circ> clean_field ''content'') ms"
  define ms2 where "ms2 = fst (sift_messages sift ct ms1 sg)"
  have "jget ''messages'' b1 = Some (JList ms1)"
    by (simp add: b1_def ms1_def split_messages scrub_messages assms)
  then have "jget ''messages'' (fst (sift_tool_results sift ct b1 sg)) = Some (JList ms2)"
    by (simp add: ms2_def sift_tool_results_messages)
  moreover have "map message_frame ms2 = map message_frame ms"
    by (simp add: ms2_def sift_messages_frames ms1_def clean_field_frame)
  ultimately show ?thesis
    by (auto simp: optimized_body_def b1_def [symmetric] Let_def case_prod_beta translate_messages_field translate_messages_frames)
qed

text \<open>C21: whatever the optimisations rewrite, the request keeps every message with its role, and in it every block that is no text:
  its type, the identifiers that pair tool calls with results, the name and input of a call, the error and cache marks and the signed
  thinking are as they were, also when a step fails half way.\<close>

theorem optimizations_keep_tool_blocks:
  assumes "jget ''messages'' body = Some (JList ms)"
  shows "\<exists>ms'. jget ''messages'' (fst (apply_anthropic_optimizations ff pf loads ct bridge body sg)) = Some (JList ms') \<and>
               map message_frame ms' = map message_frame ms"
  using assms optimized_frames [OF assms, of "sift_stdout ff pf loads" ct sg]
  by (auto simp: apply_anthropic_optimizations_def Let_def case_prod_beta)

theorem optimizations_keep_tool_blocks_witness:
  "\<exists>ms'. jget ''messages'' (fst (apply_anthropic_optimizations False True (\<lambda>_. None) length True
        (JObj [(''messages'', JList [JObj [(''role'', JStr ''user''), (''content'', JList
          [JObj [(''type'', JStr ''tool_result''), (''tool_use_id'', JStr ''t1''), (''content'', JStr ''ok'')]])]])]) None)) = Some (JList ms') \<and>
     map (fst \<circ> message_frame) ms' = [Some (JStr ''user'')]"
  using optimizations_keep_tool_blocks [of "JObj [(''messages'', JList [JObj [(''role'', JStr ''user''), (''content'', JList
          [JObj [(''type'', JStr ''tool_result''), (''tool_use_id'', JStr ''t1''), (''content'', JStr ''ok'')]])]])]"
      "[JObj [(''role'', JStr ''user''), (''content'', JList
          [JObj [(''type'', JStr ''tool_result''), (''tool_use_id'', JStr ''t1''), (''content'', JStr ''ok'')]])]]"
      False True "\<lambda>_. None" length True None]
  by (fastforce simp: message_frame_def)

subsection \<open>Texts only get shorter\<close>

lemma finditer_from_ends:
  "m \<in> set (finditer_from r s i advance) \<Longrightarrow> \<exists>k j gs. m = (k, j, gs) \<and> (j, gs) \<in> set (ends r s (k, []))"
proof (induction r s i advance rule: finditer_from.induct)
  case (1 r s i advance)
  show ?case
  proof (cases "next_match r s i advance")
    case None
    then show ?thesis using 1(2) by (simp add: finditer_from.simps)
  next
    case (Some x)
    obtain a b gs where x: "x = (a, b, gs)" by (cases x)
    obtain k where k: "match_from_next r s i advance k = Some (a, b, gs)"
      using first_some_SomeD [of "match_from_next r s i advance"] Some x unfolding next_match_def by blast
    have "a = k" "(b, gs) \<in> set (filter (\<lambda>(j, _). \<not> (advance \<and> k = i \<and> j = i)) (ends r s (k, [])))"
      using k by (auto simp: match_from_next_def simp del: set_filter split: list.splits)
    then have "(b, gs) \<in> set (ends r s (a, []))" by simp
    moreover have "finditer_from r s i advance = (a, b, gs) # finditer_from r s b (a = b)"
      using Some x by (subst finditer_from.simps) simp
    ultimately show ?thesis using 1(1) [OF Some] x 1(2) by auto
  qed
qed

lemma rep_rounds:
  assumes step: "\<And>st e. e \<in> set (f st) \<Longrightarrow> fst st < fst e" and fwd: "forward n f"
  shows "e \<in> set (rep g f n m most st) \<Longrightarrow> fst st \<le> n \<Longrightarrow> fst st + m \<le> fst e"
proof (induction m arbitrary: most st)
  case 0
  then show ?case using rep_forward [OF fwd] by fastforce
next
  case (Suc m)
  then obtain st' where st': "st' \<in> set (f st)" "e \<in> set (rep g f n m (less_one most) st')" by (auto simp: rep.simps)
  have "fst st' \<le> n" using forwardD [OF fwd st'(1)] Suc.prems(2) by simp
  then show ?case using Suc.IH [OF st'(2)] step [OF st'(1)] by simp
qed

lemma newline_run_long:
  assumes "m \<in> set (finditer newline_run_rx s)"
  shows "fst m + 3 \<le> fst (snd m)"
proof -
  obtain k j gs where m: "m = (k, j, gs)" and e: "(j, gs) \<in> set (ends newline_run_rx s (k, []))"
    using finditer_from_ends assms unfolding finditer_def by blast
  have step: "e \<in> set (ends (one_of [newline]) s st) \<Longrightarrow> fst st < fst e \<and> fst st < length s" for e st
    by (auto simp: one_of_def split: if_splits)
  have "k \<le> length s"
  proof (rule ccontr)
    assume "\<not> k \<le> length s"
    then have "ends newline_run_rx s (k, []) = []" by (simp add: newline_run_rx_def one_of_def numeral_3_eq_3 rep.simps)
    then show False using e by simp
  qed
  then show ?thesis
    using rep_rounds [of "ends (one_of [newline]) s" "length s"] step ends_forward e m
    by (fastforce simp: newline_run_rx_def)
qed

lemma length_strip_by: "length (strip_by P s) \<le> length s"
  using length_dropWhile_le [of P "rev (dropWhile P s)"] length_dropWhile_le [of P s]
  by (simp add: strip_by_def)

lemma removed_length: "length (rx_sub r (\<lambda>_. []) s) \<le> length s"
  by (rule rx_sub_length) simp

lemma collapsed_length:
  assumes "length by_this \<le> 3"
  shows "length (rx_sub newline_run_rx (\<lambda>_. by_this) s) \<le> length s"
  by (rule rx_sub_length) (use assms newline_run_long in \<open>fastforce\<close>)

text \<open>scrubbing never lengthens a text and accounts for every character it takes: the cleaned text and the reported savings add
  up to the text. A text without a marker of leaked state is returned as it is.\<close>

lemma scrub_accounts:
  "length (fst (scrub_text tx)) + snd (scrub_text tx) = length tx \<and> (may_leak tx \<or> scrub_text tx = (tx, 0))"
proof -
  define c3 where "c3 = rx_sub LEAKED_TOK_FACT_RX (\<lambda>_. []) (rx_sub LEAKED_TOK_STATE_RX (\<lambda>_. []) (rx_sub LEAKED_POINTERS_RX (\<lambda>_. []) tx))"
  have "length c3 \<le> length tx"
    unfolding c3_def by (rule order_trans [OF removed_length order_trans [OF removed_length removed_length]])
  moreover have "length (rx_sub newline_run_rx (\<lambda>_. [newline, newline]) c3) \<le> length c3"
    by (rule collapsed_length) simp
  moreover note length_strip_by [of "\<lambda>c. c = newline" "rx_sub newline_run_rx (\<lambda>_. [newline, newline]) c3"]
  ultimately show ?thesis
    by (simp add: scrub_text_def Let_def flip: c3_def)
qed

subsection \<open>The system prompt is split, not changed\<close>

text \<open>The texts of the split prompt, put together around the boundary, are the prompt up to blanks before the boundary and newlines
  after it, and only a prompt that reaches the minimum is split.\<close>

definition system_texts :: "json \<Rightarrow> string list" where
  "system_texts body =
     (case jget ''system'' body of
        Some (JStr s) \<Rightarrow> [s]
      | Some (JList bs) \<Rightarrow> map (\<lambda>b. case jget ''text'' b of Some (JStr s) \<Rightarrow> s | _ \<Rightarrow> []) bs
      | _ \<Rightarrow> [])"

lemma rstrip_split: "\<exists>ws. s = rstrip s @ ws \<and> list_all py_space ws"
proof -
  have "s = rev (dropWhile py_space (rev s)) @ rev (takeWhile py_space (rev s))"
    by (simp flip: rev_append)
  then show ?thesis
    unfolding rstrip_def by (metis list_all_rev list_all_iff set_takeWhileD)
qed

lemma find_split:
  assumes "py_find pat s = Some i"
  shows "s = take i s @ pat @ drop (i + length pat) s"
proof -
  have "drop i s = pat @ drop (length pat) (drop i s)"
    using py_find_Some_prefix [OF assms] by (auto simp: prefix_def simp del: drop_drop)
  moreover have "drop (length pat) (drop i s) = drop (i + length pat) s" by (simp add: add.commute)
  ultimately show ?thesis by (metis append_take_drop_id)
qed

text \<open>splitting the system prompt for caching loses none of its text: it is left as it is, wrapped whole, or cut at the boundary
  into a static part of at least 800 characters and a dynamic part, with nothing but white space between the two and the
  boundary.\<close>

lemma split_keeps_prompt:
  assumes "jget ''system'' body = Some (JStr system)"
  shows "system_texts (split_system_for_caching body) = [system] \<or>
         (\<exists>static_text dynamic_text ws nl. system_texts (split_system_for_caching body) = [static_text, dynamic_text] \<and>
            CACHE_MIN_CHARS \<le> length static_text \<and>
            system = static_text @ ws @ DYNAMIC_BOUNDARY @ nl @ dynamic_text \<and>
            list_all py_space ws \<and> list_all (\<lambda>c. c = newline) nl)"
proof (cases "py_find DYNAMIC_BOUNDARY system")
  case None
  then show ?thesis
    using assms jget_SomeD [OF assms] by (simp add: split_system_for_caching_def system_texts_def cached_text_block_def)
next
  case (Some i)
  define rest where "rest = drop (i + length DYNAMIC_BOUNDARY) system"
  define static_text where "static_text = rstrip (take i system)"
  define dynamic_text where "dynamic_text = dropWhile (\<lambda>c. c = newline) rest"
  show ?thesis
  proof (cases "CACHE_MIN_CHARS \<le> length static_text")
    case True
    have "system_texts (split_system_for_caching body) = [static_text, dynamic_text]"
      using True assms jget_SomeD [OF assms] Some
      by (simp add: split_system_for_caching_def system_texts_def cached_text_block_def system_text_block_def Let_def
          static_text_def dynamic_text_def rest_def)
    moreover obtain ws where "take i system = static_text @ ws" "list_all py_space ws"
      using rstrip_split [of "take i system"] by (auto simp: static_text_def)
    moreover have "rest = takeWhile (\<lambda>c. c = newline) rest @ dynamic_text" "list_all (\<lambda>c. c = newline) (takeWhile (\<lambda>c. c = newline) rest)"
      by (simp_all add: dynamic_text_def list_all_iff) (metis (mono_tags) set_takeWhileD)
    moreover have "system = take i system @ DYNAMIC_BOUNDARY @ rest" using find_split [OF Some] by (simp add: rest_def)
    ultimately show ?thesis using True by (metis append.assoc)
  next
    case False
    then show ?thesis using assms Some by (simp add: split_system_for_caching_def system_texts_def Let_def flip: static_text_def)
  qed
qed

lemma split_keeps_prompt_witness:
  "system_texts (split_system_for_caching (JObj [(''system'', JStr ''short'')])) = [''short''] \<and> py_find DYNAMIC_BOUNDARY ''short'' = None"
  using split_keeps_prompt [of "JObj [(''system'', JStr ''short'')]" "''short''"]
  by (auto simp: DYNAMIC_BOUNDARY_def split_system_for_caching_def CACHE_MIN_CHARS_def system_texts_def)

subsection \<open>A body without messages\<close>

definition same_keys :: "json \<Rightarrow> json \<Rightarrow> bool" where
  "same_keys a b = (\<exists>d e. a = JObj d \<and> b = JObj e \<and> map fst d = map fst e \<and> jget ''messages'' a = jget ''messages'' b)"

lemma dict_set_known: "map_of d k = Some x \<Longrightarrow> map fst (dict_set k v d) = map fst d"
  by (induction d) (auto simp: dict_set_def)

lemma same_keys_jset: "jget ''system'' (JObj d) = Some x \<Longrightarrow> same_keys (jset ''system'' v (JObj d)) (JObj d)"
  by (simp add: same_keys_def dict_set_known)

lemma same_keys_refl: "same_keys (JObj d) (JObj d)"
  by (simp add: same_keys_def)

lemma clean_system_keys: "same_keys (fst (clean_field ''system'' (JObj d))) (JObj d)"
  using same_keys_jset [of d] same_keys_refl
  by (auto simp: clean_field_def Let_def case_prod_beta simp del: jset.simps jget.simps split: option.split json.split)

lemma split_system_keys: "same_keys (split_system_for_caching (JObj d)) (JObj d)"
  using same_keys_jset [of d] same_keys_refl
  by (auto simp: split_system_for_caching_def Let_def simp del: jset.simps jget.simps split: option.split json.split)

text \<open>without a list of messages the early return of the sifting step hands back the body alone, which is then unpacked: a body
  of exactly two fields is replaced by the name of its first field.\<close>

lemma two_field_body_lost:
  assumes "\<And>ms. map_of d ''messages'' \<noteq> Some (JList ms)" "length d = 2"
  shows "fst (apply_anthropic_optimizations ff pf loads ct True (JObj d) sg) = JStr (fst (hd d))"
proof -
  obtain e where e: "fst (clean_field ''system'' (JObj d)) = JObj e" "map fst e = map fst d" "map_of e ''messages'' = map_of d ''messages''"
    using clean_system_keys [of d] by (auto simp: same_keys_def)
  then have scrub: "fst (scrub_leaked_tok_context (JObj d)) = JObj e"
    using assms(1) by (auto simp: scrub_leaked_tok_context_def Let_def case_prod_beta split: option.split json.split)
  obtain f where f: "split_system_for_caching (JObj e) = JObj f" "map fst f = map fst d" "map_of f ''messages'' = map_of d ''messages''"
    using split_system_keys [of e] e by (auto simp: same_keys_def)
  have len: "length f = 2" using f(2) assms(2) by (metis length_map)
  have "fst (hd f) = fst (hd d)" using f(2) len assms(2) by (metis hd_map list.size(3) zero_neq_numeral)
  then have "sift_tool_results (sift_stdout ff pf loads) ct (JObj f) sg = (JStr (fst (hd d)), sg, True)"
    using f(3) assms(1) len by (auto simp: sift_tool_results_def unpack_body_def split: option.split json.split)
  then show ?thesis
    by (simp add: apply_anthropic_optimizations_def optimized_body_def scrub f(1) bpe_translate_request_def)
qed

lemma two_field_body_lost_witness:
  "fst (apply_anthropic_optimizations False True (\<lambda>_. None) length True
      (JObj [(''model'', JStr ''m''), (''system'', JStr ''s'')]) None) = JStr ''model''"
  using two_field_body_lost [of "[(''model'', JStr ''m''), (''system'', JStr ''s'')]"] by simp

end
