(* ===== verification/PreflightDriver.thy ===== *)
theory PreflightDriver
  imports PreflightRewrite BridgeDiagnostics GatewayCache SessionState
begin

section \<open>The bridge preflight\<close>

text \<open>
  Models \<open>_run_bridge_preflight\<close> of \<open>src/tok/gateway/_bridge_preflight.py\<close> with its helpers: every request passes it before it is
  sent. It canonicalizes the body, guards the signed thinking, validates, quarantines broken tool history, falls back to the original
  body or answers locally. Log lines are left out; events that are captured, events for the smoothness tracker and the trace of a
  fallback are a list of effects. The body handed in is not the object of the original body, so that bodies are values.
\<close>

subsection \<open>Its surroundings\<close>

record preflight_env =
  pv_sha :: "string \<Rightarrow> string"
  pv_wire :: "json \<Rightarrow> wire_error list"
  pv_digest :: "json list \<Rightarrow> string"
  pv_loads :: "string \<Rightarrow> json option"
  pv_sticky_turns :: int
  pv_fallback_threshold :: int

record preflight_request =
  rq_original :: json
  rq_headers :: "(string \<times> string) list"
  rq_compressed :: bool
  rq_path :: string
  rq_emit_repair_logs :: bool
  rq_reset_recovery :: bool

type_synonym body_summary = "(string + structure_summary) \<times> pairing_snapshot list"

record preflight_event =
  pe_name :: string
  pe_failures :: "string list"
  pe_signals :: counts
  pe_source :: "string option"
  pe_forensics :: "(body_summary \<times> body_summary) option"

datatype preflight_effect = Captured preflight_event | Tracked string | FallbackTraced

record preflight_state =
  ps_session :: runtime_session
  ps_fallback_recorded :: bool
  ps_key :: string
  ps_tool_result_blocks :: counts
  ps_effects :: "preflight_effect list"

definition add_effect :: "preflight_effect \<Rightarrow> preflight_state \<Rightarrow> preflight_state" where
  "add_effect e st = st\<lparr>ps_effects := ps_effects st @ [e]\<rparr>"

definition capture_plain :: "string \<Rightarrow> string list \<Rightarrow> counts \<Rightarrow> preflight_state \<Rightarrow> preflight_state" where
  "capture_plain name failures signals =
     add_effect (Captured \<lparr>pe_name = name, pe_failures = failures, pe_signals = signals, pe_source = None, pe_forensics = None\<rparr>)"

definition record_fallback_once :: "int \<Rightarrow> preflight_state \<Rightarrow> preflight_state" where
  "record_fallback_once threshold st =
     (if ps_fallback_recorded st then st
      else add_effect FallbackTraced
             (st\<lparr>ps_session := session_fallback_event threshold (ps_session st), ps_fallback_recorded := True\<rparr>))"

subsection \<open>Local answers\<close>

record early_exit =
  xe_status :: nat
  xe_content :: json
  xe_media_type :: string

definition error_answer :: "json dict \<Rightarrow> early_exit" where
  "error_answer error = \<lparr>xe_status = 400, xe_content = JObj [(''type'', JStr ''error''), (''error'', JObj error)],
     xe_media_type = ''application/json''\<rparr>"

definition local_bridge_invalid_history_response :: "string \<Rightarrow> early_exit" where
  "local_bridge_invalid_history_response message =
     error_answer [(''type'', JStr ''invalid_request_error''), (''message'', JStr message)]"

definition large_file_read_burst_response :: "string \<Rightarrow> early_exit" where
  "large_file_read_burst_response message =
     error_answer [(''type'', JStr ''invalid_request_error''), (''message'', JStr message),
       (''hint'', JStr (''Chunk the file reads into smaller batches, start with explore_file/list_large_files, '' @
                        ''and summarize before continuing.'')),
       (''recovery'', JObj [(''strategy'', JStr ''chunk_large_reads''), (''max_parallel_file_reads'', JInt 2),
          (''step'', JStr ''emit a compact ReadPlan before the next batch'')])]"

type_synonym preflight_result = "json \<times> counts \<times> bool \<times> early_exit option \<times> preflight_state"

subsection \<open>Comparison of the payloads\<close>

text \<open>\<open>json.dumps\<close> as it is by default: fields in their order, blanks after the separators, ASCII only.\<close>

fun dumps_json :: "json \<Rightarrow> string" where
  "dumps_json JNull = ''null''"
| "dumps_json (JBool b) = (if b then ''true'' else ''false'')"
| "dumps_json (JInt i) = int_str i"
| "dumps_json (JFloat t) = t"
| "dumps_json (JStr s) = dumps_str s"
| "dumps_json (JList xs) = ''['' @ join '', '' (map dumps_json xs) @ '']''"
| "dumps_json (JObj d) = ''{'' @ join '', '' (map (\<lambda>(k, v). dumps_str k @ '': '' @ dumps_json v) d) @ ''}''"

definition dumped_payloads_differ :: "preflight_env \<Rightarrow> json \<Rightarrow> json \<Rightarrow> bool py" where
  "dumped_payloads_differ env canonical original_body =
     payloads_materially_differ (pv_sha env) (pv_wire env) (pv_loads env) (dumps_json canonical) (Some (dumps_json original_body))"

definition provider_sensitive_payload_source :: "preflight_env \<Rightarrow> json \<Rightarrow> json \<Rightarrow> string py" where
  "provider_sensitive_payload_source env canonical original_body =
     bind_py (dumped_payloads_differ env canonical original_body) (\<lambda>differ. Inr (if differ then ''rewritten'' else ''original''))"

definition merge_counts :: "counts \<Rightarrow> counts \<Rightarrow> counts" where
  "merge_counts signals extra = merge_signal_counts signals (map (\<lambda>(k, n). (k, JInt n)) extra)"

definition is_interleaving_failure :: "string list \<Rightarrow> bool" where
  "is_interleaving_failure failures = (''provider_sensitive_assistant_tool_use_text_interleaving'' \<in> set failures)"

text \<open>Bodies that come here hold a list of messages.\<close>

definition messages_in :: "json \<Rightarrow> json list" where
  "messages_in body = (case jget ''messages'' body of Some (JList ms) \<Rightarrow> ms | _ \<Rightarrow> [])"

definition body_summary :: "json \<Rightarrow> body_summary py" where
  "body_summary body =
     bind_py (summarize_message_structure (jget_or ''messages'' (JList []) body)) (\<lambda>s.
       Inr (s, summarize_bridge_pairing (messages_in body)))"

definition capture_outgoing_guard_forensics ::
    "string \<Rightarrow> json \<Rightarrow> json \<Rightarrow> string list \<Rightarrow> counts \<Rightarrow> string \<Rightarrow> preflight_state \<Rightarrow> preflight_state py" where
  "capture_outgoing_guard_forensics name body original_body failures signals source st =
     bind_py (body_summary body) (\<lambda>prepared.
     bind_py (body_summary original_body) (\<lambda>safe.
       Inr (add_effect (Captured \<lparr>pe_name = name, pe_failures = failures, pe_signals = signals, pe_source = Some source,
              pe_forensics = Some (prepared, safe)\<rparr>) st)))"

subsection \<open>Signed thinking that was changed\<close>

definition MUTATION_EVENT :: string where
  "MUTATION_EVENT = ''bridge_preflight_thinking_mutation_degraded_to_provider_safe''"

definition thinking_degraded ::
    "preflight_env \<Rightarrow> preflight_request \<Rightarrow> json \<Rightarrow> counts \<Rightarrow> preflight_state \<Rightarrow> preflight_result py" where
  "thinking_degraded env rq canonical signals st =
     (let signals = dict_set ''tok_bridge_thinking_mutation_degraded_to_provider_safe'' 1
                      (dict_set ''tok_release_blocking_thinking_mutation'' 1
                        (dict_set ''tok_bridge_thinking_mutation_unrestored'' 1 signals));
          st = capture_plain (preflight_event_name MUTATION_EVENT (rq_path rq)) [] signals st
      in bind_py (validate_anthropic_bridge_body (pv_wire env) (rq_original rq)) (\<lambda>failures.
         if failures \<noteq> []
         then Inr (canonical,
                dict_set ''tok_fallback_activated'' 1 (merge_counts signals (bridge_strict_failure_signals failures)), True,
                Some (local_bridge_invalid_history_response
                  (''Tok bridge preflight blocked unrecoverable protected-thinking mutation and could not '' @
                   ''verify provider-safe fallback body.'')),
                record_fallback_once (pv_fallback_threshold env) st)
         else Inr (rq_original rq, signals, True, None, st)))"

subsection \<open>The cache markers\<close>

definition note_client_markers :: "int \<Rightarrow> counts \<Rightarrow> preflight_state \<Rightarrow> counts \<times> preflight_state" where
  "note_client_markers blocks signals st =
     ((case map_of (ps_tool_result_blocks st) (ps_key st) of
         Some previous \<Rightarrow>
           if blocks < previous then dict_set ''client_cache_marker_dropped'' (previous - blocks) signals else signals
       | None \<Rightarrow> signals),
      st\<lparr>ps_tool_result_blocks := dict_set (ps_key st) blocks (ps_tool_result_blocks st)\<rparr>)"

definition TEXT_CACHE_REMOVED :: string where
  "TEXT_CACHE_REMOVED = ''text_system_cache_control_removed_only_tool_cache_remains''"

definition caching_verdict :: "fingerprint_diff \<Rightarrow> string list \<Rightarrow> counts \<Rightarrow> string list \<times> counts" where
  "caching_verdict fp failures signals =
     (if fd_prompt_caching fp \<and> fd_body_materially_differs fp \<and> (fd_messages_changed fp \<or> fd_system_changed fp) \<and>
         fd_cache_topology_changed fp
      then if 0 < cget ''system_blocks'' (fd_removed_cache_control fp) \<or> TEXT_CACHE_REMOVED \<in> set (fd_cache_topology_reasons fp)
           then (failures @ [''prompt_caching_request_mutated''], signals)
           else (failures, cadd ''prompt_caching_message_cache_reduced'' 1 signals)
      else (failures, signals))"

subsection \<open>The repairs\<close>

record repairs =
  rr_history :: bool
  rr_pairing :: bool
  rr_order :: bool
  rr_recovered :: bool

definition any_repair :: "repairs \<Rightarrow> bool" where
  "any_repair r = (rr_history r \<or> rr_pairing r \<or> rr_order r \<or> rr_recovered r)"

definition note_repairs :: "counts \<Rightarrow> counts \<Rightarrow> repairs \<times> counts" where
  "note_repairs bridge_signals signals =
     (let (ids, pairing, order) = tool_history_repair_summary bridge_signals;
          signals = (if ids then dict_set ''tok_bridge_tool_history_repaired'' 1 signals else signals);
          signals = (if pairing then dict_set ''tok_bridge_tool_history_pairing_repaired'' 1 signals else signals);
          count = cget ''tok_bridge_tool_result_order_repaired'' bridge_signals;
          signals = (if order then dict_set ''tool_result_order_repair_non_degrading'' (if count = 0 then 1 else count) signals
                     else signals)
      in (\<lparr>rr_history = ids, rr_pairing = pairing, rr_order = order, rr_recovered = False\<rparr>, signals))"

definition session_reset_event :: "counts \<Rightarrow> preflight_state \<Rightarrow> preflight_state" where
  "session_reset_event recovery_signals st =
     (if cget ''tok_bridge_invalid_tool_history_session_reset'' recovery_signals \<noteq> 0
      then capture_plain ''bridge_invalid_tool_history_session_reset'' [] recovery_signals st else st)"

definition note_recovery :: "preflight_env \<Rightarrow> bool \<Rightarrow> counts \<Rightarrow> preflight_state \<Rightarrow> counts \<times> preflight_state" where
  "note_recovery env blocked signals st =
     (let (recovery, s) = record_invalid_tool_history_recovery (pv_sticky_turns env) blocked (ps_session st)
      in (merge_counts signals recovery, session_reset_event recovery (st\<lparr>ps_session := s\<rparr>)))"

subsection \<open>Broken tool history\<close>

text \<open>What the preflight has when the quarantine is done: the body, its failures, whether the history is beyond repair, the signals
  and the repairs.\<close>

record checked_body =
  cb_body :: json
  cb_failures :: "string list"
  cb_unrecoverable :: bool
  cb_signals :: counts
  cb_repairs :: repairs

definition quarantine_stage ::
    "preflight_env \<Rightarrow> preflight_request \<Rightarrow> checked_body \<Rightarrow> preflight_state \<Rightarrow> (checked_body \<times> preflight_state) py" where
  "quarantine_stage env rq cb st =
     (if \<not> has_invalid_tool_history_failures (cb_failures cb) then Inr (cb, st)
      else bind_py (attempt_quarantine_invalid_tool_history (pv_wire env) (cb_body cb)) (\<lambda>(body, valid, qsignals, qfailures).
        let signals = merge_counts (cb_signals cb) qsignals in
        if valid then
          let (signals, st) = note_recovery env False signals st;
              cb = cb\<lparr>cb_body := body, cb_failures := [], cb_signals := signals,
                      cb_repairs := (cb_repairs cb)\<lparr>rr_recovered := True\<rparr>\<rparr>
          in Inr (cb, if rq_emit_repair_logs rq
                      then capture_plain (preflight_event_name ''bridge_preflight_repaired_quarantined'' (rq_path rq)) [] signals st
                      else st)
        else
          let failures = (if qfailures \<noteq> [] then qfailures else cb_failures cb)
          in Inr (cb\<lparr>cb_body := body, cb_failures := failures, cb_unrecoverable := True,
                     cb_signals := merge_counts signals (bridge_strict_failure_signals failures)\<rparr>, st)))"

definition block_history_locally ::
    "preflight_env \<Rightarrow> preflight_request \<Rightarrow> checked_body \<Rightarrow> preflight_state \<Rightarrow> preflight_result" where
  "block_history_locally env rq cb st =
     (let (signals, st) = note_recovery env True (cb_signals cb) st;
          signals = dict_set ''tok_bridge_invalid_tool_history_blocked'' 1 (dict_set ''tok_bridge_preflight_failed_local'' 1 signals);
          st = capture_plain (preflight_event_name ''bridge_preflight_rejected_blocked_local'' (rq_path rq)) (cb_failures cb) signals st;
          signals = dict_set ''tok_fallback_activated'' 1 signals;
          st = record_fallback_once (pv_fallback_threshold env) st
      in (cb_body cb, signals, True,
          Some (local_bridge_invalid_history_response ''Tok bridge preflight rejected unrepaired tool history before send.''),
          st\<lparr>ps_session := bump_signals signals (ps_session st)\<rparr>))"

definition revert_to_original ::
    "preflight_env \<Rightarrow> preflight_request \<Rightarrow> checked_body \<Rightarrow> preflight_state \<Rightarrow> preflight_result" where
  "revert_to_original env rq cb st =
     (let signals = dict_set ''tok_fallback_activated'' 1 (dict_set ''tok_bridge_preflight_rejected'' 1 (cb_signals cb));
          signals = (if rq_compressed rq then signals else dict_set ''tok_fallback_zero_compression_revert'' 1 signals)
      in (rq_original rq, signals, any_repair (cb_repairs cb), None, record_fallback_once (pv_fallback_threshold env) st))"

subsection \<open>The outgoing guard\<close>

text \<open>A burst of file reads with text between the calls is cut into segments, when that passes the guard.\<close>

definition burst_rewritten ::
    "preflight_env \<Rightarrow> preflight_request \<Rightarrow> json \<Rightarrow> string list \<Rightarrow> counts \<Rightarrow> preflight_state \<Rightarrow> preflight_result option py" where
  "burst_rewritten env rq canonical failures signals st =
     (if \<not> has_provider_sensitive_failures failures then Inr None
      else bind_py (rewrite_provider_sensitive_large_tool_use_text_interleaving canonical) (\<lambda>(rewritten, changed, rsignals).
        if \<not> changed then Inr None
        else bind_py (validate_anthropic_outgoing_bridge_body (pv_wire env) rewritten) (\<lambda>rfailures.
          if rfailures \<noteq> [] then Inr None
          else let signals = fold (\<lambda>k. dict_set k 1)
                     [''tok_bridge_provider_sensitive_degraded_to_provider_safe'', ''tok_bridge_prepared_pairing_rejected_local'',
                      ''tok_bridge_assistant_tool_use_text_interleaving_blocked'', ''request_policy_interleaving_downgrades'',
                      ''preflight_block_rewritten_payload''] (dict_update signals rsignals);
                   name = preflight_event_name ''bridge_preflight_large_file_read_burst_rewritten'' (rq_path rq);
                   st = capture_plain name failures signals st
               in bind_py (capture_outgoing_guard_forensics (name @ ''_forensics'') rewritten (rq_original rq) failures signals
                             ''rewritten'' st)
                    (\<lambda>st. Inr (Some (rewritten, signals, True, None, st))))))"

definition original_sent ::
    "preflight_env \<Rightarrow> preflight_request \<Rightarrow> json \<Rightarrow> string list \<Rightarrow> counts \<Rightarrow> preflight_state \<Rightarrow> preflight_result option py" where
  "original_sent env rq canonical failures signals st =
     (if \<not> rq_compressed rq then Inr None
      else bind_py (dumped_payloads_differ env canonical (rq_original rq)) (\<lambda>differ.
        if \<not> differ then Inr None
        else bind_py (validate_anthropic_outgoing_bridge_body (pv_wire env) (rq_original rq)) (\<lambda>degraded.
          if has_blocking_outgoing_failures degraded then Inr None
          else let interleaved = is_interleaving_failure failures;
                   name = preflight_event_name
                     (if interleaved then ''bridge_preflight_assistant_tool_use_text_interleaving_degraded_to_provider_safe''
                      else ''bridge_preflight_outgoing_degraded_to_provider_safe'') (rq_path rq);
                   signals = dict_set ''tok_bridge_prepared_pairing_rejected_local'' 1
                     (dict_set (if has_provider_sensitive_failures failures
                                then ''tok_bridge_provider_sensitive_degraded_to_provider_safe''
                                else ''tok_bridge_pairing_degraded_to_provider_safe'') 1 signals);
                   signals = (if interleaved
                     then dict_set ''request_policy_interleaving_downgrades'' 1
                            (dict_set ''tok_bridge_assistant_tool_use_text_interleaving_blocked'' 1 signals) else signals);
                   signals = dict_set ''preflight_block_rewritten_payload'' 1 signals;
                   st = capture_plain name failures signals st
               in bind_py (capture_outgoing_guard_forensics (name @ ''_forensics'') canonical (rq_original rq) failures signals
                             ''rewritten'' st)
                    (\<lambda>st. Inr (Some (rq_original rq, signals, True, None, st))))))"

text \<open>The local rejection calls \<open>session._bump_signals\<close>, which a bridge session does not have: the attribute error ends the preflight
  before its answer is built.\<close>

definition guard_rejects :: "preflight_result py" where
  "guard_rejects = Inl AttributeError"

definition ready :: "preflight_request \<Rightarrow> json \<Rightarrow> repairs \<Rightarrow> counts \<Rightarrow> preflight_state \<Rightarrow> preflight_result" where
  "ready rq canonical r signals st =
     (let st = (if rq_reset_recovery rq \<and> \<not> rr_recovered r
                then st\<lparr>ps_session := reset_invalid_tool_history_recovery (ps_session st)\<rparr> else st);
          st = (if rr_history r \<and> rq_emit_repair_logs rq
                then capture_plain (preflight_event_name ''bridge_preflight_repaired_tool_history'' (rq_path rq)) [] signals st else st);
          st = (if rr_pairing r \<and> rq_emit_repair_logs rq
                then capture_plain (preflight_event_name ''bridge_preflight_repaired_tool_result_pairing'' (rq_path rq)) [] signals st
                else st)
      in (canonical, signals, any_repair r, None, st))"

definition outgoing_stage ::
    "preflight_env \<Rightarrow> preflight_request \<Rightarrow> json \<Rightarrow> repairs \<Rightarrow> counts \<Rightarrow> preflight_state \<Rightarrow> preflight_result py" where
  "outgoing_stage env rq canonical r signals st =
     bind_py (validate_anthropic_outgoing_bridge_body (pv_wire env) canonical) (\<lambda>failures.
       let signals = merge_counts signals (bridge_strict_failure_signals failures) in
       if has_blocking_outgoing_failures failures then
         bind_py (provider_sensitive_payload_source env canonical (rq_original rq)) (\<lambda>_.
         bind_py (burst_rewritten env rq canonical failures signals st) (\<lambda>rewritten.
           case rewritten of Some res \<Rightarrow> Inr res
           | None \<Rightarrow> bind_py (original_sent env rq canonical failures signals st) (\<lambda>sent.
               case sent of Some res \<Rightarrow> Inr res | None \<Rightarrow> guard_rejects)))
       else Inr (ready rq canonical r signals st))"

subsection \<open>The whole preflight\<close>

definition failures_stage ::
    "preflight_env \<Rightarrow> preflight_request \<Rightarrow> checked_body \<Rightarrow> preflight_state \<Rightarrow> preflight_result py" where
  "failures_stage env rq cb st =
     bind_py (quarantine_stage env rq cb st) (\<lambda>(cb, st).
       if has_invalid_tool_history_failures (cb_failures cb) \<or> cb_unrecoverable cb
       then Inr (block_history_locally env rq cb st)
       else let cb = cb\<lparr>cb_signals := merge_counts (cb_signals cb) (bridge_strict_failure_signals (cb_failures cb))\<rparr> in
         if has_blocking_outgoing_failures (cb_failures cb) then Inr (revert_to_original env rq cb st)
         else outgoing_stage env rq (cb_body cb) (cb_repairs cb) (cb_signals cb) st)"

text \<open>A compressed body that breaks the immediate pairing gives way to the original body, when that one is valid.\<close>

definition pairing_degraded ::
    "preflight_env \<Rightarrow> preflight_request \<Rightarrow> checked_body \<Rightarrow> preflight_state \<Rightarrow> preflight_result option py" where
  "pairing_degraded env rq cb st =
     (if \<not> (rq_compressed rq \<and> has_recoverable_immediate_pairing_failures (cb_failures cb)) then Inr None
      else bind_py (dumped_payloads_differ env (cb_body cb) (rq_original rq)) (\<lambda>differ.
        if \<not> differ then Inr None
        else bind_py (validate_anthropic_bridge_body (pv_wire env) (rq_original rq)) (\<lambda>degraded.
          if degraded \<noteq> [] then Inr None
          else let signals = dict_set ''tok_bridge_prepared_pairing_rejected_local'' 1
                               (dict_set ''tok_bridge_pairing_degraded_to_provider_safe'' 1 (cb_signals cb))
               in Inr (Some (rq_original rq, signals, True, None,
                     capture_plain ''bridge_preflight_pairing_degraded_to_provider_safe'' (cb_failures cb) signals st)))))"

definition checked_stage ::
    "preflight_env \<Rightarrow> preflight_request \<Rightarrow> json \<Rightarrow> counts \<Rightarrow> counts \<Rightarrow> preflight_state \<Rightarrow> preflight_result py" where
  "checked_stage env rq canonical bridge_signals signals st =
     bind_py (validate_anthropic_bridge_body (pv_wire env) canonical) (\<lambda>failures.
     bind_py (request_fingerprint_diff (pv_sha env) (pv_wire env) (rq_headers rq) canonical (rq_original rq)) (\<lambda>fp.
       let (signals, st) = note_client_markers (cget ''message_tool_result_blocks'' (rp_cache_control (fd_original fp))) signals st;
           signals = merge_counts signals bridge_signals;
           (r, signals) = note_repairs bridge_signals signals;
           st = (if fd_messages_changed fp \<and> 0 < cget ''request_policy_reason_structured_tool_loop'' signals
                 then add_effect (Tracked ''MESSAGES_CHANGED_OPEN_TOOL_LOOP'') st else st);
           (failures, signals) = caching_verdict fp failures signals;
           signals = merge_counts signals (bridge_strict_failure_signals failures);
           cb = \<lparr>cb_body = canonical, cb_failures = failures, cb_unrecoverable = False, cb_signals = signals, cb_repairs = r\<rparr>
       in bind_py (pairing_degraded env rq cb st) (\<lambda>degraded.
            case degraded of Some res \<Rightarrow> Inr res | None \<Rightarrow> failures_stage env rq cb st)))"

definition restore_thinking :: "preflight_env \<Rightarrow> thinking_snapshot option \<Rightarrow> json \<Rightarrow> (json \<times> bool) py" where
  "restore_thinking env snapshot canonical =
     (case jget ''messages'' canonical of
        Some (JList ms) \<Rightarrow>
          bind_py (restore_latest_assistant_thinking (pv_digest env) ms snapshot) (\<lambda>(ms', restored).
            Inr (jset ''messages'' (JList ms') canonical, restored))
      | None \<Rightarrow> Inr (canonical, False)
      | Some v \<Rightarrow>
          if snapshot = None \<or> v = JStr [] \<or> v = JObj [] then Inr (canonical, False)
          else if is_str v \<or> is_dict v then Inl AttributeError else Inl TypeError)"

definition snapshot_of :: "preflight_env \<Rightarrow> json \<Rightarrow> thinking_snapshot option" where
  "snapshot_of env body = snapshot_latest_assistant_thinking (pv_digest env) (messages_in body)"

definition run_bridge_preflight ::
    "preflight_env \<Rightarrow> preflight_request \<Rightarrow> json \<Rightarrow> counts \<Rightarrow> preflight_state \<Rightarrow> preflight_result py" where
  "run_bridge_preflight env rq body signals st =
     (let snapshot = snapshot_of env (rq_original rq) in
      bind_py (canonicalize_anthropic_bridge_body (pv_sha env) (pv_wire env) body []) (\<lambda>(canonical, _, bridge_signals, _).
        let mutated = (cget ''thinking_block_mutated'' bridge_signals \<noteq> 0);
            st = (if mutated then add_effect (Tracked ''THINKING_BLOCK_MUTATION'') st else st)
        in bind_py (restore_thinking env snapshot canonical) (\<lambda>(canonical, restored).
          if restored \<and> mutated then
            checked_stage env rq canonical
              (dict_set ''thinking_block_mutation_restored'' 1 (dict_pop ''thinking_block_mutated'' bridge_signals)) signals
              (add_effect (Tracked ''THINKING_BLOCK_MUTATION_RESTORED'') st)
          else if snapshot \<noteq> None \<and> mutated \<and> 0 < cget ''thinking_block_mutated_has_signature'' bridge_signals then
            thinking_degraded env rq canonical signals st
          else checked_stage env rq canonical bridge_signals signals st)))"

subsection \<open>What leaves the preflight\<close>

definition guard_passes :: "preflight_env \<Rightarrow> json \<Rightarrow> bool" where
  "guard_passes env body =
     (case validate_anthropic_outgoing_bridge_body (pv_wire env) body of
        Inl _ \<Rightarrow> False | Inr failures \<Rightarrow> \<not> has_blocking_outgoing_failures failures)"

text \<open>The four ways out: the body passes the guard, the original goes, or an answer with status 400 stands in for both.\<close>

definition good_result :: "preflight_env \<Rightarrow> preflight_request \<Rightarrow> preflight_result \<Rightarrow> bool" where
  "good_result env rq res =
     (case res of (body, signals, _, exit, st) \<Rightarrow>
        (case exit of
           None \<Rightarrow> body = rq_original rq \<or> guard_passes env body
         | Some x \<Rightarrow> xe_status x = 400 \<and> ps_fallback_recorded st \<and> cget ''tok_fallback_activated'' signals = 1))"

lemma fallback_recorded [simp]: "ps_fallback_recorded (record_fallback_once n st)"
  by (simp add: record_fallback_once_def add_effect_def)

lemma no_failures_pass: "\<not> has_blocking_outgoing_failures []"
  by (simp add: has_blocking_outgoing_failures_def)

lemma burst_rewritten_good:
  "burst_rewritten env rq canonical failures signals st = Inr (Some res) \<Longrightarrow> good_result env rq res"
  by (auto simp: burst_rewritten_def good_result_def guard_passes_def Let_def no_failures_pass elim!: bind_py_Inr_E split: if_splits)

lemma original_sent_good:
  "original_sent env rq canonical failures signals st = Inr (Some res) \<Longrightarrow> good_result env rq res"
  unfolding original_sent_def Let_def
  by (auto simp: good_result_def elim!: bind_py_Inr_E split: if_split_asm)

lemma outgoing_stage_good:
  assumes "outgoing_stage env rq canonical r signals st = Inr res"
  shows "good_result env rq res"
proof -
  obtain failures where v: "validate_anthropic_outgoing_bridge_body (pv_wire env) canonical = Inr failures"
    using assms by (auto simp: outgoing_stage_def elim!: bind_py_Inr_E)
  show ?thesis
  proof (cases "has_blocking_outgoing_failures failures")
    case True
    then show ?thesis
      using assms v by (auto simp: outgoing_stage_def guard_rejects_def bind_py_def Let_def burst_rewritten_good original_sent_good
          split: option.splits sum.splits)
  next
    case False
    then show ?thesis
      using assms v by (auto simp: outgoing_stage_def bind_py_def Let_def ready_def good_result_def guard_passes_def)
  qed
qed

lemma blocked_good: "good_result env rq (block_history_locally env rq cb st)"
  by (simp add: block_history_locally_def good_result_def Let_def case_prod_beta local_bridge_invalid_history_response_def error_answer_def)

lemma reverted_good: "good_result env rq (revert_to_original env rq cb st)"
  by (simp add: revert_to_original_def good_result_def Let_def)

lemma failures_stage_good: "failures_stage env rq cb st = Inr res \<Longrightarrow> good_result env rq res"
  by (auto simp: failures_stage_def Let_def blocked_good reverted_good outgoing_stage_good elim!: bind_py_Inr_E split: if_splits)

lemma pairing_degraded_good: "pairing_degraded env rq cb st = Inr (Some res) \<Longrightarrow> good_result env rq res"
  by (auto simp: pairing_degraded_def good_result_def Let_def elim!: bind_py_Inr_E split: if_splits)

lemma checked_stage_good: "checked_stage env rq canonical bs signals st = Inr res \<Longrightarrow> good_result env rq res"
  unfolding checked_stage_def Let_def case_prod_beta
  by (auto elim!: bind_py_Inr_E split: option.splits simp: pairing_degraded_good failures_stage_good)

lemma thinking_degraded_good: "thinking_degraded env rq canonical signals st = Inr res \<Longrightarrow> good_result env rq res"
  unfolding thinking_degraded_def Let_def
  by (auto simp: good_result_def local_bridge_invalid_history_response_def error_answer_def elim!: bind_py_Inr_E split: if_splits)

text \<open>C1: a request that leaves the preflight is safe: without a local answer it is the client's own body or a body that the outgoing
  validation lets pass; a local answer has status 400, and the fallback is recorded in the request and in the signals.\<close>

theorem preflight_sends_safe_body:
  assumes "run_bridge_preflight env rq body signals st = Inr (sent, signals', repaired, exit, st')"
  shows "case exit of
           None \<Rightarrow> sent = rq_original rq \<or> guard_passes env sent
         | Some x \<Rightarrow> xe_status x = 400 \<and> ps_fallback_recorded st' \<and> cget ''tok_fallback_activated'' signals' = 1"
proof -
  have "good_result env rq (sent, signals', repaired, exit, st')"
    using assms unfolding run_bridge_preflight_def Let_def
    by (auto elim!: bind_py_Inr_E split: if_splits simp: checked_stage_good thinking_degraded_good)
  then show ?thesis by (simp add: good_result_def)
qed

definition plain_env :: preflight_env where
  "plain_env = \<lparr>pv_sha = (\<lambda>s. s), pv_wire = (\<lambda>_. []), pv_digest = (\<lambda>bs. ''d''), pv_loads = (\<lambda>_. None),
     pv_sticky_turns = 2, pv_fallback_threshold = 3\<rparr>"

definition clean_body :: json where
  "clean_body = JObj [(''model'', JStr ''m''), (''max_tokens'', JInt 9), (''messages'', JList
     [JObj [(''role'', JStr ''user''), (''content'', JList [JObj [(''type'', JStr ''text''), (''text'', JStr ''hi'')]])]])]"

definition plain_request :: preflight_request where
  "plain_request = \<lparr>rq_original = clean_body, rq_headers = [], rq_compressed = False, rq_path = ''v1/messages'',
     rq_emit_repair_logs = True, rq_reset_recovery = True\<rparr>"

lemma clean_valid: "validate_anthropic_outgoing_bridge_body (pv_wire plain_env) clean_body = Inr []"
  by code_simp

lemma clean_canonical: "canonicalize_anthropic_bridge_body (pv_sha plain_env) (pv_wire plain_env) clean_body [] = Inr (clean_body, False, [], [])"
  by code_simp

definition plain_state :: preflight_state where
  "plain_state = \<lparr>ps_session = sample_session, ps_fallback_recorded = False, ps_key = ''default'', ps_tool_result_blocks = [], ps_effects = []\<rparr>"

lemma outgoing_valid_bridge_valid:
  "validate_anthropic_outgoing_bridge_body wire body = Inr [] \<Longrightarrow> validate_anthropic_bridge_body wire body = Inr []"
  by (auto simp: validate_anthropic_outgoing_bridge_body_def bind_py_Inr_iff split: if_splits)

lemma no_strict_signals [simp]: "bridge_strict_failure_signals [] = []"
  by (simp add: bridge_strict_failure_signals_def)

lemma merge_counts_Nil [simp]: "merge_counts signals [] = signals"
  by (simp add: merge_counts_def)

lemma no_failures_checks [simp]: "\<not> has_invalid_tool_history_failures []" "\<not> has_recoverable_immediate_pairing_failures []"
  by (simp_all add: has_invalid_tool_history_failures_def has_recoverable_immediate_pairing_failures_def)

lemma nothing_repaired: "note_repairs [] signals = (\<lparr>rr_history = False, rr_pairing = False, rr_order = False, rr_recovered = False\<rparr>, signals)"
  by (simp add: note_repairs_def tool_history_repair_summary_def any_signal_def)

lemma caching_verdict_same: "\<not> fd_body_materially_differs fp \<Longrightarrow> caching_verdict fp failures signals = (failures, signals)"
  by (simp add: caching_verdict_def)

lemma unchanged_fingerprint:
  assumes "canonical_body sha wire body = Inr c" "is_dict body"
  shows "\<exists>fp. request_fingerprint_diff sha wire headers body body = Inr fp \<and> \<not> fd_body_materially_differs fp \<and> \<not> fd_messages_changed fp"
  using same_body_not_different [OF assms] by (simp add: request_fingerprint_diff_def Let_def)

lemma clean_run:
  assumes canonical: "canonicalize_anthropic_bridge_body (pv_sha env) (pv_wire env) body [] = Inr (body, False, [], seen)"
    and valid: "validate_anthropic_outgoing_bridge_body (pv_wire env) body = Inr []"
    and none: "snapshot_of env body = None" and own: "rq_original rq = body"
  shows "\<exists>signals' st'. run_bridge_preflight env rq body signals st = Inr (body, signals', False, None, st') \<and>
           recovery_count (s_fallback (ps_session st')) =
             (if rq_reset_recovery rq then 0 else recovery_count (s_fallback (ps_session st))) \<and>
           ps_fallback_recorded st' = ps_fallback_recorded st"
proof -
  have bridge_valid: "validate_anthropic_bridge_body (pv_wire env) body = Inr []"
    by (rule outgoing_valid_bridge_valid [OF valid])
  have dict: "is_dict body"
    using bridge_valid by (auto simp: validate_anthropic_bridge_body_def split: if_splits)
  have same: "canonical_body (pv_sha env) (pv_wire env) body = Inr body"
    using canonical by (simp add: canonical_body_def)
  obtain fp where fp: "request_fingerprint_diff (pv_sha env) (pv_wire env) (rq_headers rq) body body = Inr fp"
    "\<not> fd_body_materially_differs fp" "\<not> fd_messages_changed fp"
    using unchanged_fingerprint [OF same dict] by blast
  have restore: "restore_thinking env None body = Inr (body, False)"
    by (auto simp: restore_thinking_def restore_latest_assistant_thinking_def jset_same split: option.split json.split)
  show ?thesis
    using canonical bridge_valid valid none own fp restore
    by (simp add: run_bridge_preflight_def Let_def checked_stage_def nothing_repaired caching_verdict_same pairing_degraded_def
        failures_stage_def quarantine_stage_def no_failures_pass outgoing_stage_def ready_def any_repair_def note_client_markers_def
        reset_invalid_tool_history_recovery_def)
qed

text \<open>C7: a request that needs nothing is left alone: when the client's own body is canonical, holds no protected thinking and passes
  the outgoing validation, the preflight sends exactly that body, reports no repair and records no fallback. It ends the series of
  recoveries when the request is one that resets it (the flag \<open>reset_recovery_state\<close>), and leaves the count as it is
  otherwise.\<close>

theorem clean_request_passes:
  assumes canonical: "canonicalize_anthropic_bridge_body (pv_sha env) (pv_wire env) body [] = Inr (body, False, [], seen)"
    and valid: "validate_anthropic_outgoing_bridge_body (pv_wire env) body = Inr []"
    and none: "snapshot_of env body = None" and own: "rq_original rq = body"
  shows "\<exists>signals' st'. run_bridge_preflight env rq body signals st = Inr (body, signals', False, None, st') \<and>
           recovery_count (s_fallback (ps_session st')) =
             (if rq_reset_recovery rq then 0 else recovery_count (s_fallback (ps_session st))) \<and>
           ps_fallback_recorded st' = ps_fallback_recorded st"
  by (rule clean_run [OF assms])

theorem clean_request_passes_witness:
  "\<exists>signals' st'. run_bridge_preflight plain_env plain_request clean_body [] plain_state = Inr (clean_body, signals', False, None, st') \<and>
     recovery_count (s_fallback (ps_session st')) = 0 \<and> ps_fallback_recorded st' = ps_fallback_recorded plain_state"
proof -
  have "snapshot_of plain_env clean_body = None" by code_simp
  from clean_request_passes [OF clean_canonical clean_valid this, of plain_request "[]" plain_state] show ?thesis
    by (simp add: plain_request_def)
qed

theorem preflight_sends_safe_body_witness:
  "\<exists>sent signals' repaired exit st'. run_bridge_preflight plain_env plain_request clean_body [] plain_state = Inr (sent, signals', repaired, exit, st') \<and>
     (case exit of None \<Rightarrow> sent = rq_original plain_request \<or> guard_passes plain_env sent
      | Some x \<Rightarrow> xe_status x = 400 \<and> ps_fallback_recorded st' \<and> cget ''tok_fallback_activated'' signals' = 1)"
proof -
  have "snapshot_of plain_env clean_body = None" by code_simp
  then obtain signals' st' where
    "run_bridge_preflight plain_env plain_request clean_body [] plain_state = Inr (clean_body, signals', False, None, st')"
    using clean_run [OF clean_canonical clean_valid, of plain_request "[]" plain_state] by (auto simp: plain_request_def)
  then show ?thesis using preflight_sends_safe_body by fastforce
qed

subsection \<open>The fallback is counted once\<close>

definition fallback_steps :: "preflight_state \<Rightarrow> int" where
  "fallback_steps st = consecutive_count (s_fallback (ps_session st))"

lemma quiet_effect [simp]:
  "fallback_steps (add_effect e st) = fallback_steps st" "ps_fallback_recorded (add_effect e st) = ps_fallback_recorded st"
  "fallback_steps (capture_plain n f sg st) = fallback_steps st" "ps_fallback_recorded (capture_plain n f sg st) = ps_fallback_recorded st"
  by (simp_all add: add_effect_def capture_plain_def fallback_steps_def)

lemma quiet_markers [simp]:
  "fallback_steps (snd (note_client_markers b sg st)) = fallback_steps st"
  "ps_fallback_recorded (snd (note_client_markers b sg st)) = ps_fallback_recorded st"
  by (simp_all add: note_client_markers_def fallback_steps_def)

lemma recovery_keeps_count:
  "consecutive_count (s_fallback (snd (record_invalid_tool_history_recovery n b s))) = consecutive_count (s_fallback s)"
  by (simp add: record_invalid_tool_history_recovery_def Let_def note_tool_mode_recovery_def clear_hot_bridge_state_def)

lemma quiet_recovery [simp]:
  "fallback_steps (snd (note_recovery env b sg st)) = fallback_steps st"
  "ps_fallback_recorded (snd (note_recovery env b sg st)) = ps_fallback_recorded st"
  by (simp_all add: note_recovery_def Let_def case_prod_beta session_reset_event_def capture_plain_def add_effect_def fallback_steps_def
      recovery_keeps_count)

lemma quiet_forensics:
  "capture_outgoing_guard_forensics n b o' f sg s st = Inr st' \<Longrightarrow>
     fallback_steps st' = fallback_steps st \<and> ps_fallback_recorded st' = ps_fallback_recorded st"
  by (auto simp: capture_outgoing_guard_forensics_def elim!: bind_py_Inr_E)

definition counted_once :: "preflight_state \<Rightarrow> preflight_state \<Rightarrow> bool" where
  "counted_once st st' =
     (if ps_fallback_recorded st' \<and> \<not> ps_fallback_recorded st then fallback_steps st' = fallback_steps st + 1
      else fallback_steps st' = fallback_steps st)"

lemma once_fallback [simp]: "counted_once st (record_fallback_once n st)"
  by (simp add: counted_once_def record_fallback_once_def add_effect_def fallback_steps_def session_fallback_event_def
      record_fallback_event_def Let_def)

lemma once_quiet: "fallback_steps st' = fallback_steps st \<Longrightarrow> ps_fallback_recorded st' = ps_fallback_recorded st \<Longrightarrow> counted_once st st'"
  by (simp add: counted_once_def)

lemma once_before:
  "counted_once st' st'' \<Longrightarrow> fallback_steps st' = fallback_steps st \<Longrightarrow> ps_fallback_recorded st' = ps_fallback_recorded st \<Longrightarrow> counted_once st st''"
  by (simp add: counted_once_def)

lemma once_quarantine:
  "quarantine_stage env rq cb st = Inr (cb', st') \<Longrightarrow>
     fallback_steps st' = fallback_steps st \<and> ps_fallback_recorded st' = ps_fallback_recorded st"
  unfolding quarantine_stage_def Let_def case_prod_beta
  by (auto elim!: bind_py_Inr_E split: if_splits)

lemma once_burst:
  "burst_rewritten env rq c f sg st = Inr (Some (b, s, r, x, st')) \<Longrightarrow> counted_once st st'"
  unfolding burst_rewritten_def Let_def
  by (auto elim!: bind_py_Inr_E split: if_splits dest!: quiet_forensics simp: counted_once_def)

lemma once_original:
  "original_sent env rq c f sg st = Inr (Some (b, s, r, x, st')) \<Longrightarrow> counted_once st st'"
  unfolding original_sent_def Let_def
  by (auto elim!: bind_py_Inr_E split: if_split_asm dest!: quiet_forensics simp: counted_once_def)

lemma once_ready: "counted_once st (snd (snd (snd (snd (ready rq c r sg st)))))"
  by (rule once_quiet) (simp_all add: ready_def Let_def, simp add: fallback_steps_def reset_invalid_tool_history_recovery_def)

lemma once_outgoing:
  assumes "outgoing_stage env rq c r sg st = Inr (b, s, f, x, st')"
  shows "counted_once st st'"
proof -
  obtain failures where v: "validate_anthropic_outgoing_bridge_body (pv_wire env) c = Inr failures"
    using assms by (auto simp: outgoing_stage_def elim!: bind_py_Inr_E)
  show ?thesis
  proof (cases "has_blocking_outgoing_failures failures")
    case True
    then show ?thesis
      using assms v by (auto simp: outgoing_stage_def guard_rejects_def bind_py_def Let_def once_burst once_original
          split: option.splits sum.splits)
  next
    case False
    then have "(b, s, f, x, st') = ready rq c r (merge_counts sg (bridge_strict_failure_signals failures)) st"
      using assms v by (simp add: outgoing_stage_def Let_def)
    then show ?thesis using once_ready by (metis snd_conv)
  qed
qed

lemma once_blocked: "counted_once st (snd (snd (snd (snd (block_history_locally env rq cb st)))))"
proof -
  have bump: "fallback_steps (st\<lparr>ps_session := bump_signals sg s\<rparr>) = consecutive_count (s_fallback s)" for st sg s
    by (simp add: fallback_steps_def bump_signals_def Let_def)
  define st1 where "st1 = snd (note_recovery env True (cb_signals cb) st)"
  show ?thesis
    unfolding block_history_locally_def Let_def case_prod_beta st1_def [symmetric]
    by (rule once_before [of st1])
      (simp_all add: counted_once_def bump, simp_all add: st1_def fallback_steps_def record_fallback_once_def
        add_effect_def capture_plain_def session_fallback_event_def record_fallback_event_def Let_def quiet_recovery [unfolded fallback_steps_def])
qed

lemma once_reverted: "counted_once st (snd (snd (snd (snd (revert_to_original env rq cb st)))))"
  by (simp add: revert_to_original_def Let_def)

lemma once_failures: "failures_stage env rq cb st = Inr (b, s, f, x, st') \<Longrightarrow> counted_once st st'"
proof -
  assume run: "failures_stage env rq cb st = Inr (b, s, f, x, st')"
  then obtain cb' st1 where q: "quarantine_stage env rq cb st = Inr (cb', st1)"
    by (auto simp: failures_stage_def elim!: bind_py_Inr_E)
  have "counted_once st1 st'"
    using run once_blocked [of st1 env rq cb'] once_reverted [of st1 env rq]
    by (auto simp: failures_stage_def q Let_def once_outgoing split: if_splits) (metis snd_conv)+
  then show ?thesis using once_quarantine [OF q] by (auto intro: once_before)
qed

lemma once_degraded:
  "pairing_degraded env rq cb st = Inr (Some (b, s, f, x, st')) \<Longrightarrow> counted_once st st'"
  by (auto simp: pairing_degraded_def Let_def counted_once_def elim!: bind_py_Inr_E split: if_splits)

lemma once_checked: "checked_stage env rq c bs sg st = Inr (b, s, f, x, st') \<Longrightarrow> counted_once st st'"
  unfolding checked_stage_def Let_def case_prod_beta
  by (auto elim!: bind_py_Inr_E split: option.splits if_splits dest!: once_degraded once_failures simp: counted_once_def)

lemma once_thinking: "thinking_degraded env rq c sg st = Inr (b, s, f, x, st') \<Longrightarrow> counted_once st st'"
  unfolding thinking_degraded_def Let_def
  by (auto elim!: bind_py_Inr_E split: if_splits simp: counted_once_def intro: once_before [OF once_fallback, unfolded counted_once_def])
    (auto simp: fallback_steps_def record_fallback_once_def capture_plain_def add_effect_def session_fallback_event_def
        record_fallback_event_def Let_def)

text \<open>C22: one request counts as at most one fallback: the consecutive fallbacks of the session grow by one exactly when the request is
  marked in this run, and not at all when it was marked before.\<close>

theorem fallback_counted_once:
  assumes "run_bridge_preflight env rq body signals st = Inr (sent, signals', repaired, exit, st')"
  shows "fallback_steps st' = fallback_steps st + (if ps_fallback_recorded st' \<and> \<not> ps_fallback_recorded st then 1 else 0)"
proof -
  have "counted_once st st'"
    using assms unfolding run_bridge_preflight_def Let_def
    by (auto elim!: bind_py_Inr_E split: if_splits dest!: once_checked once_thinking simp: counted_once_def)
  then show ?thesis by (simp add: counted_once_def)
qed

theorem fallback_counted_once_witness:
  "\<exists>sent signals' repaired exit st'. run_bridge_preflight plain_env plain_request clean_body [] plain_state = Inr (sent, signals', repaired, exit, st') \<and>
     fallback_steps st' = fallback_steps plain_state + (if ps_fallback_recorded st' \<and> \<not> ps_fallback_recorded plain_state then 1 else 0)"
proof -
  have "snapshot_of plain_env clean_body = None" by code_simp
  then obtain signals' st' where
    "run_bridge_preflight plain_env plain_request clean_body [] plain_state = Inr (clean_body, signals', False, None, st')"
    using clean_run [OF clean_canonical clean_valid, of plain_request "[]" plain_state] by (auto simp: plain_request_def)
  then show ?thesis using fallback_counted_once by blast
qed

subsection \<open>The local rejection of the guard\<close>

lemma restore_back_same:
  "List.find raw_assistant_list ms = Some m \<Longrightarrow> filter is_opaque_provider_block (blocks_of m) \<noteq> [] \<Longrightarrow>
     restore_back (blocks_of m) ms = Inr (out, found) \<Longrightarrow> out = ms"
proof (induction ms arbitrary: out)
  case (Cons x xs)
  show ?case
  proof (cases "raw_assistant_list x")
    case True
    then have "x = m" using Cons.prems(1) by simp
    moreover have "content_has_opaque_provider_blocks (JList (blocks_of m))"
      using Cons.prems(2) by (auto simp: content_has_opaque_provider_blocks_def filter_empty_conv list_ex_iff)
    moreover have "set_content (blocks_of m) m = m"
    proof -
      obtain bs where "msg_content m = Some bs" using True \<open>x = m\<close> by (auto simp: raw_assistant_list_def)
      then show ?thesis using msg_content_Some_iff [of m bs] by (simp add: set_content_def blocks_of_def jset_same)
    qed
    ultimately show ?thesis using Cons.prems(3) True by (auto simp: raw_assistant_list_def split: if_splits)
  next
    case False
    then show ?thesis using Cons by (auto split: if_splits elim!: bind_py_Inr_E)
  qed
qed simp

lemma restore_own_thinking:
  assumes "restore_thinking env (snapshot_of env body) body = Inr (body', restored)"
  shows "body' = body"
proof (cases "\<exists>ms. jget ''messages'' body = Some (JList ms)")
  case True
  then obtain ms where ms: "jget ''messages'' body = Some (JList ms)" by blast
  obtain ms' where r: "restore_latest_assistant_thinking (pv_digest env) ms (snapshot_of env body) = Inr (ms', restored)"
    and b: "body' = jset ''messages'' (JList ms') body"
    using assms ms by (auto simp: restore_thinking_def elim!: bind_py_Inr_E)
  have "ms' = ms"
  proof (cases "List.find raw_assistant_list (rev ms)")
    case None
    then show ?thesis using r ms by (simp add: snapshot_of_def messages_in_def snapshot_latest_assistant_thinking_def restore_latest_assistant_thinking_def)
  next
    case (Some m)
    then show ?thesis
      using r ms restore_back_same [OF Some]
      by (auto simp: snapshot_of_def messages_in_def snapshot_latest_assistant_thinking_def restore_latest_assistant_thinking_def
          take_snapshot_def split: if_splits elim!: bind_py_Inr_E)
  qed
  then show ?thesis using b ms by (simp add: jset_same)
next
  case False
  then show ?thesis using assms by (auto simp: restore_thinking_def split: option.splits json.splits if_splits)
qed

text \<open>A rewriting of the messages does not supply the missing bound on the tokens.\<close>

lemma rewritten_without_max_tokens:
  assumes "rewrite_provider_sensitive_large_tool_use_text_interleaving body = Inr (body', changed, sg)"
    and "jget ''max_tokens'' body = None" and "validate_anthropic_outgoing_bridge_body wire body' = Inr f"
  shows "f \<noteq> []"
proof -
  have "jget ''max_tokens'' body' = None"
    using assms(1,2) by (cases body)
      (auto simp: rewrite_provider_sensitive_large_tool_use_text_interleaving_def elim!: bind_py_Inr_E split: option.splits json.splits)
  then show ?thesis
    using assms(3) by (auto simp: validate_anthropic_outgoing_bridge_body_def max_tokens_failures_def elim!: bind_py_Inr_E
        split: if_splits option.splits json.splits)
qed

text \<open>C8: a token-count request, which has no \<open>max_tokens\<close>, is never answered when only the outgoing guard refuses it: the rewriting of the
  burst is not accepted because of the missing field, the original is the same body, and the local rejection calls a method that
  bridge sessions do not have. The preflight ends with an exception.\<close>

theorem guard_rejection_raises:
  assumes canonical: "canonicalize_anthropic_bridge_body (pv_sha env) (pv_wire env) body [] = Inr (body, False, [], seen)"
    and refused: "validate_anthropic_bridge_body (pv_wire env) body = Inr []"
      "validate_anthropic_outgoing_bridge_body (pv_wire env) body = Inr failures" "has_blocking_outgoing_failures failures"
    and unbounded: "jget ''max_tokens'' body = None" and own: "rq_original rq = body"
  shows "\<exists>e. run_bridge_preflight env rq body signals st = Inl e"
proof (rule ccontr)
  assume "\<not> ?thesis"
  then obtain res where run: "run_bridge_preflight env rq body signals st = Inr res"
    by (cases "run_bridge_preflight env rq body signals st") auto
  have dict: "is_dict body"
    using refused(1) by (auto simp: validate_anthropic_bridge_body_def split: if_splits)
  have same: "canonical_body (pv_sha env) (pv_wire env) body = Inr body"
    using canonical by (simp add: canonical_body_def)
  obtain fp where fp: "request_fingerprint_diff (pv_sha env) (pv_wire env) (rq_headers rq) body body = Inr fp"
    "\<not> fd_body_materially_differs fp" "\<not> fd_messages_changed fp"
    using unchanged_fingerprint [OF same dict] by blast
  have equal: "dumped_payloads_differ env body body = Inr False"
    by (simp add: dumped_payloads_differ_def payloads_materially_differ_def)
  have kept: "burst_rewritten env rq body failures sg st = Inr x \<Longrightarrow> x = None" for sg st x
    using rewritten_without_max_tokens [OF _ unbounded]
    by (auto simp: burst_rewritten_def Let_def elim!: bind_py_Inr_E split: if_splits)
  have unsent: "original_sent env rq body failures sg st = Inr None" for sg st
    by (simp add: original_sent_def own equal)
  have guard: "outgoing_stage env rq body r sg st \<noteq> Inr res" for r sg st
    using kept by (auto simp: outgoing_stage_def refused Let_def provider_sensitive_payload_source_def own equal unsent guard_rejects_def
        bind_py_Inr_iff split: option.splits)
  have stage: "checked_stage env rq body [] sg st \<noteq> Inr res" for sg st
    using fp guard by (simp add: checked_stage_def refused own Let_def case_prod_beta nothing_repaired caching_verdict_same
        pairing_degraded_def failures_stage_def quarantine_stage_def no_failures_pass)
  show False
    using run stage restore_own_thinking [of env body]
    by (auto simp: run_bridge_preflight_def canonical own Let_def elim!: bind_py_Inr_E)
qed

definition counted_body :: json where
  "counted_body = JObj [(''model'', JStr ''m''), (''messages'', JList
     [JObj [(''role'', JStr ''user''), (''content'', JList [JObj [(''type'', JStr ''text''), (''text'', JStr ''hi'')]])],
      JObj [(''role'', JStr ''assistant''), (''content'', JList
        [JObj [(''type'', JStr ''thinking''), (''thinking'', JStr ''h''), (''signature'', JStr ''s'')],
         JObj [(''type'', JStr ''tool_use''), (''id'', JStr ''a''), (''name'', JStr ''r''), (''input'', JObj [])],
         JObj [(''type'', JStr ''text''), (''text'', JStr ''ok'')]])],
      JObj [(''role'', JStr ''user''), (''content'', JList
        [JObj [(''type'', JStr ''tool_result''), (''tool_use_id'', JStr ''a''), (''content'', JStr ''x'')]])]])]"

theorem guard_rejection_raises_witness:
  "\<exists>e. run_bridge_preflight plain_env (plain_request\<lparr>rq_original := counted_body\<rparr>) counted_body [] plain_state = Inl e"
proof (rule guard_rejection_raises)
  show "canonicalize_anthropic_bridge_body (pv_sha plain_env) (pv_wire plain_env) counted_body [] = Inr (counted_body, False, [], [])"
    by code_simp
  show "validate_anthropic_bridge_body (pv_wire plain_env) counted_body = Inr []" by code_simp
  show "validate_anthropic_outgoing_bridge_body (pv_wire plain_env) counted_body =
      Inr [''provider_sensitive_assistant_tool_use_text_interleaving'', ''missing_max_tokens'']" by code_simp
  show "has_blocking_outgoing_failures [''provider_sensitive_assistant_tool_use_text_interleaving'', ''missing_max_tokens'']" by code_simp
  show "jget ''max_tokens'' counted_body = None" by code_simp
qed simp

end
