(* ===== verification/TokMemory.thy ===== *)
theory TokMemory
  imports MacroTools SmartPolicy ShellText PyRegex
begin

section \<open>The memory of a session in Tok form\<close>

text \<open>
  Models \<open>src/tok/protocol/models.py\<close>: the tracker of how often and how recently a fact was seen, the memory with its tiers, its
  text form, and the checks of tool arguments. The pydantic classes only type their fields; what their validators do before is here.
  Dictionaries keep the order of insertion.
\<close>

subsection \<open>The tracker\<close>

record entropy =
  heatmap :: counts
  last_seen_at :: counts
  primacy_locked :: "string list"
  stages :: counts
  next_refresh :: counts
  threshold_permanent :: int
  threshold_archive :: int

definition new_entropy :: entropy where
  "new_entropy = \<lparr>heatmap = [], last_seen_at = [], primacy_locked = [], stages = [], next_refresh = [],
     threshold_permanent = 20, threshold_archive = 10\<rparr>"

definition INTERVALS :: "int \<Rightarrow> int" where
  "INTERVALS stage = (if stage = 0 then 1 else if stage = 1 then 5 else if stage = 2 then 25 else 0)"

definition cleanup_primacy_locked :: "string list \<Rightarrow> entropy \<Rightarrow> entropy" where
  "cleanup_primacy_locked valid_keys e = e\<lparr>primacy_locked := filter (\<lambda>k. k \<in> set valid_keys) (primacy_locked e)\<rparr>"

record tok_memory =
  mm_meta :: "string dict"
  mm_agent :: "string dict"
  mm_tools :: "string dict"
  mm_grammar :: "string dict"
  mm_state :: string
  hot_state :: string
  cold_state :: string
  permanent_state :: string
  scheduled_state :: string
  mm_entropy :: entropy

subsection \<open>Reading the text form\<close>

definition SECTION_TAGS :: "string list" where
  "SECTION_TAGS = [''meta'', ''agent'', ''tools'', ''grammar'', ''state'', ''hot_state'', ''cold_state'', ''permanent_state'',
     ''scheduled_state'', ''entropy'']"

definition SECTION_RX :: rx where
  "SECTION_RX = seqs [Bol, lit ''@'', Grp 1 (alts (map lit SECTION_TAGS)), star space_rx]"

text \<open>The split with its captured tags: after each tag the text up to the next one; a tag that comes twice keeps the later body.\<close>

fun tagged_bodies :: "string \<Rightarrow> match_result list \<Rightarrow> (string \<times> string) list" where
  "tagged_bodies tx [] = []"
| "tagged_bodies tx (m # ms) =
     (group_text tx m 1,
      py_strip (between tx (fst (snd m)) (case ms of [] \<Rightarrow> length tx | n # _ \<Rightarrow> fst n))) # tagged_bodies tx ms"

definition memory_sections :: "string \<Rightarrow> string dict" where
  "memory_sections tx = dict_update [] (tagged_bodies tx (finditer SECTION_RX tx))"

definition section_of :: "string dict \<Rightarrow> string \<Rightarrow> string" where
  "section_of d k = (case map_of d k of None \<Rightarrow> [] | Some s \<Rightarrow> s)"

definition KV_RX :: rx where
  "KV_RX = seqs [Grp 1 (plus1 word_rx), lit '':'', Grp 2 (plus1 (none_of ([CHR '';'', CHR '' ''] @ [newline])))]"

definition parse_kv :: "string \<Rightarrow> string dict" where
  "parse_kv tx = dict_update [] (map (\<lambda>m. (group_text tx m 1, group_text tx m 2)) (finditer KV_RX tx))"

text \<open>\<open>line.split(separator, 1)\<close> for a separator of several characters that occurs.\<close>

definition split_at_first :: "string \<Rightarrow> string \<Rightarrow> (string \<times> string) option" where
  "split_at_first sep s = map_option (\<lambda>i. (take i s, drop (i + length sep) s)) (py_find sep s)"

definition parse_multiline_kv :: "string \<Rightarrow> string \<Rightarrow> string dict" where
  "parse_multiline_kv separator tx =
     dict_update [] (map (\<lambda>line. case split_at_first separator line of
         Some (k, v) \<Rightarrow> (py_strip k, py_strip v) | None \<Rightarrow> (line, []))
       (filter (\<lambda>l. l \<noteq> []) (map py_strip (splitlines tx))))"

record entropy_line =
  el_heat :: int
  el_last :: int
  el_stage :: int
  el_next :: int
  el_locked :: bool

definition int_field :: "string \<Rightarrow> int py" where
  "int_field p = (case py_int (split_by (\<lambda>c. c = CHR '':'') p ! 1) of None \<Rightarrow> Inl ValueErrorRaised | Some n \<Rightarrow> Inr n)"

definition entropy_part :: "string \<Rightarrow> entropy_line \<Rightarrow> entropy_line py" where
  "entropy_part p l =
     (if prefix ''heat:'' p then bind_py (int_field p) (\<lambda>n. Inr (l\<lparr>el_heat := n\<rparr>))
      else if prefix ''last:'' p then bind_py (int_field p) (\<lambda>n. Inr (l\<lparr>el_last := n\<rparr>))
      else if prefix ''stage:'' p then bind_py (int_field p) (\<lambda>n. Inr (l\<lparr>el_stage := n\<rparr>))
      else if prefix ''next:'' p then bind_py (int_field p) (\<lambda>n. Inr (l\<lparr>el_next := n\<rparr>))
      else Inr (if p = ''locked'' then l\<lparr>el_locked := True\<rparr> else l))"

fun entropy_parts :: "string list \<Rightarrow> entropy_line \<Rightarrow> entropy_line py" where
  "entropy_parts [] l = Inr l"
| "entropy_parts (p # ps) l = bind_py (entropy_part p l) (entropy_parts ps)"

definition entropy_entry :: "string \<Rightarrow> (string \<times> entropy_line) py" where
  "entropy_entry line =
     (let parts = split_by (\<lambda>c. c = CHR ''|'') line in
      bind_py (entropy_parts (tl parts) \<lparr>el_heat = 0, el_last = 0, el_stage = 0, el_next = 0, el_locked = False\<rparr>)
        (\<lambda>l. Inr (hd parts, l)))"

definition note_entry :: "string \<times> entropy_line \<Rightarrow> entropy \<Rightarrow> entropy" where
  "note_entry kl e =
     (case kl of (key, l) \<Rightarrow>
        e\<lparr>heatmap := dict_set key (el_heat l) (heatmap e), last_seen_at := dict_set key (el_last l) (last_seen_at e),
          stages := dict_set key (el_stage l) (stages e), next_refresh := dict_set key (el_next l) (next_refresh e),
          primacy_locked := (if el_locked l then primacy_locked e @ [key] else primacy_locked e)\<rparr>)"

fun entropy_entries :: "string list \<Rightarrow> entropy \<Rightarrow> entropy py" where
  "entropy_entries [] e = Inr e"
| "entropy_entries (line # ls) e =
     (if py_strip line = [] then entropy_entries ls e
      else bind_py (entropy_entry (py_strip line)) (\<lambda>kl. entropy_entries ls (note_entry kl e)))"

definition parse_entropy :: "string \<Rightarrow> entropy py" where
  "parse_entropy tx = entropy_entries (splitlines tx) new_entropy"

definition from_tok :: "string \<Rightarrow> tok_memory py" where
  "from_tok tx =
     (let d = memory_sections tx in
      bind_py (parse_entropy (section_of d ''entropy'')) (\<lambda>e.
        Inr \<lparr>mm_meta = parse_kv (section_of d ''meta''), mm_agent = parse_kv (section_of d ''agent''),
             mm_tools = parse_multiline_kv '' -> '' (section_of d ''tools''),
             mm_grammar = parse_multiline_kv '': '' (section_of d ''grammar''),
             mm_state = py_strip (section_of d ''state''), hot_state = py_strip (section_of d ''hot_state''),
             cold_state = py_strip (section_of d ''cold_state''), permanent_state = py_strip (section_of d ''permanent_state''),
             scheduled_state = py_strip (section_of d ''scheduled_state''), mm_entropy = e\<rparr>))"

subsection \<open>Facts\<close>

definition METADATA_KEYS :: "string list" where
  "METADATA_KEYS = [''heat'', ''last'', ''stage'', ''next'', ''locked'']"

definition ascii_alnum :: "char \<Rightarrow> bool" where
  "ascii_alnum c = ((CHR ''a'' \<le> c \<and> c \<le> CHR ''z'') \<or> (CHR ''A'' \<le> c \<and> c \<le> CHR ''Z'') \<or> (CHR ''0'' \<le> c \<and> c \<le> CHR ''9''))"

text \<open>The two patterns for keys: \<open>_parse_facts\<close> allows paths and brackets, the move between the tiers does not.\<close>

definition wide_key :: "string \<Rightarrow> bool" where
  "wide_key k = (k \<noteq> [] \<and> list_all (\<lambda>c. ascii_alnum c \<or> c \<in> set ''_-/.:[]'') k \<and> k \<notin> set METADATA_KEYS)"

definition narrow_key :: "string \<Rightarrow> bool" where
  "narrow_key k = (k \<noteq> [] \<and> list_all (\<lambda>c. ascii_alnum c \<or> c \<in> set ''_-'') k \<and> k \<notin> set METADATA_KEYS)"

definition fact_sep :: "char \<Rightarrow> bool" where
  "fact_sep c = (c = CHR '';'' \<or> c = newline)"

definition raw_facts :: "string \<Rightarrow> (string \<times> string) list" where
  "raw_facts s =
     map (\<lambda>p. (py_strip (fst (split_once (CHR '':'') p)), py_strip (snd (split_once (CHR '':'') p))))
       (filter (\<lambda>p. CHR '':'' \<in> set p) (map py_strip (split_by fact_sep s)))"

definition add_facts :: "(string \<Rightarrow> bool) \<Rightarrow> string \<Rightarrow> string dict \<Rightarrow> string dict" where
  "add_facts ok s facts = dict_update facts (filter (\<lambda>(k, _). ok k) (raw_facts s))"

definition parse_facts :: "string \<Rightarrow> string dict" where
  "parse_facts s = add_facts wide_key s []"

definition fact_text :: "string \<times> string \<Rightarrow> string" where
  "fact_text kv = fst kv @ '':'' @ snd kv"

definition facts_text :: "string dict \<Rightarrow> string" where
  "facts_text d = join ''; '' (map fact_text d)"

subsection \<open>Moving facts between the tiers\<close>

definition demote :: "string \<Rightarrow> entropy \<Rightarrow> entropy" where
  "demote key e =
     (let old_heat = cget key (heatmap e) in
      e\<lparr>heatmap := dict_set key old_heat (heatmap e),
        stages := dict_set key (if threshold_permanent e \<le> old_heat then 3 else cget key (stages e)) (stages e),
        next_refresh := dict_pop key (next_refresh e)\<rparr>)"

definition invalidate_step :: "string \<times> string \<Rightarrow> string dict \<times> entropy \<Rightarrow> string dict \<times> entropy" where
  "invalidate_step item st =
     (case (item, st) of ((key, new_val), (perm, e)) \<Rightarrow>
        (case map_of perm key of
           None \<Rightarrow> (perm, e)
         | Some old_val \<Rightarrow>
             if old_val \<noteq> new_val \<and> key \<notin> set (primacy_locked e) then (dict_pop key perm, demote key e) else (perm, e)))"

definition invalidation :: "tok_memory \<Rightarrow> string dict \<times> entropy" where
  "invalidation m = fold invalidate_step (parse_facts (hot_state m)) (parse_facts (permanent_state m), mm_entropy m)"

definition all_facts :: "tok_memory \<Rightarrow> string dict" where
  "all_facts m =
     add_facts narrow_key (permanent_state m) (add_facts narrow_key (hot_state m)
       (add_facts narrow_key (cold_state m) (add_facts narrow_key (mm_state m) [])))"

record tiers =
  t_hot :: "string dict"
  t_cold :: "string dict"
  t_perm :: "string dict"
  t_scheduled :: "string dict"
  t_entropy :: entropy

text \<open>The stage of one fact, its next refresh if that changes, and whether it is due now.\<close>

definition stage_of :: "int \<Rightarrow> bool \<Rightarrow> string \<Rightarrow> entropy \<Rightarrow> int \<times> int option \<times> bool" where
  "stage_of turn currently_perm k e =
     (let heat = cget k (heatmap e); stage = cget k (stages e); next_ref = cget k (next_refresh e);
          age = turn - cget k (last_seen_at e)
      in if k \<in> set (primacy_locked e) \<or> threshold_permanent e \<le> heat \<or> currently_perm then (3, Some 0, False)
         else if stage = 0 \<and> threshold_archive e \<le> age then (1, Some (turn + INTERVALS 1), False)
         else if 0 < stage \<and> stage < 3 \<and> next_ref \<le> turn \<and> 0 < next_ref
              then (if stage = 1 \<and> INTERVALS 2 < age then 2 else stage, Some (turn + INTERVALS stage), True)
         else (stage, None, False))"

definition place_fact :: "int \<Rightarrow> string \<Rightarrow> string \<times> string \<Rightarrow> tiers \<Rightarrow> tiers" where
  "place_fact turn permanent item t =
     (case item of (k, v) \<Rightarrow>
        let (stage, refresh, due) = stage_of turn (map_of (parse_facts permanent) k \<noteq> None) k (t_entropy t);
            e = t_entropy t;
            e = (case refresh of None \<Rightarrow> e | Some n \<Rightarrow> e\<lparr>next_refresh := dict_set k n (next_refresh e)\<rparr>);
            t = t\<lparr>t_entropy := e\<lparr>stages := dict_set k stage (stages e)\<rparr>,
                  t_scheduled := (if due then t_scheduled t @ [item] else t_scheduled t)\<rparr>
        in if stage = 3 then t\<lparr>t_perm := t_perm t @ [item]\<rparr>
           else if stage = 0 then t\<lparr>t_hot := t_hot t @ [item]\<rparr> else t\<lparr>t_cold := t_cold t @ [item]\<rparr>)"

definition no_tiers :: "entropy \<Rightarrow> tiers" where
  "no_tiers e = \<lparr>t_hot = [], t_cold = [], t_perm = [], t_scheduled = [], t_entropy = e\<rparr>"

definition rebalanced_tiers :: "int \<Rightarrow> tok_memory \<Rightarrow> tiers" where
  "rebalanced_tiers turn m =
     (let (perm, e) = invalidation m; permanent = facts_text perm; m = m\<lparr>permanent_state := permanent\<rparr>
      in fold (place_fact turn permanent) (all_facts m) (no_tiers e))"

definition rebalance_states :: "int \<Rightarrow> tok_memory \<Rightarrow> tok_memory" where
  "rebalance_states turn m =
     (let t = rebalanced_tiers turn m in
      m\<lparr>hot_state := facts_text (t_hot t), cold_state := facts_text (t_cold t), permanent_state := facts_text (t_perm t),
        scheduled_state := facts_text (t_scheduled t), mm_state := [], mm_entropy := t_entropy t\<rparr>)"

subsection \<open>Writing the text form\<close>

definition kv_line :: "string \<Rightarrow> string dict \<Rightarrow> string list" where
  "kv_line tag d = (if d = [] then [] else [tag @ join '' '' (map fact_text d)])"

definition kv_block :: "string \<Rightarrow> string \<Rightarrow> string dict \<Rightarrow> string list" where
  "kv_block tag sep d =
     (if d = [] then [] else (newline # tag) # map (\<lambda>(k, v). ''  '' @ (if v = [] then k else k @ sep @ v)) d)"

definition state_block :: "string \<Rightarrow> string \<Rightarrow> string list" where
  "state_block tag s = (if s = [] then [] else [[newline] @ tag @ [newline] @ ''  '' @ py_strip s])"

definition entropy_text :: "entropy \<Rightarrow> string \<times> int \<Rightarrow> string" where
  "entropy_text e kh =
     (case kh of (key, heat) \<Rightarrow>
        key @ ''|heat:'' @ int_str heat @ ''|last:'' @ int_str (cget key (last_seen_at e)) @ ''|stage:'' @ int_str (cget key (stages e)) @
        ''|next:'' @ int_str (cget key (next_refresh e)) @ (if key \<in> set (primacy_locked e) then ''|locked'' else []))"

definition to_tok :: "tok_memory \<Rightarrow> string" where
  "to_tok m =
     py_strip (join [newline]
       (kv_line ''@meta '' (mm_meta m) @ kv_line ''@agent '' (mm_agent m) @
        kv_block ''@tools'' '' -> '' (mm_tools m) @ kv_block ''@grammar'' '': '' (mm_grammar m) @
        (if py_strip (mm_state m) = [] then [] else state_block ''@state'' (mm_state m)) @
        state_block ''@hot_state'' (hot_state m) @ state_block ''@cold_state'' (cold_state m) @
        state_block ''@permanent_state'' (permanent_state m) @ state_block ''@scheduled_state'' (scheduled_state m) @
        (if heatmap (mm_entropy m) = [] then []
         else (newline # ''@entropy'') # map (\<lambda>kh. ''  '' @ entropy_text (mm_entropy m) kh) (heatmap (mm_entropy m)))))"

subsection \<open>Tool arguments\<close>

text \<open>What the validators do before pydantic checks the types: \<open>Some\<close> is the message of the \<open>ValueError\<close>. An argument whose value has no
  \<open>strip\<close> raises.\<close>

definition stripped_arg :: "json \<Rightarrow> string py" where
  "stripped_arg v = (case v of JStr s \<Rightarrow> Inr (py_strip s) | _ \<Rightarrow> if truthy v then Inl AttributeError else Inr [])"

definition or_value :: "json \<Rightarrow> json \<Rightarrow> json" where
  "or_value a b = (if truthy a then a else b)"

definition require_arg :: "json \<Rightarrow> string \<Rightarrow> string option py" where
  "require_arg v msg = bind_py (stripped_arg v) (\<lambda>s. Inr (if s = [] then Some msg else None))"

definition PATH_RX :: rx where
  "PATH_RX = seqs [Bol, plus1 (Cls (\<lambda>c. word_char c \<or> c \<in> set ''.-/'')), DollarEnd]"

definition contains_literal_newline :: "json \<Rightarrow> bool py" where
  "contains_literal_newline v =
     (let esc = char_of (92 :: nat) # ''n'' in
      case v of JStr s \<Rightarrow> Inr (py_contains esc s) | JList xs \<Rightarrow> Inr (JStr esc \<in> set xs) | JObj d \<Rightarrow> Inr (esc \<in> set (map fst d))
      | _ \<Rightarrow> Inl TypeError)"

definition validate_tool_call :: "json \<Rightarrow> string option py" where
  "validate_tool_call data =
     (if \<not> truthy (jget_or ''tool'' JNull data) then Inr (Some ''Missing tool name'')
      else let p = jget_or ''path'' JNull data; c = jget_or ''content'' JNull data in
        bind_py (if \<not> truthy p then Inr None
                 else case p of
                   JStr s \<Rightarrow> Inr (if rx_matches PATH_RX s then None else Some (''Invalid path: '' @ s))
                 | _ \<Rightarrow> Inl TypeError) (\<lambda>err.
          if err \<noteq> None then Inr err
          else if \<not> truthy c then Inr None
          else bind_py (contains_literal_newline c) (\<lambda>b.
            Inr (if b then Some (''Content contains literal '' @ (char_of (92 :: nat) # ''n - use real newlines'')) else None))))"

definition validate_path_arg :: "json \<Rightarrow> string option py" where
  "validate_path_arg data = require_arg (jget_or ''path'' JNull data) ''path is required''"

definition validate_edit :: "json \<Rightarrow> string option py" where
  "validate_edit data =
     bind_py (validate_path_arg data) (\<lambda>err.
       if err \<noteq> None then Inr err
       else bind_py (require_arg (jget_or ''search'' JNull data) ''search field is required and must not be empty'') (\<lambda>err.
         if err \<noteq> None then Inr err
         else Inr (if jget_or ''replace'' JNull data = JNull
                   then Some ''replace field is required (use empty string for deletion)'' else None)))"

definition validate_run :: "json \<Rightarrow> string option py" where
  "validate_run data = require_arg (jget_or ''cmd'' JNull data) ''cmd is required''"

definition validate_search :: "json \<Rightarrow> string option py" where
  "validate_search data =
     require_arg (or_value (jget_or ''query'' JNull data) (jget_or ''path'' JNull data)) ''search query must not be empty''"

text \<open>\<open>TOOL_SCHEMAS\<close>; reading, writing and deltas only ask for the path.\<close>

definition TOOL_SCHEMAS :: "(json \<Rightarrow> string option py) dict" where
  "TOOL_SCHEMAS = [(''read'', validate_path_arg), (''write'', validate_path_arg), (''edit'', validate_edit), (''run'', validate_run),
     (''search'', validate_search), (''delta'', validate_path_arg)]"

text \<open>\<open>loc\<close> and \<open>msg\<close> are the place and the message of the first error that pydantic reports.\<close>

definition build_tok_traceback :: "string \<Rightarrow> string list \<Rightarrow> string \<Rightarrow> string" where
  "build_tok_traceback raw_input loc msg =
     (let place = (if loc = [] then ''input'' else join ''.'' loc);
          preview = concat (map (\<lambda>c. if c = newline then [char_of (92 :: nat)] @ ''n'' else [c]) (take 50 raw_input))
      in ''@error type:validation'' @ [newline] @ ''  loc: '' @ place @ [newline] @
         ''  msg: '' @ map (\<lambda>c. if c = CHR '' '' then CHR ''_'' else c) msg @ [newline] @
         ''  raw: '' @ preview @ (if 50 < length raw_input then ''...'' else []) @ [newline] @
         ''  fix: Correct_'' @ place @ ''_and_retry_strictly_in_TOK'')"

subsection \<open>Where the facts go\<close>

lemma cget_dict_pop [simp]: "cget k (dict_pop k' d) = (if k = k' then 0 else cget k d)"
  by (induction d) (auto simp: cget_def dict_pop_def)

lemma stage_of_cong:
  assumes "cget k (heatmap e) = cget k (heatmap e')" "cget k (stages e) = cget k (stages e')"
    "cget k (next_refresh e) = cget k (next_refresh e')" "cget k (last_seen_at e) = cget k (last_seen_at e')"
    "primacy_locked e = primacy_locked e'" "threshold_permanent e = threshold_permanent e'" "threshold_archive e = threshold_archive e'"
  shows "stage_of turn b k e = stage_of turn b k e'"
  unfolding stage_of_def assms by simp

lemma place_fact_entropy:
  "t_entropy (place_fact turn p (k, v) t) =
     (case stage_of turn (map_of (parse_facts p) k \<noteq> None) k (t_entropy t) of (stage, refresh, due) \<Rightarrow>
        let e = t_entropy t; e = (case refresh of None \<Rightarrow> e | Some n \<Rightarrow> e\<lparr>next_refresh := dict_set k n (next_refresh e)\<rparr>)
        in e\<lparr>stages := dict_set k stage (stages e)\<rparr>)"
  by (simp add: place_fact_def Let_def split: prod.split)

lemma stage_of_other:
  "k \<noteq> k' \<Longrightarrow> stage_of turn b k (t_entropy (place_fact turn p (k', v) t)) = stage_of turn b k (t_entropy t)"
  by (rule stage_of_cong) (simp_all add: place_fact_entropy Let_def split: prod.split option.split)

text \<open>The stage that the entropy before the move gives a fact.\<close>

definition new_stage :: "int \<Rightarrow> string \<Rightarrow> entropy \<Rightarrow> string \<Rightarrow> int" where
  "new_stage turn p e k = fst (stage_of turn (map_of (parse_facts p) k \<noteq> None) k e)"

definition is_due :: "int \<Rightarrow> string \<Rightarrow> entropy \<Rightarrow> string \<Rightarrow> bool" where
  "is_due turn p e k = snd (snd (stage_of turn (map_of (parse_facts p) k \<noteq> None) k e))"

lemma new_stage_other:
  "k \<noteq> k' \<Longrightarrow> new_stage turn p (t_entropy (place_fact turn q (k', v) t)) k = new_stage turn p (t_entropy t) k"
  "k \<noteq> k' \<Longrightarrow> is_due turn p (t_entropy (place_fact turn q (k', v) t)) k = is_due turn p (t_entropy t) k"
  by (simp_all add: new_stage_def is_due_def stage_of_other)

lemma place_fact_tiers:
  "t_hot (place_fact turn p kv t) = t_hot t @ (if new_stage turn p (t_entropy t) (fst kv) = 0 then [kv] else [])"
  "t_perm (place_fact turn p kv t) = t_perm t @ (if new_stage turn p (t_entropy t) (fst kv) = 3 then [kv] else [])"
  "t_cold (place_fact turn p kv t) =
     t_cold t @ (if new_stage turn p (t_entropy t) (fst kv) \<notin> {0, 3} then [kv] else [])"
  "t_scheduled (place_fact turn p kv t) = t_scheduled t @ (if is_due turn p (t_entropy t) (fst kv) then [kv] else [])"
  by (cases kv; simp add: place_fact_def new_stage_def is_due_def Let_def split: prod.split)+

lemma filter_other:
  assumes "fst kv \<notin> set (map fst fs)" "\<And>k. k \<noteq> fst kv \<Longrightarrow> P k = Q k"
  shows "filter (\<lambda>f. P (fst f)) fs = filter (\<lambda>f. Q (fst f)) fs"
  using assms by (induction fs) auto

lemma tiers_by_stage_from:
  "distinct (map fst fs) \<Longrightarrow>
     t_hot (fold (place_fact turn p) fs t) = t_hot t @ filter (\<lambda>f. new_stage turn p (t_entropy t) (fst f) = 0) fs \<and>
     t_perm (fold (place_fact turn p) fs t) = t_perm t @ filter (\<lambda>f. new_stage turn p (t_entropy t) (fst f) = 3) fs \<and>
     t_cold (fold (place_fact turn p) fs t) = t_cold t @ filter (\<lambda>f. new_stage turn p (t_entropy t) (fst f) \<notin> {0, 3}) fs \<and>
     t_scheduled (fold (place_fact turn p) fs t) = t_scheduled t @ filter (\<lambda>f. is_due turn p (t_entropy t) (fst f)) fs"
proof (induction fs arbitrary: t)
  case (Cons f fs)
  obtain k v where f: "f = (k, v)" by (cases f)
  define t' where "t' = place_fact turn p f t"
  have fresh: "fst f \<notin> set (map fst fs)" using Cons.prems by simp
  have stage: "k' \<noteq> fst f \<Longrightarrow> new_stage turn p (t_entropy t') k' = new_stage turn p (t_entropy t) k'" for k'
    by (simp add: t'_def f new_stage_other)
  have due: "k' \<noteq> fst f \<Longrightarrow> is_due turn p (t_entropy t') k' = is_due turn p (t_entropy t) k'" for k'
    by (simp add: t'_def f new_stage_other)
  have same: "filter (\<lambda>g. P (new_stage turn p (t_entropy t') (fst g))) fs = filter (\<lambda>g. P (new_stage turn p (t_entropy t) (fst g))) fs"
    "filter (\<lambda>g. is_due turn p (t_entropy t') (fst g)) fs = filter (\<lambda>g. is_due turn p (t_entropy t) (fst g)) fs" for P
    using filter_other [OF fresh, of "\<lambda>k. P (new_stage turn p (t_entropy t') k)" "\<lambda>k. P (new_stage turn p (t_entropy t) k)"]
      filter_other [OF fresh, of "\<lambda>k. is_due turn p (t_entropy t') k"] stage due by auto
  have "fold (place_fact turn p) (f # fs) t = fold (place_fact turn p) fs t'" by (simp add: t'_def)
  moreover have "distinct (map fst fs)" using Cons.prems by simp
  ultimately show ?case
    using Cons.IH [of t'] same(2) same(1) [of "\<lambda>n. n = 0"] same(1) [of "\<lambda>n. n = 3"] same(1) [of "\<lambda>n. n \<notin> {0, 3}"]
    by (simp add: t'_def place_fact_tiers)
qed simp

lemma distinct_dict_update: "distinct (map fst d) \<Longrightarrow> distinct (map fst (dict_update d e))"
  by (induction e arbitrary: d) (auto simp: dict_update_def distinct_dict_set)

lemma distinct_all_facts: "distinct (map fst (all_facts m))"
  by (simp add: all_facts_def add_facts_def distinct_dict_update)

text \<open>moving the facts between the tiers is a partition by stage: with the entropy that the invalidation leaves, every fact goes in
  its order to exactly one tier, to the hot one at stage 0, to the permanent one at stage 3, to the cold one otherwise, and the
  scheduled facts are the ones that are due.\<close>

lemma tiers_by_stage:
  "rebalanced_tiers turn m =
     (let (perm, e) = invalidation m; p = facts_text perm; fs = all_facts (m\<lparr>permanent_state := p\<rparr>);
          stage = (\<lambda>f. new_stage turn p e (fst f))
      in \<lparr>t_hot = filter (\<lambda>f. stage f = 0) fs, t_cold = filter (\<lambda>f. stage f \<notin> {0, 3}) fs, t_perm = filter (\<lambda>f. stage f = 3) fs,
          t_scheduled = filter (\<lambda>f. is_due turn p e (fst f)) fs, t_entropy = t_entropy (rebalanced_tiers turn m)\<rparr>)"
proof -
  obtain perm e where i: "invalidation m = (perm, e)" by (cases "invalidation m")
  define p where "p = facts_text perm"
  define fs where "fs = all_facts (m\<lparr>permanent_state := p\<rparr>)"
  have "rebalanced_tiers turn m = fold (place_fact turn p) fs (no_tiers e)"
    by (simp add: rebalanced_tiers_def i Let_def p_def fs_def)
  then show ?thesis
    using tiers_by_stage_from [of fs turn p "no_tiers e"] distinct_all_facts
    by (simp add: i Let_def p_def [symmetric] fs_def [symmetric] no_tiers_def) (simp add: fs_def)
qed

subsection \<open>The text of a tier is read back\<close>

definition clean_fact :: "string \<times> string \<Rightarrow> bool" where
  "clean_fact kv =
     (fst kv \<noteq> [] \<and> CHR '':'' \<notin> set (fst kv) \<and> py_strip (fst kv) = fst kv \<and> py_strip (snd kv) = snd kv \<and>
      \<not> list_ex fact_sep (fst kv) \<and> \<not> list_ex fact_sep (snd kv))"

lemma fact_sep_chars [simp]: "\<not> fact_sep (CHR '' '')" "\<not> fact_sep (CHR '':'')" "fact_sep (CHR '';'')" "\<not> py_space (CHR '':'')"
  by code_simp+

lemma dropWhile_hd: "xs = [] \<or> \<not> P (hd xs) \<Longrightarrow> dropWhile P xs = xs"
  by (cases xs) auto

lemma strip_fixed_iff: "py_strip s = s \<longleftrightarrow> s = [] \<or> (\<not> py_space (hd s) \<and> \<not> py_space (last s))"
proof
  assume s: "py_strip s = s"
  show "s = [] \<or> (\<not> py_space (hd s) \<and> \<not> py_space (last s))"
  proof (rule disjCI)
    assume "\<not> (\<not> py_space (hd s) \<and> \<not> py_space (last s))"
    then consider "py_space (hd s)" | "py_space (last s)" by blast
    then show "s = []"
    proof cases
      case 1
      show ?thesis
      proof (rule ccontr)
        assume ne: "s \<noteq> []"
        then have "length (dropWhile py_space s) < length s"
          using 1 length_dropWhile_le [of py_space "tl s"] by (cases s) auto
        then show False
          using s length_dropWhile_le [of py_space "rev (dropWhile py_space s)"] by (simp add: py_strip_def strip_by_def) (metis length_rev not_less)
      qed
    next
      case 2
      show ?thesis
      proof (rule ccontr)
        assume ne: "s \<noteq> []"
        define t where "t = dropWhile py_space s"
        have len: "length t \<le> length s" by (simp add: t_def length_dropWhile_le)
        have "length (dropWhile py_space (rev t)) = length s"
          using s by (simp add: py_strip_def strip_by_def t_def) (metis length_rev)
        then have full: "length t = length s" using len length_dropWhile_le [of py_space "rev t"] by simp
        then have "t = s" unfolding t_def by (metis dropWhile_eq_self_iff length_dropWhile_le append_eq_conv_conj takeWhile_dropWhile_id length_append add_cancel_left_left length_0_conv self_append_conv2)
        moreover have "length (dropWhile py_space (rev s)) < length s"
          using 2 ne length_dropWhile_le [of py_space "tl (rev s)"] by (cases "rev s") (auto simp: last_rev hd_rev [symmetric] split: if_splits)
        ultimately show False using \<open>length (dropWhile py_space (rev t)) = length s\<close> by simp
      qed
    qed
  qed
next
  assume "s = [] \<or> (\<not> py_space (hd s) \<and> \<not> py_space (last s))"
  then show "py_strip s = s"
    using dropWhile_hd [of s py_space] dropWhile_hd [of "rev s" py_space] by (auto simp: py_strip_def strip_by_def hd_rev)
qed

lemma strip_fact: "clean_fact kv \<Longrightarrow> py_strip (fact_text kv) = fact_text kv"
  by (auto simp: clean_fact_def fact_text_def strip_fixed_iff)

lemma strip_space: "py_strip (CHR '' '' # s) = py_strip s"
  by (simp add: py_strip_def strip_by_def)

lemma split_once_fact: "clean_fact kv \<Longrightarrow> split_once (CHR '':'') (fact_text kv) = kv"
  by (cases kv) (auto simp: clean_fact_def fact_text_def split_once_def takeWhile_append dropWhile_append)

lemma fact_free: "clean_fact kv \<Longrightarrow> \<not> list_ex fact_sep (fact_text kv)"
  by (auto simp: clean_fact_def fact_text_def)

lemma split_joined:
  "list_all (\<lambda>w. \<not> list_ex fact_sep w) (w # ws) \<Longrightarrow> split_by fact_sep (join ''; '' (w # ws)) = w # map ((#) (CHR '' '')) ws"
proof (induction ws arbitrary: w)
  case (Cons x ws)
  have "split_by fact_sep (join ''; '' (w # x # ws)) = w # split_by fact_sep (CHR '' '' # join ''; '' (x # ws))"
    using Cons.prems split_by_append [of fact_sep w "CHR '';''"] by simp
  then show ?case using Cons by simp
qed (simp add: split_by_id)

lemma raw_facts_text: "list_all clean_fact d \<Longrightarrow> raw_facts (facts_text d) = d"
proof (cases d)
  case (Cons f fs)
  assume clean: "list_all clean_fact d"
  have free: "list_all (\<lambda>w. \<not> list_ex fact_sep w) (map fact_text d)"
    using clean fact_free by (auto simp: list_all_iff)
  have strip: "map py_strip (map ((#) (CHR '' '')) (map fact_text es)) = map fact_text es" if "list_all clean_fact es" for es
    using that by (induction es) (simp_all add: strip_space strip_fact)
  have colon: "filter (\<lambda>p. CHR '':'' \<in> set p) (map fact_text es) = map fact_text es" for es
    by (induction es) (simp_all add: fact_text_def)
  have each: "map (\<lambda>p. (py_strip (fst (split_once (CHR '':'') p)), py_strip (snd (split_once (CHR '':'') p)))) (map fact_text es) = es"
    if "list_all clean_fact es" for es
    using that by (induction es) (simp_all add: split_once_fact, simp add: clean_fact_def)
  have "map py_strip (split_by fact_sep (facts_text d)) = map fact_text d"
    using clean free split_joined [of "fact_text f" "map fact_text fs"] strip [of fs] by (simp add: facts_text_def Cons strip_fact del: map_map)
  then show ?thesis unfolding raw_facts_def using colon [of d] each [OF clean] by simp
qed (simp add: raw_facts_def facts_text_def)

lemma raw_facts_clean: "kv \<in> set (raw_facts s) \<Longrightarrow> fst kv \<noteq> [] \<Longrightarrow> clean_fact kv"
proof -
  assume kv: "kv \<in> set (raw_facts s)" "fst kv \<noteq> []"
  then obtain w where w: "w \<in> set (split_by fact_sep s)"
    and eq: "kv = (py_strip (fst (split_once (CHR '':'') (py_strip w))), py_strip (snd (split_once (CHR '':'') (py_strip w))))"
    by (auto simp: raw_facts_def)
  have tail: "set (tl xs) \<subseteq> set xs" for xs :: string by (cases xs) auto
  have "set (fst (split_once (CHR '':'') (py_strip w))) \<subseteq> set (py_strip w)"
    by (auto simp: split_once_def dest: set_takeWhileD)
  moreover have "set (snd (split_once (CHR '':'') (py_strip w))) \<subseteq> set (py_strip w)"
    using tail [of "dropWhile (\<lambda>c. c \<noteq> CHR '':'') (py_strip w)"] by (auto simp: split_once_def dest: set_dropWhileD)
  moreover have "CHR '':'' \<notin> set (fst (split_once (CHR '':'') (py_strip w)))"
    by (auto simp: split_once_def dest: set_takeWhileD)
  moreover have strip: "set (py_strip x) \<subseteq> set x" for x by (simp add: py_strip_def strip_by_subset)
  ultimately have sub: "set (fst kv) \<subseteq> set w" "set (snd kv) \<subseteq> set w" "CHR '':'' \<notin> set (fst kv)"
    unfolding eq using strip [of w] strip [of "fst (split_once (CHR '':'') (py_strip w))"]
      strip [of "snd (split_once (CHR '':'') (py_strip w))"] by auto
  have "\<not> list_ex fact_sep w" by (rule split_by_free [OF w])
  then show ?thesis using sub kv(2) by (auto simp: clean_fact_def eq list_ex_iff)
qed

lemma add_facts_clean:
  assumes "\<And>k. ok k \<Longrightarrow> k \<noteq> []" "list_all clean_fact d"
  shows "list_all clean_fact (add_facts ok s d)"
proof -
  have set_clean: "list_all clean_fact (dict_set k v d)" if "clean_fact (k, v)" "list_all clean_fact d" for k v and d :: "string dict"
    using that by (induction d) (auto simp: dict_set_def)
  have upd: "list_all clean_fact (dict_update d es)" if "list_all clean_fact d" "list_all clean_fact es" for d es
    using that by (induction es arbitrary: d) (auto simp: dict_update_def set_clean)
  have "list_all clean_fact (filter (\<lambda>(k, _). ok k) (raw_facts s))"
    using raw_facts_clean assms(1) by (fastforce simp: list_all_iff)
  then show ?thesis using upd assms(2) by (simp add: add_facts_def)
qed

lemma narrow_wide: "narrow_key k \<Longrightarrow> wide_key k"
  by (auto simp: narrow_key_def wide_key_def list_all_iff)

lemma all_facts_clean: "list_all clean_fact (all_facts m)"
  unfolding all_facts_def by (intro add_facts_clean) (auto simp: narrow_key_def)

lemma all_facts_narrow: "list_all (\<lambda>f. narrow_key (fst f)) (all_facts m)"
proof -
  have set_ok: "list_all (\<lambda>f. narrow_key (fst f)) (dict_set k v d)"
    if "narrow_key k" "list_all (\<lambda>f. narrow_key (fst f)) d" for k v and d :: "string dict"
    using that by (induction d) (auto simp: dict_set_def)
  have upd: "list_all (\<lambda>f. narrow_key (fst f)) (dict_update d es)"
    if "list_all (\<lambda>f. narrow_key (fst f)) d" "list_all (\<lambda>f. narrow_key (fst f)) es" for d es :: "string dict"
    using that
  proof (induction es arbitrary: d)
    case (Cons e es)
    then show ?case using set_ok [of "fst e" d "snd e"] by (cases e) (simp add: dict_update_def)
  qed (simp add: dict_update_def)
  show ?thesis
    unfolding all_facts_def add_facts_def by (intro upd) (auto simp: list_all_iff)
qed

lemma dict_update_fresh: "distinct (map fst (d @ es)) \<Longrightarrow> dict_update d es = d @ es"
proof (induction es arbitrary: d)
  case (Cons e es)
  obtain k v where e: "e = (k, v)" by (cases e)
  have "k \<notin> set (map fst d)" using Cons.prems by (auto simp: e)
  then have "dict_set k v d = d @ [(k, v)]" by (rule dict_set_new)
  then show ?case using Cons by (simp add: dict_update_def e)
qed (simp add: dict_update_def)

lemma parse_facts_text:
  assumes "list_all clean_fact d" "list_all (\<lambda>f. narrow_key (fst f)) d" "distinct (map fst d)"
  shows "parse_facts (facts_text d) = d"
proof -
  have "filter (\<lambda>(k, _). wide_key k) d = d"
    using assms(2) narrow_wide by (induction d) auto
  then show ?thesis using assms by (simp add: parse_facts_def add_facts_def raw_facts_text dict_update_fresh)
qed

lemma filtered_tier:
  fixes P :: "string \<Rightarrow> bool" and m :: tok_memory
  defines "d \<equiv> filter (\<lambda>f. P (fst f)) (all_facts m)"
  shows "parse_facts (facts_text d) = d"
proof (rule parse_facts_text)
  show "list_all clean_fact d" using all_facts_clean [of m] by (auto simp: d_def list_all_iff)
  show "list_all (\<lambda>f. narrow_key (fst f)) d" using all_facts_narrow [of m] by (auto simp: d_def list_all_iff)
  show "distinct (map fst d)" using distinct_all_facts [of m] by (simp add: d_def distinct_map_filter)
qed

definition rebuilt :: "tok_memory \<Rightarrow> tok_memory" where
  "rebuilt m = m\<lparr>permanent_state := facts_text (fst (invalidation m))\<rparr>"

lemma rebalanced_parts:
  fixes m turn
  defines "stage \<equiv> \<lambda>f :: string \<times> string. new_stage turn (permanent_state (rebuilt m)) (snd (invalidation m)) (fst f)"
  shows "t_hot (rebalanced_tiers turn m) = filter (\<lambda>f. stage f = 0) (all_facts (rebuilt m))"
    "t_cold (rebalanced_tiers turn m) = filter (\<lambda>f. stage f \<notin> {0, 3}) (all_facts (rebuilt m))"
    "t_perm (rebalanced_tiers turn m) = filter (\<lambda>f. stage f = 3) (all_facts (rebuilt m))"
proof -
  obtain perm e where i: "invalidation m = (perm, e)" by (cases "invalidation m")
  define p where "p = facts_text perm"
  have r: "rebuilt m = m\<lparr>permanent_state := p\<rparr>" "permanent_state (rebuilt m) = p"
    by (simp_all add: rebuilt_def i p_def)
  have run: "rebalanced_tiers turn m = fold (place_fact turn p) (all_facts (rebuilt m)) (no_tiers e)"
    by (simp add: rebalanced_tiers_def i Let_def p_def r(1))
  show "t_hot (rebalanced_tiers turn m) = filter (\<lambda>f. stage f = 0) (all_facts (rebuilt m))"
    "t_cold (rebalanced_tiers turn m) = filter (\<lambda>f. stage f \<notin> {0, 3}) (all_facts (rebuilt m))"
    "t_perm (rebalanced_tiers turn m) = filter (\<lambda>f. stage f = 3) (all_facts (rebuilt m))"
    using tiers_by_stage_from [of "all_facts (rebuilt m)" turn p "no_tiers e"] distinct_all_facts [of "rebuilt m"]
    unfolding run stage_def r(2) i by (simp_all add: no_tiers_def)
qed

subsection \<open>No fact is lost\<close>

lemma invalidation_perm_sub:
  "set (fst (fold invalidate_step fs (perm, e))) \<subseteq> set perm \<and> (distinct (map fst perm) \<longrightarrow> distinct (map fst (fst (fold invalidate_step fs (perm, e)))))"
proof (induction fs arbitrary: perm e)
  case (Cons f fs)
  obtain perm' e' where s: "invalidate_step f (perm, e) = (perm', e')" by (cases "invalidate_step f (perm, e)")
  have "set perm' \<subseteq> set perm \<and> (distinct (map fst perm) \<longrightarrow> distinct (map fst perm'))"
    using s by (cases f) (auto simp: invalidate_step_def dict_pop_def distinct_map_filter split: option.splits if_splits)
  then show ?case using Cons.IH [of perm' e'] s by auto
qed simp

lemma parse_facts_clean: "list_all clean_fact (parse_facts s)"
  unfolding parse_facts_def by (rule add_facts_clean) (auto simp: wide_key_def)

lemma distinct_parse_facts: "distinct (map fst (parse_facts s))"
  by (simp add: parse_facts_def add_facts_def distinct_dict_update)

lemma map_of_facts_update: "distinct (map fst es) \<Longrightarrow> map_of (dict_update d es) k = (case map_of es k of None \<Rightarrow> map_of d k | Some v \<Rightarrow> Some v)"
proof (induction es arbitrary: d)
  case (Cons e es)
  then show ?case by (cases e) (auto simp: dict_update_def dest: map_of_SomeD split: option.splits; force dest: map_of_SomeD)
qed (simp add: dict_update_def)

lemma map_of_rev_update: "map_of (dict_update d es) k = (case map_of (rev es) k of None \<Rightarrow> map_of d k | Some v \<Rightarrow> Some v)"
proof (induction es arbitrary: d)
  case (Cons e es)
  then show ?case by (cases e) (auto simp: dict_update_def map_add_def split: option.split)
qed (simp add: dict_update_def)

lemma map_of_filter_key: "P k \<Longrightarrow> map_of (filter (\<lambda>f. P (fst f)) d) k = map_of d k"
  by (induction d) auto

lemma map_of_filter_none: "\<not> P k \<Longrightarrow> map_of (filter (\<lambda>f. P (fst f)) d) k = None"
  by (induction d) auto

lemma add_facts_value:
  "map_of (add_facts narrow_key s d) k =
     (if narrow_key k then (case map_of (parse_facts s) k of None \<Rightarrow> map_of d k | Some v \<Rightarrow> Some v) else map_of d k)"
proof -
  have keys: "map_of (rev (filter (\<lambda>(k, _). P k) es)) k = (if P k then map_of (rev es) k else None)" for P and es :: "string dict"
    using map_of_filter_key [of P k "rev es"] map_of_filter_none [of P k "rev es"] by (simp add: rev_filter case_prod_beta')
  show ?thesis
    using narrow_wide [of k] by (simp add: add_facts_def parse_facts_def map_of_rev_update keys split: option.split)
qed

lemma invalidation_value:
  "distinct (map fst fs) \<Longrightarrow> map_of (fst (fold invalidate_step fs (perm, e))) k =
     (case (map_of perm k, map_of fs k) of
        (Some v, Some w) \<Rightarrow> if v \<noteq> w \<and> k \<notin> set (primacy_locked e) then None else Some v
      | (x, _) \<Rightarrow> x)"
proof (induction fs arbitrary: perm e)
  case Nil
  then show ?case by (simp split: option.split)
next
  case (Cons f fs)
  obtain j w where f: "f = (j, w)" by (cases f)
  obtain perm' e' where s: "invalidate_step f (perm, e) = (perm', e')" by (cases "invalidate_step f (perm, e)")
  have pop: "map_of (dict_pop i d) k = (if i = k then None else map_of d k)" for i and d :: "string dict"
    by (induction d) (auto simp: dict_pop_def)
  have locks: "primacy_locked e' = primacy_locked e"
    using s by (auto simp: f invalidate_step_def demote_def Let_def split: option.splits if_splits)
  have other: "map_of perm' k = map_of perm k" if "j \<noteq> k"
    using s that by (auto simp: f invalidate_step_def pop split: option.splits if_splits)
  have same: "map_of perm' k = (case map_of perm k of None \<Rightarrow> None
      | Some v \<Rightarrow> if v \<noteq> w \<and> k \<notin> set (primacy_locked e) then None else Some v)" if "j = k"
    using s that by (auto simp: f invalidate_step_def pop split: option.splits if_splits)
  have "map_of fs k = None" if "j = k" using Cons.prems that by (simp add: f map_of_eq_None_iff)
  with Cons.IH [of perm' e'] Cons.prems s locks other same show ?case
    by (cases "j = k") (auto simp: f split: option.split)
qed

text \<open>
  What the tiers should hold afterwards, said of the memory before. A text states a value for a key when the reader of facts finds
  it there. The permanent text has the first word, then the hot, the cold and the flat one; but a permanent fact that
  the hot text contradicts gives way, unless its key is locked.
\<close>

definition stated :: "string \<Rightarrow> string \<Rightarrow> string option" where
  "stated s k = map_of (parse_facts s) k"

definition first_stated :: "string list \<Rightarrow> string \<Rightarrow> string option" where
  "first_stated texts k = foldr (\<lambda>s later. case stated s k of None \<Rightarrow> later | Some v \<Rightarrow> Some v) texts None"

definition contradicted :: "tok_memory \<Rightarrow> string \<Rightarrow> bool" where
  "contradicted m k \<longleftrightarrow> k \<notin> set (primacy_locked (mm_entropy m)) \<and>
     (\<exists>v w. stated (permanent_state m) k = Some v \<and> stated (hot_state m) k = Some w \<and> v \<noteq> w)"

definition value_kept :: "tok_memory \<Rightarrow> string \<Rightarrow> string option" where
  "value_kept m k =
     (if \<not> narrow_key k then None
      else if contradicted m k then stated (hot_state m) k
      else first_stated [permanent_state m, hot_state m, cold_state m, mm_state m] k)"

lemma rebuilt_permanent:
  "stated (permanent_state (rebuilt m)) k = (if contradicted m k then None else stated (permanent_state m) k)"
  if "narrow_key k" for k
proof -
  have perm: "set (fst (invalidation m)) \<subseteq> set (parse_facts (permanent_state m))" "distinct (map fst (fst (invalidation m)))"
    using invalidation_perm_sub [of "parse_facts (hot_state m)" "parse_facts (permanent_state m)" "mm_entropy m"]
      distinct_parse_facts [of "permanent_state m"] by (simp_all add: invalidation_def)
  then have clean: "list_all clean_fact (fst (invalidation m))"
    using parse_facts_clean [of "permanent_state m"] by (auto simp: list_all_iff)
  have "map_of (parse_facts (facts_text (fst (invalidation m)))) k = map_of (fst (invalidation m)) k"
    using that narrow_wide [OF that] perm(2) map_of_filter_key [of wide_key k "fst (invalidation m)"]
    by (simp add: parse_facts_def add_facts_def raw_facts_text [OF clean] map_of_facts_update distinct_map_filter case_prod_beta'
        split: option.split)
  moreover have "map_of (fst (invalidation m)) k = (if contradicted m k then None else stated (permanent_state m) k)"
    using invalidation_value [OF distinct_parse_facts, of "hot_state m" "parse_facts (permanent_state m)" "mm_entropy m" k]
    by (auto simp: invalidation_def contradicted_def stated_def split: option.splits)
  ultimately show ?thesis by (simp add: rebuilt_def stated_def)
qed

lemma collected_value: "map_of (all_facts (rebuilt m)) k = value_kept m k"
proof (cases "narrow_key k")
  case False
  then show ?thesis by (simp add: all_facts_def add_facts_value value_kept_def)
next
  case True
  have same: "hot_state (rebuilt m) = hot_state m" "cold_state (rebuilt m) = cold_state m" "mm_state (rebuilt m) = mm_state m"
    by (simp_all add: rebuilt_def)
  have "stated (hot_state m) k \<noteq> None" if "contradicted m k" using that by (auto simp: contradicted_def)
  with True rebuilt_permanent [OF True, of m] show ?thesis
    by (auto simp: all_facts_def add_facts_value value_kept_def first_stated_def stated_def same split: option.split)
qed

lemma map_of_permuted:
  assumes "distinct (map fst xs)" and "mset ys = mset xs"
  shows "distinct (map fst ys) \<and> map_of ys k = map_of xs k"
proof -
  have d: "distinct (map fst ys)" using assms by (metis mset_eq_imp_distinct_iff mset_map)
  have "set ys = set xs" using assms(2) by (metis set_mset_mset)
  with d assms(1) have "map_of ys k = Some v \<longleftrightarrow> map_of xs k = Some v" for v by simp
  then have "map_of ys k = map_of xs k" by (metis not_Some_eq)
  with d show ?thesis by simp
qed

text \<open>The three texts, read back, hold together the facts that were collected, each in one of the three.\<close>

lemma rebalanced_texts_mset:
  "mset (parse_facts (hot_state (rebalance_states turn m)) @ parse_facts (cold_state (rebalance_states turn m)) @
         parse_facts (permanent_state (rebalance_states turn m))) = mset (all_facts (rebuilt m))"
proof -
  define stage where "stage = new_stage turn (permanent_state (rebuilt m)) (snd (invalidation m))"
  have tier: "parse_facts (facts_text (filter (\<lambda>f. P (stage (fst f))) (all_facts (rebuilt m)))) = filter (\<lambda>f. P (stage (fst f))) (all_facts (rebuilt m))" for P
    by (rule filtered_tier)
  have "mset (filter (\<lambda>f. stage (fst f) = 0) fs @ filter (\<lambda>f. stage (fst f) \<notin> {0, 3}) fs @ filter (\<lambda>f. stage (fst f) = 3) fs) = mset fs" for fs
    by (induction fs) auto
  then show ?thesis
    unfolding rebalance_states_def Let_def rebalanced_parts stage_def [symmetric]
    using tier [of "\<lambda>n. n = 0"] tier [of "\<lambda>n. n \<notin> {0, 3}"] tier [of "\<lambda>n. n = 3"] by simp
qed

text \<open>C23: the move between the tiers loses no fact with a narrow key (letters, digits, underscore and hyphen, and none of the words
  \<open>heat\<close>, \<open>last\<close>, \<open>stage\<close>, \<open>next\<close>, \<open>locked\<close>), invents none and doubles none. Read back afterwards, the hot, cold and permanent texts
  hold together no key twice, and for every key exactly the value that the memory before gives it: that of the first of its
  permanent, hot, cold and flat texts that states the key, except that a permanent fact which the hot text contradicts is replaced by
  the hot one, unless its key is locked. Facts under any other key, such as a path, are in none of the tiers afterwards; the flat
  text is emptied.\<close>

theorem rebalanced_texts_partition:
  "let m' = rebalance_states turn m;
       facts = parse_facts (hot_state m') @ parse_facts (cold_state m') @ parse_facts (permanent_state m')
   in distinct (map fst facts) \<and> (\<forall>k. map_of facts k = value_kept m k) \<and> mm_state m' = []"
proof -
  have "mm_state (rebalance_states turn m) = []" by (simp add: rebalance_states_def Let_def)
  with map_of_permuted [OF distinct_all_facts rebalanced_texts_mset, of turn m] collected_value show ?thesis
    by (simp add: Let_def)
qed

subsection \<open>Locked facts\<close>

lemma invalidation_locked:
  assumes "k \<in> set (primacy_locked e)"
  shows "map_of (fst (fold invalidate_step fs (perm, e))) k = map_of perm k \<and>
         primacy_locked (snd (fold invalidate_step fs (perm, e))) = primacy_locked e"
  using assms
proof (induction fs arbitrary: perm e)
  case (Cons f fs)
  obtain perm' e' where s: "invalidate_step f (perm, e) = (perm', e')" by (cases "invalidate_step f (perm, e)")
  have pop: "map_of (dict_pop j d) k = (if j = k then None else map_of d k)" for j and d :: "string dict"
    by (induction d) (auto simp: dict_pop_def)
  have "map_of perm' k = map_of perm k \<and> primacy_locked e' = primacy_locked e"
    using s Cons.prems pop by (cases f) (auto simp: invalidate_step_def demote_def Let_def split: option.splits if_splits)
  then show ?case using Cons.IH [of e' perm'] Cons.prems s by simp
qed simp

text \<open>C25: a locked fact of the permanent tier whose key is narrow (letters, digits, underscore and hyphen, none of the words
  \<open>heat\<close>, \<open>last\<close>, \<open>stage\<close>, \<open>next\<close>, \<open>locked\<close>) keeps its place and its value, whatever the other tiers say about its key. (A locked fact
  about a path is lost, as every fact about a path.)\<close>

theorem locked_fact_kept:
  assumes locked: "k \<in> set (primacy_locked (mm_entropy m))" and key: "narrow_key k"
    and v: "map_of (parse_facts (permanent_state m)) k = Some v"
  shows "map_of (parse_facts (permanent_state (rebalance_states turn m))) k = Some v"
proof -
  obtain perm e where i: "invalidation m = (perm, e)" by (cases "invalidation m")
  have perm: "map_of perm k = Some v" "k \<in> set (primacy_locked e)"
    using invalidation_locked [OF locked, of "parse_facts (hot_state m)" "parse_facts (permanent_state m)"] i v locked
    by (auto simp: invalidation_def)
  have clean: "list_all clean_fact perm" "distinct (map fst perm)"
    using invalidation_perm_sub [of "parse_facts (hot_state m)" "parse_facts (permanent_state m)" "mm_entropy m"] i
      parse_facts_clean [of "permanent_state m"] distinct_parse_facts [of "permanent_state m"]
    by (auto simp: invalidation_def list_all_iff)
  have found: "map_of (filter (\<lambda>(j, _). narrow_key j) perm) k = Some v"
    using perm(1) key by (induction perm) (auto split: if_splits)
  have dist: "distinct (map fst (filter (\<lambda>(j, _). narrow_key j) perm))"
    using clean(2) by (simp add: distinct_map_filter)
  have "map_of (add_facts narrow_key (facts_text perm) d) k = Some v" for d
    unfolding add_facts_def raw_facts_text [OF clean(1)] by (subst map_of_facts_update [OF dist]) (simp only: found option.case)
  then have "map_of (all_facts (rebuilt m)) k = Some v"
    by (simp add: all_facts_def rebuilt_def i)
  moreover have "new_stage turn p e k = 3" for p
    using perm(2) by (simp add: new_stage_def stage_of_def Let_def)
  ultimately have "map_of (t_perm (rebalanced_tiers turn m)) k = Some v"
    using map_of_filter_key [of "\<lambda>j. new_stage turn (permanent_state (rebuilt m)) e j = 3" k "all_facts (rebuilt m)"]
    by (simp add: rebalanced_parts i)
  then show ?thesis
    using filtered_tier [of "\<lambda>j. new_stage turn (permanent_state (rebuilt m)) (snd (invalidation m)) j = 3" "rebuilt m"]
    by (simp add: rebalance_states_def Let_def rebalanced_parts)
qed

definition told_memory :: "string \<Rightarrow> string \<Rightarrow> counts \<Rightarrow> string list \<Rightarrow> tok_memory" where
  "told_memory hot perm st locked =
     \<lparr>mm_meta = [], mm_agent = [], mm_tools = [], mm_grammar = [], mm_state = [], hot_state = hot, cold_state = [],
      permanent_state = perm, scheduled_state = [], mm_entropy = new_entropy\<lparr>stages := st, primacy_locked := locked\<rparr>\<rparr>"

theorem locked_fact_kept_witness:
  "map_of (parse_facts (permanent_state (rebalance_states 4 (told_memory ''name:eve'' ''name:ada'' [] [''name''])))) ''name'' = Some ''ada''"
proof (rule locked_fact_kept)
  show "map_of (parse_facts (permanent_state (told_memory ''name:eve'' ''name:ada'' [] [''name'']))) ''name'' = Some ''ada''" by code_simp
  show "narrow_key ''name''" by code_simp
qed (simp add: told_memory_def new_entropy_def)

text \<open>facts about paths do not survive: \<open>_parse_facts\<close> reads a key with a slash or a dot, the move between the tiers collects only
  keys without, and the fact is in none of the tiers afterwards.\<close>

lemma path_facts_lost:
  "parse_facts ''src/a.py:seen'' = [(''src/a.py'', ''seen'')] \<and>
   (let m = rebalance_states 1 (told_memory ''src/a.py:seen'' [] [] []) in
      hot_state m = [] \<and> cold_state m = [] \<and> permanent_state m = [] \<and> mm_state m = [])"
  by code_simp

text \<open>a contradicted permanent fact is updated but not demoted: the comment says that its stage is computed from its heat, but below
  the threshold the old stage is kept, and a fact of stage 3 is permanent again at once.\<close>

lemma contradicted_fact_stays_permanent:
  "permanent_state (rebalance_states 5 (told_memory ''lang:py'' ''lang:go'' [(''lang'', 3)] [])) = ''lang:py'' \<and>
   cget ''lang'' (heatmap (mm_entropy (rebalance_states 5 (told_memory ''lang:py'' ''lang:go'' [(''lang'', 3)] [])))) = 0"
  by code_simp

subsection \<open>The tracker is read back\<close>

definition plain_key :: "string \<Rightarrow> bool" where
  "plain_key k = (k \<noteq> [] \<and> py_strip k = k \<and> CHR ''|'' \<notin> set k \<and> list_all (\<lambda>c. \<not> line_break c) k)"

definition tracked_line :: "string \<Rightarrow> entropy_line \<Rightarrow> string" where
  "tracked_line key l =
     join ''|'' ([key, ''heat:'' @ int_str (el_heat l), ''last:'' @ int_str (el_last l), ''stage:'' @ int_str (el_stage l),
       ''next:'' @ int_str (el_next l)] @ (if el_locked l then [''locked''] else []))"

definition line_of :: "entropy \<Rightarrow> string \<Rightarrow> entropy_line" where
  "line_of e key = \<lparr>el_heat = cget key (heatmap e), el_last = cget key (last_seen_at e), el_stage = cget key (stages e),
     el_next = cget key (next_refresh e), el_locked = (key \<in> set (primacy_locked e))\<rparr>"

lemma entropy_text_line: "map_of (heatmap e) key = Some heat \<Longrightarrow> entropy_text e (key, heat) = tracked_line key (line_of e key)"
  by (simp add: entropy_text_def tracked_line_def line_of_def cget_def)

lemma int_str_chars: "c \<in> set (int_str n) \<Longrightarrow> is_digit c \<or> c = CHR ''-''"
  using nat_str_all_digits by (auto simp: int_str_def list_all_iff split: if_splits)

lemma digit_facts: "is_digit c \<Longrightarrow> c \<noteq> CHR ''|'' \<and> c \<noteq> CHR '':'' \<and> \<not> py_space c \<and> \<not> line_break c"
  by (auto simp: is_digit_def py_space_def line_break_def Let_def)

lemma py_int_int_str: "py_int (int_str n) = Some n"
proof -
  have free: "\<forall>c \<in> set (int_str n). \<not> py_space c"
    using int_str_chars digit_facts by (fastforce simp: py_space_def)
  have pos: "py_int (nat_str k) = Some (int k)" for k by (rule py_int_nat_str)
  have digits: "list_all is_digit (nat_str k)" "nat_str k \<noteq> []" for k by (simp_all add: nat_str_all_digits)
  show ?thesis
  proof (cases "n < 0")
    case True
    then have "int_str n = CHR ''-'' # nat_str (nat (- n))" by (simp add: int_str_def)
    then show ?thesis using py_strip_id [OF free] True digits by (simp add: py_int_def)
  next
    case False
    then show ?thesis using pos [of "nat n"] by (simp add: int_str_def)
  qed
qed

lemma split_field: "CHR '':'' \<notin> set a \<Longrightarrow> CHR '':'' \<notin> set b \<Longrightarrow> split_by (\<lambda>c. c = CHR '':'') (a @ CHR '':'' # b) = [a, b]"
  using split_by_append [of "\<lambda>c. c = CHR '':''" a "CHR '':''" b] split_by_id [of "\<lambda>c. c = CHR '':''" b]
  by (auto simp: list_ex_iff)

lemma int_field_text: "CHR '':'' \<notin> set a \<Longrightarrow> int_field (a @ CHR '':'' # int_str n) = Inr n"
proof -
  assume a: "CHR '':'' \<notin> set a"
  have "CHR '':'' \<notin> set (int_str n)" using int_str_chars digit_facts by fastforce
  then show ?thesis using split_field [OF a, of "int_str n"] by (simp add: int_field_def py_int_int_str)
qed

lemma entropy_parts_line:
  "entropy_parts ([''heat:'' @ int_str h, ''last:'' @ int_str l, ''stage:'' @ int_str s, ''next:'' @ int_str n] @ (if b then [''locked''] else []))
     \<lparr>el_heat = 0, el_last = 0, el_stage = 0, el_next = 0, el_locked = False\<rparr> =
   Inr \<lparr>el_heat = h, el_last = l, el_stage = s, el_next = n, el_locked = b\<rparr>"
  using int_field_text [of "''heat''" h] int_field_text [of "''last''" l] int_field_text [of "''stage''" s] int_field_text [of "''next''" n]
  by (simp add: entropy_part_def)

lemma int_str_free: "CHR ''|'' \<notin> set (int_str n)" "list_all (\<lambda>c. \<not> line_break c \<and> \<not> py_space c) (int_str n)"
proof -
  have dash: "\<not> line_break (CHR ''-'')" "\<not> py_space (CHR ''-'')" by code_simp+
  show "CHR ''|'' \<notin> set (int_str n)" using int_str_chars digit_facts by fastforce
  show "list_all (\<lambda>c. \<not> line_break c \<and> \<not> py_space c) (int_str n)"
    using int_str_chars [of _ n] digit_facts dash by (auto simp: list_all_iff)
qed

lemma entropy_entry_line:
  assumes "plain_key key"
  shows "entropy_entry (tracked_line key l) = Inr (key, l)"
proof -
  define fields where "fields = [''heat:'' @ int_str (el_heat l), ''last:'' @ int_str (el_last l), ''stage:'' @ int_str (el_stage l),
       ''next:'' @ int_str (el_next l)] @ (if el_locked l then [''locked''] else [])"
  have free: "\<forall>w \<in> set (key # fields). \<not> list_ex (\<lambda>c. c = CHR ''|'') w"
    using assms int_str_free(1) by (auto simp: fields_def plain_key_def list_ex_iff)
  have "tracked_line key l = join [CHR ''|''] (key # fields)" by (simp add: tracked_line_def fields_def)
  then have "split_by (\<lambda>c. c = CHR ''|'') (tracked_line key l) = key # fields"
    using split_by_join [of "key # fields" "\<lambda>c. c = CHR ''|''" "CHR ''|''"] free by simp
  moreover have "entropy_parts fields \<lparr>el_heat = 0, el_last = 0, el_stage = 0, el_next = 0, el_locked = False\<rparr> = Inr l"
    unfolding fields_def entropy_parts_line by simp
  ultimately show ?thesis by (simp add: entropy_entry_def)
qed

lemma splitlines_from_word: "list_all (\<lambda>c. \<not> line_break c) w \<Longrightarrow> acc @ w \<noteq> [] \<Longrightarrow> splitlines_from acc w = [acc @ w]"
proof (induction acc w rule: splitlines_from.induct)
  case (3 acc c d cs)
  have "c \<noteq> carriage_return" using 3 by auto
  then show ?case using 3 by simp
qed auto

lemma chomp_clean: "list_all (\<lambda>c. \<not> line_break c) w \<Longrightarrow> chomp w = w \<and> chomp (w @ [newline]) = w"
  by (cases w rule: rev_cases) (auto simp: chomp_def)

lemma splitlines_join:
  "list_all (\<lambda>w. w \<noteq> [] \<and> list_all (\<lambda>c. \<not> line_break c) w) ws \<Longrightarrow> splitlines (join [newline] ws) = ws"
proof (induction ws)
  case (Cons w ws)
  show ?case
  proof (cases ws)
    case Nil
    then show ?thesis using Cons.prems splitlines_from_word [of w "[]"] by (simp add: splitlines_def splitlines_keep_def chomp_clean)
  next
    case (Cons x xs)
    have w: "list_all (\<lambda>c. \<not> line_break c) w" using Cons.prems by simp
    have "splitlines_keep (w @ newline # join [newline] ws) = (w @ [newline]) # splitlines_keep (join [newline] ws)"
      using splitlines_from_clean [OF w, of "[]"] by (simp add: splitlines_keep_def)
    then show ?thesis using Cons.IH Cons.prems Cons w by (simp add: splitlines_def chomp_clean)
  qed
qed (simp add: splitlines_def splitlines_keep_def)

definition tracker_of :: "(string \<times> entropy_line) list \<Rightarrow> entropy" where
  "tracker_of kls = fold note_entry kls new_entropy"

definition tracker_text :: "entropy \<Rightarrow> string" where
  "tracker_text e = join [newline] (map (\<lambda>kh. ''  '' @ entropy_text e kh) (heatmap e))"

lemma note_entries:
  assumes "distinct (map fst kls)" "set (map fst kls) \<inter> set (map fst (heatmap e)) = {}"
    "map fst (last_seen_at e) = map fst (heatmap e)" "map fst (stages e) = map fst (heatmap e)"
    "map fst (next_refresh e) = map fst (heatmap e)"
  shows "fold note_entry kls e =
     e\<lparr>heatmap := heatmap e @ map (\<lambda>(k, l). (k, el_heat l)) kls, last_seen_at := last_seen_at e @ map (\<lambda>(k, l). (k, el_last l)) kls,
       stages := stages e @ map (\<lambda>(k, l). (k, el_stage l)) kls, next_refresh := next_refresh e @ map (\<lambda>(k, l). (k, el_next l)) kls,
       primacy_locked := primacy_locked e @ map fst (filter (\<lambda>(k, l). el_locked l) kls)\<rparr>"
  using assms
proof (induction kls arbitrary: e)
  case (Cons kl kls)
  obtain k l where kl: "kl = (k, l)" by (cases kl)
  define e' where "e' = note_entry kl e"
  have fresh: "k \<notin> set (map fst (heatmap e))" "k \<notin> set (map fst (last_seen_at e))" "k \<notin> set (map fst (stages e))"
    "k \<notin> set (map fst (next_refresh e))"
    using Cons.prems by (auto simp: kl simp del: set_map)
  have e': "e' = e\<lparr>heatmap := heatmap e @ [(k, el_heat l)], last_seen_at := last_seen_at e @ [(k, el_last l)],
      stages := stages e @ [(k, el_stage l)], next_refresh := next_refresh e @ [(k, el_next l)],
      primacy_locked := (if el_locked l then primacy_locked e @ [k] else primacy_locked e)\<rparr>"
    using fresh by (simp add: e'_def note_entry_def kl dict_set_new)
  have "set (map fst kls) \<inter> set (map fst (heatmap e')) = {}" "distinct (map fst kls)"
    using Cons.prems by (auto simp: e' kl)
  then have "fold note_entry kls e' = e'\<lparr>heatmap := heatmap e' @ map (\<lambda>(k, l). (k, el_heat l)) kls,
       last_seen_at := last_seen_at e' @ map (\<lambda>(k, l). (k, el_last l)) kls,
       stages := stages e' @ map (\<lambda>(k, l). (k, el_stage l)) kls, next_refresh := next_refresh e' @ map (\<lambda>(k, l). (k, el_next l)) kls,
       primacy_locked := primacy_locked e' @ map fst (filter (\<lambda>(k, l). el_locked l) kls)\<rparr>"
    using Cons.prems by (intro Cons.IH) (simp_all add: e')
  then show ?case by (simp add: e'_def [symmetric]) (simp add: e' kl)
qed simp

lemma tracker_line:
  assumes "distinct (map fst kls)" "(k, l) \<in> set kls"
  shows "line_of (tracker_of kls) k = l" "map_of (heatmap (tracker_of kls)) k = Some (el_heat l)"
proof -
  have field: "cget k (map (\<lambda>(k, l). (k, f l)) kls) = f l" "map_of (map (\<lambda>(k, l). (k, f l)) kls) k = Some (f l)" for f
  proof -
    have "map_of (map (\<lambda>(k, l). (k, f l)) kls) k = Some (f l)"
      using assms by (intro map_of_is_SomeI) (force simp: o_def case_prod_beta)+
    then show "cget k (map (\<lambda>(k, l). (k, f l)) kls) = f l" "map_of (map (\<lambda>(k, l). (k, f l)) kls) k = Some (f l)"
      by (simp_all add: cget_def)
  qed
  have locked: "k \<in> set (map fst (filter (\<lambda>(k, l). el_locked l) kls)) \<longleftrightarrow> el_locked l"
  proof -
    have "k \<in> set (map fst (filter (\<lambda>(k, l). el_locked l) kls)) \<longleftrightarrow> (\<exists>l'. (k, l') \<in> set kls \<and> el_locked l')" by (auto intro: rev_image_eqI)
    then show ?thesis using assms eq_key_imp_eq_value [OF assms(1)] by blast
  qed
  note t = note_entries [OF assms(1), of new_entropy]
  show "line_of (tracker_of kls) k = l" "map_of (heatmap (tracker_of kls)) k = Some (el_heat l)"
    using t field locked by (simp_all add: tracker_of_def new_entropy_def line_of_def)
qed

lemma entropy_entries_lines:
  "list_all (\<lambda>(k, l). plain_key k) kls \<Longrightarrow>
     entropy_entries (map (\<lambda>(k, l). ''  '' @ tracked_line k l) kls) e = Inr (fold note_entry kls e)"
proof (induction kls arbitrary: e)
  case (Cons kl kls)
  obtain k l where kl: "kl = (k, l)" by (cases kl)
  have key: "plain_key k" using Cons.prems by (simp add: kl)
  have ends: "\<not> py_space (last (tracked_line k l))" "\<not> py_space (hd (tracked_line k l))" "tracked_line k l \<noteq> []"
  proof -
    have d: "\<not> py_space (CHR ''d'')" by code_simp
    have "\<not> py_space (last (int_str (el_next l)))" "int_str (el_next l) \<noteq> []"
      using int_str_free(2) [of "el_next l"] by (auto simp: list_all_iff int_str_def)
    then show "\<not> py_space (last (tracked_line k l))" using d by (simp add: tracked_line_def)
    show "\<not> py_space (hd (tracked_line k l))" "tracked_line k l \<noteq> []"
      using key strip_fixed_iff [of k] by (auto simp: tracked_line_def plain_key_def)
  qed
  then have "py_strip (tracked_line k l) = tracked_line k l" by (simp add: strip_fixed_iff)
  then have "py_strip (''  '' @ tracked_line k l) = tracked_line k l" by (simp add: strip_space)
  then show ?case using Cons ends(3) by (simp add: kl entropy_entry_line [OF key])
qed simp

text \<open>C24: the tracker survives its text form: any tracker that was read from lines with distinct keys, written out as \<open>to_tok\<close> writes it
  and read again, is the same, with its counts, turns, stages and locks.\<close>

theorem tracker_roundtrip:
  assumes keys: "distinct (map fst kls)" "list_all (\<lambda>(k, l). plain_key k) kls"
  shows "parse_entropy (tracker_text (tracker_of kls)) = Inr (tracker_of kls)"
proof -
  have heat: "heatmap (tracker_of kls) = map (\<lambda>(k, l). (k, el_heat l)) kls"
    using note_entries [OF keys(1), of new_entropy] by (simp add: tracker_of_def new_entropy_def)
  have lines: "map (\<lambda>kh. ''  '' @ entropy_text (tracker_of kls) kh) (heatmap (tracker_of kls)) = map (\<lambda>(k, l). ''  '' @ tracked_line k l) kls"
    unfolding heat using tracker_line [OF keys(1)] entropy_text_line by (auto simp: case_prod_beta)
  have blank: "\<not> line_break (CHR '' '')" "list_all (\<lambda>c. \<not> line_break c) ''|heat:last:stage:next:locked''" by code_simp+
  have "list_all (\<lambda>w. w \<noteq> [] \<and> list_all (\<lambda>c. \<not> line_break c) w) (map (\<lambda>(k, l). ''  '' @ tracked_line k l) kls)"
    using keys(2) blank int_str_free(2) by (fastforce simp: list_all_iff tracked_line_def plain_key_def)
  then show ?thesis
    unfolding tracker_text_def lines parse_entropy_def splitlines_join
    using entropy_entries_lines [OF keys(2)] by (simp add: splitlines_join tracker_of_def)
qed

theorem tracker_roundtrip_witness:
  "parse_entropy (tracker_text (tracker_of [(''lang'', \<lparr>el_heat = 2, el_last = 7, el_stage = 1, el_next = 12, el_locked = True\<rparr>)])) =
     Inr (tracker_of [(''lang'', \<lparr>el_heat = 2, el_last = 7, el_stage = 1, el_next = 12, el_locked = True\<rparr>)])"
proof (rule tracker_roundtrip)
  show "list_all (\<lambda>(k, l). plain_key k) [(''lang'', \<lparr>el_heat = 2, el_last = 7, el_stage = 1, el_next = 12, el_locked = True\<rparr>)]"
    by code_simp
qed simp

end
