(* ===== verification/Spec2Isabelle.thy ===== *)
theory Spec2Isabelle
  imports PreflightRewrite HistorySlicing EvidenceSafety Smoothness SmartPolicy ExactPatch
    Resolver UnifiedDiff TraceAudit LiveTrace MacroTools TargetSummaries ToolExecutor BehaviorSignals GatewayCache ResultPipeline AnthropicOptimizations PreflightDriver TokMemory
begin

text \<open>
  \<^bold>\<open>A verification development for the Tok bridge\<close>

  Tok stands between a coding client and a provider of language models. A request body, parsed from JSON,
  holds a list of messages; a message has a role and content blocks; an assistant message may call tools,
  and the next user message must answer each call by its identifier. The bridge rewrites this history into
  the shape that the provider accepts, checks it, repairs or removes what is broken, cuts old history away,
  and keeps books on what evidence the model has seen exactly and how smoothly the session runs.

  \<^bold>\<open>Theories and code\<close> (paths under \<open>src/tok\<close>)

  \<^item> \<open>TokPrelude\<close>: Python strings, dictionaries (association lists in insertion order), raised errors as the
    left side of a sum (\<open>py\<close>), shared list lemmas, the collections \<open>tok_str\<close>, \<open>tok_dict\<close> and \<open>tok_blocks\<close>.
  \<^item> \<open>PyJson\<close>: JSON values as the code sees them after \<open>json.loads\<close>, \<open>get\<close>, \<open>str\<close>, truth, equality and
    hashing of values, compact printing, and the counters that the code calls signals.
  \<^item> \<open>ProviderBlocks\<close>: \<open>provider_block_semantics.py\<close>, \<open>provider_opaque_blocks.py\<close>.
  \<^item> \<open>SignalRegistry\<close>: \<open>runtime/_signal_registry.py\<close>, the failure predicates of
    \<open>runtime/pipeline/request_validation.py\<close> and \<open>gateway/_signal_constants.py\<close>.
  \<^item> \<open>ToolIds\<close>: identifiers, \<open>runtime/pipeline/_bridge_wire_models.py\<close>. The locale \<open>id_allocator\<close> is the contract
    of an allocator (what it returns is valid and was not taken); it is interpreted on the code's allocator.
  \<^item> \<open>MessageNormalize\<close>, \<open>MessagePasses\<close>, \<open>ToolIdRewrite\<close>, \<open>Canonicalize\<close>: canonicalisation in
    \<open>request_validation.py\<close>, in the order the code runs it: each message alone, block order, split, merge,
    identifiers and pairing, then the driver with the protection of thinking blocks. The locale \<open>message_pass\<close>
    is the contract of a pass (it keeps the shape and the multiset of blocks); \<open>pass_pair\<close> composes two.
  \<^item> \<open>ShapeRisks\<close>, \<open>BridgeDiagnostics\<close>, \<open>BridgeValidation\<close>: the risk collector and the validators of
    \<open>request_validation.py\<close> and \<open>bridge_message_validation.py\<close>. \<open>well_paired\<close>, \<open>message_ok\<close> and
    \<open>bridge_body_ok\<close> are the specifications, written without the code's counters.
  \<^item> \<open>Quarantine\<close>, \<open>PreflightRewrite\<close>, \<open>PreflightDriver\<close>: removal of broken exchanges and the preflight of
    \<open>gateway/_bridge_preflight.py\<close>, first its helpers and the snapshot and restore of \<open>runtime/_request_preparation.py\<close>,
    then the driver \<open>_run_bridge_preflight\<close>, which composes canonicalisation, validation, quarantine, the fingerprints and the
    fallback of the session and decides what is sent.
  \<^item> \<open>GatewayCache\<close>: \<open>gateway/_cache_control.py\<close>, \<open>_fingerprint.py\<close>, \<open>_bridge_comparison.py\<close>, \<open>_request_policy.py\<close>.
  \<^item> \<open>AnthropicOptimizations\<close>: \<open>gateway/_anthropic_optimizations.py\<close>, with the failures half way.
  \<^item> \<open>SessionState\<close>: the state groups of \<open>runtime/core.py\<close> with the methods that work on them, the fallback, loop detection,
    the skeleton guard and the stages of a request (\<open>runtime/_fallback_state.py\<close> and its siblings).
  \<^item> \<open>BehaviorSignals\<close>: \<open>runtime/_signal_definitions.py\<close>, the registry of signals and its aggregation.
  \<^item> \<open>FileTree\<close>, \<open>ToolExecutor\<close>: \<open>runtime/tools.py\<close> on a file tree with symbolic links; \<open>SkeletonDelta\<close>: \<open>utils/delta.py\<close>.
  \<^item> \<open>PyRegex\<close>: the regular expressions of Python that the code uses, as a backtracking matcher that lists the ends of a
    match in order of preference, with \<open>search\<close>, \<open>finditer\<close>, \<open>sub\<close> and \<open>split\<close>.
  \<^item> \<open>ResultTruncation\<close>, \<open>ResultDetection\<close>, \<open>ResultCodecs\<close>, \<open>ResultPipeline\<close>: \<open>compression/_tool_result_truncation.py\<close>,
    \<open>_tool_result_codecs.py\<close>, \<open>_tool_result_advisory.py\<close>, \<open>_tool_result_pipeline.py\<close> and \<open>_registry.py\<close>. The locale
    \<open>shrinking_codec\<close> is the contract of a codec; it is interpreted on the codecs that keep it.
  \<^item> \<open>TokMemory\<close>: \<open>protocol/models.py\<close>, the entropy tracker, the tiers of the memory and its text form.
  \<^item> \<open>HistorySlicing\<close>: \<open>runtime/_history_slicing.py\<close>.
  \<^item> \<open>EvidenceSafety\<close>: \<open>runtime/evidence_safety.py\<close>, with runs of the ledger as lists of operations.
  \<^item> \<open>Smoothness\<close>: \<open>runtime/smoothness\<close>; the tracker is a step relation with reachable states.
  \<^item> \<open>SmartPolicy\<close>: \<open>runtime/policy/smart_policy.py\<close>.
  \<^item> \<open>ExactPatch\<close>: \<open>deterministic/models.py\<close>, \<open>action_decision.py\<close>, \<open>exact_patch.py\<close>.
  \<^item> \<open>PyText\<close>: lines, character classes, \<open>json.dumps\<close> of a text and the digest of \<open>resolver/store.py\<close>.
  \<^item> \<open>Resolver\<close>: \<open>resolver/paths.py\<close>, \<open>store.py\<close>, \<open>manifest.py\<close> and \<open>utils/resolver_cache.py\<close>. The locale
    \<open>content_store\<close> is what the cache relies on; it is interpreted on the model of the object store.
  \<^item> \<open>UnifiedDiff\<close>, \<open>TraceAudit\<close>: \<open>spec/trace.py\<close>, the replay of unified diffs, the validator of trace blocks, the
    audit of artifacts, of sequences and of files. \<open>documented_block\<close> is the block of the schema document, written without the validator.
  \<^item> \<open>LiveTrace\<close>: \<open>spec/live_trace.py\<close>, whose blocks the validator of \<open>TraceAudit\<close> reads.
  \<^item> \<open>MacroIR\<close>: \<open>macros/ir.py\<close>, with the registry as a state machine over lists of operations and the interpreter
    with the depth that Python's recursion limit allows as an argument.
  \<^item> \<open>MacroTools\<close>: \<open>macros/tool_map.py\<close>, \<open>parameterization.py\<close>, \<open>expansion.py\<close> and \<open>miner.py\<close>.
  \<^item> \<open>ShellText\<close>, \<open>RepeatTargets\<close>, \<open>TargetSummaries\<close>: \<open>runtime/repeat_targets.py\<close> with what it uses of \<open>posixpath\<close>,
    \<open>pathlib\<close> and \<open>shlex\<close>: targets of tool calls and shell commands, evidence keys, summaries of results.
  \<^item> This theory: properties that need several of them.

  \<^bold>\<open>What the lemmas show\<close>

  Canonicalisation keeps the thinking blocks of assistant messages in order and unchanged, gives all tool
  calls distinct safe identifiers, separates tool results from other user content, and its passes neither
  lose nor duplicate blocks (the protected message keeps its order). The strict validator accepts exactly the bodies of the specification; the risk
  collector is silent exactly on well paired conversations. Results are put in the order of the calls they answer, each unchanged but for its identifier.
  The interleaving rewrite preserves pairing in both directions. Quarantine keeps every block that is not a
  tool call or result, and reports success only with a good body. History cuts are suffixes that are safe.
  The exactness gate depends on the last observation of a key since the last reset. The tracker's reports
  are the scores of its events. An applied patch replaced the first and only occurrence (but for overlaps) in one file inside the workspace,
  and a rejected patch changed none. Stored content stays retrievable by its address, a cached path returns what was
  stored last. The trace validator accepts the blocks of the schema document but for two lists of demands that are named, a passing audit means
  that the digests, the artifacts and the delta are reproducible, and a delta that was rendered from an edit script
  passes. The blocks of the live emitter form a sequence that the auditor accepts. The macro registry never holds
  two macros with the same operators, execution ends when macros can be ranked, and parameterised macros expand
  to the instructions they came from. Normalised paths lead where the given ones lead, a file read through the
  shell has the key of the same read through a tool, and summaries quote lines in order and within their limits. What leaves the
  preflight is the client's own body or one that passes the outgoing guard, or a local answer with the fallback recorded, and
  a request counts as at most one fallback. The optimisations keep every message, role and tool block. Truncation keeps both ends
  and counts what it omits, and codecs account for what they drop. The tools write inside the workspace only. Rebalancing the memory is a partition by stage
  that gives every narrow key the value of the first text that states it and keeps locked facts with such keys, and the tracker survives its text form. Where the code does not do what its documentation says, a
  theorem on a concrete input shows it.

  \<^bold>\<open>Modelling decisions\<close>

  \<^item> Strings hold code points below 256; integers are unbounded, as in Python; JSON numbers with a fraction
    are carried by their text. Scores that the code holds as floats are rationals.
  \<^item> Where the code names an object by \<open>id\<close>, the model names it by its position in the list: bodies come from
    \<open>json.loads\<close>, so no two positions share an object. Lists that the code deep-copies and then updates in
    place are values here.
  \<^item> \<open>list(set(failures))\<close> has an unspecified order; the model removes duplicates and keeps the order, and no
    property depends on it.
  \<^item> Parameters: \<open>sha\<close> and \<open>digest\<close> for SHA-256, \<open>wire\<close> for the error list of the pydantic model, \<open>env\<close> for the
    environment variable or, in \<open>ExactPatch\<close>, for path resolution and the outcomes of the system calls.
  \<^item> Loops are structural recursion or have a measure: the search for a free identifier stops because the taken
    identifiers ahead of the counter are finitely many, the count of occurrences because each step drops at
    least one character. The only fuel is the depth of macro calls in \<open>MacroIR\<close>, which stands for the recursion
    limit and whose exhaustion is the error the code raises; a theorem says which depth is enough. The matcher of \<open>PyRegex\<close>
    terminates because a further round of a repetition has to advance.
  \<^item> Log lines are left out everywhere; events that the code captures are values in the state.

  \<^bold>\<open>Not modelled\<close>

  The request handler and the streaming around the preflight (asynchronous I/O), the pydantic classes (their error list is a
  parameter), the stages of \<open>runtime/pipeline\<close> that prepare a request and process a response, the history compression of
  \<open>compression/_history_pipeline.py\<close>, the codec of file reads (it parses Python with \<open>ast\<close>, which is a parameter at best), the
  memory of the bridge under \<open>runtime/memory\<close>, the streaming parser and the receipts of \<open>protocol\<close>, the analysis and savings
  reports, the command line and the test harnesses. They rest on the parts above; what is nearest is the preparation of a request,
  which calls most of the modelled components in turn.
\<close>

section \<open>Properties that span components\<close>

subsection \<open>Separated user messages survive the identifier rewrite\<close>

definition unmixed :: "json list \<Rightarrow> bool" where
  "unmixed bs \<longleftrightarrow> list_all (has_type ''tool_result'') bs \<or> list_all (\<lambda>b. \<not> has_type ''tool_result'' b) bs"

lemma user_block_results:
  assumes "has_type ''tool_result'' b"
    and "list_all (has_type ''tool_result'') (map snd (u_matched st) @ u_unmatched st @ u_content st)" and "u_others st = []"
  shows "list_all (has_type ''tool_result'')
      (map snd (u_matched (user_block b st)) @ u_unmatched (user_block b st) @ u_content (user_block b st)) \<and>
    u_others (user_block b st) = []"
  using assms has_type_is_dict [OF assms(1)]
  by (auto simp: user_block_def Let_def split: option.splits prod.splits)

lemma user_fold_results:
  "list_all (has_type ''tool_result'') bs \<Longrightarrow>
     list_all (has_type ''tool_result'') (map snd (u_matched st) @ u_unmatched st @ u_content st) \<Longrightarrow> u_others st = [] \<Longrightarrow>
     list_all (has_type ''tool_result'') (map snd (u_matched (fold user_block bs st)) @ u_unmatched (fold user_block bs st) @
       u_content (fold user_block bs st)) \<and> u_others (fold user_block bs st) = []"
proof (induction bs arbitrary: st)
  case (Cons b bs)
  have "has_type ''tool_result'' b" "list_all (has_type ''tool_result'') bs" using Cons.prems(1) by simp_all
  with user_block_results [OF _ Cons.prems(2,3)] Cons.IH show ?case by simp
qed simp

lemma user_fold_others:
  "list_all (\<lambda>b. \<not> has_type ''tool_result'' b) bs \<Longrightarrow> u_matched st = [] \<Longrightarrow> u_unmatched st = [] \<Longrightarrow>
     list_all (\<lambda>b. \<not> has_type ''tool_result'' b) (u_others st @ u_content st) \<Longrightarrow>
     u_matched (fold user_block bs st) = [] \<and> u_unmatched (fold user_block bs st) = [] \<and>
     list_all (\<lambda>b. \<not> has_type ''tool_result'' b) (u_others (fold user_block bs st) @ u_content (fold user_block bs st))"
proof (induction bs arbitrary: st)
  case (Cons b bs)
  have "u_matched (user_block b st) = []" "u_unmatched (user_block b st) = []"
    "list_all (\<lambda>b. \<not> has_type ''tool_result'' b) (u_others (user_block b st) @ u_content (user_block b st))"
    using Cons.prems by (simp_all add: user_block_def)
  with Cons.IH Cons.prems(1) show ?case by simp
qed simp

lemma rewrite_user_unmixed:
  assumes "unmixed bs" and "rewrite_user_tool_message bs pending signals = (bs', c, signals')"
  shows "unmixed bs'"
proof -
  define st0 where "st0 = \<lparr>u_pending = pending, u_signals = signals, u_changed = False, u_matched = [],
             u_unmatched = [], u_others = [], u_content = []\<rparr>"
  define st where "st = fold user_block bs st0"
  have "bs' = fst (rewrite_user_tool_message bs pending signals)" by (simp add: assms(2))
  also have "\<dots> = map snd (sort_key fst (u_matched st)) @ u_unmatched st @ u_others st \<or>
      fst (rewrite_user_tool_message bs pending signals) = u_content st"
    by (simp add: rewrite_user_tool_message_def Let_def st0_def [symmetric] st_def [symmetric])
  finally have bs': "bs' = map snd (sort_key fst (u_matched st)) @ u_unmatched st @ u_others st \<or> bs' = u_content st"
    by (simp add: assms(2))
  from assms(1) show ?thesis
    unfolding unmixed_def
  proof
    assume "list_all (has_type ''tool_result'') bs"
    from user_fold_results [OF this, of st0]
    have "list_all (has_type ''tool_result'') (map snd (u_matched st) @ u_unmatched st @ u_content st)" "u_others st = []"
      by (simp_all add: st_def st0_def)
    then have "list_all (has_type ''tool_result'') bs'"
      using bs' by (fastforce simp: list_all_iff)
    then show "list_all (has_type ''tool_result'') bs' \<or> list_all (\<lambda>b. \<not> has_type ''tool_result'' b) bs'" ..
  next
    assume "list_all (\<lambda>b. \<not> has_type ''tool_result'' b) bs"
    from user_fold_others [OF this, of st0]
    have "list_all (\<lambda>b. \<not> has_type ''tool_result'' b) bs'"
      using bs' by (auto simp: st_def [symmetric]) (auto simp: st0_def)
    then show "list_all (has_type ''tool_result'') bs' \<or> list_all (\<lambda>b. \<not> has_type ''tool_result'' b) bs'" ..
  qed
qed

lemma unmixed_iff:
  "list_all is_dict bs \<Longrightarrow> unmixed bs \<longleftrightarrow>
     \<not> (list_ex (has_type ''tool_result'') bs \<and> list_ex (dict_without_type ''tool_result'') bs)"
  by (auto simp: unmixed_def list_all_iff list_ex_iff dict_without_type_def)

definition separated :: "json \<Rightarrow> bool" where
  "separated m \<longleftrightarrow> (msg_role m = ''user'' \<longrightarrow> unmixed (blocks_of m))"

lemma separated_shaped: "shaped m \<Longrightarrow> \<not> mixed_user m \<Longrightarrow> separated m"
  by (elim shapedE) (auto simp: separated_def mixed_user_def unmixed_iff)

lemma merge_into_unmixed:
  "shaped prev \<Longrightarrow> \<not> mixed_user prev \<Longrightarrow> list_all shaped ms \<Longrightarrow> list_all (\<lambda>m. \<not> mixed_user m) ms \<Longrightarrow>
     merge_into prev ms = (ms', n) \<Longrightarrow> list_all (\<lambda>m. \<not> mixed_user m) ms'"
proof (induction prev ms arbitrary: ms' n rule: merge_into.induct)
  case (1 prev)
  then show ?case by auto
next
  case (2 prev m ms)
  obtain r bs where prev: "prev = simple_message r bs" "r = ''user'' \<or> r = ''assistant''" "list_all is_dict bs"
    using "2.prems"(1) by (auto simp: shaped_def)
  obtain r' cs where m: "m = simple_message r' cs" "r' = ''user'' \<or> r' = ''assistant''" "list_all is_dict cs"
    using "2.prems"(3) by (auto simp: shaped_def)
  show ?case
  proof (cases "merges_with prev m")
    case True
    have "shaped (extend_content prev m)" "\<not> mixed_user (extend_content prev m)"
      using True prev m by (auto simp: mixed_user_def)
    moreover obtain k where "merge_into (extend_content prev m) ms = (ms', k)"
      using "2.prems"(5) True by (auto split: prod.splits)
    ultimately show ?thesis using "2.IH"(1) [OF True] "2.prems"(3,4) by simp
  next
    case False
    then obtain rest k where "merge_into m ms = (rest, k)" "ms' = prev # rest"
      using "2.prems"(5) by (auto split: prod.splits)
    with "2.IH"(2) [OF False] "2.prems" show ?thesis by simp
  qed
qed

lemma structural_separated:
  assumes "list_all shaped ms"
  shows "list_all separated (fst (structural_passes skip ms))"
proof -
  define m1 where "m1 = fst (normalize_assistant_block_order skip ms)"
  define m2 where "m2 = fst (split_mixed_user_tool_result_messages m1)"
  have 1: "list_all shaped m1"
    unfolding m1_def by (rule order_pass.run_ok [OF assms])
  obtain c s where split: "split_mixed_user_tool_result_messages m1 = (m2, c, s)"
    unfolding m2_def by (metis prod.collapse)
  from split_pass_spec [OF 1 split] have 2: "list_all shaped m2" "list_all (\<lambda>m. \<not> mixed_user m) m2"
    by simp_all
  have "list_all (\<lambda>m. \<not> mixed_user m) (fst (merge_adjacent_anthropic_messages m2))"
  proof (cases m2)
    case Nil
    then show ?thesis by (simp add: merge_adjacent_anthropic_messages_def)
  next
    case (Cons m ns)
    obtain r n where r: "merge_into m ns = (r, n)" by fastforce
    with merge_into_unmixed [OF _ _ _ _ r] 2 Cons show ?thesis
      by (simp add: merge_adjacent_anthropic_messages_def)
  qed
  moreover have "list_all shaped (fst (structural_passes skip ms))" by (rule structural_shaped [OF assms])
  ultimately show ?thesis
    using separated_shaped by (simp add: structural_passes_fst m1_def m2_def list_all_iff)
qed

lemma rewrite_message_separated:
  assumes "separated m" and "rewrite_message prot i m st = (m', st')"
  shows "separated m'"
proof (cases "msg_content m")
  case None
  with assms show ?thesis by (simp add: rewrite_message_def)
next
  case (Some bs)
  have role: "msg_role m' = msg_role m"
    using assms(2) Some by (auto simp: rewrite_message_def split: if_splits prod.splits dest: msg_content_is_dict)
  show ?thesis
  proof (cases "msg_role m = ''user'' \<and> r_pending st \<noteq> []")
    case True
    obtain bs' c s where w: "rewrite_user_tool_message bs (r_pending st) (r_signals st) = (bs', c, s)"
      by (metis prod_cases3)
    then have "m' = set_content bs' m" using assms(2) Some True by (auto simp: rewrite_message_def)
    moreover have "unmixed bs'"
      using rewrite_user_unmixed [OF _ w] assms(1) True Some by (simp add: separated_def blocks_of_def)
    ultimately show ?thesis
      using Some by (simp add: separated_def msg_content_is_dict)
  next
    case False
    show ?thesis
    proof (cases "msg_role m = ''user''")
      case True
      with False have "m' = m" using assms(2) Some by (auto simp: rewrite_message_def)
      with assms(1) show ?thesis by simp
    qed (simp add: separated_def role)
  qed
qed

lemma rewrite_from_separated:
  "list_all separated ms \<Longrightarrow> rewrite_from prot i ms st = (ms', st') \<Longrightarrow> list_all separated ms'"
proof (induction ms arbitrary: i st ms')
  case (Cons m ms)
  obtain m1 st1 where one: "rewrite_message prot i m st = (m1, st1)" by fastforce
  obtain ms1 where "rewrite_from prot (Suc i) ms st1 = (ms1, st')" "ms' = m1 # ms1"
    using Cons.prems(2) one by (auto split: prod.splits)
  with Cons.IH rewrite_message_separated [OF _ one] Cons.prems(1) show ?case by auto
qed simp

lemma separated_not_counted:
  "list_all separated ms \<Longrightarrow> count_user_messages_with_mixed_tool_result_content ms = 0"
  by (auto simp: count_user_messages_with_mixed_tool_result_content_def filter_empty_conv list_all_iff separated_def
      unmixed_def has_result_def has_non_result_def list_ex_iff user_list_message_def is_tool_result_has_type
      dict_without_type_def)

text \<open>
  C6: Whatever the given history looks like, the canonical conversation has no user message that mixes tool
  results with other blocks: the counter of such messages, which the preflight reports before and after
  canonicalisation, is zero afterwards.
\<close>

theorem canonical_results_separated:
  assumes "canonicalize_anthropic_bridge_messages sha ms seen = Inr (out, changed, signals, seen')"
  shows "count_user_messages_with_mixed_tool_result_content out = 0"
proof -
  from canonicalize_messages_cases [OF assms] obtain st r where
    path: "process_messages_into_canonical_path (find_protected_message ms) ms = Inr st"
    and run: "rewrite_from (\<lambda>_. False) 0 (fst (structural_passes (path_protected st) (path st))) rewrite_init = (out, r)" .
  have "list_all shaped (path st)" using canonical_path_spec [OF path] by blast
  from rewrite_from_separated [OF structural_separated [OF this] run] show ?thesis
    by (rule separated_not_counted)
qed

text \<open>A user message that answers a call and goes on asking.\<close>

definition mixed_conversation :: "json list" where
  "mixed_conversation =
    [simple_message ''user'' [text_block ''read it''],
     simple_message ''assistant'' [sample_call ''a''],
     simple_message ''user'' [text_block ''and then?'', sample_result ''a'']]"

definition separated_conversation :: "json list" where
  "separated_conversation =
    [simple_message ''user'' [text_block ''read it''],
     simple_message ''assistant'' [sample_call ''a''],
     simple_message ''user'' [sample_result ''a''],
     simple_message ''user'' [text_block ''and then?'']]"

lemma mixed_canonicalized:
  "canonicalize_anthropic_bridge_messages sample_digest mixed_conversation [] =
     Inr (separated_conversation, True,
       [(''tok_bridge_user_tool_result_text_split'', 1), (''tok_bridge_canonicalized'', 1)], [])"
  by code_simp

theorem canonical_results_separated_witness:
  "count_user_messages_with_mixed_tool_result_content mixed_conversation = 1 \<and>
   count_user_messages_with_mixed_tool_result_content separated_conversation = 0"
proof -
  have "count_user_messages_with_mixed_tool_result_content mixed_conversation = 1" by code_simp
  with canonical_results_separated [OF mixed_canonicalized] show ?thesis by blast
qed

subsection \<open>Quarantine and validation\<close>

text \<open>
  When a quarantine attempt reports success, the body it returns is a good body: it differs from the given
  one in its messages only, and those form an accepted conversation, well paired and with well-formed messages.
\<close>

lemma quarantine_success_good:
  assumes "attempt_quarantine_invalid_tool_history wire body = Inr (body', True, signals, failures)"
  shows "failures = [] \<and> bridge_body_ok wire body' \<and> (\<exists>ms. body' = jset ''messages'' (JList ms) body \<and> conversation_ok ms)"
proof -
  obtain ms q s where q: "jget ''messages'' body = Some (JList ms)"
      "quarantine_invalid_tool_history_messages ms = (q, True, s)" "body' = jset ''messages'' (JList q) body"
      "validate_anthropic_bridge_body wire body' = Inr failures" "failures = []"
    using assms by (auto simp: attempt_quarantine_invalid_tool_history_def Let_def split: option.splits json.splits
        prod.splits if_splits elim!: bind_py_Inr_E)
  have ok: "bridge_body_ok wire body'" using accepted_iff [OF q(4)] q(5) by simp
  have "is_dict body" using q(1) by (auto dest: jget_SomeD)
  then have "jget ''messages'' body' = Some (JList q)" by (simp add: q(3))
  with ok have "conversation_ok q" by (auto simp: bridge_body_ok_def)
  with ok q(3,5) show ?thesis by blast
qed

text \<open>A history whose tool call was never answered, and what quarantine leaves of it.\<close>

definition unanswered_conversation :: "json list" where
  "unanswered_conversation =
    [simple_message ''user'' [text_block ''read it''],
     simple_message ''assistant'' [text_block ''reading'', sample_call ''a''],
     simple_message ''user'' [text_block ''go on'']]"

definition quarantined_conversation :: "json list" where
  "quarantined_conversation =
    [simple_message ''user'' [text_block ''read it''],
     simple_message ''assistant'' [text_block ''reading''],
     simple_message ''user'' [text_block ''go on'']]"

lemma unanswered_quarantined:
  "attempt_quarantine_invalid_tool_history (\<lambda>_. []) (sample_body unanswered_conversation) =
     Inr (sample_body quarantined_conversation, True,
       [(''tok_bridge_invalid_tool_history_quarantined'', 1), (''tok_bridge_quarantined_tool_use_blocks'', 1),
        (''tok_bridge_quarantined_tool_result_blocks'', 0)], [])"
  by code_simp

lemma quarantine_success_good_witness:
  "bridge_body_ok (\<lambda>_. []) (sample_body quarantined_conversation) \<and> \<not> well_paired [] unanswered_conversation"
proof -
  have "\<not> well_paired [] unanswered_conversation" by code_simp
  with quarantine_success_good [OF unanswered_quarantined] show ?thesis by blast
qed

subsection \<open>Restoring after the identifiers changed\<close>

text \<open>
  The restore runs after identifiers were sanitised and puts the old identifiers back: in a conversation that
  canonicalisation made good, the restored assistant message calls \<open>call 1\<close> while the result still
  answers \<open>call_1\<close>, and the pairing rule is violated.
\<close>

lemma restore_undoes_pairing:
  "conversation_ok sample_canonical \<and>
   (\<exists>restored. restore_latest_assistant_thinking sample_content_digest sample_canonical
        (snapshot_latest_assistant_thinking sample_content_digest sample_conversation) = Inr (restored, True) \<and>
      \<not> well_paired [] restored)"
proof
  show "conversation_ok sample_canonical" by code_simp
  let ?restored = "[simple_message ''user'' [text_block ''read it''],
        simple_message ''assistant'' [sample_thinking, sample_call ''call 1''],
        simple_message ''user'' [sample_result ''call_1'']]"
  have "restore_latest_assistant_thinking sample_content_digest sample_canonical
        (snapshot_latest_assistant_thinking sample_content_digest sample_conversation) = Inr (?restored, True)"
    by code_simp
  moreover have "\<not> well_paired [] ?restored" by code_simp
  ultimately show "\<exists>restored. restore_latest_assistant_thinking sample_content_digest sample_canonical
        (snapshot_latest_assistant_thinking sample_content_digest sample_conversation) = Inr (restored, True) \<and>
      \<not> well_paired [] restored" by blast
qed

end
